(* ===== verification/Prelude.thy ===== *)
theory Prelude
  imports Main "HOL-Library.Sublist" "HOL-Library.Product_Lexorder" "HOL-Library.Char_ord"
begin

text \<open>
  Shared vocabulary of the ECUBE development: the collections of simplification rules the
  component proofs use, the fragment of Python's \<open>str\<close> the sources call (over ASCII code
  points), Python truthiness of optional strings, database tables as lists of rows keyed by an
  integer primary key, and the interface \<open>row_store\<close> through which every component
  reads and writes such a table.
\<close>

named_theorems py_str \<open>evaluation rules for the string functions\<close>
named_theorems row_simps \<open>laws of keyed row tables\<close>
named_theorems frame_simps \<open>which tables an operation leaves alone\<close>

section \<open>Python strings\<close>

text \<open>
  A Python \<open>str\<close> is a list of ASCII characters. \<open>str.strip\<close> and the regular expression
  class \<^verbatim>\<open>\s\<close> use the same notion of white space (tab to carriage return, the four
  information separators, space).
\<close>

definition py_isspace :: "char \<Rightarrow> bool" where
  "py_isspace c \<longleftrightarrow> (let n = (of_char c :: nat) in (9 \<le> n \<and> n \<le> 13) \<or> (28 \<le> n \<and> n \<le> 32))"

definition upper_char :: "char \<Rightarrow> char" where
  "upper_char c = (let n = (of_char c :: nat) in if 97 \<le> n \<and> n \<le> 122 then char_of (n - 32) else c)"

definition lower_char :: "char \<Rightarrow> char" where
  "lower_char c = (let n = (of_char c :: nat) in if 65 \<le> n \<and> n \<le> 90 then char_of (n + 32) else c)"

definition py_upper :: "string \<Rightarrow> string" where
  "py_upper s = map upper_char s"

definition py_lower :: "string \<Rightarrow> string" where
  "py_lower s = map lower_char s"

definition py_lstrip_with :: "(char \<Rightarrow> bool) \<Rightarrow> string \<Rightarrow> string" where
  "py_lstrip_with P s = dropWhile P s"

definition py_rstrip_with :: "(char \<Rightarrow> bool) \<Rightarrow> string \<Rightarrow> string" where
  "py_rstrip_with P s = rev (dropWhile P (rev s))"

definition py_strip :: "string \<Rightarrow> string" where
  "py_strip s = py_rstrip_with py_isspace (py_lstrip_with py_isspace s)"

definition py_startswith :: "string \<Rightarrow> string \<Rightarrow> bool" where
  "py_startswith s p \<longleftrightarrow> prefix p s"

fun py_contains :: "string \<Rightarrow> string \<Rightarrow> bool" where
  "py_contains [] sub = (sub = [])"
| "py_contains (c # s) sub = (prefix sub (c # s) \<or> py_contains s sub)"

definition py_replace_char :: "char \<Rightarrow> char \<Rightarrow> string \<Rightarrow> string" where
  "py_replace_char a b s = map (\<lambda>c. if c = a then b else c) s"

text \<open>\<open>s.split(c)\<close> for a one-character separator and \<open>sep.join(parts)\<close>.\<close>

fun split_on :: "char \<Rightarrow> string \<Rightarrow> string list" where
  "split_on c [] = [[]]"
| "split_on c (x # xs) =
     (if x = c then [] # split_on c xs
      else (case split_on c xs of [] \<Rightarrow> [[x]] | p # ps \<Rightarrow> (x # p) # ps))"

fun join_with :: "string \<Rightarrow> string list \<Rightarrow> string" where
  "join_with sep [] = []"
| "join_with sep [p] = p"
| "join_with sep (p # q # ps) = p @ sep @ join_with sep (q # ps)"

text \<open>Truth value of a \<open>Optional[str]\<close>: \<open>None\<close> and the empty string are false.\<close>

fun truthy :: "string option \<Rightarrow> bool" where
  "truthy None = False"
| "truthy (Some s) = (s \<noteq> [])"

text \<open>\<open>str(n)\<close> for an integer.\<close>

fun digits_of_nat :: "nat \<Rightarrow> string" where
  "digits_of_nat n =
     (if n < 10 then [char_of (48 + n)] else digits_of_nat (n div 10) @ [char_of (48 + n mod 10)])"

declare digits_of_nat.simps [simp del]

definition str_int :: "int \<Rightarrow> string" where
  "str_int i = (if i < 0 then CHR ''-'' # digits_of_nat (nat (- i)) else digits_of_nat (nat i))"

subsection \<open>Laws of the string functions\<close>

lemma split_on_nonempty [simp]: "split_on c s \<noteq> []"
  by (induction s) (auto split: list.splits)

lemma split_on_no_sep: "p \<in> set (split_on c s) \<Longrightarrow> c \<notin> set p"
proof (induction s arbitrary: p)
  case Nil
  then show ?case by simp
next
  case (Cons x xs)
  show ?case
  proof (cases "x = c")
    case True
    with Cons show ?thesis by auto
  next
    case False
    obtain q qs where "split_on c xs = q # qs"
      by (cases "split_on c xs") auto
    with Cons False show ?thesis by auto
  qed
qed

lemma join_split [simp]: "join_with [c] (split_on c s) = s"
proof (induction s)
  case Nil
  then show ?case by simp
next
  case (Cons x xs)
  obtain q qs where "split_on c xs = q # qs"
    by (cases "split_on c xs") auto
  with Cons show ?case by (cases qs) auto
qed

lemma split_on_plain: "c \<notin> set p \<Longrightarrow> split_on c p = [p]"
  by (induction p) auto

lemma split_on_append_sep: "c \<notin> set p \<Longrightarrow> split_on c (p @ c # s) = p # split_on c s"
  by (induction p) auto

lemma split_join:
  "ps \<noteq> [] \<Longrightarrow> (\<And>p. p \<in> set ps \<Longrightarrow> c \<notin> set p) \<Longrightarrow> split_on c (join_with [c] ps) = ps"
proof (induction ps rule: induct_list012)
  case 1
  then show ?case by simp
next
  case (2 p)
  then show ?case by (simp add: split_on_plain)
next
  case (3 p q ps)
  then show ?case by (simp add: split_on_append_sep)
qed

lemma py_lstrip_with_idem [simp]: "py_lstrip_with P (py_lstrip_with P s) = py_lstrip_with P s"
  by (simp add: py_lstrip_with_def dropWhile_idem)

lemma hd_py_lstrip: "py_lstrip_with P s \<noteq> [] \<Longrightarrow> \<not> P (hd (py_lstrip_with P s))"
  by (simp add: py_lstrip_with_def hd_dropWhile)

lemma last_py_rstrip: "py_rstrip_with P s \<noteq> [] \<Longrightarrow> \<not> P (last (py_rstrip_with P s))"
  by (simp add: py_rstrip_with_def last_rev hd_dropWhile)

lemma py_rstrip_with_Cons_hd:
  "py_rstrip_with P s \<noteq> [] \<Longrightarrow> hd (py_rstrip_with P s) = hd s"
proof -
  assume ne: "py_rstrip_with P s \<noteq> []"
  have "s = py_rstrip_with P s @ rev (takeWhile P (rev s))"
    by (metis py_rstrip_with_def rev_append rev_rev_ident takeWhile_dropWhile_id)
  with ne show ?thesis by (metis hd_append2)
qed

lemma py_strip_fixpoint:
  "s = [] \<or> (\<not> py_isspace (hd s) \<and> \<not> py_isspace (last s)) \<Longrightarrow> py_strip s = s"
proof (cases s)
  case Nil
  then show ?thesis by (simp add: py_strip_def py_lstrip_with_def py_rstrip_with_def)
next
  case (Cons c cs)
  assume h: "s = [] \<or> (\<not> py_isspace (hd s) \<and> \<not> py_isspace (last s))"
  with Cons have "dropWhile py_isspace s = s" and "\<not> py_isspace (last s)" by auto
  moreover have "dropWhile py_isspace (rev s) = rev s"
    using Cons \<open>\<not> py_isspace (last s)\<close>
    by (simp add: dropWhile_eq_self_iff hd_rev del: rev.simps)
  ultimately show ?thesis by (simp add: py_strip_def py_lstrip_with_def py_rstrip_with_def)
qed

lemma py_strip_ends:
  "py_strip s = [] \<or> (\<not> py_isspace (hd (py_strip s)) \<and> \<not> py_isspace (last (py_strip s)))"
proof (cases "py_strip s = []")
  case False
  let ?t = "py_lstrip_with py_isspace s"
  from False have ne: "py_rstrip_with py_isspace ?t \<noteq> []" by (simp add: py_strip_def)
  then have "?t \<noteq> []" by (auto simp: py_rstrip_with_def)
  with ne show ?thesis
    by (metis hd_py_lstrip last_py_rstrip py_rstrip_with_Cons_hd py_strip_def)
qed simp

lemma py_strip_idem [simp]: "py_strip (py_strip s) = py_strip s"
  by (rule py_strip_fixpoint) (rule py_strip_ends)

text \<open>Upper-casing and white space: a letter stays a letter.\<close>

lemma of_char_upper_char:
  "(of_char (upper_char c) :: nat) =
     (if 97 \<le> (of_char c :: nat) \<and> of_char c \<le> (122::nat) then of_char c - 32 else of_char c)"
proof -
  have "(of_char c - 32) mod (256::nat) = of_char c - 32"
    by (rule mod_less) (rule le_less_trans [OF diff_le_self], simp)
  then show ?thesis by (simp add: upper_char_def Let_def)
qed

lemma upper_char_idem [simp]: "upper_char (upper_char c) = upper_char c"
proof -
  have "(of_char (upper_char (upper_char c)) :: nat) = of_char (upper_char c)"
    unfolding of_char_upper_char [of "upper_char c"] by (auto simp: of_char_upper_char)
  then show ?thesis by simp
qed

lemma py_isspace_upper_char [simp]: "py_isspace (upper_char c) = py_isspace c"
  by (auto simp: py_isspace_def Let_def of_char_upper_char)

lemma py_upper_idem [simp]: "py_upper (py_upper s) = py_upper s"
  by (simp add: py_upper_def)

lemma py_upper_Nil_iff [simp]: "py_upper s = [] \<longleftrightarrow> s = []"
  by (simp add: py_upper_def)

lemma py_strip_upper: "py_strip (py_upper (py_strip s)) = py_upper (py_strip s)"
proof (rule py_strip_fixpoint)
  let ?t = "py_strip s"
  show "py_upper ?t = [] \<or> \<not> py_isspace (hd (py_upper ?t)) \<and> \<not> py_isspace (last (py_upper ?t))"
    using py_strip_ends [of s] by (auto simp: py_upper_def hd_map last_map)
qed

text \<open>Decimal rendering is injective.\<close>

definition undigits :: "string \<Rightarrow> nat" where
  "undigits s = foldl (\<lambda>a c. 10 * a + (of_char c - 48)) 0 s"

lemma undigits_digits [simp]: "undigits (digits_of_nat n) = n"
proof (induction n rule: digits_of_nat.induct)
  case (1 n)
  show ?case
  proof (cases "n < 10")
    case True
    then show ?thesis by (subst digits_of_nat.simps) (simp add: undigits_def)
  next
    case False
    with "1.IH" have "undigits (digits_of_nat (n div 10)) = n div 10" by simp
    with False show ?thesis by (subst digits_of_nat.simps) (simp add: undigits_def)
  qed
qed

lemma digits_of_nat_inj: "digits_of_nat m = digits_of_nat n \<Longrightarrow> m = n"
  by (metis undigits_digits)

lemma digits_of_nat_chars: "c \<in> set (digits_of_nat n) \<Longrightarrow> 48 \<le> (of_char c :: nat) \<and> of_char c \<le> (57::nat)"
proof (induction n rule: digits_of_nat.induct)
  case (1 n)
  show ?case
  proof (cases "n < 10")
    case True
    with "1.prems" show ?thesis by (subst (asm) digits_of_nat.simps) auto
  next
    case False
    with "1.prems" have "c \<in> set (digits_of_nat (n div 10)) \<or> c = char_of (48 + n mod 10)"
      by (subst (asm) digits_of_nat.simps) auto
    then show ?thesis
    proof
      assume "c \<in> set (digits_of_nat (n div 10))"
      with "1.IH" False show ?thesis by simp
    next
      assume "c = char_of (48 + n mod 10)"
      moreover have "n mod 10 < 10" by simp
      ultimately show ?thesis by simp
    qed
  qed
qed

lemma digits_of_nat_nonempty [simp]: "digits_of_nat n \<noteq> []"
  by (subst digits_of_nat.simps) simp

lemma str_int_inj: "0 \<le> i \<Longrightarrow> 0 \<le> j \<Longrightarrow> str_int i = str_int j \<Longrightarrow> i = j"
  by (auto simp: str_int_def dest!: digits_of_nat_inj)

lemma str_int_nonempty [simp]: "str_int i \<noteq> []"
  by (simp add: str_int_def)

lemma str_int_chars:
  "c \<in> set (str_int i) \<Longrightarrow> c = CHR ''-'' \<or> (48 \<le> (of_char c :: nat) \<and> of_char c \<le> (57::nat))"
  by (auto simp: str_int_def split: if_splits dest: digits_of_nat_chars)

lemma str_int_no_slash [simp]: "CHR ''/'' \<notin> set (str_int i)"
  using str_int_chars [of "CHR ''/''" i] by auto

section \<open>Tables of rows with an integer primary key\<close>

definition get_row :: "('r \<Rightarrow> int) \<Rightarrow> int \<Rightarrow> 'r list \<Rightarrow> 'r option" where
  "get_row key i rs = find (\<lambda>r. key r = i) rs"

definition upd_row :: "('r \<Rightarrow> int) \<Rightarrow> int \<Rightarrow> ('r \<Rightarrow> 'r) \<Rightarrow> 'r list \<Rightarrow> 'r list" where
  "upd_row key i f rs = map (\<lambda>r. if key r = i then f r else r) rs"

definition next_id :: "('r \<Rightarrow> int) \<Rightarrow> 'r list \<Rightarrow> int" where
  "next_id key rs = foldr (\<lambda>r m. max (key r) m) rs 0 + 1"

definition pk_ok :: "('r \<Rightarrow> int) \<Rightarrow> 'r list \<Rightarrow> bool" where
  "pk_ok key rs \<longleftrightarrow> distinct (map key rs)"

definition first_by :: "('r \<Rightarrow> 'k::linorder) \<Rightarrow> 'r list \<Rightarrow> 'r option" where
  "first_by k rs = (case sort_key k rs of [] \<Rightarrow> None | r # _ \<Rightarrow> Some r)"

definition last_by :: "('r \<Rightarrow> 'k::linorder) \<Rightarrow> 'r list \<Rightarrow> 'r option" where
  "last_by k rs = (if rs = [] then None else Some (last (sort_key k rs)))"

lemma get_row_Nil [row_simps]: "get_row key i [] = None"
  by (simp add: get_row_def)

lemma get_row_Cons [row_simps]:
  "get_row key i (r # rs) = (if key r = i then Some r else get_row key i rs)"
  by (simp add: get_row_def)

lemma get_row_Some: "get_row key i rs = Some r \<Longrightarrow> r \<in> set rs \<and> key r = i"
  by (auto simp: get_row_def find_Some_iff)

lemma get_row_None: "get_row key i rs = None \<longleftrightarrow> i \<notin> key ` set rs"
  by (auto simp: get_row_def find_None_iff)

lemma get_row_key: "get_row key i rs = Some r \<Longrightarrow> key r = i"
  by (drule get_row_Some) simp

lemma get_row_in: "pk_ok key rs \<Longrightarrow> r \<in> set rs \<Longrightarrow> get_row key (key r) rs = Some r"
proof (induction rs)
  case Nil
  then show ?case by simp
next
  case (Cons q rs)
  then show ?case by (force simp: pk_ok_def row_simps)
qed

lemma get_upd_row [row_simps]:
  assumes "\<And>r. key (f r) = key r"
  shows "get_row key j (upd_row key i f rs) =
    (if j = i then map_option f (get_row key j rs) else get_row key j rs)"
  using assms by (induction rs) (auto simp: upd_row_def get_row_def)

lemma upd_row_keys [row_simps]:
  assumes "\<And>r. key (f r) = key r"
  shows "map key (upd_row key i f rs) = map key rs"
  using assms by (induction rs) (auto simp: upd_row_def)

lemma pk_ok_upd_row [row_simps]:
  assumes "\<And>r. key (f r) = key r"
  shows "pk_ok key (upd_row key i f rs) = pk_ok key rs"
  using assms by (simp add: pk_ok_def upd_row_keys)

lemma next_id_greater: "r \<in> set rs \<Longrightarrow> key r < next_id key rs"
  by (induction rs) (auto simp: next_id_def)

lemma next_id_fresh [simp]: "get_row key (next_id key rs) rs = None"
  by (auto simp: get_row_None dest: next_id_greater [of _ _ key])

lemma next_id_pos: "0 < next_id key rs"
proof -
  have "0 \<le> foldr (\<lambda>r m. max (key r) m) rs 0" by (induction rs) auto
  then show ?thesis by (simp add: next_id_def)
qed

lemma get_row_append [row_simps]:
  "get_row key i (rs @ qs) =
     (case get_row key i rs of None \<Rightarrow> get_row key i qs | Some r \<Rightarrow> Some r)"
  by (induction rs) (auto simp: get_row_def)

lemma pk_ok_same: "pk_ok key rs \<Longrightarrow> a \<in> set rs \<Longrightarrow> b \<in> set rs \<Longrightarrow> key a = key b \<Longrightarrow> a = b"
  by (metis get_row_in option.inject)

lemma upd_row_same:
  assumes "pk_ok key rs" "get_row key i rs = Some r" "key (f r) = key r"
  shows "upd_row key i f rs = map (\<lambda>x. if x = r then f r else x) rs" "set (upd_row key i f rs) = insert (f r) (set rs - {r})"
    "map key (upd_row key i f rs) = map key rs"
proof -
  have r: "r \<in> set rs" "key r = i" using assms(2) by (auto dest: get_row_Some)
  have "(if key x = i then f x else x) = (if x = r then f r else x)" if x: "x \<in> set rs" for x
  proof (cases "key x = i")
    case True
    then have "key x = key r" using r(2) by simp
    then have "x = r" by (rule pk_ok_same [OF assms(1) x r(1)])
    with True show ?thesis by simp
  next
    case False
    with r(2) show ?thesis by auto
  qed
  then show m: "upd_row key i f rs = map (\<lambda>x. if x = r then f r else x) rs" by (simp add: upd_row_def)
  show "set (upd_row key i f rs) = insert (f r) (set rs - {r})" unfolding m using r(1) by auto
  show "map key (upd_row key i f rs) = map key rs" unfolding m using assms(3) by auto
qed

lemma pk_ok_append_fresh:
  "pk_ok key rs \<Longrightarrow> key r \<notin> key ` set rs \<Longrightarrow> pk_ok key (rs @ [r])"
  by (auto simp: pk_ok_def)

lemma pk_ok_filter: "pk_ok key rs \<Longrightarrow> pk_ok key (filter P rs)"
  by (simp add: pk_ok_def distinct_map_filter)

lemma first_by_in: "first_by k rs = Some r \<Longrightarrow> r \<in> set rs"
proof -
  assume "first_by k rs = Some r"
  then have "r \<in> set (sort_key k rs)"
    by (auto simp: first_by_def simp del: set_sort split: list.splits)
  then show ?thesis by simp
qed

lemma last_by_in: "last_by k rs = Some r \<Longrightarrow> r \<in> set rs"
proof -
  assume h: "last_by k rs = Some r"
  then have ne: "sort_key k rs \<noteq> []" and r: "r = last (sort_key k rs)"
    by (auto simp: last_by_def split: if_splits) (metis set_empty set_sort)
  from last_in_set [OF ne] r show ?thesis by simp
qed

lemma first_by_None [simp]: "first_by k rs = None \<longleftrightarrow> rs = []"
proof -
  have "sort_key k rs = [] \<longleftrightarrow> rs = []" by (metis set_empty set_sort)
  then show ?thesis by (auto simp: first_by_def split: list.splits)
qed

lemma last_by_None [simp]: "last_by k rs = None \<longleftrightarrow> rs = []"
  by (simp add: last_by_def)

subsection \<open>The interface of a table\<close>

text \<open>
  What a service relies on when it talks to a repository: a primary-key read, an in-place
  update of one row, and an insert under a fresh key. The laws are those of the session's
  identity map; every component reasons through them.
\<close>

locale row_store =
  fixes key :: "'r \<Rightarrow> int"
    and get :: "int \<Rightarrow> 'r list \<Rightarrow> 'r option"
    and upd :: "int \<Rightarrow> ('r \<Rightarrow> 'r) \<Rightarrow> 'r list \<Rightarrow> 'r list"
    and valid :: "'r list \<Rightarrow> bool"
  assumes get_key: "get i rs = Some r \<Longrightarrow> key r = i"
    and get_mem: "get i rs = Some r \<Longrightarrow> r \<in> set rs"
    and get_member: "valid rs \<Longrightarrow> r \<in> set rs \<Longrightarrow> get (key r) rs = Some r"
    and get_upd: "(\<And>r. key (f r) = key r) \<Longrightarrow>
      get j (upd i f rs) = (if j = i then map_option f (get j rs) else get j rs)"
    and valid_upd: "(\<And>r. key (f r) = key r) \<Longrightarrow> valid (upd i f rs) = valid rs"
    and upd_keys: "(\<And>r. key (f r) = key r) \<Longrightarrow> map key (upd i f rs) = map key rs"
begin

lemma get_upd_same:
  assumes "\<And>r. key (f r) = key r" and "get i rs = Some r"
  shows "get i (upd i f rs) = Some (f r)"
  using assms by (simp add: get_upd)

lemma get_upd_other:
  assumes "\<And>r. key (f r) = key r" and "j \<noteq> i"
  shows "get j (upd i f rs) = get j rs"
  using assms by (simp add: get_upd)

lemma upd_pointwise:
  assumes "\<And>r. key (f r) = key r" and "get j rs = Some r"
  shows "\<exists>r'. get j (upd i f rs) = Some r' \<and> (r' = r \<or> (j = i \<and> r' = f r))"
  using assms(2) by (auto simp: get_upd [OF assms(1)])

end

text \<open>The generic table functions satisfy the interface for every key selector.\<close>

lemma row_store_rows: "row_store key (get_row key) (upd_row key) (pk_ok key)"
  by (unfold_locales) (auto simp: row_simps get_row_in dest: get_row_Some)

end
