(* ===== verification/Paths.thy ===== *)
theory Paths
  imports Prelude
begin

text \<open>
  POSIX path arithmetic as the sources use it (\<open>os.path.normpath\<close>, \<open>join\<close>,
  \<open>commonpath\<close>, \<open>relpath\<close>) and the path policies built on it: source-path overlap
  (\<open>app/utils/path_overlap.py\<close>), block-device paths (\<open>app/infrastructure/device_path.py\<close>),
  managed USB mount slots (\<open>app/infrastructure/mount_info.py\<close>) and managed network mount
  points (\<open>app/utils/network_mount_paths.py\<close>). Containment of one directory in another is
  specified on path components, and the string tests of the code are related to it.
\<close>

section \<open>The path functions of the standard library\<close>

abbreviation sep :: char where
  "sep \<equiv> CHR ''/''"

abbreviation dot :: string where
  "dot \<equiv> ''.''"

abbreviation dotdot :: string where
  "dotdot \<equiv> ''..''"

definition isabs :: "string \<Rightarrow> bool" where
  "isabs p \<longleftrightarrow> prefix [sep] p"

definition initial_slashes :: "string \<Rightarrow> nat" where
  "initial_slashes p =
     (if isabs p then (if prefix [sep, sep] p \<and> \<not> prefix [sep, sep, sep] p then 2 else 1) else 0)"

text \<open>The loop of \<open>posixpath.normpath\<close>; the accumulator is \<open>new_comps\<close> reversed.\<close>

fun norm_comps :: "bool \<Rightarrow> string list \<Rightarrow> string list \<Rightarrow> string list" where
  "norm_comps absolute acc [] = rev acc"
| "norm_comps absolute acc (c # cs) =
     (if c = [] \<or> c = dot then norm_comps absolute acc cs
      else if c \<noteq> dotdot \<or> (\<not> absolute \<and> acc = []) \<or> (acc \<noteq> [] \<and> hd acc = dotdot)
        then norm_comps absolute (c # acc) cs
      else norm_comps absolute (tl acc) cs)"

definition normpath :: "string \<Rightarrow> string" where
  "normpath p =
     (if p = [] then dot
      else let k = initial_slashes p;
               q = replicate k sep @ join_with [sep] (norm_comps (0 < k) [] (split_on sep p))
           in if q = [] then dot else q)"

definition path_join :: "string \<Rightarrow> string \<Rightarrow> string" where
  "path_join a b =
     (if isabs b then b
      else if a = [] \<or> last a = sep then a @ b
      else a @ [sep] @ b)"

definition plain_comps :: "string \<Rightarrow> string list" where
  "plain_comps p = filter (\<lambda>c. c \<noteq> [] \<and> c \<noteq> dot) (split_on sep p)"

text \<open>\<open>os.path.commonpath([a, b])\<close>; \<open>None\<close> is the \<open>ValueError\<close> of mixed paths.\<close>

definition commonpath :: "string \<Rightarrow> string \<Rightarrow> string option" where
  "commonpath a b =
     (if isabs a \<noteq> isabs b then None
      else Some ((if isabs a then [sep] else []) @
                 join_with [sep] (longest_common_prefix (plain_comps a) (plain_comps b))))"

definition abspath :: "string \<Rightarrow> string \<Rightarrow> string" where
  "abspath cwd p = normpath (if isabs p then p else path_join cwd p)"

definition relpath :: "string \<Rightarrow> string \<Rightarrow> string \<Rightarrow> string" where
  "relpath cwd p start =
     (let sl = filter (\<lambda>c. c \<noteq> []) (split_on sep (abspath cwd start));
          pl = filter (\<lambda>c. c \<noteq> []) (split_on sep (abspath cwd p));
          i = length (longest_common_prefix sl pl);
          rel = replicate (length sl - i) dotdot @ drop i pl
      in if rel = [] then dot else join_with [sep] rel)"

definition basename :: "string \<Rightarrow> string" where
  "basename p = last (split_on sep p)"

section \<open>Source-path overlap: \<open>app/utils/path_overlap.py\<close>\<close>

definition normalize_path :: "string \<Rightarrow> string" where
  "normalize_path p = normpath (py_strip p)"

definition path_parts :: "string \<Rightarrow> string list" where
  "path_parts p = filter (\<lambda>c. c \<noteq> []) (split_on sep (normalize_path p))"

datatype overlap = Exact | Ancestor | Descendant | No_overlap

definition classify_source_path_overlap :: "string \<Rightarrow> string \<Rightarrow> overlap" where
  "classify_source_path_overlap existing new =
     (let ne = normalize_path existing; nn = normalize_path new
      in if ne = nn then Exact
         else let ep = path_parts ne; np = path_parts nn
              in if length np < length ep \<and> np = take (length np) ep then Ancestor
                 else if length ep < length np \<and> ep = take (length ep) np then Descendant
                 else No_overlap)"

section \<open>Device paths and mount slots\<close>

definition ascii_letter :: "char \<Rightarrow> bool" where
  "ascii_letter c \<longleftrightarrow> (let n = (of_char c :: nat) in (65 \<le> n \<and> n \<le> 90) \<or> (97 \<le> n \<and> n \<le> 122))"

definition ascii_digit :: "char \<Rightarrow> bool" where
  "ascii_digit c \<longleftrightarrow> (let n = (of_char c :: nat) in 48 \<le> n \<and> n \<le> 57)"

definition device_name_ok :: "string \<Rightarrow> bool" where
  "device_name_ok s \<longleftrightarrow>
     (case s of [] \<Rightarrow> False
      | c # cs \<Rightarrow> ascii_letter c \<and> list_all (\<lambda>x. ascii_letter x \<or> ascii_digit x) cs)"

definition device_path_body :: "string \<Rightarrow> bool" where
  "device_path_body p \<longleftrightarrow> prefix ''/dev/'' p \<and> device_name_ok (drop 5 p)"

text \<open>
  The pattern ends in \<^verbatim>\<open>$\<close>, which in Python matches at the end of the string and also just
  before a newline that ends the string.
\<close>

definition newline :: char where
  "newline = char_of (10 :: nat)"

definition validate_device_path :: "string \<Rightarrow> bool" where
  "validate_device_path p \<longleftrightarrow>
     device_path_body p \<or> (p \<noteq> [] \<and> last p = newline \<and> device_path_body (butlast p))"

definition normalize_mount_path :: "string \<Rightarrow> string" where
  "normalize_mount_path p = (let q = py_rstrip_with (\<lambda>c. c = sep) p in if q = [] then [sep] else q)"

definition usb_mount_point :: "string \<Rightarrow> int \<Rightarrow> string" where
  "usb_mount_point usb_mount_base_path drive_id = path_join usb_mount_base_path (str_int drive_id)"

text \<open>\<open>realpath\<close> is the host's symbolic-link resolution, a parameter of the model.\<close>

definition is_managed_usb_mount_slot ::
  "(string \<Rightarrow> string) \<Rightarrow> string \<Rightarrow> string \<Rightarrow> int \<Rightarrow> bool" where
  "is_managed_usb_mount_slot realpath base mount_point drive_id =
     (if drive_id < 1 \<or> mount_point = [] then False
      else let expected = normalize_mount_path (usb_mount_point base drive_id);
               target = normalize_mount_path mount_point
           in target = expected \<or> realpath target = realpath expected)"

section \<open>Managed network mount points: \<open>app/utils/network_mount_paths.py\<close>\<close>

definition managed_network_mount_root :: "string \<Rightarrow> string" where
  "managed_network_mount_root network_mount_base_path = normpath (py_strip network_mount_base_path)"

definition root_slash :: "string \<Rightarrow> string" where
  "root_slash root = py_rstrip_with (\<lambda>c. c = sep) root @ [sep]"

definition is_within_managed_network_mount_root :: "string \<Rightarrow> string \<Rightarrow> bool" where
  "is_within_managed_network_mount_root base local_mount_point =
     (let normalized = normpath local_mount_point; root = managed_network_mount_root base
      in normalized = root \<or> prefix (root_slash root) normalized)"

definition cleanup_target_for_generated_network_mount_point ::
  "string \<Rightarrow> string \<Rightarrow> string \<Rightarrow> string option" where
  "cleanup_target_for_generated_network_mount_point cwd base local_mount_point =
     (let normalized = normpath local_mount_point; root = managed_network_mount_root base
      in if \<not> prefix (root_slash root) normalized then None
         else let rel = relpath cwd normalized root
              in if rel = dot \<or> rel = dotdot \<or> prefix ''../'' rel \<or> sep \<in> set rel then None
                 else Some (path_join root rel))"

definition is_generated_network_mount_point :: "string \<Rightarrow> string \<Rightarrow> string \<Rightarrow> bool" where
  "is_generated_network_mount_point cwd base p \<longleftrightarrow>
     cleanup_target_for_generated_network_mount_point cwd base p \<noteq> None"

section \<open>Normal forms\<close>

text \<open>
  A component list is in normal form when no component is empty, \<^verbatim>\<open>.\<close> or holds a separator, and
  \<^verbatim>\<open>..\<close> occurs only at the front of a relative path. The predicate is stated on the reversed
  list, as the loop builds it.
\<close>

fun dd_front :: "string list \<Rightarrow> bool" where
  "dd_front [] = True"
| "dd_front (c # cs) = ((c = dotdot \<longrightarrow> (\<forall>d \<in> set cs. d = dotdot)) \<and> dd_front cs)"

definition comp_ok :: "string \<Rightarrow> bool" where
  "comp_ok c \<longleftrightarrow> c \<noteq> [] \<and> c \<noteq> dot \<and> sep \<notin> set c"

definition normal_rev :: "bool \<Rightarrow> string list \<Rightarrow> bool" where
  "normal_rev absolute acc \<longleftrightarrow>
     (\<forall>c \<in> set acc. comp_ok c) \<and> (if absolute then dotdot \<notin> set acc else dd_front acc)"

lemma dd_front_tl: "dd_front acc \<Longrightarrow> dd_front (tl acc)"
  by (cases acc) auto

lemma dd_front_append: "dd_front (xs @ ys) \<Longrightarrow> dd_front ys"
  by (induction xs) auto

lemma normal_rev_tl: "normal_rev a acc \<Longrightarrow> normal_rev a (tl acc)"
  by (cases acc) (auto simp: normal_rev_def split: if_splits)

lemma normal_rev_push:
  assumes "normal_rev a acc" and "comp_ok c"
    and "c \<noteq> dotdot \<or> (\<not> a \<and> acc = []) \<or> (acc \<noteq> [] \<and> hd acc = dotdot)"
  shows "normal_rev a (c # acc)"
proof (cases "c = dotdot")
  case True
  show ?thesis
  proof (cases acc)
    case Nil
    with True assms show ?thesis by (simp add: normal_rev_def)
  next
    case (Cons d ds)
    with True assms have "d = dotdot" by auto
    with True Cons assms show ?thesis by (auto simp: normal_rev_def split: if_splits)
  qed
next
  case False
  with assms show ?thesis by (simp add: normal_rev_def split: if_splits)
qed

lemma norm_comps_normal:
  "normal_rev a acc \<Longrightarrow> (\<And>c. c \<in> set cs \<Longrightarrow> sep \<notin> set c) \<Longrightarrow> normal_rev a (rev (norm_comps a acc cs))"
proof (induction a acc cs rule: norm_comps.induct)
  case (1 a acc)
  then show ?case by simp
next
  case (2 a acc c cs)
  show ?case
  proof (cases "c = [] \<or> c = dot")
    case True
    with 2 show ?thesis by simp
  next
    case False
    with "2.prems"(2) have ok: "comp_ok c" by (simp add: comp_ok_def)
    show ?thesis
    proof (cases "c \<noteq> dotdot \<or> (\<not> a \<and> acc = []) \<or> (acc \<noteq> [] \<and> hd acc = dotdot)")
      case True
      with "2.prems"(1) ok have "normal_rev a (c # acc)" by (rule normal_rev_push [rotated 2, rotated])
      with "2.IH"(2) "2.prems"(2) False True show ?thesis by simp
    next
      case pop: False
      with "2.IH"(3) "2.prems" False
      have "normal_rev a (rev (norm_comps a (tl acc) cs))" by (simp add: normal_rev_tl)
      with pop False show ?thesis by (simp only: norm_comps.simps if_False)
    qed
  qed
qed

lemma norm_comps_id:
  "normal_rev a (rev cs @ acc) \<Longrightarrow> norm_comps a acc cs = rev acc @ cs"
proof (induction cs arbitrary: acc)
  case Nil
  then show ?case by simp
next
  case (Cons c cs)
  from Cons.prems have n: "normal_rev a (rev cs @ c # acc)" by simp
  then have ok: "comp_ok c" by (simp add: normal_rev_def)
  have push: "c \<noteq> dotdot \<or> (\<not> a \<and> acc = []) \<or> (acc \<noteq> [] \<and> hd acc = dotdot)"
  proof (cases "c = dotdot")
    case True
    with n have "\<not> a" and "dd_front (rev cs @ c # acc)"
      by (auto simp: normal_rev_def split: if_splits)
    then have "dd_front (c # acc)" using dd_front_append by blast
    with True \<open>\<not> a\<close> show ?thesis by (cases acc) auto
  qed simp
  from Cons.IH [OF n] push ok show ?case by (auto simp: comp_ok_def)
qed

lemma norm_comps_replicate_empty: "norm_comps a acc (replicate k [] @ cs) = norm_comps a acc cs"
  by (induction k) auto

lemma split_on_replicate_sep: "split_on sep (replicate k sep @ s) = replicate k [] @ split_on sep s"
  by (induction k) auto

lemma join_with_no_sep_hd:
  "cs \<noteq> [] \<Longrightarrow> comp_ok (hd cs) \<Longrightarrow> \<not> isabs (join_with [sep] cs)"
proof (induction cs rule: induct_list012)
  case 1
  then show ?case by simp
next
  case (2 p)
  then show ?case by (cases p) (auto simp: comp_ok_def isabs_def)
next
  case (3 p q ps)
  then show ?case by (cases p) (auto simp: comp_ok_def isabs_def)
qed

lemma join_with_Nil_iff: "(\<forall>c \<in> set cs. c \<noteq> []) \<Longrightarrow> join_with s cs = [] \<longleftrightarrow> cs = []"
  by (induction s cs rule: join_with.induct) auto

lemma initial_slashes_replicate:
  assumes "k \<le> 2" and "\<not> isabs s"
  shows "initial_slashes (replicate k sep @ s) = k"
proof -
  from assms(1) consider "k = 0" | "k = 1" | "k = 2" by linarith
  then show ?thesis
    using assms(2) by cases (auto simp: initial_slashes_def isabs_def numeral_2_eq_2)
qed

lemma initial_slashes_le: "initial_slashes p \<le> 2"
  by (simp add: initial_slashes_def)

definition norm_list :: "string \<Rightarrow> string list" where
  "norm_list p = norm_comps (0 < initial_slashes p) [] (split_on sep p)"

lemma norm_list_normal: "normal_rev (0 < initial_slashes p) (rev (norm_list p))"
  unfolding norm_list_def
  by (rule norm_comps_normal) (auto simp: normal_rev_def dest: split_on_no_sep)

lemma norm_list_ok: "c \<in> set (norm_list p) \<Longrightarrow> comp_ok c"
  using norm_list_normal [of p] by (auto simp: normal_rev_def)

lemma norm_list_abs_no_dotdot: "isabs p \<Longrightarrow> dotdot \<notin> set (norm_list p)"
  using norm_list_normal [of p] by (auto simp: normal_rev_def initial_slashes_def split: if_splits)

lemma not_isabs_join_norm_list: "\<not> isabs (join_with [sep] (norm_list p))"
proof (cases "norm_list p = []")
  case True
  then show ?thesis by (simp add: isabs_def)
next
  case False
  then have "comp_ok (hd (norm_list p))" by (intro norm_list_ok [of _ p]) simp
  with False show ?thesis by (rule join_with_no_sep_hd)
qed

lemma normpath_alt:
  "normpath p =
     (let q = replicate (initial_slashes p) sep @ join_with [sep] (norm_list p)
      in if q = [] then dot else q)"
  by (cases "p = []") (simp_all add: normpath_def norm_list_def Let_def initial_slashes_def isabs_def)

lemma normpath_nonempty [simp]: "normpath p \<noteq> []"
  by (simp add: normpath_alt Let_def)

lemma normpath_body:
  assumes "normpath p \<noteq> dot"
  shows "normpath p = replicate (initial_slashes p) sep @ join_with [sep] (norm_list p)"
  using assms by (simp add: normpath_alt Let_def split: if_splits)

lemma split_on_join_norm:
  "split_on sep (join_with [sep] (norm_list p)) = (if norm_list p = [] then [[]] else norm_list p)"
  using norm_list_ok [of _ p] by (auto simp: comp_ok_def intro: split_join)

lemma norm_list_rebuild:
  assumes "q = replicate (initial_slashes p) sep @ join_with [sep] (norm_list p)"
  shows "initial_slashes q = initial_slashes p" and "norm_list q = norm_list p"
proof -
  show i: "initial_slashes q = initial_slashes p"
    unfolding assms
    by (rule initial_slashes_replicate [OF initial_slashes_le not_isabs_join_norm_list])
  have "norm_list q = norm_comps (0 < initial_slashes p) []
      (if norm_list p = [] then [[]] else norm_list p)"
    unfolding norm_list_def [of q] i
    unfolding assms
    by (simp only: split_on_replicate_sep norm_comps_replicate_empty split_on_join_norm)
  also have "\<dots> = norm_list p"
    using norm_comps_id [of "0 < initial_slashes p" "norm_list p" "[]"] norm_list_normal [of p]
    by simp
  finally show "norm_list q = norm_list p" .
qed

lemma initial_slashes_dot [simp]: "initial_slashes dot = 0"
  by (simp add: initial_slashes_def isabs_def)

lemma norm_list_dot [simp]: "norm_list dot = []"
  by (simp add: norm_list_def)

lemma normpath_dot [simp]: "normpath dot = dot"
  by (simp add: normpath_alt)

lemma normpath_dot_iff: "normpath p = dot \<longleftrightarrow> initial_slashes p = 0 \<and> norm_list p = []"
proof
  assume h: "normpath p = dot"
  show "initial_slashes p = 0 \<and> norm_list p = []"
  proof (rule ccontr)
    assume n: "\<not> (initial_slashes p = 0 \<and> norm_list p = [])"
    let ?q = "replicate (initial_slashes p) sep @ join_with [sep] (norm_list p)"
    have "?q \<noteq> []"
      using n norm_list_ok [of _ p] by (auto simp: join_with_Nil_iff comp_ok_def)
    with h have q: "?q = dot" by (simp add: normpath_alt Let_def split: if_splits)
    with norm_list_rebuild [of ?q p] have "initial_slashes p = 0" and "norm_list p = []"
      by (metis initial_slashes_dot, metis norm_list_dot)
    with n show False by simp
  qed
next
  assume "initial_slashes p = 0 \<and> norm_list p = []"
  then show "normpath p = dot" by (simp add: normpath_alt)
qed

lemma normpath_slashes [simp]: "initial_slashes (normpath p) = initial_slashes p"
proof (cases "normpath p = dot")
  case True
  with normpath_dot_iff [of p] show ?thesis by simp
next
  case False
  then show ?thesis by (rule norm_list_rebuild(1) [OF normpath_body])
qed

lemma normpath_norm_list [simp]: "norm_list (normpath p) = norm_list p"
proof (cases "normpath p = dot")
  case True
  with normpath_dot_iff [of p] show ?thesis by simp
next
  case False
  then show ?thesis by (rule norm_list_rebuild(2) [OF normpath_body])
qed

lemma normpath_idem [simp]: "normpath (normpath p) = normpath p"
proof -
  have "normpath (normpath p) =
      (let q = replicate (initial_slashes p) sep @ join_with [sep] (norm_list p)
       in if q = [] then dot else q)"
    by (subst normpath_alt) (simp only: normpath_slashes normpath_norm_list)
  also have "\<dots> = normpath p" by (rule normpath_alt [symmetric])
  finally show ?thesis .
qed

section \<open>Directory containment\<close>

text \<open>
  The specification of "inside a directory": both paths are absolute and the components of the
  directory are a prefix of the components of the path. On Linux a second leading slash has no
  meaning, so the specification ignores it.
\<close>

definition path_within :: "string \<Rightarrow> string \<Rightarrow> bool" where
  "path_within root p \<longleftrightarrow> isabs root \<and> isabs p \<and> prefix (norm_list root) (norm_list p)"

text \<open>The string test the sources use everywhere.\<close>

definition str_within :: "string \<Rightarrow> string \<Rightarrow> bool" where
  "str_within root p \<longleftrightarrow> p = root \<or> prefix (root @ [sep]) p"

lemma join_with_append:
  "xs \<noteq> [] \<Longrightarrow> ys \<noteq> [] \<Longrightarrow> join_with s (xs @ ys) = join_with s xs @ s @ join_with s ys"
proof (induction xs rule: induct_list012)
  case 1
  then show ?case by simp
next
  case (2 x)
  then show ?case by (cases ys) auto
next
  case (3 x y zs)
  then show ?case by simp
qed

lemma split_on_join_append:
  assumes "cs \<noteq> []" and "\<And>c. c \<in> set cs \<Longrightarrow> sep \<notin> set c"
  shows "split_on sep (join_with [sep] cs @ sep # t) = cs @ split_on sep t"
  using assms
proof (induction cs rule: induct_list012)
  case 1
  then show ?case by simp
next
  case (2 x)
  then show ?case by (simp add: split_on_append_sep)
next
  case (3 x y zs)
  then show ?case by (simp add: split_on_append_sep)
qed

lemma join_within_iff_prefix:
  assumes "rs \<noteq> []" and rs: "\<And>c. c \<in> set rs \<Longrightarrow> comp_ok c" and ps: "\<And>c. c \<in> set ps \<Longrightarrow> comp_ok c"
  shows "(join_with [sep] ps = join_with [sep] rs \<or>
          prefix (join_with [sep] rs @ [sep]) (join_with [sep] ps)) \<longleftrightarrow> prefix rs ps"
proof
  assume "join_with [sep] ps = join_with [sep] rs \<or>
          prefix (join_with [sep] rs @ [sep]) (join_with [sep] ps)"
  then show "prefix rs ps"
  proof
    assume eq: "join_with [sep] ps = join_with [sep] rs"
    have "join_with [sep] rs \<noteq> []" using assms by (auto simp: join_with_Nil_iff comp_ok_def)
    with eq have "ps \<noteq> []" by auto
    then have "ps = split_on sep (join_with [sep] ps)"
      using ps by (auto simp: comp_ok_def split_join)
    also have "\<dots> = rs" unfolding eq using assms by (intro split_join) (auto simp: comp_ok_def)
    finally show ?thesis by simp
  next
    assume "prefix (join_with [sep] rs @ [sep]) (join_with [sep] ps)"
    then obtain t where t: "join_with [sep] ps = join_with [sep] rs @ sep # t"
      by (auto simp: prefix_def)
    then have "ps \<noteq> []" by auto
    then have "ps = split_on sep (join_with [sep] ps)"
      using ps by (auto simp: comp_ok_def split_join)
    also have "\<dots> = rs @ split_on sep t"
      unfolding t using assms by (intro split_on_join_append) (auto simp: comp_ok_def)
    finally show ?thesis by (simp add: prefix_def)
  qed
next
  assume "prefix rs ps"
  then obtain qs where qs: "ps = rs @ qs" by (auto simp: prefix_def)
  show "join_with [sep] ps = join_with [sep] rs \<or>
        prefix (join_with [sep] rs @ [sep]) (join_with [sep] ps)"
    using join_with_append [OF \<open>rs \<noteq> []\<close>, of qs "[sep]"] qs by (cases "qs = []") auto
qed

lemma isabs_iff: "isabs p \<longleftrightarrow> 0 < initial_slashes p"
  by (simp add: initial_slashes_def)

lemma isabs_normpath [simp]: "isabs (normpath p) = isabs p"
  by (simp add: isabs_iff)

lemma normal_abs_form:
  assumes "normpath p = p" and "initial_slashes p = 1"
  shows "p = sep # join_with [sep] (norm_list p)"
proof -
  from assms have "p \<noteq> dot" by auto
  with assms normpath_body [of p] show ?thesis by simp
qed

lemma str_within_iff_path_within:
  assumes r: "normpath root = root" "initial_slashes root = 1" "root \<noteq> [sep]"
    and p: "normpath p = p" "initial_slashes p = 1"
  shows "str_within root p \<longleftrightarrow> path_within root p"
proof -
  note rf = normal_abs_form [OF r(1,2)] and pf = normal_abs_form [OF p]
  have ne: "norm_list root \<noteq> []" using r(3) rf by auto
  have "str_within root p \<longleftrightarrow> str_within (sep # join_with [sep] (norm_list root)) (sep # join_with [sep] (norm_list p))"
    using rf pf by simp
  also have "\<dots> \<longleftrightarrow> join_with [sep] (norm_list p) = join_with [sep] (norm_list root) \<or>
      prefix (join_with [sep] (norm_list root) @ [sep]) (join_with [sep] (norm_list p))"
    by (simp add: str_within_def)
  also have "\<dots> \<longleftrightarrow> prefix (norm_list root) (norm_list p)"
    by (rule join_within_iff_prefix [OF ne norm_list_ok norm_list_ok])
  finally show ?thesis using r(2) p(2) by (simp add: path_within_def isabs_iff)
qed

text \<open>Components of a normalised path, as the code's \<open>split\<close> and filter compute them.\<close>

lemma filter_nonempty_norm_list [simp]: "filter (\<lambda>c. c \<noteq> []) (norm_list p) = norm_list p"
  using norm_list_ok [of _ p] by (auto simp: comp_ok_def filter_id_conv)

lemma filter_plain_norm_list [simp]: "filter (\<lambda>c. c \<noteq> [] \<and> c \<noteq> dot) (norm_list p) = norm_list p"
  using norm_list_ok [of _ p] by (auto simp: comp_ok_def filter_id_conv)

lemma split_on_normpath:
  assumes "normpath p \<noteq> dot"
  shows "split_on sep (normpath p) =
    replicate (initial_slashes p) [] @ (if norm_list p = [] then [[]] else norm_list p)"
  by (subst normpath_body [OF assms]) (simp only: split_on_replicate_sep split_on_join_norm)

lemma nonempty_comps_normpath:
  "isabs p \<Longrightarrow> filter (\<lambda>c. c \<noteq> []) (split_on sep (normpath p)) = norm_list p"
  by (subst split_on_normpath) (auto simp: normpath_dot_iff isabs_iff)

lemma plain_comps_normpath: "plain_comps (normpath p) = norm_list p"
proof (cases "normpath p = dot")
  case True
  then have "plain_comps (normpath p) = []" by (simp add: plain_comps_def)
  with True show ?thesis by (simp add: normpath_dot_iff)
next
  case False
  then show ?thesis by (simp add: plain_comps_def split_on_normpath)
qed

lemma commonpath_root:
  assumes root: "normpath root = root" "isabs root" and c: "commonpath (normpath p) root = Some root"
  shows "path_within root (normpath p)" and "initial_slashes root = 1"
proof -
  define l where "l = longest_common_prefix (norm_list p) (norm_list root)"
  have l1: "prefix l (norm_list p)" unfolding l_def by (rule longest_common_prefix_prefix1)
  have pr: "plain_comps root = norm_list root" using plain_comps_normpath [of root] root(1) by simp
  from c root(2) have ap: "isabs (normpath p)" by (auto simp: commonpath_def split: if_splits)
  with c pr root(2) have "Some root = Some (sep # join_with [sep] l)"
    by (simp add: commonpath_def plain_comps_normpath l_def)
  then have eq: "root = sep # join_with [sep] l" by (rule option.inject [THEN iffD1])
  have lok: "\<And>c. c \<in> set l \<Longrightarrow> comp_ok c"
    using set_mono_prefix [OF l1] norm_list_ok [of _ p] by blast
  have nab: "\<not> isabs (join_with [sep] l)"
  proof (cases "l = []")
    case False
    then have "comp_ok (hd l)" by (intro lok) simp
    with False show ?thesis by (rule join_with_no_sep_hd)
  qed (simp add: isabs_def)
  show one: "initial_slashes root = 1"
    unfolding eq using initial_slashes_replicate [of 1 "join_with [sep] l"] nab by simp
  have jeq: "join_with [sep] l = join_with [sep] (norm_list root)"
    using normal_abs_form [OF root(1) one] eq by (metis list.inject)
  have "prefix (norm_list root) l"
  proof (cases "norm_list root = []")
    case False
    have "\<And>c. c \<in> set (norm_list root) \<Longrightarrow> comp_ok c" by (rule norm_list_ok)
    from join_within_iff_prefix [of _ l, OF False this lok] jeq show ?thesis by blast
  qed simp
  from prefix_order.trans [OF this l1] root(2) ap show "path_within root (normpath p)"
    by (simp add: path_within_def)
qed

section \<open>Properties\<close>

text \<open>\<open>normpath\<close> computes a normal form: its result is a fixed point, keeps the kind of leading
  slashes, and for an absolute path splits into non-empty components none of which is \<^verbatim>\<open>.\<close> or
  \<^verbatim>\<open>..\<close>.\<close>

lemma normpath_normal_form:
  "normpath (normpath p) = normpath p \<and> initial_slashes (normpath p) = initial_slashes p \<and>
   (isabs p \<longrightarrow> (\<forall>c \<in> set (filter (\<lambda>c. c \<noteq> []) (split_on sep (normpath p))). c \<noteq> dot \<and> c \<noteq> dotdot))"
  using norm_list_ok [of _ p] norm_list_abs_no_dotdot [of p]
  by (auto simp: nonempty_comps_normpath comp_ok_def)

lemma path_parts_abs:
  assumes "isabs (py_strip p)" and "py_strip (normalize_path p) = normalize_path p"
  shows "path_parts (normalize_path p) = norm_list (py_strip p)"
  using assms
  by (simp add: path_parts_def normalize_path_def [of "normalize_path p"])
     (simp add: normalize_path_def nonempty_comps_normpath)

lemma strict_prefix_take: "length xs < length ys \<and> xs = take (length xs) ys \<longleftrightarrow> strict_prefix xs ys"
proof
  assume h: "length xs < length ys \<and> xs = take (length xs) ys"
  then have "prefix xs ys" by (metis take_is_prefix)
  with h show "strict_prefix xs ys" by (auto simp: strict_prefix_def)
next
  assume "strict_prefix xs ys"
  then show "length xs < length ys \<and> xs = take (length xs) ys"
    by (auto simp: strict_prefix_def prefix_def)
qed



text \<open>A block-device path that passes validation and does not end in a newline names one entry
  directly below \<^verbatim>\<open>/dev\<close>: it is absolute, already normalised, and has exactly the two components
  \<^verbatim>\<open>dev\<close> and a name made of letters and digits that starts with a letter.\<close>

theorem device_path_is_dev_entry:
  assumes "validate_device_path p" and "last p \<noteq> newline"
  shows "\<exists>name. p = ''/dev/'' @ name \<and> device_name_ok name \<and> normpath p = p \<and>
    norm_list p = [''dev'', name]"
proof -
  from assms have b: "device_path_body p" by (auto simp: validate_device_path_def)
  define name where "name = drop 5 p"
  from b have p: "p = ''/dev/'' @ name"
    unfolding name_def by (auto simp: device_path_body_def prefix_def)
  from b have ok: "device_name_ok name" by (simp add: device_path_body_def name_def)
  have ns: "sep \<notin> set name" and nd: "CHR ''.'' \<notin> set name" and ne: "name \<noteq> []"
    using ok by (auto simp: device_name_ok_def ascii_letter_def ascii_digit_def Let_def list_all_iff
        split: list.splits)
  have i: "initial_slashes p = 1" by (simp add: p initial_slashes_def isabs_def)
  have "split_on sep p = [[], ''dev'', name]"
    using split_on_plain [OF ns] by (simp add: p)
  then have nl: "norm_list p = [''dev'', name]"
    using ne nd by (auto simp: norm_list_def i)
  then have "normpath p = replicate 1 sep @ join_with [sep] [''dev'', name]"
    unfolding normpath_alt i by simp
  then have "normpath p = p" by (simp add: p)
  with p ok nl show ?thesis by blast
qed

theorem device_path_is_dev_entry_witness:
  "validate_device_path ''/dev/sdb1'' \<and> last ''/dev/sdb1'' \<noteq> newline \<and>
   (\<exists>name. ''/dev/sdb1'' = ''/dev/'' @ name \<and> device_name_ok name)"
proof -
  have h: "validate_device_path ''/dev/sdb1''" "last ''/dev/sdb1'' \<noteq> newline" by code_simp+
  with device_path_is_dev_entry [OF h] show ?thesis by blast
qed

text \<open>The end-of-string anchor of the device-path pattern lets a trailing newline through: the
  validator accepts a path that is not a device path.\<close>

theorem device_path_accepts_trailing_newline:
  "validate_device_path (''/dev/sdb'' @ [newline]) \<and> \<not> device_path_body (''/dev/sdb'' @ [newline])"
  by code_simp

lemma last_append_single: "xs \<noteq> [] \<Longrightarrow> last (a @ xs) = last xs"
  by simp

lemma py_rstrip_keep: "s \<noteq> [] \<Longrightarrow> \<not> P (last s) \<Longrightarrow> py_rstrip_with P s = s"
  by (cases s rule: rev_cases) (simp_all add: py_rstrip_with_def)

lemma str_int_last_not_sep: "last (str_int i) \<noteq> sep"
  using last_in_set [OF str_int_nonempty [of i]] str_int_no_slash [of i] by metis

lemma str_int_not_isabs: "\<not> isabs (str_int i)"
  using str_int_no_slash [of i] by (cases "str_int i") (auto simp: isabs_def)

lemma usb_mount_point_ends: "\<exists>pre. usb_mount_point base i = pre @ str_int i \<and> (pre = [] \<or> last pre = sep)"
  by (auto simp: usb_mount_point_def path_join_def str_int_not_isabs)

lemma normalize_mount_point_slot: "normalize_mount_path (usb_mount_point base i) = usb_mount_point base i"
proof -
  obtain pre where u: "usb_mount_point base i = pre @ str_int i" using usb_mount_point_ends by blast
  have "py_rstrip_with (\<lambda>c. c = sep) (pre @ str_int i) = pre @ str_int i"
    by (rule py_rstrip_keep) (simp_all add: str_int_last_not_sep)
  with u show ?thesis by (simp add: normalize_mount_path_def)
qed

lemma usb_mount_point_inj:
  "0 \<le> i \<Longrightarrow> 0 \<le> j \<Longrightarrow> usb_mount_point base i = usb_mount_point base j \<Longrightarrow> i = j"
  by (auto simp: usb_mount_point_def path_join_def str_int_not_isabs split: if_splits dest: str_int_inj)

text \<open>Managed mount slots identify drives: the slot computed for a drive is recognised as that
  drive's slot whatever symbolic links the host has, and on a host where the slots are not
  symbolic links it is the slot of no other drive.\<close>

theorem usb_mount_slot_identifies_drive:
  assumes "1 \<le> i" and "1 \<le> j"
  shows "is_managed_usb_mount_slot realpath base (usb_mount_point base i) i \<and>
    (is_managed_usb_mount_slot (\<lambda>p. p) base (usb_mount_point base i) j \<longleftrightarrow> i = j)"
proof -
  have "usb_mount_point base i \<noteq> []" for i
    using usb_mount_point_ends [of base i] by (metis append_is_Nil_conv str_int_nonempty)
  with assms usb_mount_point_inj [of i j base] show ?thesis
    by (auto simp: is_managed_usb_mount_slot_def normalize_mount_point_slot Let_def)
qed

theorem usb_mount_slot_identifies_drive_witness:
  "is_managed_usb_mount_slot (\<lambda>p. p) ''/mnt/ecube'' ''/mnt/ecube/7'' 7 \<and>
   \<not> is_managed_usb_mount_slot (\<lambda>p. p) ''/mnt/ecube'' ''/mnt/ecube/7'' 70"
proof -
  have u: "usb_mount_point ''/mnt/ecube'' 7 = ''/mnt/ecube/7''" by code_simp
  from usb_mount_slot_identifies_drive [of 7 70 "\<lambda>p. p" "''/mnt/ecube''"]
    usb_mount_slot_identifies_drive [of 7 7 "\<lambda>p. p" "''/mnt/ecube''"]
  show ?thesis unfolding u by simp
qed

lemma last_join_norm_list:
  assumes "norm_list p \<noteq> []"
  shows "join_with [sep] (norm_list p) \<noteq> [] \<and> last (join_with [sep] (norm_list p)) \<noteq> sep"
proof -
  obtain cs c where cs: "norm_list p = cs @ [c]" using assms by (cases "norm_list p" rule: rev_cases) auto
  then have ok: "comp_ok c" using norm_list_ok [of c p] by simp
  have "join_with [sep] (norm_list p) = (if cs = [] then c else join_with [sep] cs @ sep # c)"
    using join_with_append [of cs "[c]" "[sep]"] by (simp add: cs)
  with ok show ?thesis by (auto simp: comp_ok_def) (metis last_in_set)+
qed

lemma root_slash_normal:
  assumes "normpath root = root" "initial_slashes root = 1" "root \<noteq> [sep]"
  shows "root_slash root = root @ [sep]" and "norm_list root \<noteq> []" and "last root \<noteq> sep"
proof -
  note f = normal_abs_form [OF assms(1,2)]
  show ne: "norm_list root \<noteq> []" using f assms(3) by auto
  note l = last_join_norm_list [OF ne]
  have "last root = last (join_with [sep] (norm_list root))"
    using l by (subst f) simp
  with l show lr: "last root \<noteq> sep" by simp
  have "root \<noteq> []" using normpath_nonempty [of root] assms(1) by simp
  with lr show "root_slash root = root @ [sep]"
    unfolding root_slash_def by (subst py_rstrip_keep) auto
qed

lemma normal_below_root:
  assumes root: "normpath root = root" "initial_slashes root = 1" "root \<noteq> [sep]"
    and n: "normpath n = n" and pre: "prefix (root @ [sep]) n"
  shows "initial_slashes n = 1" and "path_within root n"
proof -
  note f = normal_abs_form [OF root(1,2)]
  note ne = root_slash_normal(2) [OF root]
  have hd_ok: "\<not> isabs (join_with [sep] (norm_list root))" by (rule not_isabs_join_norm_list)
  obtain t where t: "n = root @ sep # t" using pre by (auto simp: prefix_def)
  have "n = replicate 1 sep @ (join_with [sep] (norm_list root) @ sep # t)"
    using t by (subst (asm) f) simp
  moreover have "\<not> isabs (join_with [sep] (norm_list root) @ sep # t)"
    using hd_ok last_join_norm_list [OF ne]
    by (cases "join_with [sep] (norm_list root)") (auto simp: isabs_def)
  ultimately show one: "initial_slashes n = 1"
    using initial_slashes_replicate [of 1] by simp
  show "path_within root n"
    using str_within_iff_path_within [OF root n one] pre by (simp add: str_within_def)
qed

lemma abspath_normal: "isabs p \<Longrightarrow> normpath p = p \<Longrightarrow> abspath cwd p = p"
  by (simp add: abspath_def)

lemma join_single_sep: "cs \<noteq> [] \<Longrightarrow> sep \<notin> set (join_with [sep] cs) \<Longrightarrow> \<exists>c. cs = [c]"
  by (cases cs rule: remdups_adj.cases) auto

lemma longest_common_prefix_prefix: "prefix xs ys \<Longrightarrow> longest_common_prefix xs ys = xs"
  by (meson longest_common_prefix_max_prefix longest_common_prefix_prefix1 prefix_order.antisym
      prefix_order.refl)

text \<open>The clean-up target of a generated network mount point is the mount point itself and lies
  directly below the managed network root: clean-up never touches the root, a deeper directory or
  anything outside. The hypotheses say that the configured root is absolute with one leading slash and
  is not the file-system root.\<close>

theorem cleanup_target_is_direct_child:
  assumes abs: "initial_slashes (py_strip base) = 1"
    and ne: "managed_network_mount_root base \<noteq> [sep]"
    and t: "cleanup_target_for_generated_network_mount_point cwd base p = Some t"
  shows "t = normpath p \<and>
    (\<exists>leaf. comp_ok leaf \<and> norm_list t = norm_list (managed_network_mount_root base) @ [leaf])"
proof -
  let ?root = "managed_network_mount_root base" and ?n = "normpath p"
  have root: "normpath ?root = ?root" "initial_slashes ?root = 1" "?root \<noteq> [sep]"
    using abs ne by (simp_all add: managed_network_mount_root_def)
  note rs = root_slash_normal [OF root]
  have n: "normpath ?n = ?n" by simp
  from t have pre: "prefix (?root @ [sep]) ?n"
    by (auto simp: cleanup_target_for_generated_network_mount_point_def Let_def rs split: if_splits)
  note below = normal_below_root [OF root n pre]
  obtain qs where qs: "norm_list ?n = norm_list ?root @ qs"
    using below(2) by (auto simp: path_within_def prefix_def)
  have ar: "isabs ?root" and an: "isabs ?n" using root(2) below(1) by (simp_all add: isabs_iff)
  have qne: "qs \<noteq> []"
  proof
    assume "qs = []"
    then have "?n = ?root"
      using qs normal_abs_form [OF n below(1)] normal_abs_form [OF root(1,2)] by simp
    with pre show False by (auto simp: prefix_def)
  qed
  have rel: "relpath cwd ?n ?root = join_with [sep] qs"
  proof -
    have sl: "filter (\<lambda>c. c \<noteq> []) (split_on sep ?root) = norm_list ?root"
      using nonempty_comps_normpath [OF ar] root(1) by simp
    have pl: "filter (\<lambda>c. c \<noteq> []) (split_on sep ?n) = norm_list ?n"
      using nonempty_comps_normpath [OF an] n by simp
    have "longest_common_prefix (norm_list ?root) (norm_list ?n) = norm_list ?root"
      using qs by (intro longest_common_prefix_prefix) (auto simp: prefix_def)
    then show ?thesis
      using qne qs
      by (simp add: relpath_def abspath_normal [OF ar root(1)] abspath_normal [OF an n] sl pl)
  qed
  from t rel have "sep \<notin> set (join_with [sep] qs)" and tt: "t = path_join ?root (join_with [sep] qs)"
    by (auto simp: cleanup_target_for_generated_network_mount_point_def Let_def rs pre split: if_splits)
  with qne obtain leaf where leaf: "qs = [leaf]" using join_single_sep by blast
  have lok: "comp_ok leaf" using norm_list_ok [of leaf ?n] qs leaf by simp
  have "?root \<noteq> []" by (simp add: managed_network_mount_root_def)
  then have "t = ?root @ sep # leaf"
    using tt leaf lok rs(3) by (cases leaf) (auto simp: path_join_def comp_ok_def isabs_def)
  also have "\<dots> = ?n"
    using qs leaf normal_abs_form [OF n below(1)] normal_abs_form [OF root(1,2)] rs(2)
      join_with_append [of "norm_list ?root" "[leaf]" "[sep]"] by simp
  finally have tn: "t = ?n" .
  with qs leaf lok show ?thesis by auto
qed

theorem cleanup_target_is_direct_child_witness:
  "cleanup_target_for_generated_network_mount_point ''/'' ''/nfs'' ''/nfs/case1/'' = Some ''/nfs/case1'' \<and>
   norm_list ''/nfs/case1'' = norm_list ''/nfs'' @ [''case1'']"
proof -
  have h: "initial_slashes (py_strip ''/nfs'') = 1" "managed_network_mount_root ''/nfs'' \<noteq> [sep]"
    "cleanup_target_for_generated_network_mount_point ''/'' ''/nfs'' ''/nfs/case1/'' = Some ''/nfs/case1''"
    "norm_list ''/nfs/case1'' = norm_list ''/nfs'' @ [''case1'']"
    by code_simp+
  from cleanup_target_is_direct_child [OF h(1-3)] h show ?thesis by blast
qed

end
