(* ===== verification/Sanitize.thy ===== *)
theory Sanitize
  imports Paths
begin

text \<open>
  \<open>app/utils/sanitize.py\<close>: stripping of characters the database cannot store, canonical project
  identifiers, validation of copy-source paths, redaction of path-like text and the recursive
  sanitiser of audit details. The properties state what an accepted source path can and cannot
  point at, and that nothing path-like survives in audit data.
\<close>

section \<open>Characters and project identifiers\<close>

definition is_null :: "char \<Rightarrow> bool" where
  "is_null c \<longleftrightarrow> (of_char c :: nat) = 0"

definition is_surrogate :: "char \<Rightarrow> bool" where
  "is_surrogate c \<longleftrightarrow> (let n = (of_char c :: nat) in 0xD800 \<le> n \<and> n \<le> 0xDFFF)"

definition sanitize_string :: "string \<Rightarrow> string" where
  "sanitize_string s = filter (\<lambda>c. \<not> is_surrogate c) (filter (\<lambda>c. \<not> is_null c) s)"

datatype path_error =
    Invalid_characters | Source_path_required | Source_is_system_root
  | Source_in_system_directory | Source_in_usb_target_area | Source_on_target_drive
  | Share_unavailable | Source_outside_share

definition strict_sanitize_string :: "string \<Rightarrow> path_error + string" where
  "strict_sanitize_string s =
     (if list_ex is_null s \<or> list_ex is_surrogate s then Inl Invalid_characters else Inr s)"

definition normalize_project_id :: "string \<Rightarrow> string" where
  "normalize_project_id s = py_upper (py_strip (sanitize_string s))"

definition norm_project :: "string option \<Rightarrow> string option" where
  "norm_project v = map_option normalize_project_id v"

section \<open>Source paths\<close>

definition disallowed_source_prefixes :: "string list" where
  "disallowed_source_prefixes = [''/proc'', ''/sys'', ''/dev'', ''/run'']"

definition validate_source_path ::
  "string option \<Rightarrow> string option \<Rightarrow> string \<Rightarrow> path_error + string" where
  "validate_source_path usb_mount_base_path target_mount_path v =
     (case strict_sanitize_string v of
        Inl e \<Rightarrow> Inl e
      | Inr value \<Rightarrow>
          (let normalized = normpath (py_strip value)
           in if normalized = [] then Inl Source_path_required
              else if normalized = [sep] then Inl Source_is_system_root
              else if list_ex (\<lambda>d. normalized = d \<or> py_startswith normalized (d @ [sep]))
                        disallowed_source_prefixes
                then Inl Source_in_system_directory
              else if truthy usb_mount_base_path \<and>
                  (let usb_root = normpath (py_strip (the usb_mount_base_path))
                   in usb_root \<noteq> [] \<and> usb_root \<noteq> [sep] \<and>
                      (normalized = usb_root \<or> py_startswith normalized (usb_root @ [sep])))
                then Inl Source_in_usb_target_area
              else if truthy target_mount_path \<and>
                  (let target_root = normpath (py_strip (the target_mount_path))
                   in target_root \<noteq> [] \<and> target_root \<noteq> [sep] \<and>
                      (normalized = target_root \<or> py_startswith normalized (target_root @ [sep])))
                then Inl Source_on_target_drive
              else Inr normalized))"

definition source_candidate :: "string \<Rightarrow> string \<Rightarrow> string" where
  "source_candidate root raw =
     (if raw = [sep] then root
      else if raw = root \<or> py_startswith raw (root @ [sep]) then raw
      else normpath (path_join root (py_lstrip_with (\<lambda>c. c = sep \<or> c = CHR 0x5C) raw)))"

definition resolve_source_path ::
  "string option \<Rightarrow> string option \<Rightarrow> string option \<Rightarrow> string \<Rightarrow> path_error + string" where
  "resolve_source_path mount_root usb_mount_base_path target_mount_path v =
     (case strict_sanitize_string v of
        Inl e \<Rightarrow> Inl e
      | Inr value \<Rightarrow>
          (let raw = py_strip value
           in if raw = [] then Inl Source_path_required
              else if truthy mount_root then
                (let root = normpath (py_strip (the mount_root))
                 in if root = [] \<or> root = [sep] then Inl Share_unavailable
                    else let candidate = source_candidate root raw
                         in if commonpath candidate root \<noteq> Some root then Inl Source_outside_share
                            else validate_source_path usb_mount_base_path target_mount_path candidate)
              else validate_source_path usb_mount_base_path target_mount_path raw))"

section \<open>Path-like text\<close>

definition word_before :: "char option \<Rightarrow> bool" where
  "word_before prev =
     (case prev of None \<Rightarrow> False
      | Some c \<Rightarrow> ascii_letter c \<or> ascii_digit c \<or> c \<in> {CHR ''.'', CHR ''_'', CHR ''-''})"

definition path_char :: "char \<Rightarrow> bool" where
  "path_char c \<longleftrightarrow> \<not> py_isspace c \<and>
     c \<notin> {CHR 0x27, CHR 0x22, CHR ''='', CHR '':'', CHR '';'', CHR '',''}"

definition path_starts :: "char option \<Rightarrow> char \<Rightarrow> string \<Rightarrow> bool" where
  "path_starts prev c cs \<longleftrightarrow> c = sep \<and> \<not> word_before prev \<and> cs \<noteq> [] \<and> path_char (hd cs)"

text \<open>The left-to-right scan of \<open>re.sub\<close> and \<open>re.findall\<close> for the pattern
  \<^verbatim>\<open>(?<![A-Za-z0-9._-])/(?:[^\s'"=:;,])+\<close>; the first argument is the character before.\<close>

function redact_scan :: "string \<Rightarrow> char option \<Rightarrow> string \<Rightarrow> string" where
  "redact_scan placeholder prev [] = []"
| "redact_scan placeholder prev (c # cs) =
     (if path_starts prev c cs
      then placeholder @
           redact_scan placeholder (Some (last (takeWhile path_char cs))) (dropWhile path_char cs)
      else c # redact_scan placeholder (Some c) cs)"
  by pat_completeness auto
termination
  by (relation "measure (\<lambda>(_, _, s). length s)") (auto simp: le_imp_less_Suc length_dropWhile_le)

function find_paths :: "char option \<Rightarrow> string \<Rightarrow> string list" where
  "find_paths prev [] = []"
| "find_paths prev (c # cs) =
     (if path_starts prev c cs
      then (c # takeWhile path_char cs) #
           find_paths (Some (last (takeWhile path_char cs))) (dropWhile path_char cs)
      else find_paths (Some c) cs)"
  by pat_completeness auto
termination
  by (relation "measure (\<lambda>(_, s). length s)") (auto simp: le_imp_less_Suc length_dropWhile_le)

definition path_placeholder :: string where
  "path_placeholder = ''[redacted-path]''"

definition redact_pathlike_substrings :: "string option \<Rightarrow> string" where
  "redact_pathlike_substrings v =
     (case v of None \<Rightarrow> [] | Some s \<Rightarrow> redact_scan path_placeholder None (sanitize_string s))"

fun describe_candidate ::
  "string \<Rightarrow> (string \<times> string) list \<Rightarrow> string list \<Rightarrow> string \<Rightarrow> string list" where
  "describe_candidate cwd [] acc nc = acc"
| "describe_candidate cwd ((root, label) # ms) acc nc =
     (if commonpath nc root \<noteq> Some root then describe_candidate cwd ms acc nc
      else let rel = relpath cwd nc root
           in if rel = dot then acc
              else let description = label @ '': '' @ py_replace_char (CHR 0x5C) sep rel
                   in if description \<in> set acc then acc else acc @ [description])"

definition describe_relative_paths ::
  "string \<Rightarrow> string option \<Rightarrow> string option \<Rightarrow> string option \<Rightarrow> string list" where
  "describe_relative_paths cwd source_path target_mount_path v =
     (case v of None \<Rightarrow> []
      | Some s \<Rightarrow>
          (let candidates = find_paths None (sanitize_string s);
               mappings = (case source_path of Some p \<Rightarrow>
                             if py_strip p \<noteq> [] then [(normpath (py_strip p), ''source'')] else []
                           | None \<Rightarrow> []) @
                          (case target_mount_path of Some p \<Rightarrow>
                             if py_strip p \<noteq> [] then [(normpath (py_strip p), ''destination'')] else []
                           | None \<Rightarrow> [])
           in foldl (\<lambda>acc cand. describe_candidate cwd mappings acc (normpath cand)) [] candidates))"

section \<open>Error summaries\<close>

definition msg_permission :: string where
  "msg_permission = ''Permission or authentication failure''"
definition msg_timed_out :: string where
  "msg_timed_out = ''Operation timed out''"
definition msg_already_unmounted :: string where
  "msg_already_unmounted = ''Target was already unmounted''"
definition msg_no_files :: string where
  "msg_no_files = ''Source path contains no transferable files''"
definition msg_busy :: string where
  "msg_busy = ''Target is busy''"
definition msg_invalid_device :: string where
  "msg_invalid_device = ''Invalid device path''"
definition msg_fs_unsupported :: string where
  "msg_fs_unsupported = ''Filesystem type is not supported by the host''"
definition msg_not_found :: string where
  "msg_not_found = ''Target device or path was not found''"

definition sanitize_error_message :: "string \<Rightarrow> string option \<Rightarrow> string" where
  "sanitize_error_message default_message err =
     (case err of None \<Rightarrow> default_message
      | Some _ \<Rightarrow>
          (let redacted = py_strip (redact_pathlike_substrings err)
           in if redacted = [] \<or> redacted = path_placeholder then default_message
              else let lowered = py_lower redacted; has = (\<lambda>t. py_contains lowered t)
                in if has ''permission denied'' \<or> has ''access denied'' \<or> has ''auth'' \<or>
                      has ''not authorized'' then msg_permission
                   else if has ''timed out'' \<or> has ''timeout'' then msg_timed_out
                   else if has ''not mounted'' \<or> has ''no mount point'' then msg_already_unmounted
                   else if has ''no transferable files'' then msg_no_files
                   else if has ''busy'' then msg_busy
                   else if has ''invalid device path'' \<or> has ''not a block device'' then msg_invalid_device
                   else if has ''unknown filesystem type'' \<or> has ''wrong fs type'' \<or> has ''bad superblock''
                     then msg_fs_unsupported
                   else if has ''no such file'' \<or> has ''not found'' then msg_not_found
                   else default_message))"

definition encoding_error_markers :: "string list" where
  "encoding_error_markers =
     [''invalid byte sequence'', ''character with byte sequence'', ''unsupported unicode'',
      ''invalid unicode'', ''null character'', CHR 0x5C # ''x00'', ''0x00'']"

definition is_encoding_error :: "string \<Rightarrow> bool" where
  "is_encoding_error msg \<longleftrightarrow> list_ex (\<lambda>m. py_contains (py_lower msg) m) encoding_error_markers"

section \<open>Audit details\<close>

datatype jval = JNull | JBool bool | JInt int | JStr string
  | JList "jval list" | JObj "(string \<times> jval) list"

definition audit_redacted :: string where
  "audit_redacted = ''[redacted]''"

definition audit_sensitive_keys :: "string list" where
  "audit_sensitive_keys =
     [''filesystem_path'', ''mount_path'', ''local_mount_point'', ''remote_path'',
      ''new_source_path'', ''existing_source_path'', ''device_name'', ''system_path'',
      ''mount_label'', ''mount_slot'', ''dev'']"

definition audit_error_text_keys :: "string list" where
  "audit_error_text_keys = [''error'', ''details'', ''raw_error'']"

definition system_path_prefixes :: "string list" where
  "system_path_prefixes =
     [''/dev/'', ''/mnt/'', ''/media/'', ''/run/'', ''/nfs/'', ''/smb/'', ''/proc/'', ''/sys/'',
      ''/tmp/'', ''/var/'']"

definition sanitize_audit_str :: "string option \<Rightarrow> string \<Rightarrow> string" where
  "sanitize_audit_str key s =
     (let key_lower = map_option py_lower key
      in if (\<exists>k \<in> set audit_sensitive_keys. key_lower = Some k) then audit_redacted
         else if key_lower = Some ''path'' then
           (let stripped = py_strip (sanitize_string s)
            in if list_ex (\<lambda>p. py_startswith stripped p) system_path_prefixes then audit_redacted
               else stripped)
         else if (\<exists>k \<in> set audit_error_text_keys. key_lower = Some k)
           then sanitize_error_message ''Operation failed'' (Some s)
         else py_strip (redact_pathlike_substrings (Some s)))"

fun sanitize_audit_value :: "string option \<Rightarrow> jval \<Rightarrow> jval" where
  "sanitize_audit_value key (JObj kvs) =
     JObj (map (\<lambda>(k, v). (k, sanitize_audit_value (Some k) v)) kvs)"
| "sanitize_audit_value key (JList vs) = JList (map (sanitize_audit_value key) vs)"
| "sanitize_audit_value key (JStr s) = JStr (sanitize_audit_str key s)"
| "sanitize_audit_value key JNull = JNull"
| "sanitize_audit_value key (JBool b) = JBool b"
| "sanitize_audit_value key (JInt i) = JInt i"

definition sanitize_audit_details :: "jval \<Rightarrow> jval" where
  "sanitize_audit_details v = sanitize_audit_value None v"

section \<open>Lemmas: characters\<close>

lemma is_surrogate_False [simp]: "\<not> is_surrogate c"
proof -
  have "(of_char c :: nat) < 256" by simp
  then show ?thesis by (simp add: is_surrogate_def Let_def del: nat_of_char_less_256)
qed

lemma is_surrogate_code [code]: "is_surrogate c = False"
  by simp

lemma sanitize_string_filter: "sanitize_string s = filter (\<lambda>c. \<not> is_null c) s"
  by (simp add: sanitize_string_def)

lemma sanitize_string_id: "list_all (\<lambda>c. \<not> is_null c) s \<Longrightarrow> sanitize_string s = s"
  by (simp add: sanitize_string_filter list_all_iff filter_id_conv)

lemma set_py_strip: "set (py_strip s) \<subseteq> set s"
  by (auto simp: py_strip_def py_rstrip_with_def py_lstrip_with_def dest!: set_dropWhileD)

lemma is_null_upper_char [simp]: "is_null (upper_char c) = is_null c"
  by (auto simp: is_null_def of_char_upper_char)

lemma normalize_project_id_clean: "list_all (\<lambda>c. \<not> is_null c) (normalize_project_id s)"
  using set_py_strip [of "sanitize_string s"]
  by (auto simp: normalize_project_id_def py_upper_def list_all_iff sanitize_string_filter)

lemma normalize_project_id_idem [simp]:
  "normalize_project_id (normalize_project_id s) = normalize_project_id s"
proof -
  have "normalize_project_id (normalize_project_id s) = py_upper (py_strip (normalize_project_id s))"
    by (simp add: normalize_project_id_def [of "normalize_project_id s"]
        sanitize_string_id [OF normalize_project_id_clean])
  then show ?thesis by (simp add: normalize_project_id_def py_strip_upper)
qed

lemma norm_project_idem [simp]: "norm_project (norm_project v) = norm_project v"
  by (cases v) (simp_all add: norm_project_def)

lemma strict_sanitize_Inr: "strict_sanitize_string s = Inr r \<Longrightarrow> r = s"
  by (simp add: strict_sanitize_string_def split: if_splits)

section \<open>Lemmas: source paths\<close>

lemma disallowed_roots:
  "d \<in> set disallowed_source_prefixes \<Longrightarrow>
     normpath d = d \<and> initial_slashes d = 1 \<and> d \<noteq> [sep]"
proof -
  have "list_all (\<lambda>d. normpath d = d \<and> initial_slashes d = 1 \<and> d \<noteq> [sep]) disallowed_source_prefixes"
    by code_simp
  then show "d \<in> set disallowed_source_prefixes \<Longrightarrow> ?thesis" by (simp add: list_all_iff)
qed

lemma validate_source_path_Inr:
  assumes "validate_source_path usb tgt v = Inr r"
  shows "r = normpath (py_strip v)" and "r \<noteq> [sep]"
    and "d \<in> set disallowed_source_prefixes \<Longrightarrow> \<not> str_within d r"
    and "usb = Some root \<or> tgt = Some root \<Longrightarrow> root \<noteq> [] \<Longrightarrow> normpath (py_strip root) \<noteq> [sep] \<Longrightarrow>
      \<not> str_within (normpath (py_strip root)) r"
proof -
  have ss: "strict_sanitize_string v = Inr v"
    using assms strict_sanitize_Inr
    by (auto simp: validate_source_path_def split: sum.splits)
  note u = assms [unfolded validate_source_path_def ss sum.case Let_def]
  show r: "r = normpath (py_strip v)" and "r \<noteq> [sep]"
    using u by (auto split: if_splits)
  show "\<not> str_within d r" if "d \<in> set disallowed_source_prefixes"
    using u that by (auto simp: str_within_def py_startswith_def list_ex_iff split: if_splits)
  show "\<not> str_within (normpath (py_strip root)) r"
    if "usb = Some root \<or> tgt = Some root" "root \<noteq> []" "normpath (py_strip root) \<noteq> [sep]"
    using u that by (elim disjE) (auto simp: str_within_def py_startswith_def split: if_splits)
qed

lemma set_join_with: "set (join_with s ps) \<subseteq> set s \<union> \<Union> (set ` set ps)"
  by (induction s ps rule: join_with.induct) auto

lemma set_norm_comps: "set (norm_comps a acc cs) \<subseteq> set acc \<union> set cs"
proof (induction a acc cs rule: norm_comps.induct)
  case (2 a acc c cs)
  have "set (tl acc) \<subseteq> set acc" by (cases acc) auto
  with 2 show ?case by auto
qed simp

lemma set_split_on: "p \<in> set (split_on c s) \<Longrightarrow> set p \<subseteq> set s"
proof (induction s arbitrary: p)
  case (Cons x xs)
  obtain q qs where "split_on c xs = q # qs" by (cases "split_on c xs") auto
  with Cons show ?case by (fastforce split: if_splits)
qed simp

lemma set_normpath: "set (normpath p) \<subseteq> set p \<union> {sep, CHR ''.''}"
proof -
  have "set (norm_list p) \<subseteq> set (split_on sep p)"
    using set_norm_comps [of "0 < initial_slashes p" "[]" "split_on sep p"] by (simp add: norm_list_def)
  then have "set (join_with [sep] (norm_list p)) \<subseteq> set p \<union> {sep}"
    using set_join_with [of "[sep]" "norm_list p"] set_split_on by fastforce
  then show ?thesis by (auto simp: normpath_alt Let_def)
qed

lemma py_strip_no_space: "list_all (\<lambda>c. \<not> py_isspace c) s \<Longrightarrow> py_strip s = s"
  by (rule py_strip_fixpoint) (auto simp: list_all_iff)

lemma no_space_normpath:
  "list_all (\<lambda>c. \<not> py_isspace c) s \<Longrightarrow> list_all (\<lambda>c. \<not> py_isspace c) (normpath s)"
proof -
  assume "list_all (\<lambda>c. \<not> py_isspace c) s"
  moreover have "\<not> py_isspace sep" "\<not> py_isspace (CHR ''.'')" by code_simp+
  ultimately show ?thesis using set_normpath [of s] by (auto simp: list_all_iff)
qed

lemma norm_comps_no_dotdot:
  "dotdot \<notin> set cs \<Longrightarrow> norm_comps a acc cs = rev acc @ filter (\<lambda>c. c \<noteq> [] \<and> c \<noteq> dot) cs"
  by (induction cs arbitrary: acc) auto

lemma norm_list_no_dotdot: "dotdot \<notin> set (split_on sep p) \<Longrightarrow> norm_list p = plain_comps p"
  by (simp add: norm_list_def plain_comps_def norm_comps_no_dotdot)

lemma str_within_components:
  assumes root: "normpath root = root" "initial_slashes root = 1" "root \<noteq> [sep]"
    and w: "str_within root p"
  shows "isabs p" and "prefix (norm_list root) (plain_comps p)"
proof -
  note f = normal_abs_form [OF root(1,2)]
  note ne = root_slash_normal(2) [OF root]
  have pr: "plain_comps root = norm_list root" using plain_comps_normpath [of root] root(1) by simp
  have ar: "isabs root" using root(2) by (simp add: isabs_iff)
  then show "isabs p" using w by (auto simp: str_within_def isabs_def prefix_def)
  show "prefix (norm_list root) (plain_comps p)"
  proof (cases "p = root")
    case True
    with pr show ?thesis by simp
  next
    case False
    with w obtain t where "p = root @ sep # t" by (auto simp: str_within_def prefix_def)
    with f have "p = sep # (join_with [sep] (norm_list root) @ sep # t)" by simp
    then have "split_on sep p = [] # (norm_list root @ split_on sep t)"
      using split_on_join_append [OF ne, of t] norm_list_ok [of _ root] by (simp add: comp_ok_def)
    then show ?thesis by (simp add: plain_comps_def)
  qed
qed

lemma resolve_source_path_Inr:
  assumes "resolve_source_path (Some m) usb tgt v = Inr r" and "m \<noteq> []"
  shows "commonpath (source_candidate (normpath (py_strip m)) (py_strip v)) (normpath (py_strip m)) =
           Some (normpath (py_strip m))"
    and "validate_source_path usb tgt (source_candidate (normpath (py_strip m)) (py_strip v)) = Inr r"
    and "normpath (py_strip m) \<noteq> [sep]"
proof -
  have ss: "strict_sanitize_string v = Inr v"
    using assms(1) strict_sanitize_Inr by (auto simp: resolve_source_path_def split: sum.splits)
  note u = assms(1) [unfolded resolve_source_path_def ss sum.case Let_def]
  show "commonpath (source_candidate (normpath (py_strip m)) (py_strip v)) (normpath (py_strip m)) =
           Some (normpath (py_strip m))"
    and "validate_source_path usb tgt (source_candidate (normpath (py_strip m)) (py_strip v)) = Inr r"
    and "normpath (py_strip m) \<noteq> [sep]"
    using u assms(2) by (auto split: if_splits)
qed

lemma no_space_join_candidate:
  assumes "list_all (\<lambda>c. \<not> py_isspace c) root" and "list_all (\<lambda>c. \<not> py_isspace c) raw"
  shows "list_all (\<lambda>c. \<not> py_isspace c) (path_join root (py_lstrip_with P raw))"
proof -
  have "\<not> py_isspace sep" by code_simp
  with assms show ?thesis
    by (auto simp: path_join_def py_lstrip_with_def list_all_iff dest: set_dropWhileD)
qed

section \<open>Lemmas: redaction\<close>

lemma path_char_sep [simp]: "path_char sep"
  by code_simp

lemma find_paths_no_sep:
  "sep \<notin> set q \<Longrightarrow> find_paths prev (q @ t) = find_paths (if q = [] then prev else Some (last q)) t"
proof (induction q arbitrary: prev)
  case (Cons c q)
  then have "\<not> path_starts prev c (q @ t)" by (auto simp: path_starts_def)
  with Cons show ?case by simp
qed simp

lemma redact_scan_hd:
  "cs \<noteq> [] \<Longrightarrow> hd cs \<noteq> sep \<Longrightarrow> redact_scan ph prev cs \<noteq> [] \<and> hd (redact_scan ph prev cs) = hd cs"
  by (cases cs) (auto simp: path_starts_def)

lemma find_paths_redact_scan:
  assumes ph: "ph \<noteq> []" "sep \<notin> set ph"
  shows "p' = prev \<or> s = [] \<or> hd s \<noteq> sep \<Longrightarrow> find_paths p' (redact_scan ph prev s) = []"
  using ph
proof (induction ph prev s arbitrary: p' rule: redact_scan.induct)
  case (1 ph prev)
  then show ?case by simp
next
  case (2 ph prev c cs)
  show ?case
  proof (cases "path_starts prev c cs")
    case True
    let ?d = "dropWhile path_char cs"
    have "?d = [] \<or> hd ?d \<noteq> sep"
      using hd_dropWhile [of path_char cs] path_char_sep by metis
    with "2.IH"(1) [OF True] "2.prems"(2,3) have
      "find_paths (Some (last ph)) (redact_scan ph (Some (last (takeWhile path_char cs))) ?d) = []"
      by blast
    with True "2.prems"(2,3) show ?thesis by (simp add: find_paths_no_sep)
  next
    case False
    have "\<not> path_starts p' c (redact_scan ph (Some c) cs)"
    proof (cases "c = sep")
      case True
      with "2.prems"(1) have "p' = prev" by simp
      with True False have "word_before p' \<or> cs = [] \<or> \<not> path_char (hd cs)"
        by (auto simp: path_starts_def)
      moreover have "cs \<noteq> [] \<Longrightarrow> \<not> path_char (hd cs) \<Longrightarrow> hd (redact_scan ph (Some c) cs) = hd cs"
        using redact_scan_hd [of cs ph "Some c"] path_char_sep by metis
      ultimately show ?thesis by (cases "cs = []") (auto simp: path_starts_def)
    qed (simp add: path_starts_def)
    with False "2.IH"(2) [OF False] "2.prems"(2,3) show ?thesis by simp
  qed
qed

lemma find_paths_append_empty: "find_paths prev (s @ t) = [] \<Longrightarrow> find_paths prev s = []"
proof (induction s arbitrary: prev)
  case (Cons c s)
  then have n: "\<not> path_starts prev c (s @ t)" by (auto split: if_splits)
  then have "\<not> path_starts prev c s" by (cases s) (auto simp: path_starts_def)
  with Cons n show ?case by simp
qed simp

lemma word_before_space: "py_isspace c \<Longrightarrow> \<not> word_before (Some c)"
  by (auto simp: word_before_def py_isspace_def ascii_letter_def ascii_digit_def Let_def)

lemma find_paths_space_prev: "py_isspace c \<Longrightarrow> find_paths (Some c) s = find_paths None s"
  by (cases s) (simp_all add: path_starts_def word_before_space, simp add: word_before_def)

lemma find_paths_strip: "find_paths None s = [] \<Longrightarrow> find_paths None (py_strip s) = []"
proof -
  assume h: "find_paths None s = []"
  let ?w = "takeWhile py_isspace s" and ?t = "dropWhile py_isspace s"
  have sp: "\<And>c. c \<in> set ?w \<Longrightarrow> py_isspace c" by (rule set_takeWhileD [THEN conjunct2])
  have "\<not> py_isspace sep" by code_simp
  with sp have ns: "sep \<notin> set ?w" by blast
  have "find_paths (if ?w = [] then None else Some (last ?w)) ?t = []"
    using h find_paths_no_sep [OF ns, of None ?t] by simp
  then have t: "find_paths None ?t = []"
    using sp find_paths_space_prev [of "last ?w"] by (auto split: if_splits)
  obtain e where "?t = py_strip s @ e"
    by (metis py_lstrip_with_def py_rstrip_with_def py_strip_def rev_append rev_rev_ident
        takeWhile_dropWhile_id)
  with t show ?thesis using find_paths_append_empty by metis
qed

lemma placeholder_ok: "path_placeholder \<noteq> []" "sep \<notin> set path_placeholder"
  by code_simp+

lemma redact_no_paths: "find_paths None (redact_pathlike_substrings v) = []"
  by (cases v) (auto simp: redact_pathlike_substrings_def intro!: find_paths_redact_scan placeholder_ok)

section \<open>Properties\<close>



text \<open>The system-directory check is made on the string: a path with two leading slashes, which the
  host resolves exactly like one, passes validation although it lies inside \<^verbatim>\<open>/proc\<close>, and the
  overlap check does not see it either.\<close>

theorem double_slash_source_accepted:
  "validate_source_path None None ''//proc/1'' = Inr ''//proc/1'' \<and> path_within ''/proc'' ''//proc/1'' \<and>
   validate_source_path None None ''//'' = Inr ''//'' \<and>
   classify_source_path_overlap ''//evidence'' ''/evidence'' = No_overlap"
  by code_simp

text \<open>A source resolved against a mounted share stays inside the share: if the operator's text has no
  white space, and no \<^verbatim>\<open>..\<close> component when it already starts with the share's mount point, the
  accepted path is the mount point or below it. The mount point is absolute with a single leading
  slash and holds no white space.\<close>

theorem resolve_source_path_contained:
  assumes acc: "resolve_source_path (Some m) usb tgt v = Inr r"
    and m: "initial_slashes m = 1" "list_all (\<lambda>c. \<not> py_isspace c) m"
    and v: "list_all (\<lambda>c. \<not> py_isspace c) v"
    and dd: "str_within (normpath m) v \<longrightarrow> dotdot \<notin> set (split_on sep v)"
  shows "path_within (normpath m) r"
proof -
  let ?root = "normpath m"
  have s: "py_strip m = m" "py_strip v = v" using m v by (simp_all add: py_strip_no_space)
  have "m \<noteq> []" using m(1) by (auto simp: initial_slashes_def isabs_def)
  note R = resolve_source_path_Inr [OF acc this, unfolded s]
  have root: "normpath ?root = ?root" "initial_slashes ?root = 1" "isabs ?root"
    using m(1) by (simp_all add: isabs_iff)
  let ?c = "source_candidate ?root v"
  have r: "r = normpath (py_strip ?c)" by (rule validate_source_path_Inr(1) [OF R(2)])
  consider (slash) "v = [sep]" | (inside) "v \<noteq> [sep]" "str_within ?root v"
    | (join) "v \<noteq> [sep]" "\<not> str_within ?root v" by blast
  then show ?thesis
  proof cases
    case slash
    then have "?c = ?root" by (simp add: source_candidate_def)
    with r root m no_space_normpath [OF m(2)] show ?thesis
      by (simp add: py_strip_no_space path_within_def isabs_iff)
  next
    case inside
    then have "?c = v" by (auto simp: source_candidate_def str_within_def py_startswith_def)
    with r s have rv: "r = normpath v" by simp
    with str_within_components [OF root(1,2) R(3) inside(2)] norm_list_no_dotdot [of v] dd inside root
    show ?thesis by (simp add: path_within_def)
  next
    case join
    let ?j = "path_join ?root (py_lstrip_with (\<lambda>c. c = sep \<or> c = CHR 0x5C) v)"
    have c: "?c = normpath ?j" using join by (auto simp: source_candidate_def str_within_def py_startswith_def)
    have "list_all (\<lambda>c. \<not> py_isspace c) ?c"
      unfolding c by (intro no_space_normpath no_space_join_candidate m(2) v)
    with r c have "r = normpath ?j" by (simp add: py_strip_no_space)
    with commonpath_root(1) [OF root(1,3) R(1) [unfolded c]] show ?thesis by simp
  qed
qed

theorem resolve_source_path_contained_witness:
  "resolve_source_path (Some ''/nfs/proj'') None None ''a/../b'' = Inr ''/nfs/proj/b'' \<and>
   path_within (normpath ''/nfs/proj'') ''/nfs/proj/b''"
proof -
  have h: "resolve_source_path (Some ''/nfs/proj'') None None ''a/../b'' = Inr ''/nfs/proj/b''"
    "initial_slashes ''/nfs/proj'' = 1" "list_all (\<lambda>c. \<not> py_isspace c) ''/nfs/proj''"
    "list_all (\<lambda>c. \<not> py_isspace c) ''a/../b''"
    "str_within (normpath ''/nfs/proj'') ''a/../b'' \<longrightarrow> dotdot \<notin> set (split_on sep ''a/../b'')"
    by code_simp+
  from resolve_source_path_contained [OF h] h(1) show ?thesis by simp
qed

text \<open>Both side conditions of the containment theorem are needed: a path that starts with the share's
  mount point is compared without being normalised and escapes through \<^verbatim>\<open>..\<close>, and a component
  made of two dots and a blank survives normalisation and becomes \<^verbatim>\<open>..\<close> when the candidate is
  stripped a second time.\<close>

theorem resolve_source_path_escapes:
  "resolve_source_path (Some ''/nfs/proj'') None None ''/nfs/proj/../../etc'' = Inr ''/etc'' \<and>
   \<not> path_within ''/nfs/proj'' ''/etc'' \<and>
   resolve_source_path (Some ''/nfs/proj'') None None ''.. /b/..'' = Inr ''/nfs'' \<and>
   \<not> path_within ''/nfs/proj'' ''/nfs''"
  by code_simp

text \<open>Project identifiers are compared in a canonical form: normalisation is idempotent and leaves
  no outer white space, no null character and no lower-case letter.\<close>

lemma normalize_project_id_canonical:
  "normalize_project_id (normalize_project_id s) = normalize_project_id s \<and>
   py_strip (normalize_project_id s) = normalize_project_id s \<and>
   py_upper (normalize_project_id s) = normalize_project_id s \<and>
   list_all (\<lambda>c. \<not> is_null c) (normalize_project_id s)"
proof -
  have "py_strip (normalize_project_id s) = normalize_project_id s"
    and "py_upper (normalize_project_id s) = normalize_project_id s"
    by (simp_all add: normalize_project_id_def py_strip_upper)
  with normalize_project_id_clean [of s] show ?thesis by simp
qed

text \<open>What the audit sanitiser promises of every string it lets through, by the key it is stored
  under.\<close>

definition error_summaries :: "string list" where
  "error_summaries =
     [''Operation failed'', msg_permission, msg_timed_out, msg_already_unmounted, msg_no_files,
      msg_busy, msg_invalid_device, msg_fs_unsupported, msg_not_found]"

definition audit_safe_str :: "string option \<Rightarrow> string \<Rightarrow> bool" where
  "audit_safe_str key s \<longleftrightarrow>
     (let k = map_option py_lower key
      in if k \<in> Some ` set audit_sensitive_keys then s = audit_redacted
         else if k = Some ''path'' then \<not> list_ex (\<lambda>p. py_startswith s p) system_path_prefixes
         else if k \<in> Some ` set audit_error_text_keys then s \<in> set error_summaries
         else find_paths None s = [])"

fun audit_safe :: "string option \<Rightarrow> jval \<Rightarrow> bool" where
  "audit_safe key (JObj kvs) = (\<forall>kv \<in> set kvs. audit_safe (Some (fst kv)) (snd kv))"
| "audit_safe key (JList vs) = (\<forall>v \<in> set vs. audit_safe key v)"
| "audit_safe key (JStr s) = audit_safe_str key s"
| "audit_safe key _ = True"

lemma sanitize_error_message_bounded:
  "sanitize_error_message d e \<in> set (d # error_summaries)"
  by (auto simp: sanitize_error_message_def error_summaries_def Let_def split: option.split)

lemma audit_redacted_safe: "\<not> list_ex (\<lambda>p. py_startswith audit_redacted p) system_path_prefixes"
  by code_simp

lemma sanitize_audit_str_safe: "audit_safe_str key (sanitize_audit_str key s)"
proof -
  have m: "k \<in> Some ` set xs \<longleftrightarrow> (\<exists>x \<in> set xs. k = Some x)" for k :: "string option" and xs by auto
  have e: "sanitize_error_message ''Operation failed'' x \<in> set error_summaries" for x
    using sanitize_error_message_bounded [of "''Operation failed''" x]
    by (auto simp: error_summaries_def)
  have r: "find_paths None (py_strip (redact_pathlike_substrings (Some s))) = []"
    by (intro find_paths_strip redact_no_paths)
  show ?thesis
    unfolding audit_safe_str_def sanitize_audit_str_def Let_def m
    using e r audit_redacted_safe by presburger
qed

lemma sanitize_audit_details_ok: "audit_safe None (sanitize_audit_details v)"
proof -
  have "audit_safe key (sanitize_audit_value key v)" for key
  proof (induction key v rule: sanitize_audit_value.induct)
    case (1 key kvs)
    then show ?case by (fastforce split: prod.splits)
  qed (auto simp: sanitize_audit_str_safe)
  then show ?thesis by (simp add: sanitize_audit_details_def)
qed

text \<open>Nothing confidential reaches an audit record: after sanitising, every string stored under a
  sensitive key is the redaction marker, a \<open>path\<close> never starts with a host directory, error text is
  one of nine fixed summaries, and no other string contains anything the path pattern matches, at
  any depth of the record.\<close>

theorem sanitize_audit_details_safe: "audit_safe None (sanitize_audit_details v)"
  by (rule sanitize_audit_details_ok)

text \<open>Redaction removes every path-like substring in one pass and is idempotent: scanning the
  redacted text finds no path, so redacting it again changes nothing but null characters.\<close>

theorem redaction_complete:
  "find_paths None (redact_pathlike_substrings v) = [] \<and>
   redact_pathlike_substrings (Some (redact_pathlike_substrings v)) = redact_pathlike_substrings v"
proof -
  have nop: "find_paths prev s = [] \<Longrightarrow> redact_scan ph prev s = s" for ph prev s
    by (induction ph prev s rule: redact_scan.induct) (auto split: if_splits)
  have "set (redact_scan ph prev s) \<subseteq> set ph \<union> set s" for ph prev s
    by (induction ph prev s rule: redact_scan.induct) (auto dest: set_dropWhileD)
  moreover have "list_all (\<lambda>c. \<not> is_null c) path_placeholder" by code_simp
  ultimately have "list_all (\<lambda>c. \<not> is_null c) (redact_pathlike_substrings v)"
    by (cases v) (fastforce simp: redact_pathlike_substrings_def list_all_iff sanitize_string_filter)+
  then have "sanitize_string (redact_pathlike_substrings v) = redact_pathlike_substrings v"
    by (rule sanitize_string_id)
  with nop [OF redact_no_paths] redact_no_paths show ?thesis
    by (simp add: redact_pathlike_substrings_def [of "Some _"])
qed

end
