(* ===== verification/Drive_Identity.thy ===== *)
theory Drive_Identity
  imports Sanitize
begin

text \<open>
  \<open>app/utils/drive_identity.py\<close>: the persistent identifier under which a USB drive is
  remembered across re-enumeration, its parser, the matching of identifiers and the labels shown to
  operators. The dictionary built by the parser is the list of its assignments in order; a later
  assignment to a key wins.
\<close>

section \<open>Definitions\<close>

definition str_or_empty :: "string option \<Rightarrow> string" where
  "str_or_empty v = (case v of None \<Rightarrow> [] | Some s \<Rightarrow> s)"

definition normalize_identifier_component :: "string option \<Rightarrow> string option" where
  "normalize_identifier_component v =
     (let normalized = py_strip (str_or_empty v)
      in if normalized = [] then None
         else Some (py_replace_char (CHR ''='') (CHR ''_'')
                     (py_replace_char (CHR ''|'') (CHR ''_'') normalized)))"

definition identifier_components ::
  "string option \<Rightarrow> string option \<Rightarrow> string option \<Rightarrow> string option \<Rightarrow> string option \<Rightarrow>
   (string \<times> string option) list" where
  "identifier_components vid pid serial disk bus =
     [(''vid'', normalize_identifier_component vid),
      (''pid'', normalize_identifier_component pid),
      (''serial'', normalize_identifier_component serial),
      (''disk'', normalize_identifier_component disk),
      (''bus'', normalize_identifier_component bus)]"

definition present_components :: "(string \<times> string option) list \<Rightarrow> (string \<times> string) list" where
  "present_components kvs =
     map (\<lambda>(k, v). (k, the v)) (filter (\<lambda>(k, v). truthy v) kvs)"

definition build_persistent_device_identifier ::
  "string option \<Rightarrow> string option \<Rightarrow> string option \<Rightarrow> string option \<Rightarrow> string option \<Rightarrow> string" where
  "build_persistent_device_identifier vid pid serial bus disk =
     (let parts = ''usb'' # map (\<lambda>(k, v). k @ ''='' @ v)
                    (present_components (identifier_components vid pid serial disk bus))
      in if 1 < length parts then join_with ''|'' parts
         else let b = normalize_identifier_component bus in if truthy b then the b else ''-'')"

text \<open>\<open>token.split("=", 1)\<close> of a token that holds an equals sign.\<close>

definition split_first :: "char \<Rightarrow> string \<Rightarrow> string \<times> string" where
  "split_first c s = (takeWhile (\<lambda>x. x \<noteq> c) s, drop 1 (dropWhile (\<lambda>x. x \<noteq> c) s))"

definition parse_token :: "string \<Rightarrow> (string \<times> string) list" where
  "parse_token token =
     (if CHR ''='' \<notin> set token then []
      else let (k, v) = split_first (CHR ''='') token; key = py_strip k; val = py_strip v
           in if key \<noteq> [] \<and> val \<noteq> [] then [(key, val)] else [])"

definition parse_persistent_device_identifier :: "string option \<Rightarrow> (string \<times> string) list" where
  "parse_persistent_device_identifier device_identifier =
     (let identifier = py_strip (str_or_empty device_identifier)
      in if \<not> py_startswith identifier ''usb|'' then []
         else concat (map parse_token (tl (split_on (CHR ''|'') identifier))))"

definition dict_get :: "(string \<times> string) list \<Rightarrow> string \<Rightarrow> string option" where
  "dict_get d k = map_of (rev d) k"

definition is_persistent_device_identifier :: "string option \<Rightarrow> bool" where
  "is_persistent_device_identifier i \<longleftrightarrow> parse_persistent_device_identifier i \<noteq> []"

definition extract_usb_serial_number :: "string option \<Rightarrow> string option \<Rightarrow> string option" where
  "extract_usb_serial_number device_identifier port_system_path =
     (let parsed = parse_persistent_device_identifier device_identifier
      in if truthy (dict_get parsed ''serial'') then dict_get parsed ''serial''
         else let identifier = py_strip (str_or_empty device_identifier)
              in if identifier = [] then None
                 else if truthy port_system_path \<and> port_system_path = Some identifier then None
                 else Some identifier)"

definition device_identifier_matches ::
  "string option \<Rightarrow> string option \<Rightarrow> string option \<Rightarrow> bool" where
  "device_identifier_matches device_identifier candidate port_system_path =
     (let c = py_strip (str_or_empty candidate); i = py_strip (str_or_empty device_identifier)
      in if c = [] \<or> i = [] then False
         else if i = c then True
         else let parsed = parse_persistent_device_identifier (Some i)
              in if parsed = [] then False
                 else Some c = dict_get parsed ''serial'' \<or> Some c = dict_get parsed ''disk'' \<or>
                      (port_system_path = None \<and> Some c = dict_get parsed ''bus''))"

text \<open>\<open>round(capacity / unit)\<close>: to nearest, ties to even. The quotient by a power of two is exact
  in the floating-point format for capacities below \<^term>\<open>2 ^ 53 :: int\<close> bytes.\<close>

definition round_div :: "int \<Rightarrow> int \<Rightarrow> int" where
  "round_div a b =
     (let q = a div b; r = a mod b
      in if 2 * r < b then q else if b < 2 * r then q + 1 else if even q then q else q + 1)"

definition drive_capacity_label :: "int option \<Rightarrow> string option" where
  "drive_capacity_label capacity_bytes =
     (case capacity_bytes of None \<Rightarrow> None
      | Some capacity \<Rightarrow>
          if capacity \<le> 0 then None
          else if 2 ^ 40 \<le> capacity then Some (str_int (max (round_div capacity (2 ^ 40)) 1) @ ''TB'')
          else if 2 ^ 30 \<le> capacity then Some (str_int (max (round_div capacity (2 ^ 30)) 1) @ ''GB'')
          else if 2 ^ 20 \<le> capacity then Some (str_int (max (round_div capacity (2 ^ 20)) 1) @ ''MB'')
          else Some ''1MB'')"

definition label_parts :: "string option \<Rightarrow> string option \<Rightarrow> string list" where
  "label_parts manufacturer product_name =
     (let m = py_strip (str_or_empty manufacturer); p = py_strip (str_or_empty product_name);
          ms = (if m = [] then [] else [m])
      in if p = [] \<or> p \<in> set ms then ms else ms @ [p])"

definition build_readable_device_label ::
  "string option \<Rightarrow> string option \<Rightarrow> int option \<Rightarrow> int option \<Rightarrow> string option \<Rightarrow> string" where
  "build_readable_device_label manufacturer product_name port_number capacity_bytes fallback_label =
     (let base_label = py_strip (join_with '' '' (label_parts manufacturer product_name))
      in case port_number of
           Some n \<Rightarrow>
             (let label = (if base_label \<noteq> [] then base_label @ '' - Port '' @ str_int n
                           else ''USB Drive - Port '' @ str_int n)
              in case drive_capacity_label capacity_bytes of
                   Some c \<Rightarrow> label @ '' ('' @ c @ '')'' | None \<Rightarrow> label)
         | None \<Rightarrow>
             if base_label \<noteq> [] then base_label
             else let fallback = py_strip (str_or_empty fallback_label)
                  in if fallback \<noteq> [] then fallback else ''-'')"

definition mask_serial_number :: "string option \<Rightarrow> string option" where
  "mask_serial_number serial_number =
     (let serial = py_strip (str_or_empty serial_number)
      in if serial = [] then None
         else if length serial \<le> 4 then Some ''[redacted]''
         else Some (''[redacted]-'' @ drop (length serial - 4) serial))"

section \<open>Lemmas\<close>

lemma component_chars:
  "normalize_identifier_component v = Some s \<Longrightarrow>
     CHR ''|'' \<notin> set s \<and> CHR ''='' \<notin> set s \<and> py_strip s = s \<and> s \<noteq> []"
proof -
  assume h: "normalize_identifier_component v = Some s"
  let ?t = "py_strip (str_or_empty v)"
  let ?g = "\<lambda>c. if (if c = CHR ''|'' then CHR ''_'' else c) = CHR ''='' then CHR ''_''
                else (if c = CHR ''|'' then CHR ''_'' else c)"
  from h have s: "s = map ?g ?t" and ne: "?t \<noteq> []"
    by (auto simp: normalize_identifier_component_def py_replace_char_def Let_def split: if_splits)
  have keep: "py_isspace (?g c) = py_isspace c" for c
  proof -
    have "\<not> py_isspace (CHR ''|'')" "\<not> py_isspace (CHR ''='')" "\<not> py_isspace (CHR ''_'')" by code_simp+
    then show ?thesis by auto
  qed
  have "py_strip s = s"
    using ne py_strip_ends [of "str_or_empty v"]
    by (intro py_strip_fixpoint) (simp add: s hd_map last_map keep del: if_split)
  with s ne show ?thesis by (auto split: if_splits)
qed

lemma parse_token_component:
  assumes "CHR ''='' \<notin> set k" "py_strip k = k" "k \<noteq> []" "py_strip v = v" "v \<noteq> []"
  shows "parse_token (k @ ''='' @ v) = [(k, v)]"
proof -
  have t: "takeWhile (\<lambda>x. x \<noteq> CHR ''='') (k @ CHR ''='' # v) = k"
    and d: "dropWhile (\<lambda>x. x \<noteq> CHR ''='') (k @ CHR ''='' # v) = CHR ''='' # v"
    using assms(1) by (induction k) auto
  show ?thesis using assms by (simp add: parse_token_def split_first_def t d)
qed

lemma present_components_in:
  "(k, v) \<in> set (present_components (identifier_components vid pid ser disk bus)) \<Longrightarrow>
     k \<in> {''vid'', ''pid'', ''serial'', ''disk'', ''bus''} \<and>
     (\<exists>x. normalize_identifier_component x = Some v)"
  by (auto simp: present_components_def identifier_components_def split: if_splits)
     (metis option.collapse truthy.simps(1))+

lemma component_keys_ok:
  "k \<in> {''vid'', ''pid'', ''serial'', ''disk'', ''bus''} \<Longrightarrow>
     CHR ''='' \<notin> set k \<and> CHR ''|'' \<notin> set k \<and> py_strip k = k \<and> k \<noteq> []"
proof -
  have "list_all (\<lambda>k. CHR ''='' \<notin> set k \<and> CHR ''|'' \<notin> set k \<and> py_strip k = k \<and> k \<noteq> [])
          [''vid'', ''pid'', ''serial'', ''disk'', ''bus'']" by code_simp
  then show "k \<in> {''vid'', ''pid'', ''serial'', ''disk'', ''bus''} \<Longrightarrow> ?thesis" by auto
qed

lemma concat_parse_tokens:
  "(\<And>k v. (k, v) \<in> set kvs \<Longrightarrow> parse_token (k @ ''='' @ v) = [(k, v)]) \<Longrightarrow>
     concat (map (\<lambda>x. parse_token (case x of (k, v) \<Rightarrow> k @ ''='' @ v)) kvs) = kvs"
  by (induction kvs) (auto split: prod.splits)

lemma strip_join:
  assumes "ps \<noteq> []" "\<And>p. p \<in> set ps \<Longrightarrow> p \<noteq> []" "\<not> py_isspace (hd (hd ps))" "\<not> py_isspace (last (last ps))"
  shows "py_strip (join_with s ps) = join_with s ps"
proof -
  have "hd (join_with s ps) = hd (hd ps) \<and> last (join_with s ps) = last (last ps) \<and> join_with s ps \<noteq> []"
    using assms(1,2)
  proof (induction s ps rule: join_with.induct)
    case (3 s p q qs)
    then have "p \<noteq> []" and "join_with s (q # qs) \<noteq> [] \<and> last (join_with s (q # qs)) = last (last (q # qs))"
      by auto
    then show ?case by auto
  qed auto
  with assms(3,4) show ?thesis by (intro py_strip_fixpoint) simp
qed

section \<open>Properties\<close>

text \<open>Identifiers round-trip: parsing the identifier built from a drive's descriptors yields exactly
  the non-empty descriptors, each under its own key and cleaned of the separators, in the order they
  were written; a drive without descriptors parses to nothing.\<close>

theorem identifier_roundtrip:
  "parse_persistent_device_identifier
     (Some (build_persistent_device_identifier vid pid serial bus disk)) =
   present_components (identifier_components vid pid serial disk bus)"
proof -
  let ?kvs = "present_components (identifier_components vid pid serial disk bus)"
  let ?parts = "''usb'' # map (\<lambda>(k, v). k @ ''='' @ v) ?kvs"
  let ?b = "build_persistent_device_identifier vid pid serial bus disk"
  have ok: "CHR ''='' \<notin> set k \<and> CHR ''|'' \<notin> set k \<and> py_strip k = k \<and> k \<noteq> [] \<and>
      CHR ''|'' \<notin> set v \<and> CHR ''='' \<notin> set v \<and> py_strip v = v \<and> v \<noteq> []" if "(k, v) \<in> set ?kvs" for k v
    using present_components_in [OF that] component_keys_ok [of k] component_chars by blast
  show ?thesis
  proof (cases "?kvs = []")
    case True
    then have "normalize_identifier_component bus = None"
      using component_chars [of bus]
      by (cases "normalize_identifier_component bus")
         (auto simp: present_components_def identifier_components_def split: if_splits)
    with True have "?b = ''-''" by (simp add: build_persistent_device_identifier_def)
    moreover have "parse_persistent_device_identifier (Some ''-'') = []" by code_simp
    ultimately show ?thesis using True by simp
  next
    case False
    then have b: "?b = join_with ''|'' ?parts" by (simp add: build_persistent_device_identifier_def)
    have "last ?parts = (case last ?kvs of (k, v) \<Rightarrow> k @ ''='' @ v)" using False by (simp add: last_map)
    moreover obtain k v where kv: "last ?kvs = (k, v)" by (cases "last ?kvs")
    moreover have "(k, v) \<in> set ?kvs" using False kv last_in_set by metis
    ultimately have "last (last ?parts) = last v" and "v \<noteq> []" "py_strip v = v" using ok by auto
    then have lst: "\<not> py_isspace (last (last ?parts))" using py_strip_ends [of v] by simp
    have hd: "\<not> py_isspace (hd (hd ?parts))" by (simp, code_simp)
    have strip: "py_strip ?b = ?b"
      unfolding b by (rule strip_join [OF _ _ hd lst]) (auto split: prod.splits)
    have "split_on (CHR ''|'') (join_with [CHR ''|''] ?parts) = ?parts"
      using ok by (intro split_join) (auto split: prod.splits)
    with b have sp: "split_on (CHR ''|'') ?b = ?parts" by simp
    have "py_startswith ?b ''usb|''"
      unfolding b using False by (cases ?kvs) (auto simp: py_startswith_def prefix_def)
    then have "parse_persistent_device_identifier (Some ?b) =
        concat (map (\<lambda>x. parse_token (case x of (k, v) \<Rightarrow> k @ ''='' @ v)) ?kvs)"
      by (simp add: parse_persistent_device_identifier_def str_or_empty_def strip sp comp_def)
    also have "\<dots> = ?kvs"
      using ok by (intro concat_parse_tokens parse_token_component) blast+
    finally show ?thesis .
  qed
qed

end
