(* ===== verification/Schema.thy ===== *)
theory Schema
  imports Complex_Main Drive_Identity
begin

text \<open>
  The persistent data model (\<open>app/models\<close>), the session that the services work in, and the
  repositories that only read or write one table (\<open>drive_repository.py\<close>,
  \<open>share_repository.py\<close>, \<open>audit_repository.py\<close>). A table is the list of its rows in
  primary-key order of insertion; a database is a record of tables. Date-times are integers, floating
  point columns are rationals. What the environment decides (the clock, the caller, which row locks
  are held by other transactions, which commits fail) is a record \<open>env\<close> of parameters.
\<close>

section \<open>Enumerations\<close>

datatype drive_state = DISCONNECTED | DISABLED | AVAILABLE | IN_USE

datatype drive_format_status = FMT_PENDING | FMT_FAILED

datatype mount_type = NFS | SMB

datatype mount_status = MOUNTED | UNMOUNTED | MOUNT_ERROR

datatype job_status =
  JPENDING | PREPARING | RUNNING | PAUSING | PAUSED | COMPLETED | JFAILED | VERIFYING | ARCHIVED

datatype file_status = FPENDING | COPYING | DONE | ERROR | RETRYING | TIMEOUT

datatype startup_analysis_status = NOT_ANALYZED | ANALYZING | READY | STALE | SA_FAILED

fun drive_state_value :: "drive_state \<Rightarrow> string" where
  "drive_state_value DISCONNECTED = ''DISCONNECTED''"
| "drive_state_value DISABLED = ''DISABLED''"
| "drive_state_value AVAILABLE = ''AVAILABLE''"
| "drive_state_value IN_USE = ''IN_USE''"

fun job_status_value :: "job_status \<Rightarrow> string" where
  "job_status_value JPENDING = ''PENDING''"
| "job_status_value PREPARING = ''PREPARING''"
| "job_status_value RUNNING = ''RUNNING''"
| "job_status_value PAUSING = ''PAUSING''"
| "job_status_value PAUSED = ''PAUSED''"
| "job_status_value COMPLETED = ''COMPLETED''"
| "job_status_value JFAILED = ''FAILED''"
| "job_status_value VERIFYING = ''VERIFYING''"
| "job_status_value ARCHIVED = ''ARCHIVED''"

section \<open>Rows\<close>

record usb_hub =
  h_id :: int
  h_name :: string
  h_system_identifier :: string
  h_location_hint :: "string option"
  h_vendor_id :: "string option"
  h_product_id :: "string option"

record usb_port =
  p_id :: int
  p_hub_id :: int
  p_port_number :: int
  p_system_path :: string
  p_friendly_label :: "string option"
  p_enabled :: bool
  p_vendor_id :: "string option"
  p_product_id :: "string option"
  p_speed :: "string option"

record usb_drive =
  d_id :: int
  d_port_id :: "int option"
  d_device_identifier :: string
  d_manufacturer :: "string option"
  d_product_name :: "string option"
  d_filesystem_path :: "string option"
  d_capacity_bytes :: "int option"
  d_available_bytes :: "int option"
  d_encryption_status :: "string option"
  d_filesystem_type :: "string option"
  d_current_state :: drive_state
  d_current_project_id :: "string option"
  d_mount_path :: "string option"
  d_throughput_write_mbps :: "rat option"
  d_format_status :: "drive_format_status option"
  d_format_failure_message :: "string option"
  d_format_started_at :: "int option"
  d_format_finished_at :: "int option"

record network_share =
  m_id :: int
  m_type :: mount_type
  m_remote_path :: string
  m_project_id :: string
  m_nfs_client_version :: "string option"
  m_local_mount_point :: string
  m_encrypted_username :: "string option"
  m_encrypted_password :: "string option"
  m_encrypted_credentials_file :: "string option"
  m_status :: mount_status
  m_last_checked_at :: "int option"
  m_throughput_read_mbps :: "rat option"

record startup_analysis =
  sa_status :: startup_analysis_status
  sa_last_analyzed_at :: "int option"
  sa_failure_reason :: "string option"
  sa_file_count :: "int option"
  sa_total_bytes :: "int option"
  sa_share_read_mbps :: "rat option"
  sa_drive_write_mbps :: "rat option"
  sa_estimated_duration_seconds :: "int option"
  sa_cache_present :: bool
  sa_revision :: int
  sa_entries :: "jval option"

record export_job =
  j_id :: int
  j_project_id :: string
  j_evidence_number :: string
  j_source_path :: string
  j_target_mount_path :: "string option"
  j_status :: job_status
  j_total_bytes :: int
  j_copied_bytes :: int
  j_file_count :: int
  j_thread_count :: "int option"
  j_copy_chunk_size_bytes :: "int option"
  j_copy_progress_flush_bytes :: "int option"
  j_copy_file_fsync_enabled :: "bool option"
  j_auto_apply_recommended_profile :: bool
  j_max_file_retries :: int
  j_retry_delay_seconds :: int
  j_active_duration_seconds :: int
  j_started_at :: "int option"
  j_copy_started_at :: "int option"
  j_completed_at :: "int option"
  j_created_by :: "string option"
  j_started_by :: "string option"
  j_client_ip :: "string option"
  j_callback_url :: "string option"
  j_failure_reason :: "string option"
  j_analysis :: startup_analysis
  j_created_at :: int

record drive_assignment =
  a_id :: int
  a_drive_id :: int
  a_job_id :: int
  a_file_count :: int
  a_copied_bytes :: int
  a_assigned_at :: int
  a_activated_at :: "int option"
  a_released_at :: "int option"

record export_file =
  f_id :: int
  f_job_id :: int
  f_drive_assignment_id :: "int option"
  f_project_id :: string
  f_relative_path :: string
  f_size_bytes :: "int option"
  f_checksum :: "string option"
  f_status :: file_status
  f_error_message :: "string option"
  f_retry_attempts :: int
  f_startup_analysis_revision :: int

record analysis_entry =
  n_id :: int
  n_job_id :: int
  n_entry_type :: string
  n_relative_path :: string
  n_size_bytes :: "int option"
  n_mtime_ns :: "int option"

record manifest =
  mf_id :: int
  mf_job_id :: int
  mf_drive_assignment_id :: "int option"
  mf_manifest_path :: "string option"
  mf_format :: string
  mf_created_at :: int

record audit_log =
  l_id :: int
  l_timestamp :: int
  l_user :: "string option"
  l_action :: string
  l_project_id :: "string option"
  l_drive_id :: "int option"
  l_job_id :: "int option"
  l_details :: jval
  l_client_ip :: "string option"

record db =
  hubs :: "usb_hub list"
  ports :: "usb_port list"
  drives :: "usb_drive list"
  shares :: "network_share list"
  jobs :: "export_job list"
  assignments :: "drive_assignment list"
  files :: "export_file list"
  entries :: "analysis_entry list"
  manifests :: "manifest list"
  audits :: "audit_log list"

section \<open>The environment of a request\<close>

text \<open>
  \<open>e_db_ok site\<close> says whether the commit made at a named site succeeds; for an audit write the
  site is the audit action. A failing commit rolls the session back. \<open>e_drive_locked\<close> and its
  companions name the rows that another transaction holds when this request asks for them.
\<close>

record env =
  e_now :: int
  e_actor :: "string option"
  e_client_ip :: "string option"
  e_trace_id :: "string option"
  e_db_ok :: "string \<Rightarrow> bool"
  e_drive_locked :: "int \<Rightarrow> bool"
  e_share_locked :: "int \<Rightarrow> bool"
  e_job_locked :: "int \<Rightarrow> bool"

section \<open>Column validators\<close>

text \<open>\<open>UsbDrive._normalize_current_project_id\<close>, \<open>NetworkShare._normalize_project_id\<close> and
  \<open>AuditLog._normalize_project_id\<close>.\<close>

definition drive_project_validator :: "string option \<Rightarrow> string option" where
  "drive_project_validator v =
     (let normalized = norm_project v in if normalized = Some [] then None else normalized)"

definition share_project_validator :: "string option \<Rightarrow> string" where
  "share_project_validator v =
     (case norm_project v of None \<Rightarrow> ''UNASSIGNED''
      | Some p \<Rightarrow> if p = [] then ''UNASSIGNED'' else p)"

section \<open>Derived attributes of a drive\<close>

definition drive_port :: "db \<Rightarrow> usb_drive \<Rightarrow> usb_port option" where
  "drive_port db d = (case d_port_id d of None \<Rightarrow> None | Some i \<Rightarrow> get_row p_id i (ports db))"

definition port_system_path :: "db \<Rightarrow> usb_drive \<Rightarrow> string option" where
  "port_system_path db d = map_option p_system_path (drive_port db d)"

definition drive_port_number :: "db \<Rightarrow> usb_drive \<Rightarrow> int option" where
  "drive_port_number db d = map_option p_port_number (drive_port db d)"

definition drive_speed :: "db \<Rightarrow> usb_drive \<Rightarrow> string option" where
  "drive_speed db d = (case drive_port db d of None \<Rightarrow> None | Some p \<Rightarrow> p_speed p)"

definition drive_vendor_id :: "db \<Rightarrow> usb_drive \<Rightarrow> string option" where
  "drive_vendor_id db d =
     (let parsed = parse_persistent_device_identifier (Some (d_device_identifier d))
      in if truthy (dict_get parsed ''vid'') then dict_get parsed ''vid''
         else case drive_port db d of None \<Rightarrow> None | Some p \<Rightarrow> p_vendor_id p)"

definition drive_product_id :: "db \<Rightarrow> usb_drive \<Rightarrow> string option" where
  "drive_product_id db d =
     (let parsed = parse_persistent_device_identifier (Some (d_device_identifier d))
      in if truthy (dict_get parsed ''pid'') then dict_get parsed ''pid''
         else case drive_port db d of None \<Rightarrow> None | Some p \<Rightarrow> p_product_id p)"

definition serial_number :: "db \<Rightarrow> usb_drive \<Rightarrow> string option" where
  "serial_number db d =
     extract_usb_serial_number (Some (d_device_identifier d)) (port_system_path db d)"

definition display_device_label :: "db \<Rightarrow> usb_drive \<Rightarrow> string" where
  "display_device_label db d =
     build_readable_device_label (d_manufacturer d) (d_product_name d) (drive_port_number db d)
       (d_capacity_bytes d)
       (if truthy (port_system_path db d) then port_system_path db d else Some (d_device_identifier d))"

definition startup_analysis_cached :: "export_job \<Rightarrow> bool" where
  "startup_analysis_cached j \<longleftrightarrow> sa_cache_present (j_analysis j) \<or> sa_entries (j_analysis j) \<noteq> None"

definition startup_analysis_ready :: "export_job \<Rightarrow> bool" where
  "startup_analysis_ready j \<longleftrightarrow> startup_analysis_cached j \<and> sa_status (j_analysis j) = READY"

section \<open>The audit repository\<close>

definition max_int32 :: int where
  "max_int32 = 2147483647"

definition normalize_drive_id :: "int option \<Rightarrow> int option" where
  "normalize_drive_id v =
     (case v of None \<Rightarrow> None | Some i \<Rightarrow> if 0 < i \<and> i \<le> max_int32 then Some i else None)"

text \<open>\<open>details.get(key)\<close> of the audit details, a JSON object.\<close>

definition jget :: "string \<Rightarrow> jval \<Rightarrow> jval" where
  "jget k v = (case v of JObj kvs \<Rightarrow> (case map_of (rev kvs) k of None \<Rightarrow> JNull | Some x \<Rightarrow> x) | _ \<Rightarrow> JNull)"

definition extract_project_id :: "jval \<Rightarrow> string option" where
  "extract_project_id details =
     (case jget ''project_id'' details of JStr s \<Rightarrow> if s \<noteq> [] then Some s else None | _ \<Rightarrow> None)"

definition extract_drive_id :: "jval \<Rightarrow> int option" where
  "extract_drive_id details =
     (case jget ''drive_id'' details of
        JInt i \<Rightarrow> normalize_drive_id (Some i)
      | JStr s \<Rightarrow> if s \<noteq> [] \<and> list_all ascii_digit s then normalize_drive_id (Some (int (undigits s)))
                  else None
      | _ \<Rightarrow> None)"

definition jstr :: "string option \<Rightarrow> jval" where
  "jstr v = (case v of None \<Rightarrow> JNull | Some s \<Rightarrow> JStr s)"

definition jint :: "int option \<Rightarrow> jval" where
  "jint v = (case v of None \<Rightarrow> JNull | Some i \<Rightarrow> JInt i)"

definition audit_add_uncommitted ::
  "env \<Rightarrow> string \<Rightarrow> string option \<Rightarrow> int option \<Rightarrow> int option \<Rightarrow> (string \<times> jval) list \<Rightarrow> db \<Rightarrow> db" where
  "audit_add_uncommitted e action project_id drive_id job_id details db =
     (let sanitized = sanitize_audit_details (JObj details);
          project = drive_project_validator project_id;
          resolved_project = (if project \<noteq> None then project else extract_project_id sanitized);
          drive = normalize_drive_id drive_id;
          resolved_drive = (if drive \<noteq> None then drive else extract_drive_id sanitized)
      in db\<lparr>audits := audits db @
           [\<lparr>l_id = next_id l_id (audits db), l_timestamp = e_now e, l_user = e_actor e,
             l_action = action, l_project_id = drive_project_validator resolved_project,
             l_drive_id = resolved_drive, l_job_id = job_id, l_details = sanitized,
             l_client_ip = e_client_ip e\<rparr>]\<rparr>)"

text \<open>\<open>AuditRepository.add\<close> commits whatever the session holds together with the entry.\<close>

definition audit_add ::
  "env \<Rightarrow> string \<Rightarrow> string option \<Rightarrow> int option \<Rightarrow> int option \<Rightarrow> (string \<times> jval) list \<Rightarrow> db \<Rightarrow> db option" where
  "audit_add e action project_id drive_id job_id details db =
     (if e_db_ok e action
      then Some (audit_add_uncommitted e action project_id drive_id job_id details db) else None)"

text \<open>\<open>best_effort_audit\<close> and the \<open>try: audit_repo.add(...) except Exception: log\<close> idiom: on
  failure the session is rolled back to the committed state.\<close>

definition best_effort_audit ::
  "env \<Rightarrow> string \<Rightarrow> string option \<Rightarrow> int option \<Rightarrow> int option \<Rightarrow> (string \<times> jval) list \<Rightarrow> db \<Rightarrow> db" where
  "best_effort_audit e action project_id drive_id job_id details db =
     (case audit_add e action project_id drive_id job_id details db of None \<Rightarrow> db | Some db' \<Rightarrow> db')"

definition log_and_audit ::
  "env \<Rightarrow> string \<Rightarrow> string option \<Rightarrow> int option \<Rightarrow> int option \<Rightarrow> (string \<times> jval) list \<Rightarrow> db \<Rightarrow> db option" where
  "log_and_audit e action project_id drive_id job_id metadata db =
     audit_add e action project_id drive_id job_id
       ((case drive_id of None \<Rightarrow> [] | Some i \<Rightarrow> [(''drive_id'', JInt i)]) @
        (case project_id of None \<Rightarrow> [] | Some p \<Rightarrow> [(''project_id'', JStr p)]) @ metadata) db"

definition audit_delete_older_than :: "env \<Rightarrow> int \<Rightarrow> db \<Rightarrow> db \<times> int option" where
  "audit_delete_older_than e cutoff db =
     (if e_db_ok e ''delete_older_than''
      then (db\<lparr>audits := filter (\<lambda>l. \<not> l_timestamp l < cutoff) (audits db)\<rparr>,
            Some (int (length (filter (\<lambda>l. l_timestamp l < cutoff) (audits db)))))
      else (db, None))"

section \<open>The drive and share repositories\<close>

definition set_drive :: "int \<Rightarrow> (usb_drive \<Rightarrow> usb_drive) \<Rightarrow> db \<Rightarrow> db" where
  "set_drive i f db = db\<lparr>drives := upd_row d_id i f (drives db)\<rparr>"

definition get_drive :: "int \<Rightarrow> db \<Rightarrow> usb_drive option" where
  "get_drive i db = get_row d_id i (drives db)"

datatype 'r locked = Lock_conflict | Row "'r option"

definition get_drive_for_update :: "env \<Rightarrow> int \<Rightarrow> db \<Rightarrow> usb_drive locked" where
  "get_drive_for_update e i db =
     (case get_drive i db of None \<Rightarrow> Row None
      | Some d \<Rightarrow> if e_drive_locked e i then Lock_conflict else Row (Some d))"

definition list_drives_by_states :: "drive_state list \<Rightarrow> db \<Rightarrow> usb_drive list" where
  "list_drives_by_states states db = filter (\<lambda>d. d_current_state d \<in> set states) (drives db)"

definition list_drives_by_project :: "string \<Rightarrow> db \<Rightarrow> usb_drive list" where
  "list_drives_by_project project_id db =
     (let p = normalize_project_id project_id
      in if p = [] then [] else filter (\<lambda>d. d_current_project_id d = Some p) (drives db))"

definition count_available_for_project :: "string \<Rightarrow> db \<Rightarrow> nat" where
  "count_available_for_project project_id db =
     (let p = normalize_project_id project_id
      in if p = [] then 0
         else length (filter (\<lambda>d. d_current_state d = AVAILABLE \<and> d_current_project_id d = Some p) (drives db)))"

definition get_one_available_for_project :: "env \<Rightarrow> string \<Rightarrow> db \<Rightarrow> usb_drive option" where
  "get_one_available_for_project e project_id db =
     (let p = normalize_project_id project_id
      in if p = [] then None
         else first_by d_id (filter (\<lambda>d. d_current_state d = AVAILABLE \<and>
                d_current_project_id d = Some p \<and> \<not> e_drive_locked e (d_id d)) (drives db)))"

definition get_next_unbound_available :: "env \<Rightarrow> db \<Rightarrow> usb_drive option" where
  "get_next_unbound_available e db =
     first_by d_id (filter (\<lambda>d. d_current_state d = AVAILABLE \<and> d_current_project_id d = None \<and>
        \<not> e_drive_locked e (d_id d)) (drives db))"

definition has_mounted_project :: "string \<Rightarrow> db \<Rightarrow> bool" where
  "has_mounted_project project_id db =
     (let p = normalize_project_id project_id
      in p \<noteq> [] \<and> list_ex (\<lambda>m. m_status m = MOUNTED \<and> m_project_id m = p) (shares db))"

text \<open>\<open>FOR UPDATE NOWAIT ... LIMIT 1\<close>: a conflict is reported when the first matching row is held.\<close>

definition get_mounted_project_for_update :: "env \<Rightarrow> string \<Rightarrow> db \<Rightarrow> network_share locked" where
  "get_mounted_project_for_update e project_id db =
     (let p = normalize_project_id project_id
      in if p = [] then Row None
         else case first_by m_id (filter (\<lambda>m. m_status m = MOUNTED \<and> m_project_id m = p) (shares db)) of
                None \<Rightarrow> Row None
              | Some m \<Rightarrow> if e_share_locked e (m_id m) then Lock_conflict else Row (Some m))"

section \<open>Laws\<close>

interpretation drive_rows: row_store d_id "get_row d_id" "upd_row d_id" "pk_ok d_id"
  by (rule row_store_rows)

interpretation job_rows: row_store j_id "get_row j_id" "upd_row j_id" "pk_ok j_id"
  by (rule row_store_rows)

interpretation assignment_rows: row_store a_id "get_row a_id" "upd_row a_id" "pk_ok a_id"
  by (rule row_store_rows)

text \<open>An update function of a drive row that keeps its key.\<close>

lemma get_set_drive:
  assumes "\<And>d. d_id (f d) = d_id d"
  shows "get_drive j (set_drive i f db) =
    (if j = i then map_option f (get_drive j db) else get_drive j db)"
  using drive_rows.get_upd [OF assms] by (simp add: get_drive_def set_drive_def)

lemma get_drive_id: "get_drive i db = Some d \<Longrightarrow> d_id d = i"
  by (simp add: get_drive_def drive_rows.get_key)

lemma set_drive_frame [frame_simps]:
  "hubs (set_drive i f db) = hubs db" "ports (set_drive i f db) = ports db"
  "shares (set_drive i f db) = shares db" "jobs (set_drive i f db) = jobs db"
  "assignments (set_drive i f db) = assignments db" "files (set_drive i f db) = files db"
  "entries (set_drive i f db) = entries db" "manifests (set_drive i f db) = manifests db"
  "audits (set_drive i f db) = audits db"
  "drives (set_drive i f db) = upd_row d_id i f (drives db)"
  by (simp_all add: set_drive_def)

text \<open>
  The contract of everything that only writes the audit trail: it appends records and leaves every
  other table alone. Each audit write of the services is an instance.
\<close>

locale audit_writer =
  fixes wr :: "db \<Rightarrow> db"
  assumes appends: "\<exists>ls. wr db = db\<lparr>audits := audits db @ ls\<rparr>"
begin

lemma frame [simp, frame_simps]:
  "hubs (wr db) = hubs db" "ports (wr db) = ports db" "drives (wr db) = drives db"
  "shares (wr db) = shares db" "jobs (wr db) = jobs db"
  "assignments (wr db) = assignments db" "files (wr db) = files db"
  "entries (wr db) = entries db" "manifests (wr db) = manifests db"
  using appends [of db] by auto

lemma get_drive_write [simp, frame_simps]: "get_drive i (wr db) = get_drive i db"
  by (simp add: get_drive_def)

lemma audits_grow: "prefix (audits db) (audits (wr db))"
  using appends [of db] by auto

end

interpretation uncommitted_audit: audit_writer "audit_add_uncommitted e a p d j ds" for e a p d j ds
  by unfold_locales (auto simp: audit_add_uncommitted_def Let_def)

interpretation best_effort: audit_writer "best_effort_audit e a p d j ds" for e a p d j ds
  by unfold_locales
     (auto simp: best_effort_audit_def audit_add_def audit_add_uncommitted_def Let_def
       intro: exI [of _ "[]"])

lemma audit_writer_comp: "audit_writer f \<Longrightarrow> audit_writer g \<Longrightarrow> audit_writer (\<lambda>db. f (g db))"
  unfolding audit_writer_def
proof
  fix db
  assume f: "\<forall>db. \<exists>ls. f db = db\<lparr>audits := audits db @ ls\<rparr>" and g: "\<forall>db. \<exists>ls. g db = db\<lparr>audits := audits db @ ls\<rparr>"
  from g obtain ls where "g db = db\<lparr>audits := audits db @ ls\<rparr>" by blast
  moreover from f obtain ls' where "f (g db) = (g db)\<lparr>audits := audits (g db) @ ls'\<rparr>" by blast
  ultimately have "f (g db) = db\<lparr>audits := audits db @ (ls @ ls')\<rparr>" by simp
  then show "\<exists>ls. f (g db) = db\<lparr>audits := audits db @ ls\<rparr>" by blast
qed

lemma get_drive_audits_upd [frame_simps]: "get_drive i (db\<lparr>audits := ls\<rparr>) = get_drive i db"
  by (simp add: get_drive_def)

text \<open>The audit table only grows, and what is appended is sanitised.\<close>

lemma audit_uncommitted_appends:
  "\<exists>l. audits (audit_add_uncommitted e a p d j ds db) = audits db @ [l] \<and> l_action l = a \<and>
       l_user l = e_actor e \<and> l_job_id l = j \<and> l_timestamp l = e_now e \<and>
       l_details l = sanitize_audit_details (JObj ds)"
  by (simp add: audit_add_uncommitted_def Let_def)

lemma best_effort_audit_records:
  "e_db_ok e a \<Longrightarrow>
     \<exists>l. audits (best_effort_audit e a p d j ds db) = audits db @ [l] \<and> l_action l = a"
  using audit_uncommitted_appends [of e a p d j ds db]
  by (auto simp: best_effort_audit_def audit_add_def)

lemma drive_project_validator_idem [simp]:
  "drive_project_validator (drive_project_validator v) = drive_project_validator v"
  by (cases v) (auto simp: drive_project_validator_def norm_project_def Let_def)

lemma drive_project_validator_ok:
  "normalize_project_id p = p \<Longrightarrow> p \<noteq> [] \<Longrightarrow> drive_project_validator (Some p) = Some p"
  by (simp add: drive_project_validator_def norm_project_def)

section \<open>Properties\<close>

text \<open>Every audit record that the repository writes is safe and canonical: its details satisfy the
  redaction promise, its project is stored in canonical form, its drive id is a positive 32-bit number
  or absent, it gets a fresh primary key, and every earlier record is kept.\<close>

theorem audit_add_safe:
  assumes "audit_add e action p d j ds db = Some db'"
  shows "\<exists>l. audits db' = audits db @ [l] \<and> audit_safe None (l_details l) \<and>
     drive_project_validator (l_project_id l) = l_project_id l \<and>
     (\<forall>i. l_drive_id l = Some i \<longrightarrow> 0 < i \<and> i \<le> max_int32) \<and>
     (\<forall>x \<in> set (audits db). l_id x < l_id l) \<and>
     db' = db\<lparr>audits := audits db @ [l]\<rparr>"
proof -
  have d: "normalize_drive_id x = Some i \<Longrightarrow> 0 < i \<and> i \<le> max_int32" for x i
    by (auto simp: normalize_drive_id_def split: option.splits if_splits)
  have x: "extract_drive_id v = Some i \<Longrightarrow> 0 < i \<and> i \<le> max_int32" for v i
    by (auto simp: extract_drive_id_def dest: d split: jval.splits if_splits)
  have safe: "audit_safe None (sanitize_audit_details (JObj ds))"
    by (rule sanitize_audit_details_ok)
  from assms have "db' = audit_add_uncommitted e action p d j ds db"
    by (simp add: audit_add_def split: if_splits)
  then show ?thesis
    using safe d x next_id_greater [of _ "audits db" l_id]
    by (auto simp: audit_add_uncommitted_def Let_def)
qed

definition example_env :: env where
  "example_env = \<lparr>e_now = 100, e_actor = Some ''manager'', e_client_ip = None, e_trace_id = None,
     e_db_ok = (\<lambda>_. True), e_drive_locked = (\<lambda>_. False), e_share_locked = (\<lambda>_. False),
     e_job_locked = (\<lambda>_. False)\<rparr>"

definition empty_db :: db where
  "empty_db = \<lparr>hubs = [], ports = [], drives = [], shares = [], jobs = [], assignments = [], files = [],
     entries = [], manifests = [], audits = []\<rparr>"

theorem audit_add_safe_witness:
  "\<exists>l db'. audit_add example_env ''DRIVE_MOUNTED'' (Some '' case-7 '') (Some 3) None
       [(''mount_path'', JStr ''/mnt/ecube/3'')] empty_db = Some db' \<and>
     audits db' = [l] \<and> l_project_id l = Some ''CASE-7'' \<and> audit_safe None (l_details l)"
proof -
  let ?ds = "[(''mount_path'', JStr ''/mnt/ecube/3'')]"
  obtain db' where db': "audit_add example_env ''DRIVE_MOUNTED'' (Some '' case-7 '') (Some 3) None ?ds empty_db = Some db'"
    by (simp add: audit_add_def example_env_def)
  from audit_add_safe [OF db'] obtain l where l: "audits db' = audits empty_db @ [l]" "audit_safe None (l_details l)"
    by blast
  have n: "drive_project_validator (Some '' case-7 '') = Some ''CASE-7''"
    "drive_project_validator (Some ''CASE-7'') = Some ''CASE-7''" by code_simp+
  have "l_project_id l = Some ''CASE-7''"
    using db' l(1)
    by (auto simp: audit_add_def example_env_def audit_add_uncommitted_def Let_def empty_db_def n)
  with db' l show ?thesis by (auto simp: empty_db_def)
qed

end
