(* ===== verification/Drive_Service.thy ===== *)
theory Drive_Service
  imports Schema
begin

text \<open>
  \<open>app/services/drive_service.py\<close>: initialisation, mounting, prepare-eject and formatting of
  drives. Every operation returns the committed database, the calls it made to the host and to other
  services (in order), and either an error or the resulting drive. The OS providers are parameters.
  Operations that release the database while the host works take the transition \<open>interf\<close> that
  other requests performed meanwhile, and \<open>reread\<close>, the attributes the session hands out for a row
  it had loaded before (first argument) whose stored values are now the second argument.
\<close>

section \<open>Errors and effects\<close>

datatype drive_error =
    Project_id_empty | Drive_not_found | Drive_locked | Format_in_progress
  | Init_not_available | Project_isolation | Init_project_mismatch | Unrecognized_filesystem
  | Init_not_mounted | Project_source_busy | No_project_source | Drive_db_error
  | Mount_bad_state | No_filesystem_path | Invalid_device_path | Already_mounted
  | Device_already_mounted | Mount_failed nat string
  | Drive_disappeared bool | State_changed bool | Path_changed bool | Binding_changed bool
  | Mount_state_changed bool | Mount_db_error bool
  | Eject_not_mounted | Eject_stale_mount | Eject_bad_state | Eject_active_job int
  | Eject_confirm_required nat | Eject_precheck_failed | Eject_recoverable string | Eject_failed
  | Eject_db_error | Format_not_available | Format_mounted | Format_schedule_failed
  | Invalid_state_filter

fun drive_error_status :: "drive_error \<Rightarrow> nat" where
  "drive_error_status Project_id_empty = 422"
| "drive_error_status Drive_not_found = 404"
| "drive_error_status (Drive_disappeared _) = 404"
| "drive_error_status Project_isolation = 403"
| "drive_error_status No_filesystem_path = 400"
| "drive_error_status Invalid_device_path = 400"
| "drive_error_status (Mount_failed n _) = n"
| "drive_error_status Drive_db_error = 500"
| "drive_error_status (Mount_db_error _) = 500"
| "drive_error_status Eject_precheck_failed = 500"
| "drive_error_status Eject_failed = 500"
| "drive_error_status Eject_db_error = 500"
| "drive_error_status Format_schedule_failed = 500"
| "drive_error_status Invalid_state_filter = 422"
| "drive_error_status _ = 409"

datatype drive_effect =
    OS_mount string string
  | OS_unmount string
  | OS_eject "string option"
  | OS_format string string
  | Deliver_callback int string
  | Schedule_format int string

type_synonym drive_result = "db \<times> drive_effect list \<times> (drive_error + usb_drive)"

definition fail_with :: "drive_error \<Rightarrow> db \<Rightarrow> drive_result" where
  "fail_with err db = (db, [], Inl err)"

section \<open>Helpers\<close>

definition redacted_device_name :: "string option \<Rightarrow> string option" where
  "redacted_device_name p =
     (if \<not> truthy p then None
      else let b = basename (py_rstrip_with (\<lambda>c. c = sep) (the p)) in if b = [] then None else Some b)"

definition redacted_audit_path :: "string option \<Rightarrow> string option" where
  "redacted_audit_path p = (if \<not> truthy p then None else Some ''[redacted]'')"

definition format_pending :: "usb_drive \<Rightarrow> bool" where
  "format_pending d \<longleftrightarrow> d_format_status d = Some FMT_PENDING"

definition unrecognized_fs :: "string option \<Rightarrow> bool" where
  "unrecognized_fs t \<longleftrightarrow> t \<in> {Some ''unformatted'', Some ''unknown'', None}"

definition is_already_mounted_error :: "string option \<Rightarrow> bool" where
  "is_already_mounted_error err \<longleftrightarrow> truthy err \<and> py_contains (py_lower (the err)) ''already mounted''"

definition drive_mount_failure_response :: "string option \<Rightarrow> nat \<times> string" where
  "drive_mount_failure_response err =
     (let safe_message = sanitize_error_message ''Mount provider reported failure'' err;
          normalized_error = py_lower (str_or_empty err)
      in if safe_message = msg_fs_unsupported then
           (500, ''Host filesystem support for this drive is unavailable; verify the required filesystem runtime and retry'')
         else if safe_message = msg_not_found then
           (409, ''Drive device path is stale or unavailable; refresh drive status and retry mount'')
         else if safe_message = msg_permission then
           (if py_contains normalized_error ''create mount point'' \<or> py_contains normalized_error ''mount point''
            then (500, ''Managed mount root is not writable by the ECUBE service account; fix host permissions and retry'')
            else (500, ''Mount operation is not permitted by the current host configuration''))
         else (500, ''Drive mount failed''))"

definition recoverable_prepare_eject_detail :: "string option \<Rightarrow> string option \<Rightarrow> string option" where
  "recoverable_prepare_eject_detail mount_path unmount_error =
     (if \<not> truthy mount_path \<or> \<not> truthy unmount_error then None
      else let n = py_lower (the unmount_error)
           in if list_ex (\<lambda>m. py_contains n m) [''target is busy'', ''device or resource busy'', ''busy'']
                then Some ''Drive is busy; close any shell, file browser, or process using the mounted drive and retry prepare-eject''
              else if list_ex (\<lambda>m. py_contains n m)
                [''invalid device path'', ''could not read'', ''no such file'', ''not mounted'', ''no mount point'', ''not a block device'']
                then Some ''Drive mount state is stale or changed; refresh drive status and retry prepare-eject''
              else None)"

text \<open>Unreleased assignments of a drive joined with their jobs.\<close>

definition unreleased_jobs :: "int \<Rightarrow> db \<Rightarrow> (drive_assignment \<times> export_job) list" where
  "unreleased_jobs drive_id db =
     concat (map (\<lambda>a. if a_drive_id a = drive_id \<and> a_released_at a = None
                      then (case get_row j_id (a_job_id a) (jobs db) of None \<Rightarrow> [] | Some j \<Rightarrow> [(a, j)])
                      else []) (assignments db))"

definition get_latest_unreleased_assigned_job :: "int \<Rightarrow> db \<Rightarrow> export_job option" where
  "get_latest_unreleased_assigned_job drive_id db =
     map_option snd (last_by (\<lambda>(a, j). (a_assigned_at a, a_id a)) (unreleased_jobs drive_id db))"

definition prepare_eject_blocking :: "job_status list" where
  "prepare_eject_blocking = [PREPARING, RUNNING, PAUSING, PAUSED, VERIFYING]"

definition prepare_eject_callback :: "job_status list" where
  "prepare_eject_callback = [COMPLETED, JFAILED]"

definition blocking_job :: "int \<Rightarrow> db \<Rightarrow> export_job option" where
  "blocking_job drive_id db =
     map_option snd (last_by (\<lambda>(a, j). a_assigned_at a)
       (filter (\<lambda>(a, j). j_status j \<in> set prepare_eject_blocking) (unreleased_jobs drive_id db)))"

definition incomplete_files_of_job :: "int \<Rightarrow> db \<Rightarrow> nat" where
  "incomplete_files_of_job job_id db =
     length (filter (\<lambda>f. f_job_id f = job_id \<and> f_status f \<in> {TIMEOUT, ERROR}) (files db))"

definition incomplete_file_count :: "int \<Rightarrow> db \<Rightarrow> nat" where
  "incomplete_file_count drive_id db =
     sum_list (map (\<lambda>a. incomplete_files_of_job (a_job_id a) db)
       (filter (\<lambda>a. a_drive_id a = drive_id \<and> a_released_at a = None) (assignments db)))"

section \<open>Listing drives\<close>

datatype custody_status = HANDOFF_RECORDED | PENDING_HANDOFF | STATUS_UNAVAILABLE | NO_RELATED_JOB

record related_job =
  rj_job_id :: "int option"
  rj_evidence_number :: "string option"
  rj_custody_status :: custody_status
  rj_delivery_time :: "int option"

definition same_project :: "usb_drive \<Rightarrow> export_job \<Rightarrow> bool" where
  "same_project d j \<longleftrightarrow>
     truthy (norm_project (d_current_project_id d)) \<and>
     norm_project (d_current_project_id d) = Some (normalize_project_id (j_project_id j)) \<and>
     normalize_project_id (j_project_id j) \<noteq> []"

text \<open>The first assignment of the drive, newest first, whose job belongs to the drive's project.\<close>

definition selected_job :: "db \<Rightarrow> usb_drive \<Rightarrow> export_job option" where
  "selected_job db d =
     find (same_project d)
       (map snd (rev (sort_key (\<lambda>(a, j). (a_assigned_at a, a_id a))
          (filter (\<lambda>(a, j). j_status j \<noteq> ARCHIVED) (unreleased_jobs (d_id d) db)))))"

definition attach_related_job_context ::
  "(int \<Rightarrow> int \<Rightarrow> (bool \<times> int option) option) \<Rightarrow> db \<Rightarrow> usb_drive \<Rightarrow> related_job" where
  "attach_related_job_context custody_summary db d =
     (case selected_job db d of
        None \<Rightarrow> \<lparr>rj_job_id = None, rj_evidence_number = None, rj_custody_status = NO_RELATED_JOB,
                 rj_delivery_time = None\<rparr>
      | Some j \<Rightarrow>
          (let (complete, delivery) = (case custody_summary (j_id j) (d_id d) of
                 None \<Rightarrow> (None, None) | Some (c, t) \<Rightarrow> (Some c, t))
           in \<lparr>rj_job_id = Some (j_id j), rj_evidence_number = Some (j_evidence_number j),
               rj_custody_status = (if complete = Some True then HANDOFF_RECORDED
                 else if complete = Some False then PENDING_HANDOFF else STATUS_UNAVAILABLE),
               rj_delivery_time = delivery\<rparr>))"

definition parse_drive_state :: "string \<Rightarrow> drive_state option" where
  "parse_drive_state s =
     find (\<lambda>st. drive_state_value st = s) [DISCONNECTED, DISABLED, AVAILABLE, IN_USE]"

definition get_all_drives ::
  "string option \<Rightarrow> string list \<Rightarrow> bool \<Rightarrow> db \<Rightarrow> drive_error + usb_drive list" where
  "get_all_drives project_id states include_disconnected db =
     (case project_id of Some p \<Rightarrow> Inr (list_drives_by_project p db)
      | None \<Rightarrow>
          if states \<noteq> [] then
            (if list_all (\<lambda>s. parse_drive_state s \<noteq> None) states
             then Inr (list_drives_by_states (map (\<lambda>s. the (parse_drive_state s)) states) db)
             else Inl Invalid_state_filter)
          else if include_disconnected then Inr (drives db)
          else Inr (list_drives_by_states [DISABLED, AVAILABLE, IN_USE] db))"

section \<open>Initialisation\<close>

text \<open>The audit records of \<open>initialize_drive\<close>, one definition per write.\<close>

definition init_audit ::
  "env \<Rightarrow> string \<Rightarrow> string \<Rightarrow> int \<Rightarrow> (string \<times> jval) list \<Rightarrow> db \<Rightarrow> db" where
  "init_audit e action project_id drive_id details db =
     best_effort_audit e action (Some project_id) (Some drive_id) None
       ([(''actor'', jstr (e_actor e)), (''drive_id'', JInt drive_id)] @ details) db"

definition audit_init_not_available :: "env \<Rightarrow> int \<Rightarrow> string \<Rightarrow> usb_drive \<Rightarrow> db \<Rightarrow> db" where
  "audit_init_not_available e drive_id project_id drive =
     init_audit e ''INIT_REJECTED_NOT_AVAILABLE'' project_id drive_id
       [(''current_state'', JStr (drive_state_value (d_current_state drive))),
        (''requested_project_id'', JStr project_id)]"

definition audit_project_isolation_violation :: "env \<Rightarrow> int \<Rightarrow> string \<Rightarrow> usb_drive \<Rightarrow> db \<Rightarrow> db" where
  "audit_project_isolation_violation e drive_id project_id drive =
     init_audit e ''PROJECT_ISOLATION_VIOLATION'' project_id drive_id
       [(''existing_project_id'', jstr (d_current_project_id drive)),
        (''requested_project_id'', JStr project_id)]"

definition audit_init_project_mismatch :: "env \<Rightarrow> int \<Rightarrow> string \<Rightarrow> usb_drive \<Rightarrow> db \<Rightarrow> db" where
  "audit_init_project_mismatch e drive_id project_id drive =
     init_audit e ''INIT_REJECTED_PROJECT_MISMATCH'' project_id drive_id
       [(''existing_project_id'', jstr (d_current_project_id drive)),
        (''requested_project_id'', JStr project_id)]"

definition audit_init_filesystem :: "env \<Rightarrow> int \<Rightarrow> string \<Rightarrow> usb_drive \<Rightarrow> db \<Rightarrow> db" where
  "audit_init_filesystem e drive_id project_id drive =
     init_audit e ''INIT_REJECTED_FILESYSTEM'' project_id drive_id
       [(''project_id'', JStr project_id), (''filesystem_type'', jstr (d_filesystem_type drive))]"

definition audit_init_not_mounted :: "env \<Rightarrow> int \<Rightarrow> string \<Rightarrow> db \<Rightarrow> db" where
  "audit_init_not_mounted e drive_id project_id =
     init_audit e ''INIT_REJECTED_NOT_MOUNTED'' project_id drive_id
       [(''requested_project_id'', JStr project_id), (''error_code'', JStr ''DRIVE_NOT_MOUNTED''),
        (''message'', JStr ''Drive is not mounted'')]"

definition audit_init_source_busy :: "env \<Rightarrow> int \<Rightarrow> string \<Rightarrow> db \<Rightarrow> db" where
  "audit_init_source_busy e drive_id project_id =
     init_audit e ''INIT_REJECTED_PROJECT_SOURCE_BUSY'' project_id drive_id
       [(''requested_project_id'', JStr project_id), (''error_code'', JStr ''PROJECT_SOURCE_BUSY''),
        (''message'', JStr ''Project source is currently being updated''),
        (''details'', JStr ''Project source is currently being updated by another operation.'')]"

definition audit_init_no_source :: "env \<Rightarrow> int \<Rightarrow> string \<Rightarrow> db \<Rightarrow> db" where
  "audit_init_no_source e drive_id project_id =
     init_audit e ''INIT_REJECTED_NO_PROJECT_SOURCE'' project_id drive_id
       [(''requested_project_id'', JStr project_id), (''error_code'', JStr ''NO_PROJECT_SOURCE''),
        (''message'', JStr ''No mounted project source is available''),
        (''details'', JStr ''Mount a share for this project before initializing a drive.'')]"

definition audit_drive_initialized :: "env \<Rightarrow> int \<Rightarrow> string \<Rightarrow> db \<Rightarrow> db" where
  "audit_drive_initialized e drive_id project_id =
     best_effort_audit e ''DRIVE_INITIALIZED'' (Some project_id) (Some drive_id) None
       [(''drive_id'', JInt drive_id), (''project_id'', JStr project_id)]"

text \<open>The guards after the row is locked; a rejection is the database it leaves and the error.\<close>

definition init_guards :: "env \<Rightarrow> int \<Rightarrow> string \<Rightarrow> usb_drive \<Rightarrow> db \<Rightarrow> (db \<times> drive_error) option" where
  "init_guards e drive_id project_id drive db =
     (if format_pending drive then Some (db, Format_in_progress)
      else if d_current_state drive \<in> {DISCONNECTED, DISABLED} then
        Some (audit_init_not_available e drive_id project_id drive db, Init_not_available)
      else if truthy (d_current_project_id drive) \<and> d_current_project_id drive \<noteq> Some project_id then
        (if d_current_state drive = IN_USE
         then Some (audit_project_isolation_violation e drive_id project_id drive db, Project_isolation)
         else Some (audit_init_project_mismatch e drive_id project_id drive db, Init_project_mismatch))
      else if unrecognized_fs (d_filesystem_type drive) then
        Some (audit_init_filesystem e drive_id project_id drive db, Unrecognized_filesystem)
      else if \<not> truthy (d_mount_path drive) then
        Some (audit_init_not_mounted e drive_id project_id db, Init_not_mounted)
      else case get_mounted_project_for_update e project_id db of
        Lock_conflict \<Rightarrow> Some (audit_init_source_busy e drive_id project_id db, Project_source_busy)
      | Row None \<Rightarrow> Some (audit_init_no_source e drive_id project_id db, No_project_source)
      | Row (Some _) \<Rightarrow> None)"

definition init_update :: "string \<Rightarrow> usb_drive \<Rightarrow> usb_drive" where
  "init_update project_id d =
     d\<lparr>d_current_project_id := drive_project_validator (Some project_id), d_current_state := IN_USE\<rparr>"

definition initialize_drive :: "env \<Rightarrow> int \<Rightarrow> string \<Rightarrow> db \<Rightarrow> drive_result" where
  "initialize_drive e drive_id project_id db =
     (let project_id = normalize_project_id project_id
      in if project_id = [] then fail_with Project_id_empty db
         else case get_drive_for_update e drive_id db of
           Lock_conflict \<Rightarrow> fail_with Drive_locked db
         | Row None \<Rightarrow> fail_with Drive_not_found db
         | Row (Some drive) \<Rightarrow>
             (case init_guards e drive_id project_id drive db of
                Some (db', err) \<Rightarrow> fail_with err db'
              | None \<Rightarrow>
                  if \<not> e_db_ok e ''save'' then fail_with Drive_db_error db
                  else (audit_drive_initialized e drive_id project_id
                          (set_drive drive_id (init_update project_id) db),
                        [], Inr (init_update project_id drive))))"

section \<open>Mounting\<close>

record mount_provider =
  mp_mount :: "string \<Rightarrow> string \<Rightarrow> bool \<times> string option"
  mp_has_unmount :: bool
  mp_unmount :: "string \<Rightarrow> bool"

text \<open>\<open>_rollback_mount\<close>: the calls made, and whether manual intervention may be required.\<close>

definition rollback_mount :: "mount_provider \<Rightarrow> string \<Rightarrow> drive_effect list \<times> bool" where
  "rollback_mount pr mount_point =
     (if mp_has_unmount pr then ([OS_unmount mount_point], \<not> mp_unmount pr mount_point) else ([], False))"

definition mount_guards :: "usb_drive \<Rightarrow> drive_error option" where
  "mount_guards drive =
     (if format_pending drive then Some Format_in_progress
      else if d_current_state drive \<notin> {AVAILABLE, IN_USE} then Some Mount_bad_state
      else if unrecognized_fs (d_filesystem_type drive) then Some Unrecognized_filesystem
      else if \<not> truthy (d_filesystem_path drive) then Some No_filesystem_path
      else if \<not> validate_device_path (the (d_filesystem_path drive)) then Some Invalid_device_path
      else if truthy (d_mount_path drive) then Some Already_mounted
      else None)"

text \<open>The checks after the row is locked again; the argument of the error says whether the operator is
  told that manual intervention may be required.\<close>

definition mount_recheck :: "usb_drive \<Rightarrow> usb_drive \<Rightarrow> string \<Rightarrow> (bool \<Rightarrow> drive_error) option" where
  "mount_recheck initial drive mount_point =
     (if d_current_state drive \<noteq> d_current_state initial then Some State_changed
      else if d_filesystem_path drive \<noteq> d_filesystem_path initial then Some Path_changed
      else if d_current_project_id drive \<noteq> d_current_project_id initial then Some Binding_changed
      else if truthy (d_mount_path drive) \<and> normpath (the (d_mount_path drive)) \<noteq> normpath mount_point
        then Some Mount_state_changed
      else None)"

definition audit_mount_failed :: "env \<Rightarrow> usb_drive \<Rightarrow> string \<Rightarrow> string option \<Rightarrow> db \<Rightarrow> db" where
  "audit_mount_failed e drive mount_point err =
     best_effort_audit e ''DRIVE_MOUNT_FAILED'' (d_current_project_id drive) (Some (d_id drive)) None
       [(''drive_id'', JInt (d_id drive)),
        (''device_name'', jstr (redacted_device_name (d_filesystem_path drive))),
        (''mount_slot'', jstr (redacted_device_name (Some mount_point))),
        (''error_code'', JStr ''MOUNT_FAILED''), (''message'', JStr ''Provider mount operation failed''),
        (''details'', JStr (sanitize_error_message ''Mount provider reported failure'' err)),
        (''trace_id'', jstr (e_trace_id e))]"

definition audit_drive_mounted :: "env \<Rightarrow> usb_drive \<Rightarrow> db \<Rightarrow> db" where
  "audit_drive_mounted e saved =
     best_effort_audit e ''DRIVE_MOUNTED'' (d_current_project_id saved) (Some (d_id saved)) None
       [(''drive_id'', JInt (d_id saved)),
        (''device_name'', jstr (redacted_device_name (d_filesystem_path saved))),
        (''mount_slot'', jstr (redacted_device_name (d_mount_path saved)))]"

definition mount_failed :: "env \<Rightarrow> usb_drive \<Rightarrow> string \<Rightarrow> string option \<Rightarrow> db \<Rightarrow> db \<times> drive_error" where
  "mount_failed e drive mount_point err db =
     (if is_already_mounted_error err then (db, Device_already_mounted)
      else let (status, detail) = drive_mount_failure_response err
           in (audit_mount_failed e drive mount_point err db, Mount_failed status detail))"

text \<open>After the commit the session reloads the row.\<close>

definition refreshed :: "int \<Rightarrow> usb_drive \<Rightarrow> db \<Rightarrow> usb_drive" where
  "refreshed drive_id drive db = (case get_drive drive_id db of None \<Rightarrow> drive | Some d \<Rightarrow> d)"

definition mount_commit ::
  "env \<Rightarrow> mount_provider \<Rightarrow> int \<Rightarrow> string \<Rightarrow> usb_drive \<Rightarrow> db \<Rightarrow> drive_result" where
  "mount_commit e pr drive_id mount_point drive db =
     (if \<not> e_db_ok e ''save'' then
        (let (calls, manual) = rollback_mount pr mount_point in (db, calls, Inl (Mount_db_error manual)))
      else let db' = set_drive drive_id (\<lambda>d. d\<lparr>d_mount_path := Some mount_point\<rparr>) db;
               saved = refreshed drive_id drive db'
           in (audit_drive_mounted e saved db', [], Inr saved))"

definition mount_finish ::
  "env \<Rightarrow> mount_provider \<Rightarrow> (usb_drive \<Rightarrow> usb_drive \<Rightarrow> usb_drive) \<Rightarrow> int \<Rightarrow> string \<Rightarrow> usb_drive \<Rightarrow> db \<Rightarrow> drive_result" where
  "mount_finish e pr reread drive_id mount_point initial db =
     (case get_drive_for_update e drive_id db of
        Lock_conflict \<Rightarrow> fail_with Drive_locked db
      | Row None \<Rightarrow>
          (let (calls, manual) = rollback_mount pr mount_point in (db, calls, Inl (Drive_disappeared manual)))
      | Row (Some stored) \<Rightarrow>
          (case mount_recheck initial (reread initial stored) mount_point of
             Some err \<Rightarrow>
               (let (calls, manual) = rollback_mount pr mount_point in (db, calls, Inl (err manual)))
           | None \<Rightarrow> mount_commit e pr drive_id mount_point (reread initial stored) db))"

definition mount_drive ::
  "env \<Rightarrow> string \<Rightarrow> mount_provider \<Rightarrow> (db \<Rightarrow> db) \<Rightarrow> (usb_drive \<Rightarrow> usb_drive \<Rightarrow> usb_drive) \<Rightarrow> int \<Rightarrow> db \<Rightarrow> drive_result" where
  "mount_drive e usb_mount_base_path pr interf reread drive_id db =
     (case get_drive drive_id db of
        None \<Rightarrow> fail_with Drive_not_found db
      | Some drive \<Rightarrow>
          (case mount_guards drive of
             Some err \<Rightarrow> fail_with err db
           | None \<Rightarrow>
               (let mount_point = usb_mount_point usb_mount_base_path (d_id drive);
                    device = the (d_filesystem_path drive);
                    (success, err) = mp_mount pr device mount_point
                in if \<not> success then
                     (let (db', x) = mount_failed e drive mount_point err (interf db)
                      in (db', [OS_mount device mount_point], Inl x))
                   else (let (db', calls, r) = mount_finish e pr reread drive_id mount_point drive (interf db)
                         in (db', OS_mount device mount_point # calls, r)))))"

section \<open>Prepare-eject\<close>

record eject_result =
  ej_success :: bool
  ej_flush_ok :: bool
  ej_unmount_ok :: bool
  ej_flush_error :: "string option"
  ej_unmount_error :: "string option"

definition eject_state_guard :: "usb_drive \<Rightarrow> drive_error option" where
  "eject_state_guard drive =
     (if format_pending drive then Some Format_in_progress
      else if d_current_state drive = AVAILABLE then
        (if \<not> truthy (d_mount_path drive) then Some Eject_not_mounted else None)
      else if d_current_state drive \<noteq> IN_USE then
        (if truthy (d_mount_path drive) then Some Eject_stale_mount else Some Eject_bad_state)
      else None)"

definition audit_eject_active_job :: "env \<Rightarrow> int \<Rightarrow> usb_drive \<Rightarrow> export_job \<Rightarrow> db \<Rightarrow> db" where
  "audit_eject_active_job e drive_id drive j =
     best_effort_audit e ''DRIVE_EJECT_REJECTED_ACTIVE_JOB'' (d_current_project_id drive) (Some drive_id) None
       [(''drive_id'', JInt drive_id), (''job_id'', JInt (j_id j)),
        (''job_status'', JStr (job_status_value (j_status j))),
        (''message'', JStr ''Prepare-eject rejected because the assigned job has started and is not yet completed'')]"

definition audit_eject_confirm_required :: "env \<Rightarrow> int \<Rightarrow> usb_drive \<Rightarrow> nat \<Rightarrow> db \<Rightarrow> db" where
  "audit_eject_confirm_required e drive_id drive n =
     best_effort_audit e ''DRIVE_EJECT_CONFIRM_REQUIRED'' (d_current_project_id drive) (Some drive_id) None
       [(''drive_id'', JInt drive_id), (''incomplete_file_count'', JInt (int n))]"

definition audit_eject_incomplete :: "env \<Rightarrow> int \<Rightarrow> usb_drive \<Rightarrow> nat \<Rightarrow> db \<Rightarrow> db" where
  "audit_eject_incomplete e drive_id drive n =
     best_effort_audit e ''DRIVE_EJECT_WITH_INCOMPLETE_FILES'' (d_current_project_id drive) (Some drive_id) None
       [(''drive_id'', JInt drive_id), (''incomplete_file_count'', JInt (int n)),
        (''message'', JStr (''Drive ejected with '' @ str_int (int n) @
           '' incomplete file(s) from active job(s)''))]"

text \<open>The job and file checks before the host is asked to eject. The left value is a rejection; the
  right value is the database after the warning about incomplete files has been recorded.\<close>

definition eject_prechecks ::
  "env \<Rightarrow> bool \<Rightarrow> int \<Rightarrow> usb_drive \<Rightarrow> db \<Rightarrow> (db \<times> drive_error) + db" where
  "eject_prechecks e confirm_incomplete drive_id drive db =
     (case blocking_job drive_id db of
        Some j \<Rightarrow> Inl (audit_eject_active_job e drive_id drive j db, Eject_active_job (j_id j))
      | None \<Rightarrow>
          if \<not> e_db_ok e ''incomplete_precheck'' then Inl (db, Eject_precheck_failed)
          else let n = incomplete_file_count drive_id db
               in if 0 < n \<and> \<not> confirm_incomplete
                    then Inl (audit_eject_confirm_required e drive_id drive n db, Eject_confirm_required n)
                  else if 0 < n then Inr (audit_eject_incomplete e drive_id drive n db)
                  else Inr db)"

text \<open>Only the columns whose loaded value differs from the new one are written back.\<close>

definition eject_write :: "usb_drive \<Rightarrow> usb_drive \<Rightarrow> usb_drive" where
  "eject_write loaded d =
     d\<lparr>d_current_state := (if d_current_state loaded = AVAILABLE then d_current_state d else AVAILABLE),
       d_mount_path := (if d_mount_path loaded = None then d_mount_path d else None)\<rparr>"

definition audit_eject_prepared ::
  "env \<Rightarrow> int \<Rightarrow> usb_drive \<Rightarrow> usb_drive \<Rightarrow> eject_result \<Rightarrow> export_job option \<Rightarrow> db \<Rightarrow> db" where
  "audit_eject_prepared e drive_id initial saved res assigned =
     best_effort_audit e ''DRIVE_EJECT_PREPARED'' (d_current_project_id saved) (Some drive_id)
       (map_option j_id assigned)
       ([(''drive_id'', JInt drive_id),
         (''device_name'', jstr (redacted_device_name (d_filesystem_path initial))),
         (''flush_ok'', JBool (ej_flush_ok res)), (''unmount_ok'', JBool (ej_unmount_ok res))] @
        (case assigned of None \<Rightarrow> []
         | Some j \<Rightarrow> [(''job_id'', JInt (j_id j)), (''job_evidence_number'', JStr (j_evidence_number j)),
             (''job_status'', JStr (job_status_value (j_status j))),
             (''message'', JStr (''Drive prepared for eject from attached job '' @ str_int (j_id j)))]))"

definition eject_callbacks :: "export_job option \<Rightarrow> drive_effect list" where
  "eject_callbacks assigned =
     (case assigned of None \<Rightarrow> []
      | Some j \<Rightarrow> if j_status j \<in> set prepare_eject_callback
                  then [Deliver_callback (j_id j) ''DRIVE_EJECT_PREPARED''] else [])"

definition eject_success ::
  "env \<Rightarrow> int \<Rightarrow> usb_drive \<Rightarrow> usb_drive \<Rightarrow> eject_result \<Rightarrow> db \<Rightarrow> drive_result" where
  "eject_success e drive_id initial drive res db =
     (if \<not> e_db_ok e ''save'' then fail_with Eject_db_error db
      else let db1 = set_drive drive_id (eject_write drive) db;
               saved = refreshed drive_id drive db1;
               assigned = get_latest_unreleased_assigned_job drive_id db1
           in (audit_eject_prepared e drive_id initial saved res assigned db1,
               eject_callbacks assigned, Inr saved))"

definition audit_unmount_failed :: "env \<Rightarrow> int \<Rightarrow> usb_drive \<Rightarrow> usb_drive \<Rightarrow> eject_result \<Rightarrow> db \<Rightarrow> db" where
  "audit_unmount_failed e drive_id initial drive res =
     best_effort_audit e ''DRIVE_UNMOUNT_FAILED'' (d_current_project_id drive) (Some drive_id) None
       [(''drive_id'', JInt drive_id),
        (''device_name'', jstr (redacted_device_name (d_filesystem_path initial))),
        (''mount_slot'', jstr (redacted_device_name (d_mount_path drive))),
        (''error_code'', JStr ''UNMOUNT_FAILED''), (''message'', JStr ''Drive unmount operation failed''),
        (''details'', JStr (sanitize_error_message ''Unmount provider reported failure'' (ej_unmount_error res)))]"

definition audit_eject_failed :: "env \<Rightarrow> int \<Rightarrow> usb_drive \<Rightarrow> usb_drive \<Rightarrow> eject_result \<Rightarrow> db \<Rightarrow> db" where
  "audit_eject_failed e drive_id initial drive res =
     best_effort_audit e ''DRIVE_EJECT_FAILED'' (d_current_project_id drive) (Some drive_id) None
       [(''drive_id'', JInt drive_id),
        (''device_name'', jstr (redacted_device_name (d_filesystem_path initial))),
        (''flush_ok'', JBool (ej_flush_ok res)), (''unmount_ok'', JBool (ej_unmount_ok res)),
        (''error_code'', JStr (if \<not> ej_flush_ok res then ''EJECT_FLUSH_FAILED''
           else if \<not> ej_unmount_ok res then ''EJECT_UNMOUNT_FAILED'' else ''EJECT_FAILED'')),
        (''message'', JStr (if \<not> ej_flush_ok res then ''Drive flush operation failed''
           else if \<not> ej_unmount_ok res then ''Drive unmount operation failed''
           else ''Drive eject preparation failed'')),
        (''details'', JStr (sanitize_error_message ''Drive eject operation failed''
           (if \<not> ej_flush_ok res then ej_flush_error res else ej_unmount_error res)))]"

definition eject_failure ::
  "env \<Rightarrow> int \<Rightarrow> usb_drive \<Rightarrow> usb_drive \<Rightarrow> eject_result \<Rightarrow> db \<Rightarrow> drive_result" where
  "eject_failure e drive_id initial drive res db =
     (let db1 = (if \<not> ej_unmount_ok res then audit_unmount_failed e drive_id initial drive res db else db);
          db2 = audit_eject_failed e drive_id initial drive res db1
      in case recoverable_prepare_eject_detail (d_mount_path drive) (ej_unmount_error res) of
           Some m \<Rightarrow> fail_with (Eject_recoverable m) db2
         | None \<Rightarrow> fail_with Eject_failed db2)"

definition eject_finish ::
  "env \<Rightarrow> (usb_drive \<Rightarrow> usb_drive \<Rightarrow> usb_drive) \<Rightarrow> int \<Rightarrow> usb_drive \<Rightarrow> eject_result \<Rightarrow> db \<Rightarrow> drive_result" where
  "eject_finish e reread drive_id initial res db =
     (case get_drive_for_update e drive_id db of
        Lock_conflict \<Rightarrow> fail_with Drive_locked db
      | Row None \<Rightarrow> fail_with Drive_not_found db
      | Row (Some stored) \<Rightarrow>
          (let drive = reread initial stored
           in if d_current_state drive \<noteq> d_current_state initial then fail_with (State_changed False) db
              else if d_filesystem_path drive \<noteq> d_filesystem_path initial then fail_with (Path_changed False) db
              else if ej_success res then eject_success e drive_id initial drive res db
              else eject_failure e drive_id initial drive res db))"

definition prepare_eject ::
  "env \<Rightarrow> (string option \<Rightarrow> eject_result) \<Rightarrow> (db \<Rightarrow> db) \<Rightarrow> (usb_drive \<Rightarrow> usb_drive \<Rightarrow> usb_drive) \<Rightarrow>
   bool \<Rightarrow> int \<Rightarrow> db \<Rightarrow> drive_result" where
  "prepare_eject e provider interf reread confirm_incomplete drive_id db =
     (case get_drive drive_id db of
        None \<Rightarrow> fail_with Drive_not_found db
      | Some drive \<Rightarrow>
          (case eject_state_guard drive of
             Some err \<Rightarrow> fail_with err db
           | None \<Rightarrow>
               (case eject_prechecks e confirm_incomplete drive_id drive db of
                  Inl (db', err) \<Rightarrow> fail_with err db'
                | Inr db1 \<Rightarrow>
                    (let res = provider (d_filesystem_path drive);
                         (db', calls, r) = eject_finish e reread drive_id drive res (interf db1)
                     in (db', OS_eject (d_filesystem_path drive) # calls, r)))))"

section \<open>Formatting\<close>

datatype format_outcome = Format_ok | Format_runtime_error string | Format_unexpected

record formatter =
  fm_is_mounted :: "string \<Rightarrow> bool"
  fm_format :: "string \<Rightarrow> string \<Rightarrow> format_outcome"
  fm_detect :: "string \<Rightarrow> string option"
  fm_free_bytes :: "string \<Rightarrow> string \<Rightarrow> int option"

definition format_requested :: "env \<Rightarrow> usb_drive \<Rightarrow> usb_drive" where
  "format_requested e d =
     d\<lparr>d_format_status := Some FMT_PENDING, d_format_failure_message := None,
       d_format_started_at := Some (e_now e), d_format_finished_at := None\<rparr>"

definition format_restored :: "usb_drive \<Rightarrow> usb_drive \<Rightarrow> usb_drive" where
  "format_restored old d =
     d\<lparr>d_format_status := d_format_status old, d_format_failure_message := d_format_failure_message old,
       d_format_started_at := d_format_started_at old, d_format_finished_at := d_format_finished_at old\<rparr>"

definition format_guards :: "formatter \<Rightarrow> usb_drive \<Rightarrow> drive_error option" where
  "format_guards fm drive =
     (if format_pending drive then Some Format_in_progress
      else if d_current_state drive \<noteq> AVAILABLE then Some Format_not_available
      else if \<not> truthy (d_filesystem_path drive) then Some No_filesystem_path
      else if \<not> validate_device_path (the (d_filesystem_path drive)) then Some Invalid_device_path
      else if truthy (d_mount_path drive) then Some Format_mounted
      else if fm_is_mounted fm (the (d_filesystem_path drive)) then Some Format_mounted
      else None)"

definition request_drive_format ::
  "env \<Rightarrow> formatter \<Rightarrow> bool \<Rightarrow> int \<Rightarrow> string \<Rightarrow> db \<Rightarrow> drive_result" where
  "request_drive_format e fm schedule_ok drive_id filesystem_type db =
     (case get_drive_for_update e drive_id db of
        Lock_conflict \<Rightarrow> fail_with Drive_locked db
      | Row None \<Rightarrow> fail_with Drive_not_found db
      | Row (Some drive) \<Rightarrow>
          (case format_guards fm drive of
             Some err \<Rightarrow> fail_with err db
           | None \<Rightarrow>
               if \<not> e_db_ok e ''save'' then fail_with Drive_db_error db
               else
                 (let db1 = set_drive drive_id (format_requested e) db
                  in if schedule_ok
                     then (db1, [Schedule_format drive_id filesystem_type], Inr (format_requested e drive))
                     else if e_db_ok e ''restore_save''
                     then fail_with Format_schedule_failed (set_drive drive_id (format_restored drive) db1)
                     else fail_with Drive_db_error db1)))"

definition format_failed :: "env \<Rightarrow> string \<Rightarrow> usb_drive \<Rightarrow> usb_drive" where
  "format_failed e detail d =
     d\<lparr>d_format_status := Some FMT_FAILED, d_format_failure_message := Some detail,
       d_format_finished_at := Some (e_now e)\<rparr>"

definition set_drive_format_failure :: "env \<Rightarrow> string \<Rightarrow> int \<Rightarrow> string \<Rightarrow> db \<Rightarrow> db option" where
  "set_drive_format_failure e site drive_id detail db =
     (if e_db_ok e site then Some (set_drive drive_id (format_failed e detail) db) else None)"

definition msg_format_unavailable :: string where
  "msg_format_unavailable = ''Drive is no longer available for formatting; refresh drive status and retry''"
definition msg_format_no_device :: string where
  "msg_format_no_device = ''Drive device path is unavailable; refresh drive status and retry''"
definition msg_format_mounted :: string where
  "msg_format_mounted = ''Drive is mounted; unmount before formatting and retry''"
definition msg_format_task_failed :: string where
  "msg_format_task_failed = ''Drive format failed; verify the device is available and retry''"

definition audit_format_failed :: "env \<Rightarrow> int \<Rightarrow> string \<Rightarrow> usb_drive \<Rightarrow> string \<Rightarrow> db \<Rightarrow> db" where
  "audit_format_failed e drive_id filesystem_type drive safe =
     best_effort_audit e ''DRIVE_FORMAT_FAILED'' (d_current_project_id drive) (Some drive_id) None
       [(''drive_id'', JInt drive_id),
        (''filesystem_path'', jstr (redacted_audit_path (d_filesystem_path drive))),
        (''filesystem_type'', JStr filesystem_type), (''error'', JStr safe), (''actor'', jstr (e_actor e))]"

definition audit_format_db_update_failed :: "env \<Rightarrow> int \<Rightarrow> string \<Rightarrow> usb_drive \<Rightarrow> db \<Rightarrow> db" where
  "audit_format_db_update_failed e drive_id filesystem_type drive =
     best_effort_audit e ''DRIVE_FORMAT_DB_UPDATE_FAILED'' (d_current_project_id drive) (Some drive_id) None
       [(''drive_id'', JInt drive_id),
        (''filesystem_path'', jstr (redacted_audit_path (d_filesystem_path drive))),
        (''filesystem_type'', JStr filesystem_type), (''actor'', jstr (e_actor e))]"

definition audit_drive_formatted :: "env \<Rightarrow> formatter \<Rightarrow> int \<Rightarrow> string \<Rightarrow> usb_drive \<Rightarrow> db \<Rightarrow> db" where
  "audit_drive_formatted e fm drive_id filesystem_type drive db =
     (let device = the (d_filesystem_path drive);
          detected = (case fm_detect fm device of None \<Rightarrow> None
            | Some t \<Rightarrow> if t = ''unknown'' \<or> t = ''unformatted'' then None else Some t)
      in case log_and_audit e ''DRIVE_FORMATTED'' (d_current_project_id drive) (Some drive_id) None
           [(''filesystem_path'', jstr (redacted_audit_path (d_filesystem_path drive))),
            (''filesystem_type'', JStr filesystem_type), (''detected_filesystem_type'', jstr detected),
            (''free_bytes'', jint (fm_free_bytes fm device filesystem_type)),
            (''capacity_bytes'', jint (d_capacity_bytes drive)), (''actor'', jstr (e_actor e))] db of
           None \<Rightarrow> db | Some db' \<Rightarrow> db')"

definition formatted :: "env \<Rightarrow> string \<Rightarrow> usb_drive \<Rightarrow> usb_drive" where
  "formatted e filesystem_type d =
     d\<lparr>d_filesystem_type := Some filesystem_type, d_available_bytes := None,
       d_format_status := None, d_format_failure_message := None,
       d_current_project_id := None, d_format_finished_at := Some (e_now e)\<rparr>"

text \<open>Why the task refuses to touch the device, in the order of the checks.\<close>

definition format_task_refusal :: "formatter \<Rightarrow> usb_drive \<Rightarrow> string option" where
  "format_task_refusal fm drive =
     (if d_current_state drive \<noteq> AVAILABLE then Some msg_format_unavailable
      else if \<not> truthy (d_filesystem_path drive) \<or> \<not> validate_device_path (the (d_filesystem_path drive))
        then Some msg_format_no_device
      else if truthy (d_mount_path drive) \<or> fm_is_mounted fm (the (d_filesystem_path drive))
        then Some msg_format_mounted
      else None)"

text \<open>The task's outcome: the committed database, the host calls, and whether it ended without an
  exception.\<close>

definition complete_drive_format ::
  "env \<Rightarrow> formatter \<Rightarrow> int \<Rightarrow> string \<Rightarrow> db \<Rightarrow> db \<times> drive_effect list \<times> bool" where
  "complete_drive_format e fm drive_id filesystem_type db =
     (case get_drive_for_update e drive_id db of
        Lock_conflict \<Rightarrow> (db, [], False)
      | Row None \<Rightarrow> (db, [], True)
      | Row (Some drive) \<Rightarrow>
          if \<not> format_pending drive then (db, [], True)
          else case format_task_refusal fm drive of
            Some detail \<Rightarrow>
              (case set_drive_format_failure e ''format_failure_save'' drive_id detail db of
                 None \<Rightarrow> (db, [], False) | Some db' \<Rightarrow> (db', [], True))
          | None \<Rightarrow>
              (let device = the (d_filesystem_path drive); calls = [OS_format device filesystem_type]
               in case fm_format fm device filesystem_type of
                    Format_unexpected \<Rightarrow> (db, calls, False)
                  | Format_runtime_error msg \<Rightarrow>
                      (let safe = sanitize_error_message ''Drive format failed'' (Some msg)
                       in case set_drive_format_failure e ''format_failure_save'' drive_id safe db of
                            None \<Rightarrow> (db, calls, False)
                          | Some db1 \<Rightarrow> (audit_format_failed e drive_id filesystem_type drive safe db1, calls, True))
                  | Format_ok \<Rightarrow>
                      if \<not> e_db_ok e ''save''
                      then (audit_format_db_update_failed e drive_id filesystem_type drive db, calls, False)
                      else (audit_drive_formatted e fm drive_id filesystem_type drive
                              (set_drive drive_id (formatted e filesystem_type) db), calls, True)))"

definition run_drive_format_task ::
  "env \<Rightarrow> formatter \<Rightarrow> int \<Rightarrow> string \<Rightarrow> db \<Rightarrow> db \<times> drive_effect list" where
  "run_drive_format_task e fm drive_id filesystem_type db =
     (let (db1, calls, ok) = complete_drive_format e fm drive_id filesystem_type db
      in if ok then (db1, calls)
         else case get_drive_for_update e drive_id db1 of
           Row (Some drive) \<Rightarrow>
             (if format_pending drive then
                (case set_drive_format_failure e ''task_failure_save'' drive_id
                        msg_format_task_failed db1 of
                   None \<Rightarrow> (db1, calls) | Some db2 \<Rightarrow> (db2, calls))
              else (db1, calls))
         | _ \<Rightarrow> (db1, calls))"

text \<open>The part of the start-up normalisation that concerns declared states: rows left pending by an
  interrupted process become failed.\<close>

definition msg_format_interrupted :: string where
  "msg_format_interrupted = ''Drive format was interrupted during restart; retry the request''"

definition normalize_unreleased_drive_states :: "env \<Rightarrow> db \<Rightarrow> db \<times> int" where
  "normalize_unreleased_drive_states e db =
     (db\<lparr>drives := map (\<lambda>d. if format_pending d then format_failed e msg_format_interrupted d else d) (drives db)\<rparr>,
      int (length (filter format_pending (drives db))))"

section \<open>Every audit write is an audit writer\<close>

lemmas audit_defs =
  init_audit_def [abs_def] audit_init_not_available_def audit_project_isolation_violation_def
  audit_init_project_mismatch_def audit_init_filesystem_def audit_init_not_mounted_def
  audit_init_source_busy_def audit_init_no_source_def audit_drive_initialized_def
  audit_mount_failed_def audit_drive_mounted_def audit_eject_active_job_def
  audit_eject_confirm_required_def audit_eject_incomplete_def audit_eject_prepared_def
  audit_unmount_failed_def audit_eject_failed_def audit_format_failed_def
  audit_format_db_update_failed_def

interpretation audit_init_not_available: audit_writer "audit_init_not_available e i p d" for e i p d
  unfolding audit_defs by (rule best_effort.audit_writer_axioms)

interpretation audit_project_isolation_violation: audit_writer "audit_project_isolation_violation e i p d" for e i p d
  unfolding audit_defs by (rule best_effort.audit_writer_axioms)

interpretation audit_init_project_mismatch: audit_writer "audit_init_project_mismatch e i p d" for e i p d
  unfolding audit_defs by (rule best_effort.audit_writer_axioms)

interpretation audit_init_filesystem: audit_writer "audit_init_filesystem e i p d" for e i p d
  unfolding audit_defs by (rule best_effort.audit_writer_axioms)

interpretation audit_init_not_mounted: audit_writer "audit_init_not_mounted e i p" for e i p
  unfolding audit_defs by (rule best_effort.audit_writer_axioms)

interpretation audit_init_source_busy: audit_writer "audit_init_source_busy e i p" for e i p
  unfolding audit_defs by (rule best_effort.audit_writer_axioms)

interpretation audit_init_no_source: audit_writer "audit_init_no_source e i p" for e i p
  unfolding audit_defs by (rule best_effort.audit_writer_axioms)

interpretation audit_drive_initialized: audit_writer "audit_drive_initialized e i p" for e i p
  unfolding audit_defs by (rule best_effort.audit_writer_axioms)

interpretation audit_mount_failed: audit_writer "audit_mount_failed e d m x" for e d m x
  unfolding audit_defs by (rule best_effort.audit_writer_axioms)

interpretation audit_drive_mounted: audit_writer "audit_drive_mounted e d" for e d
  unfolding audit_defs by (rule best_effort.audit_writer_axioms)

interpretation audit_eject_active_job: audit_writer "audit_eject_active_job e i d j" for e i d j
  unfolding audit_defs by (rule best_effort.audit_writer_axioms)

interpretation audit_eject_confirm_required: audit_writer "audit_eject_confirm_required e i d n" for e i d n
  unfolding audit_defs by (rule best_effort.audit_writer_axioms)

interpretation audit_eject_incomplete: audit_writer "audit_eject_incomplete e i d n" for e i d n
  unfolding audit_defs by (rule best_effort.audit_writer_axioms)

interpretation audit_eject_prepared: audit_writer "audit_eject_prepared e i d d2 r a" for e i d d2 r a
  unfolding audit_defs by (rule best_effort.audit_writer_axioms)

interpretation audit_unmount_failed: audit_writer "audit_unmount_failed e i d d2 r" for e i d d2 r
  unfolding audit_defs by (rule best_effort.audit_writer_axioms)

interpretation audit_eject_failed: audit_writer "audit_eject_failed e i d d2 r" for e i d d2 r
  unfolding audit_defs by (rule best_effort.audit_writer_axioms)

interpretation audit_format_failed: audit_writer "audit_format_failed e i t d x" for e i t d x
  unfolding audit_defs by (rule best_effort.audit_writer_axioms)

interpretation audit_format_db_update_failed: audit_writer "audit_format_db_update_failed e i t d" for e i t d
  unfolding audit_defs by (rule best_effort.audit_writer_axioms)

interpretation audit_drive_formatted: audit_writer "audit_drive_formatted e fm i t d" for e fm i t d
  by unfold_locales
     (auto simp: audit_drive_formatted_def log_and_audit_def audit_add_def Let_def
       intro: uncommitted_audit.appends exI [of _ "[]"])

end
