(* ===== verification/Drive_Safety.thy ===== *)
theory Drive_Safety
  imports Drive_Service
begin

text \<open>
  What the drive operations guarantee: which drives can be initialised for a project and what a
  rejection leaves behind, when a mount or an eject is committed, that only a format clears a project
  binding, and that a format task always leaves the pending state when the database answers. The
  contract \<open>isolating\<close> that all operations share is stated once as a locale; its consequence for
  sequences of operations is proved there.
\<close>

section \<open>Lemmas: initialisation\<close>

lemma get_drive_for_update_Some:
  "get_drive_for_update e i db = Row (Some d) \<longleftrightarrow> get_drive i db = Some d \<and> \<not> e_drive_locked e i"
  by (auto simp: get_drive_for_update_def split: option.splits if_splits)

lemma get_drive_for_update_None:
  "get_drive_for_update e i db = Row None \<longleftrightarrow> get_drive i db = None"
  by (auto simp: get_drive_for_update_def split: option.splits if_splits)

lemma fail_with_db: "fail_with err db = (db', calls, r) \<longleftrightarrow> db' = db \<and> calls = [] \<and> r = Inl err"
  by (auto simp: fail_with_def)

lemma same_audits: "\<exists>ls. db = db\<lparr>audits := audits db @ ls\<rparr>"
  by (intro exI [of _ "[]"]) simp

lemma init_guards_Some:
  assumes "init_guards e i p d db = Some (db', err)"
  shows "\<exists>ls. db' = db\<lparr>audits := audits db @ ls\<rparr>"
  using assms unfolding init_guards_def
  by (auto split: if_splits locked.splits option.splits
      intro: same_audits audit_init_not_available.appends audit_project_isolation_violation.appends
        audit_init_project_mismatch.appends audit_init_filesystem.appends audit_init_not_mounted.appends
        audit_init_source_busy.appends audit_init_no_source.appends)

lemma init_guards_None:
  assumes "init_guards e i p d db = None"
  shows "\<not> format_pending d" "d_current_state d \<in> {AVAILABLE, IN_USE}"
    "\<not> truthy (d_current_project_id d) \<or> d_current_project_id d = Some p"
    "\<not> unrecognized_fs (d_filesystem_type d)" "truthy (d_mount_path d)"
    "\<exists>m. get_mounted_project_for_update e p db = Row (Some m)"
proof -
  show "d_current_state d \<in> {AVAILABLE, IN_USE}"
    using assms unfolding init_guards_def by (cases "d_current_state d") (auto split: if_splits)
qed (use assms in \<open>auto simp: init_guards_def split: if_splits locked.splits option.splits\<close>)

lemma mounted_source:
  assumes "get_mounted_project_for_update e p db = Row (Some m)"
  shows "m \<in> set (shares db) \<and> m_status m = MOUNTED \<and> m_project_id m = normalize_project_id p"
proof -
  have "first_by m_id (filter (\<lambda>m. m_status m = MOUNTED \<and> m_project_id m = normalize_project_id p) (shares db)) = Some m"
    using assms by (auto simp: get_mounted_project_for_update_def Let_def split: if_splits option.splits)
  then show ?thesis by (drule_tac first_by_in) simp
qed

lemma init_update_id [simp]: "d_id (init_update p d) = d_id d"
  by (simp add: init_update_def)

lemma initialize_drive_Inr:
  assumes "initialize_drive e i p db = (db', calls, Inr d')"
  obtains d where "get_drive i db = Some d" "normalize_project_id p \<noteq> []"
      "init_guards e i (normalize_project_id p) d db = None"
      "db' = audit_drive_initialized e i (normalize_project_id p)
               (set_drive i (init_update (normalize_project_id p)) db)"
      "calls = []" "d' = init_update (normalize_project_id p) d"
  using assms unfolding initialize_drive_def Let_def
  by (auto simp: fail_with_db get_drive_for_update_Some split: if_splits locked.splits option.splits prod.splits)

lemma initialize_drive_Inl:
  assumes "initialize_drive e i p db = (db', calls, Inl err)"
  shows "\<exists>ls. db' = db\<lparr>audits := audits db @ ls\<rparr>" and "calls = []"
  using assms unfolding initialize_drive_def Let_def
  by (auto simp: fail_with_db same_audits dest: init_guards_Some
      split: if_splits locked.splits option.splits prod.splits)

section \<open>Properties: initialisation\<close>

text \<open>C2. A successful initialisation binds exactly one drive, and only a drive that may be bound: it was
  present and ready, not being formatted, mounted with a recognised file system, unbound or already
  bound to the same project, and the project has a mounted share. Afterwards the drive is in use and
  bound to the canonical project; every other drive, job and share is as before.\<close>

theorem initialize_drive_success:
  assumes "initialize_drive e i p db = (db', calls, Inr d')"
  shows "\<exists>d m. get_drive i db = Some d \<and> d_current_state d \<in> {AVAILABLE, IN_USE} \<and>
     \<not> format_pending d \<and> \<not> unrecognized_fs (d_filesystem_type d) \<and> truthy (d_mount_path d) \<and>
     (\<not> truthy (d_current_project_id d) \<or> d_current_project_id d = Some (normalize_project_id p)) \<and>
     m \<in> set (shares db) \<and> m_status m = MOUNTED \<and> m_project_id m = normalize_project_id p \<and>
     d' = d\<lparr>d_current_project_id := Some (normalize_project_id p), d_current_state := IN_USE\<rparr> \<and>
     get_drive i db' = Some d' \<and> (\<forall>k. k \<noteq> i \<longrightarrow> get_drive k db' = get_drive k db) \<and>
     jobs db' = jobs db \<and> assignments db' = assignments db \<and> shares db' = shares db"
proof -
  let ?p = "normalize_project_id p"
  from assms obtain d where d: "get_drive i db = Some d" "?p \<noteq> []" "init_guards e i ?p d db = None"
    "db' = audit_drive_initialized e i ?p (set_drive i (init_update ?p) db)" "d' = init_update ?p d"
    by (rule initialize_drive_Inr)
  note g = init_guards_None [OF d(3)]
  from g(6) obtain m where m: "get_mounted_project_for_update e ?p db = Row (Some m)" by blast
  have "init_update ?p d = d\<lparr>d_current_project_id := Some ?p, d_current_state := IN_USE\<rparr>"
    using drive_project_validator_ok [of ?p] d(2) by (simp add: init_update_def)
  with g(1-5) mounted_source [OF m] d show ?thesis
    by (intro exI [of _ d] exI [of _ m]) (simp add: get_set_drive frame_simps)
qed

text \<open>A rejected initialisation changes nothing but the audit trail: whatever the reason (including a
  failing commit), drives, shares, jobs and assignments keep their values and earlier audit records
  stay.\<close>

theorem initialize_drive_rejected:
  assumes "initialize_drive e i p db = (db', calls, Inl err)"
  shows "\<exists>ls. db' = db\<lparr>audits := audits db @ ls\<rparr>"
  using assms by (rule initialize_drive_Inl)

text \<open>Project isolation on initialisation: a request for another project on a drive in use is refused
  with 403, on an idle drive that still carries a project with 409, and the attempt is recorded under
  its audit action when the audit write succeeds.\<close>

theorem initialize_drive_isolation:
  assumes d: "get_drive i db = Some d" "\<not> e_drive_locked e i" "\<not> format_pending d"
    and other: "d_current_project_id d = Some q" "q \<noteq> []" "q \<noteq> normalize_project_id p"
    and p: "normalize_project_id p \<noteq> []" and st: "d_current_state d \<in> {AVAILABLE, IN_USE}"
    and ok: "\<forall>a. e_db_ok e a"
  shows "\<exists>db' err l. initialize_drive e i p db = (db', [], Inl err) \<and>
     drive_error_status err = (if d_current_state d = IN_USE then 403 else 409) \<and>
     drives db' = drives db \<and> audits db' = audits db @ [l] \<and>
     l_action l = (if d_current_state d = IN_USE then ''PROJECT_ISOLATION_VIOLATION''
                   else ''INIT_REJECTED_PROJECT_MISMATCH'')"
proof -
  let ?p = "normalize_project_id p"
  have row: "get_drive_for_update e i db = Row (Some d)" using d by (simp add: get_drive_for_update_Some)
  show ?thesis
  proof (cases "d_current_state d = IN_USE")
    case True
    then have "init_guards e i ?p d db = Some (audit_project_isolation_violation e i ?p d db, Project_isolation)"
      using d other by (simp add: init_guards_def)
    moreover obtain l where "audits (audit_project_isolation_violation e i ?p d db) = audits db @ [l]"
        "l_action l = ''PROJECT_ISOLATION_VIOLATION''"
      using best_effort_audit_records ok
      by (fastforce simp: audit_project_isolation_violation_def init_audit_def)
    ultimately show ?thesis using True p row by (simp add: initialize_drive_def fail_with_def)
  next
    case False
    then have "init_guards e i ?p d db = Some (audit_init_project_mismatch e i ?p d db, Init_project_mismatch)"
      using d other st by (auto simp: init_guards_def)
    moreover obtain l where "audits (audit_init_project_mismatch e i ?p d db) = audits db @ [l]"
        "l_action l = ''INIT_REJECTED_PROJECT_MISMATCH''"
      using best_effort_audit_records ok
      by (fastforce simp: audit_init_project_mismatch_def init_audit_def)
    ultimately show ?thesis using False p row by (simp add: initialize_drive_def fail_with_def)
  qed
qed

section \<open>Mounting\<close>

lemma mount_recheck_None:
  assumes "mount_recheck initial drive mp = None"
  shows "d_current_state drive = d_current_state initial" "d_filesystem_path drive = d_filesystem_path initial"
    "d_current_project_id drive = d_current_project_id initial"
  using assms by (auto simp: mount_recheck_def split: if_splits)

lemma mount_recheck_same: "mount_guards d = None \<Longrightarrow> mount_recheck d d mp = None"
  by (auto simp: mount_guards_def mount_recheck_def split: if_splits)

lemma rollback_mount_calls:
  "mp_has_unmount pr \<Longrightarrow> rollback_mount pr mp = (calls, manual) \<Longrightarrow> calls = [OS_unmount mp]"
  by (auto simp: rollback_mount_def)

lemma mount_commit_Inr:
  assumes "mount_commit e pr i mp drive db = (db', calls, Inr d')" and "get_drive i db = Some s"
  shows "d' = s\<lparr>d_mount_path := Some mp\<rparr>" "calls = []" "get_drive i db' = Some d'"
    "\<And>k. k \<noteq> i \<Longrightarrow> get_drive k db' = get_drive k db"
  using assms
  by (auto simp: mount_commit_def refreshed_def get_set_drive Let_def split: if_splits prod.splits)

lemma mount_commit_Inl:
  assumes "mount_commit e pr i mp drive db = (db', calls, Inl err)"
  shows "db' = db" and "mp_has_unmount pr \<Longrightarrow> calls = [OS_unmount mp]"
  using assms
  by (auto simp: mount_commit_def Let_def rollback_mount_def split: if_splits prod.splits)

lemma mount_finish_Inr:
  assumes "mount_finish e pr reread i mp initial db = (db', calls, Inr d')"
  obtains s where "get_drive i db = Some s" "mount_recheck initial (reread initial s) mp = None"
    "mount_commit e pr i mp (reread initial s) db = (db', calls, Inr d')"
  using assms unfolding mount_finish_def
  by (auto simp: fail_with_db get_drive_for_update_Some split: locked.splits option.splits prod.splits)

lemma mount_finish_Inl:
  assumes "mount_finish e pr reread i mp initial db = (db', calls, Inl err)"
    and "\<not> e_drive_locked e i" and "mp_has_unmount pr"
  shows "db' = db \<and> calls = [OS_unmount mp]"
proof -
  have "get_drive_for_update e i db \<noteq> Lock_conflict"
    using assms(2) by (auto simp: get_drive_for_update_def split: option.splits)
  with assms mount_commit_Inl show ?thesis
    unfolding mount_finish_def
    by (fastforce simp: rollback_mount_def split: locked.splits option.splits prod.splits)
qed

lemma mount_drive_mounted:
  assumes "get_drive i db = Some d" "mount_guards d = None"
    "mp_mount pr (the (d_filesystem_path d)) (usb_mount_point base i) = (True, x)"
    "mount_finish e pr reread i (usb_mount_point base i) d (interf db) = (db', calls, r)"
  shows "mount_drive e base pr interf reread i db =
     (db', OS_mount (the (d_filesystem_path d)) (usb_mount_point base i) # calls, r)"
  using assms get_drive_id [OF assms(1)] by (simp add: mount_drive_def)

lemma mount_drive_Inr:
  assumes "mount_drive e base pr interf reread i db = (db', calls, Inr d')"
  obtains d calls' where "get_drive i db = Some d" "mount_guards d = None"
    "calls = OS_mount (the (d_filesystem_path d)) (usb_mount_point base i) # calls'"
    "mount_finish e pr reread i (usb_mount_point base i) d (interf db) = (db', calls', Inr d')"
proof -
  from assms obtain d where d: "get_drive i db = Some d" "mount_guards d = None"
    unfolding mount_drive_def by (auto simp: fail_with_db split: option.splits)
  with assms that get_drive_id [OF d(1)] show ?thesis
    unfolding mount_drive_def
    by (auto simp: Let_def split: prod.splits if_splits)
qed


text \<open>A mount request that fails after the host has mounted the device compensates: the slot is
  unmounted again and no stored drive is changed, whatever the other requests did meanwhile and
  whichever check or commit failed, provided the row was not locked by another transaction.\<close>

theorem mount_drive_compensates:
  assumes "mount_drive e base pr interf reread i db = (db', calls, Inl err)"
    and "get_drive i db = Some d" "mount_guards d = None"
    and "fst (mp_mount pr (the (d_filesystem_path d)) (usb_mount_point base i))"
    and "mp_has_unmount pr" "\<not> e_drive_locked e i"
  shows "db' = interf db \<and>
    calls = [OS_mount (the (d_filesystem_path d)) (usb_mount_point base i), OS_unmount (usb_mount_point base i)]"
proof -
  obtain c where f: "mount_finish e pr reread i (usb_mount_point base i) d (interf db) = (db', c, Inl err)"
    and c: "calls = OS_mount (the (d_filesystem_path d)) (usb_mount_point base i) # c"
    using assms(1-4) get_drive_id [OF assms(2)]
    unfolding mount_drive_def by (auto simp: Let_def split: prod.splits if_splits)
  from mount_finish_Inl [OF f assms(6,5)] c show ?thesis by simp
qed

text \<open>The compensation is missing when the row is locked by another transaction at the second read:
  the request fails with 409, the device stays mounted on the host and the stored drive still says
  that it is not mounted.\<close>

theorem mount_drive_lock_conflict_leaks:
  assumes "get_drive i db = Some d" "mount_guards d = None"
    and "fst (mp_mount pr (the (d_filesystem_path d)) (usb_mount_point base i))"
    and "get_drive i (interf db) = Some s" "e_drive_locked e i"
  shows "mount_drive e base pr interf reread i db =
     (interf db, [OS_mount (the (d_filesystem_path d)) (usb_mount_point base i)], Inl Drive_locked)"
proof -
  obtain x where "mp_mount pr (the (d_filesystem_path d)) (usb_mount_point base i) = (True, x)"
    using assms(3) by (cases "mp_mount pr (the (d_filesystem_path d)) (usb_mount_point base i)") auto
  moreover have "mount_finish e pr reread i (usb_mount_point base i) d (interf db) =
      (interf db, [], Inl Drive_locked)"
    using assms(4,5) by (simp add: mount_finish_def get_drive_for_update_def fail_with_def)
  ultimately show ?thesis using assms(1,2) by (simp add: mount_drive_mounted)
qed

text \<open>The second set of checks depends on reading stored values: a session that hands out the
  attributes it loaded before the mount (its identity map) accepts every mount whose row still exists,
  whatever state, device or project the row has acquired.\<close>

theorem mount_drive_stale_reread_blind:
  assumes "get_drive i db = Some d" "mount_guards d = None"
    and "fst (mp_mount pr (the (d_filesystem_path d)) (usb_mount_point base i))"
    and "get_drive i (interf db) = Some s" "\<not> e_drive_locked e i" "e_db_ok e ''save''"
  shows "\<exists>db' calls. mount_drive e base pr interf (\<lambda>loaded _. loaded) i db =
     (db', calls, Inr (s\<lparr>d_mount_path := Some (usb_mount_point base i)\<rparr>))"
proof -
  obtain x where m: "mp_mount pr (the (d_filesystem_path d)) (usb_mount_point base i) = (True, x)"
    using assms(3) by (cases "mp_mount pr (the (d_filesystem_path d)) (usb_mount_point base i)") auto
  have "get_drive_for_update e i (interf db) = Row (Some s)"
    using assms(4,5) by (simp add: get_drive_for_update_Some)
  with mount_recheck_same [OF assms(2)] assms(4,6) have
    "\<exists>db'. mount_finish e pr (\<lambda>loaded _. loaded) i (usb_mount_point base i) d (interf db) =
       (db', [], Inr (s\<lparr>d_mount_path := Some (usb_mount_point base i)\<rparr>))"
    by (simp add: mount_finish_def mount_commit_def refreshed_def get_set_drive Let_def)
  with mount_drive_mounted [OF assms(1,2) m] show ?thesis by blast
qed

section \<open>Prepare-eject\<close>

lemma eject_write_id [simp]: "d_id (eject_write l d) = d_id d"
  by (simp add: eject_write_def)

lemma eject_write_project [simp]: "d_current_project_id (eject_write l d) = d_current_project_id d"
  by (simp add: eject_write_def)

lemma eject_prechecks_Inr:
  assumes "eject_prechecks e c i d db = Inr db1"
  shows "blocking_job i db = None" "incomplete_file_count i db = 0 \<or> c"
    "\<exists>ls. db1 = db\<lparr>audits := audits db @ ls\<rparr>"
  using assms unfolding eject_prechecks_def
  by (auto simp: Let_def same_audits intro: audit_eject_incomplete.appends split: option.splits if_splits)

lemma eject_prechecks_Inl:
  assumes "eject_prechecks e c i d db = Inl (db1, err)"
  shows "\<exists>ls. db1 = db\<lparr>audits := audits db @ ls\<rparr>"
  using assms unfolding eject_prechecks_def
  by (auto simp: Let_def same_audits intro: audit_eject_active_job.appends audit_eject_confirm_required.appends
      split: option.splits if_splits)

lemma eject_failure_db: "eject_failure e i d0 d res db = (db', calls, r) \<Longrightarrow> drives db' = drives db \<and> (\<exists>err. r = Inl err)"
  by (auto simp: eject_failure_def Let_def fail_with_db split: option.splits)

lemma eject_finish_Inr:
  assumes "eject_finish e reread i initial res db = (db', calls, Inr d')"
  obtains s where "get_drive i db = Some s" "\<not> e_drive_locked e i"
    "d_current_state (reread initial s) = d_current_state initial"
    "d_filesystem_path (reread initial s) = d_filesystem_path initial" "ej_success res"
    "d' = eject_write (reread initial s) s" "get_drive i db' = Some d'"
    "\<And>k. k \<noteq> i \<Longrightarrow> get_drive k db' = get_drive k db"
proof -
  from assms obtain s where s: "get_drive i db = Some s" "\<not> e_drive_locked e i"
    "d_current_state (reread initial s) = d_current_state initial"
    "d_filesystem_path (reread initial s) = d_filesystem_path initial" "ej_success res"
    "eject_success e i initial (reread initial s) res db = (db', calls, Inr d')"
    unfolding eject_finish_def Let_def
    by (auto simp: fail_with_db get_drive_for_update_Some dest: eject_failure_db
        split: locked.splits option.splits if_splits)
  from s(1,6) have "d' = eject_write (reread initial s) s" "get_drive i db' = Some d'"
    "\<And>k. k \<noteq> i \<Longrightarrow> get_drive k db' = get_drive k db"
    by (auto simp: eject_success_def Let_def fail_with_db refreshed_def get_set_drive split: if_splits)
  with s that show ?thesis by blast
qed


text \<open>A drive with a started, unfinished job is never ejected: the host is not asked, no drive changes,
  and the caller gets 409.\<close>

theorem prepare_eject_blocked_by_job:
  assumes "get_drive i db = Some d" "eject_state_guard d = None"
    and "(a, j) \<in> set (unreleased_jobs i db)" "j_status j \<in> set prepare_eject_blocking"
  shows "\<exists>db' k. prepare_eject e provider interf reread confirm i db = (db', [], Inl (Eject_active_job k)) \<and>
     drive_error_status (Eject_active_job k) = 409 \<and> drives db' = drives db"
proof -
  have "filter (\<lambda>(a, j). j_status j \<in> set prepare_eject_blocking) (unreleased_jobs i db) \<noteq> []"
    using assms(3,4) by (auto simp: filter_empty_conv)
  then obtain b where b: "blocking_job i db = Some b" by (auto simp: blocking_job_def last_by_def)
  have "prepare_eject e provider interf reread confirm i db =
      (audit_eject_active_job e i d b db, [], Inl (Eject_active_job (j_id b)))"
    using assms(1,2) b by (simp add: prepare_eject_def eject_prechecks_def fail_with_def)
  then show ?thesis by simp
qed

section \<open>Formatting\<close>

lemma format_ids [simp]:
  "d_id (format_requested e d) = d_id d" "d_id (format_restored o' d) = d_id d"
  "d_id (format_failed e m d) = d_id d" "d_id (formatted e t d) = d_id d"
  by (simp_all add: format_requested_def format_restored_def format_failed_def formatted_def)

lemma format_projects [simp]:
  "d_current_project_id (format_requested e d) = d_current_project_id d"
  "d_current_project_id (format_restored o' d) = d_current_project_id d"
  "d_current_project_id (format_failed e m d) = d_current_project_id d"
  "d_current_project_id (formatted e t d) = None"
  by (simp_all add: format_requested_def format_restored_def format_failed_def formatted_def)

lemma format_task_refusal_None:
  assumes "format_task_refusal fm d = None"
  shows "d_current_state d = AVAILABLE" "truthy (d_filesystem_path d)"
    "validate_device_path (the (d_filesystem_path d))" "\<not> truthy (d_mount_path d)"
    "\<not> fm_is_mounted fm (the (d_filesystem_path d))"
  using assms by (auto simp: format_task_refusal_def split: if_splits)

text \<open>The possible outcomes of the format task on its drive.\<close>

lemma complete_drive_format_cases:
  assumes "complete_drive_format e fm i t db = (db', calls, ok)"
  obtains (idle) "drives db' = drives db" "calls = []"
  | (refused) d m where "get_drive i db = Some d" "drives db' = drives (set_drive i (format_failed e m) db)" "calls = []"
  | (failed) d where "get_drive i db = Some d" "format_pending d" "format_task_refusal fm d = None"
      "calls = [OS_format (the (d_filesystem_path d)) t]" "drives db' = drives db"
  | (failed_saved) d m where "get_drive i db = Some d" "format_pending d" "format_task_refusal fm d = None"
      "calls = [OS_format (the (d_filesystem_path d)) t]"
      "drives db' = drives (set_drive i (format_failed e m) db)"
  | (done_) d where "get_drive i db = Some d" "format_pending d" "format_task_refusal fm d = None"
      "calls = [OS_format (the (d_filesystem_path d)) t]"
      "fm_format fm (the (d_filesystem_path d)) t = Format_ok"
      "drives db' = drives (set_drive i (formatted e t) db)"
proof (cases "get_drive_for_update e i db")
  case Lock_conflict
  with assms idle show ?thesis by (simp add: complete_drive_format_def)
next
  case (Row x)
  show ?thesis
  proof (cases x)
    case None
    with Row assms idle show ?thesis by (simp add: complete_drive_format_def)
  next
    case (Some d)
    with Row have g: "get_drive i db = Some d" by (simp add: get_drive_for_update_Some)
    note a = assms [unfolded complete_drive_format_def, simplified Row Some, simplified]
    show ?thesis
    proof (cases "format_pending d")
      case False
      with a idle show ?thesis by simp
    next
      case True
      show ?thesis
      proof (cases "format_task_refusal fm d")
        case (Some m)
        with a True g idle refused show ?thesis
          by (auto simp: set_drive_format_failure_def split: if_splits)
      next
        case None
        with a True g failed failed_saved done_ show ?thesis
          by (auto simp: set_drive_format_failure_def Let_def split: if_splits format_outcome.splits option.splits)
      qed
    qed
  qed
qed

lemma run_drive_format_task_db:
  assumes "run_drive_format_task e fm i t db = (db', calls)"
    and "complete_drive_format e fm i t db = (db1, c, ok)"
  shows "calls = c" "drives db' = drives db1 \<or> (\<exists>m. drives db' = drives (set_drive i (format_failed e m) db1))"
  using assms unfolding run_drive_format_task_def
  by (auto simp: set_drive_format_failure_def Let_def split: if_splits locked.splits option.splits)

lemma get_drive_cong: "drives db = drives db' \<Longrightarrow> get_drive i db = get_drive i db'"
  by (simp add: get_drive_def)

lemma get_drive_format_failed:
  "drives db' = drives db1 \<or> (\<exists>m. drives db' = drives (set_drive i (format_failed e m) db1)) \<Longrightarrow>
   get_drive k db1 = Some x \<Longrightarrow>
   \<exists>y. get_drive k db' = Some y \<and> (k \<noteq> i \<longrightarrow> y = x) \<and> d_current_project_id y = d_current_project_id x"
  by (auto dest!: get_drive_cong [of _ _ k] simp: get_set_drive)

text \<open>C9. The format task touches a device only when it is safe: the drive is marked pending, available,
  not mounted according to the database nor to the host, and its path is a valid device path. It is
  the drive's own device, and no other is formatted.\<close>

theorem format_only_idle_drive:
  assumes "run_drive_format_task e fm i t db = (db', calls)" and "OS_format dev t' \<in> set calls"
  shows "t' = t \<and> (\<exists>d. get_drive i db = Some d \<and> format_pending d \<and> d_current_state d = AVAILABLE \<and>
     d_filesystem_path d = Some dev \<and> validate_device_path dev \<and>
     \<not> truthy (d_mount_path d) \<and> \<not> fm_is_mounted fm dev)"
proof -
  obtain db1 c ok where c: "complete_drive_format e fm i t db = (db1, c, ok)"
    by (cases "complete_drive_format e fm i t db")
  from run_drive_format_task_db(1) [OF assms(1) c] assms(2) have mem: "OS_format dev t' \<in> set c" by simp
  have safe: ?thesis if "get_drive i db = Some d" "format_pending d" "format_task_refusal fm d = None"
      "c = [OS_format (the (d_filesystem_path d)) t]" for d
    using format_task_refusal_None [OF that(3)] that mem by (cases "d_filesystem_path d") auto
  from c show ?thesis
    by (cases rule: complete_drive_format_cases) (use mem safe in auto)
qed

lemma format_binding:
  assumes "run_drive_format_task e fm i t db = (db', calls)" and "get_drive k db = Some d"
  shows "\<exists>d'. get_drive k db' = Some d' \<and> (k \<noteq> i \<longrightarrow> d' = d) \<and>
     (d_current_project_id d' = d_current_project_id d \<or>
      d_current_project_id d' = None \<and> format_pending d \<and>
        OS_format (the (d_filesystem_path d)) t \<in> set calls \<and>
        fm_format fm (the (d_filesystem_path d)) t = Format_ok)"
proof -
  obtain db1 c ok where c: "complete_drive_format e fm i t db = (db1, c, ok)"
    by (cases "complete_drive_format e fm i t db")
  note r = run_drive_format_task_db [OF assms(1) c]
  from c have "\<exists>x. get_drive k db1 = Some x \<and> (k \<noteq> i \<longrightarrow> x = d) \<and>
     (d_current_project_id x = d_current_project_id d \<or>
      d_current_project_id x = None \<and> format_pending d \<and> OS_format (the (d_filesystem_path d)) t \<in> set c \<and>
        fm_format fm (the (d_filesystem_path d)) t = Format_ok)"
  proof (cases rule: complete_drive_format_cases)
    case idle
    with assms(2) show ?thesis by (auto dest: get_drive_cong [of _ _ k])
  next
    case (refused d0 m)
    with assms(2) show ?thesis by (auto dest!: get_drive_cong [of _ _ k] simp: get_set_drive)
  next
    case (failed d0)
    with assms(2) show ?thesis by (auto dest: get_drive_cong [of _ _ k])
  next
    case (failed_saved d0 m)
    with assms(2) show ?thesis by (auto dest!: get_drive_cong [of _ _ k] simp: get_set_drive)
  next
    case (done_ d0)
    with assms(2) show ?thesis by (auto dest!: get_drive_cong [of _ _ k] simp: get_set_drive)
  qed
  then obtain x where x: "get_drive k db1 = Some x" "k \<noteq> i \<longrightarrow> x = d"
     "d_current_project_id x = d_current_project_id d \<or>
      d_current_project_id x = None \<and> format_pending d \<and> OS_format (the (d_filesystem_path d)) t \<in> set c \<and>
        fm_format fm (the (d_filesystem_path d)) t = Format_ok" by blast
  from get_drive_format_failed [OF r(2) x(1)] x r(1) show ?thesis by auto
qed

text \<open>Only a successful format clears a project binding: after the format task the drive still has its
  project, or it has none and the host has formatted its device without error; its new file-system type
  is then the requested one. Every other drive is untouched.\<close>

theorem format_clears_binding:
  assumes "run_drive_format_task e fm i t db = (db', calls)" and "get_drive k db = Some d"
  shows "\<exists>d'. get_drive k db' = Some d' \<and> (k \<noteq> i \<longrightarrow> d' = d) \<and>
     (d_current_project_id d' = d_current_project_id d \<or>
      d_current_project_id d' = None \<and> format_pending d \<and>
        OS_format (the (d_filesystem_path d)) t \<in> set calls \<and>
        fm_format fm (the (d_filesystem_path d)) t = Format_ok)"
  using assms by (rule format_binding)

text \<open>A format request never stays pending for ever: when the task finds its row unlocked and the
  database accepts its writes, the drive is no longer pending afterwards, whatever the formatter does
  (success, error or an unexpected exception).\<close>

theorem format_task_leaves_pending:
  assumes "run_drive_format_task e fm i t db = (db', calls)" and "get_drive i db = Some d"
    and "\<not> e_drive_locked e i" and "\<forall>site. e_db_ok e site"
  shows "\<exists>d'. get_drive i db' = Some d' \<and> \<not> format_pending d'"
proof -
  have row: "get_drive_for_update e i db = Row (Some d)" using assms by (simp add: get_drive_for_update_Some)
  have np: "\<not> format_pending (format_failed e m x)" "\<not> format_pending (formatted e t x)" for m x
    by (simp_all add: format_pending_def format_failed_def formatted_def)
  show ?thesis
    using assms row np unfolding run_drive_format_task_def complete_drive_format_def
    by (auto simp: set_drive_format_failure_def get_set_drive get_drive_for_update_def Let_def
        split: if_splits option.splits format_outcome.splits locked.splits)
qed

section \<open>Project isolation as a contract\<close>

text \<open>
  A step of the system leads from a database to a database and makes calls to the host. The contract:
  a drive that carries a project keeps it, unless the step formatted the drive's device.
\<close>

definition keeps_binding :: "int \<Rightarrow> db \<Rightarrow> drive_effect list \<Rightarrow> db \<Rightarrow> bool" where
  "keeps_binding i db calls db' \<longleftrightarrow>
     (\<forall>d q. get_drive i db = Some d \<and> d_current_project_id d = Some q \<and> q \<noteq> [] \<longrightarrow>
        (\<exists>d'. get_drive i db' = Some d' \<and>
           (d_current_project_id d' = Some q \<or>
            (\<exists>t. OS_format (the (d_filesystem_path d)) t \<in> set calls))))"

inductive run :: "(db \<Rightarrow> 'c list \<Rightarrow> db \<Rightarrow> bool) \<Rightarrow> db \<Rightarrow> 'c list \<Rightarrow> db \<Rightarrow> bool"
  for step where
  run_refl: "run step db [] db"
| run_step: "step db c db1 \<Longrightarrow> run step db1 cs db2 \<Longrightarrow> run step db (c @ cs) db2"

lemma keeps_bindingI_same: "drives db' = drives db \<Longrightarrow> keeps_binding i db calls db'"
  by (auto simp: keeps_binding_def dest: get_drive_cong [of _ _ i])

lemma keeps_bindingI_upd:
  assumes "drives db' = drives (set_drive k f db)" "\<And>d. d_id (f d) = d_id d"
    and "\<And>d. d_current_project_id (f d) = d_current_project_id d"
  shows "keeps_binding i db calls db'"
  using assms by (auto simp: keeps_binding_def get_set_drive dest!: get_drive_cong [of _ _ i])

locale isolating =
  fixes step :: "db \<Rightarrow> drive_effect list \<Rightarrow> db \<Rightarrow> bool"
  assumes keeps: "step db calls db' \<Longrightarrow> keeps_binding i db calls db'"
begin

lemma run_keeps:
  assumes "run step db calls db'"
  shows "get_drive i db = Some d \<Longrightarrow> d_current_project_id d = Some q \<Longrightarrow> q \<noteq> [] \<Longrightarrow>
    (\<exists>d'. get_drive i db' = Some d' \<and> d_current_project_id d' = Some q) \<or>
    (\<exists>db1 c db2 d1 t. step db1 c db2 \<and> get_drive i db1 = Some d1 \<and> d_current_project_id d1 = Some q \<and>
       OS_format (the (d_filesystem_path d1)) t \<in> set c \<and> set c \<subseteq> set calls)"
  using assms
proof (induction arbitrary: d rule: run.induct)
  case (run_refl db)
  then show ?case by blast
next
  case (run_step db c db1 cs db2)
  from keeps [OF run_step.hyps(1), of i] run_step.prems obtain d1 where
    d1: "get_drive i db1 = Some d1"
    "d_current_project_id d1 = Some q \<or> (\<exists>t. OS_format (the (d_filesystem_path d)) t \<in> set c)"
    unfolding keeps_binding_def by blast
  show ?case
  proof (cases "d_current_project_id d1 = Some q")
    case True
    from run_step.IH [OF d1(1) True run_step.prems(3)] show ?thesis by (metis le_supI2 set_append)
  next
    case False
    with d1 run_step show ?thesis by (metis Un_upper1 set_append)
  qed
qed

lemma no_format_keeps_project:
  assumes "run step db calls db'" and "get_drive i db = Some d" "d_current_project_id d = Some q" "q \<noteq> []"
    and "\<And>dev t. OS_format dev t \<notin> set calls"
  shows "\<exists>d'. get_drive i db' = Some d' \<and> d_current_project_id d' = Some q"
  using run_keeps [OF assms(1-4)] assms(5) by blast

end

section \<open>The drive service as a step relation\<close>

text \<open>
  Requests that give the database up while the host works take part with their second phase, from an
  arbitrary first-phase snapshot: this covers every interleaving with other requests.
\<close>

inductive drive_step :: "db \<Rightarrow> drive_effect list \<Rightarrow> db \<Rightarrow> bool" where
  step_initialize: "initialize_drive e i p db = (db', calls, r) \<Longrightarrow> drive_step db calls db'"
| step_mount: "mount_finish e pr reread i mp initial db = (db', calls, r) \<Longrightarrow> drive_step db calls db'"
| step_mount_failed: "mount_failed e drive mp err db = (db', x) \<Longrightarrow> drive_step db [] db'"
| step_eject_rejected: "eject_prechecks e confirm i drive db = Inl (db', err) \<Longrightarrow> drive_step db [] db'"
| step_eject_warned: "eject_prechecks e confirm i drive db = Inr db' \<Longrightarrow> drive_step db [] db'"
| step_eject: "eject_finish e reread i initial res db = (db', calls, r) \<Longrightarrow> drive_step db calls db'"
| step_request_format: "request_drive_format e fm schedule_ok i t db = (db', calls, r) \<Longrightarrow> drive_step db calls db'"
| step_format_task: "run_drive_format_task e fm i t db = (db', calls) \<Longrightarrow> drive_step db calls db'"
| step_restart: "normalize_unreleased_drive_states e db = (db', n) \<Longrightarrow> drive_step db [] db'"

lemma initialize_keeps_binding:
  assumes "initialize_drive e k p db = (db', calls, r)"
  shows "keeps_binding i db calls db'"
proof (cases r)
  case (Inl err)
  from initialize_drive_Inl(1) [OF assms [unfolded Inl]] show ?thesis
    by (auto intro: keeps_bindingI_same)
next
  case (Inr d')
  let ?p = "normalize_project_id p"
  from assms [unfolded Inr] obtain d where d: "get_drive k db = Some d" "?p \<noteq> []"
    "init_guards e k ?p d db = None" "db' = audit_drive_initialized e k ?p (set_drive k (init_update ?p) db)"
    by (rule initialize_drive_Inr)
  have "d_current_project_id (init_update ?p d) = Some ?p"
    using drive_project_validator_ok [of ?p] d(2) by (simp add: init_update_def)
  with init_guards_None(3) [OF d(3)] d(1,4) show ?thesis
    by (auto simp: keeps_binding_def get_set_drive)
qed

lemma mount_finish_drives:
  assumes "mount_finish e pr reread k mp initial db = (db', calls, r)"
  shows "drives db' = drives db \<or> drives db' = drives (set_drive k (\<lambda>d. d\<lparr>d_mount_path := Some mp\<rparr>) db)"
  using assms unfolding mount_finish_def mount_commit_def rollback_mount_def
  by (auto simp: fail_with_db Let_def split: locked.splits option.splits prod.splits if_splits)

lemma eject_finish_drives:
  assumes "eject_finish e reread k initial res db = (db', calls, r)"
  shows "drives db' = drives db \<or> (\<exists>l. drives db' = drives (set_drive k (eject_write l) db))"
  using assms unfolding eject_finish_def eject_success_def
  by (auto simp: fail_with_db Let_def dest: eject_failure_db split: locked.splits option.splits if_splits)

lemma upd_row_twice:
  "(\<And>r. key (f r) = key r) \<Longrightarrow> upd_row key i g (upd_row key i f rs) = upd_row key i (\<lambda>r. g (f r)) rs"
  by (simp add: upd_row_def)

lemma request_format_drives:
  assumes "request_drive_format e fm s k t db = (db', calls, r)"
  shows "drives db' = drives db \<or> drives db' = drives (set_drive k (format_requested e) db) \<or>
    (\<exists>d. drives db' = drives (set_drive k (\<lambda>x. format_restored d (format_requested e x)) db))"
  using assms unfolding request_drive_format_def
  by (auto simp: fail_with_db Let_def frame_simps upd_row_twice
      split: locked.splits option.splits if_splits)

lemma normalize_keeps_binding:
  assumes "normalize_unreleased_drive_states e db = (db', n)"
  shows "keeps_binding i db calls db'"
proof -
  let ?f = "\<lambda>d. if format_pending d then format_failed e msg_format_interrupted d else d"
  have "get_row d_id i (map ?f rs) = map_option ?f (get_row d_id i rs)" for rs
    by (induction rs) (auto simp: row_simps)
  with assms show ?thesis
    by (auto simp: normalize_unreleased_drive_states_def keeps_binding_def get_drive_def)
qed

interpretation drive_ops: isolating drive_step
proof
  fix db calls db' i
  assume "drive_step db calls db'"
  then show "keeps_binding i db calls db'"
  proof cases
    case step_initialize
    then show ?thesis by (rule initialize_keeps_binding)
  next
    case (step_mount e pr reread k mp initial r)
    from mount_finish_drives [OF step_mount] show ?thesis
      by (auto intro: keeps_bindingI_same keeps_bindingI_upd)
  next
    case step_mount_failed
    then show ?thesis
      by (auto simp: mount_failed_def Let_def intro!: keeps_bindingI_same split: if_splits prod.splits)
  next
    case step_eject_rejected
    with eject_prechecks_Inl show ?thesis by (fastforce intro: keeps_bindingI_same)
  next
    case step_eject_warned
    with eject_prechecks_Inr(3) show ?thesis by (fastforce intro: keeps_bindingI_same)
  next
    case (step_eject e reread k initial res r)
    from eject_finish_drives [OF step_eject] show ?thesis
      by (auto intro: keeps_bindingI_same keeps_bindingI_upd)
  next
    case (step_request_format e fm s k t r)
    from request_format_drives [OF step_request_format] show ?thesis
      by (auto intro: keeps_bindingI_same keeps_bindingI_upd)
  next
    case (step_format_task e fm k t)
    from format_binding [OF step_format_task] show ?thesis
      unfolding keeps_binding_def by fastforce
  next
    case step_restart
    then show ?thesis by (simp add: normalize_keeps_binding)
  qed
qed

section \<open>Concrete instances\<close>

definition example_drive :: "int \<Rightarrow> drive_state \<Rightarrow> string option \<Rightarrow> string option \<Rightarrow> usb_drive" where
  "example_drive i st project mount =
     \<lparr>d_id = i, d_port_id = Some 1, d_device_identifier = ''usb|serial=A'', d_manufacturer = None,
      d_product_name = None, d_filesystem_path = Some ''/dev/sdb1'', d_capacity_bytes = None,
      d_available_bytes = None, d_encryption_status = None, d_filesystem_type = Some ''ext4'',
      d_current_state = st, d_current_project_id = project, d_mount_path = mount,
      d_throughput_write_mbps = None, d_format_status = None, d_format_failure_message = None,
      d_format_started_at = None, d_format_finished_at = None\<rparr>"

definition example_share :: network_share where
  "example_share =
     \<lparr>m_id = 1, m_type = NFS, m_remote_path = ''srv:/x'', m_project_id = ''P1'', m_nfs_client_version = None,
      m_local_mount_point = ''/nfs/p1'', m_encrypted_username = None, m_encrypted_password = None,
      m_encrypted_credentials_file = None, m_status = MOUNTED, m_last_checked_at = None, m_throughput_read_mbps = None\<rparr>"

definition example_db :: "usb_drive \<Rightarrow> db" where
  "example_db d = empty_db\<lparr>drives := [d], shares := [example_share]\<rparr>"

definition example_mount_provider :: mount_provider where
  "example_mount_provider =
     \<lparr>mp_mount = (\<lambda>_ _. (True, None)), mp_has_unmount = True, mp_unmount = (\<lambda>_. True)\<rparr>"

definition example_formatter :: formatter where
  "example_formatter =
     \<lparr>fm_is_mounted = (\<lambda>_. False), fm_format = (\<lambda>_ _. Format_ok), fm_detect = (\<lambda>_. Some ''ext4''),
      fm_free_bytes = (\<lambda>_ _. None)\<rparr>"

lemmas example_defs = example_drive_def example_share_def example_db_def empty_db_def example_env_def
  example_mount_provider_def example_formatter_def get_drive_def row_simps

lemma example_names:
  "normalize_project_id ''p1'' = ''P1''" "normalize_project_id ''P1'' = ''P1''"
  "normalize_project_id ''p2'' = ''P2''" "normalize_project_id ''P2'' = ''P2''"
  "validate_device_path ''/dev/sdb1''" "usb_mount_point ''/mnt'' 7 = ''/mnt/7''"
  by code_simp+

lemma result_Inr: "\<not> isl (snd (snd x)) \<Longrightarrow> \<exists>db c y. x = (db, c, Inr y)"
  by (cases x, cases "snd (snd x)") auto

lemma result_Inl: "isl (snd (snd x)) \<Longrightarrow> \<exists>db c y. x = (db, c, Inl y)"
  by (cases x, cases "snd (snd x)") auto

theorem initialize_drive_success_witness:
  "\<exists>db' d'. initialize_drive example_env 7 ''p1'' (example_db (example_drive 7 AVAILABLE None (Some ''/mnt/7''))) =
       (db', [], Inr d') \<and> d_current_state d' = IN_USE \<and> d_current_project_id d' = Some ''P1'' \<and>
     get_drive 7 db' = Some d'"
proof -
  let ?r = "initialize_drive example_env 7 ''p1'' (example_db (example_drive 7 AVAILABLE None (Some ''/mnt/7'')))"
  have "\<not> isl (snd (snd ?r))" by code_simp
  then obtain db' c d' where r: "?r = (db', c, Inr d')" using result_Inr by blast
  then have "c = []" by (rule initialize_drive_Inr)
  with initialize_drive_success [OF r] r show ?thesis by (auto simp: example_names)
qed

theorem initialize_drive_rejected_witness:
  "\<exists>db' ls. initialize_drive example_env 7 ''p1'' empty_db = (db', [], Inl Drive_not_found) \<and>
     db' = empty_db\<lparr>audits := audits empty_db @ ls\<rparr>"
proof -
  have r: "initialize_drive example_env 7 ''p1'' empty_db = (empty_db, [], Inl Drive_not_found)"
    by (simp add: initialize_drive_def example_names get_drive_for_update_def fail_with_def example_defs)
  from initialize_drive_rejected [OF r] r show ?thesis by blast
qed

theorem initialize_drive_isolation_witness:
  "\<exists>db' err l. initialize_drive example_env 7 ''p1'' (example_db (example_drive 7 IN_USE (Some ''P2'') None)) =
       (db', [], Inl err) \<and> drive_error_status err = 403 \<and> audits db' = [l] \<and>
     l_action l = ''PROJECT_ISOLATION_VIOLATION''"
proof -
  let ?d = "example_drive 7 IN_USE (Some ''P2'') None"
  have "get_drive 7 (example_db ?d) = Some ?d" "\<not> e_drive_locked example_env 7" "\<not> format_pending ?d"
    "d_current_project_id ?d = Some ''P2''" "''P2'' \<noteq> []" "''P2'' \<noteq> normalize_project_id ''p1''"
    "normalize_project_id ''p1'' \<noteq> []" "d_current_state ?d \<in> {AVAILABLE, IN_USE}"
    "\<forall>a. e_db_ok example_env a"
    by (simp_all add: example_names format_pending_def example_defs)
  from initialize_drive_isolation [OF this] show ?thesis
    by (auto simp: example_defs)
qed

lemma example_mountable:
  "get_drive 7 (example_db (example_drive 7 AVAILABLE None None)) = Some (example_drive 7 AVAILABLE None None)"
  "mount_guards (example_drive 7 AVAILABLE None None) = None"
  "fst (mp_mount example_mount_provider (the (d_filesystem_path (example_drive 7 AVAILABLE None None)))
     (usb_mount_point ''/mnt'' 7))"
  by (simp_all add: mount_guards_def format_pending_def unrecognized_fs_def example_names example_defs)


theorem mount_drive_compensates_witness:
  "\<exists>err. mount_drive (example_env\<lparr>e_db_ok := \<lambda>_. False\<rparr>) ''/mnt'' example_mount_provider (\<lambda>db. db)
       (\<lambda>_ stored. stored) 7 (example_db (example_drive 7 AVAILABLE None None)) =
     (example_db (example_drive 7 AVAILABLE None None),
      [OS_mount ''/dev/sdb1'' ''/mnt/7'', OS_unmount ''/mnt/7''], Inl err)"
proof -
  let ?e = "example_env\<lparr>e_db_ok := \<lambda>_. False\<rparr>"
  let ?r = "mount_drive ?e ''/mnt'' example_mount_provider (\<lambda>db. db) (\<lambda>_ stored. stored) 7
       (example_db (example_drive 7 AVAILABLE None None))"
  have "isl (snd (snd ?r))" by code_simp
  then obtain db' c err where r: "?r = (db', c, Inl err)" using result_Inl by blast
  have "mp_has_unmount example_mount_provider" "\<not> e_drive_locked ?e 7" by (simp_all add: example_defs)
  moreover have "d_filesystem_path (example_drive 7 AVAILABLE None None) = Some ''/dev/sdb1''"
    by (simp add: example_drive_def)
  ultimately show ?thesis
    using mount_drive_compensates [OF r example_mountable] r by (auto simp: example_names)
qed

theorem mount_drive_lock_conflict_leaks_witness:
  "mount_drive (example_env\<lparr>e_drive_locked := \<lambda>_. True\<rparr>) ''/mnt'' example_mount_provider (\<lambda>db. db)
       (\<lambda>_ stored. stored) 7 (example_db (example_drive 7 AVAILABLE None None)) =
     (example_db (example_drive 7 AVAILABLE None None), [OS_mount ''/dev/sdb1'' ''/mnt/7''], Inl Drive_locked) \<and>
   drive_error_status Drive_locked = 409"
  using mount_drive_lock_conflict_leaks [OF example_mountable, of "\<lambda>db. db" _
      "example_env\<lparr>e_drive_locked := \<lambda>_. True\<rparr>" "\<lambda>_ stored. stored"] example_mountable(1)
  by (simp add: example_names) (simp add: example_defs)

theorem mount_drive_stale_reread_blind_witness:
  "\<exists>db' calls. mount_drive example_env ''/mnt'' example_mount_provider
       (\<lambda>_. example_db (example_drive 7 IN_USE (Some ''P2'') None)) (\<lambda>loaded _. loaded) 7
       (example_db (example_drive 7 AVAILABLE None None)) =
     (db', calls, Inr ((example_drive 7 IN_USE (Some ''P2'') None)\<lparr>d_mount_path := Some (usb_mount_point ''/mnt'' 7)\<rparr>))"
  by (rule mount_drive_stale_reread_blind [OF example_mountable]) (simp_all add: example_defs)

definition example_job :: "int \<Rightarrow> job_status \<Rightarrow> export_job" where
  "example_job i st =
     \<lparr>j_id = i, j_project_id = ''P1'', j_evidence_number = ''EV1'', j_source_path = ''/nfs/p1/a'',
      j_target_mount_path = Some ''/mnt/7'', j_status = st, j_total_bytes = 0, j_copied_bytes = 0,
      j_file_count = 0, j_thread_count = None, j_copy_chunk_size_bytes = None,
      j_copy_progress_flush_bytes = None, j_copy_file_fsync_enabled = None,
      j_auto_apply_recommended_profile = False, j_max_file_retries = 3, j_retry_delay_seconds = 1,
      j_active_duration_seconds = 0, j_started_at = None, j_copy_started_at = None, j_completed_at = None,
      j_created_by = None, j_started_by = None, j_client_ip = None, j_callback_url = None,
      j_failure_reason = None,
      j_analysis = \<lparr>sa_status = NOT_ANALYZED, sa_last_analyzed_at = None, sa_failure_reason = None,
        sa_file_count = None, sa_total_bytes = None, sa_share_read_mbps = None, sa_drive_write_mbps = None,
        sa_estimated_duration_seconds = None, sa_cache_present = False, sa_revision = 0, sa_entries = None\<rparr>,
      j_created_at = 1\<rparr>"

definition example_assignment :: "int \<Rightarrow> int \<Rightarrow> int \<Rightarrow> drive_assignment" where
  "example_assignment i d j =
     \<lparr>a_id = i, a_drive_id = d, a_job_id = j, a_file_count = 0, a_copied_bytes = 0, a_assigned_at = 1,
      a_activated_at = Some 1, a_released_at = None\<rparr>"

definition example_job_db :: "usb_drive \<Rightarrow> job_status \<Rightarrow> db" where
  "example_job_db d st =
     (example_db d)\<lparr>jobs := [example_job 3 st], assignments := [example_assignment 1 7 3]\<rparr>"

definition example_eject :: "string option \<Rightarrow> eject_result" where
  "example_eject _ = \<lparr>ej_success = True, ej_flush_ok = True, ej_unmount_ok = True, ej_flush_error = None,
     ej_unmount_error = None\<rparr>"


theorem prepare_eject_blocked_by_job_witness:
  "\<exists>db' k. prepare_eject example_env example_eject (\<lambda>db. db) (\<lambda>_ stored. stored) True 7
       (example_job_db (example_drive 7 IN_USE (Some ''P1'') (Some ''/mnt/7'')) RUNNING) =
     (db', [], Inl (Eject_active_job k)) \<and>
     drives db' = [example_drive 7 IN_USE (Some ''P1'') (Some ''/mnt/7'')]"
proof -
  let ?d = "example_drive 7 IN_USE (Some ''P1'') (Some ''/mnt/7'')"
  have "get_drive 7 (example_job_db ?d RUNNING) = Some ?d" "eject_state_guard ?d = None"
    "(example_assignment 1 7 3, example_job 3 RUNNING) \<in> set (unreleased_jobs 7 (example_job_db ?d RUNNING))"
    "j_status (example_job 3 RUNNING) \<in> set prepare_eject_blocking"
    by (simp_all add: example_job_db_def unreleased_jobs_def eject_state_guard_def format_pending_def
        example_assignment_def example_job_def prepare_eject_blocking_def example_defs)
  from prepare_eject_blocked_by_job [OF this, of example_env example_eject "\<lambda>db. db" "\<lambda>_ stored. stored" True]
  show ?thesis by (auto simp: example_job_db_def example_db_def)
qed

definition pending_drive :: usb_drive where
  "pending_drive = (example_drive 7 AVAILABLE (Some ''P1'') None)\<lparr>d_format_status := Some FMT_PENDING\<rparr>"

lemma example_format:
  "\<exists>db'. run_drive_format_task example_env example_formatter 7 ''ext4'' (example_db pending_drive) =
     (db', [OS_format ''/dev/sdb1'' ''ext4''])"
proof -
  have "snd (run_drive_format_task example_env example_formatter 7 ''ext4'' (example_db pending_drive)) =
     [OS_format ''/dev/sdb1'' ''ext4'']" by code_simp
  then show ?thesis by (metis prod.collapse)
qed

lemma example_pending: "get_drive 7 (example_db pending_drive) = Some pending_drive"
  by (simp add: pending_drive_def example_defs)

theorem format_only_idle_drive_witness:
  "\<exists>d. get_drive 7 (example_db pending_drive) = Some d \<and> format_pending d \<and>
     d_filesystem_path d = Some ''/dev/sdb1'' \<and> validate_device_path ''/dev/sdb1''"
proof -
  obtain db' where "run_drive_format_task example_env example_formatter 7 ''ext4'' (example_db pending_drive) =
     (db', [OS_format ''/dev/sdb1'' ''ext4''])" using example_format by blast
  from format_only_idle_drive [OF this, of "''/dev/sdb1''" "''ext4''"] show ?thesis by auto
qed

theorem format_clears_binding_witness:
  "\<exists>db' d'. run_drive_format_task example_env example_formatter 7 ''ext4'' (example_db pending_drive) =
       (db', [OS_format ''/dev/sdb1'' ''ext4'']) \<and> get_drive 7 db' = Some d' \<and>
     (d_current_project_id d' = Some ''P1'' \<or> d_current_project_id d' = None)"
proof -
  obtain db' where r: "run_drive_format_task example_env example_formatter 7 ''ext4'' (example_db pending_drive) =
     (db', [OS_format ''/dev/sdb1'' ''ext4''])" using example_format by blast
  have "d_current_project_id pending_drive = Some ''P1''" by (simp add: pending_drive_def example_drive_def)
  with format_clears_binding [OF r example_pending] r show ?thesis by auto
qed

theorem format_task_leaves_pending_witness:
  "\<exists>db' calls d'. run_drive_format_task example_env example_formatter 7 ''ext4'' (example_db pending_drive) =
       (db', calls) \<and> get_drive 7 db' = Some d' \<and> \<not> format_pending d'"
proof -
  obtain db' where r: "run_drive_format_task example_env example_formatter 7 ''ext4'' (example_db pending_drive) =
     (db', [OS_format ''/dev/sdb1'' ''ext4''])" using example_format by blast
  from format_task_leaves_pending [OF r example_pending] r show ?thesis by (auto simp: example_env_def)
qed

end
