(* ===== verification/Job_Repository.thy ===== *)
theory Job_Repository
  imports Drive_Safety
begin

text \<open>
  \<open>app/repositories/job_repository.py\<close>: the queries and updates of jobs, files, analysis
  entries, assignments and manifests, and \<open>app/services/copy_tuning.py\<close>. Conditions on
  nullable columns are evaluated in SQL's three-valued logic. A write returns \<open>None\<close> when its
  commit fails.
\<close>

section \<open>Settings and copy tuning\<close>

record settings =
  st_usb_mount_base_path :: string
  st_copy_default_thread_count :: int
  st_copy_chunk_size_bytes :: int
  st_copy_progress_flush_bytes :: int
  st_copy_file_fsync_enabled :: bool

record resolved_copy_tuning =
  thread_count_override :: "int option"
  effective_thread_count :: int
  copy_chunk_size_bytes_override :: "int option"
  effective_copy_chunk_size_bytes :: int
  copy_progress_flush_bytes_override :: "int option"
  effective_copy_progress_flush_bytes :: int
  copy_file_fsync_enabled_override :: "bool option"
  effective_copy_file_fsync_enabled :: bool

text \<open>\<open>override or int(setting)\<close>: zero counts as absent.\<close>

definition int_or :: "int option \<Rightarrow> int \<Rightarrow> int" where
  "int_or v d = (case v of None \<Rightarrow> d | Some i \<Rightarrow> if i = 0 then d else i)"

definition normalize_progress_flush_threshold_bytes :: "int \<Rightarrow> int \<Rightarrow> int" where
  "normalize_progress_flush_threshold_bytes chunk_size flush = max 1 (max chunk_size flush)"

definition resolve_job_copy_tuning :: "settings \<Rightarrow> export_job \<Rightarrow> resolved_copy_tuning" where
  "resolve_job_copy_tuning st j =
     (let chunk = int_or (j_copy_chunk_size_bytes j) (st_copy_chunk_size_bytes st);
          configured = int_or (j_copy_progress_flush_bytes j) (st_copy_progress_flush_bytes st)
      in \<lparr>thread_count_override = j_thread_count j,
          effective_thread_count = int_or (j_thread_count j) (st_copy_default_thread_count st),
          copy_chunk_size_bytes_override = j_copy_chunk_size_bytes j,
          effective_copy_chunk_size_bytes = chunk,
          copy_progress_flush_bytes_override = j_copy_progress_flush_bytes j,
          effective_copy_progress_flush_bytes = normalize_progress_flush_threshold_bytes chunk configured,
          copy_file_fsync_enabled_override = j_copy_file_fsync_enabled j,
          effective_copy_file_fsync_enabled = (case j_copy_file_fsync_enabled j of
             None \<Rightarrow> st_copy_file_fsync_enabled st | Some b \<Rightarrow> b)\<rparr>)"

definition resolve_progress_flush_threshold_bytes :: "settings \<Rightarrow> export_job \<Rightarrow> int" where
  "resolve_progress_flush_threshold_bytes st j =
     effective_copy_progress_flush_bytes (resolve_job_copy_tuning st j)"

section \<open>Three-valued conditions and paging\<close>

definition sql_eq :: "'a option \<Rightarrow> 'a \<Rightarrow> bool option" where
  "sql_eq v w = (case v of None \<Rightarrow> None | Some x \<Rightarrow> Some (x = w))"

definition sql_not :: "bool option \<Rightarrow> bool option" where
  "sql_not v = map_option Not v"

definition sql_and :: "bool option \<Rightarrow> bool option \<Rightarrow> bool option" where
  "sql_and a b = (if a = Some False \<or> b = Some False then Some False
                  else if a = Some True \<and> b = Some True then Some True else None)"

definition sql_or :: "bool option \<Rightarrow> bool option \<Rightarrow> bool option" where
  "sql_or a b = (if a = Some True \<or> b = Some True then Some True
                 else if a = Some False \<and> b = Some False then Some False else None)"

definition paged :: "nat option \<Rightarrow> nat \<Rightarrow> 'a list \<Rightarrow> 'a list" where
  "paged limit offset xs =
     (let ys = drop offset xs in case limit of None \<Rightarrow> ys | Some n \<Rightarrow> take n ys)"

section \<open>Jobs\<close>

definition get_job :: "int \<Rightarrow> db \<Rightarrow> export_job option" where
  "get_job i db = get_row j_id i (jobs db)"

definition get_job_for_update :: "env \<Rightarrow> int \<Rightarrow> db \<Rightarrow> export_job locked" where
  "get_job_for_update e i db =
     (case get_job i db of None \<Rightarrow> Row None
      | Some j \<Rightarrow> if e_job_locked e i then Lock_conflict else Row (Some j))"

definition set_job :: "int \<Rightarrow> (export_job \<Rightarrow> export_job) \<Rightarrow> db \<Rightarrow> db" where
  "set_job i f db = db\<lparr>jobs := upd_row j_id i f (jobs db)\<rparr>"

definition count_active :: "db \<Rightarrow> nat" where
  "count_active db = length (filter (\<lambda>j. j_status j \<in> {PREPARING, RUNNING}) (jobs db))"

text \<open>\<open>ORDER BY created_at DESC, id DESC\<close>.\<close>

definition newest_first :: "export_job list \<Rightarrow> export_job list" where
  "newest_first js = rev (sort_key (\<lambda>j. (j_created_at j, j_id j)) js)"

definition assigned_to_drive :: "int \<Rightarrow> db \<Rightarrow> export_job \<Rightarrow> bool" where
  "assigned_to_drive drive_id db j \<longleftrightarrow>
     list_ex (\<lambda>a. a_job_id a = j_id j \<and> a_drive_id a = drive_id \<and> a_released_at a = None) (assignments db)"

definition recent_all :: "int option \<Rightarrow> job_status list \<Rightarrow> bool \<Rightarrow> db \<Rightarrow> export_job list" where
  "recent_all drive_id statuses include_archived db =
     (let scoped = (case drive_id of None \<Rightarrow> jobs db | Some d \<Rightarrow> filter (assigned_to_drive d db) (jobs db));
          effective = (if include_archived then statuses else filter (\<lambda>s. s \<noteq> ARCHIVED) statuses)
      in if statuses \<noteq> [] \<and> effective = [] then []
         else let selected = (if effective \<noteq> [] then filter (\<lambda>j. j_status j \<in> set effective) scoped
                              else if \<not> include_archived then filter (\<lambda>j. j_status j \<noteq> ARCHIVED) scoped
                              else scoped)
              in newest_first selected)"

definition list_recent ::
  "nat \<Rightarrow> nat \<Rightarrow> int option \<Rightarrow> job_status list \<Rightarrow> bool \<Rightarrow> db \<Rightarrow> export_job list" where
  "list_recent limit offset drive_id statuses include_archived db =
     paged (Some limit) offset (recent_all drive_id statuses include_archived db)"

definition list_assigned_jobs_for_drive :: "int \<Rightarrow> job_status list \<Rightarrow> db \<Rightarrow> export_job list" where
  "list_assigned_jobs_for_drive drive_id statuses db =
     newest_first (filter (\<lambda>j. assigned_to_drive drive_id db j \<and> j_status j \<in> set statuses) (jobs db))"

definition get_latest_manifest_created_at :: "int \<Rightarrow> db \<Rightarrow> int option" where
  "get_latest_manifest_created_at job_id db =
     map_option mf_created_at
       (last_by (\<lambda>m. (mf_created_at m, mf_id m)) (filter (\<lambda>m. mf_job_id m = job_id) (manifests db)))"

section \<open>Files\<close>

definition target_full_message :: string where
  "target_full_message = ''Target storage is full''"

definition files_of :: "int \<Rightarrow> db \<Rightarrow> export_file list" where
  "files_of job_id db = filter (\<lambda>f. f_job_id f = job_id) (files db)"

definition list_by_job :: "int \<Rightarrow> file_status option \<Rightarrow> nat option \<Rightarrow> nat \<Rightarrow> db \<Rightarrow> export_file list" where
  "list_by_job job_id status limit offset db =
     (let fs = sort_key f_id (files_of job_id db)
      in paged limit offset (case status of None \<Rightarrow> fs | Some s \<Rightarrow> filter (\<lambda>f. f_status f = s) fs))"

definition list_by_job_after_id :: "int \<Rightarrow> int option \<Rightarrow> nat option \<Rightarrow> db \<Rightarrow> export_file list" where
  "list_by_job_after_id job_id after_id limit db =
     (let fs = sort_key f_id (files_of job_id db)
      in paged limit 0 (case after_id of None \<Rightarrow> fs | Some i \<Rightarrow> filter (\<lambda>f. i < f_id f) fs))"

definition list_pending_by_job_after_id :: "int \<Rightarrow> int option \<Rightarrow> nat option \<Rightarrow> db \<Rightarrow> export_file list" where
  "list_pending_by_job_after_id job_id after_id limit db =
     (let fs = sort_key f_id (filter (\<lambda>f. f_status f = FPENDING) (files_of job_id db))
      in paged limit 0 (case after_id of None \<Rightarrow> fs | Some i \<Rightarrow> filter (\<lambda>f. i < f_id f) fs))"

definition count_status :: "file_status \<Rightarrow> int \<Rightarrow> db \<Rightarrow> nat" where
  "count_status s job_id db = length (filter (\<lambda>f. f_status f = s) (files_of job_id db))"

definition count_by_job :: "int \<Rightarrow> file_status option \<Rightarrow> db \<Rightarrow> nat" where
  "count_by_job job_id status db =
     (case status of None \<Rightarrow> length (files_of job_id db) | Some s \<Rightarrow> count_status s job_id db)"

definition list_done_by_job :: "int \<Rightarrow> db \<Rightarrow> export_file list" where
  "list_done_by_job job_id db = filter (\<lambda>f. f_status f = DONE) (files_of job_id db)"

definition list_incomplete_by_job :: "int \<Rightarrow> db \<Rightarrow> export_file list" where
  "list_incomplete_by_job job_id db = filter (\<lambda>f. f_status f \<noteq> DONE) (files_of job_id db)"

definition should_attempt_target_full_continuation :: "int \<Rightarrow> db \<Rightarrow> bool" where
  "should_attempt_target_full_continuation job_id db =
     (let incomplete = list_incomplete_by_job job_id db;
          target_full = (\<lambda>f. sql_and (Some (f_status f = ERROR)) (sql_eq (f_error_message f) target_full_message))
      in if incomplete = [] then False
         else if \<not> list_ex (\<lambda>f. target_full f = Some True) (files_of job_id db) then False
         else \<not> list_ex (\<lambda>f. sql_not (sql_or (Some (f_status f \<in> {FPENDING, COPYING, RETRYING}))
                                          (target_full f)) = Some True) incomplete)"

definition count_done_errors_and_timeouts :: "int \<Rightarrow> db \<Rightarrow> nat \<times> nat \<times> nat" where
  "count_done_errors_and_timeouts job_id db =
     (count_status DONE job_id db, count_status ERROR job_id db, count_status TIMEOUT job_id db)"

definition summarize_done_progress :: "int \<Rightarrow> db \<Rightarrow> nat \<times> int" where
  "summarize_done_progress job_id db =
     (let fs = list_done_by_job job_id db
      in (length fs, sum_list (map (\<lambda>f. case f_size_bytes f of None \<Rightarrow> 0 | Some n \<Rightarrow> n) fs)))"

definition pending_again :: "export_file \<Rightarrow> export_file" where
  "pending_again f = f\<lparr>f_status := FPENDING, f_retry_attempts := 0, f_error_message := None\<rparr>"

definition update_files :: "int \<Rightarrow> (export_file \<Rightarrow> bool) \<Rightarrow> (export_file \<Rightarrow> export_file) \<Rightarrow> db \<Rightarrow> db \<times> nat" where
  "update_files job_id cond g db =
     (db\<lparr>files := map (\<lambda>f. if f_job_id f = job_id \<and> cond f then g f else f) (files db)\<rparr>,
      length (filter cond (files_of job_id db)))"

definition reset_failed_for_retry :: "int \<Rightarrow> db \<Rightarrow> db \<times> nat" where
  "reset_failed_for_retry job_id = update_files job_id (\<lambda>f. f_status f \<in> {ERROR, TIMEOUT}) pending_again"

definition reset_non_done_for_restart :: "int \<Rightarrow> db \<Rightarrow> db \<times> nat" where
  "reset_non_done_for_restart job_id = update_files job_id (\<lambda>f. f_status f \<noteq> DONE) pending_again"

definition reset_target_full_failed_for_retry :: "int \<Rightarrow> db \<Rightarrow> db \<times> nat" where
  "reset_target_full_failed_for_retry job_id =
     update_files job_id (\<lambda>f. f_status f = ERROR \<and> f_error_message f = Some target_full_message)
       (\<lambda>f. (pending_again f)\<lparr>f_drive_assignment_id := None\<rparr>)"

definition list_error_messages :: "int \<Rightarrow> nat \<Rightarrow> db \<Rightarrow> (string \<times> string) list" where
  "list_error_messages job_id limit db =
     map (\<lambda>f. (the (f_error_message f), f_relative_path f))
       (paged (Some limit) 0
         (sort_key f_id (filter (\<lambda>f. f_status f = ERROR \<and> f_error_message f \<noteq> None) (files_of job_id db))))"

definition bulk_count_done_errors_and_timeouts ::
  "int list \<Rightarrow> db \<Rightarrow> int \<Rightarrow> (nat \<times> nat \<times> nat) option" where
  "bulk_count_done_errors_and_timeouts job_ids db i =
     (if i \<in> set job_ids \<and> files_of i db \<noteq> [] then Some (count_done_errors_and_timeouts i db) else None)"

definition bulk_list_error_messages ::
  "int list \<Rightarrow> nat \<Rightarrow> db \<Rightarrow> int \<Rightarrow> (string \<times> string) list option" where
  "bulk_list_error_messages job_ids limit_per_job db i =
     (let ms = list_error_messages i limit_per_job db
      in if i \<in> set job_ids \<and> ms \<noteq> [] then Some ms else None)"

section \<open>Progress counters\<close>

text \<open>\<open>CASE WHEN counter > amount THEN counter - amount ELSE 0 END\<close>.\<close>

definition clamped_sub :: "int \<Rightarrow> int \<Rightarrow> int" where
  "clamped_sub amount counter = (if amount < counter then counter - amount else 0)"

definition apply_delta :: "int \<Rightarrow> int \<Rightarrow> int" where
  "apply_delta delta counter =
     (if delta = 0 then counter else if 0 < delta then counter + delta else clamped_sub \<bar>delta\<bar> counter)"

definition upd_job_bytes :: "int \<Rightarrow> (int \<Rightarrow> int) \<Rightarrow> db \<Rightarrow> db" where
  "upd_job_bytes job_id g = set_job job_id (\<lambda>j. j\<lparr>j_copied_bytes := g (j_copied_bytes j)\<rparr>)"

definition set_assignment :: "int \<Rightarrow> (drive_assignment \<Rightarrow> drive_assignment) \<Rightarrow> db \<Rightarrow> db" where
  "set_assignment i f db = db\<lparr>assignments := upd_row a_id i f (assignments db)\<rparr>"

definition upd_assignment_bytes :: "int \<Rightarrow> (int \<Rightarrow> int) \<Rightarrow> db \<Rightarrow> db" where
  "upd_assignment_bytes i g = set_assignment i (\<lambda>a. a\<lparr>a_copied_bytes := g (a_copied_bytes a)\<rparr>)"

definition upd_assignment_count :: "int \<Rightarrow> (int \<Rightarrow> int) \<Rightarrow> db \<Rightarrow> db" where
  "upd_assignment_count i g = set_assignment i (\<lambda>a. a\<lparr>a_file_count := g (a_file_count a)\<rparr>)"

definition commit :: "env \<Rightarrow> string \<Rightarrow> db \<Rightarrow> db option" where
  "commit e site db = (if e_db_ok e site then Some db else None)"

definition increment_job_bytes :: "env \<Rightarrow> int \<Rightarrow> int \<Rightarrow> db \<Rightarrow> db option" where
  "increment_job_bytes e job_id size_bytes db =
     commit e ''copy_progress'' (upd_job_bytes job_id (\<lambda>n. n + size_bytes) db)"

definition increment_copy_progress :: "env \<Rightarrow> int \<Rightarrow> int option \<Rightarrow> int \<Rightarrow> db \<Rightarrow> db option" where
  "increment_copy_progress e job_id assignment_id size_bytes db =
     (let db1 = upd_job_bytes job_id (\<lambda>n. n + size_bytes) db
      in commit e ''copy_progress''
           (case assignment_id of None \<Rightarrow> db1 | Some a \<Rightarrow> upd_assignment_bytes a (\<lambda>n. n + size_bytes) db1))"

definition decrement_job_bytes :: "env \<Rightarrow> int \<Rightarrow> int \<Rightarrow> db \<Rightarrow> db option" where
  "decrement_job_bytes e job_id size_bytes db =
     commit e ''copy_progress'' (upd_job_bytes job_id (clamped_sub size_bytes) db)"

definition decrement_copy_progress :: "env \<Rightarrow> int \<Rightarrow> int option \<Rightarrow> int \<Rightarrow> db \<Rightarrow> db option" where
  "decrement_copy_progress e job_id assignment_id size_bytes db =
     (let db1 = upd_job_bytes job_id (clamped_sub size_bytes) db
      in commit e ''copy_progress''
           (case assignment_id of None \<Rightarrow> db1 | Some a \<Rightarrow> upd_assignment_bytes a (clamped_sub size_bytes) db1))"

text \<open>The deltas of a batch are dictionaries, here association lists in iteration order.\<close>

definition apply_copy_progress_batch ::
  "env \<Rightarrow> int \<Rightarrow> int \<Rightarrow> (int \<times> int) list \<Rightarrow> (int \<times> int) list \<Rightarrow> db \<Rightarrow> db option" where
  "apply_copy_progress_batch e job_id job_delta assignment_deltas count_deltas db =
     (if job_delta = 0 \<and> assignment_deltas = [] \<and> count_deltas = [] then Some db
      else let db1 = (if job_delta = 0 then db else upd_job_bytes job_id (apply_delta job_delta) db);
               db2 = foldl (\<lambda>d (i, delta). if delta = 0 then d else upd_assignment_bytes i (apply_delta delta) d)
                       db1 assignment_deltas;
               db3 = foldl (\<lambda>d (i, delta). if delta = 0 then d else upd_assignment_count i (apply_delta delta) d)
                       db2 count_deltas
           in commit e ''copy_progress'' db3)"

definition save_completed_copy :: "env \<Rightarrow> int \<Rightarrow> int option \<Rightarrow> db \<Rightarrow> db option" where
  "save_completed_copy e file_id assignment_id db =
     (let db1 = db\<lparr>files := upd_row f_id file_id (\<lambda>f. f\<lparr>f_drive_assignment_id := assignment_id\<rparr>) (files db)\<rparr>
      in commit e ''save_completed_copy''
           (case assignment_id of None \<Rightarrow> db1 | Some a \<Rightarrow> upd_assignment_count a (\<lambda>n. n + 1) db1))"

definition increment_assignment_bytes :: "env \<Rightarrow> int \<Rightarrow> int \<Rightarrow> db \<Rightarrow> db option" where
  "increment_assignment_bytes e i size_bytes db =
     commit e ''copy_progress'' (upd_assignment_bytes i (\<lambda>n. n + size_bytes) db)"

definition decrement_assignment_bytes :: "env \<Rightarrow> int \<Rightarrow> int \<Rightarrow> db \<Rightarrow> db option" where
  "decrement_assignment_bytes e i size_bytes db =
     commit e ''copy_progress'' (upd_assignment_bytes i (clamped_sub size_bytes) db)"

definition increment_assignment_file_count :: "env \<Rightarrow> int \<Rightarrow> db \<Rightarrow> db option" where
  "increment_assignment_file_count e i db =
     commit e ''copy_progress'' (upd_assignment_count i (\<lambda>n. n + 1) db)"

section \<open>Analysis entries\<close>

definition list_entries_by_job ::
  "int \<Rightarrow> string option \<Rightarrow> nat option \<Rightarrow> nat \<Rightarrow> db \<Rightarrow> analysis_entry list" where
  "list_entries_by_job job_id entry_type limit offset db =
     (let ns = sort_key n_id (filter (\<lambda>n. n_job_id n = job_id) (entries db))
      in paged limit offset (case entry_type of None \<Rightarrow> ns | Some t \<Rightarrow> filter (\<lambda>n. n_entry_type n = t) ns))"

definition list_entries_by_job_after_id ::
  "int \<Rightarrow> string option \<Rightarrow> int option \<Rightarrow> nat option \<Rightarrow> db \<Rightarrow> analysis_entry list" where
  "list_entries_by_job_after_id job_id entry_type after_id limit db =
     (let ns = sort_key n_id (filter (\<lambda>n. n_job_id n = job_id) (entries db));
          typed = (case entry_type of None \<Rightarrow> ns | Some t \<Rightarrow> filter (\<lambda>n. n_entry_type n = t) ns)
      in paged limit 0 (case after_id of None \<Rightarrow> typed | Some i \<Rightarrow> filter (\<lambda>n. i < n_id n) typed))"

definition delete_entries_by_job :: "int \<Rightarrow> db \<Rightarrow> db" where
  "delete_entries_by_job job_id db = db\<lparr>entries := filter (\<lambda>n. n_job_id n \<noteq> job_id) (entries db)\<rparr>"

record size_distribution =
  total_files :: nat
  total_bytes :: int
  small_files :: nat
  medium_files :: nat
  large_files :: nat

text \<open>A comparison with a missing size is unknown, and \<open>CASE\<close> then takes its else branch.\<close>

definition summarize_file_size_distribution :: "int \<Rightarrow> int \<Rightarrow> int \<Rightarrow> db \<Rightarrow> size_distribution" where
  "summarize_file_size_distribution job_id small_max large_min db =
     (let ns = filter (\<lambda>n. n_job_id n = job_id \<and> n_entry_type n = ''file'') (entries db);
          cnt = (\<lambda>P. length (filter (\<lambda>n. case n_size_bytes n of None \<Rightarrow> False | Some s \<Rightarrow> P s) ns))
      in \<lparr>total_files = length ns,
          total_bytes = sum_list (map (\<lambda>n. case n_size_bytes n of None \<Rightarrow> 0 | Some s \<Rightarrow> s) ns),
          small_files = cnt (\<lambda>s. s \<le> small_max),
          medium_files = cnt (\<lambda>s. small_max < s \<and> s < large_min),
          large_files = cnt (\<lambda>s. large_min \<le> s)\<rparr>)"

section \<open>Drive assignments\<close>

definition activated_for :: "int \<Rightarrow> db \<Rightarrow> drive_assignment list" where
  "activated_for job_id db =
     filter (\<lambda>a. a_job_id a = job_id \<and> a_activated_at a \<noteq> None \<and> a_released_at a = None) (assignments db)"

definition get_active_for_job :: "int \<Rightarrow> db \<Rightarrow> drive_assignment option" where
  "get_active_for_job job_id db = last_by (\<lambda>a. (the (a_activated_at a), a_id a)) (activated_for job_id db)"

definition get_reserved_for_job_and_drive :: "int \<Rightarrow> int \<Rightarrow> db \<Rightarrow> drive_assignment option" where
  "get_reserved_for_job_and_drive job_id drive_id db =
     first_by (\<lambda>a. (a_assigned_at a, a_id a))
       (filter (\<lambda>a. a_job_id a = job_id \<and> a_drive_id a = drive_id \<and> a_activated_at a = None \<and>
          a_released_at a = None) (assignments db))"

definition get_next_reserved_for_job :: "int \<Rightarrow> db \<Rightarrow> drive_assignment option" where
  "get_next_reserved_for_job job_id db =
     first_by (\<lambda>a. (a_assigned_at a, a_id a))
       (filter (\<lambda>a. a_job_id a = job_id \<and> a_activated_at a = None \<and> a_released_at a = None) (assignments db))"

definition list_for_job :: "int \<Rightarrow> db \<Rightarrow> drive_assignment list" where
  "list_for_job job_id db =
     sort_key (\<lambda>a. (a_assigned_at a, a_id a)) (filter (\<lambda>a. a_job_id a = job_id) (assignments db))"

text \<open>The loop over the rows, ordered by job and newest activation, that keeps the first row it sees
  for each job.\<close>

definition bulk_rows :: "int list \<Rightarrow> db \<Rightarrow> drive_assignment list" where
  "bulk_rows job_ids db =
     sort_key (\<lambda>a. (a_job_id a, - the (a_activated_at a), - a_id a))
       (filter (\<lambda>a. a_job_id a \<in> set job_ids \<and> a_activated_at a \<noteq> None \<and> a_released_at a = None) (assignments db))"

definition keep_first :: "(int \<rightharpoonup> drive_assignment) \<Rightarrow> drive_assignment \<Rightarrow> int \<rightharpoonup> drive_assignment" where
  "keep_first result a = (if result (a_job_id a) = None then result(a_job_id a \<mapsto> a) else result)"

definition bulk_get_active_for_jobs :: "int list \<Rightarrow> db \<Rightarrow> int \<rightharpoonup> drive_assignment" where
  "bulk_get_active_for_jobs job_ids db =
     (if job_ids = [] then Map.empty else foldl keep_first Map.empty (bulk_rows job_ids db))"

section \<open>Manifests\<close>

definition add_manifest :: "env \<Rightarrow> int \<Rightarrow> int option \<Rightarrow> string \<Rightarrow> db \<Rightarrow> db option" where
  "add_manifest e job_id assignment_id path db =
     commit e ''manifest_add''
       (db\<lparr>manifests := manifests db @
          [\<lparr>mf_id = next_id mf_id (manifests db), mf_job_id = job_id, mf_drive_assignment_id = assignment_id,
            mf_manifest_path = Some path, mf_format = ''JSON'', mf_created_at = e_now e\<rparr>]\<rparr>)"

definition get_latest_for_job :: "int \<Rightarrow> db \<Rightarrow> manifest option" where
  "get_latest_for_job job_id db = last_by mf_id (filter (\<lambda>m. mf_job_id m = job_id) (manifests db))"

definition list_manifests_by_job :: "int \<Rightarrow> db \<Rightarrow> manifest list" where
  "list_manifests_by_job job_id db =
     rev (sort_key (\<lambda>m. (mf_created_at m, mf_id m)) (filter (\<lambda>m. mf_job_id m = job_id) (manifests db)))"

definition get_latest_for_assignment :: "int \<Rightarrow> int \<Rightarrow> db \<Rightarrow> manifest option" where
  "get_latest_for_assignment job_id assignment_id db =
     last_by (\<lambda>m. (mf_created_at m, mf_id m))
       (filter (\<lambda>m. mf_job_id m = job_id \<and> mf_drive_assignment_id m = Some assignment_id) (manifests db))"

section \<open>Laws of the tables\<close>

lemma get_set_job:
  assumes "\<And>j. j_id (f j) = j_id j"
  shows "get_job k (set_job i f db) = (if k = i then map_option f (get_job k db) else get_job k db)"
  using job_rows.get_upd [OF assms] by (simp add: get_job_def set_job_def)

lemma get_job_id: "get_job i db = Some j \<Longrightarrow> j_id j = i"
  by (simp add: get_job_def job_rows.get_key)

lemma get_job_in: "get_job i db = Some j \<Longrightarrow> j \<in> set (jobs db)"
  by (simp add: get_job_def job_rows.get_mem)

lemma get_job_for_update_Some:
  "get_job_for_update e i db = Row (Some j) \<longleftrightarrow> get_job i db = Some j \<and> \<not> e_job_locked e i"
  by (auto simp: get_job_for_update_def split: option.splits if_splits)

lemma set_job_frame [frame_simps]:
  "hubs (set_job i f db) = hubs db" "ports (set_job i f db) = ports db" "drives (set_job i f db) = drives db"
  "shares (set_job i f db) = shares db" "assignments (set_job i f db) = assignments db"
  "files (set_job i f db) = files db" "entries (set_job i f db) = entries db"
  "manifests (set_job i f db) = manifests db" "audits (set_job i f db) = audits db"
  "jobs (set_job i f db) = upd_row j_id i f (jobs db)" "get_drive k (set_job i f db) = get_drive k db"
  by (simp_all add: set_job_def get_drive_def)

lemma set_assignment_frame [frame_simps]:
  "drives (set_assignment i f db) = drives db" "shares (set_assignment i f db) = shares db"
  "jobs (set_assignment i f db) = jobs db" "files (set_assignment i f db) = files db"
  "entries (set_assignment i f db) = entries db" "manifests (set_assignment i f db) = manifests db"
  "audits (set_assignment i f db) = audits db"
  "assignments (set_assignment i f db) = upd_row a_id i f (assignments db)"
  "get_drive k (set_assignment i f db) = get_drive k db" "get_job k (set_assignment i f db) = get_job k db"
  by (simp_all add: set_assignment_def get_drive_def get_job_def)

lemma commit_Some [simp]: "commit e site db = Some db' \<longleftrightarrow> e_db_ok e site \<and> db' = db"
  by (auto simp: commit_def)

section \<open>Choosing one row by an order\<close>

lemma last_by_max: "last_by k rs = Some r \<Longrightarrow> r' \<in> set rs \<Longrightarrow> k r' \<le> k r"
proof -
  assume h: "last_by k rs = Some r" and r': "r' \<in> set rs"
  let ?s = "sort_key k rs"
  from h r' have r: "r = last ?s" by (auto simp: last_by_def split: if_splits)
  from r' have ne: "?s \<noteq> []" by (metis set_sort empty_iff list.set(1))
  have split: "?s = butlast ?s @ [last ?s]" using ne by simp
  have "sorted (map k (butlast ?s @ [last ?s]))" using split sorted_sort_key [of k rs] by metis
  then have "\<forall>x \<in> set (butlast ?s). k x \<le> k (last ?s)" by (simp add: sorted_append)
  moreover have "r' \<in> set (butlast ?s @ [last ?s])" using r' split by (metis set_sort)
  ultimately show ?thesis using r by auto
qed

lemma last_by_eq:
  assumes "r \<in> set rs" "\<And>r'. r' \<in> set rs \<Longrightarrow> k r' \<le> k r" "inj_on k (set rs)"
  shows "last_by k rs = Some r"
proof -
  from assms(1) obtain q where q: "last_by k rs = Some q" by (cases "last_by k rs") auto
  with last_by_max [OF q assms(1)] assms(2) [OF last_by_in [OF q]] have "k q = k r" by simp
  with assms(1,3) last_by_in [OF q] q show ?thesis by (auto dest: inj_onD)
qed

text \<open>The first row satisfying \<open>P\<close> of a sorted table is a least one among them.\<close>

lemma find_sort_key_min:
  assumes "find P (sort_key k rs) = Some r"
  shows "r \<in> set rs \<and> P r \<and> (\<forall>r' \<in> set rs. P r' \<longrightarrow> k r \<le> k r')"
proof -
  from assms obtain i where i: "i < length (sort_key k rs)" "P (sort_key k rs ! i)" "r = sort_key k rs ! i"
    "\<forall>j<i. \<not> P (sort_key k rs ! j)"
    by (auto simp: find_Some_iff)
  have "k r \<le> k r'" if r': "r' \<in> set rs" "P r'" for r'
  proof -
    from r'(1) have "r' \<in> set (sort_key k rs)" by simp
    then obtain j where j: "j < length (sort_key k rs)" "r' = sort_key k rs ! j"
      by (metis in_set_conv_nth)
    with i(4) r'(2) have "i \<le> j" by (meson not_le)
    moreover have "sorted (map k (sort_key k rs))" by (rule sorted_sort_key)
    ultimately show ?thesis using i(3) j by (metis length_map nth_map sorted_nth_mono le_less_trans)
  qed
  moreover have "r \<in> set (sort_key k rs)" using i(1,3) nth_mem by blast
  ultimately show ?thesis using i by simp
qed

lemma foldl_keep_first:
  "foldl keep_first m rows i =
     (case m i of Some a \<Rightarrow> Some a | None \<Rightarrow> find (\<lambda>a. a_job_id a = i) rows)"
  by (induction rows arbitrary: m) (auto simp: keep_first_def split: option.splits)

section \<open>Properties\<close>

lemma bulk_active_lookup:
  assumes "pk_ok a_id (assignments db)"
  shows "bulk_get_active_for_jobs ids db i = (if i \<in> set ids then get_active_for_job i db else None)"
proof (cases "find (\<lambda>a. a_job_id a = i) (bulk_rows ids db)")
  case None
  then have "i \<in> set ids \<Longrightarrow> activated_for i db = []"
    by (auto simp: find_None_iff bulk_rows_def activated_for_def filter_empty_conv)
  with None show ?thesis
    by (auto simp: bulk_get_active_for_jobs_def foldl_keep_first get_active_for_job_def last_by_def)
next
  case (Some a)
  have key: "a' \<in> set (activated_for i db) \<Longrightarrow>
      (a_job_id a, - the (a_activated_at a), - a_id a) \<le> (a_job_id a', - the (a_activated_at a'), - a_id a')"
    and a: "a \<in> set (activated_for i db)" "i \<in> set ids" for a'
    using find_sort_key_min [OF Some [unfolded bulk_rows_def]] by (auto simp: activated_for_def)
  have "(the (a_activated_at a'), a_id a') \<le> (the (a_activated_at a), a_id a)"
    if "a' \<in> set (activated_for i db)" for a'
    using key [OF that] a that by (auto simp: activated_for_def less_eq_prod_def)
  moreover have "inj_on (\<lambda>a. (the (a_activated_at a), a_id a)) (set (activated_for i db))"
    using assms by (auto simp: inj_on_def activated_for_def pk_ok_def distinct_map)
  ultimately have "get_active_for_job i db = Some a"
    unfolding get_active_for_job_def by (intro last_by_eq a(1)) auto
  with a Some show ?thesis by (auto simp: bulk_get_active_for_jobs_def foldl_keep_first)
qed

text \<open>The bulk lookup of active assignments agrees with the single-job lookup: for every requested job it
  returns exactly what the separate query returns, and nothing for other jobs.\<close>

theorem bulk_active_matches_single:
  assumes "pk_ok a_id (assignments db)"
  shows "bulk_get_active_for_jobs ids db i = (if i \<in> set ids then get_active_for_job i db else None)"
  using assms by (rule bulk_active_lookup)

text \<open>When the copy engine may continue a full target on the next drive: some file failed because the
  target was full, and every unfinished file is waiting, in progress or failed for that reason. A failed
  file whose message is missing does not prevent the continuation, because the comparison with a missing
  message is unknown in SQL.\<close>

theorem target_full_continuation_iff:
  "should_attempt_target_full_continuation job_id db \<longleftrightarrow>
     (\<exists>f \<in> set (files_of job_id db). f_status f = ERROR \<and> f_error_message f = Some target_full_message) \<and>
     (\<forall>f \<in> set (files_of job_id db). f_status f \<in> {DONE, FPENDING, COPYING, RETRYING} \<or>
        (f_status f = ERROR \<and> f_error_message f \<in> {None, Some target_full_message}))"
proof -
  let ?full = "\<lambda>f. sql_and (Some (f_status f = ERROR)) (sql_eq (f_error_message f) target_full_message)"
  have full: "?full f = Some True \<longleftrightarrow> f_status f = ERROR \<and> f_error_message f = Some target_full_message" for f
    by (cases "f_error_message f") (auto simp: sql_and_def sql_eq_def)
  have bad: "sql_not (sql_or (Some (f_status f \<in> {FPENDING, COPYING, RETRYING})) (?full f)) = Some True \<longleftrightarrow>
      f_status f \<notin> {FPENDING, COPYING, RETRYING} \<and>
      \<not> (f_status f = ERROR \<and> f_error_message f \<in> {None, Some target_full_message})" for f
    by (cases "f_error_message f") (auto simp: sql_and_def sql_eq_def sql_or_def sql_not_def)
  show ?thesis
    unfolding should_attempt_target_full_continuation_def Let_def list_ex_iff full bad
    by (auto simp: list_incomplete_by_job_def filter_empty_conv)
qed

text \<open>Retrying resets exactly the failed and timed-out files of the job to pending, with no error and no
  attempts, and leaves every other file row as it is; the returned number is how many were reset.\<close>

theorem reset_failed_exact:
  "reset_failed_for_retry job_id db = (db', n) \<Longrightarrow>
     n = count_status ERROR job_id db + count_status TIMEOUT job_id db \<and>
     count_status ERROR job_id db' = 0 \<and> count_status TIMEOUT job_id db' = 0 \<and>
     map f_id (files db') = map f_id (files db) \<and>
     (\<forall>i < length (files db). \<not> (f_job_id (files db ! i) = job_id \<and> f_status (files db ! i) \<in> {ERROR, TIMEOUT})
        \<longrightarrow> files db' ! i = files db ! i)"
proof -
  let ?g = "\<lambda>f. if f_job_id f = job_id \<and> f_status f \<in> {ERROR, TIMEOUT} then pending_again f else f"
  have two: "length (filter (\<lambda>f. f_status f \<in> {ERROR, TIMEOUT}) fs) =
      length (filter (\<lambda>f. f_status f = ERROR) fs) + length (filter (\<lambda>f. f_status f = TIMEOUT) fs)"
    for fs :: "export_file list"
    by (induction fs) auto
  assume "reset_failed_for_retry job_id db = (db', n)"
  then have r: "files db' = map ?g (files db)" "n = length (filter (\<lambda>f. f_status f \<in> {ERROR, TIMEOUT}) (files_of job_id db))"
    unfolding reset_failed_for_retry_def update_files_def by (simp_all only: prod.inject) auto
  have st: "f_job_id (?g f) = job_id \<Longrightarrow> f_status (?g f) \<notin> {ERROR, TIMEOUT}"
    and key: "f_id (?g f) = f_id f" for f
    by (auto simp: pending_again_def)
  have "count_status ERROR job_id db' = 0" "count_status TIMEOUT job_id db' = 0"
    using st by (auto simp: count_status_def files_of_def r(1) filter_empty_conv)
  moreover have "map f_id (files db') = map f_id (files db)"
    by (simp only: r(1) map_map o_def key)
  moreover have "n = count_status ERROR job_id db + count_status TIMEOUT job_id db"
    by (simp only: r(2) two count_status_def)
  moreover have "\<forall>i < length (files db). \<not> (f_job_id (files db ! i) = job_id \<and>
      f_status (files db ! i) \<in> {ERROR, TIMEOUT}) \<longrightarrow> files db' ! i = files db ! i"
    by (auto simp: r(1))
  ultimately show ?thesis by blast
qed

subsection \<open>Progress counters\<close>

definition counters_ok :: "db \<Rightarrow> bool" where
  "counters_ok db \<longleftrightarrow> list_all (\<lambda>j. 0 \<le> j_copied_bytes j) (jobs db) \<and>
     list_all (\<lambda>a. 0 \<le> a_copied_bytes a \<and> 0 \<le> a_file_count a) (assignments db)"

lemma list_all_upd_row: "list_all P rs \<Longrightarrow> (\<And>r. P r \<Longrightarrow> P (f r)) \<Longrightarrow> list_all P (upd_row key i f rs)"
  by (induction rs) (simp_all add: upd_row_def)

lemma counters_upd:
  assumes "counters_ok db" "\<And>n. 0 \<le> n \<Longrightarrow> 0 \<le> g n"
  shows "counters_ok (upd_job_bytes i g db)" "counters_ok (upd_assignment_bytes i g db)"
    "counters_ok (upd_assignment_count i g db)"
proof -
  let ?A = "\<lambda>a. 0 \<le> a_copied_bytes a \<and> 0 \<le> a_file_count a"
  have ok: "list_all (\<lambda>j. 0 \<le> j_copied_bytes j) (jobs db)" "list_all ?A (assignments db)"
    using assms(1) by (simp_all add: counters_ok_def)
  have "list_all (\<lambda>j. 0 \<le> j_copied_bytes j) (upd_row j_id i (\<lambda>j. j\<lparr>j_copied_bytes := g (j_copied_bytes j)\<rparr>) (jobs db))"
    by (rule list_all_upd_row [OF ok(1)]) (simp add: assms(2))
  moreover have "list_all ?A (upd_row a_id i (\<lambda>a. a\<lparr>a_copied_bytes := g (a_copied_bytes a)\<rparr>) (assignments db))"
    by (rule list_all_upd_row [OF ok(2)]) (simp add: assms(2))
  moreover have "list_all ?A (upd_row a_id i (\<lambda>a. a\<lparr>a_file_count := g (a_file_count a)\<rparr>) (assignments db))"
    by (rule list_all_upd_row [OF ok(2)]) (simp add: assms(2))
  ultimately show "counters_ok (upd_job_bytes i g db)" "counters_ok (upd_assignment_bytes i g db)"
    "counters_ok (upd_assignment_count i g db)"
    using ok by (simp_all add: counters_ok_def upd_job_bytes_def upd_assignment_bytes_def
        upd_assignment_count_def frame_simps)
qed

lemma apply_delta_nonneg: "0 \<le> n \<Longrightarrow> 0 \<le> apply_delta d n"
  by (simp add: apply_delta_def clamped_sub_def)

lemma foldl_invariant: "I x \<Longrightarrow> (\<And>x y. I x \<Longrightarrow> I (f x y)) \<Longrightarrow> I (foldl f x ys)"
  by (induction ys arbitrary: x) auto

text \<open>C26. Progress counters never become negative: a batch of signed deltas, whatever they are, keeps every
  copied-byte and file counter of jobs and assignments at or above zero.\<close>

theorem batch_keeps_counters:
  assumes "counters_ok db" "apply_copy_progress_batch e job_id jd ads cds db = Some db'"
  shows "counters_ok db'"
proof -
  have nn: "\<And>d n. 0 \<le> n \<Longrightarrow> 0 \<le> apply_delta d n" by (rule apply_delta_nonneg)
  let ?b = "\<lambda>d (i, delta). if delta = 0 then d else upd_assignment_bytes i (apply_delta delta) d"
  let ?c = "\<lambda>d (i, delta). if delta = 0 then d else upd_assignment_count i (apply_delta delta) d"
  let ?db1 = "if jd = 0 then db else upd_job_bytes job_id (apply_delta jd) db"
  have "counters_ok ?db1" using assms(1) nn by (simp add: counters_upd)
  then have "counters_ok (foldl ?b ?db1 ads)" by (rule foldl_invariant) (auto simp: counters_upd nn)
  then have "counters_ok (foldl ?c (foldl ?b ?db1 ads) cds)" by (rule foldl_invariant) (auto simp: counters_upd nn)
  with assms show ?thesis
    by (auto simp: apply_copy_progress_batch_def Let_def split: if_splits)
qed

text \<open>Composition of updates of one row.\<close>

lemma upd_row_comp:
  "(\<And>r. key (f r) = key r) \<Longrightarrow> upd_row key i g (upd_row key i f rs) = upd_row key i (\<lambda>r. g (f r)) rs"
  by (simp add: upd_row_def)

definition progress :: "int \<Rightarrow> int option \<Rightarrow> int \<Rightarrow> db \<Rightarrow> db" where
  "progress job_id assignment_id n db =
     (let db1 = upd_job_bytes job_id (\<lambda>m. m + n) db
      in case assignment_id of None \<Rightarrow> db1 | Some a \<Rightarrow> upd_assignment_bytes a (\<lambda>m. m + n) db1)"

lemma upd_row_id: "(\<And>r. f r = r) \<Longrightarrow> upd_row key i f rs = rs"
  by (induction rs) (simp_all add: upd_row_def)

lemma progress_0: "progress job_id a 0 db = db"
  by (cases a) (simp_all add: progress_def upd_job_bytes_def upd_assignment_bytes_def set_job_def
      set_assignment_def upd_row_id)

lemma progress_add: "progress job_id a n (progress job_id a m db) = progress job_id a (m + n) db"
  by (cases a) (simp_all add: progress_def upd_job_bytes_def upd_assignment_bytes_def set_job_def
      set_assignment_def upd_row_comp add.assoc)

lemma foldl_progress: "foldl (\<lambda>d n. progress job_id a n d) db ns = progress job_id a (sum_list ns) db"
  by (induction ns arbitrary: db) (simp_all add: progress_0 progress_add)

text \<open>Flushing progress in one batch is equivalent to flushing it chunk by chunk: for any list of copied
  chunk sizes, the batch with their sum leaves the database that the single increments leave.\<close>

theorem batch_equals_increments:
  assumes "\<And>site. e_db_ok e site" and "\<And>n. n \<in> set ns \<Longrightarrow> 0 < n"
  shows "apply_copy_progress_batch e job_id (sum_list ns) (if ns = [] then [] else [(a, sum_list ns)]) [] db =
    foldl (\<lambda>d n. Option.bind d (increment_copy_progress e job_id (Some a) n)) (Some db) ns"
proof -
  have inc: "increment_copy_progress e job_id (Some a) n d = Some (progress job_id (Some a) n d)" for n d
    using assms(1) by (simp add: increment_copy_progress_def progress_def commit_def)
  have "foldl (\<lambda>d n. Option.bind d (increment_copy_progress e job_id (Some a) n)) (Some db) ns =
      Some (foldl (\<lambda>d n. progress job_id (Some a) n d) db ns)"
    by (induction ns arbitrary: db) (simp_all add: inc)
  moreover have pos: "0 < sum_list ns" if "ns \<noteq> []"
    using that assms(2) by (induction ns) (auto intro: add_pos_nonneg simp: sum_list_nonneg less_imp_le)
  have delta: "apply_delta (sum_list ns) = (\<lambda>m. m + sum_list ns)" if "ns \<noteq> []"
    using pos [OF that] by (simp add: apply_delta_def fun_eq_iff)
  have "apply_copy_progress_batch e job_id (sum_list ns) (if ns = [] then [] else [(a, sum_list ns)]) [] db =
      Some (progress job_id (Some a) (sum_list ns) db)"
    using assms(1)
    by (cases "ns = []")
       (simp add: apply_copy_progress_batch_def progress_0,
        use pos in \<open>simp add: apply_copy_progress_batch_def commit_def progress_def delta\<close>)
  ultimately show ?thesis by (simp only: foldl_progress)
qed

end
