(* ===== verification/Copy_File.thy ===== *)
theory Copy_File
  imports Job_Repository "HOL-Library.Word" "HOL-Library.Multiset"
begin

text \<open>
  The file-level part of the copy engine (\<open>app/services/copy_engine.py\<close>): copying one file with
  its checksum, in one thread and with the separate hash worker, the checksum used for verification, the
  classification of failures, and the plan of the throughput benchmark. Reading, writing and the clock
  are parameters: a read or write fails, or a deadline test fires, when the host says so.
\<close>

section \<open>Copying one file\<close>

type_synonym bytes = "8 word list"

text \<open>What the host does: the \<open>k\<close>-th test of the deadline, the \<open>k\<close>-th read and
  write, opening the files, the final synchronisation, removing a partial file.\<close>

record copy_io =
  io_open_error :: "string option"
  io_expired :: "nat \<Rightarrow> bool"
  io_read_error :: "nat \<Rightarrow> string option"
  io_write_error :: "nat \<Rightarrow> string option"
  io_sync_error :: "string option"
  io_unlink_ok :: bool

datatype copy_stop = Timed_out | Io_failed string

text \<open>\<open>fsrc.read(n)\<close>: a negative size reads everything.\<close>

definition read_chunk :: "int \<Rightarrow> bytes \<Rightarrow> bytes" where
  "read_chunk n rest = (if n < 0 then rest else take (nat n) rest)"

definition after_chunk :: "int \<Rightarrow> bytes \<Rightarrow> bytes" where
  "after_chunk n rest = (if n < 0 then [] else drop (nat n) rest)"

text \<open>The loop of \<open>copy_file\<close>: the bytes written, the bytes hashed, the reported lengths, and why
  the loop stopped early, if it did.\<close>

function copy_loop ::
  "copy_io \<Rightarrow> int \<Rightarrow> nat \<Rightarrow> bytes \<Rightarrow> bytes \<Rightarrow> bytes \<Rightarrow> nat list \<Rightarrow>
   bytes \<times> bytes \<times> nat list \<times> copy_stop option" where
  "copy_loop io n k rest written hashed reported =
     (if io_expired io (2 * k) then (written, hashed, reported, Some Timed_out)
      else case io_read_error io k of
        Some err \<Rightarrow> (written, hashed, reported, Some (Io_failed err))
      | None \<Rightarrow>
          (let chunk = read_chunk n rest
           in if chunk = [] then (written, hashed, reported, None)
              else if io_expired io (2 * k + 1) then (written, hashed, reported, Some Timed_out)
              else case io_write_error io k of
                Some err \<Rightarrow> (written, hashed @ chunk, reported, Some (Io_failed err))
              | None \<Rightarrow> copy_loop io n (Suc k) (after_chunk n rest) (written @ chunk) (hashed @ chunk)
                          (reported @ [length chunk])))"
  by pat_completeness auto

lemma read_after: "read_chunk n rest @ after_chunk n rest = rest"
  by (simp add: read_chunk_def after_chunk_def)

lemma after_chunk_shorter: "read_chunk n rest \<noteq> [] \<Longrightarrow> length (after_chunk n rest) < length rest"
  by (auto simp: read_chunk_def after_chunk_def split: if_splits)

termination copy_loop
  by (relation "measure (\<lambda>(io, n, k, rest, _). length rest)") (auto intro: after_chunk_shorter)

declare copy_loop.simps [simp del]

datatype copy_result = Copied string | Copy_failed string | Copy_timed_out

text \<open>
  \<open>copy_file\<close>. \<open>digest\<close> is the hash of the concatenated updates; the target file before and
  after is an optional content. A failure that is not a timeout removes the target.
\<close>

definition remove_partial :: "copy_io \<Rightarrow> bytes option \<Rightarrow> bytes option" where
  "remove_partial io dst = (if io_unlink_ok io then None else dst)"

definition copy_file ::
  "copy_io \<Rightarrow> settings \<Rightarrow> (bytes \<Rightarrow> string) \<Rightarrow> int option \<Rightarrow> bool option \<Rightarrow> bytes \<Rightarrow> bytes option \<Rightarrow>
   copy_result \<times> bytes option \<times> nat list" where
  "copy_file io st digest chunk_size fsync src dst =
     (case io_open_error io of
        Some err \<Rightarrow> (Copy_failed err, remove_partial io dst, [])
      | None \<Rightarrow>
          (let (written, hashed, reported, stop) =
                 copy_loop io (int_or chunk_size (st_copy_chunk_size_bytes st)) 0 src [] [] [];
               sync = (case fsync of None \<Rightarrow> st_copy_file_fsync_enabled st | Some b \<Rightarrow> b)
           in case stop of
                Some Timed_out \<Rightarrow> (Copy_timed_out, Some written, reported)
              | Some (Io_failed err) \<Rightarrow> (Copy_failed err, remove_partial io (Some written), reported)
              | None \<Rightarrow>
                  if sync \<and> io_sync_error io \<noteq> None
                  then (Copy_failed (the (io_sync_error io)), remove_partial io (Some written), reported)
                  else (Copied (digest hashed), Some written, reported)))"

text \<open>\<open>_checksum_only\<close>: the same loop without a target.\<close>

definition checksum_only ::
  "copy_io \<Rightarrow> settings \<Rightarrow> (bytes \<Rightarrow> string) \<Rightarrow> int option \<Rightarrow> bytes \<Rightarrow> copy_result \<times> nat list" where
  "checksum_only io st digest chunk_size src =
     (case io_open_error io of
        Some err \<Rightarrow> (Copy_failed err, [])
      | None \<Rightarrow>
          (let (_, hashed, reported, stop) =
                 copy_loop (io\<lparr>io_write_error := \<lambda>_. None\<rparr>)
                   (int_or chunk_size (st_copy_chunk_size_bytes st)) 0 src [] [] []
           in case stop of
                Some Timed_out \<Rightarrow> (Copy_timed_out, reported)
              | Some (Io_failed err) \<Rightarrow> (Copy_failed err, reported)
              | None \<Rightarrow> (Copied (digest hashed), reported)))"

section \<open>Copying with a separate hash worker\<close>

text \<open>
  \<open>_copy_file_with_separate_hashing\<close>: the copying thread writes each chunk and puts it into a queue
  of at most two items; the worker hashes the chunks and takes the digest at the end marker. The steps of
  the two threads interleave freely. A deadline test, an I/O error or a worker error ends the copy in
  \<open>Stopped\<close>. The marker \<open>None\<close> closes the queue.
\<close>

datatype copier = Reading | Enqueue bytes | Closing | Joining | Finished | Stopped

record hash_copy =
  hc_copier :: copier
  hc_rest :: bytes
  hc_written :: bytes
  hc_reported :: "nat list"
  hc_queue :: "bytes option list"
  hc_hashed :: bytes
  hc_digest :: "bytes option"

definition hash_copy_start :: "bytes \<Rightarrow> hash_copy" where
  "hash_copy_start src =
     \<lparr>hc_copier = Reading, hc_rest = src, hc_written = [], hc_reported = [], hc_queue = [], hc_hashed = [],
      hc_digest = None\<rparr>"

definition hash_queue_size :: nat where
  "hash_queue_size = 2"

inductive hash_copy_step :: "int \<Rightarrow> hash_copy \<Rightarrow> hash_copy \<Rightarrow> bool" for n where
  hc_read: "hc_copier s = Reading \<Longrightarrow> read_chunk n (hc_rest s) = c \<Longrightarrow> c \<noteq> [] \<Longrightarrow>
    hash_copy_step n s (s\<lparr>hc_copier := Enqueue c, hc_rest := after_chunk n (hc_rest s), hc_written := hc_written s @ c\<rparr>)"
| hc_eof: "hc_copier s = Reading \<Longrightarrow> read_chunk n (hc_rest s) = [] \<Longrightarrow>
    hash_copy_step n s (s\<lparr>hc_copier := Closing\<rparr>)"
| hc_put: "hc_copier s = Enqueue c \<Longrightarrow> length (hc_queue s) < hash_queue_size \<Longrightarrow>
    hash_copy_step n s (s\<lparr>hc_copier := Reading, hc_queue := hc_queue s @ [Some c],
                          hc_reported := hc_reported s @ [length c]\<rparr>)"
| hc_close: "hc_copier s = Closing \<Longrightarrow> length (hc_queue s) < hash_queue_size \<Longrightarrow>
    hash_copy_step n s (s\<lparr>hc_copier := Joining, hc_queue := hc_queue s @ [None]\<rparr>)"
| hc_hash: "hc_queue s = Some c # q \<Longrightarrow> hc_digest s = None \<Longrightarrow>
    hash_copy_step n s (s\<lparr>hc_queue := q, hc_hashed := hc_hashed s @ c\<rparr>)"
| hc_take_digest: "hc_queue s = None # q \<Longrightarrow> hc_digest s = None \<Longrightarrow>
    hash_copy_step n s (s\<lparr>hc_queue := q, hc_digest := Some (hc_hashed s)\<rparr>)"
| hc_join: "hc_copier s = Joining \<Longrightarrow> hc_digest s \<noteq> None \<Longrightarrow>
    hash_copy_step n s (s\<lparr>hc_copier := Finished\<rparr>)"

inductive hash_copy_fault :: "hash_copy \<Rightarrow> hash_copy \<Rightarrow> bool" where
  hc_stop: "hc_copier s \<notin> {Finished, Stopped} \<Longrightarrow> hash_copy_fault s (s\<lparr>hc_copier := Stopped\<rparr>)"

inductive hash_copy_reachable :: "int \<Rightarrow> bytes \<Rightarrow> hash_copy \<Rightarrow> bool" for n src where
  hc_init: "hash_copy_reachable n src (hash_copy_start src)"
| hc_next: "hash_copy_reachable n src s \<Longrightarrow> hash_copy_step n s s' \<Longrightarrow> hash_copy_reachable n src s'"
| hc_fault: "hash_copy_reachable n src s \<Longrightarrow> hash_copy_fault s s' \<Longrightarrow> hash_copy_reachable n src s'"

section \<open>Failures\<close>

text \<open>\<open>_classify_file_failure\<close>: a code and a message without host details.\<close>

definition classify_file_failure :: "string option \<Rightarrow> string \<times> string" where
  "classify_file_failure reason =
     (let lowered = py_lower (py_strip (case reason of None \<Rightarrow> [] | Some r \<Rightarrow> r));
          has = (\<lambda>t. py_contains lowered t)
      in if has ''permission denied'' \<or> has ''access denied'' \<or> has ''auth'' \<or> has ''not authorized''
           then (''permission_failure'', ''Permission or authentication failure'')
         else if has ''disk full'' \<or> has ''no space left'' \<or> has ''not enough space''
           then (''target_full'', target_full_message)
         else if has ''i/o error'' \<or> has ''io error'' \<or> has ''input/output error'' then (''io_failure'', ''I/O failure'')
         else if has ''checksum'' then (''checksum_failure'', ''Checksum verification failed'')
         else if has ''timed out'' \<or> has ''timeout'' then (''copy_timeout'', ''Operation timed out'')
         else if has ''no such file'' \<or> has ''not found'' then (''source_not_found'', ''Source file was not found'')
         else (''copy_failed'', ''File copy failed''))"

definition file_failure_messages :: "string list" where
  "file_failure_messages =
     [''Permission or authentication failure'', target_full_message, ''I/O failure'', ''Checksum verification failed'',
      ''Operation timed out'', ''Source file was not found'', ''File copy failed'']"

text \<open>\<open>_sanitize_job_failure_reason\<close>, bounded to 1024 characters.\<close>

definition sanitize_job_failure_reason ::
  "string \<Rightarrow> string \<Rightarrow> string \<Rightarrow> string option \<Rightarrow> string option \<Rightarrow> string" where
  "sanitize_job_failure_reason cwd reason fallback source_path target_mount_path =
     (let sanitized = py_strip (sanitize_error_message fallback (Some reason));
          relative_paths = describe_relative_paths cwd source_path target_mount_path (Some reason);
          sanitized = (if relative_paths \<noteq> [] then sanitized @ '' ('' @ join_with '', '' relative_paths @ '')'' else sanitized)
      in if 1024 < length sanitized then take 1021 sanitized @ ''...'' else sanitized)"

section \<open>The benchmark plan\<close>

definition benchmark_buckets :: "(int \<times> int option) list" where
  "benchmark_buckets =
     [(16384, Some 32768), (32768, Some 65536), (65536, Some 131072), (131072, Some 262144),
      (262144, Some 524288), (524288, Some 1048576), (1048576, Some 10485760), (10485760, None)]"

fun find_bucket :: "nat \<Rightarrow> int \<Rightarrow> (int \<times> int option) list \<Rightarrow> nat" where
  "find_bucket i size_bytes [] = length benchmark_buckets - 1"
| "find_bucket i size_bytes ((lower, upper) # bs) =
     (if size_bytes < lower then find_bucket (Suc i) size_bytes bs
      else if (case upper of None \<Rightarrow> True | Some u \<Rightarrow> size_bytes < u) then i
      else find_bucket (Suc i) size_bytes bs)"

definition classify_benchmark_bucket :: "int \<Rightarrow> nat" where
  "classify_benchmark_bucket size_bytes =
     (if size_bytes < fst (hd benchmark_buckets) then 0 else find_bucket 0 size_bytes benchmark_buckets)"

text \<open>The order inside a bucket: the middle, the first and the last file, then the others.\<close>

definition order_bucket :: "'f list \<Rightarrow> 'f list" where
  "order_bucket bucket =
     (let preferred = rev (remdups (rev [length bucket div 2, 0, length bucket - 1]))
      in if bucket = [] then []
         else map (\<lambda>i. bucket ! i) (preferred @ filter (\<lambda>i. i \<notin> set preferred) [0..<length bucket]))"

text \<open>One round over the buckets, which are given by the files not yet visited: the bytes still wanted,
  the selection of this round, the files left in each bucket, and whether a file was taken.\<close>

fun sample_round ::
  "int \<Rightarrow> ('f \<times> int) list list \<Rightarrow> int \<times> ('f \<times> int) list \<times> ('f \<times> int) list list \<times> bool" where
  "sample_round remaining [] = (remaining, [], [], False)"
| "sample_round remaining ([] # bs) =
     (let (r, selected, bs', progressed) = sample_round remaining bs in (r, selected, [] # bs', progressed))"
| "sample_round remaining (((f, size_bytes) # b) # bs) =
     (let k = min size_bytes remaining; r = remaining - k
      in if r \<le> 0 then (r, [(f, k)], b # bs, True)
         else let (r', selected, bs', progressed) = sample_round r bs in (r', (f, k) # selected, b # bs', True))"

lemma sample_round_shorter:
  "sample_round r bs = (r', sel, bs', p) \<Longrightarrow>
     sum_list (map length bs') \<le> sum_list (map length bs) \<and>
     (p \<longrightarrow> sum_list (map length bs') < sum_list (map length bs))"
proof (induction r bs arbitrary: r' sel bs' p rule: sample_round.induct)
  case (2 r bs)
  obtain a b c d where "sample_round r bs = (a, b, c, d)" by (metis surj_pair)
  with 2 show ?case by auto
next
  case (3 r f n b bs)
  show ?case
  proof (cases "r - min n r \<le> 0")
    case True
    with 3(2) show ?thesis by (auto simp: Let_def)
  next
    case False
    obtain x y z w where e: "sample_round (r - min n r) bs = (x, y, z, w)" by (metis surj_pair)
    from 3(1) [OF refl refl False e] have "sum_list (map length z) \<le> sum_list (map length bs)" by simp
    with 3(2) False e show ?thesis by (auto simp: Let_def)
  qed
qed simp

function sample_rounds :: "int \<Rightarrow> ('f \<times> int) list list \<Rightarrow> ('f \<times> int) list" where
  "sample_rounds remaining bs =
     (if remaining \<le> 0 then []
      else case sample_round remaining bs of
        (r, selected, bs', progressed) \<Rightarrow> if progressed then selected @ sample_rounds r bs' else selected)"
  by pat_completeness auto

termination sample_rounds
  by (relation "measure (\<lambda>(r, bs). sum_list (map length bs))") (auto dest: sample_round_shorter [OF sym])

declare sample_rounds.simps [simp del]

text \<open>\<open>_build_throughput_benchmark_sample_plan\<close>; a file whose \<open>stat\<close> fails has no
  size.\<close>

definition benchmark_infos :: "('f \<times> int option) list \<Rightarrow> ('f \<times> int) list" where
  "benchmark_infos fs =
     List.map_filter (\<lambda>(f, n). case n of None \<Rightarrow> None | Some n \<Rightarrow> if n \<le> 0 then None else Some (f, n)) fs"

definition build_benchmark_sample_plan :: "('f \<times> int option) list \<Rightarrow> int \<Rightarrow> ('f \<times> int) list" where
  "build_benchmark_sample_plan fs sample_bytes =
     (if sample_bytes \<le> 0 then []
      else let infos = sort_key snd (benchmark_infos fs);
               buckets = map (\<lambda>i. filter (\<lambda>x. classify_benchmark_bucket (snd x) = i) infos)
                           [0..<length benchmark_buckets]
           in sample_rounds sample_bytes (map order_bucket (filter (\<lambda>b. b \<noteq> []) buckets)))"

section \<open>Properties of a copy\<close>

lemma copy_loop_spec:
  "copy_loop io n k rest written hashed reported = (w, h, p, stop) \<Longrightarrow> n \<noteq> 0 \<Longrightarrow>
     prefix (drop (length written) w) rest \<and> prefix written w \<and>
     sum_list p = sum_list reported + (length w - length written) \<and>
     (stop = None \<longrightarrow> w = written @ rest \<and> h = hashed @ rest)"
proof (induction io n k rest written hashed reported arbitrary: w h p stop rule: copy_loop.induct)
  case (1 io n k rest written hashed reported)
  let ?c = "read_chunk n rest"
  show ?case
  proof (cases "io_expired io (2 * k) \<or> io_read_error io k \<noteq> None \<or> ?c = [] \<or> io_expired io (2 * k + 1) \<or>
      io_write_error io k \<noteq> None")
    case True
    have "rest = []" if "?c = []" using that \<open>n \<noteq> 0\<close> by (auto simp: read_chunk_def split: if_splits)
    with True 1(2) show ?thesis
      by (auto simp: copy_loop.simps [of io n k rest] Let_def split: if_splits option.splits)
  next
    case False
    then have go: "copy_loop io n (Suc k) (after_chunk n rest) (written @ ?c) (hashed @ ?c) (reported @ [length ?c]) =
        (w, h, p, stop)"
      using 1(2) by (simp add: copy_loop.simps [of io n k rest] Let_def)
    have rest: "?c @ after_chunk n rest = rest" by (rule read_after)
    from False 1(1) [of ?c, OF _ _ _ _ _ _ go \<open>n \<noteq> 0\<close>]
    have ih: "prefix (drop (length (written @ ?c)) w) (after_chunk n rest)" "prefix (written @ ?c) w"
      "sum_list p = sum_list (reported @ [length ?c]) + (length w - length (written @ ?c))"
      "stop = None \<longrightarrow> w = (written @ ?c) @ after_chunk n rest \<and> h = (hashed @ ?c) @ after_chunk n rest"
      by auto
    from ih(2) obtain v where v: "w = written @ ?c @ v" by (auto simp: prefix_def)
    with ih(1) have "prefix v (after_chunk n rest)" by simp
    then have "prefix (?c @ v) rest" using rest by (metis same_prefix_prefix)
    with v ih(3,4) rest show ?thesis by auto
  qed
qed

text \<open>Copying one file: a success means that the target holds exactly the bytes of the source, that the
  checksum is the digest of those bytes and that the reported progress adds up to their number; an I/O
  failure leaves no target file when it can be removed; a timeout leaves the part written so far.\<close>

theorem copy_file_outcome:
  assumes "copy_file io st digest chunk_size fsync src dst = (r, dst', reported)" "st_copy_chunk_size_bytes st \<noteq> 0"
  shows "case r of
      Copied h \<Rightarrow> dst' = Some src \<and> h = digest src \<and> sum_list reported = length src
    | Copy_failed err \<Rightarrow> io_unlink_ok io \<longrightarrow> dst' = None
    | Copy_timed_out \<Rightarrow> (\<exists>w. dst' = Some w \<and> prefix w src \<and> sum_list reported = length w)"
proof (cases "io_open_error io")
  case None
  let ?n = "int_or chunk_size (st_copy_chunk_size_bytes st)"
  have n: "?n \<noteq> 0" using assms(2) by (simp add: int_or_def split: option.splits)
  obtain w h p stop where l: "copy_loop io ?n 0 src [] [] [] = (w, h, p, stop)" by (metis prod_cases4)
  from copy_loop_spec [OF l n] have sp: "prefix w src" "sum_list p = length w" "stop = None \<longrightarrow> w = src \<and> h = src"
    by simp_all
  show ?thesis
    using assms(1) None l sp
    by (auto simp: copy_file_def Let_def remove_partial_def split: option.splits copy_stop.splits if_splits)
qed (use assms in \<open>auto simp: copy_file_def remove_partial_def\<close>)

text \<open>A verification checksum of an intact copy equals the checksum of the copy.\<close>

lemma checksum_only_digest:
  assumes "checksum_only io st digest chunk_size src = (Copied h, reported)" "st_copy_chunk_size_bytes st \<noteq> 0"
  shows "h = digest src"
proof -
  let ?n = "int_or chunk_size (st_copy_chunk_size_bytes st)"
  have n: "?n \<noteq> 0" using assms(2) by (simp add: int_or_def split: option.splits)
  obtain w h' p stop where l: "copy_loop (io\<lparr>io_write_error := \<lambda>_. None\<rparr>) ?n 0 src [] [] [] = (w, h', p, stop)"
    by (metis prod_cases4)
  from copy_loop_spec [OF l n] have "stop = None \<longrightarrow> h' = src" by simp
  with assms(1) l show ?thesis
    by (auto simp: checksum_only_def split: option.splits copy_stop.splits)
qed

section \<open>The hash worker refines the plain copy\<close>

function chunks :: "int \<Rightarrow> bytes \<Rightarrow> bytes list" where
  "chunks n rest =
     (let c = read_chunk n rest in if c = [] then [] else c # chunks n (after_chunk n rest))"
  by pat_completeness auto

termination chunks
  by (relation "measure (\<lambda>(n, rest). length rest)") (auto intro: after_chunk_shorter)

declare chunks.simps [simp del]

lemma copy_loop_chunks:
  assumes "\<And>k. \<not> io_expired io k" "\<And>k. io_read_error io k = None" "\<And>k. io_write_error io k = None" "n \<noteq> 0"
  shows "copy_loop io n k rest written hashed reported =
    (written @ rest, hashed @ rest, reported @ map length (chunks n rest), None)"
  using assms
proof (induction io n k rest written hashed reported rule: copy_loop.induct)
  case (1 io n k rest written hashed reported)
  show ?case
  proof (cases "read_chunk n rest = []")
    case True
    with \<open>n \<noteq> 0\<close> have "rest = []" by (auto simp: read_chunk_def split: if_splits)
    with True 1(2,3,4) show ?thesis by (simp add: copy_loop.simps [of io n k] chunks.simps [of n "[]"] Let_def)
  next
    case False
    with 1 read_after [of n rest] show ?thesis
      by (simp add: copy_loop.simps [of io n k] chunks.simps [of n rest] Let_def)
  qed
qed

definition pending_chunk :: "copier \<Rightarrow> bytes list" where
  "pending_chunk c = (case c of Enqueue b \<Rightarrow> [b] | _ \<Rightarrow> [])"

definition queued :: "bytes option list \<Rightarrow> bytes" where
  "queued q = concat (List.map_filter id q)"

text \<open>What is hashed, queued and pending is what was written; the reported lengths follow the plain loop;
  the end marker is the last item.\<close>

definition hash_copy_inv :: "int \<Rightarrow> bytes \<Rightarrow> hash_copy \<Rightarrow> bool" where
  "hash_copy_inv n src s \<longleftrightarrow>
     length (hc_queue s) \<le> hash_queue_size \<and>
     (hc_copier s \<noteq> Stopped \<longrightarrow>
       hc_written s @ hc_rest s = src \<and>
       hc_hashed s @ queued (hc_queue s) @ concat (pending_chunk (hc_copier s)) = hc_written s \<and>
       hc_reported s @ map length (pending_chunk (hc_copier s) @ chunks n (hc_rest s)) = map length (chunks n src) \<and>
       (hc_copier s \<in> {Closing, Joining, Finished} \<longrightarrow> hc_rest s = []) \<and>
       (if hc_copier s \<in> {Joining, Finished}
        then (if hc_digest s = None then hc_copier s = Joining \<and> (\<exists>cs. hc_queue s = map Some cs @ [None])
              else hc_queue s = [] \<and> hc_digest s = Some (hc_hashed s))
        else hc_digest s = None \<and> (\<exists>cs. hc_queue s = map Some cs)))"

lemma queued_simps [simp]:
  "queued [] = []" "queued (Some c # q) = c @ queued q" "queued (None # q) = queued q"
  "queued (q @ q') = queued q @ queued q'"
  by (simp_all add: queued_def List.map_filter_simps List.map_filter_def)

lemma pending_chunk_simps [simp]:
  "pending_chunk Reading = []" "pending_chunk (Enqueue b) = [b]" "pending_chunk Closing = []"
  "pending_chunk Joining = []" "pending_chunk Finished = []" "pending_chunk Stopped = []"
  by (simp_all add: pending_chunk_def)

lemma hash_copy_inv_step:
  assumes "hash_copy_step n s s'" "hash_copy_inv n src s" "n \<noteq> 0"
  shows "hash_copy_inv n src s'"
  using assms(1)
proof cases
  case (hc_read c)
  with assms(2) read_after [of n "hc_rest s"] show ?thesis
    by (auto simp: hash_copy_inv_def chunks.simps [of n "hc_rest s"] Let_def)
next
  case hc_eof
  with \<open>n \<noteq> 0\<close> have "hc_rest s = []" by (auto simp: read_chunk_def split: if_splits)
  with hc_eof assms(2) show ?thesis by (auto simp: hash_copy_inv_def)
next
  case (hc_put c)
  with assms(2) obtain cs where "hc_queue s = map Some cs" by (auto simp: hash_copy_inv_def)
  then have "\<exists>cs. hc_queue s @ [Some c] = map Some cs" by (intro exI [of _ "cs @ [c]"]) simp
  with hc_put assms(2) show ?thesis by (auto simp: hash_copy_inv_def)
next
  case hc_close
  with assms(2) show ?thesis by (auto simp: hash_copy_inv_def)
next
  case (hc_hash c q)
  have "\<exists>cs. q = map Some cs" if "hc_queue s = map Some cs" for cs
    using that hc_hash(2) by (metis list.sel(3) map_tl)
  moreover have "\<exists>cs. q = map Some cs @ [None]" if "hc_queue s = map Some cs @ [None]" for cs
    using that hc_hash(2) by (cases cs) auto
  ultimately show ?thesis using hc_hash assms(2) by (auto simp: hash_copy_inv_def split: if_splits)
next
  case (hc_take_digest q)
  have "q = []" if "hc_queue s = map Some cs @ [None]" for cs
    using that hc_take_digest(2) by (cases cs) auto
  moreover have False if "hc_queue s = map Some cs" for cs
    using that hc_take_digest(2) by (cases cs) auto
  ultimately show ?thesis using hc_take_digest assms(2) by (auto simp: hash_copy_inv_def split: if_splits)
next
  case hc_join
  with assms(2) show ?thesis by (auto simp: hash_copy_inv_def)
qed

lemma hash_copy_reachable_inv:
  "hash_copy_reachable n src s \<Longrightarrow> n \<noteq> 0 \<Longrightarrow> hash_copy_inv n src s"
proof (induction rule: hash_copy_reachable.induct)
  case hc_init
  then show ?case by (simp add: hash_copy_inv_def hash_copy_start_def)
next
  case (hc_next s s')
  show ?case by (rule hash_copy_inv_step [OF hc_next.hyps(2) hc_next.IH [OF hc_next.prems] hc_next.prems])
next
  case (hc_fault s s')
  from hc_fault.hyps(2) have "s' = s\<lparr>hc_copier := Stopped\<rparr>" by cases
  with hc_fault.IH [OF hc_fault.prems] show ?case by (simp add: hash_copy_inv_def)
qed


definition hash_copy_measure :: "hash_copy \<Rightarrow> nat" where
  "hash_copy_measure s =
     4 * length (hc_rest s) + length (hc_queue s) +
     (case hc_copier s of Reading \<Rightarrow> 5 | Enqueue _ \<Rightarrow> 7 | Closing \<Rightarrow> 4 | Joining \<Rightarrow> 2 | Finished \<Rightarrow> 0 | Stopped \<Rightarrow> 0)"

lemma hash_copy_step_decreases: "hash_copy_step n s s' \<Longrightarrow> hash_copy_measure s' < hash_copy_measure s"
proof (induction rule: hash_copy_step.induct)
  case (hc_read s c)
  then have "length (after_chunk n (hc_rest s)) < length (hc_rest s)" by (auto intro: after_chunk_shorter)
  with hc_read show ?case by (simp add: hash_copy_measure_def)
qed (auto simp: hash_copy_measure_def)


section \<open>Bounds of the benchmark plan\<close>

definition plan_bytes :: "('f \<times> int) list \<Rightarrow> int" where
  "plan_bytes sel = sum_list (map snd sel)"

lemma plan_bytes_simps [simp]:
  "plan_bytes [] = 0" "plan_bytes (x # xs) = snd x + plan_bytes xs" "plan_bytes (xs @ ys) = plan_bytes xs + plan_bytes ys"
  by (simp_all add: plan_bytes_def)

lemma plan_bytes_nonneg: "(\<And>x. x \<in> set xs \<Longrightarrow> 0 < snd x) \<Longrightarrow> 0 \<le> plan_bytes xs"
  unfolding plan_bytes_def by (rule sum_list_nonneg) force

lemma plan_bytes_mset: "mset xs = mset ys \<Longrightarrow> plan_bytes xs = plan_bytes ys"
  unfolding plan_bytes_def by (metis mset_map sum_mset_sum_list)

lemma sample_round_spec:
  "sample_round r bs = (r', sel, bs', p) \<Longrightarrow> 0 < r \<Longrightarrow> (\<And>x. x \<in> set (concat bs) \<Longrightarrow> 0 < snd x) \<Longrightarrow>
     r' = r - plan_bytes sel \<and> 0 \<le> r' \<and> plan_bytes sel \<le> plan_bytes (concat bs) \<and>
     (0 < r' \<longrightarrow> plan_bytes (concat bs) = plan_bytes sel + plan_bytes (concat bs')) \<and>
     (0 < r' \<and> \<not> p \<longrightarrow> plan_bytes (concat bs) = 0 \<and> sel = []) \<and>
     (\<forall>(f, k) \<in> set sel. 0 < k \<and> (\<exists>n. (f, n) \<in> set (concat bs) \<and> k \<le> n)) \<and>
     mset (map fst (sel @ concat bs')) = mset (map fst (concat bs)) \<and> set (concat bs') \<subseteq> set (concat bs)"
proof (induction r bs arbitrary: r' sel bs' p rule: sample_round.induct)
  case (2 r bs)
  obtain a b c d where e: "sample_round r bs = (a, b, c, d)" by (metis surj_pair)
  with 2(2) have out: "r' = a" "sel = b" "bs' = [] # c" "p = d" by auto
  have same: "concat ([] # bs) = concat bs" "concat ([] # c) = concat c" by simp_all
  show ?case unfolding out same by (rule 2(1) [OF e 2(3)]) (use 2(4) in \<open>simp only: same\<close>)
next
  case (3 r f n b bs)
  let ?k = "min n r"
  have n: "0 < n" using 3(4) by force
  have "set b \<subseteq> set (concat (((f, n) # b) # bs))" "set (concat bs) \<subseteq> set (concat (((f, n) # b) # bs))" by auto
  with 3(4) have pos: "0 \<le> plan_bytes b" "0 \<le> plan_bytes (concat bs)" by (blast intro: plan_bytes_nonneg)+
  show ?case
  proof (cases "r - ?k \<le> 0")
    case True
    with 3(2,3) n pos show ?thesis by (auto simp: Let_def)
  next
    case False
    obtain x y z w where e: "sample_round (r - ?k) bs = (x, y, z, w)" by (metis surj_pair)
    have k: "?k = n" using False by (simp add: min_def split: if_splits)
    from False have "0 < r - ?k" by simp
    from 3(1) [OF refl refl False e this] 3(4)
    have ih: "x = r - n - plan_bytes y \<and> 0 \<le> x \<and> plan_bytes y \<le> plan_bytes (concat bs) \<and>
       (0 < x \<longrightarrow> plan_bytes (concat bs) = plan_bytes y + plan_bytes (concat z)) \<and>
       (\<forall>(f, k) \<in> set y. 0 < k \<and> (\<exists>n. (f, n) \<in> set (concat bs) \<and> k \<le> n)) \<and>
       mset (map fst (y @ concat z)) = mset (map fst (concat bs)) \<and> set (concat z) \<subseteq> set (concat bs)"
      unfolding k by auto
    from 3(2) False e k have out: "r' = x" "sel = (f, n) # y" "bs' = b # z" "p" by (auto simp: Let_def)
    with ih n pos show ?thesis by fastforce
  qed
qed simp

lemma sample_rounds_spec:
  "0 \<le> r \<Longrightarrow> (\<And>x. x \<in> set (concat bs) \<Longrightarrow> 0 < snd x) \<Longrightarrow>
     plan_bytes (sample_rounds r bs) = min r (plan_bytes (concat bs)) \<and>
     (\<forall>(f, k) \<in> set (sample_rounds r bs). 0 < k \<and> (\<exists>n. (f, n) \<in> set (concat bs) \<and> k \<le> n)) \<and>
     mset (map fst (sample_rounds r bs)) \<subseteq># mset (map fst (concat bs))"
proof (induction r bs rule: sample_rounds.induct)
  case (1 r bs)
  have pos: "0 \<le> plan_bytes (concat bs)" using 1(3) by (auto intro!: plan_bytes_nonneg)
  show ?case
  proof (cases "r \<le> 0")
    case True
    with 1(2) pos show ?thesis by (simp add: sample_rounds.simps)
  next
    case False
    obtain x y z w where e: "sample_round r bs = (x, y, z, w)" by (metis surj_pair)
    from sample_round_spec [OF e _ 1(3)] False
    have sp: "x = r - plan_bytes y" "0 \<le> x" "plan_bytes y \<le> plan_bytes (concat bs)"
      "0 < x \<Longrightarrow> plan_bytes (concat bs) = plan_bytes y + plan_bytes (concat z)"
      "0 < x \<Longrightarrow> \<not> w \<Longrightarrow> plan_bytes (concat bs) = 0 \<and> y = []"
      "\<forall>(f, k) \<in> set y. 0 < k \<and> (\<exists>n. (f, n) \<in> set (concat bs) \<and> k \<le> n)"
      "mset (map fst (y @ concat z)) = mset (map fst (concat bs))" "set (concat z) \<subseteq> set (concat bs)" by auto
    show ?thesis
    proof (cases w)
      case True
      from 1(1) [OF False e [symmetric] refl refl True sp(2)] sp(8) 1(3)
      have ih: "plan_bytes (sample_rounds x z) = min x (plan_bytes (concat z))"
        "\<forall>(f, k) \<in> set (sample_rounds x z). 0 < k \<and> (\<exists>n. (f, n) \<in> set (concat z) \<and> k \<le> n)"
        "mset (map fst (sample_rounds x z)) \<subseteq># mset (map fst (concat z))" by blast+
      have step: "sample_rounds r bs = y @ sample_rounds x z"
        using False e True by (simp add: sample_rounds.simps [of r bs])
      have "0 \<le> plan_bytes (concat z)" using sp(8) 1(3) by (intro plan_bytes_nonneg) blast
      then have "plan_bytes y + min x (plan_bytes (concat z)) = min r (plan_bytes (concat bs))"
        using sp(1-4) by (cases "x = 0") auto
      moreover have "\<forall>(f, k) \<in> set (sample_rounds x z). 0 < k \<and> (\<exists>n. (f, n) \<in> set (concat bs) \<and> k \<le> n)"
        using ih(2) sp(8) by blast
      moreover have "mset (map fst (y @ sample_rounds x z)) \<subseteq># mset (map fst (concat bs))"
        using ih(3) unfolding sp(7) [symmetric] map_append mset_append by (rule mset_subset_eq_mono_add_left_cancel [THEN iffD2])
      ultimately show ?thesis using ih(1) sp(6) by (simp add: step) blast
    next
      case no: False
      have "sample_rounds r bs = y" using False e no by (simp add: sample_rounds.simps [of r bs])
      moreover have "mset (map fst y) \<subseteq># mset (map fst (concat bs))"
        unfolding sp(7) [symmetric] map_append mset_append by (rule mset_subset_eq_add_left)
      moreover have "plan_bytes y = min r (plan_bytes (concat bs))" using sp no by (cases "x = 0") auto
      ultimately show ?thesis using sp(6) by simp
    qed
  qed
qed

lemma order_bucket_mset: "mset (order_bucket b) = mset b"
proof (cases "b = []")
  case False
  define pre where "pre = rev (remdups (rev [length b div 2, 0, length b - 1]))"
  let ?idx = "pre @ filter (\<lambda>i. i \<notin> set pre) [0..<length b]"
  have "length b div 2 < length b" "0 < length b" "length b - 1 < length b" using False by auto
  moreover have "set pre = {length b div 2, 0, length b - 1}" unfolding pre_def set_rev set_remdups by auto
  ultimately have "set pre \<subseteq> set [0..<length b]" by simp
  moreover have "distinct pre" unfolding pre_def distinct_rev by (rule distinct_remdups)
  ultimately have "distinct ?idx" "set ?idx = set [0..<length b]" by auto
  then have "mset ?idx = mset [0..<length b]" by (metis set_eq_iff_mset_eq_distinct distinct_upt)
  then have "mset (map ((!) b) ?idx) = mset (map ((!) b) [0..<length b])" by (metis mset_map)
  then show ?thesis using False unfolding order_bucket_def Let_def pre_def [symmetric] map_nth by simp
qed (simp add: order_bucket_def)

lemma buckets_partition:
  "mset (concat (map (\<lambda>i. filter (\<lambda>x. g x = i) xs) [0..<m])) = filter_mset (\<lambda>x. g x < m) (mset xs)"
proof (induction m)
  case (Suc m)
  have "filter_mset (\<lambda>x. g x < m) M + filter_mset (\<lambda>x. g x = m) M = filter_mset (\<lambda>x. g x < Suc m) M" for M
    by (rule multiset_eqI) auto
  with Suc show ?case by simp
qed simp

lemma find_bucket_bound: "i + length bs = length benchmark_buckets \<Longrightarrow> find_bucket i n bs < length benchmark_buckets"
  by (induction i n bs rule: find_bucket.induct) (auto simp: benchmark_buckets_def)

lemma classify_bucket_bound: "classify_benchmark_bucket n < length benchmark_buckets"
  using find_bucket_bound [of 0 benchmark_buckets n]
  by (simp add: classify_benchmark_bucket_def) (simp add: benchmark_buckets_def)

lemma concat_order_buckets: "mset (concat (map order_bucket (filter (\<lambda>b. b \<noteq> []) bs))) = mset (concat bs)"
  by (induction bs) (auto simp: order_bucket_mset)

lemma benchmark_info_size: "x \<in> set (benchmark_infos fs) \<Longrightarrow> 0 < snd x"
  by (induction fs) (auto simp: benchmark_infos_def List.map_filter_simps split: option.splits if_splits)

text \<open>The benchmark reads exactly as much as it should: the sampled bytes add up to the requested amount, or
  to the size of all readable files if that is less; no file is sampled twice and none beyond its size. The
  selection always ends.\<close>

theorem benchmark_plan_bounds:
  "let plan = build_benchmark_sample_plan fs sample_bytes; infos = benchmark_infos fs
   in sum_list (map snd plan) = min (max 0 sample_bytes) (sum_list (map snd infos)) \<and>
      (\<forall>(f, k) \<in> set plan. 0 < k \<and> (\<exists>n. (f, n) \<in> set infos \<and> k \<le> n)) \<and>
      mset (map fst plan) \<subseteq># mset (map fst infos)"
proof (cases "sample_bytes \<le> 0")
  case True
  have "0 \<le> plan_bytes (benchmark_infos fs)" by (rule plan_bytes_nonneg) (rule benchmark_info_size)
  with True show ?thesis by (simp add: build_benchmark_sample_plan_def plan_bytes_def Let_def max_def)
next
  case False
  define infos where "infos = benchmark_infos fs"
  define bs where "bs = map order_bucket (filter (\<lambda>b. b \<noteq> [])
    (map (\<lambda>i. filter (\<lambda>x. classify_benchmark_bucket (snd x) = i) (sort_key snd infos)) [0..<length benchmark_buckets]))"
  have plan: "build_benchmark_sample_plan fs sample_bytes = sample_rounds sample_bytes bs"
    unfolding build_benchmark_sample_plan_def Let_def bs_def infos_def using False by (simp only: if_False)
  have m: "mset (concat bs) = mset infos"
    unfolding bs_def concat_order_buckets buckets_partition using classify_bucket_bound by simp
  then have same: "set (concat bs) = set infos" by (rule mset_eq_setD)
  have names: "mset (map fst (concat bs)) = mset (map fst infos)" by (simp only: mset_map m)
  have pos: "0 < snd x" if "x \<in> set (concat bs)" for x
    using that unfolding same infos_def by (rule benchmark_info_size)
  have "0 \<le> sample_bytes" using False by simp
  from sample_rounds_spec [OF this pos]
  have sp: "plan_bytes (sample_rounds sample_bytes bs) = min sample_bytes (plan_bytes (concat bs))"
    "\<forall>(f, k) \<in> set (sample_rounds sample_bytes bs). 0 < k \<and> (\<exists>n. (f, n) \<in> set (concat bs) \<and> k \<le> n)"
    "mset (map fst (sample_rounds sample_bytes bs)) \<subseteq># mset (map fst (concat bs))"
    by blast+
  have "sum_list (map snd (sample_rounds sample_bytes bs)) = min (max 0 sample_bytes) (sum_list (map snd infos))"
    using sp(1) False plan_bytes_mset [OF m] by (simp add: plan_bytes_def)
  then show ?thesis
    unfolding Let_def plan infos_def [symmetric] using sp(2,3) [unfolded same names] by (intro conjI)
qed

section \<open>Failure texts\<close>

lemma classify_file_failure_message: "snd (classify_file_failure reason) \<in> set file_failure_messages"
  by (simp add: classify_file_failure_def file_failure_messages_def Let_def)

lemma failure_reason_bounded: "length (sanitize_job_failure_reason cwd reason fallback src dst) \<le> 1024"
  by (simp add: sanitize_job_failure_reason_def Let_def)

section \<open>Examples\<close>

definition plain_io :: copy_io where
  "plain_io = \<lparr>io_open_error = None, io_expired = \<lambda>_. False, io_read_error = \<lambda>_. None, io_write_error = \<lambda>_. None,
     io_sync_error = None, io_unlink_ok = True\<rparr>"

definition chunk_settings :: settings where
  "chunk_settings = \<lparr>st_usb_mount_base_path = ''/mnt/ecube'', st_copy_default_thread_count = 4,
     st_copy_chunk_size_bytes = 2, st_copy_progress_flush_bytes = 4, st_copy_file_fsync_enabled = True\<rparr>"

theorem copy_file_outcome_witness:
  "\<exists>dst p. copy_file plain_io chunk_settings (\<lambda>b. ''d'') None None [1, 2, 3] None = (Copied ''d'', dst, p) \<and>
     dst = Some [1, 2, 3] \<and> sum_list p = 3"
proof -
  let ?r = "copy_file plain_io chunk_settings (\<lambda>b. ''d'') None None [1, 2, 3] None"
  have "fst ?r = Copied ''d''"
    by (simp add: copy_file_def plain_io_def chunk_settings_def int_or_def copy_loop.simps Let_def read_chunk_def after_chunk_def)
  then obtain dst p where r: "?r = (Copied ''d'', dst, p)" by (cases ?r) auto
  from copy_file_outcome [OF r] r show ?thesis by (auto simp: chunk_settings_def)
qed



theorem benchmark_plan_bounds_witness:
  "sum_list (map snd (build_benchmark_sample_plan [(''a'', Some 10), (''b'', Some 20), (''c'', None)] 25)) = 25"
proof -
  have "benchmark_infos [(''a'', Some 10), (''b'', Some 20), (''c'', None)] = [(''a'', 10), (''b'', 20)]"
    by (simp add: benchmark_infos_def List.map_filter_simps)
  with benchmark_plan_bounds [of "[(''a'', Some 10), (''b'', Some 20), (''c'', None)]" 25] show ?thesis
    by (simp add: Let_def)
qed

end
