(* ===== verification/Job_Service.thy ===== *)
theory Job_Service
  imports Job_Repository
begin

text \<open>
  \<open>app/services/job_service.py\<close>: the life cycle of an export job. Every operation returns the
  committed database, the background tasks and callbacks it started (in order), and either an error or
  the job. A request works on a session copy \<open>w\<close> of the committed database \<open>db\<close>: a commit
  replaces \<open>db\<close> by \<open>w\<close>, an error before the commit drops \<open>w\<close>, and writing an audit record
  commits whatever \<open>w\<close> holds. Log records and metrics are not part of the state; the callback
  service, the host's files and the chain-of-custody summary are parameters or effects.
\<close>

section \<open>Errors and effects\<close>

datatype job_error =
    Job_not_found | Job_locked | Confirmation_required | Not_archivable | Eject_before_archive
  | Job_db_error | Job_encoding_error | Analysis_running | Bad_job_status | Source_invalid path_error
  | Start_capacity_shortfall int | Overflow_capacity_shortfall int | No_failed_files | Job_not_clean
  | Share_not_found | Share_other_project | Share_not_mounted | Job_id_exists int
  | Overflow_includes_primary | Drives_not_unique | Job_drive_not_found | Job_drive_locked
  | Drive_not_project_bound | Drive_other_project | Job_drive_not_available | Job_drive_not_mounted
  | Drive_assigned_elsewhere | Source_overlap overlap int | Multiple_project_drives
  | Drive_temporarily_unavailable | No_available_drive | No_assigned_drive | Same_drive
  | Overflow_nothing_failed | Project_immutable | Only_runtime_fields | Not_editable
  | Manifest_not_completed | Manifest_write_failed | Manifest_db_error | Manifest_not_found
  | Manifest_unavailable | No_recommendation

fun job_error_status :: "job_error \<Rightarrow> nat" where
  "job_error_status Job_not_found = 404"
| "job_error_status Confirmation_required = 400"
| "job_error_status Job_db_error = 500"
| "job_error_status Job_encoding_error = 422"
| "job_error_status (Source_invalid _) = 422"
| "job_error_status Share_not_found = 404"
| "job_error_status Overflow_includes_primary = 422"
| "job_error_status Drives_not_unique = 422"
| "job_error_status Job_drive_not_found = 404"
| "job_error_status Drive_other_project = 403"
| "job_error_status Manifest_write_failed = 500"
| "job_error_status Manifest_db_error = 500"
| "job_error_status Manifest_not_found = 404"
| "job_error_status Manifest_unavailable = 500"
| "job_error_status _ = 409"

record manifest_doc =
  md_job_id :: int
  md_project_id :: string
  md_evidence_number :: string
  md_drive_assignment_id :: int
  md_drive_id :: int
  md_generated_at :: int
  md_generated_by :: string
  md_files :: "(string \<times> string option \<times> int option) list"

datatype job_effect =
    Job_callback int string
  | Schedule_copy int
  | Schedule_verify int
  | Schedule_analysis int
  | Write_manifest string manifest_doc

type_synonym job_result = "db \<times> job_effect list \<times> (job_error + export_job)"

definition job_fail :: "job_error \<Rightarrow> db \<Rightarrow> job_result" where
  "job_fail err db = (db, [], Inl err)"

section \<open>Status groups\<close>

definition active_source_overlap_statuses :: "job_status list" where
  "active_source_overlap_statuses = [JPENDING, PREPARING, RUNNING, PAUSING, PAUSED, VERIFYING]"

definition non_archived_duplicate_statuses :: "job_status list" where
  "non_archived_duplicate_statuses = active_source_overlap_statuses @ [COMPLETED, JFAILED]"

definition archivable_job_statuses :: "job_status list" where
  "archivable_job_statuses = [COMPLETED, JFAILED]"

definition started_job_editable_statuses :: "job_status list" where
  "started_job_editable_statuses = [PREPARING, RUNNING, PAUSING, PAUSED, JFAILED]"

definition dashboard_attention_candidate_statuses :: "job_status list" where
  "dashboard_attention_candidate_statuses = [JPENDING, JFAILED, PAUSED, COMPLETED]"

section \<open>Audit records\<close>

text \<open>An audit write by a request that holds the uncommitted changes \<open>w\<close>: it commits both, and on
  failure the session is rolled back to \<open>db\<close>.\<close>

definition audit_commit ::
  "env \<Rightarrow> string \<Rightarrow> string option \<Rightarrow> int option \<Rightarrow> int option \<Rightarrow> (string \<times> jval) list \<Rightarrow> db \<Rightarrow> db \<Rightarrow> db" where
  "audit_commit e action project_id drive_id job_id details w db =
     (case audit_add e action project_id drive_id job_id details w of None \<Rightarrow> db | Some db' \<Rightarrow> db')"

definition audit_job_isolation ::
  "env \<Rightarrow> string \<Rightarrow> int \<Rightarrow> string option \<Rightarrow> int option \<Rightarrow> db \<Rightarrow> db \<Rightarrow> db" where
  "audit_job_isolation e requested drive_id existing job_id =
     audit_commit e ''PROJECT_ISOLATION_VIOLATION'' (Some requested) (Some drive_id) job_id
       [(''actor'', jstr (e_actor e)), (''project_id'', JStr requested), (''drive_id'', JInt drive_id),
        (''existing_project_id'', jstr existing), (''requested_project_id'', JStr requested),
        (''attempted_project_id'', JStr requested)]"

fun overlap_value :: "overlap \<Rightarrow> string" where
  "overlap_value Exact = ''exact''"
| "overlap_value Ancestor = ''ancestor''"
| "overlap_value Descendant = ''descendant''"
| "overlap_value No_overlap = ''none''"

definition audit_source_overlap ::
  "env \<Rightarrow> string \<Rightarrow> int \<Rightarrow> string \<Rightarrow> export_job \<Rightarrow> overlap \<Rightarrow> db \<Rightarrow> db" where
  "audit_source_overlap e project_id drive_id new_source existing kind =
     best_effort_audit e ''JOB_REJECTED_SOURCE_OVERLAP'' (Some project_id) (Some drive_id) None
       [(''actor'', jstr (e_actor e)), (''drive_id'', JInt drive_id), (''project_id'', JStr project_id),
        (''new_source_path'', JStr new_source), (''existing_source_path'', JStr (j_source_path existing)),
        (''overlapping_job_id'', JInt (j_id existing)), (''overlap_type'', JStr (overlap_value kind))]"

definition audit_start_capacity ::
  "env \<Rightarrow> export_job \<Rightarrow> int option \<Rightarrow> int \<Rightarrow> int \<Rightarrow> int \<Rightarrow> db \<Rightarrow> db \<Rightarrow> db" where
  "audit_start_capacity e j drive_id estimated available shortfall =
     audit_commit e ''JOB_START_REJECTED_CAPACITY'' (Some (j_project_id j)) drive_id (Some (j_id j))
       [(''project_id'', JStr (j_project_id j)), (''drive_id'', jint drive_id),
        (''estimated_source_bytes'', JInt estimated), (''available_bytes'', JInt available),
        (''shortfall_bytes'', JInt shortfall)]"

definition audit_overflow_capacity ::
  "env \<Rightarrow> export_job \<Rightarrow> int \<Rightarrow> int \<Rightarrow> int \<Rightarrow> int \<Rightarrow> db \<Rightarrow> db \<Rightarrow> db" where
  "audit_overflow_capacity e j drive_id remaining available shortfall =
     audit_commit e ''JOB_OVERFLOW_REJECTED_CAPACITY'' (Some (j_project_id j)) (Some drive_id) (Some (j_id j))
       [(''project_id'', JStr (j_project_id j)), (''drive_id'', JInt drive_id),
        (''remaining_bytes'', JInt remaining), (''available_bytes'', JInt available),
        (''shortfall_bytes'', JInt shortfall)]"

definition archived_details :: "export_job \<Rightarrow> (string \<times> jval) list" where
  "archived_details j =
     [(''project_id'', JStr (j_project_id j)), (''previous_status'', JStr (job_status_value (j_status j)))]"

definition audit_job_started :: "env \<Rightarrow> export_job \<Rightarrow> int option \<Rightarrow> db \<Rightarrow> db" where
  "audit_job_started e j drive_id =
     best_effort_audit e ''JOB_STARTED'' (Some (j_project_id j)) drive_id (Some (j_id j))
       [(''project_id'', JStr (j_project_id j)), (''drive_id'', jint drive_id)]"

definition audit_job_pause_requested :: "env \<Rightarrow> export_job \<Rightarrow> int option \<Rightarrow> db \<Rightarrow> db" where
  "audit_job_pause_requested e j drive_id =
     best_effort_audit e ''JOB_PAUSE_REQUESTED'' (Some (j_project_id j)) drive_id (Some (j_id j))
       [(''project_id'', JStr (j_project_id j)), (''drive_id'', jint drive_id)]"

definition audit_job_verify_started :: "env \<Rightarrow> export_job \<Rightarrow> int option \<Rightarrow> db \<Rightarrow> db" where
  "audit_job_verify_started e j drive_id =
     best_effort_audit e ''JOB_VERIFY_STARTED'' (Some (j_project_id j)) drive_id (Some (j_id j))
       [(''project_id'', JStr (j_project_id j)), (''drive_id'', jint drive_id)]"

definition audit_analysis_requested :: "env \<Rightarrow> export_job \<Rightarrow> int option \<Rightarrow> db \<Rightarrow> db" where
  "audit_analysis_requested e j drive_id =
     best_effort_audit e ''JOB_STARTUP_ANALYSIS_REQUESTED'' (Some (j_project_id j)) drive_id (Some (j_id j))
       [(''project_id'', JStr (j_project_id j)), (''drive_id'', jint drive_id)]"

definition audit_retry_started :: "env \<Rightarrow> export_job \<Rightarrow> int option \<Rightarrow> nat \<Rightarrow> nat \<Rightarrow> db \<Rightarrow> db" where
  "audit_retry_started e j drive_id errors timeouts =
     best_effort_audit e ''JOB_RETRY_FAILED_FILES_STARTED'' (Some (j_project_id j)) drive_id (Some (j_id j))
       [(''project_id'', JStr (j_project_id j)), (''drive_id'', jint drive_id),
        (''retry_file_count'', JInt (int (errors + timeouts))), (''error_count'', JInt (int errors)),
        (''timeout_count'', JInt (int timeouts))]"

definition audit_completed_manually :: "env \<Rightarrow> export_job \<Rightarrow> int option \<Rightarrow> db \<Rightarrow> db" where
  "audit_completed_manually e j drive_id =
     best_effort_audit e ''JOB_COMPLETED_MANUALLY'' (Some (j_project_id j)) drive_id (Some (j_id j))
       [(''project_id'', JStr (j_project_id j)), (''previous_status'', JStr (job_status_value (j_status j)))]"

definition audit_cache_cleared ::
  "env \<Rightarrow> export_job \<Rightarrow> int option \<Rightarrow> string \<Rightarrow> int \<Rightarrow> int \<Rightarrow> db \<Rightarrow> db" where
  "audit_cache_cleared e j drive_id reason cached_files cached_bytes =
     best_effort_audit e ''JOB_STARTUP_ANALYSIS_CACHE_CLEARED'' (Some (j_project_id j)) drive_id (Some (j_id j))
       [(''reason'', JStr reason), (''cached_file_count'', JInt cached_files), (''cached_total_bytes'', JInt cached_bytes)]"

section \<open>Helpers\<close>

definition active_drive_id :: "int \<Rightarrow> db \<Rightarrow> int option" where
  "active_drive_id job_id db = map_option a_drive_id (get_active_for_job job_id db)"

definition assignment_drive :: "drive_assignment option \<Rightarrow> db \<Rightarrow> usb_drive option" where
  "assignment_drive a db = (case a of None \<Rightarrow> None | Some a \<Rightarrow> get_drive (a_drive_id a) db)"

definition analysis_running :: "export_job \<Rightarrow> bool" where
  "analysis_running j \<longleftrightarrow> sa_status (j_analysis j) = ANALYZING"

definition is_drive_assigned_to_another_job :: "int \<Rightarrow> int option \<Rightarrow> db \<Rightarrow> bool" where
  "is_drive_assigned_to_another_job drive_id exclude_job_id db =
     list_ex (\<lambda>a. a_drive_id a = drive_id \<and> a_released_at a = None \<and> exclude_job_id \<noteq> Some (a_job_id a))
       (assignments db)"

definition other_active_assignments_for_drive :: "int \<Rightarrow> int \<Rightarrow> db \<Rightarrow> nat" where
  "other_active_assignments_for_drive drive_id exclude_job_id db =
     length (filter (\<lambda>a. a_drive_id a = drive_id \<and> a_activated_at a \<noteq> None \<and> a_released_at a = None \<and>
        a_job_id a \<noteq> exclude_job_id) (assignments db))"

definition thread_override :: "int option \<Rightarrow> int option \<Rightarrow> int option" where
  "thread_override requested current =
     (case requested of None \<Rightarrow> current | Some n \<Rightarrow> if n \<noteq> 0 then Some n else current)"

definition source_of :: "settings \<Rightarrow> string option \<Rightarrow> string \<Rightarrow> path_error + string" where
  "source_of st target p = validate_source_path (Some (st_usb_mount_base_path st)) target p"

text \<open>The row lock with which every job operation begins.\<close>

definition with_job :: "env \<Rightarrow> int \<Rightarrow> db \<Rightarrow> (export_job \<Rightarrow> job_result) \<Rightarrow> job_result" where
  "with_job e job_id db k =
     (case get_job_for_update e job_id db of
        Lock_conflict \<Rightarrow> job_fail Job_locked db
      | Row None \<Rightarrow> job_fail Job_not_found db
      | Row (Some j) \<Rightarrow> k j)"

text \<open>\<open>job_repo.save\<close>: commit the session; on failure it is rolled back and the request fails.\<close>

definition save_job :: "env \<Rightarrow> db \<Rightarrow> db \<Rightarrow> job_result \<Rightarrow> job_result" where
  "save_job e w db continue = (if e_db_ok e ''job_save'' then continue else job_fail Job_db_error db)"

section \<open>Archiving\<close>

definition archive_blocked :: "export_job \<Rightarrow> usb_drive option \<Rightarrow> bool" where
  "archive_blocked j drive =
     (case drive of None \<Rightarrow> False
      | Some d \<Rightarrow>
          (let p = normalize_project_id (j_project_id j)
           in p \<noteq> [] \<and> norm_project (d_current_project_id d) = Some p \<and>
              (d_current_state d \<noteq> AVAILABLE \<or> truthy (d_mount_path d))))"

definition archive_job :: "env \<Rightarrow> int \<Rightarrow> bool \<Rightarrow> db \<Rightarrow> job_result" where
  "archive_job e job_id confirm db =
     (if \<not> confirm then job_fail Confirmation_required db
      else with_job e job_id db (\<lambda>j.
        if j_status j \<notin> set archivable_job_statuses then job_fail Not_archivable db
        else let a = get_active_for_job job_id db
             in if archive_blocked j (assignment_drive a db) then job_fail Eject_before_archive db
                else if \<not> e_db_ok e ''JOB_ARCHIVED'' then job_fail Job_db_error db
                else (audit_add_uncommitted e ''JOB_ARCHIVED'' (Some (j_project_id j)) (map_option a_drive_id a)
                        (Some job_id) (archived_details j)
                        (set_job job_id (\<lambda>j. j\<lparr>j_status := ARCHIVED\<rparr>) db),
                      [Job_callback job_id ''JOB_ARCHIVED''], Inr (j\<lparr>j_status := ARCHIVED\<rparr>))))"

section \<open>Starting, pausing, retrying and verifying\<close>

definition start_shortfall :: "export_job \<Rightarrow> usb_drive option \<Rightarrow> (int \<times> int \<times> int) option" where
  "start_shortfall j drive =
     (if j_status j \<notin> {JPENDING, JFAILED, PAUSED} then None
      else if 0 < j_copied_bytes j then None
      else if \<not> startup_analysis_ready j then None
      else case (sa_total_bytes (j_analysis j), Option.bind drive d_available_bytes) of
             (Some estimated, Some available) \<Rightarrow>
               if estimated - available \<le> 0 then None else Some (estimated, available, estimated - available)
           | _ \<Rightarrow> None)"

definition start_update :: "env \<Rightarrow> int option \<Rightarrow> export_job \<Rightarrow> export_job" where
  "start_update e thread_count j =
     j\<lparr>j_status := PREPARING, j_started_by := e_actor e, j_started_at := Some (e_now e),
       j_copy_started_at := None, j_completed_at := None,
       j_thread_count := thread_override thread_count (j_thread_count j)\<rparr>"

definition start_job :: "env \<Rightarrow> settings \<Rightarrow> int \<Rightarrow> int option \<Rightarrow> db \<Rightarrow> job_result" where
  "start_job e st job_id thread_count db =
     with_job e job_id db (\<lambda>j.
       if analysis_running j then job_fail Analysis_running db
       else if j_status j \<notin> {JPENDING, JFAILED, PAUSED} then job_fail Bad_job_status db
       else case source_of st (j_target_mount_path j) (j_source_path j) of
         Inl err \<Rightarrow> job_fail (Source_invalid err) db
       | Inr source \<Rightarrow>
           (let w = set_job job_id (\<lambda>j. j\<lparr>j_source_path := source\<rparr>) db;
                a = get_active_for_job job_id db
            in case start_shortfall j (assignment_drive a db) of
                 Some (estimated, available, shortfall) \<Rightarrow>
                   job_fail (Start_capacity_shortfall shortfall)
                     (audit_start_capacity e j (map_option a_drive_id a) estimated available shortfall w db)
               | None \<Rightarrow>
                   (let w = set_job job_id (start_update e thread_count) w;
                        j' = start_update e thread_count (j\<lparr>j_source_path := source\<rparr>)
                    in save_job e w db
                         (audit_job_started e j' (map_option a_drive_id a) w,
                          [Job_callback job_id ''JOB_STARTED'', Schedule_copy job_id], Inr j'))))"

definition retry_update :: "env \<Rightarrow> export_job \<Rightarrow> export_job" where
  "retry_update e j =
     j\<lparr>j_status := PREPARING, j_started_by := e_actor e, j_started_at := Some (e_now e),
       j_completed_at := None, j_failure_reason := None\<rparr>"

definition retry_failed_files :: "env \<Rightarrow> settings \<Rightarrow> int \<Rightarrow> db \<Rightarrow> job_result" where
  "retry_failed_files e st job_id db =
     with_job e job_id db (\<lambda>j.
       if analysis_running j then job_fail Analysis_running db
       else if j_status j \<noteq> COMPLETED then job_fail Bad_job_status db
       else case source_of st (j_target_mount_path j) (j_source_path j) of
         Inl err \<Rightarrow> job_fail (Source_invalid err) db
       | Inr source \<Rightarrow>
           (let (done, errors, timeouts) = count_done_errors_and_timeouts job_id db
            in if errors + timeouts = 0 then job_fail No_failed_files db
               else let w = set_job job_id (\<lambda>j. j\<lparr>j_source_path := source\<rparr>) db;
                        w = fst (reset_failed_for_retry job_id w);
                        w = set_job job_id (retry_update e) w;
                        j' = retry_update e (j\<lparr>j_source_path := source\<rparr>)
                    in save_job e w db
                         (audit_retry_started e j' (active_drive_id job_id w) errors timeouts w,
                          [Job_callback job_id ''JOB_RETRY_FAILED_FILES_STARTED'', Schedule_copy job_id], Inr j')))"

definition pause_update :: "export_job \<Rightarrow> export_job" where
  "pause_update j = j\<lparr>j_status := PAUSING, j_completed_at := None\<rparr>"

definition pause_job :: "env \<Rightarrow> int \<Rightarrow> db \<Rightarrow> job_result" where
  "pause_job e job_id db =
     with_job e job_id db (\<lambda>j.
       if j_status j \<noteq> RUNNING then job_fail Bad_job_status db
       else let w = set_job job_id pause_update db
            in save_job e w db
                 (audit_job_pause_requested e (pause_update j) (active_drive_id job_id w) w,
                  [Job_callback job_id ''JOB_PAUSE_REQUESTED''], Inr (pause_update j)))"

definition verify_job :: "env \<Rightarrow> int \<Rightarrow> db \<Rightarrow> job_result" where
  "verify_job e job_id db =
     with_job e job_id db (\<lambda>j.
       if j_status j \<noteq> COMPLETED then job_fail Bad_job_status db
       else let (done, failed, timed_out) = count_done_errors_and_timeouts job_id db
            in if failed \<noteq> 0 \<or> timed_out \<noteq> 0 then job_fail Job_not_clean db
               else let w = set_job job_id (\<lambda>j. j\<lparr>j_status := VERIFYING\<rparr>) db
                    in save_job e w db
                         (audit_job_verify_started e (j\<lparr>j_status := VERIFYING\<rparr>) (active_drive_id job_id w) w,
                          [Job_callback job_id ''JOB_VERIFY_STARTED'', Schedule_verify job_id],
                          Inr (j\<lparr>j_status := VERIFYING\<rparr>)))"

section \<open>Startup analysis\<close>

definition cleared_analysis :: "startup_analysis_status \<Rightarrow> startup_analysis \<Rightarrow> startup_analysis" where
  "cleared_analysis status sa =
     sa\<lparr>sa_status := status, sa_last_analyzed_at := None, sa_failure_reason := None, sa_file_count := None,
        sa_total_bytes := None, sa_share_read_mbps := None, sa_drive_write_mbps := None,
        sa_estimated_duration_seconds := None, sa_cache_present := False, sa_entries := None\<rparr>"

definition clear_analysis_cache :: "export_job \<Rightarrow> export_job" where
  "clear_analysis_cache j = j\<lparr>j_analysis := cleared_analysis NOT_ANALYZED (j_analysis j)\<rparr>"

definition mark_analysis_stale :: "export_job \<Rightarrow> export_job" where
  "mark_analysis_stale j = j\<lparr>j_analysis := cleared_analysis STALE (j_analysis j)\<rparr>"

text \<open>\<open>_has_persisted_startup_analysis_state\<close>: some value \<open>is not None\<close>. The flag
  \<open>startup_analysis_cache_present\<close> is a non-null column, whose value is never \<open>None\<close>.\<close>

definition has_persisted_analysis_state :: "export_job \<Rightarrow> bool" where
  "has_persisted_analysis_state j =
     (let sa = j_analysis j
      in list_ex (\<lambda>b. b)
           [sa_status sa \<noteq> NOT_ANALYZED, sa_last_analyzed_at sa \<noteq> None, sa_failure_reason sa \<noteq> None,
            sa_file_count sa \<noteq> None, sa_total_bytes sa \<noteq> None, sa_share_read_mbps sa \<noteq> None,
            sa_drive_write_mbps sa \<noteq> None, sa_estimated_duration_seconds sa \<noteq> None,
            Some (sa_cache_present sa) \<noteq> None, sa_entries sa \<noteq> None])"

definition or_zero :: "int option \<Rightarrow> int" where
  "or_zero v = (case v of None \<Rightarrow> 0 | Some n \<Rightarrow> n)"

definition clear_job_startup_analysis_cache :: "env \<Rightarrow> int \<Rightarrow> bool \<Rightarrow> db \<Rightarrow> job_result" where
  "clear_job_startup_analysis_cache e job_id confirm db =
     (if \<not> confirm then job_fail Confirmation_required db
      else with_job e job_id db (\<lambda>j.
        if analysis_running j then job_fail Analysis_running db
        else if \<not> startup_analysis_cached j then (db, [], Inr j)
        else let w = set_job job_id clear_analysis_cache (delete_entries_by_job job_id db)
             in save_job e w db
                  (audit_cache_cleared e j (active_drive_id job_id w) ''manual_cleanup''
                     (or_zero (sa_file_count (j_analysis j))) (or_zero (sa_total_bytes (j_analysis j))) w,
                   [], Inr (clear_analysis_cache j))))"

definition analyze_update :: "string \<Rightarrow> export_job \<Rightarrow> export_job" where
  "analyze_update source j =
     j\<lparr>j_source_path := source,
       j_analysis := (j_analysis j)\<lparr>sa_status := ANALYZING, sa_failure_reason := None\<rparr>\<rparr>"

definition analyze_job :: "env \<Rightarrow> settings \<Rightarrow> int \<Rightarrow> db \<Rightarrow> job_result" where
  "analyze_job e st job_id db =
     with_job e job_id db (\<lambda>j.
       if analysis_running j then job_fail Analysis_running db
       else if j_status j \<notin> {JPENDING, JFAILED, PAUSED} then job_fail Bad_job_status db
       else case source_of st (j_target_mount_path j) (j_source_path j) of
         Inl err \<Rightarrow> job_fail (Source_invalid err) db
       | Inr source \<Rightarrow>
           (let w = set_job job_id (analyze_update source) db
            in save_job e w db
                 (audit_analysis_requested e (analyze_update source j) (active_drive_id job_id w) w,
                  [Schedule_analysis job_id], Inr (analyze_update source j))))"

section \<open>Requests\<close>

text \<open>The validated bodies of \<open>JobCreate\<close> and \<open>JobUpdate\<close>.\<close>

record job_body =
  b_project_id :: string
  b_evidence_number :: string
  b_source_path :: string
  b_mount_id :: "int option"
  b_drive_id :: "int option"
  b_overflow_drive_ids :: "int list"
  b_thread_count :: "int option"
  b_copy_chunk_size_bytes :: "int option"
  b_copy_progress_flush_bytes :: "int option"
  b_copy_file_fsync_enabled :: "bool option"
  b_auto_apply :: bool
  b_max_file_retries :: int
  b_retry_delay_seconds :: int
  b_notes :: "string option"
  b_callback_url :: "string option"

definition resolve_job_source_path :: "settings \<Rightarrow> job_body \<Rightarrow> db \<Rightarrow> job_error + string" where
  "resolve_job_source_path st body db =
     (let lift = (\<lambda>r. case r of Inl err \<Rightarrow> Inl (Source_invalid err) | Inr p \<Rightarrow> Inr p)
      in case b_mount_id body of
           None \<Rightarrow> lift (resolve_source_path None (Some (st_usb_mount_base_path st)) None (b_source_path body))
         | Some i \<Rightarrow>
             (case get_row m_id i (shares db) of
                None \<Rightarrow> Inl Share_not_found
              | Some m \<Rightarrow>
                  if m_project_id m \<noteq> b_project_id body then Inl Share_other_project
                  else if m_status m \<noteq> MOUNTED \<or> m_local_mount_point m = [] then Inl Share_not_mounted
                  else lift (resolve_source_path (Some (m_local_mount_point m))
                         (Some (st_usb_mount_base_path st)) None (b_source_path body))))"

text \<open>\<open>_reject_source_path_overlap\<close>: the first assigned job, newest first, whose source overlaps.\<close>

definition overlap_conflict :: "string \<Rightarrow> int option \<Rightarrow> export_job \<Rightarrow> bool" where
  "overlap_conflict new_source exclude_job_id existing =
     (let kind = classify_source_path_overlap (j_source_path existing) new_source
      in exclude_job_id \<noteq> Some (j_id existing) \<and> kind \<noteq> No_overlap \<and>
         (kind = Exact \<or> j_status existing \<in> set active_source_overlap_statuses))"

definition overlapping_job :: "int \<Rightarrow> string \<Rightarrow> int option \<Rightarrow> db \<Rightarrow> export_job option" where
  "overlapping_job drive_id new_source exclude_job_id db =
     find (overlap_conflict new_source exclude_job_id)
       (list_assigned_jobs_for_drive drive_id non_archived_duplicate_statuses db)"

definition reject_source_path_overlap ::
  "env \<Rightarrow> string \<Rightarrow> int \<Rightarrow> string \<Rightarrow> int option \<Rightarrow> db \<Rightarrow> (db \<times> job_error) option" where
  "reject_source_path_overlap e project_id drive_id new_source exclude_job_id db =
     (case overlapping_job drive_id new_source exclude_job_id db of
        None \<Rightarrow> None
      | Some x \<Rightarrow>
          (let kind = classify_source_path_overlap (j_source_path x) new_source
           in Some (audit_source_overlap e project_id drive_id new_source x kind db,
                    Source_overlap kind (j_id x))))"

definition add_assignment :: "env \<Rightarrow> int \<Rightarrow> int \<Rightarrow> bool \<Rightarrow> db \<Rightarrow> db" where
  "add_assignment e drive_id job_id activate db =
     db\<lparr>assignments := assignments db @
       [\<lparr>a_id = next_id a_id (assignments db), a_drive_id = drive_id, a_job_id = job_id, a_file_count = 0,
         a_copied_bytes = 0, a_assigned_at = e_now e,
         a_activated_at = (if activate then Some (e_now e) else None), a_released_at = None\<rparr>]\<rparr>"

definition drive_in_use :: "usb_drive \<Rightarrow> usb_drive" where
  "drive_in_use d = d\<lparr>d_current_state := IN_USE\<rparr>"

definition drive_available :: "usb_drive \<Rightarrow> usb_drive" where
  "drive_available d = d\<lparr>d_current_state := AVAILABLE\<rparr>"

section \<open>Creating a job\<close>

definition new_job :: "env \<Rightarrow> job_body \<Rightarrow> string \<Rightarrow> int \<Rightarrow> export_job" where
  "new_job e body source i =
     \<lparr>j_id = i, j_project_id = normalize_project_id (b_project_id body),
      j_evidence_number = b_evidence_number body, j_source_path = source, j_target_mount_path = None,
      j_status = JPENDING, j_total_bytes = 0, j_copied_bytes = 0, j_file_count = 0,
      j_thread_count = b_thread_count body, j_copy_chunk_size_bytes = b_copy_chunk_size_bytes body,
      j_copy_progress_flush_bytes = b_copy_progress_flush_bytes body,
      j_copy_file_fsync_enabled = b_copy_file_fsync_enabled body,
      j_auto_apply_recommended_profile = b_auto_apply body, j_max_file_retries = b_max_file_retries body,
      j_retry_delay_seconds = b_retry_delay_seconds body, j_active_duration_seconds = 0,
      j_started_at = None, j_copy_started_at = None, j_completed_at = None, j_created_by = e_actor e,
      j_started_by = None, j_client_ip = e_client_ip e, j_callback_url = b_callback_url body,
      j_failure_reason = None,
      j_analysis = \<lparr>sa_status = NOT_ANALYZED, sa_last_analyzed_at = None, sa_failure_reason = None,
        sa_file_count = None, sa_total_bytes = None, sa_share_read_mbps = None, sa_drive_write_mbps = None,
        sa_estimated_duration_seconds = None, sa_cache_present = False, sa_revision = 0, sa_entries = None\<rparr>,
      j_created_at = e_now e\<rparr>"

text \<open>A rejection: the database it leaves, and the error.\<close>

type_synonym rejection = "db \<times> job_error"

text \<open>The source path of the new job in the session.\<close>

definition job_source :: "int \<Rightarrow> db \<Rightarrow> string" where
  "job_source job_id w = (case get_job job_id w of None \<Rightarrow> [] | Some j \<Rightarrow> j_source_path j)"

text \<open>\<open>_reserve_selected_drive\<close>: the working session and the selected drives, or a rejection.
  \<open>primary\<close> stands for both \<open>activate_now\<close> and \<open>require_primary_overlap_check\<close>, which every call
  sets to the same value. Only the primary drive replaces the job's source path by the validated one.
  The new job has no assignment yet, so the overlap query sees the jobs of the committed database.\<close>

definition reserve_selected_drive ::
  "env \<Rightarrow> settings \<Rightarrow> job_body \<Rightarrow> int \<Rightarrow> bool \<Rightarrow> db \<Rightarrow> int \<Rightarrow> db \<times> int list \<Rightarrow>
   rejection + (db \<times> int list \<times> usb_drive)" where
  "reserve_selected_drive e st body job_id primary db drive_id ws =
     (let (w, selected) = ws
      in if drive_id \<in> set selected then Inl (db, Drives_not_unique)
         else case get_drive_for_update e drive_id w of
           Lock_conflict \<Rightarrow> Inl (db, Job_drive_locked)
         | Row None \<Rightarrow> Inl (db, Job_drive_not_found)
         | Row (Some d) \<Rightarrow>
             if d_current_project_id d = None then Inl (db, Drive_not_project_bound)
             else if d_current_project_id d \<noteq> Some (b_project_id body) then
               Inl (audit_job_isolation e (b_project_id body) drive_id (d_current_project_id d) None db db,
                    Drive_other_project)
             else if d_current_state d \<notin> {AVAILABLE, IN_USE} then Inl (db, Job_drive_not_available)
             else if \<not> truthy (d_mount_path d) then Inl (db, Job_drive_not_mounted)
             else if \<not> primary \<and> is_drive_assigned_to_another_job drive_id None w
               then Inl (db, Drive_assigned_elsewhere)
             else case source_of st (d_mount_path d) (job_source job_id w) of
               Inl err \<Rightarrow> Inl (db, Source_invalid err)
             | Inr validated \<Rightarrow>
                 (case (if primary then reject_source_path_overlap e (b_project_id body) drive_id validated None db
                        else None) of
                    Some r \<Rightarrow> Inl r
                  | None \<Rightarrow>
                      (let w = (if primary then set_job job_id (\<lambda>j. j\<lparr>j_source_path := validated\<rparr>) w else w);
                           w = add_assignment e drive_id job_id primary w;
                           w = set_drive drive_id drive_in_use w
                       in Inr (w, selected @ [drive_id], d))))"

datatype selection = Explicit | Project_bound | Unbound_fallback

fun selection_value :: "selection \<Rightarrow> string" where
  "selection_value Explicit = []"
| "selection_value Project_bound = ''project_bound''"
| "selection_value Unbound_fallback = ''unbound_fallback''"

definition auto_assign_drive :: "env \<Rightarrow> string \<Rightarrow> db \<Rightarrow> job_error + (usb_drive \<times> selection)" where
  "auto_assign_drive e project_id w =
     (case get_one_available_for_project e project_id w of
        Some d \<Rightarrow> if 1 < count_available_for_project project_id w then Inl Multiple_project_drives
                  else Inr (d, Project_bound)
      | None \<Rightarrow>
          if 1 \<le> count_available_for_project project_id w then
            Inl (if 1 < count_available_for_project project_id w then Multiple_project_drives
                 else Drive_temporarily_unavailable)
          else case get_next_unbound_available e w of
                 Some d \<Rightarrow> Inr (d\<lparr>d_current_project_id := drive_project_validator (Some project_id)\<rparr>, Unbound_fallback)
               | None \<Rightarrow> Inl No_available_drive)"

text \<open>The primary destination: the requested drive or the automatic choice.\<close>

definition select_primary ::
  "env \<Rightarrow> settings \<Rightarrow> job_body \<Rightarrow> int \<Rightarrow> db \<Rightarrow> db \<Rightarrow> rejection + (db \<times> int list \<times> usb_drive \<times> selection)" where
  "select_primary e st body job_id db w =
     (case b_drive_id body of
        Some drive_id \<Rightarrow>
          (case reserve_selected_drive e st body job_id True db drive_id (w, []) of
             Inl r \<Rightarrow> Inl r
           | Inr (w, selected, d) \<Rightarrow>
               Inr (set_job job_id (\<lambda>j. j\<lparr>j_target_mount_path := d_mount_path d\<rparr>) w, selected, d, Explicit))
      | None \<Rightarrow>
          (case auto_assign_drive e (b_project_id body) w of
             Inl err \<Rightarrow> Inl (db, err)
           | Inr (d, sel) \<Rightarrow>
               if \<not> truthy (d_mount_path d) then Inl (db, Job_drive_not_mounted)
               else case source_of st (d_mount_path d) (job_source job_id w) of
                 Inl err \<Rightarrow> Inl (db, Source_invalid err)
               | Inr validated \<Rightarrow>
                   (case reject_source_path_overlap e (b_project_id body) (d_id d) validated None db of
                      Some r \<Rightarrow> Inl r
                    | None \<Rightarrow>
                        (let w = set_job job_id (\<lambda>j. j\<lparr>j_target_mount_path := d_mount_path d,
                                                       j_source_path := validated\<rparr>) w;
                             w = add_assignment e (d_id d) job_id True w;
                             w = set_drive (d_id d) (\<lambda>x. x\<lparr>d_current_project_id := d_current_project_id d,
                                                          d_current_state := IN_USE\<rparr>) w
                         in Inr (w, [d_id d], d, sel)))))"

text \<open>A failing flush or commit; \<open>exc\<close> is the text of the exception the database raises then.\<close>

definition create_db_error :: "string \<Rightarrow> job_error" where
  "create_db_error exc = (if is_encoding_error exc then Job_encoding_error else Job_db_error)"

fun reserve_overflow_drives ::
  "env \<Rightarrow> settings \<Rightarrow> string \<Rightarrow> job_body \<Rightarrow> int \<Rightarrow> db \<Rightarrow> int list \<Rightarrow> db \<times> int list \<Rightarrow> rejection + db" where
  "reserve_overflow_drives e st exc body job_id db [] ws = Inr (fst ws)"
| "reserve_overflow_drives e st exc body job_id db (i # is) ws =
     (case reserve_selected_drive e st body job_id False db i ws of
        Inl r \<Rightarrow> Inl r
      | Inr (w, selected, d) \<Rightarrow>
          if \<not> e_db_ok e ''create_job_overflow'' then Inl (db, create_db_error exc)
          else reserve_overflow_drives e st exc body job_id db is (w, selected))"

definition audit_drive_project_bound :: "env \<Rightarrow> int \<Rightarrow> int \<Rightarrow> string \<Rightarrow> db \<Rightarrow> db option" where
  "audit_drive_project_bound e job_id drive_id project_id =
     audit_add e ''DRIVE_PROJECT_BOUND'' None None (Some job_id)
       [(''drive_id'', JInt drive_id), (''project_id'', JStr project_id)]"

definition audit_drive_auto_assigned :: "env \<Rightarrow> int \<Rightarrow> int \<Rightarrow> string \<Rightarrow> selection \<Rightarrow> db \<Rightarrow> db option" where
  "audit_drive_auto_assigned e job_id drive_id project_id sel =
     audit_add e ''DRIVE_AUTO_ASSIGNED'' None None (Some job_id)
       [(''drive_id'', JInt drive_id), (''project_id'', JStr project_id), (''selection'', JStr (selection_value sel))]"

text \<open>Both records are written in one \<open>try\<close> block: when the first fails, the second is not attempted.\<close>

definition audit_auto_selection :: "env \<Rightarrow> int \<Rightarrow> int \<Rightarrow> string \<Rightarrow> selection \<Rightarrow> db \<Rightarrow> db" where
  "audit_auto_selection e job_id drive_id project_id sel db =
     (case sel of
        Explicit \<Rightarrow> db
      | _ \<Rightarrow>
          (case (if sel = Unbound_fallback then audit_drive_project_bound e job_id drive_id project_id db else Some db) of
             None \<Rightarrow> db
           | Some db1 \<Rightarrow>
               (case audit_drive_auto_assigned e job_id drive_id project_id sel db1 of None \<Rightarrow> db1 | Some db2 \<Rightarrow> db2)))"

definition created_details :: "settings \<Rightarrow> job_body \<Rightarrow> export_job \<Rightarrow> (string \<times> jval) list" where
  "created_details st body j =
     (let tuning = resolve_job_copy_tuning st j
      in [(''project_id'', JStr (b_project_id body)), (''evidence_number'', JStr (b_evidence_number body))] @
         (if b_thread_count body \<noteq> None then [(''thread_count'', JInt (effective_thread_count tuning))] else []) @
         (if b_copy_chunk_size_bytes body \<noteq> None
          then [(''copy_chunk_size_bytes'', JInt (effective_copy_chunk_size_bytes tuning))] else []) @
         (if b_copy_progress_flush_bytes body \<noteq> None
          then [(''copy_progress_flush_bytes'', JInt (effective_copy_progress_flush_bytes tuning))] else []) @
         (if b_copy_file_fsync_enabled body \<noteq> None
          then [(''copy_file_fsync_enabled'', JBool (effective_copy_file_fsync_enabled tuning))] else []) @
         [(''startup_analysis_auto_apply_recommended_profile'', JBool (b_auto_apply body))] @
         (if truthy (b_notes body) then [(''processor_notes'', jstr (b_notes body))] else []) @
         (if b_overflow_drive_ids body \<noteq> []
          then [(''overflow_drive_ids'', JList (map JInt (b_overflow_drive_ids body)))] else []))"

definition audit_job_created :: "env \<Rightarrow> settings \<Rightarrow> job_body \<Rightarrow> export_job \<Rightarrow> db \<Rightarrow> db" where
  "audit_job_created e st body j =
     best_effort_audit e ''JOB_CREATED'' None None (Some (j_id j)) (created_details st body j)"

definition create_job :: "env \<Rightarrow> settings \<Rightarrow> string \<Rightarrow> job_body \<Rightarrow> int option \<Rightarrow> db \<Rightarrow> job_result" where
  "create_job e st exc body seeded_job_id db =
     (case resolve_job_source_path st body db of
        Inl err \<Rightarrow> job_fail err db
      | Inr source \<Rightarrow>
          (let job_id = (case seeded_job_id of None \<Rightarrow> next_id j_id (jobs db) | Some i \<Rightarrow> i);
               w = db\<lparr>jobs := jobs db @ [new_job e body source job_id]\<rparr>
           in if seeded_job_id \<noteq> None \<and> get_job job_id db \<noteq> None then job_fail (Job_id_exists job_id) db
              else if \<not> e_db_ok e ''create_job_insert'' then job_fail (create_db_error exc) db
              else if (case b_drive_id body of None \<Rightarrow> False | Some d \<Rightarrow> d \<in> set (b_overflow_drive_ids body))
                then job_fail Overflow_includes_primary db
              else case select_primary e st body job_id db w of
                Inl (db', err) \<Rightarrow> job_fail err db'
              | Inr (w, selected, d, sel) \<Rightarrow>
                  if \<not> e_db_ok e ''create_job_assign'' then job_fail (create_db_error exc) db
                  else case reserve_overflow_drives e st exc body job_id db (b_overflow_drive_ids body) (w, selected) of
                    Inl (db', err) \<Rightarrow> job_fail err db'
                  | Inr w \<Rightarrow>
                      if \<not> e_db_ok e ''create_job'' then job_fail (create_db_error exc) db
                      else let j = the (get_job job_id w);
                               db1 = audit_auto_selection e job_id (d_id d) (b_project_id body) sel w
                           in (audit_job_created e st body j db1, [Job_callback job_id ''JOB_CREATED''], Inr j)))"

section \<open>Continuing on an overflow drive\<close>

definition remaining_estimated_bytes :: "export_job \<Rightarrow> int option" where
  "remaining_estimated_bytes j =
     (if \<not> startup_analysis_ready j then None
      else case sa_total_bytes (j_analysis j) of None \<Rightarrow> None | Some n \<Rightarrow> Some (max 0 (n - j_copied_bytes j)))"

definition overflow_shortfall :: "export_job \<Rightarrow> usb_drive \<Rightarrow> (int \<times> int \<times> int) option" where
  "overflow_shortfall j d =
     (case (remaining_estimated_bytes j, d_available_bytes d) of
        (Some remaining, Some available) \<Rightarrow>
          if remaining - available \<le> 0 then None else Some (remaining, available, remaining - available)
      | _ \<Rightarrow> None)"

definition activate_reserved_or_new_assignment :: "env \<Rightarrow> int \<Rightarrow> int \<Rightarrow> db \<Rightarrow> db \<times> int" where
  "activate_reserved_or_new_assignment e job_id drive_id w =
     (case get_reserved_for_job_and_drive job_id drive_id w of
        Some a \<Rightarrow> (set_assignment (a_id a) (\<lambda>a. a\<lparr>a_activated_at := Some (e_now e)\<rparr>) w, a_id a)
      | None \<Rightarrow> (add_assignment e drive_id job_id True w, next_id a_id (assignments w)))"

definition overflow_update :: "env \<Rightarrow> string \<Rightarrow> string option \<Rightarrow> int option \<Rightarrow> export_job \<Rightarrow> export_job" where
  "overflow_update e source mount_path thread_count j =
     j\<lparr>j_source_path := source, j_target_mount_path := mount_path, j_status := PREPARING,
       j_started_by := e_actor e, j_started_at := Some (e_now e), j_copy_started_at := None,
       j_completed_at := None, j_failure_reason := None,
       j_thread_count := thread_override thread_count (j_thread_count j)\<rparr>"

definition audit_overflow_started ::
  "env \<Rightarrow> export_job \<Rightarrow> int \<Rightarrow> int \<Rightarrow> int \<Rightarrow> nat \<Rightarrow> db \<Rightarrow> db" where
  "audit_overflow_started e j previous_drive_id drive_id assignment_id retryable =
     best_effort_audit e ''JOB_OVERFLOW_CONTINUATION_STARTED'' (Some (j_project_id j)) (Some drive_id) (Some (j_id j))
       [(''project_id'', JStr (j_project_id j)), (''previous_drive_id'', JInt previous_drive_id),
        (''drive_id'', JInt drive_id), (''drive_assignment_id'', JInt assignment_id),
        (''retry_file_count'', JInt (int retryable))]"

text \<open>The guards on the requested drive, shared by the overflow continuation and the job update.\<close>

definition target_drive_guards ::
  "env \<Rightarrow> export_job \<Rightarrow> usb_drive \<Rightarrow> db \<Rightarrow> rejection option" where
  "target_drive_guards e j d db =
     (if d_current_project_id d \<notin> {None, Some (j_project_id j)} then
        Some (audit_job_isolation e (j_project_id j) (d_id d) (d_current_project_id d) (Some (j_id j)) db db,
              Drive_other_project)
      else if d_current_state d \<notin> {AVAILABLE, IN_USE} then Some (db, Job_drive_not_available)
      else if \<not> truthy (d_mount_path d) then Some (db, Job_drive_not_mounted)
      else None)"

text \<open>Release the active assignment; the previous drive becomes available when no other job uses it.\<close>

definition release_active ::
  "env \<Rightarrow> int \<Rightarrow> drive_assignment \<Rightarrow> db \<Rightarrow> job_error + db" where
  "release_active e job_id a w =
     (let w = set_assignment (a_id a) (\<lambda>a. a\<lparr>a_released_at := Some (e_now e)\<rparr>) w
      in case get_drive_for_update e (a_drive_id a) w of
           Lock_conflict \<Rightarrow> Inl Job_drive_locked
         | Row None \<Rightarrow> Inr w
         | Row (Some _) \<Rightarrow>
             Inr (if other_active_assignments_for_drive (a_drive_id a) job_id w = 0
                  then set_drive (a_drive_id a) drive_available w else w))"

definition bind_if_unbound :: "export_job \<Rightarrow> usb_drive \<Rightarrow> usb_drive" where
  "bind_if_unbound j d =
     (if d_current_project_id d = None
      then d\<lparr>d_current_project_id := drive_project_validator (Some (j_project_id j))\<rparr> else d)"

text \<open>The pending changes of an accepted continuation, in the order of the code.\<close>

definition overflow_session ::
  "env \<Rightarrow> export_job \<Rightarrow> drive_assignment \<Rightarrow> usb_drive \<Rightarrow> string \<Rightarrow> int option \<Rightarrow> nat \<Rightarrow> db \<Rightarrow>
   job_error + db \<times> int" where
  "overflow_session e j a d source thread_count retryable db =
     (case release_active e (j_id j) a (set_drive (d_id d) (bind_if_unbound j) db) of
        Inl err \<Rightarrow> Inl err
      | Inr w \<Rightarrow>
          (let (w, next_assignment) = activate_reserved_or_new_assignment e (j_id j) (d_id d) w;
               w = set_drive (d_id d) drive_in_use w;
               w = set_job (j_id j) (overflow_update e source (d_mount_path d) thread_count) w
           in Inr (if 0 < retryable then fst (reset_failed_for_retry (j_id j) w) else w, next_assignment)))"

definition continue_job_overflow :: "env \<Rightarrow> settings \<Rightarrow> int \<Rightarrow> int \<Rightarrow> int option \<Rightarrow> db \<Rightarrow> job_result" where
  "continue_job_overflow e st job_id drive_id thread_count db =
     with_job e job_id db (\<lambda>j.
       if analysis_running j then job_fail Analysis_running db
       else if j_status j \<notin> {JPENDING, PAUSED, JFAILED, COMPLETED} then job_fail Bad_job_status db
       else case get_active_for_job job_id db of
         None \<Rightarrow> job_fail No_assigned_drive db
       | Some a \<Rightarrow>
           if drive_id = a_drive_id a then job_fail Same_drive db
           else if is_drive_assigned_to_another_job drive_id (Some job_id) db then job_fail Drive_assigned_elsewhere db
           else case get_drive_for_update e drive_id db of
             Lock_conflict \<Rightarrow> job_fail Job_drive_locked db
           | Row None \<Rightarrow> job_fail Job_drive_not_found db
           | Row (Some d) \<Rightarrow>
               (case target_drive_guards e j d db of
                  Some (db', err) \<Rightarrow> job_fail err db'
                | None \<Rightarrow>
                    (case source_of st (d_mount_path d) (j_source_path j) of
                       Inl err \<Rightarrow> job_fail (Source_invalid err) db
                     | Inr source \<Rightarrow>
                         (case reject_source_path_overlap e (j_project_id j) drive_id source (Some job_id) db of
                            Some (db', err) \<Rightarrow> job_fail err db'
                          | None \<Rightarrow>
                              (let (done, errors, timeouts) = count_done_errors_and_timeouts job_id db;
                                   retryable = errors + timeouts
                               in if j_status j = COMPLETED \<and> retryable = 0 then job_fail Overflow_nothing_failed db
                                  else case overflow_shortfall j d of
                                    Some (remaining, available, shortfall) \<Rightarrow>
                                      job_fail (Overflow_capacity_shortfall shortfall)
                                        (audit_overflow_capacity e j drive_id remaining available shortfall
                                           (set_job job_id (\<lambda>j. j\<lparr>j_source_path := source\<rparr>) db) db)
                                  | None \<Rightarrow>
                                      (case overflow_session e j a d source thread_count retryable db of
                                         Inl err \<Rightarrow> job_fail err db
                                       | Inr (w, next_assignment) \<Rightarrow>
                                           (let j' = overflow_update e source (d_mount_path d) thread_count j
                                            in save_job e w db
                                                 (audit_overflow_started e j' (a_drive_id a) drive_id
                                                    next_assignment retryable w,
                                                  [Job_callback job_id ''JOB_OVERFLOW_CONTINUATION_STARTED'',
                                                   Schedule_copy job_id], Inr j'))))))))"

section \<open>Deleting a job\<close>

definition delete_job_rows :: "int \<Rightarrow> db \<Rightarrow> db" where
  "delete_job_rows job_id w =
     w\<lparr>manifests := filter (\<lambda>m. mf_job_id m \<noteq> job_id) (manifests w),
       files := filter (\<lambda>f. f_job_id f \<noteq> job_id) (files w),
       assignments := filter (\<lambda>a. a_job_id a \<noteq> job_id) (assignments w),
       entries := filter (\<lambda>n. n_job_id n \<noteq> job_id) (entries w),
       jobs := filter (\<lambda>j. j_id j \<noteq> job_id) (jobs w)\<rparr>"

text \<open>
  \<open>AuditLog.job_id\<close> is a foreign key with \<open>ON DELETE SET NULL\<close>. On a backend that enforces
  foreign keys (\<open>fk\<close>), deleting the job clears the column in earlier records, and a record that names
  a job that does not exist is refused.
\<close>

definition unlink_audits :: "bool \<Rightarrow> int \<Rightarrow> db \<Rightarrow> db" where
  "unlink_audits fk job_id w =
     (if fk then w\<lparr>audits := map (\<lambda>l. if l_job_id l = Some job_id then l\<lparr>l_job_id := None\<rparr> else l) (audits w)\<rparr> else w)"

definition audit_job_deleted :: "bool \<Rightarrow> env \<Rightarrow> int \<Rightarrow> string \<Rightarrow> int option \<Rightarrow> db \<Rightarrow> db" where
  "audit_job_deleted fk e job_id project_id drive_id db =
     (if fk \<and> get_job job_id db = None then db
      else best_effort_audit e ''JOB_DELETED'' (Some project_id) drive_id (Some job_id)
             [(''job_id'', JInt job_id), (''project_id'', JStr project_id), (''drive_id'', jint drive_id)] db)"

definition delete_job :: "bool \<Rightarrow> env \<Rightarrow> int \<Rightarrow> db \<Rightarrow> job_result" where
  "delete_job fk e job_id db =
     with_job e job_id db (\<lambda>j.
       if analysis_running j then job_fail Analysis_running db
       else if j_status j \<noteq> JPENDING then job_fail Bad_job_status db
       else let drive_id = active_drive_id job_id db
            in case (case drive_id of
                       None \<Rightarrow> Inr db
                     | Some i \<Rightarrow>
                         (case get_drive_for_update e i db of
                            Lock_conflict \<Rightarrow> Inl Job_drive_locked
                          | Row None \<Rightarrow> Inr db
                          | Row (Some _) \<Rightarrow>
                              Inr (if other_active_assignments_for_drive i job_id db = 0
                                   then set_drive i drive_available db else db))) of
                 Inl err \<Rightarrow> job_fail err db
               | Inr w \<Rightarrow>
                   (let w = unlink_audits fk job_id (delete_job_rows job_id w)
                    in if \<not> e_db_ok e ''delete_job'' then job_fail Job_db_error db
                       else (audit_job_deleted fk e job_id (j_project_id j) drive_id w, [], Inr j)))"

section \<open>Manifests\<close>

text \<open>The host: which files exist, and whether the manifest file could be written.\<close>

record manifest_host =
  mh_exists :: "string \<Rightarrow> bool"
  mh_write :: "string \<Rightarrow> bool"

definition latest_manifest_is_current :: "manifest_host \<Rightarrow> export_job \<Rightarrow> manifest option \<Rightarrow> bool" where
  "latest_manifest_is_current host j m =
     (case m of
        None \<Rightarrow> False
      | Some m \<Rightarrow>
          truthy (mf_manifest_path m) \<and> mh_exists host (the (mf_manifest_path m)) \<and>
          (case j_completed_at j of None \<Rightarrow> True | Some t \<Rightarrow> t \<le> mf_created_at m))"

text \<open>The completed files of the job on one assignment.\<close>

definition manifest_files :: "int \<Rightarrow> int \<Rightarrow> db \<Rightarrow> export_file list" where
  "manifest_files job_id assignment_id db =
     filter (\<lambda>f. f_drive_assignment_id f = Some assignment_id \<and> f_status f = DONE) (files_of job_id db)"

definition manifest_targets_for_job :: "int \<Rightarrow> db \<Rightarrow> (drive_assignment \<times> export_file list) list" where
  "manifest_targets_for_job job_id db =
     (let ids = remdups (List.map_filter (\<lambda>f. if f_status f = DONE then f_drive_assignment_id f else None)
                           (files_of job_id db));
          targets = List.map_filter (\<lambda>i. map_option (\<lambda>a. (a, manifest_files job_id i db))
                           (get_row a_id i (assignments db))) ids;
          targets = (if targets = []
                     then (case get_active_for_job job_id db of None \<Rightarrow> [] | Some a \<Rightarrow> [(a, [])]) else targets)
      in sort_key (\<lambda>(a, fs). (a_assigned_at a, a_id a)) targets)"

definition manifest_targets_needing_refresh ::
  "manifest_host \<Rightarrow> export_job \<Rightarrow> db \<Rightarrow> (drive_assignment \<times> export_file list) list" where
  "manifest_targets_needing_refresh host j db =
     filter (\<lambda>(a, fs). \<not> latest_manifest_is_current host j (get_latest_for_assignment (j_id j) (a_id a) db))
       (manifest_targets_for_job (j_id j) db)"

definition generated_by :: "env \<Rightarrow> string" where
  "generated_by e = (if truthy (e_actor e) then the (e_actor e) else ''system'')"

definition manifest_data :: "env \<Rightarrow> export_job \<Rightarrow> drive_assignment \<Rightarrow> export_file list \<Rightarrow> manifest_doc" where
  "manifest_data e j a fs =
     \<lparr>md_job_id = j_id j, md_project_id = j_project_id j, md_evidence_number = j_evidence_number j,
      md_drive_assignment_id = a_id a, md_drive_id = a_drive_id a, md_generated_at = e_now e,
      md_generated_by = generated_by e,
      md_files = map (\<lambda>f. (f_relative_path f, f_checksum f, f_size_bytes f)) fs\<rparr>"

definition audit_manifest ::
  "string \<Rightarrow> env \<Rightarrow> export_job \<Rightarrow> int \<Rightarrow> string option \<Rightarrow> string option \<Rightarrow> db \<Rightarrow> db" where
  "audit_manifest action e j drive_id file err =
     best_effort_audit e action (Some (j_project_id j)) (Some drive_id) (Some (j_id j))
       [(''project_id'', JStr (j_project_id j)), (''drive_id'', JInt drive_id), (''manifest_file'', jstr file),
        (''generated_at'', JInt (e_now e)), (''generated_by'', JStr (generated_by e)), (''error'', jstr err)]"

definition audit_manifest_failure :: "env \<Rightarrow> export_job \<Rightarrow> int \<Rightarrow> string option \<Rightarrow> string \<Rightarrow> db \<Rightarrow> db" where
  "audit_manifest_failure e j drive_id file err = audit_manifest ''MANIFEST_CREATE_FAILED'' e j drive_id file (Some err)"

definition audit_manifest_created :: "env \<Rightarrow> export_job \<Rightarrow> int \<Rightarrow> string \<Rightarrow> db \<Rightarrow> db" where
  "audit_manifest_created e j drive_id file = audit_manifest ''MANIFEST_CREATED'' e j drive_id (Some file) None"

definition manifest_name :: string where
  "manifest_name = ''manifest.json''"

fun generate_manifests ::
  "env \<Rightarrow> manifest_host \<Rightarrow> bool \<Rightarrow> export_job \<Rightarrow> (drive_assignment \<times> export_file list) list \<Rightarrow> bool \<Rightarrow> db \<Rightarrow>
   db \<times> job_effect list \<times> (job_error + bool)" where
  "generate_manifests e host strict j [] created db = (db, [], Inr created)"
| "generate_manifests e host strict j ((a, fs) # targets) created db =
     (let mount = Option.bind (get_drive (a_drive_id a) db) d_mount_path
      in if \<not> truthy mount then
           (if strict
            then (audit_manifest_failure e j (a_drive_id a) None ''Assigned drive is not mounted'' db, [],
                  Inl Job_drive_not_mounted)
            else (db, [], Inr created))
         else let path = path_join (the mount) manifest_name
              in if \<not> mh_write host path then
                   (audit_manifest_failure e j (a_drive_id a) (Some manifest_name)
                      ''Manifest file could not be written'' db, [],
                    if strict then Inl Manifest_write_failed else Inr created)
                 else case add_manifest e (j_id j) (Some (a_id a)) path db of
                   None \<Rightarrow> (db, [Write_manifest path (manifest_data e j a fs)],
                            if strict then Inl Manifest_db_error else Inr created)
                 | Some db1 \<Rightarrow>
                     (let (db2, calls, r) = generate_manifests e host strict j targets True
                            (audit_manifest_created e j (a_drive_id a) manifest_name db1)
                      in (db2, Write_manifest path (manifest_data e j a fs) #
                               Job_callback (j_id j) ''MANIFEST_CREATED'' # calls, r)))"

definition generate_manifest_for_job ::
  "env \<Rightarrow> manifest_host \<Rightarrow> bool \<Rightarrow> int \<Rightarrow> db \<Rightarrow> db \<times> job_effect list \<times> (job_error + bool)" where
  "generate_manifest_for_job e host strict job_id db =
     (case get_job job_id db of
        None \<Rightarrow> (db, [], Inl Job_not_found)
      | Some j \<Rightarrow>
          if j_status j \<noteq> COMPLETED then (db, [], if strict then Inl Manifest_not_completed else Inr False)
          else let (done, failed, timed_out) = count_done_errors_and_timeouts job_id db
               in if failed \<noteq> 0 \<or> timed_out \<noteq> 0 then (db, [], if strict then Inl Job_not_clean else Inr False)
                  else generate_manifests e host strict j (manifest_targets_needing_refresh host j db) False db)"

definition auto_generate_manifest_for_completed_job ::
  "env \<Rightarrow> manifest_host \<Rightarrow> int \<Rightarrow> db \<Rightarrow> db \<times> job_effect list \<times> bool" where
  "auto_generate_manifest_for_completed_job e host job_id db =
     (case generate_manifest_for_job e host False job_id db of
        (db', calls, Inl _) \<Rightarrow> (db', calls, False)
      | (db', calls, Inr created) \<Rightarrow> (db', calls, created))"

definition create_manifest :: "env \<Rightarrow> manifest_host \<Rightarrow> int \<Rightarrow> db \<Rightarrow> job_result" where
  "create_manifest e host job_id db =
     (case generate_manifest_for_job e host True job_id db of
        (db', calls, Inl err) \<Rightarrow> (db', calls, Inl err)
      | (db', calls, Inr _) \<Rightarrow> (db', calls, Inr (the (get_job job_id db'))))"

section \<open>Downloading a manifest\<close>

datatype read_result = Read_ok string | Read_missing | Read_error

definition manifest_assignment :: "int \<Rightarrow> manifest \<Rightarrow> db \<Rightarrow> drive_assignment option" where
  "manifest_assignment job_id m db =
     (case (case mf_drive_assignment_id m of None \<Rightarrow> None
            | Some i \<Rightarrow> find (\<lambda>a. a_id a = i) (list_for_job job_id db)) of
        Some a \<Rightarrow> Some a
      | None \<Rightarrow> get_active_for_job job_id db)"

definition allowed_roots :: "string \<Rightarrow> export_job \<Rightarrow> db \<Rightarrow> string list" where
  "allowed_roots cwd j db =
     (if truthy (j_target_mount_path j) then [abspath cwd (the (j_target_mount_path j))] else []) @
     concat (map (\<lambda>a. case Option.bind (get_drive (a_drive_id a) db) d_mount_path of
                        None \<Rightarrow> [] | Some mp \<Rightarrow> if mp \<noteq> [] then [abspath cwd mp] else [])
               (list_for_job (j_id j) db))"

definition is_within_allowed_roots :: "string \<Rightarrow> string list \<Rightarrow> string \<Rightarrow> bool" where
  "is_within_allowed_roots cwd roots path = list_ex (\<lambda>r. commonpath (abspath cwd path) r = Some r) roots"

text \<open>The file a download opens.\<close>

definition manifest_candidate ::
  "string \<Rightarrow> (string \<Rightarrow> bool) \<Rightarrow> export_job \<Rightarrow> string \<Rightarrow> drive_assignment option \<Rightarrow> db \<Rightarrow> job_error + string" where
  "manifest_candidate cwd exists j stored_path a db =
     (let file_name = (if basename stored_path = [] then manifest_name else basename stored_path);
          mount = Option.bind (assignment_drive a db) d_mount_path;
          fallback = abspath cwd stored_path
      in if truthy mount then Inr (path_join (the mount) file_name)
         else if exists fallback
           then (if is_within_allowed_roots cwd (allowed_roots cwd j db) fallback then Inr fallback
                 else Inl Manifest_unavailable)
         else Inl Job_drive_not_mounted)"

definition audit_manifest_downloaded :: "env \<Rightarrow> export_job \<Rightarrow> int option \<Rightarrow> string \<Rightarrow> db \<Rightarrow> db" where
  "audit_manifest_downloaded e j drive_id file =
     best_effort_audit e ''MANIFEST_DOWNLOADED'' (Some (j_project_id j)) drive_id (Some (j_id j))
       [(''project_id'', JStr (j_project_id j)), (''drive_id'', jint drive_id), (''manifest_file'', JStr file)]"

definition download_manifest ::
  "env \<Rightarrow> string \<Rightarrow> (string \<Rightarrow> bool) \<Rightarrow> (string \<Rightarrow> read_result) \<Rightarrow> int \<Rightarrow> db \<Rightarrow> db \<times> (job_error + string \<times> string)" where
  "download_manifest e cwd exists read job_id db =
     (case get_job job_id db of
        None \<Rightarrow> (db, Inl Job_not_found)
      | Some j \<Rightarrow>
          (case get_latest_for_job job_id db of
             None \<Rightarrow> (db, Inl Manifest_not_found)
           | Some m \<Rightarrow>
               if \<not> truthy (mf_manifest_path m) then (db, Inl Manifest_not_found)
               else let stored = the (mf_manifest_path m);
                        file_name = (if basename stored = [] then manifest_name else basename stored);
                        a = manifest_assignment job_id m db
                    in case manifest_candidate cwd exists j stored a db of
                         Inl err \<Rightarrow> (db, Inl err)
                       | Inr path \<Rightarrow>
                           (case read path of
                              Read_missing \<Rightarrow> (db, Inl Manifest_not_found)
                            | Read_error \<Rightarrow> (db, Inl Manifest_unavailable)
                            | Read_ok content \<Rightarrow>
                                (audit_manifest_downloaded e j (map_option a_drive_id a) file_name db,
                                 Inr (content, file_name)))))"

section \<open>Manual completion\<close>

definition complete_update :: "env \<Rightarrow> export_job \<Rightarrow> export_job" where
  "complete_update e j =
     (let j = (if startup_analysis_cached j then clear_analysis_cache j else j)
      in j\<lparr>j_status := COMPLETED,
           j_completed_at := (case j_completed_at j of None \<Rightarrow> Some (e_now e) | Some t \<Rightarrow> Some t)\<rparr>)"

definition complete_job :: "env \<Rightarrow> manifest_host \<Rightarrow> int \<Rightarrow> db \<Rightarrow> job_result" where
  "complete_job e host job_id db =
     with_job e job_id db (\<lambda>j.
       if analysis_running j then job_fail Analysis_running db
       else if j_status j \<notin> {JPENDING, PAUSED, JFAILED} then job_fail Bad_job_status db
       else let w = (if startup_analysis_cached j then delete_entries_by_job job_id db else db);
                w = set_job job_id (complete_update e) w
            in save_job e w db
                 (let drive_id = active_drive_id job_id w;
                      w1 = audit_completed_manually e j drive_id w;
                      w2 = (if startup_analysis_cached j
                            then audit_cache_cleared e j drive_id ''job_completed_manually''
                                   (or_zero (sa_file_count (j_analysis j))) (or_zero (sa_total_bytes (j_analysis j))) w1
                            else w1);
                      (w3, calls, created) = auto_generate_manifest_for_completed_job e host job_id w2
                  in (w3, Job_callback job_id ''JOB_COMPLETED_MANUALLY'' # calls, Inr (complete_update e j))))"

section \<open>Updating a job\<close>

definition runtime_only_violation :: "export_job \<Rightarrow> job_body \<Rightarrow> string \<Rightarrow> int option \<Rightarrow> int option \<Rightarrow> bool" where
  "runtime_only_violation j body resolved current_drive_id requested_drive_id \<longleftrightarrow>
     b_project_id body \<noteq> j_project_id j \<or> b_evidence_number body \<noteq> j_evidence_number j \<or>
     resolved \<noteq> j_source_path j \<or> requested_drive_id \<noteq> current_drive_id \<or>
     j_max_file_retries j \<noteq> b_max_file_retries body \<or> j_retry_delay_seconds j \<noteq> b_retry_delay_seconds body \<or>
     b_callback_url body \<noteq> j_callback_url j"

definition reserved_drive_ids :: "drive_assignment list \<Rightarrow> int list" where
  "reserved_drive_ids as = map a_drive_id (filter (\<lambda>a. a_activated_at a = None \<and> a_released_at a = None) as)"

definition changed_fields ::
  "bool \<Rightarrow> export_job \<Rightarrow> job_body \<Rightarrow> string \<Rightarrow> int option \<Rightarrow> int \<Rightarrow> int list \<Rightarrow> string list" where
  "changed_fields limited j body validated current_drive_id requested_drive_id reserved =
     (if \<not> limited \<and> j_evidence_number j \<noteq> b_evidence_number body then [''evidence_number''] else []) @
     (if \<not> limited \<and> j_source_path j \<noteq> validated then [''source_path''] else []) @
     (if b_thread_count body \<noteq> j_thread_count j then [''thread_count''] else []) @
     (if b_copy_chunk_size_bytes body \<noteq> j_copy_chunk_size_bytes j then [''copy_chunk_size_bytes''] else []) @
     (if b_copy_progress_flush_bytes body \<noteq> j_copy_progress_flush_bytes j then [''copy_progress_flush_bytes''] else []) @
     (if b_copy_file_fsync_enabled body \<noteq> j_copy_file_fsync_enabled j then [''copy_file_fsync_enabled''] else []) @
     (if \<not> limited \<and> j_max_file_retries j \<noteq> b_max_file_retries body then [''max_file_retries''] else []) @
     (if \<not> limited \<and> j_retry_delay_seconds j \<noteq> b_retry_delay_seconds body then [''retry_delay_seconds''] else []) @
     (if \<not> limited \<and> current_drive_id \<noteq> Some requested_drive_id then [''drive_id''] else []) @
     (if reserved \<noteq> b_overflow_drive_ids body then [''overflow_drive_ids''] else [])"

text \<open>Switching the primary drive in the session.\<close>

definition switch_primary ::
  "env \<Rightarrow> bool \<Rightarrow> int \<Rightarrow> drive_assignment option \<Rightarrow> int \<Rightarrow> db \<Rightarrow> job_error + db" where
  "switch_primary e limited job_id active requested_drive_id w =
     (if limited then Inr w
      else case active of
        None \<Rightarrow> Inr (add_assignment e requested_drive_id job_id True w)
      | Some a \<Rightarrow>
          if a_drive_id a = requested_drive_id then Inr w
          else (case release_active e job_id a w of
                  Inl err \<Rightarrow> Inl err
                | Inr w \<Rightarrow> Inr (add_assignment e requested_drive_id job_id True w)))"

text \<open>The loop that releases reserved overflow drives that are no longer wanted.\<close>

fun release_unwanted :: "env \<Rightarrow> int \<Rightarrow> int list \<Rightarrow> drive_assignment list \<Rightarrow> db \<Rightarrow> job_error + db" where
  "release_unwanted e job_id desired [] w = Inr w"
| "release_unwanted e job_id desired (a # as) w =
     (if a_activated_at a = None \<and> a_released_at a = None \<and> a_drive_id a \<notin> set desired then
        (let w = set_assignment (a_id a) (\<lambda>a. a\<lparr>a_released_at := Some (e_now e)\<rparr>) w
         in case get_drive_for_update e (a_drive_id a) w of
              Lock_conflict \<Rightarrow> Inl Job_drive_locked
            | Row None \<Rightarrow> release_unwanted e job_id desired as w
            | Row (Some _) \<Rightarrow>
                release_unwanted e job_id desired as
                  (if is_drive_assigned_to_another_job (a_drive_id a) (Some job_id) w then w
                   else set_drive (a_drive_id a) drive_available w))
      else release_unwanted e job_id desired as w)"

text \<open>The loop that reserves the wanted overflow drives. \<open>existing\<close> are the drives of the job's
  unreleased assignments. The audit record of an isolation violation commits the session.\<close>

fun reserve_wanted ::
  "env \<Rightarrow> export_job \<Rightarrow> int \<Rightarrow> int list \<Rightarrow> db \<Rightarrow> int list \<Rightarrow> db \<Rightarrow> rejection + db" where
  "reserve_wanted e j requested existing db [] w = Inr w"
| "reserve_wanted e j requested existing db (i # is) w =
     (if i = requested then Inl (db, Overflow_includes_primary)
      else if i \<in> set existing then reserve_wanted e j requested existing db is w
      else case get_drive_for_update e i w of
        Lock_conflict \<Rightarrow> Inl (db, Job_drive_locked)
      | Row None \<Rightarrow> Inl (db, Job_drive_not_found)
      | Row (Some d) \<Rightarrow>
          if d_current_project_id d = None then Inl (db, Drive_not_project_bound)
          else if d_current_project_id d \<noteq> Some (j_project_id j) then
            Inl (audit_job_isolation e (j_project_id j) i (d_current_project_id d) (Some (j_id j)) w db,
                 Drive_other_project)
          else if d_current_state d \<notin> {AVAILABLE, IN_USE} then Inl (db, Job_drive_not_available)
          else if \<not> truthy (d_mount_path d) then Inl (db, Job_drive_not_mounted)
          else if is_drive_assigned_to_another_job i (Some (j_id j)) w then Inl (db, Drive_assigned_elsewhere)
          else reserve_wanted e j requested existing db is
                 (set_drive i drive_in_use (add_assignment e i (j_id j) False w)))"

definition update_fields ::
  "bool \<Rightarrow> job_body \<Rightarrow> string \<Rightarrow> string option \<Rightarrow> export_job \<Rightarrow> export_job" where
  "update_fields limited body validated mount_path j =
     (let tuned = j\<lparr>j_thread_count := b_thread_count body,
                    j_copy_chunk_size_bytes := b_copy_chunk_size_bytes body,
                    j_copy_progress_flush_bytes := b_copy_progress_flush_bytes body,
                    j_copy_file_fsync_enabled := b_copy_file_fsync_enabled body\<rparr>
      in if limited then tuned
         else let edited = tuned\<lparr>j_evidence_number := b_evidence_number body, j_source_path := validated,
                    j_target_mount_path := mount_path, j_max_file_retries := b_max_file_retries body,
                    j_retry_delay_seconds := b_retry_delay_seconds body, j_callback_url := b_callback_url body\<rparr>
              in if j_source_path j = validated then edited
                 else let reset = edited\<lparr>j_file_count := 0, j_total_bytes := 0, j_copied_bytes := 0\<rparr>
                      in if has_persisted_analysis_state reset then mark_analysis_stale reset else reset)"

definition drop_stale_source_rows :: "bool \<Rightarrow> export_job \<Rightarrow> string \<Rightarrow> db \<Rightarrow> db" where
  "drop_stale_source_rows limited j validated w =
     (if limited \<or> j_source_path j = validated then w
      else w\<lparr>files := filter (\<lambda>f. f_job_id f \<noteq> j_id j) (files w),
             entries := filter (\<lambda>n. n_job_id n \<noteq> j_id j) (entries w)\<rparr>)"

definition audit_job_updated ::
  "env \<Rightarrow> export_job \<Rightarrow> int \<Rightarrow> string list \<Rightarrow> int list \<Rightarrow> db \<Rightarrow> db" where
  "audit_job_updated e j drive_id changed overflow =
     best_effort_audit e ''JOB_UPDATED'' (Some (j_project_id j)) (Some drive_id) (Some (j_id j))
       [(''project_id'', JStr (j_project_id j)), (''drive_id'', JInt drive_id),
        (''updated_fields'', JList (map JStr changed)), (''overflow_drive_ids'', JList (map JInt overflow)),
        (''copy_tuning'', JObj [(''thread_count'', jint (j_thread_count j)),
           (''copy_chunk_size_bytes'', jint (j_copy_chunk_size_bytes j)),
           (''copy_progress_flush_bytes'', jint (j_copy_progress_flush_bytes j)),
           (''copy_file_fsync_enabled'', (case j_copy_file_fsync_enabled j of None \<Rightarrow> JNull | Some b \<Rightarrow> JBool b))])]"

text \<open>The session after the checks on the primary drive: assignments, overflow drives, job fields.\<close>

definition update_session ::
  "env \<Rightarrow> export_job \<Rightarrow> job_body \<Rightarrow> bool \<Rightarrow> drive_assignment option \<Rightarrow> usb_drive \<Rightarrow> string \<Rightarrow> db \<Rightarrow> rejection + db" where
  "update_session e j body limited active d validated db =
     (case switch_primary e limited (j_id j) active (d_id d) db of
        Inl err \<Rightarrow> Inl (db, err)
      | Inr w \<Rightarrow>
          (case release_unwanted e (j_id j) (b_overflow_drive_ids body) (list_for_job (j_id j) db) w of
             Inl err \<Rightarrow> Inl (db, err)
           | Inr w \<Rightarrow>
               (let existing = map a_drive_id (filter (\<lambda>a. a_released_at a = None \<and>
                                 a_id a \<in> a_id ` set (assignments db)) (list_for_job (j_id j) w))
                in case reserve_wanted e j (d_id d) existing db (b_overflow_drive_ids body) w of
                     Inl r \<Rightarrow> Inl r
                   | Inr w \<Rightarrow>
                       Inr (drop_stale_source_rows limited j validated
                              (set_job (j_id j) (update_fields limited body validated (d_mount_path d))
                                 (set_drive (d_id d) drive_in_use w))))))"

definition update_job :: "env \<Rightarrow> settings \<Rightarrow> int \<Rightarrow> job_body \<Rightarrow> db \<Rightarrow> job_result" where
  "update_job e st job_id body db =
     with_job e job_id db (\<lambda>j.
       let limited = (j_status j \<in> set started_job_editable_statuses)
       in if j_status j \<noteq> JPENDING \<and> \<not> limited then job_fail Not_editable db
          else if analysis_running j then job_fail Analysis_running db
          else if b_project_id body \<noteq> j_project_id j
            then job_fail (if limited then Only_runtime_fields else Project_immutable) db
          else case resolve_job_source_path st body db of
            Inl err \<Rightarrow> job_fail err db
          | Inr resolved \<Rightarrow>
              (let active = get_active_for_job job_id db;
                   current = map_option a_drive_id active;
                   requested = (if b_drive_id body \<noteq> None then b_drive_id body else current)
               in case requested of
                    None \<Rightarrow> job_fail No_assigned_drive db
                  | Some drive_id \<Rightarrow>
                      if (case b_drive_id body of None \<Rightarrow> False | Some i \<Rightarrow> i \<in> set (b_overflow_drive_ids body))
                        then job_fail Overflow_includes_primary db
                      else if limited \<and> runtime_only_violation j body resolved current requested
                        then job_fail Only_runtime_fields db
                      else case get_drive_for_update e drive_id db of
                        Lock_conflict \<Rightarrow> job_fail Job_drive_locked db
                      | Row None \<Rightarrow> job_fail Job_drive_not_found db
                      | Row (Some d) \<Rightarrow>
                          if b_drive_id body \<noteq> None \<and> d_current_project_id d = None
                            then job_fail Drive_not_project_bound db
                          else case target_drive_guards e j d db of
                            Some (db', err) \<Rightarrow> job_fail err db'
                          | None \<Rightarrow>
                              (case source_of st (d_mount_path d) resolved of
                                 Inl err \<Rightarrow> job_fail (Source_invalid err) db
                               | Inr validated \<Rightarrow>
                                   (case (if limited then None
                                          else reject_source_path_overlap e (j_project_id j) drive_id validated
                                                 (Some job_id) db) of
                                      Some (db', err) \<Rightarrow> job_fail err db'
                                    | None \<Rightarrow>
                                        (case update_session e j body limited active d validated db of
                                           Inl (db', err) \<Rightarrow> job_fail err db'
                                         | Inr w \<Rightarrow>
                                             (let j' = update_fields limited body validated (d_mount_path d) j;
                                                  changed = changed_fields limited j body validated current drive_id
                                                    (reserved_drive_ids (list_for_job job_id db))
                                              in save_job e w db
                                                   (audit_job_updated e j' drive_id changed
                                                      (b_overflow_drive_ids body) w, [], Inr j')))))))"

section \<open>Listing jobs that require attention\<close>

definition job_requires_attention :: "export_job \<Rightarrow> bool option \<Rightarrow> usb_drive option \<Rightarrow> bool" where
  "job_requires_attention j custody_complete drive =
     (if j_status j \<in> {JPENDING, JFAILED, PAUSED} then True
      else if j_status j \<noteq> COMPLETED then False
      else if custody_complete = Some False then True
      else if custody_complete \<noteq> Some True then False
      else case drive of None \<Rightarrow> False
           | Some d \<Rightarrow> d_current_state d = IN_USE \<or> truthy (d_mount_path d))"

text \<open>One batch: the custody summaries and assignments are fetched for the completed and archived
  jobs of the batch in bulk, and the inner loop stops as soon as enough jobs are collected.\<close>

definition batch_attention :: "(int list \<Rightarrow> int \<rightharpoonup> bool) \<Rightarrow> export_job list \<Rightarrow> db \<Rightarrow> export_job \<Rightarrow> bool" where
  "batch_attention custody_summaries batch db =
     (let ids = map j_id (filter (\<lambda>j. j_status j \<in> {COMPLETED, ARCHIVED}) batch);
          custody = custody_summaries ids;
          active = bulk_get_active_for_jobs ids db
      in (\<lambda>j. job_requires_attention j (custody (j_id j)) (assignment_drive (active (j_id j)) db)))"

fun collect_batch :: "nat \<Rightarrow> (export_job \<Rightarrow> bool) \<Rightarrow> export_job list \<Rightarrow> export_job list \<Rightarrow> export_job list" where
  "collect_batch wanted attention [] collected = collected"
| "collect_batch wanted attention (j # js) collected =
     (if attention j then
        (let collected = collected @ [j]
         in if wanted \<le> length collected then collected else collect_batch wanted attention js collected)
      else collect_batch wanted attention js collected)"

function scan_attention ::
  "(int list \<Rightarrow> int \<rightharpoonup> bool) \<Rightarrow> int option \<Rightarrow> job_status list \<Rightarrow> bool \<Rightarrow> nat \<Rightarrow> nat \<Rightarrow> db \<Rightarrow> nat \<Rightarrow>
   export_job list \<Rightarrow> export_job list" where
  "scan_attention custody drive_id statuses include_archived batch_size wanted db scan_offset collected =
     (if wanted \<le> length collected then collected
      else let batch = list_recent batch_size scan_offset drive_id statuses include_archived db
           in if batch = [] then collected
              else let collected = collect_batch wanted (batch_attention custody batch db) batch collected
                   in if length batch < batch_size then collected
                      else scan_attention custody drive_id statuses include_archived batch_size wanted db
                             (scan_offset + length batch) collected)"
  by pat_completeness auto

text \<open>A batch that is not empty starts below the number of jobs.\<close>

lemma length_recent_all: "length (recent_all drive_id statuses include_archived db) \<le> length (jobs db)"
proof -
  have "length (newest_first (filter P (filter Q (jobs db)))) \<le> length (jobs db)"
    "length (newest_first (filter P (jobs db))) \<le> length (jobs db)" for P Q
    using length_filter_le [of P] length_filter_le [of Q "jobs db"]
    by (simp_all add: newest_first_def le_trans [OF length_filter_le length_filter_le] del: filter_filter)
  then show ?thesis
    by (cases drive_id) (simp_all add: recent_all_def Let_def newest_first_def)
qed

lemma list_recent_offset:
  "list_recent limit offset drive_id statuses include_archived db \<noteq> [] \<Longrightarrow> offset < length (jobs db)"
  using length_recent_all [of drive_id statuses include_archived db] by (auto simp: list_recent_def paged_def)

termination scan_attention
proof (relation "measure (\<lambda>(custody, drive_id, statuses, include_archived, batch_size, wanted, db, scan_offset, collected).
    length (jobs db) - scan_offset)", simp)
  fix custody :: "int list \<Rightarrow> int \<rightharpoonup> bool" and drive_id statuses include_archived batch_size wanted db scan_offset
    and collected x xa :: "export_job list"
  assume "x = list_recent batch_size scan_offset drive_id statuses include_archived db" "x \<noteq> []"
  then have "scan_offset < length (jobs db)" "0 < length x" by (auto intro: list_recent_offset)
  then show "((custody, drive_id, statuses, include_archived, batch_size, wanted, db, scan_offset + length x, xa),
       custody, drive_id, statuses, include_archived, batch_size, wanted, db, scan_offset, collected)
      \<in> measure (\<lambda>(custody, drive_id, statuses, include_archived, batch_size, wanted, db, scan_offset, collected).
           length (jobs db) - scan_offset)"
    by (cases x) auto
qed

definition list_jobs_requiring_attention ::
  "(int list \<Rightarrow> int \<rightharpoonup> bool) \<Rightarrow> nat \<Rightarrow> nat \<Rightarrow> int option \<Rightarrow> job_status list \<Rightarrow> bool \<Rightarrow> db \<Rightarrow> export_job list" where
  "list_jobs_requiring_attention custody limit offset drive_id statuses include_archived db =
     (let requested = (if statuses \<noteq> [] then statuses else dashboard_attention_candidate_statuses);
          candidates = filter (\<lambda>s. s \<in> set dashboard_attention_candidate_statuses \<and>
                                   (include_archived \<or> s \<noteq> ARCHIVED)) requested
      in if candidates = [] then []
         else let wanted = offset + limit;
                  batch_size = min (max wanted 200) 1000
              in take (wanted - offset) (drop offset
                   (scan_attention custody drive_id candidates include_archived batch_size wanted db 0 [])))"

definition list_jobs ::
  "(int list \<Rightarrow> int \<rightharpoonup> bool) \<Rightarrow> nat \<Rightarrow> nat \<Rightarrow> int option \<Rightarrow> job_status list \<Rightarrow> bool \<Rightarrow> bool \<Rightarrow> db \<Rightarrow> export_job list" where
  "list_jobs custody limit offset drive_id statuses include_archived requires_attention db =
     (if requires_attention
      then list_jobs_requiring_attention custody limit offset drive_id statuses include_archived db
      else list_recent limit offset drive_id statuses include_archived db)"

end
