(* ===== verification/Job_Safety.thy ===== *)
theory Job_Safety
  imports Job_Service
begin

text \<open>
  What the job service guarantees: the life cycle of a job as a state machine, what each operation
  changes and what a rejection leaves behind, which drives a job can be bound to, and that the batched
  listing and the manifest agree with their specifications. The contract \<open>job_machine\<close> shared by all
  operations is a locale; its consequences for sequences of operations are proved there.
\<close>

section \<open>Audit records of the job service\<close>

lemmas job_audit_defs = audit_source_overlap_def audit_job_started_def audit_job_pause_requested_def
  audit_job_verify_started_def audit_analysis_requested_def audit_retry_started_def
  audit_completed_manually_def audit_cache_cleared_def audit_job_created_def audit_overflow_started_def
  audit_job_updated_def audit_manifest_def audit_manifest_failure_def audit_manifest_created_def
  audit_manifest_downloaded_def

interpretation audit_source_overlap: audit_writer "audit_source_overlap e p d s j k" for e p d s j k
  unfolding job_audit_defs by (rule best_effort.audit_writer_axioms)

interpretation audit_job_started: audit_writer "audit_job_started e j d" for e j d
  unfolding job_audit_defs by (rule best_effort.audit_writer_axioms)

interpretation audit_job_pause_requested: audit_writer "audit_job_pause_requested e j d" for e j d
  unfolding job_audit_defs by (rule best_effort.audit_writer_axioms)

interpretation audit_job_verify_started: audit_writer "audit_job_verify_started e j d" for e j d
  unfolding job_audit_defs by (rule best_effort.audit_writer_axioms)

interpretation audit_analysis_requested: audit_writer "audit_analysis_requested e j d" for e j d
  unfolding job_audit_defs by (rule best_effort.audit_writer_axioms)

interpretation audit_retry_started: audit_writer "audit_retry_started e j d n m" for e j d n m
  unfolding job_audit_defs by (rule best_effort.audit_writer_axioms)

interpretation audit_completed_manually: audit_writer "audit_completed_manually e j d" for e j d
  unfolding job_audit_defs by (rule best_effort.audit_writer_axioms)

interpretation audit_cache_cleared: audit_writer "audit_cache_cleared e j d r n m" for e j d r n m
  unfolding job_audit_defs by (rule best_effort.audit_writer_axioms)

interpretation audit_job_created: audit_writer "audit_job_created e st body j" for e st body j
  unfolding job_audit_defs by (rule best_effort.audit_writer_axioms)

interpretation audit_overflow_started: audit_writer "audit_overflow_started e j p d a n" for e j p d a n
  unfolding job_audit_defs by (rule best_effort.audit_writer_axioms)

interpretation audit_job_updated: audit_writer "audit_job_updated e j d c os" for e j d c os
  unfolding job_audit_defs by (rule best_effort.audit_writer_axioms)

interpretation audit_manifest_failure: audit_writer "audit_manifest_failure e j d f m" for e j d f m
  unfolding job_audit_defs by (rule best_effort.audit_writer_axioms)

interpretation audit_manifest_created: audit_writer "audit_manifest_created e j d f" for e j d f
  unfolding job_audit_defs by (rule best_effort.audit_writer_axioms)

interpretation audit_manifest_downloaded: audit_writer "audit_manifest_downloaded e j d f" for e j d f
  unfolding job_audit_defs by (rule best_effort.audit_writer_axioms)

text \<open>A database that differs from \<open>w\<close> by appended audit records only.\<close>

definition audited :: "db \<Rightarrow> db \<Rightarrow> bool" where
  "audited w db' \<longleftrightarrow> (\<exists>ls. db' = w\<lparr>audits := audits w @ ls\<rparr>)"

lemma audited_refl [simp, intro]: "audited w w"
  unfolding audited_def by (rule same_audits)

lemma audited_trans: "audited a b \<Longrightarrow> audited b c \<Longrightarrow> audited a c"
  by (auto simp: audited_def)

lemma audited_write:
  assumes "audit_writer wr" shows "audited w (wr w)"
  using assms unfolding audit_writer_def audited_def by blast

lemma audited_write2: "audit_writer wr \<Longrightarrow> audited w v \<Longrightarrow> audited w (wr v)"
  by (rule audited_trans [OF _ audited_write])

lemmas job_writers = audit_source_overlap.audit_writer_axioms audit_job_started.audit_writer_axioms
  audit_job_pause_requested.audit_writer_axioms audit_job_verify_started.audit_writer_axioms
  audit_analysis_requested.audit_writer_axioms audit_retry_started.audit_writer_axioms
  audit_completed_manually.audit_writer_axioms audit_cache_cleared.audit_writer_axioms
  audit_job_created.audit_writer_axioms audit_overflow_started.audit_writer_axioms
  audit_job_updated.audit_writer_axioms audit_manifest_failure.audit_writer_axioms
  audit_manifest_created.audit_writer_axioms audit_manifest_downloaded.audit_writer_axioms
  uncommitted_audit.audit_writer_axioms best_effort.audit_writer_axioms

lemmas audited_job [simp, intro] = job_writers [THEN audited_write]
lemmas audited_job2 [intro] = job_writers [THEN audited_write2]

lemma audited_frame:
  assumes "audited w db'"
  shows "hubs db' = hubs w" "ports db' = ports w" "drives db' = drives w" "shares db' = shares w"
    "jobs db' = jobs w" "assignments db' = assignments w" "files db' = files w" "entries db' = entries w"
    "manifests db' = manifests w" "get_drive i db' = get_drive i w" "get_job i db' = get_job i w"
  using assms by (auto simp: audited_def get_drive_def get_job_def)

lemma audit_add_audited: "audit_add e a p d j ds w = Some db' \<Longrightarrow> audited w db'"
  by (auto simp: audit_add_def split: if_splits)

lemma best_effort_audited: "audited db (best_effort_audit e a p d j ds db)"
  by (auto simp: best_effort_audit_def audit_add_audited split: option.splits)

lemma audit_commit_cases: "audit_commit e a p d j ds w db = db \<or> audited w (audit_commit e a p d j ds w db)"
  by (auto simp: audit_commit_def split: option.splits dest: audit_add_audited)

lemma audit_commit_same [simp]: "audited db (audit_commit e a p d j ds db db)"
  using audit_commit_cases [of e a p d j ds db db] by auto

lemma audit_job_isolation_same [simp]: "audited db (audit_job_isolation e p d x j db db)"
  by (simp add: audit_job_isolation_def)

section \<open>Shape of the operations\<close>

lemma with_job_cases:
  assumes "with_job e i db k = (db', calls, r)"
  obtains (rejected) err where "db' = db" "calls = []" "r = Inl err"
  | (row) j where "get_job i db = Some j" "k j = (db', calls, r)"
  using assms unfolding with_job_def job_fail_def
  by (auto simp: get_job_for_update_Some split: locked.splits option.splits)

lemma save_job_cases:
  assumes "save_job e w db k = (db', calls, r)"
  obtains (rejected) "db' = db" "calls = []" "r = Inl Job_db_error"
  | (saved) "k = (db', calls, r)"
  using assms by (auto simp: save_job_def job_fail_def split: if_splits)

lemma job_fail_eq: "job_fail err db = (db', calls, r) \<longleftrightarrow> db' = db \<and> calls = [] \<and> r = Inl err"
  by (auto simp: job_fail_def)

text \<open>Rules that peel the guards of an operation off, one error path at a time.\<close>

lemma guard_outcome:
  assumes "(if b then job_fail err db else k) = (db', calls, r)"
  obtains (rejected) "b" "db' = db" "calls = []" "r = Inl err" | (passed) "\<not> b" "k = (db', calls, r)"
  using assms by (auto simp: job_fail_eq split: if_splits)

lemma sum_outcome:
  assumes "(case x of Inl err \<Rightarrow> job_fail (f err) db | Inr y \<Rightarrow> k y) = (db', calls, r)"
  obtains (rejected) err where "x = Inl err" "db' = db" "calls = []" "r = Inl (f err)"
  | (passed) y where "x = Inr y" "k y = (db', calls, r)"
  using assms by (auto simp: job_fail_eq split: sum.splits)

lemma option_outcome:
  assumes "(case x of None \<Rightarrow> job_fail err db | Some y \<Rightarrow> k y) = (db', calls, r)"
  obtains (rejected) "x = None" "db' = db" "calls = []" "r = Inl err"
  | (passed) y where "x = Some y" "k y = (db', calls, r)"
  using assms by (auto simp: job_fail_eq split: option.splits)

lemma reject_outcome:
  assumes "(case x of Some (db1, err) \<Rightarrow> job_fail err db1 | None \<Rightarrow> k) = (db', calls, r)"
  obtains (rejected) err where "x = Some (db', err)" "calls = []" "r = Inl err"
  | (passed) "x = None" "k = (db', calls, r)"
  using assms by (auto simp: job_fail_eq split: option.splits prod.splits)

lemma reject_sum_outcome:
  assumes "(case x of Inl (db1, err) \<Rightarrow> job_fail err db1 | Inr y \<Rightarrow> k y) = (db', calls, r)"
  obtains (rejected) err where "x = Inl (db', err)" "calls = []" "r = Inl err"
  | (passed) y where "x = Inr y" "k y = (db', calls, r)"
  using assms by (auto simp: job_fail_eq split: sum.splits prod.splits)

lemma locked_outcome:
  assumes "(case get_drive_for_update e d w of Lock_conflict \<Rightarrow> job_fail err db
            | Row None \<Rightarrow> job_fail err' db | Row (Some x) \<Rightarrow> k x) = (db', calls, r)"
  obtains (rejected) err where "db' = db" "calls = []" "r = Inl err"
  | (passed) x where "get_drive d w = Some x" "k x = (db', calls, r)"
  using assms by (auto simp: job_fail_eq get_drive_for_update_Some split: locked.splits option.splits)

lemmas outcomes = guard_outcome sum_outcome option_outcome reject_outcome reject_sum_outcome locked_outcome
  with_job_cases save_job_cases

text \<open>Two outcomes: a rejection that leaves the database (up to audit records and, where the code commits
  it, the normalised source path), or a commit of the session \<open>w\<close>.\<close>

lemma archive_job_cases:
  assumes "archive_job e i c db = (db', calls, r)"
  obtains (rejected) err where "r = Inl err" "db' = db" "calls = []"
  | (committed) j where "c" "get_job i db = Some j" "j_status j \<in> {COMPLETED, JFAILED}"
      "\<not> archive_blocked j (assignment_drive (get_active_for_job i db) db)"
      "r = Inr (j\<lparr>j_status := ARCHIVED\<rparr>)" "calls = [Job_callback i ''JOB_ARCHIVED'']"
      "db' = audit_add_uncommitted e ''JOB_ARCHIVED'' (Some (j_project_id j))
          (map_option a_drive_id (get_active_for_job i db)) (Some i) (archived_details j)
          (set_job i (\<lambda>j. j\<lparr>j_status := ARCHIVED\<rparr>) db)"
  using assms unfolding archive_job_def
  by (auto simp: job_fail_eq archivable_job_statuses_def Let_def split: if_splits elim!: with_job_cases)

lemma pause_job_cases:
  assumes "pause_job e i db = (db', calls, r)"
  obtains (rejected) err where "r = Inl err" "db' = db" "calls = []"
  | (committed) j where "get_job i db = Some j" "j_status j = RUNNING" "r = Inr (pause_update j)"
      "calls = [Job_callback i ''JOB_PAUSE_REQUESTED'']" "audited (set_job i pause_update db) db'"
  using assms unfolding pause_job_def
  by (auto simp: job_fail_eq Let_def split: if_splits elim!: with_job_cases save_job_cases)

lemma verify_job_cases:
  assumes "verify_job e i db = (db', calls, r)"
  obtains (rejected) err where "r = Inl err" "db' = db" "calls = []"
  | (committed) j where "get_job i db = Some j" "j_status j = COMPLETED"
      "count_status ERROR i db = 0" "count_status TIMEOUT i db = 0" "r = Inr (j\<lparr>j_status := VERIFYING\<rparr>)"
      "calls = [Job_callback i ''JOB_VERIFY_STARTED'', Schedule_verify i]"
      "audited (set_job i (\<lambda>j. j\<lparr>j_status := VERIFYING\<rparr>) db) db'"
  using assms unfolding verify_job_def count_done_errors_and_timeouts_def
  by (auto simp: job_fail_eq Let_def split: if_splits elim!: with_job_cases save_job_cases)

definition with_source :: "string \<Rightarrow> export_job \<Rightarrow> export_job" where
  "with_source p j = j\<lparr>j_source_path := p\<rparr>"

lemma with_source_eq: "j_source_path_update (\<lambda>_. p) = with_source p"
  by (simp add: with_source_def fun_eq_iff)

lemma set_job_comp:
  "(\<And>j. j_id (f j) = j_id j) \<Longrightarrow> set_job i g (set_job i f db) = set_job i (\<lambda>j. g (f j)) db"
  by (simp add: set_job_def upd_row_comp)

lemma job_keys [simp]:
  "j_id (start_update e t j) = j_id j" "j_id (retry_update e j) = j_id j" "j_id (pause_update j) = j_id j"
  "j_id (clear_analysis_cache j) = j_id j" "j_id (mark_analysis_stale j) = j_id j"
  "j_id (analyze_update p j) = j_id j" "j_id (overflow_update e p m t j) = j_id j"
  "j_id (complete_update e j) = j_id j" "j_id (update_fields l b v m j) = j_id j" "j_id (with_source p j) = j_id j"
  by (simp_all add: start_update_def retry_update_def pause_update_def clear_analysis_cache_def with_source_def
      mark_analysis_stale_def analyze_update_def overflow_update_def complete_update_def update_fields_def Let_def)

lemma job_statuses [simp]:
  "j_status (start_update e t j) = PREPARING" "j_status (retry_update e j) = PREPARING"
  "j_status (pause_update j) = PAUSING" "j_status (clear_analysis_cache j) = j_status j"
  "j_status (analyze_update p j) = j_status j" "j_status (overflow_update e p m t j) = PREPARING"
  "j_status (complete_update e j) = COMPLETED" "j_status (update_fields l b v m j) = j_status j"
  "j_status (with_source p j) = j_status j"
  by (simp_all add: start_update_def retry_update_def pause_update_def clear_analysis_cache_def with_source_def
      mark_analysis_stale_def analyze_update_def overflow_update_def complete_update_def update_fields_def Let_def)

lemma job_projects [simp]:
  "j_project_id (start_update e t j) = j_project_id j" "j_project_id (retry_update e j) = j_project_id j"
  "j_project_id (pause_update j) = j_project_id j" "j_project_id (clear_analysis_cache j) = j_project_id j"
  "j_project_id (analyze_update p j) = j_project_id j" "j_project_id (overflow_update e p m t j) = j_project_id j"
  "j_project_id (complete_update e j) = j_project_id j" "j_project_id (update_fields l b v m j) = j_project_id j"
  "j_project_id (with_source p j) = j_project_id j"
  by (simp_all add: start_update_def retry_update_def pause_update_def clear_analysis_cache_def with_source_def
      mark_analysis_stale_def analyze_update_def overflow_update_def complete_update_def update_fields_def Let_def)

lemma start_job_cases:
  assumes "start_job e st i t db = (db', calls, r)"
  obtains (rejected) err where "r = Inl err" "db' = db" "calls = []"
  | (shortfall) j n p where "get_job i db = Some j" "r = Inl (Start_capacity_shortfall n)" "calls = []"
      "audited (set_job i (with_source p) db) db'" "0 < n"
  | (committed) j p where "get_job i db = Some j" "j_status j \<in> {JPENDING, JFAILED, PAUSED}"
      "\<not> analysis_running j" "source_of st (j_target_mount_path j) (j_source_path j) = Inr p"
      "start_shortfall j (assignment_drive (get_active_for_job i db) db) = None"
      "r = Inr (start_update e t (with_source p j))"
      "calls = [Job_callback i ''JOB_STARTED'', Schedule_copy i]"
      "audited (set_job i (\<lambda>j. start_update e t (with_source p j)) db) db'"
proof -
  have sf: "start_shortfall x y = Some (u, v, n) \<Longrightarrow> 0 < n" for x y u v n
    by (auto simp: start_shortfall_def split: if_splits option.splits)
  have cap: "audit_start_capacity e j d u v n w db = db \<or> audited w (audit_start_capacity e j d u v n w db)"
    for j d u v n w
    unfolding audit_start_capacity_def by (rule audit_commit_cases)
  from assms show thesis
    unfolding start_job_def Let_def
  proof (elim with_job_cases guard_outcome sum_outcome, goal_cases)
    case (5 j p)
    note row = 5(1) and status = 5(3) and src = 5(4)
    show ?case
    proof (cases "start_shortfall j (assignment_drive (get_active_for_job i db) db)")
      case None
      with 5(5) show ?thesis
        by (simp only: option.case) (elim save_job_cases,
            use rejected committed [OF row _ 5(2) src None] status in \<open>auto simp: set_job_comp with_source_def\<close>)
    next
      case (Some x)
      obtain u v n where x: "x = (u, v, n)" by (cases x)
      with 5(5) Some have r: "r = Inl (Start_capacity_shortfall n)" "calls = []"
        "db' = audit_start_capacity e j (map_option a_drive_id (get_active_for_job i db)) u v n
           (set_job i (with_source p) db) db"
        by (auto simp: job_fail_eq with_source_eq)
      from cap r(3) have "db' = db \<or> audited (set_job i (with_source p) db) db'" by metis
      with r rejected shortfall [OF row r(1,2)] sf Some x show ?thesis by auto
    qed
  qed (use rejected in auto)
qed

lemma retry_failed_files_cases:
  assumes "retry_failed_files e st i db = (db', calls, r)"
  obtains (rejected) err where "r = Inl err" "db' = db" "calls = []"
  | (committed) j p where "get_job i db = Some j" "j_status j = COMPLETED" "\<not> analysis_running j"
      "count_status ERROR i db + count_status TIMEOUT i db \<noteq> 0"
      "source_of st (j_target_mount_path j) (j_source_path j) = Inr p"
      "r = Inr (retry_update e (with_source p j))"
      "calls = [Job_callback i ''JOB_RETRY_FAILED_FILES_STARTED'', Schedule_copy i]"
      "audited (set_job i (retry_update e) (fst (reset_failed_for_retry i (set_job i (with_source p) db)))) db'"
  using assms unfolding retry_failed_files_def Let_def count_done_errors_and_timeouts_def prod.case with_source_eq
  by (elim with_job_cases guard_outcome sum_outcome save_job_cases)
     (auto simp: rejected with_source_def intro: committed)

lemma analyze_job_cases:
  assumes "analyze_job e st i db = (db', calls, r)"
  obtains (rejected) err where "r = Inl err" "db' = db" "calls = []"
  | (committed) j p where "get_job i db = Some j" "j_status j \<in> {JPENDING, JFAILED, PAUSED}"
      "\<not> analysis_running j" "r = Inr (analyze_update p j)" "calls = [Schedule_analysis i]"
      "audited (set_job i (analyze_update p) db) db'"
  using assms unfolding analyze_job_def Let_def
  by (elim with_job_cases guard_outcome sum_outcome save_job_cases)
     (auto simp: rejected intro: committed)

lemma clear_cache_cases:
  assumes "clear_job_startup_analysis_cache e i c db = (db', calls, r)"
  obtains (rejected) err where "r = Inl err" "db' = db" "calls = []"
  | (nothing) j where "get_job i db = Some j" "r = Inr j" "db' = db" "calls = []"
  | (committed) j where "get_job i db = Some j" "r = Inr (clear_analysis_cache j)" "calls = []"
      "audited (set_job i clear_analysis_cache (delete_entries_by_job i db)) db'"
  using assms unfolding clear_job_startup_analysis_cache_def Let_def
  by (elim with_job_cases guard_outcome)
     (auto simp: rejected nothing split: if_splits elim!: save_job_cases intro: committed)

section \<open>Drives in a job session\<close>

text \<open>A session keeps every drive and every project binding.\<close>

definition drives_bound :: "db \<Rightarrow> db \<Rightarrow> bool" where
  "drives_bound db w \<longleftrightarrow> (\<forall>i d. get_drive i db = Some d \<longrightarrow>
     (\<exists>d'. get_drive i w = Some d' \<and> (d_current_project_id d = None \<or> d_current_project_id d' = d_current_project_id d)))"

lemma drives_bound_same: "drives w = drives db \<Longrightarrow> drives_bound db w"
  unfolding drives_bound_def by (metis get_drive_cong)

lemma drives_bound_trans: "drives_bound a b \<Longrightarrow> drives_bound b c \<Longrightarrow> drives_bound a c"
  unfolding drives_bound_def by (metis option.distinct(1))

lemma drives_bound_set:
  assumes "\<And>d. d_id (f d) = d_id d"
    and "\<And>d. get_drive i db = Some d \<Longrightarrow> d_current_project_id d = None \<or> d_current_project_id (f d) = d_current_project_id d"
  shows "drives_bound db (set_drive i f db)"
  using assms(2) by (auto simp: drives_bound_def get_set_drive [OF assms(1)])

lemma drives_bound_keeps: "drives_bound db db' \<Longrightarrow> keeps_binding i db calls db'"
  unfolding drives_bound_def keeps_binding_def by (metis option.distinct(1))

lemma drive_state_updates [simp]:
  "d_id (drive_in_use d) = d_id d" "d_id (drive_available d) = d_id d" "d_id (bind_if_unbound j d) = d_id d"
  "d_current_project_id (drive_in_use d) = d_current_project_id d"
  "d_current_project_id (drive_available d) = d_current_project_id d"
  "d_mount_path (drive_in_use d) = d_mount_path d" "d_mount_path (drive_available d) = d_mount_path d"
  by (simp_all add: drive_in_use_def drive_available_def bind_if_unbound_def)

lemma add_assignment_frame [frame_simps]:
  "drives (add_assignment e d j b w) = drives w" "jobs (add_assignment e d j b w) = jobs w"
  "files (add_assignment e d j b w) = files w" "shares (add_assignment e d j b w) = shares w"
  "get_drive k (add_assignment e d j b w) = get_drive k w" "get_job k (add_assignment e d j b w) = get_job k w"
  by (simp_all add: add_assignment_def get_drive_def get_job_def)

lemma get_job_set_drive [frame_simps]: "get_job k (set_drive i f w) = get_job k w"
  by (simp add: get_job_def set_drive_def)

lemma reset_failed_frame [frame_simps]:
  "drives (fst (reset_failed_for_retry i w)) = drives w" "jobs (fst (reset_failed_for_retry i w)) = jobs w"
  "assignments (fst (reset_failed_for_retry i w)) = assignments w" "shares (fst (reset_failed_for_retry i w)) = shares w"
  "get_drive k (fst (reset_failed_for_retry i w)) = get_drive k w"
  "get_job k (fst (reset_failed_for_retry i w)) = get_job k w"
  by (simp_all add: reset_failed_for_retry_def update_files_def get_drive_def get_job_def)

lemma delete_entries_frame [frame_simps]:
  "drives (delete_entries_by_job i w) = drives w" "jobs (delete_entries_by_job i w) = jobs w"
  "get_job k (delete_entries_by_job i w) = get_job k w"
  by (simp_all add: delete_entries_by_job_def get_job_def)

lemma release_active_ok:
  assumes "release_active e i a w = Inr w'"
  shows "jobs w' = jobs w \<and> drives_bound w w' \<and> (\<forall>k. k \<noteq> a_drive_id a \<longrightarrow> get_drive k w' = get_drive k w)"
proof -
  let ?w = "set_assignment (a_id a) (\<lambda>a. a\<lparr>a_released_at := Some (e_now e)\<rparr>) w"
  have b: "drives_bound w ?w" by (rule drives_bound_same) (simp add: frame_simps)
  from assms have "w' = ?w \<or> w' = set_drive (a_drive_id a) drive_available ?w"
    by (auto simp: release_active_def Let_def split: locked.splits option.splits if_splits)
  then show ?thesis
  proof
    assume "w' = set_drive (a_drive_id a) drive_available ?w"
    with b drives_bound_trans [OF b drives_bound_set] show ?thesis
      by (simp add: frame_simps get_set_drive)
  qed (use b in \<open>simp add: frame_simps\<close>)
qed

lemma activate_frame [frame_simps]:
  "drives (fst (activate_reserved_or_new_assignment e i d w)) = drives w"
  "jobs (fst (activate_reserved_or_new_assignment e i d w)) = jobs w"
  "get_drive k (fst (activate_reserved_or_new_assignment e i d w)) = get_drive k w"
  "get_job k (fst (activate_reserved_or_new_assignment e i d w)) = get_job k w"
  by (simp_all add: activate_reserved_or_new_assignment_def frame_simps split: option.splits)

lemma overflow_session_ok:
  assumes "overflow_session e j a d p t n db = Inr (w, x)"
  shows "drives_bound db w" "jobs w = upd_row j_id (j_id j) (overflow_update e p (d_mount_path d) t) (jobs db)"
proof -
  let ?w0 = "set_drive (d_id d) (bind_if_unbound j) db"
  from assms obtain w1 where w1: "release_active e (j_id j) a ?w0 = Inr w1"
    by (auto simp: overflow_session_def split: sum.splits)
  let ?w2 = "fst (activate_reserved_or_new_assignment e (j_id j) (d_id d) w1)"
  let ?w3 = "set_job (j_id j) (overflow_update e p (d_mount_path d) t) (set_drive (d_id d) drive_in_use ?w2)"
  from assms w1 have w: "w = ?w3 \<or> w = fst (reset_failed_for_retry (j_id j) ?w3)"
    by (auto simp: overflow_session_def Let_def split: prod.splits if_splits)
  have "drives_bound db ?w0" by (rule drives_bound_set) (auto simp: bind_if_unbound_def)
  moreover have "drives_bound ?w0 w1" using release_active_ok [OF w1] by simp
  moreover have "drives_bound w1 ?w2" by (rule drives_bound_same) (simp add: frame_simps)
  moreover have "drives_bound ?w2 (set_drive (d_id d) drive_in_use ?w2)" by (rule drives_bound_set) auto
  moreover have "drives w = drives (set_drive (d_id d) drive_in_use ?w2)" using w by (auto simp: frame_simps)
  ultimately show "drives_bound db w" by (metis drives_bound_trans drives_bound_same)
  show "jobs w = upd_row j_id (j_id j) (overflow_update e p (d_mount_path d) t) (jobs db)"
    using w release_active_ok [OF w1] by (auto simp: frame_simps)
qed

lemma target_drive_guards_Some: "target_drive_guards e j d db = Some (db', err) \<Longrightarrow> audited db db'"
  by (auto simp: target_drive_guards_def split: if_splits)

lemma target_drive_guards_None:
  assumes "target_drive_guards e j d db = None"
  shows "d_current_project_id d \<in> {None, Some (j_project_id j)}" "d_current_state d \<in> {AVAILABLE, IN_USE}"
    "truthy (d_mount_path d)"
  using assms by (auto simp: target_drive_guards_def split: if_splits)

lemma reject_overlap_Some:
  "reject_source_path_overlap e p d s x db = Some (db', err) \<Longrightarrow> audited db db'"
  by (auto simp: reject_source_path_overlap_def Let_def split: option.splits)

lemma reject_overlap_None:
  assumes "reject_source_path_overlap e p d s x db = None" and "j \<in> set (jobs db)" "assigned_to_drive d db j"
    "j_status j \<noteq> ARCHIVED" "x \<noteq> Some (j_id j)"
  shows "classify_source_path_overlap (j_source_path j) s = No_overlap \<or>
    (classify_source_path_overlap (j_source_path j) s \<noteq> Exact \<and> j_status j \<in> {COMPLETED, JFAILED})"
proof -
  have "j_status j \<in> set non_archived_duplicate_statuses"
    using assms(4) by (cases "j_status j")
      (simp_all add: non_archived_duplicate_statuses_def active_source_overlap_statuses_def)
  with assms have "\<not> overlap_conflict s x j"
    by (auto simp: reject_source_path_overlap_def overlapping_job_def Let_def find_None_iff
        list_assigned_jobs_for_drive_def newest_first_def split: option.splits)
  with assms(4,5) show ?thesis
    by (cases "j_status j") (auto simp: overlap_conflict_def Let_def active_source_overlap_statuses_def)
qed

lemma continue_overflow_cases:
  assumes "continue_job_overflow e st i d t db = (db', calls, r)"
  obtains (rejected) err where "r = Inl err" "audited db db'" "calls = []"
  | (shortfall) n p where "r = Inl (Overflow_capacity_shortfall n)" "calls = []"
      "audited (set_job i (with_source p) db) db'"
  | (committed) j a x p n w y where "get_job i db = Some j" "j_status j \<in> {JPENDING, PAUSED, JFAILED, COMPLETED}"
      "\<not> analysis_running j" "get_active_for_job i db = Some a" "a_drive_id a \<noteq> d" "get_drive d db = Some x"
      "\<not> is_drive_assigned_to_another_job d (Some i) db" "target_drive_guards e j x db = None"
      "reject_source_path_overlap e (j_project_id j) d p (Some i) db = None" "overflow_shortfall j x = None"
      "overflow_session e j a x p t n db = Inr (w, y)" "audited w db'"
      "r = Inr (overflow_update e p (d_mount_path x) t j)"
      "calls = [Job_callback i ''JOB_OVERFLOW_CONTINUATION_STARTED'', Schedule_copy i]"
proof -
  have cap: "audit_overflow_capacity e j d u v n w db = db \<or> audited w (audit_overflow_capacity e j d u v n w db)"
    for j u v n w
    unfolding audit_overflow_capacity_def by (rule audit_commit_cases)
  from assms show thesis
    unfolding continue_job_overflow_def Let_def count_done_errors_and_timeouts_def prod.case with_source_eq
  proof (elim with_job_cases guard_outcome option_outcome locked_outcome reject_outcome sum_outcome, goal_cases)
    case (12 j a x p)
    show ?case
    proof (cases "overflow_shortfall j x")
      case None
      note go = committed [OF 12(1) _ 12(2) 12(4) _ 12(7) 12(6) 12(8) 12(10) None]
      show ?thesis
      proof (cases "overflow_session e j a x p t (count_status ERROR i db + count_status TIMEOUT i db) db")
        case (Inr wy)
        obtain w y where "wy = (w, y)" by (cases wy)
        with 12(12) None Inr go 12(3,5) rejected show ?thesis by (auto elim!: save_job_cases)
      qed (use 12(12) None rejected in \<open>auto simp: job_fail_eq\<close>)
    next
      case (Some q)
      obtain u v n where q: "q = (u, v, n)" by (cases q)
      with 12 Some have "r = Inl (Overflow_capacity_shortfall n)" "calls = []"
        "db' = audit_overflow_capacity e j d u v n (set_job i (with_source p) db) db"
        by (auto simp: job_fail_eq)
      with cap rejected shortfall show ?thesis by (metis audited_refl)
    qed
  qed (use rejected in \<open>auto dest: target_drive_guards_Some reject_overlap_Some\<close>)
qed

section \<open>Deletion, manifests and completion\<close>

lemma delete_rows_frame [frame_simps]:
  "drives (delete_job_rows i w) = drives w" "shares (delete_job_rows i w) = shares w"
  "jobs (delete_job_rows i w) = filter (\<lambda>j. j_id j \<noteq> i) (jobs w)"
  "assignments (delete_job_rows i w) = filter (\<lambda>a. a_job_id a \<noteq> i) (assignments w)"
  "drives (unlink_audits fk i w) = drives w" "jobs (unlink_audits fk i w) = jobs w"
  "assignments (unlink_audits fk i w) = assignments w"
  by (simp_all add: delete_job_rows_def unlink_audits_def)

lemma get_row_filter: "get_row key k (filter (\<lambda>r. key r \<noteq> i) rs) = (if k = i then None else get_row key k rs)"
  by (induction rs) (auto simp: row_simps)

text \<open>The drive of the active assignment is released when no other job is active on it.\<close>

definition deletion_session :: "int \<Rightarrow> db \<Rightarrow> db" where
  "deletion_session i db =
     (case active_drive_id i db of
        None \<Rightarrow> db
      | Some d \<Rightarrow> if get_drive d db \<noteq> None \<and> other_active_assignments_for_drive d i db = 0
                  then set_drive d drive_available db else db)"

lemma delete_job_cases:
  assumes "delete_job fk e i db = (db', calls, r)"
  obtains (rejected) err where "r = Inl err" "db' = db" "calls = []"
  | (deleted) j where "get_job i db = Some j" "j_status j = JPENDING" "\<not> analysis_running j" "r = Inr j" "calls = []"
      "db' = audit_job_deleted fk e i (j_project_id j) (active_drive_id i db)
               (unlink_audits fk i (delete_job_rows i (deletion_session i db)))"
  using assms unfolding delete_job_def Let_def
  by (elim with_job_cases guard_outcome sum_outcome)
     (auto simp: rejected job_fail_eq get_drive_for_update_Some get_drive_for_update_None deletion_session_def
       intro: deleted split: option.splits locked.splits if_splits)

lemma audit_job_deleted_audited: "audited w (audit_job_deleted fk e i p d w)"
  by (simp add: audit_job_deleted_def)

lemma deletion_session_ok: "drives_bound db (deletion_session i db) \<and> jobs (deletion_session i db) = jobs db"
proof (cases "\<exists>d. deletion_session i db = set_drive d drive_available db")
  case True
  then obtain d where "deletion_session i db = set_drive d drive_available db" by blast
  then show ?thesis using drives_bound_set [of drive_available d db] by (simp add: frame_simps)
next
  case False
  then have "deletion_session i db = db"
    by (auto simp: deletion_session_def split: option.splits)
  then show ?thesis by (simp add: drives_bound_same)
qed

lemma add_manifest_frame:
  "add_manifest e i a p db = Some db' \<Longrightarrow> drives db' = drives db \<and> jobs db' = jobs db \<and>
     assignments db' = assignments db \<and> files db' = files db \<and> shares db' = shares db"
  by (auto simp: add_manifest_def)

lemma generate_manifests_frame:
  "generate_manifests e host strict j targets created db = (db', calls, r) \<Longrightarrow>
     drives db' = drives db \<and> jobs db' = jobs db \<and> assignments db' = assignments db \<and> files db' = files db \<and>
     shares db' = shares db \<and> (\<forall>i. Schedule_copy i \<notin> set calls)"
proof (induction e host strict j targets created db arbitrary: db' calls r rule: generate_manifests.induct)
  case (2 e host strict j a fs targets created db)
  let ?path = "path_join (the (Option.bind (get_drive (a_drive_id a) db) d_mount_path)) manifest_name"
  show ?case
  proof (cases "truthy (Option.bind (get_drive (a_drive_id a) db) d_mount_path) \<and> mh_write host ?path")
    case True
    show ?thesis
    proof (cases "add_manifest e (j_id j) (Some (a_id a)) ?path db")
      case (Some db1)
      let ?g = "generate_manifests e host strict j targets True (audit_manifest_created e j (a_drive_id a) manifest_name db1)"
      obtain x y z where g: "?g = (x, y, z)" by (cases ?g)
      note ih = "2.IH" [OF refl _ refl _ Some g]
      from True have "drives x = drives db1 \<and> jobs x = jobs db1 \<and> assignments x = assignments db1 \<and>
          files x = files db1 \<and> shares x = shares db1 \<and> (\<forall>i. Schedule_copy i \<notin> set y)"
        using ih by simp
      with add_manifest_frame [OF Some] 2(2) True Some g show ?thesis by (auto simp: Let_def)
    qed (use 2(2) True in \<open>auto simp: Let_def\<close>)
  qed (use 2(2) in \<open>auto simp: Let_def split: if_splits\<close>)
qed simp

lemma auto_manifest_frame:
  "auto_generate_manifest_for_completed_job e host i db = (db', calls, c) \<Longrightarrow>
     drives db' = drives db \<and> jobs db' = jobs db \<and> (\<forall>i. Schedule_copy i \<notin> set calls)"
  unfolding auto_generate_manifest_for_completed_job_def generate_manifest_for_job_def
  by (auto split: option.splits if_splits prod.splits sum.splits dest!: generate_manifests_frame)

lemma complete_job_cases:
  assumes "complete_job e host i db = (db', calls, r)"
  obtains (rejected) err where "r = Inl err" "db' = db" "calls = []"
  | (committed) j where "get_job i db = Some j" "j_status j \<in> {JPENDING, PAUSED, JFAILED}" "\<not> analysis_running j"
      "r = Inr (complete_update e j)" "jobs db' = upd_row j_id i (complete_update e) (jobs db)" "drives db' = drives db"
      "\<forall>k. Schedule_copy k \<notin> set calls"
  using assms unfolding complete_job_def Let_def
  by (elim with_job_cases guard_outcome save_job_cases)
     (auto simp: rejected frame_simps split: prod.splits dest!: auto_manifest_frame intro!: committed)

section \<open>Creation\<close>

lemma reserve_Inl:
  "reserve_selected_drive e st body job_id primary db i ws = Inl (db', err) \<Longrightarrow> audited db db'"
  unfolding reserve_selected_drive_def Let_def
  by (auto split: prod.splits if_splits locked.splits option.splits sum.splits dest: reject_overlap_Some)

lemma reserve_Inr:
  assumes "reserve_selected_drive e st body job_id primary db i (w, sel) = Inr (w', sel', d)"
  obtains p where "i \<notin> set sel" "get_drive i w = Some d" "d_current_project_id d = Some (b_project_id body)"
    "d_current_state d \<in> {AVAILABLE, IN_USE}" "truthy (d_mount_path d)"
    "\<not> primary \<Longrightarrow> \<not> is_drive_assigned_to_another_job i None w"
    "source_of st (d_mount_path d) (job_source job_id w) = Inr p"
    "primary \<Longrightarrow> reject_source_path_overlap e (b_project_id body) i p None db = None"
    "w' = set_drive i drive_in_use (add_assignment e i job_id primary
            (if primary then set_job job_id (with_source p) w else w))"
    "sel' = sel @ [i]"
  using assms unfolding reserve_selected_drive_def Let_def with_source_eq
  by (auto simp: get_drive_for_update_Some split: prod.splits if_splits locked.splits option.splits sum.splits)

lemma reserve_overflow_Inl:
  "reserve_overflow_drives e st exc body job_id db is ws = Inl (db', err) \<Longrightarrow> audited db db'"
  by (induction e st exc body job_id db "is" ws rule: reserve_overflow_drives.induct)
     (auto dest: reserve_Inl split: sum.splits prod.splits if_splits)

lemma select_primary_Inl: "select_primary e st body job_id db w = Inl (db', err) \<Longrightarrow> audited db db'"
  unfolding select_primary_def Let_def
  by (auto dest: reserve_Inl reject_overlap_Some split: option.splits sum.splits prod.splits if_splits)

text \<open>What the session of a creation looks like while the drives \<open>sel\<close> have been reserved.\<close>

definition reserving :: "db \<Rightarrow> string \<Rightarrow> int \<Rightarrow> int list \<Rightarrow> db \<Rightarrow> bool" where
  "reserving db p job_id sel w \<longleftrightarrow>
     (\<exists>news. assignments w = assignments db @ news \<and> map a_drive_id news = sel \<and>
        (\<forall>a \<in> set news. a_job_id a = job_id \<and> a_released_at a = None)) \<and>
     distinct sel \<and> drives_bound db w \<and> files w = files db \<and> shares w = shares db \<and>
     (\<forall>i \<in> set sel. \<exists>d. get_drive i w = Some d \<and> d_current_project_id d = Some p \<and>
        d_current_state d = IN_USE \<and> truthy (d_mount_path d)) \<and>
     (\<forall>i. i \<notin> set sel \<longrightarrow> get_drive i w = get_drive i db) \<and>
     (\<forall>k. k \<noteq> job_id \<longrightarrow> get_job k w = get_job k db) \<and>
     (\<exists>j. get_job job_id w = Some j \<and> j_id j = job_id \<and> j_status j = JPENDING \<and> j_project_id j = p)"

lemma reserving_new:
  assumes "get_job job_id db = None" "normalize_project_id (b_project_id body) = b_project_id body"
  shows "reserving db (b_project_id body) job_id [] (db\<lparr>jobs := jobs db @ [new_job e body source job_id]\<rparr>)"
  using assms
  by (auto simp: reserving_def drives_bound_same get_drive_def get_job_def get_row_append new_job_def
      get_row_Cons get_row_Nil split: option.splits)

lemma reserving_job:
  assumes "reserving db p job_id sel w"
    and "\<And>j. j_id (f j) = j_id j" "\<And>j. j_status (f j) = j_status j" "\<And>j. j_project_id (f j) = j_project_id j"
  shows "reserving db p job_id sel (set_job job_id f w)"
proof -
  have "drives_bound db (set_job job_id f w)"
    using assms(1) drives_bound_trans [OF _ drives_bound_same [of "set_job job_id f w" w]]
    by (auto simp: reserving_def frame_simps)
  with assms show ?thesis by (auto simp: reserving_def frame_simps get_set_job)
qed

text \<open>Reserving one more drive: \<open>f\<close> binds it to the project or keeps it bound.\<close>

lemma reserving_drive:
  assumes r: "reserving db p job_id sel w" and i: "i \<notin> set sel" "get_drive i w = Some d"
    and f: "\<And>x. d_id (f x) = d_id x" "d_current_project_id (f d) = Some p" "d_current_state (f d) = IN_USE"
      "truthy (d_mount_path (f d))" and d: "d_current_project_id d \<in> {None, Some p}"
  shows "reserving db p job_id (sel @ [i]) (set_drive i f (add_assignment e i job_id b w))"
proof -
  let ?w = "set_drive i f (add_assignment e i job_id b w)"
  have "drives_bound w (add_assignment e i job_id b w)" by (rule drives_bound_same) (simp add: frame_simps)
  moreover have "drives_bound (add_assignment e i job_id b w) ?w"
    using i(2) f(2) d by (intro drives_bound_set f(1)) (auto simp: frame_simps)
  ultimately have "drives_bound db ?w" using r by (metis drives_bound_trans reserving_def)
  moreover have "\<exists>news. assignments ?w = assignments db @ news \<and> map a_drive_id news = sel @ [i] \<and>
      (\<forall>a \<in> set news. a_job_id a = job_id \<and> a_released_at a = None)"
  proof -
    from r obtain news where n: "assignments w = assignments db @ news" "map a_drive_id news = sel"
      "\<forall>a \<in> set news. a_job_id a = job_id \<and> a_released_at a = None" by (auto simp: reserving_def)
    then show ?thesis by (intro exI [of _ "news @ [last (assignments (add_assignment e i job_id b w))]"])
        (auto simp: frame_simps add_assignment_def)
  qed
  ultimately show ?thesis
    using r i f by (auto simp: reserving_def frame_simps get_set_drive [OF f(1)])
qed

lemma reserve_reserving:
  assumes "reserve_selected_drive e st body job_id primary db i (w, sel) = Inr (w', sel', d)"
    and "reserving db (b_project_id body) job_id sel w"
  shows "reserving db (b_project_id body) job_id sel' w' \<and> sel' = sel @ [i] \<and> (\<not> primary \<longrightarrow> jobs w' = jobs w)"
  using assms(1)
proof (rule reserve_Inr)
  fix p
  assume i: "i \<notin> set sel" "get_drive i w = Some d" and d: "d_current_project_id d = Some (b_project_id body)"
    "truthy (d_mount_path d)" and sel': "sel' = sel @ [i]"
    and w': "w' = set_drive i drive_in_use (add_assignment e i job_id primary
            (if primary then set_job job_id (with_source p) w else w))"
  let ?w = "if primary then set_job job_id (with_source p) w else w"
  have "reserving db (b_project_id body) job_id sel ?w" using assms(2) by (simp add: reserving_job)
  moreover have "get_drive i ?w = Some d" using i(2) by (simp add: frame_simps)
  ultimately have "reserving db (b_project_id body) job_id (sel @ [i]) w'"
    unfolding w' using i(1) d by (intro reserving_drive) (auto simp: drive_in_use_def)
  with sel' w' show ?thesis by (simp add: frame_simps)
qed

lemma reserve_overflow_reserving:
  assumes "reserve_overflow_drives e st exc body job_id db is (w, sel) = Inr w'"
    and "reserving db (b_project_id body) job_id sel w"
  shows "reserving db (b_project_id body) job_id (sel @ is) w' \<and> jobs w' = jobs w"
  using assms
proof (induction "is" arbitrary: w sel)
  case (Cons i "is")
  show ?case
  proof (cases "reserve_selected_drive e st body job_id False db i (w, sel)")
    case (Inl r)
    with Cons.prems(1) show ?thesis by simp
  next
    case (Inr x)
    obtain w1 sel1 d where x: "x = (w1, sel1, d)" by (cases x)
    from reserve_reserving [OF Inr [unfolded x] Cons.prems(2)] Cons.prems(1) Cons.IH [of w1 sel1] Inr x
    show ?thesis by (auto split: if_splits)
  qed
qed simp

lemma auto_assign_Inr:
  assumes "auto_assign_drive e p w = Inr (d, k)" "pk_ok d_id (drives w)" "normalize_project_id p = p" "p \<noteq> []"
  obtains x where "get_drive (d_id d) w = Some x" "d_current_project_id d = Some p" "d_mount_path d = d_mount_path x"
    "d_current_project_id x \<in> {None, Some p}" "d_current_state x = AVAILABLE"
    "k = Project_bound \<Longrightarrow> count_available_for_project p w = 1"
    "k = Unbound_fallback \<Longrightarrow> count_available_for_project p w = 0"
proof (cases "get_one_available_for_project e p w")
  case (Some y)
  then have y: "y \<in> set (filter (\<lambda>d. d_current_state d = AVAILABLE \<and> d_current_project_id d = Some p \<and>
      \<not> e_drive_locked e (d_id d)) (drives w))"
    using assms(3,4) by (auto simp: get_one_available_for_project_def dest!: first_by_in)
  then have "count_available_for_project p w \<noteq> 0"
    using assms(3,4) by (auto simp: count_available_for_project_def filter_empty_conv)
  with assms(1) Some have "d = y" "k = Project_bound" "count_available_for_project p w = 1"
    by (auto simp: auto_assign_drive_def split: if_splits)
  with y that [of y] get_row_in [OF assms(2)] show ?thesis by (auto simp: get_drive_def)
next
  case None
  with assms(1) obtain y where y: "get_next_unbound_available e w = Some y"
    "d = y\<lparr>d_current_project_id := drive_project_validator (Some p)\<rparr>" "k = Unbound_fallback"
    "count_available_for_project p w = 0"
    by (auto simp: auto_assign_drive_def split: if_splits option.splits)
  then have "y \<in> set (drives w)" "d_current_project_id y = None" "d_current_state y = AVAILABLE"
    by (auto simp: get_next_unbound_available_def dest!: first_by_in)
  with y that [of y] get_row_in [OF assms(2)] drive_project_validator_ok [OF assms(3,4)] show ?thesis
    by (auto simp: get_drive_def)
qed

lemma select_primary_Inr:
  assumes "select_primary e st body job_id db w = Inr (w', sel, d, k)"
    and r: "reserving db (b_project_id body) job_id [] w" and pk: "pk_ok d_id (drives w)"
    and p: "normalize_project_id (b_project_id body) = b_project_id body" "b_project_id body \<noteq> []"
  obtains s where "reserving db (b_project_id body) job_id sel w'" "job_source job_id w' = s" "sel = [d_id d]"
    "reject_source_path_overlap e (b_project_id body) (d_id d) s None db = None"
    "source_of st (d_mount_path d) (job_source job_id w) = Inr s"
proof -
  obtain j0 where j0: "get_job job_id w = Some j0" using r by (auto simp: reserving_def)
  have src: "job_source job_id (set_drive a b (add_assignment e a job_id c (set_job job_id f w))) = j_source_path (f j0)"
    "job_source job_id (set_job job_id g (set_drive a b (add_assignment e a job_id c (set_job job_id f w)))) =
       j_source_path (g (f j0))"
    if "\<And>j. j_id (f j) = j_id j" "\<And>j. j_id (g j) = j_id j" for a b c f g
    using j0 by (simp_all add: job_source_def frame_simps get_set_job that)
  show ?thesis
  proof (cases "b_drive_id body")
    case (Some i)
    with assms(1) obtain w1 where res: "reserve_selected_drive e st body job_id True db i (w, []) = Inr (w1, sel, d)"
      and w': "w' = set_job job_id (\<lambda>j. j\<lparr>j_target_mount_path := d_mount_path d\<rparr>) w1"
      by (auto simp: select_primary_def split: sum.splits)
    from res show ?thesis
    proof (rule reserve_Inr)
      fix s
      assume a: "get_drive i w = Some d" "source_of st (d_mount_path d) (job_source job_id w) = Inr s"
        "True \<Longrightarrow> reject_source_path_overlap e (b_project_id body) i s None db = None" "sel = [] @ [i]"
        "w1 = set_drive i drive_in_use (add_assignment e i job_id True
            (if True then set_job job_id (with_source s) w else w))"
      have "reserving db (b_project_id body) job_id sel w'"
        unfolding w' using reserve_reserving [OF res r] by (intro reserving_job) auto
      moreover have "job_source job_id w' = s" unfolding w' a(5) by (simp add: src with_source_def)
      ultimately show ?thesis using that a get_drive_id [OF a(1)] by auto
    qed
  next
    case None
    with assms(1) obtain s where a: "auto_assign_drive e (b_project_id body) w = Inr (d, k)" "truthy (d_mount_path d)"
      "source_of st (d_mount_path d) (job_source job_id w) = Inr s"
      "reject_source_path_overlap e (b_project_id body) (d_id d) s None db = None" "sel = [d_id d]"
      and w': "w' = set_drive (d_id d) (\<lambda>x. x\<lparr>d_current_project_id := d_current_project_id d, d_current_state := IN_USE\<rparr>)
         (add_assignment e (d_id d) job_id True
           (set_job job_id (\<lambda>j. j\<lparr>j_target_mount_path := d_mount_path d, j_source_path := s\<rparr>) w))"
      by (auto simp: select_primary_def Let_def split: sum.splits prod.splits option.splits if_splits)
    let ?w = "set_job job_id (\<lambda>j. j\<lparr>j_target_mount_path := d_mount_path d, j_source_path := s\<rparr>) w"
    from a(1) pk p obtain x where x: "get_drive (d_id d) w = Some x" "d_current_project_id d = Some (b_project_id body)"
      "d_mount_path d = d_mount_path x" "d_current_project_id x \<in> {None, Some (b_project_id body)}"
      by (rule auto_assign_Inr)
    have "reserving db (b_project_id body) job_id [] ?w" using r by (intro reserving_job) auto
    moreover have "get_drive (d_id d) ?w = Some x" using x(1) by (simp add: frame_simps)
    ultimately have "reserving db (b_project_id body) job_id ([] @ [d_id d]) w'"
      unfolding w' using x a(2) by (intro reserving_drive) auto
    moreover have "job_source job_id w' = s" unfolding w' by (simp add: src)
    ultimately show ?thesis using that a by simp
  qed
qed

lemma audit_auto_selection_audited: "audited w (audit_auto_selection e i d p k w)"
  unfolding audit_auto_selection_def audit_drive_project_bound_def audit_drive_auto_assigned_def
  by (auto dest!: audit_add_audited intro: audited_trans split: selection.splits option.splits if_splits)

lemma create_job_cases:
  assumes "create_job e st exc body seeded db = (db', calls, r)"
  obtains (rejected) err where "r = Inl err" "audited db db'" "calls = []"
  | (committed) i w0 w1 sel d k w source where "get_job i db = None"
      "w0 = db\<lparr>jobs := jobs db @ [new_job e body source i]\<rparr>"
      "select_primary e st body i db w0 = Inr (w1, sel, d, k)"
      "reserve_overflow_drives e st exc body i db (b_overflow_drive_ids body) (w1, sel) = Inr w"
      "audited w db'" "calls = [Job_callback i ''JOB_CREATED'']" "r = Inr (the (get_job i w))"
proof (cases "resolve_job_source_path st body db")
  case (Inl err)
  with assms rejected show ?thesis by (auto simp: create_job_def job_fail_eq)
next
  case (Inr source)
  define i where "i = (case seeded of None \<Rightarrow> next_id j_id (jobs db) | Some i \<Rightarrow> i)"
  define w0 where "w0 = db\<lparr>jobs := jobs db @ [new_job e body source i]\<rparr>"
  have fresh: "get_job i db = None" if "\<not> (seeded \<noteq> None \<and> get_job i db \<noteq> None)"
    using that by (cases seeded) (auto simp: i_def get_job_def)
  have aud: "audited w (audit_job_created e st body j (audit_auto_selection e i x p k w))" for w j x p k
    using audit_auto_selection_audited by blast
  from assms show ?thesis
    unfolding create_job_def Let_def Inr sum.case i_def [symmetric] w0_def [symmetric]
  proof (elim guard_outcome reject_sum_outcome, goal_cases)
    case (5 y)
    obtain w1 sel d k where y: "y = (w1, sel, d, k)" by (cases y)
    show ?case
    proof (cases "e_db_ok e ''create_job_assign''")
      case True
      show ?thesis
      proof (cases "reserve_overflow_drives e st exc body i db (b_overflow_drive_ids body) (w1, sel)")
        case (Inl q)
        obtain db1 err where q: "q = (db1, err)" by (cases q)
        with 5 y True Inl reserve_overflow_Inl [OF Inl [unfolded q]] rejected show ?thesis
          by (auto simp: job_fail_eq)
      next
        case (Inr w)
        with 5 y True committed [OF fresh w0_def _ Inr] aud rejected show ?thesis
          by (auto simp: job_fail_eq split: if_splits)
      qed
    qed (use 5 y rejected in \<open>auto simp: job_fail_eq\<close>)
  qed (use rejected select_primary_Inl in \<open>auto dest: select_primary_Inl\<close>)
qed

text \<open>C3. A created job is bound correctly: it gets a fresh id and starts pending in its project; its
  destination and overflow drives are pairwise different, exist, are mounted, belong to the job's project
  and are in use; every other job, assignment, file and drive is as before, and no drive that was bound
  changes its project.\<close>

theorem create_job_success:
  assumes "create_job e st exc body seeded db = (db', calls, Inr j)"
    and "pk_ok d_id (drives db)"
    and "normalize_project_id (b_project_id body) = b_project_id body" "b_project_id body \<noteq> []"
  shows "get_job (j_id j) db = None \<and> get_job (j_id j) db' = Some j \<and> j_status j = JPENDING \<and>
    j_project_id j = b_project_id body \<and> (\<forall>k. k \<noteq> j_id j \<longrightarrow> get_job k db' = get_job k db) \<and>
    files db' = files db \<and> drives_bound db db' \<and>
    (\<exists>news. assignments db' = assignments db @ news \<and> news \<noteq> [] \<and> distinct (map a_drive_id news) \<and>
       tl (map a_drive_id news) = b_overflow_drive_ids body \<and>
       (\<forall>a \<in> set news. a_job_id a = j_id j \<and> a_released_at a = None \<and>
          (\<exists>d. get_drive (a_drive_id a) db' = Some d \<and> d_current_project_id d = Some (b_project_id body) \<and>
               d_current_state d = IN_USE \<and> truthy (d_mount_path d))) \<and>
       (\<forall>i. i \<notin> a_drive_id ` set news \<longrightarrow> get_drive i db' = get_drive i db))"
  using assms(1)
proof (cases rule: create_job_cases)
  case (committed i w0 w1 sel d k w source)
  have r0: "reserving db (b_project_id body) i [] w0"
    unfolding committed(2) by (rule reserving_new [OF committed(1) assms(3)])
  have pk: "pk_ok d_id (drives w0)" using assms(2) committed(2) by simp
  obtain s where r1: "reserving db (b_project_id body) i sel w1" and sel: "sel = [d_id d]"
    using select_primary_Inr [OF committed(3) r0 pk assms(3,4)] by blast
  from reserve_overflow_reserving [OF committed(4) r1]
  have r2: "reserving db (b_project_id body) i (d_id d # b_overflow_drive_ids body) w" using sel by simp
  then obtain j' where j': "get_job i w = Some j'" "j_id j' = i" "j_status j' = JPENDING"
    "j_project_id j' = b_project_id body" by (auto simp: reserving_def)
  with committed(7) have j: "j = j'" by simp
  from r2 obtain news where news: "assignments w = assignments db @ news"
    "map a_drive_id news = d_id d # b_overflow_drive_ids body"
    "\<forall>a \<in> set news. a_job_id a = i \<and> a_released_at a = None" by (auto simp: reserving_def)
  have set: "a_drive_id ` set news = set (d_id d # b_overflow_drive_ids body)"
    using news(2) by (metis list.set_map)
  have bound: "\<forall>a \<in> set news. \<exists>d. get_drive (a_drive_id a) db' = Some d \<and>
      d_current_project_id d = Some (b_project_id body) \<and> d_current_state d = IN_USE \<and> truthy (d_mount_path d)"
    using r2 set audited_frame(10) [OF committed(5)] unfolding reserving_def by (metis imageI)
  have others: "\<forall>i. i \<notin> a_drive_id ` set news \<longrightarrow> get_drive i db' = get_drive i db"
    using r2 set audited_frame(10) [OF committed(5)] unfolding reserving_def by simp
  have "drives_bound db db'"
    using r2 drives_bound_trans [OF _ drives_bound_same [OF audited_frame(3) [OF committed(5)]]]
    by (auto simp: reserving_def)
  moreover have "distinct (map a_drive_id news)" "tl (map a_drive_id news) = b_overflow_drive_ids body" "news \<noteq> []"
    using r2 news(2) by (auto simp: reserving_def)
  moreover note audited_frame(5,6,7,11) [OF committed(5)]
  moreover have "\<forall>k. k \<noteq> i \<longrightarrow> get_job k w = get_job k db" "files w = files db"
    using r2 by (auto simp: reserving_def)
  ultimately show ?thesis using j j' news(1,3) bound others committed(1) by (intro conjI exI [of _ news]) auto
qed simp

text \<open>A rejected creation leaves nothing behind: no job, assignment or drive change survives, whatever the
  reason and however far the session had got; only audit records may have been added.\<close>

theorem create_job_rejected:
  assumes "create_job e st exc body seeded db = (db', calls, Inl err)"
  shows "(\<exists>ls. db' = db\<lparr>audits := audits db @ ls\<rparr>) \<and> calls = []"
  using assms by (cases rule: create_job_cases) (auto simp: audited_def)


section \<open>Updates\<close>

text \<open>A session that keeps jobs and project bindings.\<close>

definition session_ok :: "db \<Rightarrow> db \<Rightarrow> bool" where
  "session_ok db w \<longleftrightarrow> jobs w = jobs db \<and> drives_bound db w"

lemma session_ok_refl [simp]: "session_ok db db"
  by (simp add: session_ok_def drives_bound_same)

lemma session_ok_trans: "session_ok a b \<Longrightarrow> session_ok b c \<Longrightarrow> session_ok a c"
  by (auto simp: session_ok_def intro: drives_bound_trans)

lemma session_ok_steps:
  "session_ok w (add_assignment e d i b w)" "session_ok w (set_assignment k f w)"
  "session_ok w (set_drive k drive_in_use w)" "session_ok w (set_drive k drive_available w)"
  by (auto simp: session_ok_def frame_simps drives_bound_same intro: drives_bound_set)

lemma release_active_session: "release_active e i a w = Inr w' \<Longrightarrow> session_ok w w'"
  using release_active_ok by (simp add: session_ok_def)

lemma switch_primary_ok: "switch_primary e l i a d w = Inr w' \<Longrightarrow> session_ok w w'"
  unfolding switch_primary_def
  by (auto split: if_splits option.splits sum.splits simp: session_ok_steps
      dest!: release_active_session intro: session_ok_trans [OF _ session_ok_steps(1)])

lemma release_unwanted_ok: "release_unwanted e i ds as w = Inr w' \<Longrightarrow> session_ok w w'"
proof (induction as arbitrary: w)
  case (Cons a as)
  let ?w = "set_assignment (a_id a) (\<lambda>a. a\<lparr>a_released_at := Some (e_now e)\<rparr>) w"
  have "session_ok w ?w" "session_ok w (set_drive (a_drive_id a) drive_available ?w)"
    using session_ok_trans [OF session_ok_steps(2) session_ok_steps(4)] by (simp_all add: session_ok_steps)
  with Cons show ?case
    by (auto simp: Let_def split: if_splits locked.splits option.splits intro: session_ok_trans)
qed simp

text \<open>One iteration of the reservation loop.\<close>

lemma reserve_wanted_step:
  fixes e j d ex db i "is" w
  defines "result \<equiv> reserve_wanted e j d ex db (i # is) w"
  shows "(\<exists>x. result = Inl (db, x)) \<or>
     (\<exists>p. result = Inl (audit_job_isolation e (j_project_id j) i p (Some (j_id j)) w db, Drive_other_project)) \<or>
     result = reserve_wanted e j d ex db is w \<or>
     result = reserve_wanted e j d ex db is (set_drive i drive_in_use (add_assignment e i (j_id j) False w))"
proof (cases "get_drive_for_update e i w")
  case (Row y)
  then show ?thesis unfolding result_def reserve_wanted.simps by (cases y) auto
qed (simp add: result_def)

lemma reserve_wanted_ok:
  "reserve_wanted e j d ex db is w = x \<Longrightarrow>
     (case x of Inr w' \<Rightarrow> session_ok w w'
      | Inl (db', err) \<Rightarrow> db' = db \<or> (\<exists>v. session_ok w v \<and> audited v db'))"
proof (induction "is" arbitrary: w)
  case (Cons i "is")
  let ?w = "set_drive i drive_in_use (add_assignment e i (j_id j) False w)"
  have step: "session_ok w ?w" by (rule session_ok_trans [OF session_ok_steps(1) session_ok_steps(3)])
  have iso: "audit_job_isolation e p y q k w db = db \<or> (\<exists>v. session_ok w v \<and> audited v (audit_job_isolation e p y q k w db))"
    for p y q k
    unfolding audit_job_isolation_def using audit_commit_cases session_ok_refl by blast
  from reserve_wanted_step [of e j d ex db i "is" w] Cons.prems
  consider y where "x = Inl (db, y)"
    | p where "x = Inl (audit_job_isolation e (j_project_id j) i p (Some (j_id j)) w db, Drive_other_project)"
    | "reserve_wanted e j d ex db is w = x" | "reserve_wanted e j d ex db is ?w = x" by metis
  then show ?case
  proof cases
    case 3
    then show ?thesis by (rule Cons.IH)
  next
    case 4
    then have "case x of Inr w' \<Rightarrow> session_ok ?w w' | Inl (db', err) \<Rightarrow> db' = db \<or> (\<exists>v. session_ok ?w v \<and> audited v db')"
      by (rule Cons.IH)
    with step show ?thesis by (cases x) (auto intro: session_ok_trans)
  qed (use iso in simp_all)
qed auto

lemma update_session_ok:
  assumes "update_session e j body l a d v db = Inr w"
  shows "drives_bound db w" "jobs w = upd_row j_id (j_id j) (update_fields l body v (d_mount_path d)) (jobs db)"
proof -
  from assms obtain w1 w2 w3 ex where s: "switch_primary e l (j_id j) a (d_id d) db = Inr w1"
    "release_unwanted e (j_id j) (b_overflow_drive_ids body) (list_for_job (j_id j) db) w1 = Inr w2"
    "reserve_wanted e j (d_id d) ex db (b_overflow_drive_ids body) w2 = Inr w3"
    and w: "w = drop_stale_source_rows l j v (set_job (j_id j) (update_fields l body v (d_mount_path d))
              (set_drive (d_id d) drive_in_use w3))"
    by (auto simp: update_session_def Let_def split: sum.splits)
  have "session_ok w2 w3" using reserve_wanted_ok [OF s(3)] by simp
  then have "session_ok db (set_drive (d_id d) drive_in_use w3)"
    using switch_primary_ok [OF s(1)] release_unwanted_ok [OF s(2)] session_ok_steps(3) session_ok_trans by metis
  then show "drives_bound db w" "jobs w = upd_row j_id (j_id j) (update_fields l body v (d_mount_path d)) (jobs db)"
    by (auto simp: w drop_stale_source_rows_def session_ok_def frame_simps
        intro: drives_bound_trans [OF _ drives_bound_same])
qed

lemma update_session_Inl:
  assumes "update_session e j body l a d v db = Inl (db', err)"
  shows "db' = db \<or> (\<exists>w. session_ok db w \<and> audited w db')"
proof -
  have "db' = db" if "switch_primary e l (j_id j) a (d_id d) db = Inl x" for x
    using assms that by (simp add: update_session_def)
  moreover have "db' = db" if "switch_primary e l (j_id j) a (d_id d) db = Inr w1"
      "release_unwanted e (j_id j) (b_overflow_drive_ids body) (list_for_job (j_id j) db) w1 = Inl x" for w1 x
    using assms that by (simp add: update_session_def)
  moreover have ?thesis if s: "switch_primary e l (j_id j) a (d_id d) db = Inr w1"
      "release_unwanted e (j_id j) (b_overflow_drive_ids body) (list_for_job (j_id j) db) w1 = Inr w2" for w1 w2
  proof -
    have ok: "session_ok db w2"
      using switch_primary_ok [OF s(1)] release_unwanted_ok [OF s(2)] session_ok_trans by metis
    obtain ex where "reserve_wanted e j (d_id d) ex db (b_overflow_drive_ids body) w2 = Inl (db', err)"
      using assms s by (auto simp: update_session_def Let_def split: sum.splits)
    from reserve_wanted_ok [OF this] have "db' = db \<or> (\<exists>v. session_ok w2 v \<and> audited v db')" by simp
    with ok session_ok_trans show ?thesis by metis
  qed
  ultimately show ?thesis by (metis sum.exhaust)
qed

lemma update_job_cases:
  assumes "update_job e st i body db = (db', calls, r)"
  obtains (rejected) err where "r = Inl err" "audited db db'" "calls = []"
  | (partial) err w where "r = Inl err" "session_ok db w" "audited w db'" "calls = []"
  | (committed) j d a v l w where "get_job i db = Some j" "j_status j = JPENDING \<or> j_status j \<in> set started_job_editable_statuses"
      "l = (j_status j \<in> set started_job_editable_statuses)" "b_project_id body = j_project_id j"
      "get_drive (d_id d) db = Some d" "target_drive_guards e j d db = None"
      "update_session e j body l a d v db = Inr w" "audited w db'"
      "r = Inr (update_fields l body v (d_mount_path d) j)" "calls = []"
proof -
  from assms show thesis
    unfolding update_job_def Let_def
  proof (elim with_job_cases guard_outcome option_outcome locked_outcome reject_outcome sum_outcome reject_sum_outcome
      save_job_cases, goal_cases)
    case (11 j p k d err)
    then show ?case using rejected target_drive_guards_Some by metis
  next
    case (13 j p k d v err)
    then show ?case using rejected reject_overlap_Some by (metis option.distinct(1))
  next
    case (14 j p k d v err)
    then show ?case using rejected partial update_session_Inl audited_refl by metis
  next
    case (16 j p k d v w)
    have "d_id d = k" using 16(9) by (rule get_drive_id)
    with 16 committed [OF 16(1) _ refl _ _ 16(11) 16(14)] show ?case by auto
  qed (use rejected in auto)
qed

section \<open>The life cycle as a state machine\<close>

text \<open>The transitions that requests may make; the copy engine makes the remaining ones.\<close>

inductive job_transition :: "job_status \<Rightarrow> job_status \<Rightarrow> bool" where
  t_start: "s \<in> {JPENDING, JFAILED, PAUSED} \<Longrightarrow> job_transition s PREPARING"
| t_rerun: "job_transition COMPLETED PREPARING"
| t_pause: "job_transition RUNNING PAUSING"
| t_verify: "job_transition COMPLETED VERIFYING"
| t_complete: "s \<in> {JPENDING, JFAILED, PAUSED} \<Longrightarrow> job_transition s COMPLETED"
| t_archive: "s \<in> {COMPLETED, JFAILED} \<Longrightarrow> job_transition s ARCHIVED"

inductive_simps job_transition_from [simp]:
  "job_transition ARCHIVED s" "job_transition PREPARING s" "job_transition PAUSING s" "job_transition VERIFYING s"
  "job_transition RUNNING s"

inductive_simps job_transition_to: "job_transition s PREPARING" "job_transition s ARCHIVED"

text \<open>What one step does to every stored job: it survives unless it was pending, keeps its project and
  follows a transition; a copy is scheduled only for a job that enters the preparing state.\<close>

definition lifecycle :: "db \<Rightarrow> job_effect list \<Rightarrow> db \<Rightarrow> bool" where
  "lifecycle db calls db' \<longleftrightarrow>
     (\<forall>i j. get_job i db = Some j \<longrightarrow>
        (case get_job i db' of
           None \<Rightarrow> j_status j = JPENDING
         | Some j' \<Rightarrow> j_project_id j' = j_project_id j \<and>
                     (j_status j' = j_status j \<or> job_transition (j_status j) (j_status j')))) \<and>
     (\<forall>i. Schedule_copy i \<in> set calls \<longrightarrow>
        (\<exists>j j'. get_job i db = Some j \<and> get_job i db' = Some j' \<and> j_status j' = PREPARING \<and>
           job_transition (j_status j) PREPARING))"

inductive job_step :: "db \<Rightarrow> job_effect list \<Rightarrow> db \<Rightarrow> bool" where
  js_create: "create_job e st exc body seeded db = (db', calls, r) \<Longrightarrow> pk_ok d_id (drives db) \<Longrightarrow>
    normalize_project_id (b_project_id body) = b_project_id body \<Longrightarrow> b_project_id body \<noteq> [] \<Longrightarrow> job_step db calls db'"
| js_update: "update_job e st i body db = (db', calls, r) \<Longrightarrow> job_step db calls db'"
| js_start: "start_job e st i t db = (db', calls, r) \<Longrightarrow> job_step db calls db'"
| js_overflow: "continue_job_overflow e st i d t db = (db', calls, r) \<Longrightarrow> job_step db calls db'"
| js_retry: "retry_failed_files e st i db = (db', calls, r) \<Longrightarrow> job_step db calls db'"
| js_pause: "pause_job e i db = (db', calls, r) \<Longrightarrow> job_step db calls db'"
| js_verify: "verify_job e i db = (db', calls, r) \<Longrightarrow> job_step db calls db'"
| js_complete: "complete_job e host i db = (db', calls, r) \<Longrightarrow> job_step db calls db'"
| js_archive: "archive_job e i c db = (db', calls, r) \<Longrightarrow> job_step db calls db'"
| js_analyze: "analyze_job e st i db = (db', calls, r) \<Longrightarrow> job_step db calls db'"
| js_clear: "clear_job_startup_analysis_cache e i c db = (db', calls, r) \<Longrightarrow> job_step db calls db'"
| js_delete: "delete_job fk e i db = (db', calls, r) \<Longrightarrow> job_step db calls db'"
| js_manifest: "create_manifest e host i db = (db', calls, r) \<Longrightarrow> job_step db calls db'"

lemma lifecycle_same: "jobs db' = jobs db \<Longrightarrow> \<forall>i. Schedule_copy i \<notin> set calls \<Longrightarrow> lifecycle db calls db'"
  by (simp add: lifecycle_def get_job_def split: option.splits)

lemma lifecycle_set:
  assumes "jobs db' = upd_row j_id i f (jobs db)" "get_job i db = Some j"
    and "\<And>j. j_id (f j) = j_id j" "\<And>j. j_project_id (f j) = j_project_id j"
    and "j_status (f j) = j_status j \<or> job_transition (j_status j) (j_status (f j))"
    and "\<forall>k. Schedule_copy k \<in> set calls \<longrightarrow> k = i \<and> j_status (f j) = PREPARING \<and> job_transition (j_status j) PREPARING"
  shows "lifecycle db calls db'"
proof -
  have "get_job k db' = (if k = i then map_option f (get_job k db) else get_job k db)" for k
    using get_set_job [OF assms(3), of k i db] assms(1) by (simp add: get_job_def set_job_def)
  with assms(2,4-6) show ?thesis by (auto simp: lifecycle_def)
qed

lemmas audited_set = audited_frame(5) [where w = "set_job i f db" for i f db, unfolded set_job_frame(10)]

lemma create_manifest_frame:
  assumes "create_manifest e host i db = (db', calls, r)"
  shows "jobs db' = jobs db \<and> drives db' = drives db \<and> (\<forall>k. Schedule_copy k \<notin> set calls)"
  using assms unfolding create_manifest_def generate_manifest_for_job_def
  by (auto split: option.splits if_splits prod.splits sum.splits dest!: generate_manifests_frame)

lemma start_lifecycle:
  assumes "start_job e st i t db = (db', calls, r)" shows "lifecycle db calls db'"
  using assms
proof (cases rule: start_job_cases)
  case (shortfall j n p)
  show ?thesis by (rule lifecycle_set [OF audited_set [OF shortfall(4)] shortfall(1)]) (simp_all add: shortfall)
next
  case (committed j p)
  then have "job_transition (j_status j) PREPARING" by (intro t_start)
  then show ?thesis
    by (intro lifecycle_set [OF audited_set [OF committed(8)] committed(1)]) (simp_all add: committed(7))
qed (simp add: lifecycle_same)

lemma overflow_lifecycle:
  assumes "continue_job_overflow e st i d t db = (db', calls, r)" shows "lifecycle db calls db' \<and> drives_bound db db'"
  using assms
proof (cases rule: continue_overflow_cases)
  case (rejected err)
  then show ?thesis by (simp add: lifecycle_same audited_frame(3,5) [OF rejected(2)] drives_bound_same)
next
  case (shortfall n p)
  have "lifecycle db calls db'"
  proof (cases "get_job i db")
    case None
    then have "upd_row j_id i (with_source p) (jobs db) = jobs db"
      by (auto simp: get_job_def get_row_None upd_row_def intro!: map_idI)
    with audited_set [OF shortfall(3)] shortfall(2) show ?thesis by (simp add: lifecycle_same)
  next
    case (Some j)
    show ?thesis by (rule lifecycle_set [OF audited_set [OF shortfall(3)] Some]) (simp_all add: shortfall)
  qed
  moreover have "drives db' = drives db" using audited_frame(3) [OF shortfall(3)] by (simp add: frame_simps)
  ultimately show ?thesis by (simp add: drives_bound_same)
next
  case (committed j a x p n w y)
  have id: "j_id j = i" using committed(1) by (rule get_job_id)
  have jb: "jobs db' = upd_row j_id i (overflow_update e p (d_mount_path x) t) (jobs db)"
    using overflow_session_ok(2) [OF committed(11)] audited_frame(5) [OF committed(12)] id by simp
  have "job_transition (j_status j) PREPARING" using committed(2) by (auto intro: job_transition.intros)
  then have "lifecycle db calls db'" by (intro lifecycle_set [OF jb committed(1)]) (simp_all add: committed(14))
  moreover have "drives_bound db db'"
    using overflow_session_ok(1) [OF committed(11)] audited_frame(3) [OF committed(12)]
    by (metis drives_bound_same drives_bound_trans)
  ultimately show ?thesis ..
qed

lemma update_lifecycle:
  assumes "update_job e st i body db = (db', calls, r)" shows "lifecycle db calls db' \<and> drives_bound db db'"
  using assms
proof (cases rule: update_job_cases)
  case (rejected err)
  then show ?thesis by (simp add: lifecycle_same audited_frame(3,5) [OF rejected(2)] drives_bound_same)
next
  case (partial err w)
  with audited_frame(3,5) [OF partial(3)] show ?thesis
    by (auto simp: session_ok_def lifecycle_same intro: drives_bound_trans [OF _ drives_bound_same])
next
  case (committed j d a v l w)
  have id: "j_id j = i" using committed(1) by (rule get_job_id)
  have "jobs db' = upd_row j_id i (update_fields l body v (d_mount_path d)) (jobs db)"
    using update_session_ok(2) [OF committed(7)] audited_frame(5) [OF committed(8)] id by simp
  then have "lifecycle db calls db'" using committed(1) by (rule lifecycle_set) (simp_all add: committed(10))
  moreover have "drives_bound db db'"
    using update_session_ok(1) [OF committed(7)] audited_frame(3) [OF committed(8)]
    by (metis drives_bound_same drives_bound_trans)
  ultimately show ?thesis ..
qed

lemma delete_lifecycle:
  assumes "delete_job fk e i db = (db', calls, r)" shows "lifecycle db calls db' \<and> drives_bound db db'"
  using assms
proof (cases rule: delete_job_cases)
  case (deleted j)
  let ?w = "unlink_audits fk i (delete_job_rows i (deletion_session i db))"
  have a: "audited ?w db'" unfolding deleted(6) by (rule audit_job_deleted_audited)
  have "get_job k db' = (if k = i then None else get_job k db)" for k
    using audited_frame(5) [OF a] deletion_session_ok [of db i]
    by (simp add: get_job_def frame_simps get_row_filter)
  with deleted have "lifecycle db calls db'" by (auto simp: lifecycle_def split: option.splits)
  moreover have "drives db' = drives (deletion_session i db)" using audited_frame(3) [OF a] by (simp add: frame_simps)
  then have "drives_bound db db'" using deletion_session_ok drives_bound_same drives_bound_trans by metis
  ultimately show ?thesis ..
qed (simp add: lifecycle_same drives_bound_same)

lemma create_lifecycle:
  assumes "create_job e st exc body seeded db = (db', calls, r)" "pk_ok d_id (drives db)"
    "normalize_project_id (b_project_id body) = b_project_id body" "b_project_id body \<noteq> []"
  shows "lifecycle db calls db' \<and> drives_bound db db'"
  using assms(1)
proof (cases rule: create_job_cases)
  case (rejected err)
  then show ?thesis by (simp add: lifecycle_same audited_frame(3,5) [OF rejected(2)] drives_bound_same)
next
  case (committed i w0 w1 sel d k w source)
  have r0: "reserving db (b_project_id body) i [] w0"
    unfolding committed(2) by (rule reserving_new [OF committed(1) assms(3)])
  have "pk_ok d_id (drives w0)" using assms(2) committed(2) by simp
  then obtain s where "reserving db (b_project_id body) i sel w1"
    using select_primary_Inr [OF committed(3) r0 _ assms(3,4)] by blast
  from reserve_overflow_reserving [OF committed(4) this]
  have r2: "reserving db (b_project_id body) i (sel @ b_overflow_drive_ids body) w" by simp
  have "get_job k db' = get_job k db" if "get_job k db \<noteq> None" for k
    using r2 that committed(1) audited_frame(11) [OF committed(5)] by (cases "k = i") (auto simp: reserving_def)
  then have "lifecycle db calls db'" by (auto simp: lifecycle_def committed(6))
  moreover have "drives_bound db db'"
    using r2 audited_frame(3) [OF committed(5)] unfolding reserving_def by (metis drives_bound_same drives_bound_trans)
  ultimately show ?thesis ..
qed

lemma status_lifecycle:
  assumes "audited (set_job i f w) db'" "jobs w = jobs db" "get_job i db = Some j"
    and "\<And>j. j_id (f j) = j_id j" "\<And>j. j_project_id (f j) = j_project_id j"
    and "j_status (f j) = j_status j \<or> job_transition (j_status j) (j_status (f j))"
    and "\<forall>k. Schedule_copy k \<in> set calls \<longrightarrow> k = i \<and> j_status (f j) = PREPARING \<and> job_transition (j_status j) PREPARING"
  shows "lifecycle db calls db'"
  by (rule lifecycle_set [OF _ assms(3-7)]) (simp add: audited_frame(5) [OF assms(1)] frame_simps assms(2))

lemma other_lifecycle:
  "retry_failed_files e st i db = (db', calls, r) \<Longrightarrow> lifecycle db calls db'"
  "pause_job e i db = (db', calls, r) \<Longrightarrow> lifecycle db calls db'"
  "verify_job e i db = (db', calls, r) \<Longrightarrow> lifecycle db calls db'"
  "archive_job e i c db = (db', calls, r) \<Longrightarrow> lifecycle db calls db'"
  "analyze_job e st i db = (db', calls, r) \<Longrightarrow> lifecycle db calls db'"
  "clear_job_startup_analysis_cache e i c db = (db', calls, r) \<Longrightarrow> lifecycle db calls db'"
  "complete_job e host i db = (db', calls, r) \<Longrightarrow> lifecycle db calls db'"
proof -
  assume "retry_failed_files e st i db = (db', calls, r)"
  then show "lifecycle db calls db'"
  proof (cases rule: retry_failed_files_cases)
    case (committed j p)
    let ?f = "\<lambda>j. retry_update e (with_source p j)"
    have "jobs db' = upd_row j_id i ?f (jobs db)"
      using audited_frame(5) [OF committed(8)] by (simp add: frame_simps upd_row_comp)
    then show ?thesis
      by (rule lifecycle_set [OF _ committed(1)]) (simp_all add: committed job_transition.intros)
  qed (simp add: lifecycle_same)
next
  assume "pause_job e i db = (db', calls, r)"
  then show "lifecycle db calls db'"
    by (cases rule: pause_job_cases) (simp_all add: lifecycle_same status_lifecycle job_transition.intros)
next
  assume "verify_job e i db = (db', calls, r)"
  then show "lifecycle db calls db'"
    by (cases rule: verify_job_cases) (simp_all add: lifecycle_same status_lifecycle job_transition.intros)
next
  assume "archive_job e i c db = (db', calls, r)"
  then show "lifecycle db calls db'"
  proof (cases rule: archive_job_cases)
    case (committed j)
    then have "audited (set_job i (\<lambda>j. j\<lparr>j_status := ARCHIVED\<rparr>) db) db'" by simp
    then show ?thesis
      by (rule status_lifecycle [OF _ refl committed(2)]) (use committed(3) in \<open>simp_all add: committed(6) t_archive\<close>)
  qed (simp add: lifecycle_same)
next
  assume "analyze_job e st i db = (db', calls, r)"
  then show "lifecycle db calls db'"
    by (cases rule: analyze_job_cases) (simp_all add: lifecycle_same status_lifecycle)
next
  assume "clear_job_startup_analysis_cache e i c db = (db', calls, r)"
  then show "lifecycle db calls db'"
    by (cases rule: clear_cache_cases) (simp_all add: lifecycle_same status_lifecycle frame_simps)
next
  assume "complete_job e host i db = (db', calls, r)"
  then show "lifecycle db calls db'"
  proof (cases rule: complete_job_cases)
    case (committed j)
    from committed(2) have "job_transition (j_status j) COMPLETED" by (intro t_complete) auto
    then show ?thesis
      by (intro lifecycle_set [OF committed(5,1)]) (simp_all add: committed(7))
  qed (simp add: lifecycle_same)
qed

lemma job_step_ok: "job_step db calls db' \<Longrightarrow> lifecycle db calls db' \<and> drives_bound db db'"
proof (induction rule: job_step.induct)
  case (js_start e st i t db db' calls r)
  have "drives db' = drives db"
    using js_start by (cases rule: start_job_cases) (auto simp: frame_simps dest!: audited_frame(3))
  with js_start show ?case by (simp add: start_lifecycle drives_bound_same)
next
  case (js_retry e st i db db' calls r)
  have "drives db' = drives db"
    using js_retry by (cases rule: retry_failed_files_cases) (auto simp: frame_simps dest!: audited_frame(3))
  with js_retry show ?case by (simp add: other_lifecycle drives_bound_same)
next
  case (js_pause e i db db' calls r)
  have "drives db' = drives db"
    using js_pause by (cases rule: pause_job_cases) (auto simp: frame_simps dest!: audited_frame(3))
  with js_pause show ?case by (simp add: other_lifecycle drives_bound_same)
next
  case (js_verify e i db db' calls r)
  have "drives db' = drives db"
    using js_verify by (cases rule: verify_job_cases) (auto simp: frame_simps dest!: audited_frame(3))
  with js_verify show ?case by (simp add: other_lifecycle drives_bound_same)
next
  case (js_archive e i c db db' calls r)
  have "drives db' = drives db"
    using js_archive by (cases rule: archive_job_cases) (auto simp: frame_simps)
  with js_archive show ?case by (simp add: other_lifecycle drives_bound_same)
next
  case (js_analyze e st i db db' calls r)
  have "drives db' = drives db"
    using js_analyze by (cases rule: analyze_job_cases) (auto simp: frame_simps dest!: audited_frame(3))
  with js_analyze show ?case by (simp add: other_lifecycle drives_bound_same)
next
  case (js_clear e i c db db' calls r)
  have "drives db' = drives db"
    using js_clear by (cases rule: clear_cache_cases) (auto simp: frame_simps dest!: audited_frame(3))
  with js_clear show ?case by (simp add: other_lifecycle drives_bound_same)
next
  case (js_complete e host i db db' calls r)
  have "drives db' = drives db" using js_complete by (cases rule: complete_job_cases) auto
  with js_complete show ?case by (simp add: other_lifecycle drives_bound_same)
next
  case (js_manifest e host i db db' calls r)
  with create_manifest_frame [OF js_manifest] show ?case by (simp add: lifecycle_same drives_bound_same)
qed (simp_all add: create_lifecycle update_lifecycle overflow_lifecycle delete_lifecycle)

text \<open>The contract of a job operation and what follows for sequences of operations.\<close>

locale job_machine =
  fixes step :: "db \<Rightarrow> job_effect list \<Rightarrow> db \<Rightarrow> bool"
  assumes step_lifecycle: "step db calls db' \<Longrightarrow> lifecycle db calls db'"
begin

lemma step_started:
  assumes "step db calls db'" "get_job i db = Some j" "j_status j \<noteq> JPENDING"
  shows "\<exists>j'. get_job i db' = Some j' \<and> j_project_id j' = j_project_id j \<and> j_status j' \<noteq> JPENDING \<and>
    (j_status j = ARCHIVED \<longrightarrow> j_status j' = ARCHIVED)"
proof -
  from step_lifecycle [OF assms(1)] assms(2,3) obtain j' where "get_job i db' = Some j'"
    "j_project_id j' = j_project_id j" "j_status j' = j_status j \<or> job_transition (j_status j) (j_status j')"
    unfolding lifecycle_def by (fastforce split: option.splits)
  with assms(3) show ?thesis by (auto elim: job_transition.cases)
qed

lemma run_started:
  "run step db calls db' \<Longrightarrow> get_job i db = Some j \<Longrightarrow> j_status j \<noteq> JPENDING \<Longrightarrow>
     \<exists>j'. get_job i db' = Some j' \<and> j_project_id j' = j_project_id j \<and> j_status j' \<noteq> JPENDING \<and>
       (j_status j = ARCHIVED \<longrightarrow> j_status j' = ARCHIVED)"
proof (induction arbitrary: j rule: run.induct)
  case (run_step db c db1 cs db2)
  from step_started [OF run_step.hyps(1) run_step.prems] run_step.IH show ?case by metis
qed simp

end

interpretation job_ops: job_machine job_step
  by unfold_locales (simp add: job_step_ok)

section \<open>Properties\<close>

text \<open>C6. The job life cycle: whatever request is made and whatever its outcome, a stored job either keeps its
  status or moves along an edge of the transition relation, keeps its project, and can disappear only
  while it is pending; a copy task is scheduled only for a job that has just entered the preparing
  state from a state that allows it.\<close>

theorem job_lifecycle:
  assumes "job_step db calls db'"
  shows "(\<forall>i j. get_job i db = Some j \<longrightarrow>
        (case get_job i db' of
           None \<Rightarrow> j_status j = JPENDING
         | Some j' \<Rightarrow> j_project_id j' = j_project_id j \<and>
                     (j_status j' = j_status j \<or> job_transition (j_status j) (j_status j')))) \<and>
     (\<forall>i. Schedule_copy i \<in> set calls \<longrightarrow>
        (\<exists>j j'. get_job i db = Some j \<and> get_job i db' = Some j' \<and> j_status j' = PREPARING \<and>
           job_transition (j_status j) PREPARING))"
  using job_step_ok [OF assms] unfolding lifecycle_def by blast

text \<open>Along every sequence of requests a job that has left the pending state is never deleted, never
  becomes pending again and never changes its project, and an archived job stays archived.\<close>

theorem started_job_permanent:
  assumes "run job_step db calls db'" "get_job i db = Some j" "j_status j \<noteq> JPENDING"
  shows "\<exists>j'. get_job i db' = Some j' \<and> j_project_id j' = j_project_id j \<and> j_status j' \<noteq> JPENDING \<and>
    (j_status j = ARCHIVED \<longrightarrow> j_status j' = ARCHIVED)"
  using assms by (rule job_ops.run_started)

text \<open>A successful start commits the preparing state and schedules one copy task, and it was allowed: no
  analysis was running, the source was valid for the target, and the estimated size fits the assigned drive
  unless bytes had been copied already.\<close>

theorem start_job_success:
  assumes "start_job e st i t db = (db', calls, Inr j')"
  shows "\<exists>j p. get_job i db = Some j \<and> j_status j \<in> {JPENDING, JFAILED, PAUSED} \<and> \<not> analysis_running j \<and>
    source_of st (j_target_mount_path j) (j_source_path j) = Inr p \<and> j' = start_update e t (with_source p j) \<and>
    get_job i db' = Some j' \<and> (\<forall>k. k \<noteq> i \<longrightarrow> get_job k db' = get_job k db) \<and> drives db' = drives db \<and>
    calls = [Job_callback i ''JOB_STARTED'', Schedule_copy i] \<and>
    (\<forall>a d n m. get_active_for_job i db = Some a \<and> get_drive (a_drive_id a) db = Some d \<and> startup_analysis_ready j \<and>
       sa_total_bytes (j_analysis j) = Some n \<and> d_available_bytes d = Some m \<and> j_copied_bytes j \<le> 0 \<longrightarrow> n \<le> m)"
  using assms
proof (cases rule: start_job_cases)
  case (committed j p)
  have fits: "n \<le> m" if "get_active_for_job i db = Some a" "get_drive (a_drive_id a) db = Some d"
    "startup_analysis_ready j" "sa_total_bytes (j_analysis j) = Some n" "d_available_bytes d = Some m"
    "j_copied_bytes j \<le> 0" for a d n m
    using committed(2,5) that
    by (auto simp: start_shortfall_def assignment_drive_def Option.bind_eq_Some_conv split: if_splits option.splits)
  from committed have "get_job i db' = Some j'" "\<forall>k. k \<noteq> i \<longrightarrow> get_job k db' = get_job k db" "drives db' = drives db"
    by (auto simp: audited_frame(3,11) [OF committed(8)] get_set_job frame_simps)
  with committed fits show ?thesis by (intro exI [of _ j] exI [of _ p]) simp
qed auto

text \<open>C23. Starts are exclusive: after a successful start every further start, retry or overflow continuation of
  the job is rejected without effect until the copy engine has moved the job on, so a job has at most one
  copy task.\<close>

theorem start_job_exclusive:
  assumes "start_job e st i t db = (db', calls, Inr j)"
  shows "(\<exists>err. start_job e' st' i t' db' = (db', [], Inl err)) \<and>
    (\<exists>err. retry_failed_files e' st' i db' = (db', [], Inl err)) \<and>
    (\<exists>err. continue_job_overflow e' st' i d t' db' = (db', [], Inl err))"
proof -
  have "get_job i db' = Some j \<and> j_status j = PREPARING"
    using assms
  proof (cases rule: start_job_cases)
    case (committed j0 p)
    then show ?thesis by (simp add: audited_frame(11) [OF committed(8)] get_set_job)
  qed auto
  then have "get_job_for_update e' i db' \<in> {Lock_conflict, Row (Some j)}" "j_status j = PREPARING"
    by (auto simp: get_job_for_update_def)
  then show ?thesis
    by (auto simp: start_job_def retry_failed_files_def continue_job_overflow_def with_job_def job_fail_def)
qed

text \<open>C24. Archiving respects the chain of custody and is atomic: it succeeds only on confirmation, for a
  completed or failed job whose drive, if it still belongs to the project, is idle and unmounted; the
  archived status and its audit record are committed together, and a failure changes nothing.\<close>

theorem archive_job_custody:
  assumes "archive_job e i c db = (db', calls, r)"
  shows "case r of
      Inl err \<Rightarrow> db' = db \<and> calls = []
    | Inr j' \<Rightarrow> \<exists>j l. c \<and> get_job i db = Some j \<and> j_status j \<in> {COMPLETED, JFAILED} \<and>
        (\<forall>a d. get_active_for_job i db = Some a \<and> get_drive (a_drive_id a) db = Some d \<and>
           norm_project (d_current_project_id d) = Some (normalize_project_id (j_project_id j)) \<and>
           normalize_project_id (j_project_id j) \<noteq> [] \<longrightarrow>
           d_current_state d = AVAILABLE \<and> \<not> truthy (d_mount_path d)) \<and>
        j' = j\<lparr>j_status := ARCHIVED\<rparr> \<and> jobs db' = upd_row j_id i (\<lambda>j. j\<lparr>j_status := ARCHIVED\<rparr>) (jobs db) \<and>
        audits db' = audits db @ [l] \<and> l_action l = ''JOB_ARCHIVED'' \<and> l_job_id l = Some i \<and> drives db' = drives db"
  using assms
proof (cases rule: archive_job_cases)
  case (committed j)
  obtain l where l: "audits db' = audits db @ [l]" "l_action l = ''JOB_ARCHIVED''" "l_job_id l = Some i"
    using audit_uncommitted_appends [of e "''JOB_ARCHIVED''" "Some (j_project_id j)"
        "map_option a_drive_id (get_active_for_job i db)" "Some i" "archived_details j"
        "set_job i (\<lambda>j. j\<lparr>j_status := ARCHIVED\<rparr>) db"] committed(7)
    by (auto simp: frame_simps)
  have "d_current_state d = AVAILABLE \<and> \<not> truthy (d_mount_path d)"
    if "get_active_for_job i db = Some a" "get_drive (a_drive_id a) db = Some d"
      "norm_project (d_current_project_id d) = Some (normalize_project_id (j_project_id j))"
      "normalize_project_id (j_project_id j) \<noteq> []" for a d
    using committed(4) that by (auto simp: archive_blocked_def assignment_drive_def Let_def)
  moreover have "jobs db' = upd_row j_id i (\<lambda>j. j\<lparr>j_status := ARCHIVED\<rparr>) (jobs db)" "drives db' = drives db"
    using committed(7) by (simp_all add: frame_simps)
  ultimately show ?thesis using committed(1-3,5) l by (auto intro!: exI [of _ l])
qed simp

end
