(* ===== verification/Copy_Worker.thy ===== *)
theory Copy_Worker
  imports Copy_File Job_Safety
begin

text \<open>
  The worker side of the copy engine (\<open>app/services/copy_engine.py\<close>): the progress writer that
  batches counter updates (\<open>_CopyProgressWriter\<close>) and one attempt to copy one file
  (\<open>_process_file\<close>), with every commit it makes. Durations and rates that only appear in audit
  details are left out of the modelled details.
\<close>

section \<open>The progress writer\<close>

text \<open>One queued update: the assignment, the bytes and the completed files.\<close>

type_synonym progress_update = "int option \<times> int \<times> int"

definition record_delta :: "int option \<Rightarrow> int \<Rightarrow> progress_update list \<Rightarrow> progress_update list" where
  "record_delta assignment_id delta_bytes q = (if delta_bytes = 0 then q else q @ [(assignment_id, delta_bytes, 0)])"

definition record_completion :: "int option \<Rightarrow> int \<Rightarrow> progress_update list \<Rightarrow> progress_update list" where
  "record_completion assignment_id completed_files q =
     (if assignment_id = None \<or> completed_files = 0 then q else q @ [(assignment_id, 0, completed_files)])"

text \<open>The pending deltas: dictionaries with default zero, in insertion order.\<close>

record pending_progress =
  pp_job :: int
  pp_bytes :: "(int \<times> int) list"
  pp_files :: "(int \<times> int) list"

definition no_progress :: pending_progress where
  "no_progress = \<lparr>pp_job = 0, pp_bytes = [], pp_files = []\<rparr>"

fun dict_add :: "int \<Rightarrow> int \<Rightarrow> (int \<times> int) list \<Rightarrow> (int \<times> int) list" where
  "dict_add k v [] = [(k, v)]"
| "dict_add k v ((k', v') # kvs) = (if k' = k then (k', v' + v) # kvs else (k', v') # dict_add k v kvs)"

definition accumulate :: "pending_progress \<Rightarrow> progress_update \<Rightarrow> pending_progress" where
  "accumulate p u =
     (case u of (a, bytes, n) \<Rightarrow>
        p\<lparr>pp_job := pp_job p + bytes,
          pp_bytes := (case a of Some i \<Rightarrow> if bytes \<noteq> 0 then dict_add i bytes (pp_bytes p) else pp_bytes p | None \<Rightarrow> pp_bytes p),
          pp_files := (case a of Some i \<Rightarrow> if n \<noteq> 0 then dict_add i n (pp_files p) else pp_files p | None \<Rightarrow> pp_files p)\<rparr>)"

text \<open>\<open>_flush_pending\<close>: whether the batch was committed, and the database.\<close>

definition flush_pending :: "env \<Rightarrow> int \<Rightarrow> pending_progress \<Rightarrow> db \<Rightarrow> bool \<times> db" where
  "flush_pending e job_id p db =
     (if pp_job p = 0 \<and> pp_bytes p = [] \<and> pp_files p = [] then (True, db)
      else case apply_copy_progress_batch e job_id (pp_job p)
                  (filter (\<lambda>(i, d). d \<noteq> 0) (pp_bytes p)) (filter (\<lambda>(i, n). n \<noteq> 0) (pp_files p)) db of
             None \<Rightarrow> (False, db)
           | Some db' \<Rightarrow> (True, db'))"

text \<open>What the thread sees on one turn of its loop: the wait for an update ended without one, some updates,
  or updates followed by the stop marker. Each turn has its own outcome of the commit.\<close>

datatype writer_turn = Waited | Received "progress_update list" | Stop_after "progress_update list"

record writer_state =
  ws_pending :: pending_progress
  ws_db :: db
  ws_flushed :: "pending_progress list"
  ws_error :: bool
  ws_stopped :: bool

definition flush_turn :: "env \<Rightarrow> int \<Rightarrow> bool \<Rightarrow> writer_state \<Rightarrow> writer_state" where
  "flush_turn e job_id stop s =
     (case flush_pending e job_id (ws_pending s) (ws_db s) of
        (True, db') \<Rightarrow> s\<lparr>ws_pending := no_progress, ws_db := db', ws_flushed := ws_flushed s @ [ws_pending s],
                         ws_stopped := stop\<rparr>
      | (False, _) \<Rightarrow> s\<lparr>ws_error := stop, ws_stopped := stop\<rparr>)"

definition writer_turn :: "int \<Rightarrow> writer_state \<Rightarrow> env \<times> writer_turn \<Rightarrow> writer_state" where
  "writer_turn job_id s et =
     (case et of (e, t) \<Rightarrow>
        if ws_stopped s then s
        else case t of
          Waited \<Rightarrow> flush_turn e job_id False s
        | Received us \<Rightarrow> flush_turn e job_id False (s\<lparr>ws_pending := foldl accumulate (ws_pending s) us\<rparr>)
        | Stop_after us \<Rightarrow> flush_turn e job_id True (s\<lparr>ws_pending := foldl accumulate (ws_pending s) us\<rparr>))"

definition writer_run :: "int \<Rightarrow> (env \<times> writer_turn) list \<Rightarrow> db \<Rightarrow> writer_state" where
  "writer_run job_id turns db =
     foldl (writer_turn job_id)
       \<lparr>ws_pending = no_progress, ws_db = db, ws_flushed = [], ws_error = False, ws_stopped = False\<rparr> turns"

text \<open>\<open>close\<close> without the background thread (\<open>_flush_synchronously\<close>): all updates in one
  batch; an error is raised.\<close>

definition flush_synchronously :: "env \<Rightarrow> int \<Rightarrow> progress_update list \<Rightarrow> db \<Rightarrow> db option" where
  "flush_synchronously e job_id us db =
     (case flush_pending e job_id (foldl accumulate no_progress us) db of
        (True, db') \<Rightarrow> Some db' | (False, _) \<Rightarrow> None)"

section \<open>One attempt\<close>

record deferred_retry =
  dr_file_id :: int
  dr_relative_path :: string
  dr_attempt :: nat
  dr_eligible_at :: rat

record attempt_outcome =
  ao_target_full_failure :: bool
  ao_deferred_retry :: "deferred_retry option"

definition no_outcome :: attempt_outcome where
  "no_outcome = \<lparr>ao_target_full_failure = False, ao_deferred_retry = None\<rparr>"

record worker_args =
  wa_max_retries :: nat
  wa_retry_delay :: rat
  wa_flush_threshold :: "int option"
  wa_has_target :: bool
  wa_use_writer :: bool
  wa_timeout_seconds :: int
  wa_now :: rat

definition get_file :: "int \<Rightarrow> db \<Rightarrow> export_file option" where
  "get_file i db = get_row f_id i (files db)"

definition set_file :: "int \<Rightarrow> (export_file \<Rightarrow> export_file) \<Rightarrow> db \<Rightarrow> db" where
  "set_file i g db = db\<lparr>files := upd_row f_id i g (files db)\<rparr>"

text \<open>\<open>_commit_with_staged_audit\<close> and the saves of a file: the session is committed, or rolled back
  to the committed state.\<close>

definition save_file :: "env \<Rightarrow> string \<Rightarrow> db \<Rightarrow> db \<Rightarrow> bool \<times> db" where
  "save_file e site w db = (if e_db_ok e site then (True, w) else (False, db))"

definition file_audit ::
  "env \<Rightarrow> string \<Rightarrow> export_file \<Rightarrow> (string \<times> jval) list \<Rightarrow> db \<Rightarrow> db" where
  "file_audit e action f extra =
     audit_add_uncommitted e action None None (Some (f_job_id f))
       ([(''file_id'', JInt (f_id f)), (''relative_path'', JStr (f_relative_path f))] @ extra)"

text \<open>The first part: the file is claimed for this attempt, or handed back when the job is pausing. The
  transaction of the first reads ends before the file is marked; \<open>race\<close> is what other
  transactions do in between.\<close>

definition restore_pending :: "env \<Rightarrow> int \<Rightarrow> db \<Rightarrow> db" where
  "restore_pending e file_id db =
     snd (save_file e ''restore_pending'' (set_file file_id (\<lambda>f. f\<lparr>f_status := FPENDING\<rparr>) db) db)"

definition mark_copying :: "env \<Rightarrow> nat \<Rightarrow> int option \<Rightarrow> export_file \<Rightarrow> db \<Rightarrow> bool \<times> db" where
  "mark_copying e attempt assignment_id f db =
     (let w = set_file (f_id f) (\<lambda>f. f\<lparr>f_status := COPYING, f_drive_assignment_id := assignment_id\<rparr>) db
      in if attempt = 0 then save_file e ''file_copy_start'' (file_audit e ''FILE_COPY_START'' f [] w) db
         else save_file e ''file_copy_retry_start'' w db)"

definition claim_file ::
  "env \<Rightarrow> (db \<Rightarrow> db) \<Rightarrow> int \<Rightarrow> nat \<Rightarrow> db \<Rightarrow> db \<times> (export_file \<times> int option) option" where
  "claim_file e race file_id attempt db =
     (case get_file file_id db of
        None \<Rightarrow> (db, None)
      | Some f \<Rightarrow>
          (case get_job (f_job_id f) db of
             None \<Rightarrow> (db, None)
           | Some j \<Rightarrow>
               (let assignment_id = map_option a_id (get_active_for_job (f_job_id f) db)
                in if j_status j \<in> {PAUSING, PAUSED} then (restore_pending e file_id db, None)
                   else let db1 = race db
                        in case get_file file_id db1 of
                             None \<Rightarrow> (db1, None)
                           | Some f \<Rightarrow>
                               (case mark_copying e attempt assignment_id f db1 of
                                  (True, db2) \<Rightarrow> (db2, Some (f, assignment_id))
                                | (False, db2) \<Rightarrow> (db2, None)))))"

text \<open>Progress during the copy: the bytes not yet reported, those reported by this attempt, the updates
  sent to the writer and the database (without a writer the counters are incremented directly).\<close>

record attempt_progress =
  ap_pending :: int
  ap_reported :: int
  ap_queue :: "progress_update list"
  ap_db :: db

definition flush_threshold :: "settings \<Rightarrow> worker_args \<Rightarrow> int" where
  "flush_threshold st args =
     max 1 (case wa_flush_threshold args of Some n \<Rightarrow> n | None \<Rightarrow> st_copy_progress_flush_bytes st)"

definition send_delta ::
  "env \<Rightarrow> worker_args \<Rightarrow> int \<Rightarrow> int option \<Rightarrow> int \<Rightarrow> progress_update list \<times> db \<Rightarrow> (progress_update list \<times> db) option" where
  "send_delta e args job_id assignment_id n qd =
     (case qd of (q, db) \<Rightarrow>
        if wa_use_writer args then Some (record_delta assignment_id n q, db)
        else map_option (\<lambda>db'. (q, db'))
               (if n < 0 then decrement_copy_progress e job_id assignment_id (- n) db
                else increment_copy_progress e job_id assignment_id n db))"

definition flush_progress ::
  "env \<Rightarrow> settings \<Rightarrow> worker_args \<Rightarrow> int \<Rightarrow> int option \<Rightarrow> bool \<Rightarrow> attempt_progress \<Rightarrow> attempt_progress" where
  "flush_progress e st args job_id assignment_id force p =
     (if ap_pending p \<le> 0 then p
      else if \<not> force \<and> ap_pending p < flush_threshold st args then p
      else case send_delta e args job_id assignment_id (ap_pending p) (ap_queue p, ap_db p) of
        None \<Rightarrow> p
      | Some (q, db) \<Rightarrow> p\<lparr>ap_pending := 0, ap_reported := ap_reported p + ap_pending p, ap_queue := q, ap_db := db\<rparr>)"

definition report_progress ::
  "env \<Rightarrow> settings \<Rightarrow> worker_args \<Rightarrow> int \<Rightarrow> int option \<Rightarrow> attempt_progress \<Rightarrow> nat \<Rightarrow> attempt_progress" where
  "report_progress e st args job_id assignment_id p delta =
     (if delta = 0 then p
      else flush_progress e st args job_id assignment_id False (p\<lparr>ap_pending := ap_pending p + int delta\<rparr>))"

text \<open>After a failed copy the reported bytes are taken back. A failure of that update is logged.\<close>

definition take_back ::
  "env \<Rightarrow> worker_args \<Rightarrow> int \<Rightarrow> int option \<Rightarrow> int \<Rightarrow> progress_update list \<times> db \<Rightarrow> progress_update list \<times> db" where
  "take_back e args job_id assignment_id n qd =
     (if n = 0 then qd
      else case send_delta e args job_id assignment_id (- n) qd of None \<Rightarrow> qd | Some qd' \<Rightarrow> qd')"

definition timeout_message :: "worker_args \<Rightarrow> string" where
  "timeout_message args =
     (if wa_has_target args then ''File copy timed out after '' else ''File checksum timed out after '') @
     str_int (wa_timeout_seconds args) @ ''s''"

text \<open>The three endings of an attempt. Each returns the updates for the writer, the database and the
  outcome.\<close>

definition finish_success ::
  "env \<Rightarrow> worker_args \<Rightarrow> export_file \<Rightarrow> int option \<Rightarrow> string \<Rightarrow> attempt_progress \<Rightarrow>
   progress_update list \<times> db \<times> attempt_outcome" where
  "finish_success e args f assignment_id checksum p =
     (let q = (if wa_use_writer args \<and> 0 < ap_pending p then record_delta assignment_id (ap_pending p) (ap_queue p)
               else ap_queue p);
          w = set_file (f_id f) (\<lambda>f. f\<lparr>f_checksum := Some checksum, f_status := DONE,
                                      f_drive_assignment_id := assignment_id\<rparr>) (ap_db p);
          w = (if \<not> wa_use_writer args \<and> 0 < ap_pending p
               then (let w = upd_job_bytes (f_job_id f) (\<lambda>n. n + ap_pending p) w
                     in case assignment_id of None \<Rightarrow> w
                        | Some a \<Rightarrow> upd_assignment_bytes a (\<lambda>n. n + ap_pending p) w)
               else w);
          w = (case assignment_id of
                 Some a \<Rightarrow> if wa_use_writer args then w else upd_assignment_count a (\<lambda>n. n + 1) w
               | None \<Rightarrow> w);
          w = file_audit e ''FILE_COPY_SUCCESS'' f [] w
      in case save_file e ''file_done'' w (ap_db p) of
           (True, db) \<Rightarrow> (if wa_use_writer args then record_completion assignment_id 1 q else q, db, no_outcome)
         | (False, db) \<Rightarrow>
             (case take_back e args (f_job_id f) assignment_id (ap_reported p) (q, db) of
                (q', db') \<Rightarrow> (q', db', no_outcome)))"

definition audit_file_timeout :: "env \<Rightarrow> worker_args \<Rightarrow> export_file \<Rightarrow> db \<Rightarrow> db" where
  "audit_file_timeout e args f =
     best_effort_audit e ''FILE_COPY_TIMEOUT'' None None (Some (f_job_id f))
       [(''file_id'', JInt (f_id f)), (''relative_path'', JStr (f_relative_path f)),
        (''timeout_seconds'', JInt (wa_timeout_seconds args)), (''error_code'', JStr ''copy_timeout''),
        (''error_detail'', JStr (''timed_out_after_'' @ str_int (wa_timeout_seconds args) @ ''s''))]"

definition finish_timeout ::
  "env \<Rightarrow> worker_args \<Rightarrow> export_file \<Rightarrow> int option \<Rightarrow> attempt_progress \<Rightarrow>
   progress_update list \<times> db \<times> attempt_outcome" where
  "finish_timeout e args f assignment_id p =
     (let db1 = audit_file_timeout e args f (ap_db p);
          sent = (ap_reported p = 0 \<or>
                  send_delta e args (f_job_id f) assignment_id (- ap_reported p) (ap_queue p, db1) \<noteq> None);
          (q, db2) = take_back e args (f_job_id f) assignment_id (ap_reported p) (ap_queue p, db1);
          w = set_file (f_id f) (\<lambda>f. f\<lparr>f_checksum := None, f_status := TIMEOUT,
                f_error_message := Some (snd (classify_file_failure (Some (timeout_message args))))\<rparr>) db2
      in case save_file e ''file_timeout'' w db2 of
           (True, db3) \<Rightarrow> (q, db3, no_outcome)
         | (False, db3) \<Rightarrow>
             (case take_back e args (f_job_id f) assignment_id (if sent then 0 else ap_reported p) (q, db3) of
                (q', db4) \<Rightarrow> (q', db4, no_outcome)))"

definition finish_failure ::
  "env \<Rightarrow> worker_args \<Rightarrow> export_file \<Rightarrow> int option \<Rightarrow> nat \<Rightarrow> string \<Rightarrow> attempt_progress \<Rightarrow>
   progress_update list \<times> db \<times> attempt_outcome" where
  "finish_failure e args f assignment_id attempt err p =
     (let (q, db1) = take_back e args (f_job_id f) assignment_id (ap_reported p) (ap_queue p, ap_db p);
          (code, msg) = classify_file_failure (Some err);
          db2 = snd (save_file e ''file_failure_audit''
                  (file_audit e ''FILE_COPY_FAILURE'' f
                     [(''attempt'', JInt (int attempt)), (''error_code'', JStr code), (''error_detail'', JStr msg)] db1) db1)
      in if attempt < wa_max_retries args then
           (case save_file e ''file_retrying''
                   (file_audit e ''FILE_COPY_RETRY'' f [(''attempt'', JInt (int attempt + 1))]
                      (set_file (f_id f) (\<lambda>f. f\<lparr>f_status := RETRYING, f_retry_attempts := int attempt + 1\<rparr>) db2)) db2 of
              (True, db3) \<Rightarrow>
                (q, db3, no_outcome\<lparr>ao_deferred_retry :=
                   Some \<lparr>dr_file_id = f_id f, dr_relative_path = f_relative_path f, dr_attempt = Suc attempt,
                         dr_eligible_at = wa_now args + wa_retry_delay args * 2 ^ attempt\<rparr>\<rparr>)
            | (False, db3) \<Rightarrow> (q, db3, no_outcome))
         else
           (q, snd (save_file e ''file_error''
                  (set_file (f_id f) (\<lambda>f. f\<lparr>f_checksum := None, f_status := ERROR, f_error_message := Some msg\<rparr>) db2) db2),
            no_outcome\<lparr>ao_target_full_failure := (code = ''target_full'')\<rparr>))"

definition finish_attempt ::
  "env \<Rightarrow> settings \<Rightarrow> worker_args \<Rightarrow> export_file \<Rightarrow> int option \<Rightarrow> nat \<Rightarrow> copy_result \<Rightarrow> attempt_progress \<Rightarrow>
   progress_update list \<times> db \<times> attempt_outcome" where
  "finish_attempt e st args f assignment_id attempt r p =
     (case r of
        Copied checksum \<Rightarrow> finish_success e args f assignment_id checksum p
      | Copy_timed_out \<Rightarrow>
          finish_timeout e args f assignment_id (flush_progress e st args (f_job_id f) assignment_id True p)
      | Copy_failed err \<Rightarrow>
          finish_failure e args f assignment_id attempt err
            (flush_progress e st args (f_job_id f) assignment_id True p))"

text \<open>
  \<open>_process_file\<close>: one attempt. The copy itself is given by its result and the lengths it
  reported; \<open>race1\<close> and \<open>race2\<close> are the transactions of others between the first reads
  and the claim, and during the copy.
\<close>

definition process_file ::
  "env \<Rightarrow> settings \<Rightarrow> worker_args \<Rightarrow> (db \<Rightarrow> db) \<Rightarrow> (db \<Rightarrow> db) \<Rightarrow> (export_file \<Rightarrow> copy_result \<times> nat list) \<Rightarrow>
   int \<Rightarrow> nat \<Rightarrow> db \<Rightarrow> progress_update list \<times> db \<times> attempt_outcome" where
  "process_file e st args race1 race2 copy file_id attempt db =
     (case claim_file e race1 file_id attempt db of
        (db1, None) \<Rightarrow> ([], db1, no_outcome)
      | (db1, Some (f, assignment_id)) \<Rightarrow>
          (let (r, reported) = copy f;
               p = foldl (report_progress e st args (f_job_id f) assignment_id)
                     \<lparr>ap_pending = 0, ap_reported = 0, ap_queue = [], ap_db = db1\<rparr> reported
           in finish_attempt e st args f assignment_id attempt r (p\<lparr>ap_db := race2 (ap_db p)\<rparr>)))"

section \<open>Laws of the file table\<close>

lemma get_set_file:
  assumes "\<And>f. f_id (g f) = f_id f"
  shows "get_file k (set_file i g db) = (if k = i then map_option g (get_file k db) else get_file k db)"
  using assms by (simp add: get_file_def set_file_def row_simps)

lemma get_file_id: "get_file i db = Some f \<Longrightarrow> f_id f = i"
  by (simp add: get_file_def get_row_key)

lemma set_file_frame [frame_simps]:
  "jobs (set_file i g db) = jobs db" "drives (set_file i g db) = drives db"
  "assignments (set_file i g db) = assignments db" "entries (set_file i g db) = entries db"
  "manifests (set_file i g db) = manifests db" "audits (set_file i g db) = audits db" "shares (set_file i g db) = shares db"
  by (simp_all add: set_file_def)

text \<open>Databases that differ in the audit trail and in the row of one file, which keeps its keys.\<close>

definition file_keys :: "db \<Rightarrow> (int \<times> int) list" where
  "file_keys db = map (\<lambda>f. (f_id f, f_job_id f)) (files db)"

lemma file_keys_set: "(\<And>f. f_id (g f) = f_id f \<and> f_job_id (g f) = f_job_id f) \<Longrightarrow> file_keys (set_file i g db) = file_keys db"
  by (simp add: file_keys_def set_file_def upd_row_def)

definition only_file :: "int \<Rightarrow> db \<Rightarrow> db \<Rightarrow> bool" where
  "only_file i db db' \<longleftrightarrow>
     jobs db' = jobs db \<and> drives db' = drives db \<and> assignments db' = assignments db \<and> shares db' = shares db \<and>
     entries db' = entries db \<and> manifests db' = manifests db \<and> file_keys db' = file_keys db \<and>
     (\<forall>k. k \<noteq> i \<longrightarrow> get_file k db' = get_file k db)"

lemma only_file_refl [simp]: "only_file i db db"
  by (simp add: only_file_def)

lemma only_file_trans: "only_file i a b \<Longrightarrow> only_file i b c \<Longrightarrow> only_file i a c"
  by (simp add: only_file_def)

lemma only_file_audited: "audited db db' \<Longrightarrow> only_file i db db' \<and> get_file k db' = get_file k db"
  by (auto simp: audited_def only_file_def get_file_def file_keys_def)

lemma only_file_set:
  "(\<And>f. f_id (g f) = f_id f \<and> f_job_id (g f) = f_job_id f) \<Longrightarrow> only_file i db (set_file i g db)"
  by (simp add: only_file_def get_set_file frame_simps file_keys_set)

lemma file_audit_audited: "audited db (file_audit e action f extra db)"
  by (auto simp: file_audit_def audited_def audit_add_uncommitted_def Let_def)

lemma file_audit_file: "get_file k (file_audit e action f extra db) = get_file k db"
  using only_file_audited [OF file_audit_audited] by blast

section \<open>Progress of an attempt\<close>

definition delta_sum :: "progress_update list \<Rightarrow> int" where
  "delta_sum q = sum_list (map (\<lambda>(a, d, n). d) q)"

lemma delta_sum_simps [simp]:
  "delta_sum [] = 0" "delta_sum (record_delta a n q) = delta_sum q + n"
  "delta_sum (record_completion a n q) = delta_sum q"
  by (simp_all add: delta_sum_def record_delta_def record_completion_def)

text \<open>With a writer the database is not touched while the copy runs.\<close>

lemma report_writer:
  assumes "wa_use_writer args" "0 \<le> ap_pending p" "delta_sum (ap_queue p) = ap_reported p"
  shows "let p' = foldl (report_progress e st args job a) p ns
    in ap_db p' = ap_db p \<and> delta_sum (ap_queue p') = ap_reported p' \<and> 0 \<le> ap_pending p' \<and>
       ap_pending p' + ap_reported p' = ap_pending p + ap_reported p + int (sum_list ns) \<and>
       (ap_pending p < flush_threshold st args \<longrightarrow> ap_pending p' < flush_threshold st args)"
  using assms(2,3)
proof (induction ns arbitrary: p)
  case (Cons n ns)
  let ?p = "report_progress e st args job a p n"
  have pos: "0 < flush_threshold st args" by (simp add: flush_threshold_def)
  have step: "ap_db ?p = ap_db p" "delta_sum (ap_queue ?p) = ap_reported ?p" "0 \<le> ap_pending ?p"
    "ap_pending ?p + ap_reported ?p = ap_pending p + ap_reported p + int n"
    "ap_pending p < flush_threshold st args \<longrightarrow> ap_pending ?p < flush_threshold st args"
    using Cons.prems assms(1) pos
    by (auto simp: report_progress_def flush_progress_def send_delta_def)
  from Cons.IH [OF step(3,2)] step show ?case by (simp add: Let_def algebra_simps)
qed (simp add: Let_def)

lemma flush_forced_writer:
  assumes "wa_use_writer args" "0 \<le> ap_pending p" "delta_sum (ap_queue p) = ap_reported p"
  shows "let p' = flush_progress e st args job a True p
    in ap_db p' = ap_db p \<and> delta_sum (ap_queue p') = ap_reported p'"
  using assms by (auto simp: flush_progress_def send_delta_def Let_def)

lemma take_back_writer:
  "wa_use_writer args \<Longrightarrow> take_back e args job a n (q, db) = (record_delta a (- n) q, db)"
  by (simp add: take_back_def send_delta_def record_delta_def)

text \<open>The endings, with a writer: what they send and what they leave of the database.\<close>

lemma finish_success_writer:
  assumes "wa_use_writer args" "finish_success e args f a h p = (q, db', o')" "0 \<le> ap_pending p"
    "delta_sum (ap_queue p) = ap_reported p"
  shows "only_file (f_id f) (ap_db p) db' \<and> o' = no_outcome \<and>
    (if e_db_ok e ''file_done'' then delta_sum q = ap_reported p + ap_pending p \<and>
       get_file (f_id f) db' = map_option (\<lambda>f. f\<lparr>f_checksum := Some h, f_status := DONE, f_drive_assignment_id := a\<rparr>)
         (get_file (f_id f) (ap_db p))
     else delta_sum q = ap_pending p \<and> db' = ap_db p)"
proof -
  let ?w = "set_file (f_id f) (\<lambda>f. f\<lparr>f_checksum := Some h, f_status := DONE, f_drive_assignment_id := a\<rparr>) (ap_db p)"
  have w: "only_file (f_id f) (ap_db p) (file_audit e ''FILE_COPY_SUCCESS'' f [] ?w)"
    by (rule only_file_trans [OF only_file_set conjunct1 [OF only_file_audited [OF file_audit_audited]]]) simp
  show ?thesis
  proof (cases "e_db_ok e ''file_done''")
    case True
    with assms have "db' = file_audit e ''FILE_COPY_SUCCESS'' f [] ?w" "o' = no_outcome"
      "delta_sum q = ap_reported p + ap_pending p"
      by (auto simp: finish_success_def save_file_def Let_def split: option.splits)
    with w True show ?thesis by (simp add: file_audit_file get_set_file)
  next
    case False
    with assms have "db' = ap_db p \<and> o' = no_outcome \<and> delta_sum q = ap_pending p"
      by (auto simp: finish_success_def save_file_def Let_def take_back_writer split: option.splits)
    with False show ?thesis by simp
  qed
qed

lemma finish_timeout_writer:
  assumes "wa_use_writer args" "finish_timeout e args f a p = (q, db', o')" "delta_sum (ap_queue p) = ap_reported p"
  shows "only_file (f_id f) (ap_db p) db' \<and> o' = no_outcome \<and> delta_sum q = 0 \<and>
    (\<exists>db1. get_file (f_id f) db1 = get_file (f_id f) (ap_db p) \<and> get_file (f_id f) db' \<in>
      {get_file (f_id f) db1, map_option (\<lambda>f. f\<lparr>f_checksum := None, f_status := TIMEOUT,
         f_error_message := Some (snd (classify_file_failure (Some (timeout_message args))))\<rparr>) (get_file (f_id f) db1)})"
proof -
  let ?g = "\<lambda>f. f\<lparr>f_checksum := None, f_status := TIMEOUT,
    f_error_message := Some (snd (classify_file_failure (Some (timeout_message args))))\<rparr>"
  let ?db1 = "audit_file_timeout e args f (ap_db p)"
  have aud: "audited (ap_db p) ?db1" unfolding audit_file_timeout_def by (rule best_effort_audited)
  have eq: "finish_timeout e args f a p =
    (record_delta a (- ap_reported p) (ap_queue p),
     (if e_db_ok e ''file_timeout'' then set_file (f_id f) ?g ?db1 else ?db1), no_outcome)"
    unfolding finish_timeout_def take_back_writer [OF assms(1)] Let_def prod.case
    using assms(1) by (simp add: save_file_def send_delta_def record_delta_def)
  then obtain db1 where d: "audited (ap_db p) db1" "db' = db1 \<or> db' = set_file (f_id f) ?g db1"
    "o' = no_outcome" "delta_sum q = 0"
    using assms(2,3) aud by (auto split: if_splits)
  have "only_file (f_id f) db1 (set_file (f_id f) ?g db1)" by (rule only_file_set) simp
  with d(2) have "only_file (f_id f) db1 db'" by auto
  with d only_file_audited [OF d(1), of "f_id f" "f_id f"] show ?thesis
    by (auto intro: only_file_trans simp: get_set_file)
qed

lemma finish_failure_writer:
  assumes "wa_use_writer args" "finish_failure e args f a n err p = (q, db', o')" "delta_sum (ap_queue p) = ap_reported p"
  shows "only_file (f_id f) (ap_db p) db' \<and> delta_sum q = 0 \<and>
    get_file (f_id f) db' \<in> {get_file (f_id f) (ap_db p),
      map_option (\<lambda>f. f\<lparr>f_status := RETRYING, f_retry_attempts := int n + 1\<rparr>) (get_file (f_id f) (ap_db p)),
      map_option (\<lambda>f. f\<lparr>f_checksum := None, f_status := ERROR,
        f_error_message := Some (snd (classify_file_failure (Some err)))\<rparr>) (get_file (f_id f) (ap_db p))} \<and>
    (case ao_deferred_retry o' of None \<Rightarrow> True
     | Some d \<Rightarrow> n < wa_max_retries args \<and> dr_file_id d = f_id f \<and> dr_attempt d = Suc n \<and>
         dr_eligible_at d = wa_now args + wa_retry_delay args * 2 ^ n \<and>
         get_file (f_id f) db' =
           map_option (\<lambda>f. f\<lparr>f_status := RETRYING, f_retry_attempts := int n + 1\<rparr>) (get_file (f_id f) (ap_db p)))"
proof -
  obtain code msg where c: "classify_file_failure (Some err) = (code, msg)" by (metis surj_pair)
  define db2 where "db2 = snd (save_file e ''file_failure_audit''
    (file_audit e ''FILE_COPY_FAILURE'' f
       [(''attempt'', JInt (int n)), (''error_code'', JStr code), (''error_detail'', JStr msg)] (ap_db p)) (ap_db p))"
  have "audited (ap_db p) db2" by (simp add: db2_def save_file_def file_audit_audited)
  from only_file_audited [OF this] have o2: "only_file (f_id f) (ap_db p) db2"
    "get_file (f_id f) db2 = get_file (f_id f) (ap_db p)" by auto
  let ?r = "\<lambda>f. f\<lparr>f_status := RETRYING, f_retry_attempts := int n + 1\<rparr>"
  let ?x = "\<lambda>f. f\<lparr>f_checksum := None, f_status := ERROR, f_error_message := Some msg\<rparr>"
  let ?w = "file_audit e ''FILE_COPY_RETRY'' f [(''attempt'', JInt (int n + 1))] (set_file (f_id f) ?r db2)"
  have or: "only_file (f_id f) db2 ?w"
    by (rule only_file_trans [OF only_file_set conjunct1 [OF only_file_audited [OF file_audit_audited]]]) simp
  have ox: "only_file (f_id f) db2 (set_file (f_id f) ?x db2)" by (rule only_file_set) simp
  have gr: "get_file (f_id f) ?w = map_option ?r (get_file (f_id f) db2)" by (simp add: file_audit_file get_set_file)
  have gx: "get_file (f_id f) (set_file (f_id f) ?x db2) = map_option ?x (get_file (f_id f) db2)"
    by (simp add: get_set_file)
  have eq: "finish_failure e args f a n err p =
    (if n < wa_max_retries args then
       (if e_db_ok e ''file_retrying'' then
          (record_delta a (- ap_reported p) (ap_queue p), ?w, no_outcome\<lparr>ao_deferred_retry :=
             Some \<lparr>dr_file_id = f_id f, dr_relative_path = f_relative_path f, dr_attempt = Suc n,
                   dr_eligible_at = wa_now args + wa_retry_delay args * 2 ^ n\<rparr>\<rparr>)
        else (record_delta a (- ap_reported p) (ap_queue p), db2, no_outcome))
     else (record_delta a (- ap_reported p) (ap_queue p),
           (if e_db_ok e ''file_error'' then set_file (f_id f) ?x db2 else db2),
           no_outcome\<lparr>ao_target_full_failure := (code = ''target_full'')\<rparr>))"
    unfolding finish_failure_def take_back_writer [OF assms(1)] Let_def c prod.case db2_def [symmetric]
    by (simp add: save_file_def)
  show ?thesis
    using assms(2,3) o2 or ox gr gx only_file_trans [OF o2(1)] unfolding eq c
    by (auto simp: no_outcome_def split: if_splits)
qed

text \<open>The claim: the file as it was read, marked as being copied to the job's active assignment.\<close>

lemma claim_file_Some:
  assumes "claim_file e race i n db = (db1, Some (f, a))"
  shows "get_file i (race db) = Some f \<and> f_id f = i \<and> only_file i (race db) db1 \<and>
    get_file i db1 = Some (f\<lparr>f_status := COPYING, f_drive_assignment_id := a\<rparr>)"
proof -
  from assms have f: "get_file i (race db) = Some f" and m: "mark_copying e n a f (race db) = (True, db1)"
    by (auto simp: claim_file_def Let_def split: option.splits if_splits prod.splits bool.splits)
  have id: "f_id f = i" using f by (rule get_file_id)
  let ?w = "set_file i (\<lambda>f. f\<lparr>f_status := COPYING, f_drive_assignment_id := a\<rparr>) (race db)"
  from m id have d: "db1 = ?w \<or> db1 = file_audit e ''FILE_COPY_START'' f [] ?w"
    by (auto simp: mark_copying_def save_file_def Let_def split: if_splits)
  have w: "only_file i (race db) ?w" by (rule only_file_set) simp
  then have "only_file i (race db) db1"
    using d only_file_trans [OF w conjunct1 [OF only_file_audited [OF file_audit_audited]]] by blast
  moreover have "get_file i db1 = get_file i ?w" using d by (auto simp: file_audit_file)
  ultimately show ?thesis using f id by (simp add: get_set_file)
qed

lemma claim_file_None: "claim_file e race i n db = (db1, None) \<Longrightarrow> only_file i db db1 \<or> only_file i (race db) db1"
  by (auto simp: claim_file_def Let_def restore_pending_def mark_copying_def save_file_def only_file_set
      split: option.splits if_splits prod.splits bool.splits)

definition attempt_start :: "db \<Rightarrow> attempt_progress" where
  "attempt_start db = \<lparr>ap_pending = 0, ap_reported = 0, ap_queue = [], ap_db = db\<rparr>"

lemma process_claimed:
  assumes "process_file e st args race1 race2 copy i n db = (q, db', o')"
    and "claim_file e race1 i n db = (db1, Some (f, a))" "copy f = (r, ns)" "wa_use_writer args"
  obtains p where "finish_attempt e st args f a n r p = (q, db', o')" "ap_db p = race2 db1"
    "delta_sum (ap_queue p) = ap_reported p" "0 \<le> ap_pending p" "ap_pending p < flush_threshold st args"
    "ap_pending p + ap_reported p = int (sum_list ns)"
proof -
  let ?p = "foldl (report_progress e st args (f_job_id f) a) (attempt_start db1) ns"
  have "0 < flush_threshold st args" by (simp add: flush_threshold_def)
  with report_writer [OF assms(4), of "attempt_start db1" e st "f_job_id f" a ns]
  have "ap_db ?p = db1 \<and> delta_sum (ap_queue ?p) = ap_reported ?p \<and> 0 \<le> ap_pending ?p \<and>
      ap_pending ?p + ap_reported ?p = int (sum_list ns) \<and> ap_pending ?p < flush_threshold st args"
    by (simp add: attempt_start_def Let_def)
  moreover have "finish_attempt e st args f a n r (?p\<lparr>ap_db := race2 (ap_db ?p)\<rparr>) = (q, db', o')"
    using assms(1-3) by (simp add: process_file_def attempt_start_def Let_def)
  ultimately show thesis by (intro that [of "?p\<lparr>ap_db := race2 (ap_db ?p)\<rparr>"]) simp_all
qed

text \<open>All endings of a claimed attempt.\<close>

lemma process_file_ending:
  assumes "process_file e st args race1 race2 copy i n db = (q, db', o')"
    and "claim_file e race1 i n db = (db1, Some (f, a))" "copy f = (r, ns)" "wa_use_writer args"
  shows "only_file i (race2 db1) db' \<and>
    (case r of
       Copied h \<Rightarrow>
         (if e_db_ok e ''file_done'' then delta_sum q = int (sum_list ns) \<and>
            get_file i db' = map_option (\<lambda>f. f\<lparr>f_checksum := Some h, f_status := DONE, f_drive_assignment_id := a\<rparr>)
              (get_file i (race2 db1))
          else 0 \<le> delta_sum q \<and> delta_sum q < flush_threshold st args \<and> db' = race2 db1)
     | _ \<Rightarrow> delta_sum q = 0 \<and> map_option f_status (get_file i db') \<in>
              {map_option f_status (get_file i (race2 db1)), map_option (\<lambda>_. TIMEOUT) (get_file i (race2 db1)),
               map_option (\<lambda>_. RETRYING) (get_file i (race2 db1)), map_option (\<lambda>_. ERROR) (get_file i (race2 db1))})"
proof -
  from assms obtain p where p: "finish_attempt e st args f a n r p = (q, db', o')" "ap_db p = race2 db1"
    "delta_sum (ap_queue p) = ap_reported p" "0 \<le> ap_pending p" "ap_pending p < flush_threshold st args"
    "ap_pending p + ap_reported p = int (sum_list ns)" by (rule process_claimed)
  have id: "f_id f = i" using claim_file_Some [OF assms(2)] by simp
  let ?p = "flush_progress e st args (f_job_id f) a True p"
  from flush_forced_writer [OF assms(4) p(4,3)] p(2)
  have fl: "ap_db ?p = race2 db1" "delta_sum (ap_queue ?p) = ap_reported ?p" by (auto simp: Let_def)
  show ?thesis
  proof (cases r)
    case (Copied h)
    with p(1) have "finish_success e args f a h p = (q, db', o')" by (simp add: finish_attempt_def)
    from finish_success_writer [OF assms(4) this p(4,3)] p(4-6) Copied show ?thesis
      by (auto simp: id p(2) split: if_splits)
  next
    case (Copy_failed err)
    with p(1) have "finish_failure e args f a n err ?p = (q, db', o')" by (simp add: finish_attempt_def)
    from finish_failure_writer [OF assms(4) this fl(2)] Copy_failed show ?thesis
      by (auto simp: id fl(1) option.map_comp comp_def)
  next
    case Copy_timed_out
    with p(1) have "finish_timeout e args f a ?p = (q, db', o')" by (simp add: finish_attempt_def)
    from finish_timeout_writer [OF assms(4) this fl(2)] Copy_timed_out show ?thesis
      by (auto simp: id fl(1) option.map_comp comp_def)
  qed
qed

text \<open>Progress counters follow the files: an attempt that ends with the file done adds exactly the bytes it
  copied to the progress of the job; a failed or timed-out attempt adds nothing in the end, whatever it
  reported on the way. Only when the commit of the finished file fails can fewer bytes than one flush
  interval remain counted.\<close>

theorem process_file_progress:
  assumes "process_file e st args race1 race2 copy i n db = (q, db', o')" "wa_use_writer args"
    and "claim_file e race1 i n db = (db1, Some (f, a))"
  shows "case copy f of
      (Copied h, ns) \<Rightarrow>
        if e_db_ok e ''file_done'' then delta_sum q = int (sum_list ns)
        else 0 \<le> delta_sum q \<and> delta_sum q < flush_threshold st args
    | _ \<Rightarrow> delta_sum q = 0"
proof -
  obtain r ns where c: "copy f = (r, ns)" by (metis surj_pair)
  from process_file_ending [OF assms(1,3) c assms(2)] c show ?thesis
    by (cases r) (auto split: if_splits)
qed


text \<open>Retries are bounded and back off exponentially: an attempt is deferred only while attempts are left,
  it is the next attempt of the same file, the waiting time doubles with every attempt, and the file is
  recorded as waiting for its retry.\<close>

theorem process_file_retry:
  assumes "process_file e st args race1 race2 copy i n db = (q, db', o')" "wa_use_writer args"
    and "ao_deferred_retry o' = Some d" "\<And>x. get_file i (race2 x) = get_file i x"
  shows "n < wa_max_retries args \<and> dr_file_id d = i \<and> dr_attempt d = Suc n \<and>
    dr_eligible_at d = wa_now args + wa_retry_delay args * 2 ^ n \<and>
    map_option f_status (get_file i db') = Some RETRYING"
proof -
  obtain f a db1 where c: "claim_file e race1 i n db = (db1, Some (f, a))"
    using assms(1,3) by (cases "claim_file e race1 i n db"; cases "snd (claim_file e race1 i n db)")
      (auto simp: process_file_def no_outcome_def)
  obtain r ns where r: "copy f = (r, ns)" by (metis surj_pair)
  from assms(1) c r assms(2) obtain p where p: "finish_attempt e st args f a n r p = (q, db', o')"
    "ap_db p = race2 db1" "delta_sum (ap_queue p) = ap_reported p" "0 \<le> ap_pending p"
    by (rule process_claimed)
  have f: "f_id f = i" "get_file i (race2 db1) \<noteq> None" using claim_file_Some [OF c] assms(4) by auto
  let ?p = "flush_progress e st args (f_job_id f) a True p"
  from flush_forced_writer [OF assms(2) p(4,3)] p(2)
  have fl: "ap_db ?p = race2 db1" "delta_sum (ap_queue ?p) = ap_reported ?p" by (auto simp: Let_def)
  show ?thesis
  proof (cases r)
    case (Copied h)
    with p(1) have "finish_success e args f a h p = (q, db', o')" by (simp add: finish_attempt_def)
    from finish_success_writer [OF assms(2) this p(4,3)] assms(3) show ?thesis by (simp add: no_outcome_def)
  next
    case Copy_timed_out
    with p(1) have "finish_timeout e args f a ?p = (q, db', o')" by (simp add: finish_attempt_def)
    from finish_timeout_writer [OF assms(2) this fl(2)] assms(3) show ?thesis by (simp add: no_outcome_def)
  next
    case (Copy_failed err)
    with p(1) have "finish_failure e args f a n err ?p = (q, db', o')" by (simp add: finish_attempt_def)
    from finish_failure_writer [OF assms(2) this fl(2)] assms(3) f(1)
    have "n < wa_max_retries args \<and> dr_file_id d = i \<and> dr_attempt d = Suc n \<and>
        dr_eligible_at d = wa_now args + wa_retry_delay args * 2 ^ n"
      and ret: "get_file i db' = map_option (\<lambda>f. f\<lparr>f_status := RETRYING, f_retry_attempts := int n + 1\<rparr>) (get_file i (race2 db1))"
      by (simp_all add: fl(1))
    then show ?thesis using f(2) unfolding ret by auto
  qed
qed

section \<open>The writer loses nothing\<close>

definition pending_sum :: "int \<Rightarrow> (int \<times> int) list \<Rightarrow> int" where
  "pending_sum i kvs = sum_list (map (\<lambda>(k, v). if k = i then v else 0) kvs)"

lemma pending_sum_add [simp]: "pending_sum i (dict_add k v kvs) = pending_sum i kvs + (if k = i then v else 0)"
  by (induction k v kvs rule: dict_add.induct) (auto simp: pending_sum_def)

definition update_bytes :: "int \<Rightarrow> progress_update \<Rightarrow> int" where
  "update_bytes i u = (case u of (a, d, n) \<Rightarrow> if a = Some i then d else 0)"

definition turn_updates :: "writer_turn \<Rightarrow> progress_update list" where
  "turn_updates t = (case t of Waited \<Rightarrow> [] | Received us \<Rightarrow> us | Stop_after us \<Rightarrow> us)"

lemma accumulate_sums:
  "pp_job (foldl accumulate p us) = pp_job p + delta_sum us \<and>
   pending_sum i (pp_bytes (foldl accumulate p us)) = pending_sum i (pp_bytes p) + sum_list (map (update_bytes i) us)"
proof (induction us arbitrary: p)
  case (Cons u us)
  obtain a d n where u: "u = (a, d, n)" by (cases u)
  have "pp_job (accumulate p u) = pp_job p + d"
    "pending_sum i (pp_bytes (accumulate p u)) = pending_sum i (pp_bytes p) + update_bytes i u"
    by (auto simp: u accumulate_def update_bytes_def split: option.splits)
  with Cons.IH [of "accumulate p u"] show ?case by (simp add: u delta_sum_def)
qed (simp add: delta_sum_def)

definition writer_accounted :: "writer_state \<Rightarrow> int \<Rightarrow> (int \<Rightarrow> int) \<Rightarrow> bool" where
  "writer_accounted s total_delta per \<longleftrightarrow>
     sum_list (map pp_job (ws_flushed s)) + pp_job (ws_pending s) = total_delta \<and>
     (\<forall>i. sum_list (map (\<lambda>p. pending_sum i (pp_bytes p)) (ws_flushed s)) + pending_sum i (pp_bytes (ws_pending s)) = per i) \<and>
     (ws_stopped s \<and> \<not> ws_error s \<longrightarrow> ws_pending s = no_progress) \<and> (ws_error s \<longrightarrow> ws_stopped s)"

lemma flush_turn_accounted:
  "writer_accounted s d per \<Longrightarrow> \<not> ws_stopped s \<Longrightarrow> writer_accounted (flush_turn e job stop s) d per"
  by (auto simp: writer_accounted_def flush_turn_def no_progress_def pending_sum_def split: prod.splits bool.splits)

lemma writer_turn_accounted:
  assumes "writer_accounted s d per" "\<not> ws_stopped s"
  shows "writer_accounted (writer_turn job s (e, t)) (d + delta_sum (turn_updates t))
    (\<lambda>i. per i + sum_list (map (update_bytes i) (turn_updates t)))"
proof -
  let ?s = "s\<lparr>ws_pending := foldl accumulate (ws_pending s) (turn_updates t)\<rparr>"
  have "writer_accounted ?s (d + delta_sum (turn_updates t)) (\<lambda>i. per i + sum_list (map (update_bytes i) (turn_updates t)))"
    using assms by (auto simp: writer_accounted_def accumulate_sums)
  moreover have "\<exists>stop. writer_turn job s (e, t) = flush_turn e job stop ?s"
    using assms(2) by (cases t) (auto simp: writer_turn_def turn_updates_def)
  moreover have "\<not> ws_stopped ?s" using assms(2) by simp
  ultimately show ?thesis using flush_turn_accounted by metis
qed

text \<open>The progress writer loses nothing: when it has stopped without an error, the batches it committed add
  up, for the job and for every assignment, to all updates it received, even if commits failed on the way.
  The turns before the stop marker receive the updates.\<close>

theorem writer_run_accounts:
  assumes "\<forall>(e, t) \<in> set turns. \<not> (\<exists>us. t = Stop_after us)"
    and "writer_run job (turns @ [(e, Stop_after us)]) db = s" "\<not> ws_error s"
  shows "sum_list (map pp_job (ws_flushed s)) = delta_sum (concat (map (\<lambda>x. turn_updates (snd x)) turns) @ us) \<and>
    (\<forall>i. sum_list (map (\<lambda>p. pending_sum i (pp_bytes p)) (ws_flushed s)) =
       sum_list (map (update_bytes i) (concat (map (\<lambda>x. turn_updates (snd x)) turns) @ us)))"
proof -
  let ?s0 = "\<lparr>ws_pending = no_progress, ws_db = db, ws_flushed = [], ws_error = False, ws_stopped = False\<rparr>"
  let ?us = "\<lambda>ts. concat (map (\<lambda>x. turn_updates (snd x)) ts)"
  have run: "writer_accounted (foldl (writer_turn job) ?s0 turns) (delta_sum (?us turns))
      (\<lambda>i. sum_list (map (update_bytes i) (?us turns))) \<and> \<not> ws_stopped (foldl (writer_turn job) ?s0 turns)"
    using assms(1)
  proof (induction turns rule: rev_induct)
    case Nil
    then show ?case by (simp add: writer_accounted_def no_progress_def pending_sum_def delta_sum_def)
  next
    case (snoc x turns)
    obtain e' t where x: "x = (e', t)" by (cases x)
    let ?s = "foldl (writer_turn job) ?s0 turns"
    from snoc have ih: "writer_accounted ?s (delta_sum (?us turns)) (\<lambda>i. sum_list (map (update_bytes i) (?us turns)))"
      "\<not> ws_stopped ?s" by auto
    have "\<not> ws_stopped (writer_turn job ?s x)"
      using snoc.prems ih(2) x by (cases t) (auto simp: writer_turn_def flush_turn_def split: prod.splits bool.splits)
    with writer_turn_accounted [OF ih, of job e' t] show ?case by (simp add: x delta_sum_def)
  qed
  have s: "s = writer_turn job (foldl (writer_turn job) ?s0 turns) (e, Stop_after us)"
    using assms(2) by (simp add: writer_run_def)
  have st: "ws_stopped s"
    using run s by (auto simp: writer_turn_def flush_turn_def split: prod.splits bool.splits)
  from writer_turn_accounted [OF conjunct1 [OF run] conjunct2 [OF run], of job e "Stop_after us"]
  have "writer_accounted s (delta_sum (?us turns) + delta_sum us)
      (\<lambda>i. sum_list (map (update_bytes i) (?us turns)) + sum_list (map (update_bytes i) us))"
    unfolding s turn_updates_def by simp
  with st assms(3) show ?thesis
    by (auto simp: writer_accounted_def no_progress_def pending_sum_def delta_sum_def)
qed

end
