(* ===== verification/Copy_Job.thy ===== *)
theory Copy_Job
  imports Copy_Worker
begin

text \<open>
  The job side of the copy engine (\<open>app/services/copy_engine.py\<close>): the decision what to do when the
  target is full, the end of a copy run, the failure handler, verification, and the scheduler that feeds
  the workers. Log records, metrics and elapsed-time details are not part of the state.
\<close>

section \<open>A full target\<close>

definition engine_remaining_bytes :: "export_job \<Rightarrow> int" where
  "engine_remaining_bytes j = max 0 (or_zero (sa_total_bytes (j_analysis j)) - j_copied_bytes j)"

definition is_overflow_retryable_file :: "export_file \<Rightarrow> bool" where
  "is_overflow_retryable_file f = (f_status f = ERROR \<and> f_error_message f = Some target_full_message)"

definition is_target_full_continuation_compatible_file :: "export_file \<Rightarrow> bool" where
  "is_target_full_continuation_compatible_file f =
     (f_status f \<in> {FPENDING, COPYING, RETRYING} \<or> is_overflow_retryable_file f)"

definition should_attempt_continuation :: "export_file list \<Rightarrow> bool" where
  "should_attempt_continuation incomplete =
     (incomplete \<noteq> [] \<and> list_ex is_overflow_retryable_file incomplete \<and>
      list_all is_target_full_continuation_compatible_file incomplete)"

text \<open>The loop of \<open>_select_automatic_overflow_assignment\<close> over the reserved assignments, with the
  candidates seen and validated so far. \<open>probe\<close> reads the free space of a mount point; the value is
  stored on the drive.\<close>

definition reserved_assignments :: "int \<Rightarrow> db \<Rightarrow> drive_assignment list" where
  "reserved_assignments job_id db =
     sort_key (\<lambda>a. (a_assigned_at a, a_id a))
       (filter (\<lambda>a. a_job_id a = job_id \<and> a_activated_at a = None \<and> a_released_at a = None) (assignments db))"

definition overflow_candidate :: "export_job \<Rightarrow> usb_drive \<Rightarrow> bool" where
  "overflow_candidate j d =
     (d_current_state d = IN_USE \<and> truthy (d_mount_path d) \<and>
      (j_project_id j = [] \<or> d_current_project_id d \<in> {None, Some (j_project_id j)}))"

fun select_overflow ::
  "(string \<Rightarrow> int option) \<Rightarrow> export_job \<Rightarrow> drive_assignment list \<Rightarrow> nat \<Rightarrow> nat \<Rightarrow> db \<Rightarrow>
   db \<times> drive_assignment option \<times> nat \<times> nat" where
  "select_overflow probe j [] seen valid w = (w, None, seen, valid)"
| "select_overflow probe j (a # as) seen valid w =
     (case get_drive (a_drive_id a) w of
        None \<Rightarrow> select_overflow probe j as (Suc seen) valid w
      | Some d \<Rightarrow>
          if \<not> overflow_candidate j d then select_overflow probe j as (Suc seen) valid w
          else case probe (the (d_mount_path d)) of
            None \<Rightarrow> select_overflow probe j as (Suc seen) valid w
          | Some available \<Rightarrow>
              (let w = set_drive (a_drive_id a) (\<lambda>d. d\<lparr>d_available_bytes := Some available\<rparr>) w
               in if available < engine_remaining_bytes j then select_overflow probe j as (Suc seen) (Suc valid) w
                  else (w, Some a, Suc seen, Suc valid)))"

definition decision_reason :: "nat \<Rightarrow> nat \<Rightarrow> string" where
  "decision_reason seen valid =
     (if 0 < seen \<and> valid = 0 then ''no_assigned_drive_validated''
      else if 0 < seen then ''no_assigned_drive_with_capacity''
      else ''no_other_assigned_drive'')"

type_synonym decision = "(string \<times> jval) list"

datatype target_full_outcome = Not_applicable | Target_full_failed decision | Target_continued

definition continued_details :: "export_job \<Rightarrow> int \<Rightarrow> nat \<Rightarrow> nat \<Rightarrow> int \<Rightarrow> drive_assignment \<Rightarrow> nat \<Rightarrow> decision" where
  "continued_details j remaining seen valid previous a retry =
     [(''project_id'', JStr (j_project_id j)), (''decision'', JStr ''continued''),
      (''decision_reason'', JStr ''assigned_drive_has_capacity''), (''remaining_bytes'', JInt remaining),
      (''candidate_drive_count'', JInt (int seen)), (''validated_candidate_count'', JInt (int valid)),
      (''selected_drive_id'', JInt (a_drive_id a)), (''previous_drive_id'', JInt previous),
      (''drive_assignment_id'', JInt (a_id a)), (''retry_file_count'', JInt (int retry))]"

definition failed_details :: "export_job \<Rightarrow> nat \<Rightarrow> nat \<Rightarrow> int \<Rightarrow> nat \<Rightarrow> decision" where
  "failed_details j seen valid previous retry =
     [(''project_id'', JStr (j_project_id j)), (''decision'', JStr ''failed''),
      (''decision_reason'', JStr (decision_reason seen valid)), (''remaining_bytes'', JInt (engine_remaining_bytes j)),
      (''candidate_drive_count'', JInt (int seen)), (''validated_candidate_count'', JInt (int valid)),
      (''previous_drive_id'', JInt previous), (''retry_file_count'', JInt (int retry)),
      (''failure_reason'', JStr ''Destination capacity exhausted and no assigned drive can continue this copy'')]"

definition audit_target_full :: "env \<Rightarrow> export_job \<Rightarrow> int option \<Rightarrow> decision \<Rightarrow> db \<Rightarrow> db" where
  "audit_target_full e j drive_id details =
     best_effort_audit e ''JOB_TARGET_FULL_DECISION'' (Some (j_project_id j)) drive_id (Some (j_id j)) details"

definition audit_automatic_continuation :: "env \<Rightarrow> export_job \<Rightarrow> int \<Rightarrow> drive_assignment \<Rightarrow> nat \<Rightarrow> db \<Rightarrow> db" where
  "audit_automatic_continuation e j previous a retry =
     best_effort_audit e ''JOB_OVERFLOW_CONTINUATION_STARTED'' (Some (j_project_id j)) (Some (a_drive_id a)) (Some (j_id j))
       [(''project_id'', JStr (j_project_id j)), (''previous_drive_id'', JInt previous),
        (''drive_id'', JInt (a_drive_id a)), (''drive_assignment_id'', JInt (a_id a)),
        (''retry_file_count'', JInt (int retry)), (''automatic'', JBool True)]"

text \<open>The switch to the next drive, as pending changes of the session.\<close>

definition switch_target :: "env \<Rightarrow> int \<Rightarrow> drive_assignment \<Rightarrow> drive_assignment \<Rightarrow> usb_drive \<Rightarrow> db \<Rightarrow> db" where
  "switch_target e job_id current next_assignment d w =
     (let w = set_assignment (a_id current) (\<lambda>a. a\<lparr>a_released_at := Some (e_now e)\<rparr>) w;
          w = set_assignment (a_id next_assignment) (\<lambda>a. a\<lparr>a_activated_at := Some (e_now e)\<rparr>) w;
          w = set_drive (a_drive_id current) drive_available w;
          w = set_job job_id (\<lambda>j. j\<lparr>j_target_mount_path := d_mount_path d, j_status := RUNNING,
                                    j_completed_at := None, j_failure_reason := None\<rparr>) w;
          w = set_drive (d_id d) drive_in_use w
      in fst (reset_target_full_failed_for_retry job_id w))"

text \<open>
  \<open>_resolve_target_full_outcome\<close>. \<open>Inl\<close> is an exception, which ends the run in the failure
  handler. Besides the committed database the result carries the session, whose changes a later commit
  writes.
\<close>

definition resolve_target_full_outcome ::
  "env \<Rightarrow> (string \<Rightarrow> int option) \<Rightarrow> int \<Rightarrow> db \<Rightarrow> string + (target_full_outcome \<times> db \<times> db)" where
  "resolve_target_full_outcome e probe job_id db =
     (case get_job_for_update e job_id db of
        Lock_conflict \<Rightarrow> Inl ''Job is currently locked by another operation.''
      | Row None \<Rightarrow> Inr (Not_applicable, db, db)
      | Row (Some j) \<Rightarrow>
          (let incomplete = list_incomplete_by_job job_id db;
               retry = length (filter is_overflow_retryable_file incomplete)
           in if \<not> should_attempt_continuation incomplete then Inr (Not_applicable, db, db)
              else case get_active_for_job job_id db of
                None \<Rightarrow> Inr (Not_applicable, db, db)
              | Some current \<Rightarrow>
                  (case select_overflow probe j (reserved_assignments job_id db) 0 0 db of
                     (w, None, seen, valid) \<Rightarrow>
                       Inr (Target_full_failed (failed_details j seen valid (a_drive_id current) retry), db, w)
                   | (w, Some a, seen, valid) \<Rightarrow>
                       (case get_drive (a_drive_id a) w of
                          None \<Rightarrow> Inr (Target_full_failed (failed_details j seen valid (a_drive_id current) retry), db, w)
                        | Some d \<Rightarrow>
                            if e_drive_locked e (a_drive_id current) then Inl ''Drive is currently locked by another operation.''
                            else let w = switch_target e job_id current a d w
                                 in if \<not> e_db_ok e ''target_full_continuation'' then Inl ''database error''
                                    else let j' = the (get_job job_id w);
                                             db1 = audit_target_full e j' (Some (a_drive_id a))
                                               (continued_details j' (engine_remaining_bytes j) seen valid (a_drive_id current) a retry) w;
                                             db2 = audit_automatic_continuation e j' (a_drive_id current) a retry db1
                                         in Inr (Target_continued, db2, db2)))))"

section \<open>The end of a run\<close>

definition active_seconds :: "env \<Rightarrow> export_job \<Rightarrow> int" where
  "active_seconds e j =
     max 0 (case j_copy_started_at j of None \<Rightarrow> j_active_duration_seconds j
            | Some t \<Rightarrow> j_active_duration_seconds j + max 0 (e_now e - t))"

text \<open>\<open>_count_copy_job_file_states\<close> and the reset of files left in flight.\<close>

definition lingering_files :: "int \<Rightarrow> db \<Rightarrow> nat" where
  "lingering_files job_id db = count_status COPYING job_id db + count_status RETRYING job_id db"

definition reset_in_flight :: "int \<Rightarrow> db \<Rightarrow> db" where
  "reset_in_flight job_id db =
     db\<lparr>files := map (\<lambda>f. if f_job_id f = job_id \<and> f_status f \<in> {COPYING, RETRYING}
                           then f\<lparr>f_status := FPENDING\<rparr> else f) (files db)\<rparr>"

definition all_files_finished :: "int \<Rightarrow> export_job \<Rightarrow> db \<Rightarrow> bool" where
  "all_files_finished job_id j db =
     (j_file_count j \<le> int (count_status DONE job_id db + count_status ERROR job_id db + count_status TIMEOUT job_id db))"

definition pause_final :: "env \<Rightarrow> export_job \<Rightarrow> export_job" where
  "pause_final e j = j\<lparr>j_active_duration_seconds := active_seconds e j, j_copy_started_at := None, j_status := PAUSED,
     j_completed_at := None\<rparr>"

definition final_status :: "bool \<Rightarrow> bool \<Rightarrow> job_status" where
  "final_status target_full_failed all_finished =
     (if target_full_failed then JFAILED else if all_finished then COMPLETED else JFAILED)"

definition final_update :: "env \<Rightarrow> bool \<Rightarrow> bool \<Rightarrow> bool \<Rightarrow> export_job \<Rightarrow> export_job" where
  "final_update e target_full_failed all_finished clear j =
     (let j = j\<lparr>j_active_duration_seconds := active_seconds e j, j_copy_started_at := None,
                j_status := final_status target_full_failed all_finished, j_completed_at := Some (e_now e),
                j_failure_reason := (if target_full_failed
                   then Some ''Destination capacity exhausted and no assigned drive can continue this copy'' else None)\<rparr>
      in if clear then j\<lparr>j_analysis := (j_analysis j)\<lparr>sa_cache_present := False, sa_entries := None\<rparr>\<rparr> else j)"

definition audit_run_end :: "string \<Rightarrow> env \<Rightarrow> export_job \<Rightarrow> int \<Rightarrow> db \<Rightarrow> db" where
  "audit_run_end action e j files_copied =
     best_effort_audit e action None None (Some (j_id j))
       ([(''status'', JStr (job_status_value (j_status j))), (''files_copied'', JInt files_copied),
         (''file_count'', JInt (j_file_count j)), (''copied_bytes'', JInt (j_copied_bytes j)),
         (''total_bytes'', JInt (j_total_bytes j))] @
        (case j_failure_reason j of None \<Rightarrow> [] | Some r \<Rightarrow> if r = [] then [] else [(''reason'', JStr r)]))"

definition audit_persist_failed :: "env \<Rightarrow> int \<Rightarrow> string \<Rightarrow> db \<Rightarrow> db" where
  "audit_persist_failed e job_id intended =
     best_effort_audit e ''JOB_STATUS_PERSIST_FAILED'' None None (Some job_id) [(''intended_status'', JStr intended)]"

definition audit_cache_cleared_by_engine :: "env \<Rightarrow> export_job \<Rightarrow> db \<Rightarrow> db" where
  "audit_cache_cleared_by_engine e j =
     best_effort_audit e ''JOB_STARTUP_ANALYSIS_CACHE_CLEARED'' None None (Some (j_id j))
       [(''reason'', JStr ''job_completed''), (''cached_file_count'', JInt (or_zero (sa_file_count (j_analysis j)))),
        (''cached_total_bytes'', JInt (or_zero (sa_total_bytes (j_analysis j))))]"

text \<open>
  The last part of \<open>run_copy_job\<close> once the target-full decision is known; \<open>w\<close> is the session
  over the committed \<open>db\<close>. When the final status cannot be saved, the code after the handler reads
  a variable that only the success branch sets; the exception ends in the failure handler
  (\<open>Inl\<close>).
\<close>

definition unbound_variable_message :: string where
  "unbound_variable_message =
     ''cannot access local variable (audit_action) where it is not associated with a value''"

definition finish_run ::
  "env \<Rightarrow> manifest_host \<Rightarrow> int \<Rightarrow> bool \<Rightarrow> decision option \<Rightarrow> export_job \<Rightarrow> db \<Rightarrow> db \<Rightarrow> db \<times> job_effect list \<times> (string + unit)" where
  "finish_run e host job_id pause_requested failed j db w =
     (let finished = all_files_finished job_id j db;
          tf = (failed \<noteq> None);
          done = int (count_status DONE job_id db)
      in if (pause_requested \<or> j_status j \<in> {PAUSING, PAUSED}) \<and> \<not> finished then
           (snd (save_file e ''job_paused'' (set_job job_id (pause_final e) w) db), [], Inr ())
         else
           let clear = (final_status tf finished = COMPLETED \<and> count_status ERROR job_id db = 0 \<and>
                        count_status TIMEOUT job_id db = 0 \<and> startup_analysis_cached j);
               w = (if clear then delete_entries_by_job job_id w else w);
               w = set_job job_id (final_update e tf finished clear) w;
               j' = final_update e tf finished clear j
           in case save_file e ''job_final_status'' w db of
                (False, db1) \<Rightarrow>
                  (audit_persist_failed e job_id (job_status_value (j_status j)) db1, [], Inl unbound_variable_message)
              | (True, db1) \<Rightarrow>
                  (let db2 = (case failed of None \<Rightarrow> db1 | Some ds \<Rightarrow> audit_target_full e j' None ds db1);
                       db3 = audit_run_end (if j_status j' = COMPLETED then ''JOB_COMPLETED'' else ''JOB_FAILED'') e j' done db2;
                       db4 = (if clear then audit_cache_cleared_by_engine e j db3 else db3)
                   in if j_status j' = COMPLETED
                      then (case auto_generate_manifest_for_completed_job (e\<lparr>e_actor := None\<rparr>) host job_id db4 of
                              (db5, calls, _) \<Rightarrow> (db5, Job_callback job_id ''JOB_COMPLETED'' # calls, Inr ()))
                      else (db4, [Job_callback job_id ''JOB_FAILED''], Inr ())))"

datatype run_end = Stale_run | Repeat_run | Run_ended

definition finalize_copy_run ::
  "env \<Rightarrow> manifest_host \<Rightarrow> (string \<Rightarrow> int option) \<Rightarrow> int \<Rightarrow> int option \<Rightarrow> bool \<Rightarrow> db \<Rightarrow>
   db \<times> job_effect list \<times> (string + run_end)" where
  "finalize_copy_run e host probe job_id run_started_at pause_requested db =
     (if (case get_job job_id db of None \<Rightarrow> False | Some j \<Rightarrow> j_started_at j \<noteq> run_started_at)
        then (db, [], Inr Stale_run)
      else if 0 < lingering_files job_id db \<and> \<not> pause_requested then
        (case save_file e ''reset_in_flight'' (reset_in_flight job_id db) db of
           (True, db1) \<Rightarrow> (db1, [], Inr Repeat_run)
         | (False, db1) \<Rightarrow> (db1, [], Inr Run_ended))
      else case (if 0 < count_status ERROR job_id db \<and> count_status TIMEOUT job_id db = 0
                 then resolve_target_full_outcome e probe job_id db else Inr (Not_applicable, db, db)) of
        Inl err \<Rightarrow> (db, [], Inl err)
      | Inr (Target_continued, db1, w) \<Rightarrow> (db1, [], Inr Repeat_run)
      | Inr (decision, db1, w) \<Rightarrow>
          (case get_job job_id w of
             None \<Rightarrow> (db1, [], Inr Run_ended)
           | Some j \<Rightarrow>
               if j_started_at j \<noteq> run_started_at then (db1, [], Inr Stale_run)
               else (case finish_run e host job_id pause_requested
                            (case decision of Target_full_failed ds \<Rightarrow> Some ds | _ \<Rightarrow> None) j db1 w of
                       (db2, calls, Inl err) \<Rightarrow> (db2, calls, Inl err)
                     | (db2, calls, Inr _) \<Rightarrow> (db2, calls, Inr Run_ended))))"

text \<open>The failure handler of \<open>run_copy_job\<close>; it does not look at the run that owns the job.\<close>

definition fail_update :: "env \<Rightarrow> string \<Rightarrow> export_job \<Rightarrow> export_job" where
  "fail_update e reason j =
     j\<lparr>j_status := JFAILED, j_completed_at := Some (e_now e), j_failure_reason := Some reason,
       j_active_duration_seconds := active_seconds e j, j_copy_started_at := None\<rparr>"

definition fail_copy_run :: "env \<Rightarrow> string \<Rightarrow> int \<Rightarrow> string \<Rightarrow> int \<Rightarrow> db \<Rightarrow> db \<times> job_effect list" where
  "fail_copy_run e cwd job_id err files_copied db =
     (case get_job job_id db of
        None \<Rightarrow> (db, [])
      | Some j \<Rightarrow>
          (let reason = sanitize_job_failure_reason cwd err ''Unexpected copy failure'' (Some (j_source_path j))
                          (j_target_mount_path j)
           in case save_file e ''job_failed'' (set_job job_id (fail_update e reason) db) db of
                (False, db1) \<Rightarrow> (audit_persist_failed e job_id ''FAILED'' db1, [])
              | (True, db1) \<Rightarrow>
                  (audit_run_end ''JOB_FAILED'' e (fail_update e reason j) files_copied db1,
                   [Job_callback job_id ''JOB_FAILED''])))"

text \<open>The end of a run with its exception handler; \<open>done_count\<close> is the count of the last pass.\<close>

definition end_copy_run ::
  "env \<Rightarrow> manifest_host \<Rightarrow> (string \<Rightarrow> int option) \<Rightarrow> string \<Rightarrow> int \<Rightarrow> int option \<Rightarrow> bool \<Rightarrow> db \<Rightarrow>
   db \<times> job_effect list \<times> run_end" where
  "end_copy_run e host probe cwd job_id run_started_at pause_requested db =
     (case finalize_copy_run e host probe job_id run_started_at pause_requested db of
        (db1, calls, Inr r) \<Rightarrow> (db1, calls, r)
      | (db1, calls, Inl err) \<Rightarrow>
          (case fail_copy_run e cwd job_id err (int (count_status DONE job_id db)) db1 of
             (db2, calls') \<Rightarrow> (db2, calls @ calls', Run_ended)))"

section \<open>The beginning of a run\<close>

text \<open>\<open>run_copy_job\<close> up to its loop: the run owns the job through \<open>started_at\<close>.\<close>

definition begin_update :: "env \<Rightarrow> export_job \<Rightarrow> export_job" where
  "begin_update e j =
     j\<lparr>j_status := PREPARING,
       j_started_at := (case j_started_at j of None \<Rightarrow> Some (e_now e) | Some t \<Rightarrow> Some t),
       j_completed_at := None, j_failure_reason := None\<rparr>"

definition begin_copy_run :: "env \<Rightarrow> int \<Rightarrow> db \<Rightarrow> db \<times> int option option" where
  "begin_copy_run e job_id db =
     (case get_job job_id db of
        None \<Rightarrow> (db, None)
      | Some j \<Rightarrow>
          if j_status j = PAUSED then (db, None)
          else case save_file e ''run_preparing'' (set_job job_id (begin_update e) db) db of
            (True, db1) \<Rightarrow> (db1, Some (j_started_at (begin_update e j)))
          | (False, db1) \<Rightarrow> (db1, None))"

text \<open>After the preparation the job starts running, unless a pause was requested. The flag of the result is
  \<open>pause_requested\<close>; \<open>None\<close> ends the run.\<close>

definition start_running :: "env \<Rightarrow> int \<Rightarrow> db \<Rightarrow> db \<times> bool option" where
  "start_running e job_id db =
     (case get_job job_id db of
        None \<Rightarrow> (db, None)
      | Some j \<Rightarrow>
          if j_status j \<in> {PAUSING, PAUSED} then (db, Some True)
          else case save_file e ''run_running''
                      (set_job job_id (\<lambda>j. j\<lparr>j_copy_started_at := Some (e_now e), j_status := RUNNING\<rparr>) db) db of
            (True, db1) \<Rightarrow> (db1, Some False)
          | (False, db1) \<Rightarrow> (db1, None))"

section \<open>Verification\<close>

text \<open>\<open>run_verify_job\<close>: every file recorded as done is hashed again where the job's target path says
  it is. \<open>checksum_at\<close> is the checksum of the file at a path.\<close>

definition verify_path :: "(string \<Rightarrow> bool) \<Rightarrow> export_job \<Rightarrow> export_file \<Rightarrow> string" where
  "verify_path is_dir j f =
     (if truthy (j_target_mount_path j) then path_join (the (j_target_mount_path j)) (f_relative_path f)
      else if is_dir (j_source_path j) then path_join (j_source_path j) (f_relative_path f) else j_source_path j)"

definition verify_file :: "(string \<Rightarrow> copy_result) \<Rightarrow> (string \<Rightarrow> bool) \<Rightarrow> export_job \<Rightarrow> export_file \<Rightarrow> export_file" where
  "verify_file checksum_at is_dir j f =
     (case checksum_at (verify_path is_dir j f) of
        Copied h \<Rightarrow> if Some h = f_checksum f then f
                     else f\<lparr>f_status := ERROR, f_error_message := Some ''Checksum verification failed''\<rparr>
      | Copy_failed err \<Rightarrow>
          f\<lparr>f_status := ERROR, f_error_message := Some (snd (classify_file_failure
              (Some (if err = [] then ''Checksum computation failed'' else err))))\<rparr>
      | Copy_timed_out \<Rightarrow> f)"

definition verify_mismatch :: "(string \<Rightarrow> copy_result) \<Rightarrow> (string \<Rightarrow> bool) \<Rightarrow> export_job \<Rightarrow> export_file \<Rightarrow> bool" where
  "verify_mismatch checksum_at is_dir j f =
     (case checksum_at (verify_path is_dir j f) of Copied h \<Rightarrow> Some h \<noteq> f_checksum f | Copy_failed _ \<Rightarrow> True
      | Copy_timed_out \<Rightarrow> False)"

definition verified_files :: "(string \<Rightarrow> copy_result) \<Rightarrow> (string \<Rightarrow> bool) \<Rightarrow> export_job \<Rightarrow> db \<Rightarrow> db" where
  "verified_files checksum_at is_dir j db =
     db\<lparr>files := map (\<lambda>f. if f_job_id f = j_id j \<and> f_status f = DONE then verify_file checksum_at is_dir j f else f) (files db)\<rparr>"

definition audit_verification :: "env \<Rightarrow> export_job \<Rightarrow> nat \<Rightarrow> bool \<Rightarrow> db \<Rightarrow> db" where
  "audit_verification e j n mismatch =
     best_effort_audit e (if mismatch then ''JOB_VERIFICATION_FAILED'' else ''JOB_VERIFICATION_COMPLETED'') None None
       (Some (j_id j))
       [(''status'', JStr (job_status_value (j_status j))), (''files_verified'', JInt (int n)), (''mismatches'', JBool mismatch)]"

definition verify_update :: "env \<Rightarrow> bool \<Rightarrow> export_job \<Rightarrow> export_job" where
  "verify_update e mismatch j =
     j\<lparr>j_status := (if mismatch then JFAILED else COMPLETED), j_completed_at := Some (e_now e)\<rparr>"

definition run_verify_job ::
  "env \<Rightarrow> manifest_host \<Rightarrow> (string \<Rightarrow> copy_result) \<Rightarrow> (string \<Rightarrow> bool) \<Rightarrow> int \<Rightarrow> db \<Rightarrow> db \<times> job_effect list" where
  "run_verify_job e host checksum_at is_dir job_id db =
     (case get_job job_id db of
        None \<Rightarrow> (db, [])
      | Some j \<Rightarrow>
          (let fs = list_done_by_job job_id db;
               mismatch = list_ex (verify_mismatch checksum_at is_dir j) fs
           in case save_file e ''verify_files'' (verified_files checksum_at is_dir j db) db of
                (False, db1) \<Rightarrow> (db1, [])
              | (True, db1) \<Rightarrow>
                  (case get_job job_id db1 of
                     None \<Rightarrow> (db1, [])
                   | Some j \<Rightarrow>
                       (case save_file e ''verify_status'' (set_job job_id (verify_update e mismatch) db1) db1 of
                          (False, db2) \<Rightarrow> (audit_persist_failed e job_id (job_status_value (j_status j)) db2, [])
                        | (True, db2) \<Rightarrow>
                            (let j' = verify_update e mismatch j;
                                 db3 = audit_verification e j' (length fs) mismatch db2
                             in if mismatch then (db3, [Job_callback job_id ''JOB_FAILED''])
                                else (case auto_generate_manifest_for_completed_job (e\<lparr>e_actor := None\<rparr>) host job_id db3 of
                                        (db4, calls, _) \<Rightarrow> (db4, Job_callback job_id ''JOB_COMPLETED'' # calls)))))))"

end
