(* ===== verification/Copy_Scheduler.thy ===== *)
theory Copy_Scheduler
  imports Copy_Job
begin

text \<open>
  The rolling loop of \<open>run_copy_job\<close> between the start and the end of a run, as a step relation. A
  future is a submitted attempt; its worker claims the file and later finishes, each in its own transactions.
  The main thread polls the control state, loads pending files in batches by id, submits ready retries and
  buffered files while fewer than \<open>max_workers\<close> attempts are in flight, and collects finished
  attempts. The order of these steps, the instants of the workers' steps and what other requests do to the
  database meanwhile are left open, so that a property of all reachable states holds for every interleaving.
\<close>

section \<open>State and operations\<close>

datatype future = Submitted | Claimed export_file "int option" | Completed_with attempt_outcome | Crashed

record scheduler =
  sc_db :: db
  sc_cursor :: "int option"
  sc_buffer :: "int list"
  sc_exhausted :: bool
  sc_deferred :: "deferred_retry list"
  sc_futures :: "((int \<times> nat) \<times> future) list"
  sc_workers :: nat
  sc_pause :: bool
  sc_target_full :: bool
  sc_stale :: bool
  sc_progress :: "progress_update list"
  sc_log :: "(int \<times> nat) list"

definition scheduler_start :: "nat \<Rightarrow> db \<Rightarrow> scheduler" where
  "scheduler_start workers db =
     \<lparr>sc_db = db, sc_cursor = None, sc_buffer = [], sc_exhausted = False, sc_deferred = [], sc_futures = [],
      sc_workers = workers, sc_pause = False, sc_target_full = False, sc_stale = False, sc_progress = [], sc_log = []\<rparr>"

definition keep_going :: "scheduler \<Rightarrow> bool" where
  "keep_going s = (\<not> sc_pause s \<and> \<not> sc_target_full s \<and> \<not> sc_stale s)"

text \<open>\<open>_handle_worker_completion\<close>.\<close>

definition handle_worker_completion :: "int \<Rightarrow> int option \<Rightarrow> bool \<Rightarrow> scheduler \<Rightarrow> scheduler" where
  "handle_worker_completion job_id run_started_at include_target_full s =
     (case get_job job_id (sc_db s) of
        None \<Rightarrow> s
      | Some j \<Rightarrow>
          if j_started_at j \<noteq> None \<and> j_started_at j \<noteq> run_started_at then s\<lparr>sc_stale := True\<rparr>
          else if j_status j \<in> {PAUSING, PAUSED} then s\<lparr>sc_pause := True\<rparr>
          else if include_target_full \<and> should_attempt_target_full_continuation job_id (sc_db s) \<and>
                  get_active_for_job job_id (sc_db s) \<noteq> None then s\<lparr>sc_target_full := True\<rparr>
          else s)"

definition poll_runtime_control_state :: "settings \<Rightarrow> int \<Rightarrow> int option \<Rightarrow> scheduler \<Rightarrow> scheduler" where
  "poll_runtime_control_state st job_id run_started_at s =
     (case get_job job_id (sc_db s) of
        None \<Rightarrow> s
      | Some j \<Rightarrow>
          handle_worker_completion job_id run_started_at True
            (s\<lparr>sc_workers := nat (effective_thread_count (resolve_job_copy_tuning st j))\<rparr>))"

definition batch_limit :: "scheduler \<Rightarrow> nat" where
  "batch_limit s = max 1 (sc_workers s * 4)"

definition load_pending_buffer :: "int \<Rightarrow> scheduler \<Rightarrow> scheduler" where
  "load_pending_buffer job_id s =
     (let fs = list_pending_by_job_after_id job_id (sc_cursor s) (Some (batch_limit s)) (sc_db s)
      in if fs = [] then s\<lparr>sc_exhausted := True\<rparr>
         else s\<lparr>sc_cursor := Some (f_id (last fs)), sc_buffer := sc_buffer s @ map f_id fs\<rparr>)"

definition submit :: "int \<times> nat \<Rightarrow> scheduler \<Rightarrow> scheduler" where
  "submit x s = s\<lparr>sc_futures := sc_futures s @ [(x, Submitted)], sc_log := sc_log s @ [x]\<rparr>"

definition retry_key :: "deferred_retry \<Rightarrow> rat \<times> int" where
  "retry_key d = (dr_eligible_at d, dr_file_id d)"

definition set_future :: "int \<times> nat \<Rightarrow> future \<Rightarrow> scheduler \<Rightarrow> scheduler" where
  "set_future x ft s = s\<lparr>sc_futures := map (\<lambda>(y, g). if y = x then (y, ft) else (y, g)) (sc_futures s)\<rparr>"

text \<open>Collecting one finished attempt: a deferred retry enters the heap.\<close>

definition collect_future :: "int \<times> nat \<Rightarrow> scheduler \<Rightarrow> scheduler" where
  "collect_future x s =
     (let retry = (case map_of (sc_futures s) x of
                     Some (Completed_with ao) \<Rightarrow> (case ao_deferred_retry ao of None \<Rightarrow> [] | Some d \<Rightarrow> [d]) | _ \<Rightarrow> [])
      in s\<lparr>sc_futures := filter (\<lambda>(y, g). y \<noteq> x) (sc_futures s), sc_deferred := foldr (insort_key retry_key) retry (sc_deferred s)\<rparr>)"

definition future_finished :: "future \<Rightarrow> bool" where
  "future_finished ft = (case ft of Completed_with _ \<Rightarrow> True | Crashed \<Rightarrow> True | _ \<Rightarrow> False)"

definition target_full_detected :: "scheduler \<Rightarrow> (int \<times> nat) list \<Rightarrow> bool" where
  "target_full_detected s xs =
     list_ex (\<lambda>x. case map_of (sc_futures s) x of Some (Completed_with ao) \<Rightarrow> ao_target_full_failure ao | _ \<Rightarrow> False) xs"

text \<open>What other transactions may do to the files while the run is active: no file row appears, disappears
  or moves to another job, and none becomes pending.\<close>

definition file_pending :: "db \<Rightarrow> int \<Rightarrow> bool" where
  "file_pending db i = (case get_file i db of None \<Rightarrow> False | Some f \<Rightarrow> f_status f = FPENDING)"

definition others_ok :: "db \<Rightarrow> db \<Rightarrow> bool" where
  "others_ok db db' \<longleftrightarrow> file_keys db' = file_keys db \<and> (\<forall>i. file_pending db' i \<longrightarrow> file_pending db i)"

inductive scheduler_step :: "settings \<Rightarrow> worker_args \<Rightarrow> int \<Rightarrow> int option \<Rightarrow> scheduler \<Rightarrow> scheduler \<Rightarrow> bool"
  for st :: settings and args :: worker_args and job_id :: int and run_started_at :: "int option" where
  poll: "keep_going s \<Longrightarrow> scheduler_step st args job_id run_started_at s (poll_runtime_control_state st job_id run_started_at s)"
| submit_retry: "keep_going s \<Longrightarrow> length (sc_futures s) < sc_workers s \<Longrightarrow> sc_deferred s = d # ds \<Longrightarrow> dr_eligible_at d \<le> now \<Longrightarrow>
    scheduler_step st args job_id run_started_at s (submit (dr_file_id d, dr_attempt d) (s\<lparr>sc_deferred := ds\<rparr>))"
| load: "keep_going s \<Longrightarrow> length (sc_futures s) < sc_workers s \<Longrightarrow> sc_buffer s = [] \<Longrightarrow> \<not> sc_exhausted s \<Longrightarrow>
    scheduler_step st args job_id run_started_at s (load_pending_buffer job_id s)"
| submit_pending: "keep_going s \<Longrightarrow> length (sc_futures s) < sc_workers s \<Longrightarrow> sc_buffer s = i # is \<Longrightarrow>
    scheduler_step st args job_id run_started_at s (submit (i, 0) (s\<lparr>sc_buffer := is\<rparr>))"
| claim: "map_of (sc_futures s) (i, n) = Some Submitted \<Longrightarrow> (\<And>db. others_ok db (race db)) \<Longrightarrow>
    claim_file e race i n (sc_db s) = (db', c) \<Longrightarrow>
    scheduler_step st args job_id run_started_at s
      (set_future (i, n) (case c of None \<Rightarrow> Completed_with no_outcome | Some (f, a) \<Rightarrow> Claimed f a) (s\<lparr>sc_db := db'\<rparr>))"
| finish: "map_of (sc_futures s) (i, n) = Some (Claimed f a) \<Longrightarrow>
    finish_attempt e st (args\<lparr>wa_now := now\<rparr>) f a n r
      (foldl (report_progress e st args (f_job_id f) a) (attempt_start (sc_db s)) ns) = (q, db', ao) \<Longrightarrow>
    scheduler_step st args job_id run_started_at s
      (set_future (i, n) (Completed_with ao) (s\<lparr>sc_db := db', sc_progress := sc_progress s @ q\<rparr>))"
| crash: "map_of (sc_futures s) x = Some ft \<Longrightarrow> \<not> future_finished ft \<Longrightarrow>
    scheduler_step st args job_id run_started_at s (set_future x Crashed s)"
| collect: "keep_going s \<Longrightarrow> xs \<noteq> [] \<Longrightarrow> distinct xs \<Longrightarrow>
    (\<forall>x \<in> set xs. \<exists>ft. map_of (sc_futures s) x = Some ft \<and> future_finished ft) \<Longrightarrow>
    scheduler_step st args job_id run_started_at s
      (handle_worker_completion job_id run_started_at (target_full_detected s xs) (foldl (\<lambda>s x. collect_future x s) s xs))"
| cancel: "\<not> keep_going s \<Longrightarrow> map_of (sc_futures s) x = Some Submitted \<Longrightarrow>
    scheduler_step st args job_id run_started_at s (s\<lparr>sc_futures := filter (\<lambda>(y, g). y \<noteq> x) (sc_futures s)\<rparr>)"
| others: "others_ok (sc_db s) db' \<Longrightarrow> scheduler_step st args job_id run_started_at s (s\<lparr>sc_db := db'\<rparr>)"

inductive scheduler_reachable :: "settings \<Rightarrow> worker_args \<Rightarrow> int \<Rightarrow> int option \<Rightarrow> db \<Rightarrow> scheduler \<Rightarrow> bool"
  for st :: settings and args :: worker_args and job_id :: int and run_started_at :: "int option" and db :: db where
  start: "scheduler_reachable st args job_id run_started_at db (scheduler_start workers db)"
| step: "scheduler_reachable st args job_id run_started_at db s \<Longrightarrow> scheduler_step st args job_id run_started_at s s' \<Longrightarrow>
    scheduler_reachable st args job_id run_started_at db s'"

text \<open>The loop ends regularly when nothing is in flight, waiting or left to load.\<close>

definition scheduler_finished :: "scheduler \<Rightarrow> bool" where
  "scheduler_finished s =
     (keep_going s \<and> sc_futures s = [] \<and> sc_deferred s = [] \<and> sc_buffer s = [] \<and> sc_exhausted s)"

section \<open>Batches of pending files\<close>

lemma last_take_maximal:
  fixes ys :: "'a::linorder list"
  assumes "sorted ys" "take k ys \<noteq> []" "y \<in> set ys" "y \<le> last (take k ys)"
  shows "y \<in> set (take k ys)"
proof (rule ccontr)
  assume n: "y \<notin> set (take k ys)"
  with assms(3) have "y \<in> set (drop k ys)" by (metis Un_iff append_take_drop_id set_append)
  moreover have "last (take k ys) \<in> set (take k ys)" using assms(2) by (rule last_in_set)
  moreover have "\<forall>a \<in> set (take k ys). \<forall>b \<in> set (drop k ys). a \<le> b"
    using assms(1) by (metis append_take_drop_id sorted_append)
  ultimately show False using assms(4) n by force
qed

definition job_file :: "int \<Rightarrow> db \<Rightarrow> int \<Rightarrow> bool" where
  "job_file job_id db i \<longleftrightarrow> (i, job_id) \<in> set (file_keys db)"

definition below :: "int option \<Rightarrow> int \<Rightarrow> bool" where
  "below c i = (case c of None \<Rightarrow> False | Some k \<Rightarrow> i \<le> k)"

lemma pending_job_file:
  assumes "pk_ok f_id (files db)"
  shows "f \<in> set (files_of job_id db) \<and> f_status f = FPENDING \<longleftrightarrow>
    f \<in> set (files db) \<and> file_pending db (f_id f) \<and> job_file job_id db (f_id f)"
proof (cases "f \<in> set (files db)")
  case True
  have g: "get_file (f_id f) db = Some f"
    using assms True by (simp add: get_file_def get_row_in)
  have "job_file job_id db (f_id f) \<longleftrightarrow> f_job_id f = job_id"
  proof
    assume "job_file job_id db (f_id f)"
    then obtain g where "g \<in> set (files db)" "f_id g = f_id f" "f_job_id g = job_id"
      unfolding job_file_def file_keys_def by force
    moreover have "inj_on f_id (set (files db))" using assms by (simp add: pk_ok_def distinct_map)
    ultimately show "f_job_id f = job_id" using True by (metis inj_onD)
  next
    assume "f_job_id f = job_id"
    with True show "job_file job_id db (f_id f)" unfolding job_file_def file_keys_def by force
  qed
  with True g show ?thesis by (simp add: files_of_def file_pending_def conj_commute)
next
  case False
  then show ?thesis by (simp add: files_of_def)
qed

lemma pending_batch:
  assumes "pk_ok f_id (files db)" "0 < k" "fs = list_pending_by_job_after_id job_id c (Some k) db"
  shows "distinct (map f_id fs)"
    and "f \<in> set fs \<Longrightarrow> job_file job_id db (f_id f) \<and> \<not> below c (f_id f) \<and> f_id f \<le> f_id (last fs)"
    and "file_pending db i \<Longrightarrow> job_file job_id db i \<Longrightarrow> \<not> below c i \<Longrightarrow>
      fs \<noteq> [] \<and> (i \<le> f_id (last fs) \<longrightarrow> i \<in> f_id ` set fs)"
proof -
  define L where "L = (let fs = sort_key f_id (filter (\<lambda>f. f_status f = FPENDING) (files_of job_id db))
    in case c of None \<Rightarrow> fs | Some i \<Rightarrow> filter (\<lambda>f. i < f_id f) fs)"
  have fs: "fs = take k L"
    by (simp add: assms(3) list_pending_by_job_after_id_def L_def paged_def Let_def)
  have L: "f \<in> set L \<longleftrightarrow> f \<in> set (files_of job_id db) \<and> f_status f = FPENDING \<and> \<not> below c (f_id f)" for f
    by (auto simp: L_def below_def Let_def split: option.splits)
  have sorted: "sorted (map f_id L)"
    by (cases c) (auto simp: L_def Let_def intro: sorted_filter)
  have "inj_on f_id (set (files db))" using assms(1) by (simp add: pk_ok_def distinct_map)
  then have "inj_on f_id (set L)" by (rule inj_on_subset) (auto simp: L files_of_def)
  moreover have "distinct L"
    using assms(1) by (cases c) (auto simp: L_def Let_def pk_ok_def distinct_map files_of_def)
  ultimately have dist: "distinct (map f_id L)" by (simp add: distinct_map)
  then show "distinct (map f_id fs)" unfolding fs take_map [symmetric] by (rule distinct_take)
  show "job_file job_id db (f_id f) \<and> \<not> below c (f_id f) \<and> f_id f \<le> f_id (last fs)" if mem: "f \<in> set fs"
  proof -
    have f: "f \<in> set L" using mem fs by (meson in_set_takeD)
    obtain n where n: "n < length fs" "fs ! n = f" using mem by (auto simp: in_set_conv_nth)
    have "sorted (map f_id fs)" unfolding fs take_map [symmetric] by (rule sorted_wrt_take [OF sorted])
    then have "map f_id fs ! n \<le> map f_id fs ! (length fs - 1)"
      using n(1) by (intro sorted_nth_mono) auto
    moreover have "fs \<noteq> []" using mem by auto
    ultimately have "f_id f \<le> f_id (last fs)" using n by (simp add: last_conv_nth)
    with f L pending_job_file [OF assms(1), of f job_id] show ?thesis by simp
  qed
  show "fs \<noteq> [] \<and> (i \<le> f_id (last fs) \<longrightarrow> i \<in> f_id ` set fs)"
    if i: "file_pending db i" "job_file job_id db i" "\<not> below c i"
  proof -
    obtain f where f: "f \<in> set (files db)" "f_id f = i"
      using i(2) by (auto simp: job_file_def file_keys_def)
    have "f \<in> set L" using pending_job_file [OF assms(1), of f job_id] f i L by simp
    then have ne: "fs \<noteq> []" and iL: "i \<in> set (map f_id L)" using fs f(2) assms(2) by auto
    have "i \<in> set (take k (map f_id L))" if "i \<le> last (take k (map f_id L))"
      using sorted _ iL that by (rule last_take_maximal) (use ne fs in auto)
    then show ?thesis using ne by (simp add: fs take_map last_map)
  qed
qed

section \<open>The invariant\<close>

definition attempts_logged :: "scheduler \<Rightarrow> int \<Rightarrow> nat \<Rightarrow> bool" where
  "attempts_logged s i k \<longleftrightarrow> (\<forall>m. (i, m) \<in> set (sc_log s) \<longleftrightarrow> m < k)"

definition in_flight :: "scheduler \<Rightarrow> int list" where
  "in_flight s = map (fst \<circ> fst) (sc_futures s)"

definition waiting :: "scheduler \<Rightarrow> int list" where
  "waiting s = map dr_file_id (sc_deferred s)"

definition future_ok :: "nat \<Rightarrow> int \<times> nat \<Rightarrow> future \<Rightarrow> bool" where
  "future_ok max_retries x ft =
     (case ft of
        Claimed f a \<Rightarrow> f_id f = fst x
      | Completed_with ao \<Rightarrow>
          (case ao_deferred_retry ao of None \<Rightarrow> True
           | Some d \<Rightarrow> dr_file_id d = fst x \<and> dr_attempt d = Suc (snd x) \<and> snd x < max_retries)
      | _ \<Rightarrow> True)"

text \<open>Every file of the job is at one place at a time: still to load (above the cursor), in the buffer, in
  flight, waiting for its retry, or finished; and the log of submissions holds the attempts before that.\<close>

definition sched_places :: "int \<Rightarrow> scheduler \<Rightarrow> bool" where
  "sched_places job_id s \<longleftrightarrow>
     pk_ok f_id (files (sc_db s)) \<and> distinct (in_flight s @ waiting s @ sc_buffer s) \<and>
     (\<forall>i \<in> set (in_flight s @ waiting s @ sc_buffer s) \<union> fst ` set (sc_log s).
        job_file job_id (sc_db s) i \<and> below (sc_cursor s) i)"

definition sched_log :: "nat \<Rightarrow> scheduler \<Rightarrow> bool" where
  "sched_log max_retries s \<longleftrightarrow>
     distinct (sc_log s) \<and> (\<forall>(i, n) \<in> set (sc_log s). n \<le> max_retries \<and> (\<forall>m < n. (i, m) \<in> set (sc_log s))) \<and>
     (\<forall>(x, ft) \<in> set (sc_futures s). snd x \<le> max_retries \<and> attempts_logged s (fst x) (Suc (snd x)) \<and> future_ok max_retries x ft) \<and>
     (\<forall>d \<in> set (sc_deferred s). dr_attempt d \<le> max_retries \<and> attempts_logged s (dr_file_id d) (dr_attempt d)) \<and>
     (\<forall>i \<in> set (sc_buffer s). attempts_logged s i 0)"

definition sched_complete :: "int \<Rightarrow> scheduler \<Rightarrow> bool" where
  "sched_complete job_id s \<longleftrightarrow>
     (\<forall>i. file_pending (sc_db s) i \<and> job_file job_id (sc_db s) i \<and> below (sc_cursor s) i \<longrightarrow>
        i \<in> set (sc_buffer s) \<union> fst ` set (sc_log s)) \<and>
     (sc_exhausted s \<longrightarrow> (\<forall>i. file_pending (sc_db s) i \<and> job_file job_id (sc_db s) i \<longrightarrow> below (sc_cursor s) i))"

definition scheduler_ok :: "nat \<Rightarrow> int \<Rightarrow> scheduler \<Rightarrow> bool" where
  "scheduler_ok max_retries job_id s \<longleftrightarrow> sched_places job_id s \<and> sched_log max_retries s \<and> sched_complete job_id s"

lemmas sched_defs = scheduler_ok_def sched_places_def sched_log_def sched_complete_def attempts_logged_def
  in_flight_def waiting_def

lemma scheduler_ok_start: "pk_ok f_id (files db) \<Longrightarrow> scheduler_ok k job_id (scheduler_start n db)"
  by (simp add: sched_defs scheduler_start_def below_def)

text \<open>The control state is not part of it.\<close>

lemma scheduler_ok_control [simp]:
  "scheduler_ok k job_id (s\<lparr>sc_pause := b\<rparr>) = scheduler_ok k job_id s"
  "scheduler_ok k job_id (s\<lparr>sc_stale := b\<rparr>) = scheduler_ok k job_id s"
  "scheduler_ok k job_id (s\<lparr>sc_target_full := b\<rparr>) = scheduler_ok k job_id s"
  "scheduler_ok k job_id (s\<lparr>sc_workers := n\<rparr>) = scheduler_ok k job_id s"
  "scheduler_ok k job_id (s\<lparr>sc_progress := q\<rparr>) = scheduler_ok k job_id s"
  by (simp_all add: sched_defs)

lemma scheduler_ok_handle [simp]:
  "scheduler_ok k job_id (handle_worker_completion job_id t b s) = scheduler_ok k job_id s"
  by (simp add: handle_worker_completion_def split: option.splits)

lemma scheduler_ok_poll [simp]:
  "scheduler_ok k job_id (poll_runtime_control_state st job_id t s) = scheduler_ok k job_id s"
  by (simp add: poll_runtime_control_state_def split: option.splits)

text \<open>A change of the database that keeps the keys and makes no file pending that was not submitted before.\<close>

lemma scheduler_ok_db:
  assumes "scheduler_ok k job_id s" "file_keys db' = file_keys (sc_db s)"
    and "\<And>i. file_pending db' i \<Longrightarrow> file_pending (sc_db s) i \<or> i \<in> fst ` set (sc_log s)"
  shows "scheduler_ok k job_id (s\<lparr>sc_db := db'\<rparr>)"
proof -
  have pk: "pk_ok f_id (files db) = distinct (map fst (file_keys db))" for db
    by (simp add: pk_ok_def file_keys_def comp_def)
  have "sched_places job_id (s\<lparr>sc_db := db'\<rparr>)"
    using assms(1,2) by (simp add: scheduler_ok_def sched_places_def pk job_file_def in_flight_def waiting_def)
  moreover have "sched_log k (s\<lparr>sc_db := db'\<rparr>)"
    using assms(1) by (simp add: scheduler_ok_def sched_log_def attempts_logged_def)
  moreover have "sched_complete job_id (s\<lparr>sc_db := db'\<rparr>)"
  proof -
    have jf: "job_file job_id db' i = job_file job_id (sc_db s) i" for i by (simp add: job_file_def assms(2))
    have log: "i \<in> fst ` set (sc_log s) \<Longrightarrow> below (sc_cursor s) i" for i
      using assms(1) unfolding scheduler_ok_def sched_places_def by blast
    from assms(1) have "sched_complete job_id s" by (simp add: scheduler_ok_def)
    then show ?thesis
      unfolding sched_complete_def using assms(3) log by (simp add: jf) blast
  qed
  ultimately show ?thesis by (simp add: scheduler_ok_def)
qed

text \<open>Futures change their state, or leave.\<close>

lemma set_future_keys: "map fst (sc_futures (set_future x ft s)) = map fst (sc_futures s)"
  by (simp add: set_future_def comp_def split_def if_distrib cong: if_cong)

lemma set_future_other [simp]:
  "sc_db (set_future x ft s) = sc_db s" "sc_log (set_future x ft s) = sc_log s"
  "sc_buffer (set_future x ft s) = sc_buffer s" "sc_deferred (set_future x ft s) = sc_deferred s"
  "sc_cursor (set_future x ft s) = sc_cursor s" "sc_exhausted (set_future x ft s) = sc_exhausted s"
  by (simp_all add: set_future_def)

lemma set_future_mem:
  "(y, g) \<in> set (sc_futures (set_future x ft s)) \<Longrightarrow> \<exists>h. (y, h) \<in> set (sc_futures s) \<and> g = (if y = x then ft else h)"
  by (auto simp: set_future_def split: if_splits)

lemma scheduler_ok_set_future:
  assumes "scheduler_ok k job_id s" "future_ok k x ft"
  shows "scheduler_ok k job_id (set_future x ft s)"
proof -
  have fl: "in_flight (set_future x ft s) = in_flight s"
    using arg_cong [OF set_future_keys [of x ft s], of "map fst"] by (simp add: in_flight_def)
  have wt: "waiting (set_future x ft s) = waiting s" by (simp add: waiting_def)
  have lg: "attempts_logged (set_future x ft s) i m = attempts_logged s i m" for i m
    by (simp add: attempts_logged_def)
  have "sched_places job_id (set_future x ft s)" "sched_complete job_id (set_future x ft s)"
    using assms(1) unfolding scheduler_ok_def sched_places_def sched_complete_def fl wt set_future_other by blast+
  moreover have "\<forall>(y, g) \<in> set (sc_futures (set_future x ft s)).
      snd y \<le> k \<and> attempts_logged s (fst y) (Suc (snd y)) \<and> future_ok k y g"
  proof (rule ballI, clarify del: conjI)
    fix i n g assume "((i, n), g) \<in> set (sc_futures (set_future x ft s))"
    then obtain h where h: "((i, n), h) \<in> set (sc_futures s)" "g = (if (i, n) = x then ft else h)"
      by (blast dest: set_future_mem)
    from assms(1) have "\<forall>(x, ft) \<in> set (sc_futures s). snd x \<le> k \<and> attempts_logged s (fst x) (Suc (snd x)) \<and> future_ok k x ft"
      by (simp add: scheduler_ok_def sched_log_def)
    from bspec [OF this h(1)] have "n \<le> k \<and> attempts_logged s i (Suc n) \<and> future_ok k (i, n) h" by simp
    with h(2) assms(2) show "snd (i, n) \<le> k \<and> attempts_logged s (fst (i, n)) (Suc (snd (i, n))) \<and> future_ok k (i, n) g"
      by simp
  qed
  ultimately show ?thesis
    using assms(1) unfolding scheduler_ok_def sched_log_def lg set_future_other by blast
qed

lemma scheduler_ok_drop_futures:
  assumes "scheduler_ok k job_id s"
  shows "scheduler_ok k job_id (s\<lparr>sc_futures := filter P (sc_futures s)\<rparr>)"
proof -
  let ?s = "s\<lparr>sc_futures := filter P (sc_futures s)\<rparr>"
  have "set (in_flight ?s) \<subseteq> set (in_flight s)" "distinct (in_flight s) \<Longrightarrow> distinct (in_flight ?s)"
    by (auto simp: in_flight_def distinct_map_filter)
  with assms have "sched_places job_id ?s"
    by (auto simp: scheduler_ok_def sched_places_def waiting_def)
  moreover have "sched_log k ?s" using assms by (auto simp: scheduler_ok_def sched_log_def attempts_logged_def)
  moreover have "sched_complete job_id ?s" using assms by (simp add: scheduler_ok_def sched_complete_def)
  ultimately show ?thesis by (simp add: scheduler_ok_def)
qed

text \<open>A finished attempt that asks for a retry joins the heap.\<close>

lemma scheduler_ok_defer:
  assumes "scheduler_ok k job_id s" "attempts_logged s (dr_file_id d) (dr_attempt d)" "dr_attempt d \<le> k"
    and "dr_file_id d \<in> fst ` set (sc_log s)" "dr_file_id d \<notin> set (in_flight s @ waiting s @ sc_buffer s)"
  shows "scheduler_ok k job_id (s\<lparr>sc_deferred := insort_key retry_key d (sc_deferred s)\<rparr>)"
proof -
  let ?s = "s\<lparr>sc_deferred := insort_key retry_key d (sc_deferred s)\<rparr>"
  have "distinct (map dr_file_id (insort_key retry_key d ds)) \<longleftrightarrow>
      dr_file_id d \<notin> dr_file_id ` set ds \<and> distinct (map dr_file_id ds)" for ds
    by (induction ds) (auto simp: set_insort_key)
  then have "set (waiting ?s) = insert (dr_file_id d) (set (waiting s))"
    "distinct (waiting ?s) \<longleftrightarrow> dr_file_id d \<notin> set (waiting s) \<and> distinct (waiting s)"
    by (auto simp: waiting_def set_insort_key)
  moreover have "in_flight ?s = in_flight s" by (simp add: in_flight_def)
  moreover have "job_file job_id (sc_db s) (dr_file_id d) \<and> below (sc_cursor s) (dr_file_id d)"
    using assms(1,4) unfolding scheduler_ok_def sched_places_def by blast
  ultimately have "sched_places job_id ?s"
    using assms(1,5) by (auto simp: scheduler_ok_def sched_places_def)
  moreover have "sched_log k ?s"
    using assms(1-3) by (auto simp: scheduler_ok_def sched_log_def attempts_logged_def set_insort_key)
  moreover have "sched_complete job_id ?s" using assms(1) by (simp add: scheduler_ok_def sched_complete_def)
  ultimately show ?thesis by (simp add: scheduler_ok_def)
qed

lemma map_of_future_unique:
  assumes "distinct (in_flight s)" "map_of (sc_futures s) x = Some ft"
  shows "fst x \<notin> fst ` fst ` set (filter (\<lambda>(y, g). y \<noteq> x) (sc_futures s))"
proof
  assume "fst x \<in> fst ` fst ` set (filter (\<lambda>(y, g). y \<noteq> x) (sc_futures s))"
  then obtain y g where y: "(y, g) \<in> set (sc_futures s)" "y \<noteq> x" "fst y = fst x" by auto
  have mem: "(x, ft) \<in> set (sc_futures s)" using assms(2) by (rule map_of_SomeD)
  have inj: "inj_on (fst \<circ> fst) (set (sc_futures s))" using assms(1) by (simp add: in_flight_def distinct_map)
  from inj_onD [OF inj _ y(1) mem] y(3) have "(y, g) = (x, ft)" by simp
  with y(2) show False by simp
qed

lemma scheduler_ok_collect:
  assumes ok: "scheduler_ok k job_id s" and ft: "map_of (sc_futures s) x = Some ft"
  shows "scheduler_ok k job_id (collect_future x s)"
proof -
  let ?s = "s\<lparr>sc_futures := filter (\<lambda>(y, g). y \<noteq> x) (sc_futures s)\<rparr>"
  have okf: "scheduler_ok k job_id ?s" using ok by (rule scheduler_ok_drop_futures)
  show ?thesis
  proof (cases "\<exists>ao d. ft = Completed_with ao \<and> ao_deferred_retry ao = Some d")
    case False
    then have "collect_future x s = ?s"
      using ft by (auto simp: collect_future_def Let_def split: future.splits option.splits)
    with okf show ?thesis by simp
  next
    case True
    then obtain ao d where d: "ft = Completed_with ao" "ao_deferred_retry ao = Some d" by blast
    have eq: "collect_future x s = ?s\<lparr>sc_deferred := insort_key retry_key d (sc_deferred ?s)\<rparr>"
      using ft d by (simp add: collect_future_def)
    have mem: "(x, ft) \<in> set (sc_futures s)" using ft by (rule map_of_SomeD)
    have "\<forall>(x, ft) \<in> set (sc_futures s). snd x \<le> k \<and> attempts_logged s (fst x) (Suc (snd x)) \<and> future_ok k x ft"
      using ok by (simp add: scheduler_ok_def sched_log_def)
    from bspec [OF this mem] d
    have l: "attempts_logged s (fst x) (Suc (snd x))" and fo: "dr_file_id d = fst x" "dr_attempt d = Suc (snd x)" "snd x < k"
      by (simp_all add: future_ok_def)
    have places: "distinct (in_flight s @ waiting s @ sc_buffer s)"
      using ok by (simp add: scheduler_ok_def sched_places_def)
    have "fst x \<in> set (in_flight s)" using mem by (force simp: in_flight_def)
    with places map_of_future_unique [OF _ ft]
    have "fst x \<notin> set (in_flight ?s @ waiting ?s @ sc_buffer ?s)"
      by (auto simp: in_flight_def waiting_def image_comp)
    moreover have "(fst x, snd x) \<in> set (sc_log s)" using l unfolding attempts_logged_def by blast
    then have "fst x \<in> fst ` set (sc_log ?s)" by force
    moreover have "attempts_logged ?s (fst x) (Suc (snd x))" using l by (simp add: attempts_logged_def)
    ultimately show ?thesis unfolding eq using fo by (intro scheduler_ok_defer [OF okf]) simp_all
  qed
qed

lemma collect_future_map_of:
  assumes "y \<noteq> x"
  shows "map_of (sc_futures (collect_future x s)) y = map_of (sc_futures s) y"
proof -
  have "map_of (filter (\<lambda>(y, g). y \<noteq> x) fs) y = map_of fs y" for fs :: "((int \<times> nat) \<times> future) list"
    using assms by (induction fs) auto
  then show ?thesis by (simp add: collect_future_def Let_def)
qed

lemma scheduler_ok_collect_all:
  assumes "scheduler_ok k job_id s" "distinct xs" "\<forall>x \<in> set xs. map_of (sc_futures s) x \<noteq> None"
  shows "scheduler_ok k job_id (foldl (\<lambda>s x. collect_future x s) s xs)"
  using assms
proof (induction xs arbitrary: s)
  case (Cons x xs)
  then obtain ft where "map_of (sc_futures s) x = Some ft" by auto
  with Cons.prems(1) have "scheduler_ok k job_id (collect_future x s)" by (rule scheduler_ok_collect)
  moreover have "\<forall>y \<in> set xs. map_of (sc_futures (collect_future x s)) y \<noteq> None"
    using Cons.prems(2,3) by (metis collect_future_map_of distinct.simps(2) list.set_intros(2))
  ultimately show ?case using Cons.IH Cons.prems(2) by simp
qed simp

text \<open>Submitting an attempt of a file that was waiting or buffered.\<close>

lemma scheduler_ok_submit:
  assumes ok: "sched_places job_id s" "sched_log k s" and complete: "sched_complete job_id (submit (i, n) s)" and logged: "attempts_logged s i n" "n \<le> k"
    and free: "i \<notin> set (in_flight s @ waiting s @ sc_buffer s)"
    and known: "job_file job_id (sc_db s) i" "below (sc_cursor s) i"
  shows "scheduler_ok k job_id (submit (i, n) s)"
proof -
  let ?s = "submit (i, n) s"
  have fr: "in_flight ?s = in_flight s @ [i]" "waiting ?s = waiting s" "sc_buffer ?s = sc_buffer s"
    "sc_log ?s = sc_log s @ [(i, n)]" "sc_cursor ?s = sc_cursor s" "sc_db ?s = sc_db s" "sc_exhausted ?s = sc_exhausted s"
    "sc_deferred ?s = sc_deferred s" "sc_futures ?s = sc_futures s @ [((i, n), Submitted)]"
    by (simp_all add: submit_def in_flight_def waiting_def)
  have places: "sched_places job_id ?s"
    using ok(1) free known by (auto simp: sched_places_def fr)
  have logi: "(i, m) \<in> set (sc_log s) \<longleftrightarrow> m < n" for m using logged(1) by (simp add: attempts_logged_def)
  have at_i: "attempts_logged ?s i (Suc n)" unfolding attempts_logged_def fr using logi less_Suc_eq by auto
  have at: "attempts_logged ?s l m = attempts_logged s l m" if "l \<noteq> i" for l m
    using that by (simp add: attempts_logged_def fr)
  from ok(2) have lg: "distinct (sc_log s)" "\<forall>(i, n) \<in> set (sc_log s). n \<le> k \<and> (\<forall>m < n. (i, m) \<in> set (sc_log s))"
    and fu: "\<forall>(x, ft) \<in> set (sc_futures s). snd x \<le> k \<and> attempts_logged s (fst x) (Suc (snd x)) \<and> future_ok k x ft"
    and de: "\<forall>d \<in> set (sc_deferred s). dr_attempt d \<le> k \<and> attempts_logged s (dr_file_id d) (dr_attempt d)"
    and bu: "\<forall>i \<in> set (sc_buffer s). attempts_logged s i 0"
    by (simp_all add: sched_log_def)
  have "distinct (sc_log ?s)" using lg(1) logi by (simp add: fr)
  moreover have "\<forall>(i, n) \<in> set (sc_log ?s). n \<le> k \<and> (\<forall>m < n. (i, m) \<in> set (sc_log ?s))"
    using lg(2) logi logged(2) by (fastforce simp: fr)
  moreover have "\<forall>(x, ft) \<in> set (sc_futures ?s). snd x \<le> k \<and> attempts_logged ?s (fst x) (Suc (snd x)) \<and> future_ok k x ft"
  proof (rule ballI, unfold split_def)
    fix z assume z: "z \<in> set (sc_futures ?s)"
    show "snd (fst z) \<le> k \<and> attempts_logged ?s (fst (fst z)) (Suc (snd (fst z))) \<and> future_ok k (fst z) (snd z)"
    proof (cases "z \<in> set (sc_futures s)")
      case True
      then have "fst (fst z) \<in> set (in_flight s)" by (force simp: in_flight_def)
      then have "fst (fst z) \<noteq> i" using free by auto
      with bspec [OF fu True] at show ?thesis by (simp add: split_def)
    next
      case False
      with z logged(2) at_i show ?thesis by (simp add: fr future_ok_def)
    qed
  qed
  moreover have "\<forall>d \<in> set (sc_deferred ?s). dr_attempt d \<le> k \<and> attempts_logged ?s (dr_file_id d) (dr_attempt d)"
  proof
    fix d assume d: "d \<in> set (sc_deferred ?s)"
    then have "dr_file_id d \<noteq> i" using free by (auto simp: fr waiting_def)
    with d de at show "dr_attempt d \<le> k \<and> attempts_logged ?s (dr_file_id d) (dr_attempt d)" by (simp add: fr)
  qed
  moreover have "\<forall>l \<in> set (sc_buffer ?s). attempts_logged ?s l 0"
  proof
    fix l assume l: "l \<in> set (sc_buffer ?s)"
    then have "l \<noteq> i" using free by (auto simp: fr)
    with l bu at show "attempts_logged ?s l 0" by (simp add: fr)
  qed
  ultimately have "sched_log k ?s" unfolding sched_log_def by blast
  then show ?thesis using places complete by (simp add: scheduler_ok_def)
qed

lemma scheduler_ok_submit_retry:
  assumes ok: "scheduler_ok k job_id s" and d: "sc_deferred s = d # ds"
  shows "scheduler_ok k job_id (submit (dr_file_id d, dr_attempt d) (s\<lparr>sc_deferred := ds\<rparr>))"
proof (rule scheduler_ok_submit)
  let ?s = "s\<lparr>sc_deferred := ds\<rparr>"
  have places: "sched_places job_id s" and log: "sched_log k s" and complete: "sched_complete job_id s"
    using ok by (simp_all add: scheduler_ok_def)
  show "sched_places job_id ?s" using places by (auto simp: sched_places_def in_flight_def waiting_def d)
  show "sched_log k ?s" using log by (auto simp: sched_log_def attempts_logged_def d)
  show "sched_complete job_id (submit (dr_file_id d, dr_attempt d) ?s)"
  proof -
    have fr: "sc_db (submit x ?s) = sc_db s" "sc_cursor (submit x ?s) = sc_cursor s" "sc_buffer (submit x ?s) = sc_buffer s"
      "sc_exhausted (submit x ?s) = sc_exhausted s" "fst ` set (sc_log (submit x ?s)) = insert (fst x) (fst ` set (sc_log s))" for x
      by (simp_all add: submit_def)
    show ?thesis using complete unfolding sched_complete_def fr by blast
  qed
  show "attempts_logged ?s (dr_file_id d) (dr_attempt d)" "dr_attempt d \<le> k"
    using log by (simp_all add: sched_log_def attempts_logged_def d)
  show "dr_file_id d \<notin> set (in_flight ?s @ waiting ?s @ sc_buffer ?s)"
    "job_file job_id (sc_db ?s) (dr_file_id d)" "below (sc_cursor ?s) (dr_file_id d)"
    using places by (auto simp: sched_places_def in_flight_def waiting_def d)
qed

lemma scheduler_ok_submit_pending:
  assumes ok: "scheduler_ok k job_id s" and i: "sc_buffer s = i # is"
  shows "scheduler_ok k job_id (submit (i, 0) (s\<lparr>sc_buffer := is\<rparr>))"
proof (rule scheduler_ok_submit)
  let ?s = "s\<lparr>sc_buffer := is\<rparr>"
  have places: "sched_places job_id s" and log: "sched_log k s" and complete: "sched_complete job_id s"
    using ok by (simp_all add: scheduler_ok_def)
  show "sched_places job_id ?s" using places by (auto simp: sched_places_def in_flight_def waiting_def i)
  show "sched_log k ?s" using log by (auto simp: sched_log_def attempts_logged_def i)
  show "sched_complete job_id (submit (i, 0) ?s)"
  proof -
    have fr: "sc_db (submit (i, 0) ?s) = sc_db s" "sc_cursor (submit (i, 0) ?s) = sc_cursor s"
      "sc_exhausted (submit (i, 0) ?s) = sc_exhausted s" 
      "set (sc_buffer (submit (i, 0) ?s)) \<union> fst ` set (sc_log (submit (i, 0) ?s)) = set (sc_buffer s) \<union> fst ` set (sc_log s)"
      using i by (auto simp: submit_def)
    show ?thesis using complete unfolding sched_complete_def fr by blast
  qed
  show "attempts_logged ?s i 0" "0 \<le> k"
    using log by (simp_all add: sched_log_def attempts_logged_def i)
  show "i \<notin> set (in_flight ?s @ waiting ?s @ sc_buffer ?s)"
    "job_file job_id (sc_db ?s) i" "below (sc_cursor ?s) i"
    using places by (auto simp: sched_places_def in_flight_def waiting_def i)
qed

lemma scheduler_ok_load:
  assumes ok: "scheduler_ok k job_id s" and empty: "sc_buffer s = []"
  shows "scheduler_ok k job_id (load_pending_buffer job_id s)"
proof -
  define fs where "fs = list_pending_by_job_after_id job_id (sc_cursor s) (Some (batch_limit s)) (sc_db s)"
  have pk: "pk_ok f_id (files (sc_db s))" using ok by (simp add: scheduler_ok_def sched_places_def)
  have "0 < batch_limit s" by (simp add: batch_limit_def)
  note batch = pending_batch [OF pk this fs_def]
  show ?thesis
  proof (cases "fs = []")
    case True
    have "\<forall>i. file_pending (sc_db s) i \<and> job_file job_id (sc_db s) i \<longrightarrow> below (sc_cursor s) i"
      using batch(3) True by blast
    moreover have fr: "sc_db (s\<lparr>sc_exhausted := True\<rparr>) = sc_db s" "sc_cursor (s\<lparr>sc_exhausted := True\<rparr>) = sc_cursor s"
      "sc_buffer (s\<lparr>sc_exhausted := True\<rparr>) = sc_buffer s" "sc_log (s\<lparr>sc_exhausted := True\<rparr>) = sc_log s"
      by simp_all
    ultimately have "sched_complete job_id (s\<lparr>sc_exhausted := True\<rparr>)"
      using ok unfolding scheduler_ok_def sched_complete_def fr by blast
    moreover have "sched_places job_id (s\<lparr>sc_exhausted := True\<rparr>) = sched_places job_id s"
      "sched_log k (s\<lparr>sc_exhausted := True\<rparr>) = sched_log k s"
      by (simp_all add: sched_places_def sched_log_def in_flight_def waiting_def attempts_logged_def)
    moreover have "load_pending_buffer job_id s = s\<lparr>sc_exhausted := True\<rparr>"
      using True by (simp add: load_pending_buffer_def fs_def [symmetric])
    ultimately show ?thesis using ok by (simp add: scheduler_ok_def)
  next
    case False
    define c where "c = f_id (last fs)"
    let ?s = "s\<lparr>sc_cursor := Some c, sc_buffer := map f_id fs\<rparr>"
    have eq: "load_pending_buffer job_id s = ?s"
      using False empty by (simp add: load_pending_buffer_def fs_def [symmetric] c_def)
    have "last fs \<in> set fs" using False by simp
    then have c: "\<not> below (sc_cursor s) c" using batch(2) by (simp add: c_def)
    then have mono: "below (sc_cursor s) i \<Longrightarrow> below (Some c) i" for i
      by (auto simp: below_def split: option.splits)
    have old: "below (sc_cursor s) i" if "i \<in> set (in_flight s @ waiting s) \<union> fst ` set (sc_log s)" for i
      using ok that unfolding scheduler_ok_def sched_places_def by auto
    have new: "job_file job_id (sc_db s) i \<and> below (Some c) i \<and> \<not> below (sc_cursor s) i" if "i \<in> f_id ` set fs" for i
      using batch(2) that by (auto simp: below_def c_def)
    have "in_flight ?s = in_flight s" "waiting ?s = waiting s" by (simp_all add: in_flight_def waiting_def)
    then have "sched_places job_id ?s"
      using ok empty batch(1) old new mono unfolding scheduler_ok_def sched_places_def by (simp add: c_def) blast
    moreover have "attempts_logged ?s i 0" if "i \<in> f_id ` set fs" for i
    proof -
      have "i \<notin> fst ` set (sc_log s)" using new [OF that] old [of i] by auto
      then show ?thesis by (force simp: attempts_logged_def)
    qed
    then have "sched_log k ?s" using ok by (auto simp: scheduler_ok_def sched_log_def attempts_logged_def)
    moreover have "sched_complete job_id ?s"
    proof -
      have "i \<in> f_id ` set fs \<union> fst ` set (sc_log s)"
        if "file_pending (sc_db s) i" "job_file job_id (sc_db s) i" "below (Some c) i" for i
      proof (cases "below (sc_cursor s) i")
        case True
        with ok empty that show ?thesis unfolding scheduler_ok_def sched_complete_def by auto
      next
        case False
        with batch(3) [of i] that show ?thesis by (simp add: below_def c_def)
      qed
      moreover have "sc_exhausted s \<Longrightarrow> file_pending (sc_db s) i \<Longrightarrow> job_file job_id (sc_db s) i \<Longrightarrow> below (Some c) i" for i
        using ok mono unfolding scheduler_ok_def sched_complete_def by blast
      ultimately show ?thesis unfolding sched_complete_def by auto
    qed
    ultimately show ?thesis unfolding eq by (simp add: scheduler_ok_def)
  qed
qed

section \<open>The invariant holds in every reachable state\<close>

lemma only_file_pending:
  "only_file i db db' \<Longrightarrow> file_keys db' = file_keys db \<and> (\<forall>k. k \<noteq> i \<longrightarrow> file_pending db' k = file_pending db k)"
  by (simp add: only_file_def file_pending_def)

lemma claim_file_pending:
  assumes "claim_file e race i n db = (db', c)" "\<And>db. others_ok db (race db)"
  shows "file_keys db' = file_keys db \<and> (\<forall>k. k \<noteq> i \<longrightarrow> file_pending db' k \<longrightarrow> file_pending db k)"
proof -
  have "only_file i db db' \<or> only_file i (race db) db'"
  proof (cases c)
    case None
    with assms(1) claim_file_None show ?thesis by blast
  next
    case (Some fa)
    obtain f a where "fa = (f, a)" by (cases fa)
    with assms(1) Some have "claim_file e race i n db = (db', Some (f, a))" by simp
    from claim_file_Some [OF this] show ?thesis by blast
  qed
  then show ?thesis
    using assms(2) [of db] by (auto dest!: only_file_pending simp: others_ok_def)
qed

lemma finish_attempt_writer:
  assumes "wa_use_writer args"
    and "finish_attempt e st (args\<lparr>wa_now := now\<rparr>) f a n r
      (foldl (report_progress e st args (f_job_id f) a) (attempt_start db) ns) = (q, db', ao)"
  shows "only_file (f_id f) db db' \<and> future_ok (wa_max_retries args) (f_id f, n) (Completed_with ao)"
proof -
  let ?args = "args\<lparr>wa_now := now\<rparr>"
  let ?p = "foldl (report_progress e st args (f_job_id f) a) (attempt_start db) ns"
  let ?q = "flush_progress e st ?args (f_job_id f) a True ?p"
  have w: "wa_use_writer ?args" using assms(1) by simp
  from report_writer [OF assms(1), of "attempt_start db" e st "f_job_id f" a ns]
  have p: "ap_db ?p = db" "delta_sum (ap_queue ?p) = ap_reported ?p" "0 \<le> ap_pending ?p"
    by (simp_all add: attempt_start_def Let_def)
  from flush_forced_writer [OF w p(3,2)] p(1)
  have fl: "ap_db ?q = db" "delta_sum (ap_queue ?q) = ap_reported ?q" by (simp_all add: Let_def)
  show ?thesis
  proof (cases r)
    case (Copied h)
    with assms(2) have "finish_success e ?args f a h ?p = (q, db', ao)" by (simp add: finish_attempt_def)
    from finish_success_writer [OF w this p(3,2)] p(1) show ?thesis by (simp add: future_ok_def no_outcome_def)
  next
    case Copy_timed_out
    with assms(2) have "finish_timeout e ?args f a ?q = (q, db', ao)" by (simp add: finish_attempt_def)
    from finish_timeout_writer [OF w this fl(2)] fl(1) show ?thesis by (simp add: future_ok_def no_outcome_def)
  next
    case (Copy_failed err)
    with assms(2) have "finish_failure e ?args f a n err ?q = (q, db', ao)" by (simp add: finish_attempt_def)
    from finish_failure_writer [OF w this fl(2)] fl(1) show ?thesis
      by (auto simp: future_ok_def split: option.splits)
  qed
qed

lemma future_logged:
  assumes "scheduler_ok k job_id s" "map_of (sc_futures s) (i, n) = Some ft"
  shows "i \<in> fst ` set (sc_log s) \<and> future_ok k (i, n) ft"
proof -
  have "\<forall>(x, ft) \<in> set (sc_futures s). snd x \<le> k \<and> attempts_logged s (fst x) (Suc (snd x)) \<and> future_ok k x ft"
    using assms(1) by (simp add: scheduler_ok_def sched_log_def)
  from bspec [OF this map_of_SomeD [OF assms(2)]]
  have "attempts_logged s i (Suc n)" "future_ok k (i, n) ft" by simp_all
  moreover from this(1) have "(i, n) \<in> set (sc_log s)" unfolding attempts_logged_def by blast
  ultimately show ?thesis by force
qed

text \<open>The transaction of a worker on its file.\<close>

lemma scheduler_ok_worker:
  assumes "scheduler_ok k job_id s" "map_of (sc_futures s) (i, n) = Some ft" "file_keys db' = file_keys (sc_db s)"
    and "\<And>l. l \<noteq> i \<Longrightarrow> file_pending db' l \<Longrightarrow> file_pending (sc_db s) l"
    and "future_ok k (i, n) ft'"
  shows "scheduler_ok k job_id (set_future (i, n) ft' (s\<lparr>sc_db := db', sc_progress := q\<rparr>))"
proof -
  have "i \<in> fst ` set (sc_log s)" using future_logged [OF assms(1,2)] by simp
  then have "file_pending db' l \<Longrightarrow> file_pending (sc_db s) l \<or> l \<in> fst ` set (sc_log s)" for l
    using assms(4) [of l] by (cases "l = i") simp_all
  from scheduler_ok_db [OF assms(1,3) this] have "scheduler_ok k job_id (s\<lparr>sc_db := db', sc_progress := q\<rparr>)"
    by simp
  then show ?thesis using assms(5) by (rule scheduler_ok_set_future)
qed

text \<open>
  What the scheduler relies on. A claim changes no other file and hands out the file that was asked for; the end of
  an attempt changes no other file and asks for a retry only of the same file, with the next attempt number,
  while attempts are left.
\<close>

locale file_worker =
  fixes claim :: "db \<Rightarrow> int \<Rightarrow> nat \<Rightarrow> db \<Rightarrow> (export_file \<times> int option) option \<Rightarrow> bool"
    and finish :: "db \<Rightarrow> export_file \<Rightarrow> nat \<Rightarrow> db \<Rightarrow> attempt_outcome \<Rightarrow> bool"
    and max_retries :: nat
  assumes claim_keys: "claim db i n db' c \<Longrightarrow> file_keys db' = file_keys db"
    and claim_pending: "claim db i n db' c \<Longrightarrow> k \<noteq> i \<Longrightarrow> file_pending db' k \<Longrightarrow> file_pending db k"
    and claim_same: "claim db i n db' (Some (f, a)) \<Longrightarrow> f_id f = i"
    and finish_keys: "finish db f n db' ao \<Longrightarrow> file_keys db' = file_keys db"
    and finish_pending: "finish db f n db' ao \<Longrightarrow> k \<noteq> f_id f \<Longrightarrow> file_pending db' k \<Longrightarrow> file_pending db k"
    and finish_retry: "finish db f n db' ao \<Longrightarrow> ao_deferred_retry ao = Some d \<Longrightarrow>
      dr_file_id d = f_id f \<and> dr_attempt d = Suc n \<and> n < max_retries"
begin

lemma claim_keeps_ok:
  assumes "scheduler_ok max_retries job_id s" "map_of (sc_futures s) (i, n) = Some ft" "claim (sc_db s) i n db' c"
  shows "scheduler_ok max_retries job_id
    (set_future (i, n) (case c of None \<Rightarrow> Completed_with no_outcome | Some (f, a) \<Rightarrow> Claimed f a) (s\<lparr>sc_db := db'\<rparr>))"
proof -
  have "future_ok max_retries (i, n) (case c of None \<Rightarrow> Completed_with no_outcome | Some (f, a) \<Rightarrow> Claimed f a)"
    using claim_same assms(3) by (auto simp: future_ok_def no_outcome_def split: option.splits)
  from scheduler_ok_worker [OF assms(1,2) claim_keys [OF assms(3)] claim_pending [OF assms(3)] this, of "sc_progress s"]
  show ?thesis by simp
qed

lemma finish_keeps_ok:
  assumes "scheduler_ok max_retries job_id s" "map_of (sc_futures s) (i, n) = Some (Claimed f a)" "finish (sc_db s) f n db' ao"
  shows "scheduler_ok max_retries job_id (set_future (i, n) (Completed_with ao) (s\<lparr>sc_db := db', sc_progress := q\<rparr>))"
proof -
  have f: "f_id f = i" using future_logged [OF assms(1,2)] by (simp add: future_ok_def)
  have "future_ok max_retries (i, n) (Completed_with ao)"
    using finish_retry [OF assms(3)] by (auto simp: future_ok_def f split: option.splits)
  from scheduler_ok_worker [OF assms(1,2) finish_keys [OF assms(3)] finish_pending [OF assms(3), unfolded f] this]
  show ?thesis .
qed

end

definition worker_claims :: "db \<Rightarrow> int \<Rightarrow> nat \<Rightarrow> db \<Rightarrow> (export_file \<times> int option) option \<Rightarrow> bool" where
  "worker_claims db i n db' c \<longleftrightarrow> (\<exists>e race. (\<forall>x. others_ok x (race x)) \<and> claim_file e race i n db = (db', c))"

definition worker_finishes :: "nat \<Rightarrow> db \<Rightarrow> export_file \<Rightarrow> nat \<Rightarrow> db \<Rightarrow> attempt_outcome \<Rightarrow> bool" where
  "worker_finishes max_retries db f n db' ao \<longleftrightarrow>
     (\<exists>e st args now a r ns q. wa_use_writer args \<and> wa_max_retries args = max_retries \<and>
        finish_attempt e st (args\<lparr>wa_now := now\<rparr>) f a n r
          (foldl (report_progress e st args (f_job_id f) a) (attempt_start db) ns) = (q, db', ao))"

interpretation worker: file_worker worker_claims "worker_finishes k" k for k
proof
  show "file_keys db' = file_keys db" if "worker_claims db i n db' c" for db i n db' c
    using that claim_file_pending unfolding worker_claims_def by blast
  show "file_pending db l" if "worker_claims db i n db' c" "l \<noteq> i" "file_pending db' l" for db i n db' c l
    using that claim_file_pending unfolding worker_claims_def by blast
  show "f_id f = i" if "worker_claims db i n db' (Some (f, a))" for db i n db' f a
    using that claim_file_Some unfolding worker_claims_def by blast
  have fin: "only_file (f_id f) db db' \<and> future_ok k (f_id f, n) (Completed_with ao)" if "worker_finishes k db f n db' ao" for db f n db' ao
    using that finish_attempt_writer unfolding worker_finishes_def by blast
  show "file_keys db' = file_keys db" if "worker_finishes k db f n db' ao" for db f n db' ao
    using fin [OF that] only_file_pending by blast
  show "file_pending db l" if "worker_finishes k db f n db' ao" "l \<noteq> f_id f" "file_pending db' l" for db f n db' ao l
    using fin [OF that(1)] only_file_pending that(2,3) by blast
  show "dr_file_id d = f_id f \<and> dr_attempt d = Suc n \<and> n < k"
    if "worker_finishes k db f n db' ao" "ao_deferred_retry ao = Some d" for db f n db' ao d
    using fin [OF that(1)] that(2) by (simp add: future_ok_def)
qed

lemma scheduler_step_ok:
  assumes "scheduler_step st args job_id t s s'" "wa_use_writer args" "scheduler_ok (wa_max_retries args) job_id s"
  shows "scheduler_ok (wa_max_retries args) job_id s'"
  using assms(1,3)
proof (cases rule: scheduler_step.cases)
  case (submit_retry d ds now)
  then show ?thesis using assms(3) scheduler_ok_submit_retry by simp
next
  case (submit_pending i "is")
  then show ?thesis using assms(3) scheduler_ok_submit_pending by simp
next
  case (claim i n race e db' c)
  have "worker_claims (sc_db s) i n db' c" using claim(3,4) unfolding worker_claims_def by blast
  from worker.claim_keeps_ok [OF assms(3) claim(2) this] claim(1) show ?thesis by simp
next
  case (finish i n f a e now r ns q db' ao)
  have "worker_finishes (wa_max_retries args) (sc_db s) f n db' ao"
    using finish(3) assms(2) unfolding worker_finishes_def by blast
  from worker.finish_keeps_ok [OF assms(3) finish(2) this] finish(1) show ?thesis by simp
next
  case (crash x ft)
  then show ?thesis using assms(3) by (auto intro!: scheduler_ok_set_future simp: future_ok_def)
next
  case (collect xs)
  have "\<forall>x \<in> set xs. map_of (sc_futures s) x \<noteq> None" using collect(5) by auto
  from scheduler_ok_collect_all [OF assms(3) collect(4) this] collect(1) show ?thesis by simp
next
  case (others db')
  then show ?thesis using assms(3) by (auto intro!: scheduler_ok_db simp: others_ok_def)
qed (simp_all add: scheduler_ok_load scheduler_ok_drop_futures)

lemma scheduler_db_frames:
  "sc_db (handle_worker_completion job_id t b s) = sc_db s"
  "sc_db (poll_runtime_control_state st job_id t s) = sc_db s"
  "sc_db (load_pending_buffer job_id s) = sc_db s" "sc_db (submit x s) = sc_db s" "sc_db (collect_future x s) = sc_db s"
  by (simp_all add: handle_worker_completion_def poll_runtime_control_state_def load_pending_buffer_def submit_def
      collect_future_def Let_def split: option.splits)

lemma scheduler_step_keys:
  assumes "scheduler_step st args job_id t s s'" "wa_use_writer args"
  shows "file_keys (sc_db s') = file_keys (sc_db s)"
  using assms(1)
proof (cases rule: scheduler_step.cases)
  case (claim i n race e db' c)
  with claim_file_pending [OF claim(4,3)] show ?thesis by simp
next
  case (finish i n f a e now r ns q db' ao)
  from finish_attempt_writer [OF assms(2) finish(3)] finish(1) show ?thesis by (auto dest: only_file_pending)
next
  case (collect xs)
  have "sc_db (foldl (\<lambda>s x. collect_future x s) s xs) = sc_db s"
    by (induction xs arbitrary: s) (simp_all add: scheduler_db_frames)
  with collect(1) show ?thesis by (simp add: scheduler_db_frames)
qed (simp_all add: scheduler_db_frames others_ok_def)

lemma scheduler_reachable_ok:
  assumes "scheduler_reachable st args job_id t db s" "wa_use_writer args" "pk_ok f_id (files db)"
  shows "scheduler_ok (wa_max_retries args) job_id s \<and> file_keys (sc_db s) = file_keys db"
  using assms(1)
proof induction
  case (start n)
  then show ?case using scheduler_ok_start [OF assms(3)] by (simp add: scheduler_start_def)
next
  case (step s s')
  then show ?case using scheduler_step_ok scheduler_step_keys assms(2) by metis
qed

text \<open>C5. The workers never meet on a file: in every reachable state of the scheduler, whatever the workers
  and other requests do in between, no file has two attempts in flight, none is in flight and waiting for a retry
  or a first attempt at the same time, and only files of the job are scheduled.\<close>

theorem scheduler_exclusive:
  assumes "scheduler_reachable st args job_id t db s" "wa_use_writer args" "pk_ok f_id (files db)"
  shows "distinct (in_flight s @ waiting s @ sc_buffer s) \<and>
    (\<forall>i \<in> set (in_flight s @ waiting s @ sc_buffer s). (i, job_id) \<in> set (file_keys db))"
  using scheduler_reachable_ok [OF assms] by (auto simp: scheduler_ok_def sched_places_def job_file_def)

text \<open>The scheduler does bounded work: on every execution each file of the job is attempted at most
  \<open>max_retries + 1\<close> times, with consecutive attempt numbers and no attempt submitted twice, so the number
  of submitted attempts never exceeds the number of files times that bound.\<close>

theorem scheduler_bounded:
  assumes "scheduler_reachable st args job_id t db s" "wa_use_writer args" "pk_ok f_id (files db)"
  shows "distinct (sc_log s) \<and>
    (\<forall>(i, n) \<in> set (sc_log s). n \<le> wa_max_retries args \<and> (\<forall>m < n. (i, m) \<in> set (sc_log s))) \<and>
    length (sc_log s) \<le> length (files_of job_id db) * Suc (wa_max_retries args)"
proof -
  let ?k = "wa_max_retries args"
  from scheduler_reachable_ok [OF assms] have keys: "file_keys (sc_db s) = file_keys db"
    and log: "distinct (sc_log s)" "\<forall>(i, n) \<in> set (sc_log s). n \<le> ?k \<and> (\<forall>m < n. (i, m) \<in> set (sc_log s))"
    and known: "\<forall>i \<in> fst ` set (sc_log s). job_file job_id (sc_db s) i"
    by (simp_all add: scheduler_ok_def sched_log_def sched_places_def)
  let ?ids = "f_id ` set (files_of job_id db)"
  have ids: "i \<in> ?ids" if "job_file job_id (sc_db s) i" for i
    using that unfolding job_file_def keys by (auto simp: file_keys_def files_of_def)
  have "set (sc_log s) \<subseteq> ?ids \<times> {..?k}"
  proof
    fix x assume x: "x \<in> set (sc_log s)"
    with known ids have "fst x \<in> ?ids" by blast
    moreover have "snd x \<le> ?k" using bspec [OF log(2) x] by (simp add: split_def)
    ultimately show "x \<in> ?ids \<times> {..?k}" by (simp add: mem_Times_iff)
  qed
  then have "card (set (sc_log s)) \<le> card (?ids \<times> {..?k})" by (intro card_mono) auto
  also have "\<dots> \<le> length (files_of job_id db) * Suc ?k"
  proof -
    have "card ?ids \<le> length (files_of job_id db)"
      using card_image_le [of "set (files_of job_id db)" f_id] card_length [of "files_of job_id db"] by simp
    then show ?thesis by (simp only: card_cartesian_product card_atMost mult_le_mono1)
  qed
  finally show ?thesis using log by (simp only: distinct_card)
qed

text \<open>C27. No file is left behind: when the loop ends regularly, every file of the job that is still
  pending was submitted at least once in this pass (a worker handed it back because of a pause, or could not claim
  it), so each file pending at the start has been tried.\<close>

theorem scheduler_complete:
  assumes "scheduler_reachable st args job_id t db s" "wa_use_writer args" "pk_ok f_id (files db)"
    and "scheduler_finished s" "f \<in> set (files_of job_id (sc_db s))" "f_status f = FPENDING"
  shows "(f_id f, 0) \<in> set (sc_log s)"
proof -
  from scheduler_reachable_ok [OF assms(1-3)]
  have ok: "sched_log (wa_max_retries args) s" "sched_complete job_id s" and pk: "pk_ok f_id (files (sc_db s))"
    by (simp_all add: scheduler_ok_def sched_places_def)
  from pending_job_file [OF pk] assms(5,6)
  have "file_pending (sc_db s) (f_id f)" "job_file job_id (sc_db s) (f_id f)" by blast+
  with ok(2) assms(4) have "f_id f \<in> fst ` set (sc_log s)"
    unfolding sched_complete_def scheduler_finished_def by auto
  then obtain n where n: "(f_id f, n) \<in> set (sc_log s)" by auto
  have "\<forall>(i, n) \<in> set (sc_log s). \<forall>m < n. (i, m) \<in> set (sc_log s)" using ok(1) by (auto simp: sched_log_def)
  from bspec [OF this n] n show ?thesis by (cases n) auto
qed

end
