(* ===== verification/Copy_Safety.thy ===== *)
theory Copy_Safety
  imports Copy_Scheduler
begin

text \<open>
  What the job side of the copy engine guarantees: the continuation on another drive, the final status of a
  run, the failure handler and the verification.
\<close>

section \<open>One test in two languages\<close>

text \<open>
  The scheduler asks the database whether a continuation on another drive is worth a try, the end of the run
  asks the loaded rows. Both agree as long as every failed file has a message; without one the SQL test sees
  an unknown value where the other sees a file that must not be retried.
\<close>

lemma sql_compatible:
  assumes "f_status f = ERROR \<longrightarrow> f_error_message f \<noteq> None"
  shows "(sql_not (sql_or (Some (f_status f \<in> {FPENDING, COPYING, RETRYING}))
     (sql_and (Some (f_status f = ERROR)) (sql_eq (f_error_message f) target_full_message))) = Some True) \<longleftrightarrow>
     \<not> is_target_full_continuation_compatible_file f"
  using assms
  by (cases "f_error_message f")
    (auto simp: is_target_full_continuation_compatible_file_def is_overflow_retryable_file_def sql_or_def sql_and_def
      sql_not_def sql_eq_def)

lemma sql_target_full:
  "sql_and (Some (f_status f = ERROR)) (sql_eq (f_error_message f) target_full_message) = Some True \<longleftrightarrow>
     is_overflow_retryable_file f"
  by (cases "f_error_message f") (auto simp: is_overflow_retryable_file_def sql_and_def sql_eq_def)

text \<open>The database query and the loop over the loaded rows decide alike whether a copy that ran out of space
  can be continued on another drive, provided every failed file has an error message.\<close>

theorem continuation_tests_agree:
  assumes "\<forall>f \<in> set (files_of job_id db). f_status f = ERROR \<longrightarrow> f_error_message f \<noteq> None"
  shows "should_attempt_target_full_continuation job_id db = should_attempt_continuation (list_incomplete_by_job job_id db)"
proof -
  have ex: "list_ex (\<lambda>f. is_overflow_retryable_file f) (files_of job_id db) =
      list_ex is_overflow_retryable_file (list_incomplete_by_job job_id db)"
    by (auto simp: list_ex_iff list_incomplete_by_job_def is_overflow_retryable_file_def)
  have all: "list_ex (\<lambda>f. sql_not (sql_or (Some (f_status f \<in> {FPENDING, COPYING, RETRYING}))
      (sql_and (Some (f_status f = ERROR)) (sql_eq (f_error_message f) target_full_message))) = Some True)
        (list_incomplete_by_job job_id db) =
    list_ex (\<lambda>f. \<not> is_target_full_continuation_compatible_file f) (list_incomplete_by_job job_id db)"
    unfolding list_ex_iff
    by (rule bex_cong [OF refl], rule sql_compatible) (use assms in \<open>auto simp: list_incomplete_by_job_def\<close>)
  show ?thesis
    unfolding should_attempt_target_full_continuation_def should_attempt_continuation_def Let_def sql_target_full ex all
    by (auto simp: list_ex_iff list_all_iff)
qed

section \<open>The continuation on another drive\<close>

text \<open>What the search for a drive writes: the free space it read, nothing else.\<close>

definition unmeasured :: "usb_drive \<Rightarrow> usb_drive" where
  "unmeasured d = d\<lparr>d_available_bytes := None\<rparr>"

definition probed :: "db \<Rightarrow> db \<Rightarrow> bool" where
  "probed db w \<longleftrightarrow> jobs w = jobs db \<and> assignments w = assignments db \<and> files w = files db \<and> shares w = shares db \<and>
     entries w = entries db \<and> audits w = audits db \<and> manifests w = manifests db \<and>
     (\<forall>i. map_option unmeasured (get_drive i w) = map_option unmeasured (get_drive i db))"

lemma probed_refl [simp]: "probed db db"
  by (simp add: probed_def)

lemma unmeasured_eq:
  assumes "unmeasured d = unmeasured d0"
  shows "d_current_state d = d_current_state d0" "d_mount_path d = d_mount_path d0"
    "d_current_project_id d = d_current_project_id d0" "d_id d = d_id d0"
  using assms by (cases d; cases d0; simp add: unmeasured_def)+

lemma probed_get:
  assumes "probed db w" "get_drive i w = Some d"
  obtains d0 where "get_drive i db = Some d0" "unmeasured d = unmeasured d0"
proof -
  have "map_option unmeasured (get_drive i db) = Some (unmeasured d)"
    using assms unfolding probed_def by (metis option.map(2))
  with that show thesis by auto
qed

lemma probed_step:
  assumes "probed db w"
  shows "probed db (set_drive i (\<lambda>d. d\<lparr>d_available_bytes := Some n\<rparr>) w)"
proof -
  have "map_option unmeasured (get_drive k (set_drive i (\<lambda>d. d\<lparr>d_available_bytes := Some n\<rparr>) w)) =
      map_option unmeasured (get_drive k w)" for k
    by (simp add: get_set_drive option.map_comp comp_def unmeasured_def [abs_def])
  then show ?thesis using assms by (simp add: probed_def frame_simps)
qed

text \<open>The drive that is chosen is reserved for the job, mounted, of the same project and large enough.\<close>

definition fitting_drive :: "(string \<Rightarrow> int option) \<Rightarrow> export_job \<Rightarrow> usb_drive \<Rightarrow> bool" where
  "fitting_drive probe j d =
     (overflow_candidate j d \<and>
      (case probe (the (d_mount_path d)) of None \<Rightarrow> False | Some n \<Rightarrow> engine_remaining_bytes j \<le> n))"

lemma fitting_drive_unmeasured: "unmeasured d = unmeasured d0 \<Longrightarrow> fitting_drive probe j d = fitting_drive probe j d0"
  by (simp add: fitting_drive_def overflow_candidate_def unmeasured_eq [of d d0])

lemma select_overflow_ok:
  assumes "select_overflow probe j as seen valid w = (w', r, seen', valid')" "probed db w"
  shows "probed db w' \<and>
    (case r of Some a \<Rightarrow> a \<in> set as \<and> (\<exists>d. get_drive (a_drive_id a) db = Some d \<and> fitting_drive probe j d)
     | None \<Rightarrow> \<forall>a \<in> set as. \<forall>d. get_drive (a_drive_id a) db = Some d \<longrightarrow> \<not> fitting_drive probe j d)"
  using assms
proof (induction probe j as seen valid w rule: select_overflow.induct)
  case (2 probe j a as seen valid w)
  show ?case
  proof (cases "get_drive (a_drive_id a) w")
    case None
    then have "get_drive (a_drive_id a) db = None"
      using "2.prems"(2) unfolding probed_def by (metis option.map_disc_iff)
    with None "2.IH"(1) "2.prems" show ?thesis by (auto split: option.splits)
  next
    case (Some d)
    from probed_get [OF "2.prems"(2) Some] obtain d0 where
      d0: "get_drive (a_drive_id a) db = Some d0" "unmeasured d = unmeasured d0" .
    note eq = fitting_drive_unmeasured [OF d0(2)]
    show ?thesis
    proof (cases "overflow_candidate j d")
      case False
      then have "\<not> fitting_drive probe j d0" unfolding eq [symmetric] by (simp add: fitting_drive_def)
      with False Some "2.IH"(2) "2.prems" d0(1) show ?thesis by (auto split: option.splits)
    next
      case True
      show ?thesis
      proof (cases "probe (the (d_mount_path d))")
        case None
        then have "\<not> fitting_drive probe j d0" unfolding eq [symmetric] by (simp add: fitting_drive_def)
        with None True Some "2.IH"(3) "2.prems" d0(1) show ?thesis by (auto split: option.splits)
      next
        case (Some n)
        let ?w = "set_drive (a_drive_id a) (\<lambda>d. d\<lparr>d_available_bytes := Some n\<rparr>) w"
        have w: "probed db ?w" using "2.prems"(2) by (rule probed_step)
        show ?thesis
        proof (cases "n < engine_remaining_bytes j")
          case True
          then have "\<not> fitting_drive probe j d0" using Some unfolding eq [symmetric] by (simp add: fitting_drive_def)
          moreover have sel: "select_overflow probe j as (Suc seen) (Suc valid) ?w = (w', r, seen', valid')"
            using True Some \<open>overflow_candidate j d\<close> \<open>get_drive (a_drive_id a) w = Some d\<close> "2.prems"(1)
            by (simp add: Let_def)
          note "2.IH"(4) [OF \<open>get_drive (a_drive_id a) w = Some d\<close> _ Some refl True sel w]
          ultimately show ?thesis using \<open>overflow_candidate j d\<close> d0(1) by (auto split: option.splits)
        next
          case False
          then have "fitting_drive probe j d0" using Some \<open>overflow_candidate j d\<close> unfolding eq [symmetric] by (simp add: fitting_drive_def)
          with False Some \<open>overflow_candidate j d\<close> \<open>get_drive (a_drive_id a) w = Some d\<close> "2.prems"(1) w d0(1)
          show ?thesis by (auto simp: Let_def)
        qed
      qed
    qed
  qed
qed simp

text \<open>The changes of the switch, table by table.\<close>

definition continue_update :: "usb_drive \<Rightarrow> export_job \<Rightarrow> export_job" where
  "continue_update d j = j\<lparr>j_target_mount_path := d_mount_path d, j_status := RUNNING, j_completed_at := None,
     j_failure_reason := None\<rparr>"

definition retry_here :: "int \<Rightarrow> export_file \<Rightarrow> export_file" where
  "retry_here job_id f =
     (if f_job_id f = job_id \<and> is_overflow_retryable_file f then (pending_again f)\<lparr>f_drive_assignment_id := None\<rparr> else f)"

definition switch_assignments :: "env \<Rightarrow> int \<Rightarrow> int \<Rightarrow> drive_assignment list \<Rightarrow> drive_assignment list" where
  "switch_assignments e old new as =
     upd_row a_id new (\<lambda>a. a\<lparr>a_activated_at := Some (e_now e)\<rparr>) (upd_row a_id old (\<lambda>a. a\<lparr>a_released_at := Some (e_now e)\<rparr>) as)"

lemma switch_target_tables:
  "jobs (switch_target e job_id c a d w) = upd_row j_id job_id (continue_update d) (jobs w)"
  "files (switch_target e job_id c a d w) = map (retry_here job_id) (files w)"
  "assignments (switch_target e job_id c a d w) = switch_assignments e (a_id c) (a_id a) (assignments w)"
  "get_drive k (switch_target e job_id c a d w) =
     (if k = d_id d then map_option drive_in_use (get_drive k w)
      else if k = a_drive_id c then map_option drive_available (get_drive k w) else get_drive k w)"
proof -
  note frames = frame_simps reset_target_full_failed_for_retry_def update_files_def switch_target_def Let_def
  show "jobs (switch_target e job_id c a d w) = upd_row j_id job_id (continue_update d) (jobs w)"
    by (simp add: frames continue_update_def [abs_def])
  show "files (switch_target e job_id c a d w) = map (retry_here job_id) (files w)"
    by (simp add: frames retry_here_def [abs_def] is_overflow_retryable_file_def)
  show "assignments (switch_target e job_id c a d w) = switch_assignments e (a_id c) (a_id a) (assignments w)"
    by (simp add: frames switch_assignments_def)
  have "get_drive k (switch_target e job_id c a d w) =
      get_drive k (set_drive (d_id d) drive_in_use (set_drive (a_drive_id c) drive_available w))"
    by (simp add: frames get_drive_def set_drive_def)
  moreover have "map_option drive_in_use (map_option drive_available x) = map_option drive_in_use x" for x
    by (cases x) (simp_all add: drive_in_use_def drive_available_def)
  ultimately show "get_drive k (switch_target e job_id c a d w) =
     (if k = d_id d then map_option drive_in_use (get_drive k w)
      else if k = a_drive_id c then map_option drive_available (get_drive k w) else get_drive k w)"
    by (simp add: get_set_drive [of drive_in_use] get_set_drive [of drive_available] drive_state_updates)
qed

lemma continuation_audited:
  "audited w (audit_automatic_continuation e j p a n (audit_target_full e j' k ds w))"
  unfolding audit_target_full_def audit_automatic_continuation_def
  by (rule audited_trans [OF best_effort_audited best_effort_audited])

lemma resolve_continued:
  assumes "resolve_target_full_outcome e probe job_id db = Inr (Target_continued, db', w')"
  obtains j c a d w where "get_job job_id db = Some j" "get_active_for_job job_id db = Some c"
    "should_attempt_continuation (list_incomplete_by_job job_id db)"
    "a \<in> set (reserved_assignments job_id db)" "probed db w" "get_drive (a_drive_id a) w = Some d"
    "\<exists>d0. get_drive (a_drive_id a) db = Some d0 \<and> fitting_drive probe j d0"
    "audited (switch_target e job_id c a d w) db'" "w' = db'"
proof -
  from assms obtain j c w seen valid a d where h: "get_job job_id db = Some j" "get_active_for_job job_id db = Some c"
    "should_attempt_continuation (list_incomplete_by_job job_id db)"
    "select_overflow probe j (reserved_assignments job_id db) 0 0 db = (w, Some a, seen, valid)"
    "get_drive (a_drive_id a) w = Some d" "w' = db'"
    "audited (switch_target e job_id c a d w) db'"
    unfolding resolve_target_full_outcome_def get_job_for_update_def Let_def
    by (auto simp: continuation_audited split: option.splits if_splits prod.splits)
  from select_overflow_ok [OF h(4), of db] show thesis by (intro that [OF h(1-3) _ _ h(5) _ h(7,6)]) auto
qed

lemma active_after_switch:
  assumes "pk_ok a_id (assignments db)" "a \<in> set (assignments db)" "a_job_id a = job_id" "a_activated_at a = None"
    "a_released_at a = None" "c \<in> set (activated_for job_id db)"
    and later: "\<forall>x \<in> set (activated_for job_id db). the (a_activated_at x) < e_now e"
    and db': "assignments db' = switch_assignments e (a_id c) (a_id a) (assignments db)"
  shows "get_active_for_job job_id db' = Some (a\<lparr>a_activated_at := Some (e_now e)\<rparr>)"
proof -
  let ?a = "a\<lparr>a_activated_at := Some (e_now e)\<rparr>"
  have inj: "inj_on a_id (set (assignments db))" using assms(1) by (simp add: pk_ok_def distinct_map)
  have c: "c \<in> set (assignments db)" "a_activated_at c \<noteq> None" using assms(6) by (auto simp: activated_for_def)
  then have ne: "a_id a \<noteq> a_id c" using inj_onD [OF inj _ assms(2) c(1)] assms(4) by auto
  define g where "g y = (if a_id y = a_id a then y\<lparr>a_activated_at := Some (e_now e)\<rparr>
     else if a_id y = a_id c then y\<lparr>a_released_at := Some (e_now e)\<rparr> else y)" for y :: drive_assignment
  have "assignments db' = map g (assignments db)"
    unfolding db' switch_assignments_def upd_row_def map_map
    by (rule map_cong [OF refl]) (use ne in \<open>simp add: g_def\<close>)
  then have rows: "set (assignments db') = g ` set (assignments db)" by simp
  have "?a \<in> set (activated_for job_id db')"
    using assms(2,3,5) imageI [OF assms(2), of g] by (simp add: activated_for_def rows g_def)
  moreover have other: "x = ?a \<or> the (a_activated_at x) < e_now e" if x: "x \<in> set (activated_for job_id db')" for x
  proof -
    have xa: "x \<in> set (assignments db')" "a_job_id x = job_id" "a_activated_at x \<noteq> None" "a_released_at x = None"
      using x by (auto simp: activated_for_def)
    then obtain y where y: "y \<in> set (assignments db)" "x = g y" using rows by blast
    show ?thesis
    proof (cases "a_id y = a_id a")
      case True
      then have "y = a" using inj_onD [OF inj _ y(1) assms(2)] by simp
      with y(2) show ?thesis by (simp add: g_def)
    next
      case False
      then have "x = y" using y(2) xa(4) by (simp add: g_def split: if_splits)
      with xa y(1) have "x \<in> set (activated_for job_id db)" by (simp add: activated_for_def)
      with later show ?thesis by blast
    qed
  qed
  show ?thesis unfolding get_active_for_job_def
  proof (rule last_by_eq)
    show "?a \<in> set (activated_for job_id db')" by fact
    show "(the (a_activated_at x), a_id x) \<le> (the (a_activated_at ?a), a_id ?a)" if "x \<in> set (activated_for job_id db')" for x
      using other [OF that] by (auto simp: less_eq_prod_def)
    show "inj_on (\<lambda>a. (the (a_activated_at a), a_id a)) (set (activated_for job_id db'))"
    proof (rule inj_onI)
      fix x y assume x: "x \<in> set (activated_for job_id db')" "y \<in> set (activated_for job_id db')"
        and eq: "(the (a_activated_at x), a_id x) = (the (a_activated_at y), a_id y)"
      have "pk_ok a_id (assignments db')" using assms(1) by (simp add: db' switch_assignments_def pk_ok_upd_row)
      then have "inj_on a_id (set (assignments db'))" by (simp add: pk_ok_def distinct_map)
      with x eq show "x = y" by (auto simp: activated_for_def dest: inj_onD)
    qed
  qed
qed


section \<open>The end of a run\<close>

lemma auto_manifest_files:
  "auto_generate_manifest_for_completed_job e host i db = (db', calls, c) \<Longrightarrow> files db' = files db"
  unfolding auto_generate_manifest_for_completed_job_def generate_manifest_for_job_def
  by (auto split: option.splits if_splits prod.splits sum.splits dest!: generate_manifests_frame)

lemma run_end_audited [intro]:
  "audited w v \<Longrightarrow> audited w (audit_run_end action e j n v)"
  "audited w v \<Longrightarrow> audited w (audit_target_full e j k ds v)"
  "audited w v \<Longrightarrow> audited w (audit_cache_cleared_by_engine e j v)"
  "audited w v \<Longrightarrow> audited w (audit_persist_failed e i x v)"
  "audited w v \<Longrightarrow> audited w (audit_verification e j m b v)"
  unfolding audit_run_end_def audit_target_full_def audit_cache_cleared_by_engine_def audit_persist_failed_def
    audit_verification_def
  by (blast intro: audited_trans best_effort_audited)+

definition run_paused :: "bool \<Rightarrow> export_job \<Rightarrow> bool \<Rightarrow> bool" where
  "run_paused pause_requested j finished \<longleftrightarrow> (pause_requested \<or> j_status j \<in> {PAUSING, PAUSED}) \<and> \<not> finished"

text \<open>A run that is not paused: the session is committed with the final status, then the audit records are
  written and, for a completed job, the manifests.\<close>

lemma finish_run_jobs:
  assumes "finish_run e host job_id pause_requested failed j db w = (db', calls, r)"
  defines "finished \<equiv> all_files_finished job_id j db"
  assumes "e_db_ok e (if run_paused pause_requested j finished then ''job_paused'' else ''job_final_status'')"
  shows "r = Inr () \<and> files db' = files w \<and> drives db' = drives w \<and> (\<forall>i. Schedule_copy i \<notin> set calls) \<and> (\<exists>clear. jobs db' =
    upd_row j_id job_id (if run_paused pause_requested j finished then pause_final e
       else final_update e (failed \<noteq> None) finished clear) (jobs w))"
proof (cases "run_paused pause_requested j finished")
  case True
  with assms(1,3) have "db' = set_job job_id (pause_final e) w" "r = Inr ()" "calls = []"
    by (simp_all add: finish_run_def run_paused_def finished_def save_file_def Let_def)
  with True show ?thesis by (simp add: frame_simps)
next
  case False
  define clear where "clear = (final_status (failed \<noteq> None) finished = COMPLETED \<and> count_status ERROR job_id db = 0 \<and>
    count_status TIMEOUT job_id db = 0 \<and> startup_analysis_cached j)"
  define v where "v = set_job job_id (final_update e (failed \<noteq> None) finished clear)
    (if clear then delete_entries_by_job job_id w else w)"
  define j' where "j' = final_update e (failed \<noteq> None) finished clear j"
  define db3 where "db3 = audit_run_end (if j_status j' = COMPLETED then ''JOB_COMPLETED'' else ''JOB_FAILED'') e j'
    (int (count_status DONE job_id db)) (case failed of None \<Rightarrow> v | Some ds \<Rightarrow> audit_target_full e j' None ds v)"
  define db4 where "db4 = (if clear then audit_cache_cleared_by_engine e j db3 else db3)"
  have ok: "e_db_ok e ''job_final_status''" using assms(3) False by simp
  have cond: "((pause_requested \<or> j_status j \<in> {PAUSING, PAUSED}) \<and> \<not> finished) = False"
    using False by (simp add: run_paused_def)
  have eq: "finish_run e host job_id pause_requested failed j db w =
    (if j_status j' = COMPLETED
     then (case auto_generate_manifest_for_completed_job (e\<lparr>e_actor := None\<rparr>) host job_id db4 of
             (db5, calls, _) \<Rightarrow> (db5, Job_callback job_id ''JOB_COMPLETED'' # calls, Inr ()))
     else (db4, [Job_callback job_id ''JOB_FAILED''], Inr ()))"
    unfolding finish_run_def Let_def save_file_def finished_def [symmetric] cond eqTrueI [OF ok] if_True if_False
      prod.case bool.case clear_def [symmetric] v_def [symmetric] j'_def [symmetric] db3_def [symmetric] db4_def [symmetric]
    by (rule refl)
  have "audited v db4" by (auto simp: db4_def db3_def split: option.splits)
  then have v: "jobs db4 = jobs v" "files db4 = files v" "drives db4 = drives v" by (rule audited_frame)+
  have "r = Inr () \<and> files db' = files db4 \<and> jobs db' = jobs db4 \<and> drives db' = drives db4 \<and>
      (\<forall>i. Schedule_copy i \<notin> set calls)"
    using assms(1) unfolding eq
    by (auto split: if_splits prod.splits dest: auto_manifest_frame auto_manifest_files)
  with v False show ?thesis by (auto simp: v_def frame_simps delete_entries_by_job_def)
qed

lemma resolve_not_continued:
  assumes "resolve_target_full_outcome e probe job_id db = Inr (out, db1, w)" "out \<noteq> Target_continued"
  shows "db1 = db \<and> probed db w"
proof -
  have "probed db v" if "select_overflow probe j as seen valid db = (v, r, seen', valid')" for j as seen valid v r seen' valid'
    using select_overflow_ok [OF that, of db] by simp
  with assms show ?thesis
    unfolding resolve_target_full_outcome_def get_job_for_update_def Let_def
    by (auto split: option.splits if_splits prod.splits)
qed

text \<open>The decision about a full target, as the end of a run takes it.\<close>

definition target_full_decided :: "env \<Rightarrow> (string \<Rightarrow> int option) \<Rightarrow> int \<Rightarrow> db \<Rightarrow> string + (target_full_outcome \<times> db \<times> db)" where
  "target_full_decided e probe job_id db =
     (if 0 < count_status ERROR job_id db \<and> count_status TIMEOUT job_id db = 0
      then resolve_target_full_outcome e probe job_id db else Inr (Not_applicable, db, db))"

definition target_full_failed :: "env \<Rightarrow> (string \<Rightarrow> int option) \<Rightarrow> int \<Rightarrow> db \<Rightarrow> bool" where
  "target_full_failed e probe job_id db =
     (case target_full_decided e probe job_id db of Inr (Target_full_failed _, _, _) \<Rightarrow> True | _ \<Rightarrow> False)"

lemma finalize_ended:
  assumes "finalize_copy_run e host probe job_id t pause_requested db = (db', calls, Inr Run_ended)"
    and "get_job job_id db = Some j" "e_db_ok e ''reset_in_flight''"
  obtains out w failed where "j_started_at j = t" "pause_requested \<or> lingering_files job_id db = 0"
    "target_full_decided e probe job_id db = Inr (out, db, w)" "probed db w"
    "failed = (case out of Target_full_failed ds \<Rightarrow> Some ds | _ \<Rightarrow> None)"
    "finish_run e host job_id pause_requested failed j db w = (db', calls, Inr ())"
proof -
  have t: "j_started_at j = t" using assms(1,2) by (auto simp: finalize_copy_run_def split: if_splits)
  have l: "\<not> (0 < lingering_files job_id db \<and> \<not> pause_requested)"
    using assms by (auto simp: finalize_copy_run_def save_file_def split: if_splits)
  obtain out db1 w where out: "target_full_decided e probe job_id db = Inr (out, db1, w)" "out \<noteq> Target_continued"
    using assms(1,2) t l unfolding finalize_copy_run_def target_full_decided_def [symmetric]
    by (auto split: sum.splits prod.splits target_full_outcome.splits)
  have db1: "db1 = db \<and> probed db w"
    using out resolve_not_continued unfolding target_full_decided_def by (auto split: if_splits)
  then have "get_job job_id w = Some j" using assms(2) by (simp add: probed_def get_job_def)
  then have "finish_run e host job_id pause_requested (case out of Target_full_failed ds \<Rightarrow> Some ds | _ \<Rightarrow> None) j db w
      = (db', calls, Inr ())"
    using assms(1,2) t l out db1 unfolding finalize_copy_run_def target_full_decided_def [symmetric]
    by (auto split: sum.splits prod.splits target_full_outcome.splits)
  with t l out(1) db1 that show thesis by auto
qed

text \<open>C7. A finished run leaves the right status: the run still owns the job and no file is in flight (unless
  a pause was requested); the job is paused if a pause was requested and files are left, failed if the target ran full
  and no reserved drive can take the rest, completed exactly if otherwise all files are accounted for, and failed if
  not. File rows and other jobs are not touched.\<close>

theorem copy_run_final_status:
  assumes "finalize_copy_run e host probe job_id t pause_requested db = (db', calls, Inr Run_ended)"
    and "get_job job_id db = Some j"
    and "e_db_ok e ''job_final_status''" "e_db_ok e ''job_paused''" "e_db_ok e ''reset_in_flight''"
  shows "j_started_at j = t \<and> (pause_requested \<or> lingering_files job_id db = 0) \<and> files db' = files db \<and>
    (\<forall>k. k \<noteq> job_id \<longrightarrow> get_job k db' = get_job k db) \<and>
    (\<exists>j'. get_job job_id db' = Some j' \<and> j_copy_started_at j' = None \<and> j_project_id j' = j_project_id j \<and>
       j_status j' =
         (if (pause_requested \<or> j_status j \<in> {PAUSING, PAUSED}) \<and> \<not> all_files_finished job_id j db then PAUSED
          else if target_full_failed e probe job_id db then JFAILED
          else if all_files_finished job_id j db then COMPLETED else JFAILED))"
proof -
  from assms(1,2,5) obtain out w failed where f: "j_started_at j = t" "pause_requested \<or> lingering_files job_id db = 0"
    "target_full_decided e probe job_id db = Inr (out, db, w)" "probed db w"
    "failed = (case out of Target_full_failed ds \<Rightarrow> Some ds | _ \<Rightarrow> None)"
    "finish_run e host job_id pause_requested failed j db w = (db', calls, Inr ())" by (rule finalize_ended)
  have tf: "target_full_failed e probe job_id db \<longleftrightarrow> failed \<noteq> None"
    by (simp add: target_full_failed_def f(3,5) split: target_full_outcome.splits)
  let ?paused = "run_paused pause_requested j (all_files_finished job_id j db)"
  have "e_db_ok e (if ?paused then ''job_paused'' else ''job_final_status'')" using assms(3,4) by simp
  from finish_run_jobs [OF f(6) this] obtain clear where r: "files db' = files w"
    "jobs db' = upd_row j_id job_id (if ?paused then pause_final e
       else final_update e (failed \<noteq> None) (all_files_finished job_id j db) clear) (jobs w)" by blast
  have w: "files w = files db" "jobs w = jobs db" using f(4) by (simp_all add: probed_def)
  let ?g = "if ?paused then pause_final e else final_update e (failed \<noteq> None) (all_files_finished job_id j db) clear"
  have id: "j_id (?g x) = j_id x" for x by (simp add: pause_final_def final_update_def Let_def)
  have get: "get_job k db' = (if k = job_id then map_option ?g (get_job k db) else get_job k db)" for k
    using get_upd_row [of j_id ?g k job_id "jobs db", OF id] unfolding get_job_def r(2) w(2) .
  have "j_copy_started_at (?g j) = None \<and> j_project_id (?g j) = j_project_id j \<and>
      j_status (?g j) = (if ?paused then PAUSED else final_status (failed \<noteq> None) (all_files_finished job_id j db))"
    by (simp add: pause_final_def final_update_def Let_def)
  with get [of job_id] assms(2) f(1,2) r(1) w(1) get tf show ?thesis
    by (simp add: run_paused_def final_status_def)
qed

text \<open>When the final status of a successful run cannot be saved once, the exception handler marks the job
  failed and reports it so, although every file was copied.\<close>

theorem final_save_failure_fails_job:
  assumes "get_job job_id db = Some j" "j_started_at j = t" "j_status j = RUNNING"
    and "lingering_files job_id db = 0" "count_status ERROR job_id db = 0" "all_files_finished job_id j db"
    and "\<not> e_db_ok e ''job_final_status''" "e_db_ok e ''job_failed''"
  shows "\<exists>db' j'. end_copy_run e host probe cwd job_id t False db = (db', [Job_callback job_id ''JOB_FAILED''], Run_ended) \<and>
    get_job job_id db' = Some j' \<and> j_status j' = JFAILED"
proof -
  define db1 where "db1 = audit_persist_failed e job_id (job_status_value (j_status j)) db"
  have "audited db db1" unfolding db1_def by blast
  then have j: "get_job job_id db1 = Some j" using assms(1) by (simp add: audited_frame(11))
  have "finish_run e host job_id False None j db db = (db1, [], Inl unbound_variable_message)"
    using assms(3,6,7) by (simp add: finish_run_def Let_def save_file_def db1_def)
  then have fin: "finalize_copy_run e host probe job_id t False db = (db1, [], Inl unbound_variable_message)"
    using assms(1,2,4,5) by (simp add: finalize_copy_run_def)
  define reason where "reason = sanitize_job_failure_reason cwd unbound_variable_message ''Unexpected copy failure''
    (Some (j_source_path j)) (j_target_mount_path j)"
  define db2 where "db2 = set_job job_id (fail_update e reason) db1"
  define db3 where "db3 = audit_run_end ''JOB_FAILED'' e (fail_update e reason j) (int (count_status DONE job_id db)) db2"
  have "fail_copy_run e cwd job_id unbound_variable_message (int (count_status DONE job_id db)) db1 =
      (db3, [Job_callback job_id ''JOB_FAILED''])"
    using j assms(8) by (simp add: fail_copy_run_def Let_def save_file_def reason_def db2_def db3_def)
  with fin have "end_copy_run e host probe cwd job_id t False db = (db3, [Job_callback job_id ''JOB_FAILED''], Run_ended)"
    by (simp add: end_copy_run_def)
  moreover have "audited db2 db3" unfolding db3_def by blast
  then have "get_job job_id db3 = Some (fail_update e reason j)"
    using j by (simp add: audited_frame(11) db2_def get_set_job fail_update_def)
  moreover have "j_status (fail_update e reason j) = JFAILED" by (simp add: fail_update_def)
  ultimately show ?thesis by blast
qed

section \<open>Verification\<close>

lemma run_verify_job_saved:
  assumes "run_verify_job e host checksum_at is_dir i db = (db', calls)" "get_job i db = Some j"
    and "e_db_ok e ''verify_files''" "e_db_ok e ''verify_status''"
  shows "let m = list_ex (verify_mismatch checksum_at is_dir j) (list_done_by_job i db);
      w = set_job i (verify_update e m) (verified_files checksum_at is_dir j db)
    in jobs db' = jobs w \<and> files db' = files w \<and> drives db' = drives w \<and> (\<forall>k. Schedule_copy k \<notin> set calls)"
proof -
  define m where "m = list_ex (verify_mismatch checksum_at is_dir j) (list_done_by_job i db)"
  define w where "w = set_job i (verify_update e m) (verified_files checksum_at is_dir j db)"
  define db3 where "db3 = audit_verification e (verify_update e m j) (length (list_done_by_job i db)) m w"
  have "audited w db3" unfolding db3_def by blast
  then have a: "jobs db3 = jobs w" "files db3 = files w" "drives db3 = drives w" by (rule audited_frame)+
  have "get_job i (verified_files checksum_at is_dir j db) = Some j"
    using assms(2) by (simp add: verified_files_def get_job_def)
  then have "run_verify_job e host checksum_at is_dir i db =
    (if m then (db3, [Job_callback i ''JOB_FAILED''])
     else (case auto_generate_manifest_for_completed_job (e\<lparr>e_actor := None\<rparr>) host i db3 of
             (db4, calls, _) \<Rightarrow> (db4, Job_callback i ''JOB_COMPLETED'' # calls)))"
    using assms(2-4) by (simp add: run_verify_job_def save_file_def Let_def m_def w_def db3_def)
  with assms(1) have "jobs db' = jobs db3 \<and> files db' = files db3 \<and> drives db' = drives db3 \<and> (\<forall>k. Schedule_copy k \<notin> set calls)"
    by (auto split: if_splits prod.splits dest: auto_manifest_frame auto_manifest_files)
  with a show ?thesis by (simp add: m_def w_def Let_def)
qed


section \<open>The engine as a state machine\<close>

text \<open>Every transaction of the engine is one step; the steps of workers and of the progress writer may come between
  any two others.\<close>

inductive engine_step :: "db \<Rightarrow> job_effect list \<Rightarrow> db \<Rightarrow> bool" where
  es_begin: "begin_copy_run e i db = (db', r) \<Longrightarrow> engine_step db [] db'"
| es_start: "start_running e i db = (db', r) \<Longrightarrow> engine_step db [] db'"
| es_claim: "claim_file e (\<lambda>db. db) f n db = (db', c) \<Longrightarrow> engine_step db [] db'"
| es_finish: "wa_use_writer args \<Longrightarrow>
    finish_attempt e st (args\<lparr>wa_now := now\<rparr>) f a n r
      (foldl (report_progress e st args (f_job_id f) a) (attempt_start db) ns) = (q, db', ao) \<Longrightarrow> engine_step db [] db'"
| es_flush: "flush_pending e i p db = (b, db') \<Longrightarrow> engine_step db [] db'"
| es_end: "end_copy_run e host probe cwd i t pause db = (db', calls, r) \<Longrightarrow> engine_step db calls db'"
| es_verify: "run_verify_job e host checksum_at is_dir i db = (db', calls) \<Longrightarrow> engine_step db calls db'"

definition engine_status :: "job_status \<Rightarrow> job_status \<Rightarrow> bool" where
  "engine_status s s' \<longleftrightarrow> s' = s \<or> s' \<in> {RUNNING, PAUSED, COMPLETED, JFAILED} \<or> s' = PREPARING \<and> s \<noteq> PAUSED"

definition jobs_kept :: "db \<Rightarrow> db \<Rightarrow> bool" where
  "jobs_kept db db' \<longleftrightarrow>
     (\<forall>i j. get_job i db = Some j \<longrightarrow>
        (\<exists>j'. get_job i db' = Some j' \<and> j_project_id j' = j_project_id j \<and> engine_status (j_status j) (j_status j')))"

lemma jobs_kept_same: "jobs db' = jobs db \<Longrightarrow> jobs_kept db db'"
  by (simp add: jobs_kept_def get_job_def engine_status_def)

lemma jobs_kept_upd:
  assumes "jobs db' = upd_row j_id i g (jobs db)" "\<And>j. j_id (g j) = j_id j" "\<And>j. j_project_id (g j) = j_project_id j"
    and "\<And>j. get_job i db = Some j \<Longrightarrow> engine_status (j_status j) (j_status (g j))"
  shows "jobs_kept db db'"
proof -
  have "get_job k db' = (if k = i then map_option g (get_job k db) else get_job k db)" for k
    using get_upd_row [of j_id g k i "jobs db", OF assms(2)] unfolding get_job_def assms(1) .
  then show ?thesis using assms(3,4) by (auto simp: jobs_kept_def engine_status_def)
qed

definition engine_safe :: "db \<Rightarrow> job_effect list \<Rightarrow> db \<Rightarrow> bool" where
  "engine_safe db calls db' \<longleftrightarrow> drives_bound db db' \<and> jobs_kept db db' \<and> (\<forall>i. Schedule_copy i \<notin> set calls)"

lemma flush_pending_safe:
  assumes "flush_pending e i p db = (b, db')"
  shows "drives db' = drives db \<and> jobs_kept db db'"
proof -
  have bytes: "drives (foldl (\<lambda>d (i, delta). if delta = 0 then d else upd_assignment_bytes i (apply_delta delta) d) db ds) = drives db \<and>
      jobs (foldl (\<lambda>d (i, delta). if delta = 0 then d else upd_assignment_bytes i (apply_delta delta) d) db ds) = jobs db" for ds db
    by (induction ds arbitrary: db) (auto simp: upd_assignment_bytes_def set_assignment_def)
  have counts: "drives (foldl (\<lambda>d (i, delta). if delta = 0 then d else upd_assignment_count i (apply_delta delta) d) db ds) = drives db \<and>
      jobs (foldl (\<lambda>d (i, delta). if delta = 0 then d else upd_assignment_count i (apply_delta delta) d) db ds) = jobs db" for ds db
    by (induction ds arbitrary: db) (auto simp: upd_assignment_count_def set_assignment_def)
  have "drives db' = drives db \<and> (jobs db' = jobs db \<or> jobs db' = jobs (upd_job_bytes i (apply_delta (pp_job p)) db))"
    using assms unfolding flush_pending_def apply_copy_progress_batch_def Let_def commit_def
    by (auto simp: bytes counts upd_job_bytes_def frame_simps split: if_splits option.splits)
  then show ?thesis
    by (auto intro: jobs_kept_same jobs_kept_upd simp: upd_job_bytes_def set_job_def engine_status_def)
qed

lemma engine_safe_audited: "audited db db' \<Longrightarrow> \<forall>i. Schedule_copy i \<notin> set calls \<Longrightarrow> engine_safe db calls db'"
  by (simp add: engine_safe_def drives_bound_same jobs_kept_same audited_frame)

lemma probed_bound: "probed db w \<Longrightarrow> drives w = drives w' \<Longrightarrow> drives_bound db w'"
proof -
  assume p: "probed db w" and w': "drives w = drives w'"
  have "\<exists>d'. get_drive i w' = Some d' \<and> d_current_project_id d' = d_current_project_id d" if "get_drive i db = Some d" for i d
  proof -
    have "map_option unmeasured (get_drive i w) = Some (unmeasured d)" using p that unfolding probed_def by simp
    then obtain d' where "get_drive i w = Some d'" "unmeasured d' = unmeasured d" by auto
    then show ?thesis using unmeasured_eq(3) get_drive_cong [OF w'] by metis
  qed
  then show ?thesis unfolding drives_bound_def by blast
qed

lemma finish_run_safe:
  assumes "finish_run e host i pause failed j db w = (db', calls, r)" "probed db w"
  shows "engine_safe db calls db'"
proof -
  let ?paused = "run_paused pause j (all_files_finished i j db)"
  have w: "jobs w = jobs db" using assms(2) by (simp add: probed_def)
  show ?thesis
  proof (cases "e_db_ok e (if ?paused then ''job_paused'' else ''job_final_status'')")
    case True
    from finish_run_jobs [OF assms(1) this] obtain clear where
      r: "drives db' = drives w" "\<forall>i. Schedule_copy i \<notin> set calls"
      "jobs db' = upd_row j_id i (if ?paused then pause_final e
         else final_update e (failed \<noteq> None) (all_files_finished i j db) clear) (jobs db)"
      unfolding w by blast
    have "jobs_kept db db'"
      by (rule jobs_kept_upd [OF r(3)])
        (auto simp: pause_final_def final_update_def final_status_def engine_status_def Let_def)
    with r probed_bound [OF assms(2)] show ?thesis by (simp add: engine_safe_def)
  next
    case False
    show ?thesis
    proof (cases ?paused)
      case True
      with False assms(1) have "db' = db" "calls = []"
        by (simp_all add: finish_run_def run_paused_def save_file_def Let_def)
      then show ?thesis by (simp add: engine_safe_audited)
    next
      case nonpaused: False
      then have c: "((pause \<or> j_status j \<in> {PAUSING, PAUSED}) \<and> \<not> all_files_finished i j db) = False"
        by (simp add: run_paused_def)
      have "e_db_ok e ''job_final_status'' = False" using False nonpaused by simp
      with assms(1) have "db' = audit_persist_failed e i (job_status_value (j_status j)) db" "calls = []"
        unfolding finish_run_def save_file_def Let_def c if_False prod.case bool.case by simp_all
      then show ?thesis by (auto intro!: engine_safe_audited)
    qed
  qed
qed

lemma continuation_safe:
  assumes "resolve_target_full_outcome e probe i db = Inr (Target_continued, db', w)"
  shows "engine_safe db [] db'"
proof -
  from assms obtain j c a d v where h: "probed db v" "audited (switch_target e i c a d v) db'" by (rule resolve_continued)
  have "jobs db' = upd_row j_id i (continue_update d) (jobs db)"
    using h(1) by (simp add: audited_frame(5) [OF h(2)] switch_target_tables probed_def)
  then have "jobs_kept db db'"
    by (rule jobs_kept_upd) (simp_all add: continue_update_def engine_status_def)
  moreover have "drives_bound db v" using h(1) by (rule probed_bound) simp
  moreover have "drives_bound v db'"
    unfolding drives_bound_def audited_frame(10) [OF h(2)] switch_target_tables(4) by auto
  ultimately show ?thesis by (auto simp: engine_safe_def intro: drives_bound_trans)
qed

lemma finish_run_Inl: "finish_run e host i pause failed j db w = (db', calls, Inl err) \<Longrightarrow> audited db db' \<and> calls = []"
  unfolding finish_run_def Let_def save_file_def by (auto split: if_splits prod.splits)

lemma finalize_cases:
  assumes "finalize_copy_run e host probe i t pause db = (db', calls, r)"
  obtains (same) "db' = db" "calls = []" | (reset) "db' = reset_in_flight i db" "calls = []" "r = Inr Repeat_run"
    | (continued) w where "resolve_target_full_outcome e probe i db = Inr (Target_continued, db', w)" "calls = []" "r = Inr Repeat_run"
    | (final) out w failed j r' where "target_full_decided e probe i db = Inr (out, db, w)" "probed db w"
        "finish_run e host i pause failed j db w = (db', calls, r')" "\<And>err. r = Inl err \<Longrightarrow> r' = Inl err"
proof (cases "(case get_job i db of None \<Rightarrow> False | Some j \<Rightarrow> j_started_at j \<noteq> t) \<or> 0 < lingering_files i db \<and> \<not> pause")
  case True
  with assms same reset show thesis
    unfolding finalize_copy_run_def save_file_def by (auto split: if_splits)
next
  case False
  show thesis
  proof (cases "target_full_decided e probe i db")
    case (Inl err)
    with False assms same show thesis
      unfolding finalize_copy_run_def target_full_decided_def [symmetric] by auto
  next
    case (Inr x)
    obtain out db1 w where x: "x = (out, db1, w)" by (cases x)
    show thesis
    proof (cases "out = Target_continued")
      case True
      have "resolve_target_full_outcome e probe i db = Inr (Target_continued, db1, w)"
        using Inr x True by (auto simp: target_full_decided_def split: if_splits)
      moreover have "db' = db1" "calls = []" "r = Inr Repeat_run"
        using assms False Inr x True unfolding finalize_copy_run_def target_full_decided_def [symmetric] by auto
      ultimately show thesis using continued by blast
    next
      case nc: False
      have db1: "db1 = db \<and> probed db w"
        using Inr x nc resolve_not_continued unfolding target_full_decided_def by (auto split: if_splits)
      show thesis
      proof (cases "get_job i w = None \<or> (\<exists>j. get_job i w = Some j \<and> j_started_at j \<noteq> t)")
        case True
        then have "db' = db" "calls = []"
          using assms False Inr x nc db1 unfolding finalize_copy_run_def target_full_decided_def [symmetric]
          by (auto split: target_full_outcome.splits option.splits)
        then show thesis by (rule same)
      next
        case no: False
        then obtain j where j: "get_job i w = Some j" "j_started_at j = t" by auto
        define failed where "failed = (case out of Target_full_failed ds \<Rightarrow> Some ds | _ \<Rightarrow> None)"
        obtain db2 calls2 r' where f: "finish_run e host i pause failed j db w = (db2, calls2, r')" by (metis surj_pair)
        have "db' = db2 \<and> calls = calls2 \<and> (\<forall>err. r = Inl err \<longrightarrow> r' = Inl err)"
          using assms False Inr x nc db1 j f unfolding finalize_copy_run_def target_full_decided_def [symmetric] failed_def
          by (auto split: target_full_outcome.splits sum.splits)
        with f Inr x db1 show thesis using final by blast
      qed
    qed
  qed
qed

lemma finalize_safe:
  assumes "finalize_copy_run e host probe i t pause db = (db', calls, r)"
  shows "engine_safe db calls db' \<and> (\<forall>err. r = Inl err \<longrightarrow> audited db db' \<and> calls = [])"
  using assms
proof (cases rule: finalize_cases)
  case same
  then show ?thesis by (simp add: engine_safe_audited)
next
  case reset
  then show ?thesis by (simp add: engine_safe_def drives_bound_same jobs_kept_same reset_in_flight_def)
next
  case continued
  then show ?thesis using continuation_safe by simp
next
  case (final out w failed j r')
  have "audited db db' \<and> calls = []" if "r = Inl err" for err
    using finish_run_Inl [of e host i pause failed j db w db' calls err] final(3) final(4) [OF that] by simp
  with finish_run_safe [OF final(3,2)] show ?thesis by blast
qed

lemma fail_copy_run_safe:
  assumes "fail_copy_run e cwd i err n db = (db', calls)"
  shows "engine_safe db calls db'"
proof (cases "get_job i db")
  case None
  with assms show ?thesis by (simp add: fail_copy_run_def engine_safe_audited)
next
  case (Some j)
  define reason where "reason = sanitize_job_failure_reason cwd err ''Unexpected copy failure'' (Some (j_source_path j))
    (j_target_mount_path j)"
  let ?w = "set_job i (fail_update e reason) db"
  have "audited db db' \<and> calls = [] \<or> audited ?w db' \<and> calls = [Job_callback i ''JOB_FAILED'']"
    using assms unfolding fail_copy_run_def save_file_def Let_def Some option.case reason_def [symmetric]
    by (auto split: if_splits)
  then show ?thesis
  proof
    assume h: "audited ?w db' \<and> calls = [Job_callback i ''JOB_FAILED'']"
    note frame = audited_frame [OF conjunct1 [OF h]]
    have "jobs db' = upd_row j_id i (fail_update e reason) (jobs db)" "drives db' = drives db"
      by (simp_all add: frame frame_simps)
    then have "jobs_kept db db'" "drives_bound db db'"
      by (simp_all add: jobs_kept_upd fail_update_def engine_status_def drives_bound_same)
    with h show ?thesis by (simp add: engine_safe_def)
  qed (simp add: engine_safe_audited)
qed

lemma end_copy_run_safe:
  assumes "end_copy_run e host probe cwd i t pause db = (db', calls, r)"
  shows "engine_safe db calls db'"
proof -
  obtain db1 c1 r1 where f: "finalize_copy_run e host probe i t pause db = (db1, c1, r1)" by (metis surj_pair)
  note fs = finalize_safe [OF f]
  show ?thesis
  proof (cases r1)
    case (Inr x)
    with f assms have "db' = db1" "calls = c1" by (simp_all add: end_copy_run_def)
    with fs show ?thesis by simp
  next
    case (Inl err)
    obtain db2 c2 where g: "fail_copy_run e cwd i err (int (count_status DONE i db)) db1 = (db2, c2)" by (metis surj_pair)
    from f Inl g assms have "db' = db2" "calls = c1 @ c2" by (simp_all add: end_copy_run_def)
    moreover from fs Inl have a: "audited db db1" "c1 = []" by simp_all
    ultimately show ?thesis
      using fail_copy_run_safe [OF g] audited_frame(3,5,11) [OF a(1)] 
      unfolding engine_safe_def jobs_kept_def drives_bound_def
      by (simp add: audited_frame(10) [OF a(1)])
  qed
qed

lemma run_verify_job_safe:
  assumes "run_verify_job e host checksum_at is_dir i db = (db', calls)"
  shows "engine_safe db calls db'"
proof (cases "get_job i db")
  case None
  with assms show ?thesis by (simp add: run_verify_job_def engine_safe_audited)
next
  case (Some j)
  let ?v = "verified_files checksum_at is_dir j db"
  have v: "jobs ?v = jobs db" "drives ?v = drives db" by (simp_all add: verified_files_def)
  have j: "get_job i ?v = Some j" using Some by (simp add: get_job_def v)
  consider (none) "\<not> e_db_ok e ''verify_files''" | (files) "e_db_ok e ''verify_files''" "\<not> e_db_ok e ''verify_status''"
    | (both) "e_db_ok e ''verify_files''" "e_db_ok e ''verify_status''" by blast
  then show ?thesis
  proof cases
    case none
    with assms Some show ?thesis by (simp add: run_verify_job_def save_file_def engine_safe_audited)
  next
    case files
    with assms Some j have "db' = audit_persist_failed e i (job_status_value (j_status j)) ?v" "calls = []"
      by (simp_all add: run_verify_job_def save_file_def Let_def)
    then have "audited ?v db'" "calls = []" by auto
    then show ?thesis by (simp add: engine_safe_def drives_bound_same jobs_kept_same audited_frame v)
  next
    case both
    from run_verify_job_saved [OF assms Some both] obtain m where
      r: "jobs db' = upd_row j_id i (verify_update e m) (jobs db)" "drives db' = drives db" "\<forall>k. Schedule_copy k \<notin> set calls"
      by (auto simp: Let_def frame_simps v)
    have "jobs_kept db db'" by (rule jobs_kept_upd [OF r(1)]) (auto simp: verify_update_def engine_status_def)
    with r(2,3) show ?thesis by (simp add: engine_safe_def drives_bound_same)
  qed
qed

lemma begin_copy_run_safe: "begin_copy_run e i db = (db', r) \<Longrightarrow> engine_safe db [] db'"
proof -
  assume h: "begin_copy_run e i db = (db', r)"
  show "engine_safe db [] db'"
  proof (cases "db' = db")
    case False
    with h have r: "db' = set_job i (begin_update e) db" "\<And>j. get_job i db = Some j \<Longrightarrow> j_status j \<noteq> PAUSED"
      by (auto simp: begin_copy_run_def save_file_def split: option.splits if_splits)
    have "jobs_kept db db'"
      by (rule jobs_kept_upd [where g = "begin_update e" and i = i])
        (use r in \<open>auto simp: begin_update_def engine_status_def frame_simps\<close>)
    with r(1) show ?thesis by (simp add: engine_safe_def drives_bound_same frame_simps)
  qed (simp add: engine_safe_audited)
qed

lemma start_running_safe: "start_running e i db = (db', r) \<Longrightarrow> engine_safe db [] db'"
proof -
  assume h: "start_running e i db = (db', r)"
  let ?g = "\<lambda>j. j\<lparr>j_copy_started_at := Some (e_now e), j_status := RUNNING\<rparr>"
  show "engine_safe db [] db'"
  proof (cases "db' = db")
    case False
    with h have r: "db' = set_job i ?g db"
      by (auto simp: start_running_def save_file_def split: option.splits if_splits)
    have "jobs_kept db db'"
      by (rule jobs_kept_upd [where g = ?g and i = i]) (simp_all add: r engine_status_def frame_simps)
    with r show ?thesis by (simp add: engine_safe_def drives_bound_same frame_simps)
  qed (simp add: engine_safe_audited)
qed

lemma only_file_safe: "only_file i db db' \<Longrightarrow> engine_safe db [] db'"
  by (simp add: only_file_def engine_safe_def drives_bound_same jobs_kept_same)

lemma engine_step_safe: "engine_step db calls db' \<Longrightarrow> engine_safe db calls db'"
proof (induction rule: engine_step.induct)
  case (es_claim e f n db db' c)
  have "only_file f db db'"
  proof (cases c)
    case None
    with es_claim claim_file_None show ?thesis by fastforce
  next
    case (Some x)
    then show ?thesis using es_claim claim_file_Some by (cases x) blast
  qed
  then show ?case by (rule only_file_safe)
next
  case (es_finish args e st now f a n r db ns q db' ao)
  from finish_attempt_writer [OF es_finish] show ?case by (blast intro: only_file_safe)
next
  case (es_flush e i p db b db')
  then show ?case using flush_pending_safe by (simp add: engine_safe_def drives_bound_same)
qed (simp_all add: begin_copy_run_safe start_running_safe end_copy_run_safe run_verify_job_safe)

text \<open>The copy engine respects what requests rely on: no step of a run, a worker, the progress writer or a
  verification removes a job or moves it to another project, prepares a new run of a paused job, takes a drive away from its
  project, or archives a job; it only moves jobs between preparing, running, paused, completed and failed.\<close>

theorem engine_respects_jobs:
  assumes "engine_step db calls db'" "get_job i db = Some j"
  shows "\<exists>j'. get_job i db' = Some j' \<and> j_project_id j' = j_project_id j \<and>
    (j_status j' \<in> {j_status j, RUNNING, PAUSED, COMPLETED, JFAILED} \<or> j_status j' = PREPARING \<and> j_status j \<noteq> PAUSED) \<and>
    drives_bound db db' \<and> (\<forall>k. Schedule_copy k \<notin> set calls)"
  using engine_step_safe [OF assms(1)] assms(2) unfolding engine_safe_def jobs_kept_def engine_status_def by blast

end
