(* ===== verification/Workload_Profiles.thy ===== *)
theory Workload_Profiles
  imports Job_Safety
begin

text \<open>
  Workload profiles (\<open>app/services/workload_profiles.py\<close>) and the request that applies the recommended
  one. Percentages and ratios are exact rationals where the source has floats; the thresholds of the size classes are
  arguments. The percentages in audit details are left out.
\<close>

record workload_profile =
  wp_copy_chunk_size_bytes :: int
  wp_copy_progress_flush_bytes :: int
  wp_copy_default_thread_count :: int
  wp_copy_file_fsync_enabled :: bool

definition workload_profiles :: "(string \<times> workload_profile) list" where
  "workload_profiles =
     [(''small_files'', \<lparr>wp_copy_chunk_size_bytes = 1048576, wp_copy_progress_flush_bytes = 33554432,
         wp_copy_default_thread_count = 12, wp_copy_file_fsync_enabled = False\<rparr>),
      (''mixed'', \<lparr>wp_copy_chunk_size_bytes = 4194304, wp_copy_progress_flush_bytes = 67108864,
         wp_copy_default_thread_count = 12, wp_copy_file_fsync_enabled = False\<rparr>),
      (''large_files'', \<lparr>wp_copy_chunk_size_bytes = 8388608, wp_copy_progress_flush_bytes = 134217728,
         wp_copy_default_thread_count = 6, wp_copy_file_fsync_enabled = False\<rparr>),
      (''greedy'', \<lparr>wp_copy_chunk_size_bytes = 16777216, wp_copy_progress_flush_bytes = 268435456,
         wp_copy_default_thread_count = 12, wp_copy_file_fsync_enabled = False\<rparr>)]"

text \<open>\<open>round(x, 1)\<close>: the nearest multiple of a tenth, ties to even.\<close>

definition round_half_even :: "rat \<Rightarrow> int" where
  "round_half_even x =
     (let f = \<lfloor>x\<rfloor>; r = x - of_int f
      in if r < 1 / 2 then f else if 1 / 2 < r then f + 1 else if even f then f else f + 1)"

definition round1 :: "rat \<Rightarrow> rat" where
  "round1 x = of_int (round_half_even (x * 10)) / 10"

record size_summary =
  ss_small_files :: int
  ss_medium_files :: int
  ss_large_files :: int
  ss_small_files_percent :: rat
  ss_medium_files_percent :: rat
  ss_large_files_percent :: rat
  ss_average_file_size_bytes :: int
  ss_total_files :: int
  ss_total_bytes :: int

definition percent_of :: "int \<Rightarrow> int \<Rightarrow> rat" where
  "percent_of n m = round1 (of_int n / of_int m * 100)"

definition build_size_distribution_summary :: "size_distribution \<Rightarrow> size_summary" where
  "build_size_distribution_summary d =
     (let n = int (total_files d); b = max 0 (total_bytes d)
      in if n \<le> 0 then \<lparr>ss_small_files = 0, ss_medium_files = 0, ss_large_files = 0, ss_small_files_percent = 0,
           ss_medium_files_percent = 0, ss_large_files_percent = 0, ss_average_file_size_bytes = 0, ss_total_files = 0,
           ss_total_bytes = b\<rparr>
         else \<lparr>ss_small_files = int (small_files d), ss_medium_files = int (medium_files d),
           ss_large_files = int (large_files d), ss_small_files_percent = percent_of (int (small_files d)) n,
           ss_medium_files_percent = percent_of (int (medium_files d)) n,
           ss_large_files_percent = percent_of (int (large_files d)) n,
           ss_average_file_size_bytes = b div n, ss_total_files = n, ss_total_bytes = b\<rparr>)"

definition recommend_workload_profile :: "size_summary \<Rightarrow> string option" where
  "recommend_workload_profile s =
     (if ss_total_files s \<le> 0 then None
      else let small = ss_small_files_percent s / 100; large = ss_large_files_percent s / 100
           in Some (if 60 / 100 \<le> small then ''small_files''
                    else if 60 / 100 \<le> large then ''large_files''
                    else if 25 / 100 \<le> large \<and> small \<le> 20 / 100 \<and> 16 * 1024 * 1024 \<le> ss_average_file_size_bytes s
                    then ''greedy'' else ''mixed''))"

text \<open>\<open>apply_workload_profile\<close>: the flag tells whether anything changed.\<close>

definition tune_job :: "workload_profile \<Rightarrow> export_job \<Rightarrow> export_job" where
  "tune_job p j = j\<lparr>j_copy_chunk_size_bytes := Some (wp_copy_chunk_size_bytes p),
     j_copy_progress_flush_bytes := Some (wp_copy_progress_flush_bytes p),
     j_thread_count := Some (wp_copy_default_thread_count p), j_copy_file_fsync_enabled := Some (wp_copy_file_fsync_enabled p)\<rparr>"

definition apply_workload_profile :: "string \<Rightarrow> export_job \<Rightarrow> bool \<times> export_job" where
  "apply_workload_profile key j =
     (case map_of workload_profiles key of
        None \<Rightarrow> (False, j)
      | Some p \<Rightarrow>
          (j_copy_chunk_size_bytes j \<noteq> Some (wp_copy_chunk_size_bytes p) \<or>
           j_copy_progress_flush_bytes j \<noteq> Some (wp_copy_progress_flush_bytes p) \<or>
           j_thread_count j \<noteq> Some (wp_copy_default_thread_count p) \<or>
           j_copy_file_fsync_enabled j \<noteq> Some (wp_copy_file_fsync_enabled p), tune_job p j))"

definition job_has_explicit_copy_tuning_overrides :: "settings \<Rightarrow> export_job \<Rightarrow> bool" where
  "job_has_explicit_copy_tuning_overrides st j =
     (j_thread_count j \<notin> {None, Some (st_copy_default_thread_count st)} \<or>
      j_copy_chunk_size_bytes j \<notin> {None, Some (st_copy_chunk_size_bytes st)} \<or>
      j_copy_progress_flush_bytes j \<notin> {None, Some (st_copy_progress_flush_bytes st)} \<or>
      j_copy_file_fsync_enabled j \<notin> {None, Some (st_copy_file_fsync_enabled st)})"

definition workload_recommendation :: "int \<Rightarrow> int \<Rightarrow> int \<Rightarrow> db \<Rightarrow> size_summary \<times> string option" where
  "workload_recommendation small_max large_min job_id db =
     (let s = build_size_distribution_summary (summarize_file_size_distribution job_id small_max large_min db)
      in (s, recommend_workload_profile s))"

definition audit_profile_applied :: "env \<Rightarrow> export_job \<Rightarrow> int option \<Rightarrow> string \<Rightarrow> bool \<Rightarrow> bool \<Rightarrow> size_summary \<Rightarrow> db \<Rightarrow> db" where
  "audit_profile_applied e j drive_id key changed overrides s =
     best_effort_audit e ''JOB_WORKLOAD_PROFILE_APPLIED'' (Some (j_project_id j)) drive_id (Some (j_id j))
       [(''profile'', JStr key), (''applied'', JBool changed), (''had_manual_overrides'', JBool overrides),
        (''reason'', JStr ''manual_apply_recommendation''), (''small_files'', JInt (ss_small_files s)),
        (''medium_files'', JInt (ss_medium_files s)), (''large_files'', JInt (ss_large_files s))]"

definition apply_recommended_workload_profile :: "env \<Rightarrow> settings \<Rightarrow> int \<Rightarrow> int \<Rightarrow> int \<Rightarrow> db \<Rightarrow> job_result" where
  "apply_recommended_workload_profile e st small_max large_min job_id db =
     with_job e job_id db (\<lambda>j.
       if analysis_running j then job_fail Analysis_running db
       else if j_status j \<in> {PREPARING, RUNNING, PAUSING, VERIFYING} then job_fail Bad_job_status db
       else case workload_recommendation small_max large_min job_id db of
         (s, None) \<Rightarrow> job_fail No_recommendation db
       | (s, Some key) \<Rightarrow>
           (let (changed, j') = apply_workload_profile key j;
                w = set_job job_id (\<lambda>j. snd (apply_workload_profile key j)) db;
                w = audit_profile_applied e j' (active_drive_id job_id w) key changed
                      (job_has_explicit_copy_tuning_overrides st j) s w
            in if changed then save_job e w db (w, [], Inr j') else (w, [], Inr j')))"

section \<open>Rounding and recommendation\<close>

lemma round_half_even_close: "\<bar>of_int (round_half_even x) - x\<bar> \<le> 1 / 2"
proof -
  have "of_int \<lfloor>x\<rfloor> \<le> x" "x < of_int \<lfloor>x\<rfloor> + 1" by linarith+
  then show ?thesis by (auto simp: round_half_even_def Let_def abs_le_iff)
qed

lemma round1_close: "\<bar>round1 x - x\<bar> \<le> 1 / 20"
  using round_half_even_close [of "x * 10"] by (simp add: round1_def abs_le_iff field_simps)

lemma percent_of_bounds:
  assumes "0 < m" "percent_of n m \<ge> p"
  shows "p - 1 / 20 \<le> of_int n / of_int m * 100"
  using round1_close [of "of_int n / of_int m * 100"] assms(2) unfolding percent_of_def by (simp only: abs_le_iff) linarith

text \<open>The recommendation matches the sizes: it is given for every non-empty source and names an existing
  profile; small-file tuning is recommended only if, up to the rounding of the percentages, at least sixty percent of
  the files are small, and large-file tuning only if at least sixty percent are large.\<close>

theorem recommendation_sound:
  assumes "summarize_file_size_distribution job_id small_max large_min db = d" "0 < total_files d"
  shows "\<exists>key p. recommend_workload_profile (build_size_distribution_summary d) = Some key \<and>
    map_of workload_profiles key = Some p \<and>
    (key = ''small_files'' \<longrightarrow> 5995 * int (total_files d) \<le> 10000 * int (small_files d)) \<and>
    (key = ''large_files'' \<longrightarrow> 5995 * int (total_files d) \<le> 10000 * int (large_files d))"
proof -
  let ?n = "int (total_files d)"
  have scale: "5995 * ?n \<le> 10000 * k" if "60 \<le> percent_of k ?n" for k
  proof -
    have "(60 :: rat) - 1 / 20 \<le> of_int k / of_int ?n * 100" using percent_of_bounds [OF _ that] assms(2) by simp
    then have "(5995 :: rat) * of_int ?n \<le> 10000 * of_int k" using assms(2) by (simp add: field_simps)
    then have "(of_int (5995 * ?n) :: rat) \<le> of_int (10000 * k)" by simp
    then show ?thesis by (simp only: of_int_le_iff)
  qed
  show ?thesis
    using assms(2) scale [of "int (small_files d)"] scale [of "int (large_files d)"]
    by (auto simp: recommend_workload_profile_def build_size_distribution_summary_def Let_def workload_profiles_def)
qed

lemma tune_job_keys: "j_id (snd (apply_workload_profile key j)) = j_id j" "j_status (snd (apply_workload_profile key j)) = j_status j"
  "j_project_id (snd (apply_workload_profile key j)) = j_project_id j"
  by (simp_all add: apply_workload_profile_def tune_job_def split: option.splits)

lemma workload_profile_positive:
  "map_of workload_profiles key = Some p \<Longrightarrow>
    0 < wp_copy_default_thread_count p \<and> 0 < wp_copy_chunk_size_bytes p \<and> wp_copy_chunk_size_bytes p \<le> wp_copy_progress_flush_bytes p"
  by (auto simp: workload_profiles_def split: if_splits)

text \<open>Applying the recommended profile takes effect: it succeeds only for a job without active copy work that has
  been analysed; afterwards every copy parameter that the engine resolves for the job is that of the recommended
  profile, the status is unchanged, and applying the profile again would change nothing.\<close>

theorem apply_profile_effective:
  assumes "apply_recommended_workload_profile e st small_max large_min i db = (db', calls, Inr j')"
  shows "\<exists>j key p. get_job i db = Some j \<and> j_status j \<notin> {PREPARING, RUNNING, PAUSING, VERIFYING} \<and>
    snd (workload_recommendation small_max large_min i db) = Some key \<and> map_of workload_profiles key = Some p \<and>
    get_job i db' = Some j' \<and> j_status j' = j_status j \<and>
    effective_thread_count (resolve_job_copy_tuning st j') = wp_copy_default_thread_count p \<and>
    effective_copy_chunk_size_bytes (resolve_job_copy_tuning st j') = wp_copy_chunk_size_bytes p \<and>
    effective_copy_progress_flush_bytes (resolve_job_copy_tuning st j') = wp_copy_progress_flush_bytes p \<and>
    effective_copy_file_fsync_enabled (resolve_job_copy_tuning st j') = wp_copy_file_fsync_enabled p \<and>
    apply_workload_profile key j' = (False, j')"
  using assms unfolding apply_recommended_workload_profile_def
proof (cases rule: with_job_cases)
  case (row j)
  obtain s r where s: "workload_recommendation small_max large_min i db = (s, r)" by (metis surj_pair)
  from row(2) s obtain key where c: "j_status j \<notin> {PREPARING, RUNNING, PAUSING, VERIFYING}" "r = Some key"
    by (auto simp: job_fail_def split: if_splits option.splits)
  have "recommend_workload_profile s = Some key"
    using s c(2) by (auto simp: workload_recommendation_def Let_def)
  then obtain p where p: "map_of workload_profiles key = Some p"
    by (auto simp: recommend_workload_profile_def workload_profiles_def Let_def split: if_splits)
  obtain ch where ap: "apply_workload_profile key j = (ch, tune_job p j)" by (simp add: apply_workload_profile_def p)
  define w where "w = set_job i (\<lambda>j. snd (apply_workload_profile key j)) db"
  have r: "audited w db' \<and> j' = tune_job p j"
    using row(2) s c ap unfolding w_def [symmetric]
    by (auto simp: save_job_def job_fail_def audit_profile_applied_def Let_def w_def [symmetric] split: if_splits)
  have "get_job i w = Some (tune_job p j)"
    using row(1) ap by (simp add: w_def get_set_job tune_job_keys)
  with r have "get_job i db' = Some j'" by (simp add: audited_frame(11) [OF conjunct1 [OF r]])
  moreover have "apply_workload_profile key j' = (False, j')"
    using r p by (simp add: apply_workload_profile_def tune_job_def)
  ultimately show ?thesis
    using row(1) c p s r workload_profile_positive [OF p]
    by (auto simp: tune_job_def resolve_job_copy_tuning_def int_or_def normalize_progress_flush_threshold_bytes_def Let_def)
qed simp

lemma apply_profile_drives:
  assumes "apply_recommended_workload_profile e st small_max large_min i db = (db', calls, r)"
  shows "drives db' = drives db"
  using assms unfolding apply_recommended_workload_profile_def with_job_def
  by (auto simp: job_fail_def save_job_def audit_profile_applied_def best_effort_audit_def audit_add_def audit_add_uncommitted_def
      set_job_def Let_def split: locked.splits option.splits if_splits prod.splits)

end
