(* ===== verification/Startup_Analysis.thy ===== *)
theory Startup_Analysis
  imports Copy_Safety Workload_Profiles
begin

text \<open>
  The start-up analysis of the copy engine (\<open>app/services/copy_engine.py\<close>): the scan of the source into
  file rows and cache entries, the checks whether a cache is still current, and the preparation of a job. What the
  host shows of the source is an argument: the walk over the tree with sizes and modification times (or the error
  that ends it), and the state of single paths. A failing flush of the session ends like a failing commit and has no
  name of its own. The benchmark of the transfer rates is an argument.
\<close>

section \<open>The source\<close>

datatype tree_entry = Tree_dir string "int option" | Tree_file string int

record source_host =
  sh_walk :: "string \<Rightarrow> tree_entry list \<times> string option"
  sh_is_dir :: "string \<Rightarrow> bool"
  sh_file_size :: "string \<Rightarrow> int option"
  sh_dir_mtime :: "string \<Rightarrow> int option"

definition source_path_for_relative_path :: "source_host \<Rightarrow> string \<Rightarrow> string \<Rightarrow> string" where
  "source_path_for_relative_path h source rel = (if sh_is_dir h source then path_join source rel else source)"

definition source_directory :: "string \<Rightarrow> string \<Rightarrow> string" where
  "source_directory source rel = (if rel = [] then source else path_join source rel)"

section \<open>Writing the cache\<close>

text \<open>\<open>_persist_startup_analysis_file_batch\<close>: the rows of the batch are looked up once, before any of
  them is written; of two rows with one path the later counts.\<close>

definition existing_file :: "int \<Rightarrow> string \<Rightarrow> export_file list \<Rightarrow> export_file option" where
  "existing_file job_id rel fs = map_of (rev (map (\<lambda>f. (f_relative_path f, f)) (filter (\<lambda>f. f_job_id f = job_id) fs))) rel"

definition refresh_file :: "int \<Rightarrow> int \<Rightarrow> export_file \<Rightarrow> export_file" where
  "refresh_file revision size_bytes f =
     (let f = f\<lparr>f_size_bytes := Some size_bytes, f_startup_analysis_revision := revision\<rparr>
      in if f_status f \<noteq> DONE then pending_again f else f)"

definition new_file :: "export_job \<Rightarrow> int \<Rightarrow> int \<Rightarrow> string \<Rightarrow> int \<Rightarrow> export_file" where
  "new_file j revision i rel size_bytes =
     \<lparr>f_id = i, f_job_id = j_id j, f_drive_assignment_id = None, f_project_id = j_project_id j, f_relative_path = rel,
      f_size_bytes = Some size_bytes, f_checksum = None, f_status = FPENDING, f_error_message = None, f_retry_attempts = 0,
      f_startup_analysis_revision = revision\<rparr>"

definition upsert_file :: "export_job \<Rightarrow> int \<Rightarrow> export_file list \<Rightarrow> export_file list \<Rightarrow> string \<times> int \<Rightarrow> export_file list" where
  "upsert_file j revision known fs x =
     (case x of (rel, size_bytes) \<Rightarrow>
        (case existing_file (j_id j) rel known of
           Some f \<Rightarrow> upd_row f_id (f_id f) (refresh_file revision size_bytes) fs
         | None \<Rightarrow> fs @ [new_file j revision (next_id f_id fs) rel size_bytes]))"

definition persist_file_batch :: "export_job \<Rightarrow> int \<Rightarrow> (string \<times> int) list \<Rightarrow> db \<Rightarrow> db" where
  "persist_file_batch j revision batch db = db\<lparr>files := foldl (upsert_file j revision (files db)) (files db) batch\<rparr>"

definition persist_entry_batch :: "int \<Rightarrow> string \<Rightarrow> (string \<times> int) list \<Rightarrow> db \<Rightarrow> db" where
  "persist_entry_batch job_id entry_type batch db =
     db\<lparr>entries := foldl (\<lambda>ns (rel, v). ns @ [\<lparr>n_id = next_id n_id ns, n_job_id = job_id, n_entry_type = entry_type,
         n_relative_path = rel, n_size_bytes = (if entry_type = ''file'' then Some v else None),
         n_mtime_ns = (if entry_type = ''directory'' then Some v else None)\<rparr>]) (entries db) batch\<rparr>"

definition persist_files :: "export_job \<Rightarrow> int \<Rightarrow> (string \<times> int) list \<Rightarrow> db \<Rightarrow> db" where
  "persist_files j revision batch db = persist_entry_batch (j_id j) ''file'' batch (persist_file_batch j revision batch db)"

text \<open>\<open>_persist_startup_analysis_cache\<close>: one pass over the walk with bounded batches.\<close>

record scan_state =
  sc_file_batch :: "(string \<times> int) list"
  sc_directory_batch :: "(string \<times> int) list"
  sc_sample_files :: "string list"
  sc_file_count :: int
  sc_total_bytes :: int
  sc_session :: db

definition startup_analysis_sample_limit :: nat where
  "startup_analysis_sample_limit = 16"

definition scan_entry :: "nat \<Rightarrow> export_job \<Rightarrow> int \<Rightarrow> scan_state \<Rightarrow> tree_entry \<Rightarrow> string + scan_state" where
  "scan_entry batch_size j revision s x =
     (case x of
        Tree_dir rel mtime \<Rightarrow>
          (case mtime of
             None \<Rightarrow> Inl ''directory is not readable''
           | Some t \<Rightarrow>
               (let batch = sc_directory_batch s @ [(rel, t)]
                in Inr (if batch_size \<le> length batch
                        then s\<lparr>sc_directory_batch := [], sc_session := persist_entry_batch (j_id j) ''directory'' batch (sc_session s)\<rparr>
                        else s\<lparr>sc_directory_batch := batch\<rparr>)))
      | Tree_file rel size_bytes \<Rightarrow>
          (let batch = sc_file_batch s @ [(rel, size_bytes)];
               s = s\<lparr>sc_sample_files := (if length (sc_sample_files s) < startup_analysis_sample_limit
                       then sc_sample_files s @ [rel] else sc_sample_files s),
                     sc_file_count := sc_file_count s + 1, sc_total_bytes := sc_total_bytes s + size_bytes\<rparr>
           in Inr (if batch_size \<le> length batch
                   then s\<lparr>sc_file_batch := [], sc_session := persist_files j revision batch (sc_session s)\<rparr>
                   else s\<lparr>sc_file_batch := batch\<rparr>)))"

fun scan_tree :: "nat \<Rightarrow> export_job \<Rightarrow> int \<Rightarrow> tree_entry list \<Rightarrow> scan_state \<Rightarrow> string + scan_state" where
  "scan_tree batch_size j revision [] s = Inr s"
| "scan_tree batch_size j revision (x # xs) s =
     (case scan_entry batch_size j revision s x of Inl err \<Rightarrow> Inl err | Inr s' \<Rightarrow> scan_tree batch_size j revision xs s')"

definition start_revision :: "int \<Rightarrow> export_job \<Rightarrow> export_job" where
  "start_revision revision j = j\<lparr>j_analysis := (j_analysis j)\<lparr>sa_revision := revision, sa_cache_present := False, sa_entries := None\<rparr>\<rparr>"

definition finish_revision :: "int \<Rightarrow> int \<Rightarrow> export_job \<Rightarrow> export_job" where
  "finish_revision n_files n_bytes j =
     j\<lparr>j_analysis := (j_analysis j)\<lparr>sa_file_count := Some n_files, sa_total_bytes := Some n_bytes,
        sa_cache_present := True, sa_entries := None\<rparr>\<rparr>"

definition drop_old_revisions :: "int \<Rightarrow> int \<Rightarrow> db \<Rightarrow> db" where
  "drop_old_revisions job_id revision db =
     db\<lparr>files := filter (\<lambda>f. \<not> (f_job_id f = job_id \<and> f_startup_analysis_revision f \<noteq> revision)) (files db)\<rparr>"

definition scan_start :: "export_job \<Rightarrow> db \<Rightarrow> scan_state" where
  "scan_start j db = \<lparr>sc_file_batch = [], sc_directory_batch = [], sc_sample_files = [], sc_file_count = 0, sc_total_bytes = 0,
     sc_session = delete_entries_by_job (j_id j) (set_job (j_id j) (start_revision (sa_revision (j_analysis j) + 1)) db)\<rparr>"

definition scan_flush :: "export_job \<Rightarrow> int \<Rightarrow> scan_state \<Rightarrow> db" where
  "scan_flush j revision s =
     (let w = sc_session s;
          w = (if sc_file_batch s \<noteq> [] then persist_files j revision (sc_file_batch s) w else w);
          w = (if sc_directory_batch s \<noteq> [] then persist_entry_batch (j_id j) ''directory'' (sc_directory_batch s) w else w)
      in set_job (j_id j) (finish_revision (sc_file_count s) (sc_total_bytes s)) (drop_old_revisions (j_id j) revision w))"

definition persist_startup_analysis_cache ::
  "env \<Rightarrow> source_host \<Rightarrow> nat \<Rightarrow> export_job \<Rightarrow> db \<Rightarrow> string + (db \<times> int \<times> int \<times> string list)" where
  "persist_startup_analysis_cache e h batch_size j db =
     (let revision = sa_revision (j_analysis j) + 1; (xs, stop) = sh_walk h (j_source_path j)
      in case scan_tree batch_size j revision xs (scan_start j db) of
           Inl err \<Rightarrow> Inl err
         | Inr s \<Rightarrow>
             (case stop of
                Some err \<Rightarrow> Inl err
              | None \<Rightarrow>
                  if e_db_ok e ''analysis_cache''
                  then Inr (scan_flush j revision s, sc_file_count s, sc_total_bytes s,
                            map (source_path_for_relative_path h (j_source_path j)) (sc_sample_files s))
                  else Inl ''database error''))"

section \<open>The legacy cache\<close>

text \<open>\<open>_load_legacy_startup_analysis_cache\<close>: a JSON list in the job row. A Python \<open>bool\<close> is an
  \<open>int\<close>.\<close>

definition json_int :: "jval \<Rightarrow> int option" where
  "json_int v = (case v of JInt n \<Rightarrow> Some n | JBool b \<Rightarrow> Some (if b then 1 else 0) | _ \<Rightarrow> None)"

definition json_count :: "jval \<Rightarrow> int option" where
  "json_count v = (case json_int v of None \<Rightarrow> None | Some n \<Rightarrow> if n < 0 then None else Some n)"

type_synonym legacy_cache = "(string \<times> int) list \<times> (string \<times> int) list \<times> int \<times> int"

fun load_legacy_entries :: "jval list \<Rightarrow> ((string \<times> int) list \<times> (string \<times> int) list) option" where
  "load_legacy_entries [] = Some ([], [])"
| "load_legacy_entries (JObj kvs # vs) =
     (case jget ''relative_path'' (JObj kvs) of
        JStr rel \<Rightarrow>
          if take 1 rel = ''/'' \<or> ''..'' \<in> set (split_on sep rel) then None
          else if jget ''entry_type'' (JObj kvs) = JStr ''directory'' then
            (case json_count (jget ''mtime_ns'' (JObj kvs)) of
               None \<Rightarrow> None
             | Some t \<Rightarrow> (case load_legacy_entries vs of None \<Rightarrow> None | Some (fs, ds) \<Rightarrow> Some (fs, (rel, t) # ds)))
          else if rel = [] then None
          else (case json_count (jget ''size_bytes'' (JObj kvs)) of
                  None \<Rightarrow> None
                | Some n \<Rightarrow> (case load_legacy_entries vs of None \<Rightarrow> None | Some (fs, ds) \<Rightarrow> Some ((rel, n) # fs, ds)))
      | _ \<Rightarrow> None)"
| "load_legacy_entries (_ # vs) = None"

definition load_legacy_cache :: "export_job \<Rightarrow> legacy_cache option" where
  "load_legacy_cache j =
     (let sa = j_analysis j
      in case (sa_entries sa, sa_file_count sa, sa_total_bytes sa) of
           (Some (JList vs), Some n_files, Some n_bytes) \<Rightarrow>
             (case load_legacy_entries vs of
                None \<Rightarrow> None
              | Some (fs, ds) \<Rightarrow>
                  if int (length fs) \<noteq> n_files then None
                  else if sum_list (map snd fs) \<noteq> n_bytes then None
                  else Some (fs, ds, n_files, n_bytes))
         | _ \<Rightarrow> None)"

section \<open>Is a cache current?\<close>

text \<open>The two checks differ only in where the rows come from. A check stops at the first row that does not match
  the source; \<open>None\<close> is a mismatch.\<close>

fun fold_checked :: "('a \<Rightarrow> 'r \<Rightarrow> 'a option) \<Rightarrow> 'r list \<Rightarrow> 'a \<Rightarrow> 'a option" where
  "fold_checked f [] acc = Some acc"
| "fold_checked f (r # rs) acc = (case f acc r of None \<Rightarrow> None | Some acc' \<Rightarrow> fold_checked f rs acc')"

definition check_source_file :: "source_host \<Rightarrow> string \<Rightarrow> int \<times> int \<Rightarrow> string \<times> int \<Rightarrow> (int \<times> int) option" where
  "check_source_file h source acc x =
     (case sh_file_size h (source_path_for_relative_path h source (fst x)) of
        None \<Rightarrow> None
      | Some actual \<Rightarrow> if actual \<noteq> snd x then None else Some (fst acc + 1, snd acc + snd x))"

definition check_source_directory :: "source_host \<Rightarrow> string \<Rightarrow> bool \<Rightarrow> string \<times> int \<Rightarrow> bool option" where
  "check_source_directory h source saw_root x =
     (let p = source_directory source (fst x)
      in if \<not> sh_is_dir h p then None
         else case sh_dir_mtime h p of
           None \<Rightarrow> None
         | Some actual \<Rightarrow> if actual \<noteq> snd x then None else Some (saw_root \<or> fst x = []))"

definition legacy_cache_is_current :: "source_host \<Rightarrow> string \<Rightarrow> legacy_cache \<Rightarrow> bool" where
  "legacy_cache_is_current h source cache =
     (case cache of (fs, ds, n_files, n_bytes) \<Rightarrow>
        if int (length fs) \<noteq> n_files then False
        else case fold_checked (check_source_file h source) fs (0, 0) of
          None \<Rightarrow> False
        | Some (_, computed) \<Rightarrow>
            if computed \<noteq> n_bytes then False
            else case fold_checked (check_source_directory h source) ds (\<not> sh_is_dir h source) of
              None \<Rightarrow> False
            | Some saw_root \<Rightarrow> saw_root)"

text \<open>The persisted cache is read page by page, each page after the greatest identifier seen so far
  (\<open>list_by_job_after_id\<close>).\<close>

definition page_after :: "('r \<Rightarrow> int) \<Rightarrow> nat \<Rightarrow> 'r list \<Rightarrow> int option \<Rightarrow> 'r list" where
  "page_after key n rs after = paged (Some n) 0 (case after of None \<Rightarrow> rs | Some i \<Rightarrow> filter (\<lambda>r. i < key r) rs)"

lemma page_after_shorter:
  assumes "page_after key n rs after \<noteq> []"
  shows "length (filter (\<lambda>r. key (last (page_after key n rs after)) < key r) rs)
       < length (case after of None \<Rightarrow> rs | Some i \<Rightarrow> filter (\<lambda>r. i < key r) rs)"
proof -
  let ?all = "case after of None \<Rightarrow> rs | Some i \<Rightarrow> filter (\<lambda>r. i < key r) rs"
  let ?l = "last (page_after key n rs after)"
  have page: "page_after key n rs after = take n ?all" by (simp add: page_after_def paged_def)
  have "set (take n ?all) \<subseteq> set ?all" by (rule set_take_subset)
  moreover have "?l \<in> set (take n ?all)" using assms unfolding page by (rule last_in_set)
  ultimately have l: "?l \<in> set ?all" by blast
  have eq: "filter (\<lambda>r. key ?l < key r) rs = filter (\<lambda>r. key ?l < key r) ?all"
    using l by (auto split: option.splits intro!: filter_cong)
  show ?thesis unfolding eq by (rule length_filter_less [OF l]) simp
qed

function paged_check :: "('r \<Rightarrow> int) \<Rightarrow> nat \<Rightarrow> ('a \<Rightarrow> 'r \<Rightarrow> 'a option) \<Rightarrow> 'r list \<Rightarrow> int option \<Rightarrow> 'a \<Rightarrow> 'a option" where
  "paged_check key n f rs after acc =
     (let page = page_after key n rs after
      in if page = [] then Some acc
         else case fold_checked f page acc of
           None \<Rightarrow> None
         | Some acc' \<Rightarrow> paged_check key n f rs (Some (key (last page))) acc')"
  by pat_completeness auto

termination paged_check
  by (relation "measure (\<lambda>(key, n, f, rs, after, acc). length (case after of None \<Rightarrow> rs | Some i \<Rightarrow> filter (\<lambda>r. i < key r) rs))")
    (simp_all add: page_after_shorter)

declare paged_check.simps [simp del]

definition check_file_row :: "source_host \<Rightarrow> string \<Rightarrow> int \<Rightarrow> int \<times> int \<Rightarrow> export_file \<Rightarrow> (int \<times> int) option" where
  "check_file_row h source revision acc f =
     (if f_startup_analysis_revision f \<noteq> revision then None
      else check_source_file h source acc (f_relative_path f, or_zero (f_size_bytes f)))"

definition check_directory_row :: "source_host \<Rightarrow> string \<Rightarrow> bool \<Rightarrow> analysis_entry \<Rightarrow> bool option" where
  "check_directory_row h source saw_root n = check_source_directory h source saw_root (n_relative_path n, or_zero (n_mtime_ns n))"

text \<open>Each page is what the repository returns for the cursor.\<close>

lemma page_is_query:
  "list_by_job_after_id job_id after (Some n) db = page_after f_id n (list_by_job job_id None None 0 db) after"
  "list_entries_by_job_after_id job_id t after (Some n) db = page_after n_id n (list_entries_by_job job_id t None 0 db) after"
  by (simp_all add: list_by_job_after_id_def list_entries_by_job_after_id_def page_after_def list_by_job_def
      list_entries_by_job_def paged_def Let_def)

definition cached_analysis_is_current :: "source_host \<Rightarrow> nat \<Rightarrow> export_job \<Rightarrow> db \<Rightarrow> bool" where
  "cached_analysis_is_current h batch_size j db =
     (let sa = j_analysis j; source = j_source_path j; n_files = or_zero (sa_file_count sa); n_bytes = or_zero (sa_total_bytes sa)
      in if n_files \<le> 0 \<or> n_bytes < 0 \<or> sa_revision sa \<le> 0 then False
         else case paged_check f_id batch_size (check_file_row h source (sa_revision sa))
                     (list_by_job (j_id j) None None 0 db) None (0, 0) of
           None \<Rightarrow> False
         | Some (n, b) \<Rightarrow>
             if n \<noteq> n_files \<or> b \<noteq> n_bytes then False
             else case paged_check n_id batch_size (check_directory_row h source)
                         (list_entries_by_job (j_id j) (Some ''directory'') None 0 db) None (\<not> sh_is_dir h source) of
               None \<Rightarrow> False
             | Some saw_root \<Rightarrow> saw_root)"

section \<open>Taking over a legacy cache\<close>

function batches_of :: "nat \<Rightarrow> 'a list \<Rightarrow> 'a list list" where
  "batches_of n xs = (if n = 0 \<or> xs = [] then [] else take n xs # batches_of n (drop n xs))"
  by pat_completeness auto

termination batches_of
  by (relation "measure (\<lambda>(n, xs). length xs)") auto

declare batches_of.simps [simp del]

definition start_legacy_revision :: "int \<Rightarrow> export_job \<Rightarrow> export_job" where
  "start_legacy_revision revision j = j\<lparr>j_analysis := (j_analysis j)\<lparr>sa_revision := revision, sa_cache_present := False\<rparr>\<rparr>"

definition persist_legacy_cache ::
  "env \<Rightarrow> source_host \<Rightarrow> nat \<Rightarrow> export_job \<Rightarrow> legacy_cache \<Rightarrow> db \<Rightarrow> string + (db \<times> string list)" where
  "persist_legacy_cache e h batch_size j cache db =
     (case cache of (fs, ds, n_files, n_bytes) \<Rightarrow>
        (let revision = sa_revision (j_analysis j) + 1;
             w = delete_entries_by_job (j_id j) (set_job (j_id j) (start_legacy_revision revision) db);
             w = foldl (\<lambda>w batch. persist_files j revision batch w) w (batches_of batch_size fs);
             w = foldl (\<lambda>w batch. persist_entry_batch (j_id j) ''directory'' batch w) w (batches_of batch_size ds);
             w = set_job (j_id j) (finish_revision n_files n_bytes) (drop_old_revisions (j_id j) revision w)
         in if e_db_ok e ''analysis_cache''
            then Inr (w, map (\<lambda>x. source_path_for_relative_path h (j_source_path j) (fst x)) (take startup_analysis_sample_limit fs))
            else Inl ''database error''))"

section \<open>The benchmark\<close>

definition round2 :: "rat \<Rightarrow> rat" where
  "round2 x = of_int (round_half_even (x * 100)) / 100"

definition calculate_transfer_rate_mbps :: "int \<Rightarrow> rat \<Rightarrow> rat option" where
  "calculate_transfer_rate_mbps transferred elapsed =
     (if transferred \<le> 0 \<or> elapsed \<le> 0 then None
      else let rate = of_int (transferred * 8) / (1024 * 1024) / elapsed
           in if rate \<le> 0 then None else Some (max (1 / 100) (round2 rate)))"

definition estimate_duration_seconds :: "int \<Rightarrow> rat option \<Rightarrow> rat \<Rightarrow> int \<Rightarrow> int option" where
  "estimate_duration_seconds n_bytes rate overhead n_files =
     (if n_bytes \<le> 0 then Some 0
      else case rate of
        None \<Rightarrow> None
      | Some r \<Rightarrow>
          if r \<le> 0 then None
          else Some (max 1 \<lceil>of_int (n_bytes * 8) / (1024 * 1024) / r + max 0 overhead * of_int (max 0 n_files)\<rceil>))"

definition calculate_effective_copy_rate_mbps :: "int \<Rightarrow> rat \<Rightarrow> rat \<Rightarrow> rat option" where
  "calculate_effective_copy_rate_mbps n_bytes read_seconds write_seconds =
     calculate_transfer_rate_mbps n_bytes (max 0 read_seconds + max 0 write_seconds)"

definition calculate_per_file_overhead_seconds :: "int \<Rightarrow> rat \<Rightarrow> rat \<Rightarrow> rat \<Rightarrow> rat \<Rightarrow> rat" where
  "calculate_per_file_overhead_seconds n_samples read_all read_stream write_all write_stream =
     (if n_samples \<le> 0 then 0 else max 0 (read_all - read_stream + (write_all - write_stream)) / of_int n_samples)"

text \<open>The provider of the measurements: rate, bytes and seconds of reading the plan, rate and seconds of writing it.\<close>

record benchmark_provider =
  bp_read :: "(string \<times> int) list \<Rightarrow> string + (rat option \<times> int \<times> rat \<times> rat)"
  bp_write :: "string \<Rightarrow> (string \<times> int) list \<Rightarrow> string + (rat option \<times> rat \<times> rat)"

record benchmark_details =
  bd_share_read_mbps :: "rat option"
  bd_drive_write_mbps :: "rat option"
  bd_estimated_duration_seconds :: "int option"
  bd_benchmark_bytes :: int

definition no_benchmark :: benchmark_details where
  "no_benchmark = \<lparr>bd_share_read_mbps = None, bd_drive_write_mbps = None, bd_estimated_duration_seconds = None, bd_benchmark_bytes = 0\<rparr>"

definition int_or_else :: "int \<Rightarrow> int \<Rightarrow> int" where
  "int_or_else a b = (if a \<noteq> 0 then a else b)"

definition measure_transfer_rates ::
  "source_host \<Rightarrow> benchmark_provider \<Rightarrow> int \<Rightarrow> export_job \<Rightarrow> string list \<Rightarrow> int \<Rightarrow> string + benchmark_details" where
  "measure_transfer_rates h bp wanted j sources n_bytes =
     (if n_bytes \<le> 0 then Inr (no_benchmark\<lparr>bd_estimated_duration_seconds := Some 0\<rparr>)
      else let sample_bytes = min wanted n_bytes;
               plan = build_benchmark_sample_plan (map (\<lambda>p. (p, sh_file_size h p)) sources) sample_bytes
           in case bp_read bp plan of
                Inl err \<Rightarrow> Inl err
              | Inr (read_rate, read_bytes, read_all, read_stream) \<Rightarrow>
                  (case bp_write bp (case j_target_mount_path j of None \<Rightarrow> [] | Some t \<Rightarrow> t) plan of
                     Inl err \<Rightarrow> Inl err
                   | Inr (write_rate, write_all, write_stream) \<Rightarrow>
                       (let measured = int_or_else read_bytes (int_or_else (sum_list (map snd plan)) sample_bytes);
                            rate = calculate_effective_copy_rate_mbps measured read_stream write_stream;
                            overhead = calculate_per_file_overhead_seconds (int (length plan)) read_all read_stream write_all write_stream
                        in Inr \<lparr>bd_share_read_mbps = read_rate, bd_drive_write_mbps = write_rate,
                              bd_estimated_duration_seconds = estimate_duration_seconds n_bytes rate overhead (int (length sources)),
                              bd_benchmark_bytes = measured\<rparr>)))"

section \<open>Preparing a job\<close>

text \<open>\<open>prepare_job_startup_analysis\<close>: the database in the result is the committed one. Between its commits no
  other transaction touches the rows of the job. The rates and the percentages in audit details are left out.\<close>

record analysis_config =
  ac_batch_size :: nat
  ac_small_max :: int
  ac_large_min :: int
  ac_benchmark_bytes :: int
  ac_cwd :: string

definition mark_stale :: "export_job \<Rightarrow> export_job" where
  "mark_stale j = j\<lparr>j_analysis := (j_analysis j)\<lparr>sa_status := STALE\<rparr>\<rparr>"

record resolved_cache =
  rc_file_count :: int
  rc_total_bytes :: int
  rc_sample_files :: "string list"
  rc_reused :: bool

definition scan_again :: "env \<Rightarrow> source_host \<Rightarrow> nat \<Rightarrow> export_job \<Rightarrow> db \<Rightarrow> db \<times> (string + resolved_cache)" where
  "scan_again e h batch_size j db =
     (case persist_startup_analysis_cache e h batch_size j db of
        Inl err \<Rightarrow> (db, Inl err)
      | Inr (db', n, b, samples) \<Rightarrow>
          (db', Inr \<lparr>rc_file_count = n, rc_total_bytes = b, rc_sample_files = samples, rc_reused = False\<rparr>))"

definition resolve_cache :: "env \<Rightarrow> source_host \<Rightarrow> nat \<Rightarrow> export_job \<Rightarrow> db \<Rightarrow> db \<times> (string + resolved_cache)" where
  "resolve_cache e h batch_size j db =
     (if sa_cache_present (j_analysis j) \<and> cached_analysis_is_current h batch_size j db then
        (db, Inr \<lparr>rc_file_count = or_zero (sa_file_count (j_analysis j)), rc_total_bytes = or_zero (sa_total_bytes (j_analysis j)),
           rc_sample_files = map (\<lambda>f. source_path_for_relative_path h (j_source_path j) (f_relative_path f))
             (list_by_job (j_id j) None (Some startup_analysis_sample_limit) 0 db), rc_reused = True\<rparr>)
      else let db1 = (if startup_analysis_cached j \<and> e_db_ok e ''analysis_stale'' then set_job (j_id j) mark_stale db else db)
           in case load_legacy_cache j of
                None \<Rightarrow> scan_again e h batch_size j db1
              | Some cache \<Rightarrow>
                  if legacy_cache_is_current h (j_source_path j) cache then
                    (case persist_legacy_cache e h batch_size j cache db1 of
                       Inl err \<Rightarrow> (db1, Inl err)
                     | Inr (db2, samples) \<Rightarrow>
                         (db2, Inr \<lparr>rc_file_count = fst (snd (snd cache)), rc_total_bytes = snd (snd (snd cache)),
                            rc_sample_files = samples, rc_reused = True\<rparr>))
                  else scan_again e h batch_size j db1)"

definition set_benchmark :: "benchmark_details \<Rightarrow> export_job \<Rightarrow> export_job" where
  "set_benchmark b j =
     j\<lparr>j_analysis := (j_analysis j)\<lparr>sa_share_read_mbps := bd_share_read_mbps b, sa_drive_write_mbps := bd_drive_write_mbps b,
        sa_estimated_duration_seconds := bd_estimated_duration_seconds b\<rparr>\<rparr>"

text \<open>The recommended profile is applied to a job without tuning of its own. A failing audit entry rolls the
  profile back with it.\<close>

definition auto_apply_profile :: "env \<Rightarrow> settings \<Rightarrow> export_job \<Rightarrow> size_summary \<Rightarrow> string option \<Rightarrow> db \<Rightarrow> db \<times> bool" where
  "auto_apply_profile e st j s key db =
     (case key of
        None \<Rightarrow> (db, False)
      | Some k \<Rightarrow>
          if j_auto_apply_recommended_profile j \<and> \<not> job_has_explicit_copy_tuning_overrides st j \<and> fst (apply_workload_profile k j)
          then (case audit_add e ''JOB_WORKLOAD_PROFILE_AUTO_APPLIED'' (Some (j_project_id j)) (active_drive_id (j_id j) db)
                       (Some (j_id j))
                       [(''profile'', JStr k), (''reason'', JStr ''startup_analysis_auto_apply''),
                        (''small_files'', JInt (ss_small_files s)), (''medium_files'', JInt (ss_medium_files s)),
                        (''large_files'', JInt (ss_large_files s))]
                       (set_job (j_id j) (\<lambda>j. snd (apply_workload_profile k j)) db) of
                  None \<Rightarrow> (db, True)
                | Some db' \<Rightarrow> (db', True))
          else (db, False))"

definition set_analysis_ready :: "env \<Rightarrow> int \<Rightarrow> int \<Rightarrow> int \<Rightarrow> export_job \<Rightarrow> export_job" where
  "set_analysis_ready e n_files n_bytes done_bytes j =
     j\<lparr>j_file_count := n_files, j_total_bytes := n_bytes, j_copied_bytes := done_bytes,
       j_analysis := (j_analysis j)\<lparr>sa_status := READY, sa_last_analyzed_at := Some (e_now e), sa_failure_reason := None\<rparr>\<rparr>"

record prepared =
  pr_file_count :: int
  pr_total_bytes :: int
  pr_reused :: bool
  pr_recommended_profile :: "string option"
  pr_auto_profile_applied :: bool

definition finish_preparation ::
  "env \<Rightarrow> settings \<Rightarrow> source_host \<Rightarrow> benchmark_provider \<Rightarrow> analysis_config \<Rightarrow> bool \<Rightarrow> export_job \<Rightarrow> resolved_cache \<Rightarrow> db \<Rightarrow>
   db \<times> (string + prepared)" where
  "finish_preparation e st h bp cfg manual j rc db =
     (case (if manual then measure_transfer_rates h bp (ac_benchmark_bytes cfg) j (rc_sample_files rc) (rc_total_bytes rc)
            else Inr no_benchmark) of
        Inl err \<Rightarrow> (db, Inl err)
      | Inr bench \<Rightarrow>
          if rc_file_count rc \<le> 0 then (db, Inl ''Source path contains no transferable files'')
          else let w = (if manual \<or> \<not> rc_reused rc then set_job (j_id j) (set_benchmark bench) db else db);
                   w = fst (reset_non_done_for_restart (j_id j) w)
               in if \<not> e_db_ok e ''analysis_reset'' then (db, Inl ''database error'')
                  else let (s, key) = workload_recommendation (ac_small_max cfg) (ac_large_min cfg) (j_id j) w;
                           (db1, auto) = auto_apply_profile e st j s key w;
                           done_bytes = snd (summarize_done_progress (j_id j) db1);
                           db2 = set_job (j_id j) (set_analysis_ready e (rc_file_count rc) (rc_total_bytes rc) done_bytes) db1
                       in if \<not> e_db_ok e ''analysis_ready'' then (db1, Inl ''database error'')
                          else ((if manual
                                 then best_effort_audit e ''JOB_STARTUP_ANALYSIS_COMPLETED'' (Some (j_project_id j)) None (Some (j_id j))
                                        [(''cached_file_count'', JInt (rc_file_count rc)), (''cached_total_bytes'', JInt (rc_total_bytes rc)),
                                         (''reused_cached_analysis'', JBool (rc_reused rc)), (''ready_to_start'', JBool True),
                                         (''benchmark_bytes'', JInt (bd_benchmark_bytes bench)),
                                         (''recommended_profile'', jstr key), (''auto_profile_applied'', JBool auto)] db2
                                 else db2),
                                Inr \<lparr>pr_file_count = rc_file_count rc, pr_total_bytes = rc_total_bytes rc, pr_reused = rc_reused rc,
                                  pr_recommended_profile = key, pr_auto_profile_applied = auto\<rparr>))"

definition set_analysis_failed :: "string \<Rightarrow> export_job \<Rightarrow> export_job" where
  "set_analysis_failed reason j =
     set_benchmark no_benchmark (j\<lparr>j_analysis := (j_analysis j)\<lparr>sa_status := SA_FAILED, sa_failure_reason := Some reason\<rparr>\<rparr>)"

definition fail_preparation :: "env \<Rightarrow> string \<Rightarrow> bool \<Rightarrow> int \<Rightarrow> string \<Rightarrow> db \<Rightarrow> db" where
  "fail_preparation e cwd manual job_id err db =
     (case get_job job_id db of
        None \<Rightarrow> db
      | Some j \<Rightarrow>
          (let reason = sanitize_job_failure_reason cwd err ''Unable to prepare startup analysis'' (Some (j_source_path j)) None;
               db1 = (if e_db_ok e ''analysis_failed'' then set_job job_id (set_analysis_failed reason) db else db)
           in if manual
              then best_effort_audit e ''JOB_STARTUP_ANALYSIS_FAILED'' (Some (j_project_id j)) None (Some job_id)
                     [(''reason'', JStr reason)] db1
              else db1))"

definition prepare_job_startup_analysis ::
  "env \<Rightarrow> settings \<Rightarrow> source_host \<Rightarrow> benchmark_provider \<Rightarrow> analysis_config \<Rightarrow> bool \<Rightarrow> int \<Rightarrow> db \<Rightarrow> db \<times> (string + prepared)" where
  "prepare_job_startup_analysis e st h bp cfg manual job_id db =
     (case (case get_job job_id db of
              None \<Rightarrow> (db, Inl (''Job '' @ str_int job_id @ '' not found''))
            | Some j \<Rightarrow>
                (case resolve_cache e h (ac_batch_size cfg) j db of
                   (db1, Inl err) \<Rightarrow> (db1, Inl err)
                 | (db1, Inr rc) \<Rightarrow> finish_preparation e st h bp cfg manual j rc db1)) of
        (db1, Inl err) \<Rightarrow> (fail_preparation e (ac_cwd cfg) manual job_id err db1, Inl err)
      | (db1, Inr r) \<Rightarrow> (db1, Inr r))"

definition run_startup_analysis ::
  "env \<Rightarrow> settings \<Rightarrow> source_host \<Rightarrow> benchmark_provider \<Rightarrow> analysis_config \<Rightarrow> int \<Rightarrow> db \<Rightarrow> db" where
  "run_startup_analysis e st h bp cfg job_id db = fst (prepare_job_startup_analysis e st h bp cfg True job_id db)"

end
