(* ===== verification/Startup_Safety.thy ===== *)
theory Startup_Safety
  imports Startup_Analysis
begin

text \<open>
  What the start-up analysis guarantees: batches and pages do not matter, a scan leaves exactly the files of the
  source, a prepared job describes the source, and its cache is found current as long as the source does not change.
\<close>

section \<open>Pages and batches\<close>

lemma fold_checked_append:
  "fold_checked f (xs @ ys) acc = (case fold_checked f xs acc of None \<Rightarrow> None | Some acc' \<Rightarrow> fold_checked f ys acc')"
  by (induction xs arbitrary: acc) (auto split: option.splits)

lemma filter_after_last:
  assumes "sorted_wrt (\<lambda>a b. key a < (key b :: int)) (xs @ ys)" "xs \<noteq> []"
  shows "filter (\<lambda>r. key (last xs) < key r) (xs @ ys) = ys"
proof -
  have "\<not> key (last xs) < key r" if "r \<in> set xs" for r
  proof -
    have "sorted_wrt (\<lambda>a b. key a < key b) (butlast xs @ [last xs])" using assms by (simp add: sorted_wrt_append)
    moreover have "r \<in> set (butlast xs) \<or> r = last xs"
      using that append_butlast_last_id [OF assms(2)] by (metis UnE set_append set_ConsD empty_iff list.set(1))
    ultimately show ?thesis by (auto simp: sorted_wrt_append)
  qed
  then have "filter (\<lambda>r. key (last xs) < key r) xs = []" by (simp add: filter_empty_conv)
  moreover have "filter (\<lambda>r. key (last xs) < key r) ys = ys"
    using assms by (intro filter_True) (auto simp: sorted_wrt_append)
  ultimately show ?thesis by simp
qed

text \<open>Reading page by page is reading everything, for every page size.\<close>

lemma paged_check_suffix:
  assumes "sorted_wrt (\<lambda>a b. key a < key b) rs" "0 < n"
    and "(case after of None \<Rightarrow> rs | Some i \<Rightarrow> filter (\<lambda>r. i < key r) rs) = zs" "\<exists>pre. rs = pre @ zs"
  shows "paged_check key n f rs after acc = fold_checked f zs acc"
  using assms(3,4)
proof (induction "length zs" arbitrary: after acc zs rule: less_induct)
  case less
  have page: "page_after key n rs after = take n zs" by (simp add: page_after_def paged_def less.prems(1))
  show ?case
  proof (cases "zs = []")
    case True
    then show ?thesis by (subst paged_check.simps) (simp add: page)
  next
    case False
    obtain pre where pre: "rs = pre @ zs" using less.prems(2) by blast
    have s: "sorted_wrt (\<lambda>a b. key a < key b) ((pre @ take n zs) @ drop n zs)" using assms(1) pre by simp
    have ne: "take n zs \<noteq> []" using False assms(2) by simp
    have f: "filter (\<lambda>r. key (last (take n zs)) < key r) rs = drop n zs"
      using filter_after_last [OF s] ne pre by simp
    have "paged_check key n f rs (Some (key (last (take n zs)))) a = fold_checked f (drop n zs) a" for a
      using less.hyps [of "drop n zs" "Some (key (last (take n zs)))" a] f False assms(2) pre
      by (metis append.assoc append_take_drop_id diff_less length_drop length_greater_0_conv option.case(2))
    moreover have "fold_checked f zs acc =
        (case fold_checked f (take n zs) acc of None \<Rightarrow> None | Some a \<Rightarrow> fold_checked f (drop n zs) a)"
      using fold_checked_append [of f "take n zs" "drop n zs" acc] by simp
    ultimately show ?thesis using ne by (subst paged_check.simps) (simp add: page Let_def split: option.splits)
  qed
qed

lemma paged_check_all:
  assumes "sorted_wrt (\<lambda>a b. key a < key b) rs" "0 < n"
  shows "paged_check key n f rs None acc = fold_checked f rs acc"
  by (rule paged_check_suffix [OF assms]) simp_all

lemma sort_key_strict:
  fixes key :: "'r \<Rightarrow> int"
  assumes "distinct (map key rs)"
  shows "sorted_wrt (\<lambda>a b. key a < key b) (sort_key key rs)"
proof -
  have d: "distinct (map key (sort_key key rs))"
    using assms by (metis distinct_map distinct_sort inj_on_cong set_sort)
  have "sorted_wrt (<) (map key (sort_key key rs))" using d by (simp add: strict_sorted_iff)
  then show ?thesis by (simp add: sorted_wrt_map)
qed

lemma concat_batches_of: "0 < n \<Longrightarrow> concat (batches_of n xs) = xs"
  by (induction n xs rule: batches_of.induct) (subst batches_of.simps, auto)

section \<open>Updating and inserting file rows\<close>

lemma existing_file_find:
  "existing_file i rel fs = find (\<lambda>f. f_job_id f = i \<and> f_relative_path f = rel) (rev fs)"
proof -
  have "map_of (map (\<lambda>f. (f_relative_path f, f)) (filter (\<lambda>f. f_job_id f = i) xs)) rel =
      find (\<lambda>f. f_job_id f = i \<and> f_relative_path f = rel) xs" for xs :: "export_file list"
    by (induction xs) auto
  from this [of "rev fs"] show ?thesis by (simp add: existing_file_def rev_map rev_filter)
qed

lemma existing_file_SomeD:
  assumes "existing_file i rel fs = Some f"
  shows "f \<in> set fs" "f_job_id f = i" "f_relative_path f = rel"
  using assms by (auto simp: existing_file_find find_Some_iff) (metis nth_mem set_rev length_rev)

lemma existing_file_NoneD:
  "existing_file i rel fs = None \<Longrightarrow> f \<in> set fs \<Longrightarrow> f_job_id f = i \<Longrightarrow> f_relative_path f \<noteq> rel"
  by (auto simp: existing_file_find find_None_iff)

lemma find_map_keep: "(\<And>x. P (g x) = P x) \<Longrightarrow> find P (map g xs) = map_option g (find P xs)"
  by (induction xs) auto

lemma refresh_file_keys [simp]:
  "f_id (refresh_file r n f) = f_id f" "f_job_id (refresh_file r n f) = f_job_id f"
  "f_relative_path (refresh_file r n f) = f_relative_path f" "f_size_bytes (refresh_file r n f) = Some n"
  "f_startup_analysis_revision (refresh_file r n f) = r" "f_checksum (refresh_file r n f) = f_checksum f"
  "f_status (refresh_file r n f) = (if f_status f = DONE then DONE else FPENDING)"
  by (auto simp: refresh_file_def pending_again_def Let_def)

lemma new_file_keys [simp]:
  "f_id (new_file j r i rel n) = i" "f_job_id (new_file j r i rel n) = j_id j" "f_relative_path (new_file j r i rel n) = rel"
  "f_size_bytes (new_file j r i rel n) = Some n" "f_startup_analysis_revision (new_file j r i rel n) = r"
  "f_status (new_file j r i rel n) = FPENDING"
  by (simp_all add: new_file_def)

definition upsert_now :: "export_job \<Rightarrow> int \<Rightarrow> export_file list \<Rightarrow> string \<times> int \<Rightarrow> export_file list" where
  "upsert_now j revision fs x = upsert_file j revision fs fs x"

definition upserted :: "export_job \<Rightarrow> int \<Rightarrow> export_file list \<Rightarrow> string \<times> int \<Rightarrow> export_file" where
  "upserted j revision fs x =
     (case existing_file (j_id j) (fst x) fs of
        Some f \<Rightarrow> refresh_file revision (snd x) f
      | None \<Rightarrow> new_file j revision (next_id f_id fs) (fst x) (snd x))"

lemma upsert_now_pk: "pk_ok f_id fs \<Longrightarrow> pk_ok f_id (upsert_now j revision fs x)"
  by (auto simp: upsert_now_def upsert_file_def pk_ok_upd_row split: prod.splits option.splits
      intro!: pk_ok_append_fresh dest!: next_id_greater [of _ _ f_id])

lemma existing_upsert_now:
  assumes "pk_ok f_id fs"
  shows "existing_file (j_id j) rel (upsert_now j revision fs x) =
    (if rel = fst x then Some (upserted j revision fs x) else existing_file (j_id j) rel fs)"
proof (cases "existing_file (j_id j) (fst x) fs")
  case None
  then show ?thesis
    by (auto simp: upsert_now_def upsert_file_def upserted_def existing_file_find split: prod.splits)
next
  case (Some f)
  note f = existing_file_SomeD [OF this]
  have e: "existing_file (j_id j) rel (upsert_now j revision fs x) =
      map_option (\<lambda>r. if f_id r = f_id f then refresh_file revision (snd x) r else r) (existing_file (j_id j) rel fs)"
    using Some unfolding upsert_now_def upsert_file_def prod.case_eq_if
    by (simp add: existing_file_find upd_row_def rev_map find_map_keep)
  show ?thesis
  proof (cases "rel = fst x")
    case True
    with e Some show ?thesis by (simp add: upserted_def)
  next
    case False
    have "f_id r \<noteq> f_id f" if "existing_file (j_id j) rel fs = Some r" for r
      using existing_file_SomeD [OF that] f pk_ok_same [OF assms, of r f] False by auto
    with e False show ?thesis by (cases "existing_file (j_id j) rel fs") auto
  qed
qed

lemma upsert_now_others:
  assumes "pk_ok f_id fs"
  shows "filter (\<lambda>f. f_job_id f \<noteq> j_id j) (upsert_now j revision fs x) = filter (\<lambda>f. f_job_id f \<noteq> j_id j) fs"
proof (cases "existing_file (j_id j) (fst x) fs")
  case None
  then show ?thesis by (auto simp: upsert_now_def upsert_file_def split: prod.splits)
next
  case (Some f)
  note f = existing_file_SomeD [OF this]
  have "filter (\<lambda>r. f_job_id r \<noteq> j_id j) (map (\<lambda>r. if f_id r = f_id f then refresh_file revision n r else r) rs) =
      filter (\<lambda>r. f_job_id r \<noteq> j_id j) rs" if "set rs \<subseteq> set fs" for n rs
    using that f pk_ok_same [OF assms, of _ f] by (induction rs) auto
  with Some show ?thesis by (auto simp: upsert_now_def upsert_file_def upd_row_def split: prod.splits)
qed

lemma upsert_now_rows:
  assumes "pk_ok f_id fs" "f \<in> set (upsert_now j revision fs x)"
  shows "f = upserted j revision fs x \<or> f \<in> set fs \<and> existing_file (j_id j) (fst x) fs \<noteq> Some f"
proof (cases "existing_file (j_id j) (fst x) fs")
  case None
  with assms(2) show ?thesis by (auto simp: upsert_now_def upsert_file_def upserted_def split: prod.splits)
next
  case (Some g)
  note g = existing_file_SomeD [OF this]
  from Some assms(2) have "f \<in> (\<lambda>r. if f_id r = f_id g then refresh_file revision (snd x) r else r) ` set fs"
    by (cases x) (simp add: upsert_now_def upsert_file_def upd_row_def)
  then obtain r where r: "r \<in> set fs" "f = (if f_id r = f_id g then refresh_file revision (snd x) r else r)" by blast
  show ?thesis
  proof (cases "f_id r = f_id g")
    case True
    with pk_ok_same [OF assms(1) r(1) g(1)] r(2) Some show ?thesis by (simp add: upserted_def)
  next
    case False
    with r Some show ?thesis by auto
  qed
qed

text \<open>One row after the other: \<open>scanned\<close> relates the table after the files \<open>fl\<close> to the one before.\<close>

definition scanned :: "int \<Rightarrow> int \<Rightarrow> export_file list \<Rightarrow> (string \<times> int) list \<Rightarrow> export_file list \<Rightarrow> bool" where
  "scanned i revision fs0 fl fs \<longleftrightarrow>
     pk_ok f_id fs \<and>
     filter (\<lambda>f. f_job_id f \<noteq> i) fs = filter (\<lambda>f. f_job_id f \<noteq> i) fs0 \<and>
     (\<forall>rel. rel \<notin> fst ` set fl \<longrightarrow> existing_file i rel fs = existing_file i rel fs0) \<and>
     (\<forall>f\<in>set fs. f_job_id f = i \<and> f_startup_analysis_revision f = revision \<longrightarrow>
        f_relative_path f \<in> fst ` set fl \<and> existing_file i (f_relative_path f) fs = Some f) \<and>
     (\<forall>(rel, n)\<in>set fl. \<exists>f. existing_file i rel fs = Some f \<and> f_size_bytes f = Some n \<and>
        f_startup_analysis_revision f = revision \<and>
        (case existing_file i rel fs0 of
           Some f0 \<Rightarrow> f = refresh_file revision n f0
         | None \<Rightarrow> f_status f = FPENDING \<and> f_retry_attempts f = 0 \<and> f_error_message f = None \<and> f_checksum f = None))"

lemma scanned_start:
  assumes "pk_ok f_id fs" "\<forall>f\<in>set fs. f_job_id f = i \<longrightarrow> f_startup_analysis_revision f < revision"
  shows "scanned i revision fs [] fs"
  using assms by (auto simp: scanned_def)

lemma scanned_step:
  assumes "scanned (j_id j) revision fs0 fl fs" "fst x \<notin> fst ` set fl"
  shows "scanned (j_id j) revision fs0 (fl @ [x]) (upsert_now j revision fs x)"
proof -
  let ?i = "j_id j" and ?fs = "upsert_now j revision fs x" and ?u = "upserted j revision fs x"
  have pk: "pk_ok f_id fs" and kept: "\<And>rel. rel \<notin> fst ` set fl \<Longrightarrow> existing_file ?i rel fs = existing_file ?i rel fs0"
    using assms(1) by (auto simp: scanned_def)
  note ex = existing_upsert_now [OF pk, of j _ revision x]
  have u: "f_size_bytes ?u = Some (snd x)" "f_startup_analysis_revision ?u = revision" "f_relative_path ?u = fst x"
    by (auto simp: upserted_def dest: existing_file_SomeD split: option.splits)
  have u2: "case existing_file ?i (fst x) fs0 of Some f0 \<Rightarrow> ?u = refresh_file revision (snd x) f0
         | None \<Rightarrow> f_status ?u = FPENDING \<and> f_retry_attempts ?u = 0 \<and> f_error_message ?u = None \<and> f_checksum ?u = None"
    using kept [OF assms(2)] by (auto simp: upserted_def new_file_def split: option.splits)
  have rows: "f_relative_path f \<in> fst ` set (fl @ [x]) \<and> existing_file ?i (f_relative_path f) ?fs = Some f"
    if f: "f \<in> set ?fs" "f_job_id f = ?i" "f_startup_analysis_revision f = revision" for f
  proof (cases "f = ?u")
    case True
    with u ex show ?thesis by simp
  next
    case False
    with upsert_now_rows [OF pk f(1)] have o: "f \<in> set fs" "existing_file ?i (fst x) fs \<noteq> Some f" by auto
    with f assms(1) have "f_relative_path f \<in> fst ` set fl" "existing_file ?i (f_relative_path f) fs = Some f"
      unfolding scanned_def by blast+
    with o(2) ex show ?thesis by auto
  qed
  have old: "\<exists>f. existing_file ?i rel ?fs = Some f \<and> f_size_bytes f = Some n \<and> f_startup_analysis_revision f = revision \<and>
        (case existing_file ?i rel fs0 of Some f0 \<Rightarrow> f = refresh_file revision n f0
         | None \<Rightarrow> f_status f = FPENDING \<and> f_retry_attempts f = 0 \<and> f_error_message f = None \<and> f_checksum f = None)"
    if "(rel, n) \<in> set fl" for rel n
  proof -
    have "rel \<in> fst ` set fl" using that by (rule image_eqI [rotated]) simp
    with assms(2) have "rel \<noteq> fst x" by blast
    with ex have "existing_file ?i rel ?fs = existing_file ?i rel fs" by simp
    with that assms(1) show ?thesis unfolding scanned_def by fastforce
  qed
  have new: "\<exists>f. existing_file ?i rel ?fs = Some f \<and> f_size_bytes f = Some n \<and> f_startup_analysis_revision f = revision \<and>
        (case existing_file ?i rel fs0 of Some f0 \<Rightarrow> f = refresh_file revision n f0
         | None \<Rightarrow> f_status f = FPENDING \<and> f_retry_attempts f = 0 \<and> f_error_message f = None \<and> f_checksum f = None)"
    if "x = (rel, n)" for rel n
    using ex [of rel] u u2 unfolding that fst_conv snd_conv by simp
  have all: "\<forall>(rel, n)\<in>set (fl @ [x]). \<exists>f. existing_file ?i rel ?fs = Some f \<and> f_size_bytes f = Some n \<and>
        f_startup_analysis_revision f = revision \<and>
        (case existing_file ?i rel fs0 of Some f0 \<Rightarrow> f = refresh_file revision n f0
         | None \<Rightarrow> f_status f = FPENDING \<and> f_retry_attempts f = 0 \<and> f_error_message f = None \<and> f_checksum f = None)"
    using old new by (intro ballI) (auto simp only: set_append set_simps Un_iff insert_iff empty_iff split: prod.splits)
  have "\<forall>rel. rel \<notin> fst ` set (fl @ [x]) \<longrightarrow> existing_file ?i rel ?fs = existing_file ?i rel fs0"
    using ex kept by simp
  then show ?thesis
    unfolding scanned_def using upsert_now_pk [OF pk] upsert_now_others [OF pk, of j revision x] assms(1) rows all
    by (intro conjI) (simp_all add: scanned_def)
qed

lemma scanned_fold:
  assumes "scanned (j_id j) revision fs0 fl fs" "distinct (map fst (fl @ xs))"
  shows "scanned (j_id j) revision fs0 (fl @ xs) (foldl (upsert_now j revision) fs xs)"
  using assms
proof (induction xs arbitrary: fl fs)
  case (Cons x xs)
  have "fst x \<notin> fst ` set fl" using Cons.prems(2) by auto
  from Cons.IH [OF scanned_step [OF Cons.prems(1) this]] Cons.prems(2) show ?case by simp
qed simp

text \<open>The snapshot of a batch makes no difference while paths are distinct.\<close>

lemma upsert_file_snapshot:
  assumes "map_option f_id (existing_file (j_id j) (fst x) known) = map_option f_id (existing_file (j_id j) (fst x) fs)"
  shows "upsert_file j revision known fs x = upsert_now j revision fs x"
  using assms by (cases x) (auto simp: upsert_now_def upsert_file_def split: option.splits)

lemma upsert_snapshot_fold:
  assumes "pk_ok f_id fs" "distinct (map fst xs)"
    "\<forall>rel\<in>fst ` set xs. map_option f_id (existing_file (j_id j) rel known) = map_option f_id (existing_file (j_id j) rel fs)"
  shows "foldl (upsert_file j revision known) fs xs = foldl (upsert_now j revision) fs xs"
  using assms
proof (induction xs arbitrary: fs)
  case (Cons x xs)
  have x: "upsert_file j revision known fs x = upsert_now j revision fs x"
    using Cons.prems(3) by (intro upsert_file_snapshot) simp
  have "existing_file (j_id j) rel (upsert_now j revision fs x) = existing_file (j_id j) rel fs" if "rel \<in> fst ` set xs" for rel
  proof -
    have "fst x \<notin> fst ` set xs" using Cons.prems(2) by simp
    with that have "rel \<noteq> fst x" by blast
    then show ?thesis by (simp add: existing_upsert_now [OF Cons.prems(1)])
  qed
  with Cons.prems have "foldl (upsert_file j revision known) (upsert_now j revision fs x) xs =
      foldl (upsert_now j revision) (upsert_now j revision fs x) xs"
    by (intro Cons.IH upsert_now_pk) auto
  with x show ?case by simp
qed simp

lemma persist_file_batch_now:
  assumes "pk_ok f_id (files db)" "distinct (map fst batch)"
  shows "persist_file_batch j revision batch db = db\<lparr>files := foldl (upsert_now j revision) (files db) batch\<rparr>"
  using upsert_snapshot_fold [OF assms, of j "files db"] by (simp add: persist_file_batch_def)

section \<open>Scanning the tree\<close>

fun tree_files :: "tree_entry list \<Rightarrow> (string \<times> int) list" where
  "tree_files [] = []"
| "tree_files (Tree_file rel n # xs) = (rel, n) # tree_files xs"
| "tree_files (Tree_dir rel t # xs) = tree_files xs"

fun tree_directories :: "tree_entry list \<Rightarrow> (string \<times> int) list" where
  "tree_directories [] = []"
| "tree_directories (Tree_file rel n # xs) = tree_directories xs"
| "tree_directories (Tree_dir rel t # xs) = (rel, or_zero t) # tree_directories xs"

lemma tree_append [simp]:
  "tree_files (xs @ ys) = tree_files xs @ tree_files ys" "tree_directories (xs @ ys) = tree_directories xs @ tree_directories ys"
  by (induction xs rule: tree_files.induct) auto

definition entry_values :: "string \<Rightarrow> int \<Rightarrow> analysis_entry list \<Rightarrow> (string \<times> int) list" where
  "entry_values t i ns =
     map (\<lambda>n. (n_relative_path n, or_zero (if t = ''file'' then n_size_bytes n else n_mtime_ns n)))
       (filter (\<lambda>n. n_job_id n = i \<and> n_entry_type n = t) ns)"

text \<open>What the entries of a scan keep of a table.\<close>

definition entries_scanned :: "int \<Rightarrow> analysis_entry list \<Rightarrow> (string \<times> int) list \<Rightarrow> (string \<times> int) list \<Rightarrow> analysis_entry list \<Rightarrow> bool" where
  "entries_scanned i ns0 fl dl ns \<longleftrightarrow> pk_ok n_id ns \<and> entry_values ''file'' i ns = fl \<and> entry_values ''directory'' i ns = dl \<and>
     filter (\<lambda>n. n_job_id n \<noteq> i) ns = filter (\<lambda>n. n_job_id n \<noteq> i) ns0"

lemma entries_scanned_batch:
  assumes "entries_scanned i ns0 fl dl (entries db)" "t = ''file'' \<or> t = ''directory''"
  shows "entries_scanned i ns0 (if t = ''file'' then fl @ b else fl) (if t = ''directory'' then dl @ b else dl)
    (entries (persist_entry_batch i t b db))"
proof -
  let ?add = "\<lambda>ns (rel, v). ns @ [\<lparr>n_id = next_id n_id ns, n_job_id = i, n_entry_type = t, n_relative_path = rel,
      n_size_bytes = (if t = ''file'' then Some v else None), n_mtime_ns = (if t = ''directory'' then Some v else None)\<rparr>]"
  have "entries_scanned i ns0 (if t = ''file'' then fl @ b else fl) (if t = ''directory'' then dl @ b else dl) (foldl ?add ns b)"
    if "entries_scanned i ns0 fl dl ns" for ns
    using that
  proof (induction b arbitrary: ns fl dl)
    case (Cons x b)
    obtain rel v where x: "x = (rel, v)" by (cases x)
    have "entries_scanned i ns0 (if t = ''file'' then fl @ [x] else fl) (if t = ''directory'' then dl @ [x] else dl) (?add ns x)"
      using Cons.prems assms(2) unfolding x
      by (auto simp: entries_scanned_def entry_values_def or_zero_def intro!: pk_ok_append_fresh dest: next_id_greater [of _ _ n_id])
    from Cons.IH [OF this] assms(2) show ?case by auto
  qed auto
  from this [OF assms(1)] show ?thesis by (simp add: persist_entry_batch_def)
qed

lemma persist_entry_batch_frame: "\<exists>ns. persist_entry_batch i t b db = db\<lparr>entries := ns\<rparr>"
  by (auto simp: persist_entry_batch_def)

definition scan_so_far :: "export_job \<Rightarrow> int \<Rightarrow> db \<Rightarrow> (string \<times> int) list \<Rightarrow> (string \<times> int) list \<Rightarrow> db \<Rightarrow> bool" where
  "scan_so_far j revision db0 fl dl w \<longleftrightarrow>
     (\<exists>ns. w = db0\<lparr>files := foldl (upsert_now j revision) (files db0) fl, entries := ns\<rparr> \<and>
       entries_scanned (j_id j) (entries db0) fl dl ns)"

lemma foldl_upsert_pk: "pk_ok f_id fs \<Longrightarrow> pk_ok f_id (foldl (upsert_now j revision) fs fl)"
  by (induction fl arbitrary: fs) (simp_all add: upsert_now_pk)

lemma scan_files_batch:
  assumes "scan_so_far j revision db0 fl dl w" "pk_ok f_id (files db0)" "distinct (map fst b)"
  shows "scan_so_far j revision db0 (fl @ b) dl (persist_files j revision b w)"
proof -
  obtain ns where w: "w = db0\<lparr>files := foldl (upsert_now j revision) (files db0) fl, entries := ns\<rparr>"
    and e: "entries_scanned (j_id j) (entries db0) fl dl ns" using assms(1) by (auto simp: scan_so_far_def)
  have pk: "pk_ok f_id (files w)" by (simp add: w foldl_upsert_pk [OF assms(2)])
  note b = persist_file_batch_now [OF pk assms(3), of j revision]
  have "entries_scanned (j_id j) (entries db0) fl dl (entries (persist_file_batch j revision b w))"
    unfolding b using e by (simp add: w)
  from entries_scanned_batch [OF this, of "''file''" b] persist_entry_batch_frame [of "j_id j" "''file''" b "persist_file_batch j revision b w"]
  show ?thesis unfolding persist_files_def b by (auto simp: scan_so_far_def w)
qed

lemma scan_directories_batch:
  assumes "scan_so_far j revision db0 fl dl w"
  shows "scan_so_far j revision db0 fl (dl @ b) (persist_entry_batch (j_id j) ''directory'' b w)"
proof -
  obtain ns where w: "w = db0\<lparr>files := foldl (upsert_now j revision) (files db0) fl, entries := ns\<rparr>"
    and e: "entries_scanned (j_id j) (entries db0) fl dl (entries w)" using assms(1) by (auto simp: scan_so_far_def)
  from entries_scanned_batch [OF e, of "''directory''" b] persist_entry_batch_frame [of "j_id j" "''directory''" b w]
  show ?thesis by (auto simp: scan_so_far_def w)
qed

text \<open>After the entries \<open>ps\<close> of the walk: what is in the session and what waits in the batches.\<close>

definition scan_inv :: "export_job \<Rightarrow> int \<Rightarrow> db \<Rightarrow> tree_entry list \<Rightarrow> scan_state \<Rightarrow> bool" where
  "scan_inv j revision db0 ps s \<longleftrightarrow>
     (\<exists>fl dl. tree_files ps = fl @ sc_file_batch s \<and> tree_directories ps = dl @ sc_directory_batch s \<and>
        scan_so_far j revision db0 fl dl (sc_session s)) \<and>
     sc_file_count s = int (length (tree_files ps)) \<and> sc_total_bytes s = sum_list (map snd (tree_files ps)) \<and>
     sc_sample_files s = take startup_analysis_sample_limit (map fst (tree_files ps))"

lemma scan_entry_inv:
  assumes "scan_inv j revision db0 ps s" "scan_entry n j revision s x = Inr s'" "pk_ok f_id (files db0)"
    "distinct (map fst (tree_files (ps @ [x])))"
  shows "scan_inv j revision db0 (ps @ [x]) s'"
proof -
  obtain fl dl where v: "tree_files ps = fl @ sc_file_batch s" "tree_directories ps = dl @ sc_directory_batch s"
    "scan_so_far j revision db0 fl dl (sc_session s)" using assms(1) by (auto simp: scan_inv_def)
  show ?thesis
  proof (cases x)
    case (Tree_dir rel t)
    with assms(1,2) v scan_directories_batch [OF v(3), of "sc_directory_batch s @ [(rel, or_zero t)]"] show ?thesis
      by (auto simp: scan_entry_def scan_inv_def Let_def or_zero_def split: option.splits if_splits)
  next
    case (Tree_file rel k)
    have d: "distinct (map fst (sc_file_batch s @ [(rel, k)]))" using assms(4) v(1) Tree_file by simp
    have t: "take startup_analysis_sample_limit (map fst (tree_files ps) @ [rel]) =
      (if length (sc_sample_files s) < startup_analysis_sample_limit then sc_sample_files s @ [rel] else sc_sample_files s)"
      using assms(1) by (auto simp: scan_inv_def)
    from Tree_file assms(1,2) v scan_files_batch [OF v(3) assms(3) d] show ?thesis
      unfolding scan_inv_def t [symmetric]
      by (auto simp: scan_entry_def Let_def t split: if_splits)
  qed
qed

lemma scan_tree_inv:
  assumes "scan_tree n j revision xs s = Inr s'" "scan_inv j revision db0 ps s" "pk_ok f_id (files db0)"
    "distinct (map fst (tree_files (ps @ xs)))"
  shows "scan_inv j revision db0 (ps @ xs) s'"
  using assms(1,2,4)
proof (induction xs arbitrary: s ps)
  case (Cons x xs)
  then obtain s1 where s1: "scan_entry n j revision s x = Inr s1" "scan_tree n j revision xs s1 = Inr s'"
    by (auto split: sum.splits)
  have "distinct (map fst (tree_files (ps @ [x])))" using Cons.prems(3) tree_append [of "ps @ [x]" xs] by auto
  from Cons.IH [OF s1(2) scan_entry_inv [OF Cons.prems(2) s1(1) assms(3) this]] Cons.prems(3) show ?case by simp
qed simp

text \<open>The rows of the job after old revisions are dropped.\<close>

definition current_rows :: "int \<Rightarrow> int \<Rightarrow> export_file list \<Rightarrow> export_file list" where
  "current_rows i revision fs = filter (\<lambda>f. f_job_id f = i \<and> f_startup_analysis_revision f = revision) fs"

lemma files_of_drop: "files_of i (drop_old_revisions i revision db) = current_rows i revision (files db)"
  by (auto simp: files_of_def drop_old_revisions_def current_rows_def intro: filter_cong)

lemma current_rows_paths:
  assumes "scanned i revision fs0 fl fs"
  shows "distinct (map f_relative_path (current_rows i revision fs))"
    and "set (map f_relative_path (current_rows i revision fs)) = fst ` set fl"
proof -
  let ?c = "current_rows i revision fs"
  have ex: "existing_file i (f_relative_path f) fs = Some f \<and> f_relative_path f \<in> fst ` set fl" if "f \<in> set ?c" for f
    using assms that unfolding scanned_def current_rows_def by simp
  have "inj_on f_relative_path (set ?c)" by (rule inj_onI) (metis ex option.inject)
  moreover have "distinct ?c"
    using assms unfolding scanned_def current_rows_def pk_ok_def by (meson distinct_filter distinct_map)
  ultimately show "distinct (map f_relative_path ?c)" by (simp add: distinct_map)
  have "rel \<in> f_relative_path ` set ?c" if "(rel, n) \<in> set fl" for rel n
  proof -
    obtain f where f: "existing_file i rel fs = Some f" "f_startup_analysis_revision f = revision"
      using assms \<open>(rel, n) \<in> set fl\<close> unfolding scanned_def by fastforce
    from existing_file_SomeD [OF f(1)] f(2) show ?thesis by (force simp: current_rows_def)
  qed
  with ex show "set (map f_relative_path ?c) = fst ` set fl" by auto
qed

lemma current_rows_value:
  assumes "scanned i revision fs0 fl fs" "f \<in> set (current_rows i revision fs)" "distinct (map fst fl)"
  shows "\<exists>n. map_of fl (f_relative_path f) = Some n \<and> f_size_bytes f = Some n \<and>
    (case existing_file i (f_relative_path f) fs0 of
       Some f0 \<Rightarrow> f = refresh_file revision n f0
     | None \<Rightarrow> f_status f = FPENDING \<and> f_retry_attempts f = 0 \<and> f_error_message f = None \<and> f_checksum f = None)"
proof -
  have e: "existing_file i (f_relative_path f) fs = Some f" "f_relative_path f \<in> fst ` set fl"
    using assms(1,2) unfolding scanned_def current_rows_def by auto
  then obtain n where n: "(f_relative_path f, n) \<in> set fl" by auto
  with assms(1) e(1) have "f_size_bytes f = Some n \<and>
    (case existing_file i (f_relative_path f) fs0 of
       Some f0 \<Rightarrow> f = refresh_file revision n f0
     | None \<Rightarrow> f_status f = FPENDING \<and> f_retry_attempts f = 0 \<and> f_error_message f = None \<and> f_checksum f = None)"
    unfolding scanned_def by fastforce
  with n assms(3) show ?thesis by (intro exI [of _ n]) simp
qed

lemma current_rows_totals:
  assumes "scanned i revision fs0 fl fs" "distinct (map fst fl)"
  shows "length (current_rows i revision fs) = length fl"
    and "sum_list (map (\<lambda>f. or_zero (f_size_bytes f)) (current_rows i revision fs)) = sum_list (map snd fl)"
proof -
  let ?c = "current_rows i revision fs" and ?v = "\<lambda>rel. the (map_of fl rel)"
  note paths = current_rows_paths [OF assms(1)]
  have "length (map f_relative_path ?c) = length (map fst fl)"
    using paths assms(2) by (metis distinct_card list.set_map)
  then show "length ?c = length fl" by simp
  have "map (\<lambda>f. or_zero (f_size_bytes f)) ?c = map ?v (map f_relative_path ?c)"
    using current_rows_value [OF assms(1) _ assms(2)] by (force simp: or_zero_def)
  then have "sum_list (map (\<lambda>f. or_zero (f_size_bytes f)) ?c) = sum ?v (fst ` set fl)"
    by (simp only: sum_list_distinct_conv_sum_set [OF paths(1)] paths(2))
  also have "\<dots> = sum_list (map ?v (map fst fl))"
    by (simp only: sum_list_distinct_conv_sum_set [OF assms(2)] list.set_map)
  also have "map ?v (map fst fl) = map snd fl" using assms(2) by auto
  finally show "sum_list (map (\<lambda>f. or_zero (f_size_bytes f)) ?c) = sum_list (map snd fl)" .
qed

text \<open>What a finished cache holds: \<open>fl\<close> and \<open>dl\<close> are the files and directories found.\<close>

definition cache_holds :: "export_job \<Rightarrow> (string \<times> int) list \<Rightarrow> (string \<times> int) list \<Rightarrow> db \<Rightarrow> db \<Rightarrow> bool" where
  "cache_holds j fl dl db db' \<longleftrightarrow>
     (let r = sa_revision (j_analysis j) + 1
      in (\<exists>fs. scanned (j_id j) r (files db) fl fs \<and> files_of (j_id j) db' = current_rows (j_id j) r fs \<and> pk_ok f_id (files db') \<and>
            filter (\<lambda>f. f_job_id f \<noteq> j_id j) (files db') = filter (\<lambda>f. f_job_id f \<noteq> j_id j) (files db)) \<and>
         entries_scanned (j_id j) (entries db) fl dl (entries db') \<and>
         drives db' = drives db \<and> assignments db' = assignments db \<and>
         (\<forall>k. k \<noteq> j_id j \<longrightarrow> get_job k db' = get_job k db) \<and>
         get_job (j_id j) db' = map_option (\<lambda>j. j\<lparr>j_analysis := (j_analysis j)\<lparr>sa_revision := r, sa_cache_present := True,
            sa_entries := None, sa_file_count := Some (int (length fl)), sa_total_bytes := Some (sum_list (map snd fl))\<rparr>\<rparr>)
            (get_job (j_id j) db))"

definition finished_cache :: "export_job \<Rightarrow> (string \<times> int) list \<Rightarrow> db \<Rightarrow> db" where
  "finished_cache j fl w =
     set_job (j_id j) (finish_revision (int (length fl)) (sum_list (map snd fl)))
       (drop_old_revisions (j_id j) (sa_revision (j_analysis j) + 1) w)"

lemma finish_cache_holds:
  assumes start: "\<And>k. g k = k\<lparr>j_analysis := (j_analysis k)\<lparr>sa_revision := sa_revision (j_analysis j) + 1, sa_cache_present := False,
      sa_entries := y k\<rparr>\<rparr>"
    and w: "scan_so_far j (sa_revision (j_analysis j) + 1) (delete_entries_by_job (j_id j) (set_job (j_id j) g db)) fl dl w"
    and ok: "pk_ok f_id (files db)" "pk_ok n_id (entries db)"
    "\<forall>f\<in>set (files_of (j_id j) db). f_startup_analysis_revision f \<le> sa_revision (j_analysis j)" "distinct (map fst fl)"
  shows "cache_holds j fl dl db (finished_cache j fl w)"
proof -
  let ?r = "sa_revision (j_analysis j) + 1" and ?fs = "foldl (upsert_now j (sa_revision (j_analysis j) + 1)) (files db) fl"
  obtain ns where w': "w = (delete_entries_by_job (j_id j) (set_job (j_id j) g db))\<lparr>files := ?fs, entries := ns\<rparr>"
    and ns: "entries_scanned (j_id j) (entries (delete_entries_by_job (j_id j) (set_job (j_id j) g db))) fl dl ns"
    using w by (auto simp: scan_so_far_def delete_entries_by_job_def set_job_def)
  have "scanned (j_id j) ?r (files db) [] (files db)"
    using ok(1,3) by (intro scanned_start) (auto simp: files_of_def)
  from scanned_fold [OF this, of fl] ok(4) have sc: "scanned (j_id j) ?r (files db) fl ?fs" by simp
  let ?db = "finished_cache j fl w"
  have fl: "files ?db = filter (\<lambda>f. \<not> (f_job_id f = j_id j \<and> f_startup_analysis_revision f \<noteq> ?r)) ?fs"
    by (simp add: finished_cache_def drop_old_revisions_def set_job_def w')
  have "files_of (j_id j) ?db = current_rows (j_id j) ?r ?fs"
    by (auto simp: files_of_def fl current_rows_def intro: filter_cong)
  moreover have "pk_ok f_id (files ?db)" using sc unfolding fl by (simp add: scanned_def pk_ok_filter)
  moreover have "filter (\<lambda>f. f_job_id f \<noteq> j_id j) (files ?db) = filter (\<lambda>f. f_job_id f \<noteq> j_id j) (files db)"
  proof -
    have "filter (\<lambda>f. f_job_id f \<noteq> j_id j) (files ?db) = filter (\<lambda>f. f_job_id f \<noteq> j_id j) ?fs"
      unfolding fl filter_filter by (rule filter_cong) auto
    with sc show ?thesis by (simp add: scanned_def)
  qed
  moreover have "entries_scanned (j_id j) (entries db) fl dl (entries ?db)"
    using ns by (simp add: finished_cache_def drop_old_revisions_def set_job_def w' entries_scanned_def delete_entries_by_job_def)
  moreover have "get_job k ?db = (if k = j_id j then map_option (finish_revision (int (length fl)) (sum_list (map snd fl)) \<circ> g) (get_job k db)
      else get_job k db)" for k
    by (simp add: finished_cache_def drop_old_revisions_def w' delete_entries_by_job_def get_set_job finish_revision_def start
        get_job_def set_job_def row_simps option.map_comp)
  ultimately show ?thesis
    using sc unfolding cache_holds_def Let_def
    by (auto simp: finished_cache_def drop_old_revisions_def set_job_def w' delete_entries_by_job_def finish_revision_def start
        intro!: exI [of _ ?fs] option.map_cong)
qed

lemma scan_so_far_start: "entries_scanned (j_id j) (entries db) [] [] (entries db) \<Longrightarrow> scan_so_far j r db [] [] db"
  unfolding scan_so_far_def by (intro exI [of _ "entries db"]) simp

lemma deleted_entries_scanned:
  assumes "pk_ok n_id (entries db)"
  shows "entries_scanned i (entries (delete_entries_by_job i (set_job i g db))) [] [] (entries (delete_entries_by_job i (set_job i g db)))"
  using assms by (auto simp: entries_scanned_def entry_values_def delete_entries_by_job_def set_job_def pk_ok_filter filter_empty_conv)

lemma persist_cache_holds:
  assumes "persist_startup_analysis_cache e h n j db = Inr (db', nf, nb, samples)" "sh_walk h (j_source_path j) = (xs, stop)"
    and ok: "pk_ok f_id (files db)" "pk_ok n_id (entries db)"
    "\<forall>f\<in>set (files_of (j_id j) db). f_startup_analysis_revision f \<le> sa_revision (j_analysis j)" "distinct (map fst (tree_files xs))"
  shows "cache_holds j (tree_files xs) (tree_directories xs) db db' \<and> stop = None \<and>
    nf = int (length (tree_files xs)) \<and> nb = sum_list (map snd (tree_files xs))"
proof -
  let ?r = "sa_revision (j_analysis j) + 1"
  let ?db0 = "delete_entries_by_job (j_id j) (set_job (j_id j) (start_revision ?r) db)"
  obtain s where s: "scan_tree n j ?r xs (scan_start j db) = Inr s" "stop = None" "db' = scan_flush j ?r s"
    "nf = sc_file_count s" "nb = sc_total_bytes s"
    using assms(1,2) by (auto simp: persist_startup_analysis_cache_def Let_def split: sum.splits option.splits if_splits)
  have f0: "files ?db0 = files db" by (simp add: delete_entries_by_job_def set_job_def)
  have "scan_inv j ?r ?db0 [] (scan_start j db)"
    using scan_so_far_start [OF deleted_entries_scanned [OF ok(2)], of j ?r "start_revision ?r"]
    by (simp add: scan_inv_def scan_start_def)
  from scan_tree_inv [OF s(1) this] f0 ok(1,4) have inv: "scan_inv j ?r ?db0 xs s" by simp
  then obtain fl dl where v: "tree_files xs = fl @ sc_file_batch s" "tree_directories xs = dl @ sc_directory_batch s"
    "scan_so_far j ?r ?db0 fl dl (sc_session s)" by (auto simp: scan_inv_def)
  define w1 where "w1 = (if sc_file_batch s \<noteq> [] then persist_files j ?r (sc_file_batch s) (sc_session s) else sc_session s)"
  define w2 where "w2 = (if sc_directory_batch s \<noteq> [] then persist_entry_batch (j_id j) ''directory'' (sc_directory_batch s) w1 else w1)"
  have "distinct (map fst (sc_file_batch s))" using ok(4) v(1) by simp
  from scan_files_batch [OF v(3) _ this] f0 ok(1) v have "scan_so_far j ?r ?db0 (tree_files xs) dl w1" by (auto simp: w1_def)
  from scan_directories_batch [OF this, of "sc_directory_batch s"] this v
  have w2: "scan_so_far j ?r ?db0 (tree_files xs) (tree_directories xs) w2" by (auto simp: w2_def)
  have "db' = finished_cache j (tree_files xs) w2"
    using inv s(3) by (simp add: scan_flush_def finished_cache_def scan_inv_def w1_def w2_def Let_def)
  with finish_cache_holds [OF _ w2 ok, of "\<lambda>_. None"] inv s show ?thesis by (auto simp: start_revision_def scan_inv_def)
qed

lemma batches_of_distinct:
  assumes "distinct (map fst xs)" "c \<in> set (batches_of n xs)"
  shows "distinct (map fst c)"
  using assms
proof (induction n xs rule: batches_of.induct)
  case (1 n xs)
  from 1(3) have "c = take n xs \<or> n \<noteq> 0 \<and> xs \<noteq> [] \<and> c \<in> set (batches_of n (drop n xs))"
    by (subst (asm) batches_of.simps) (auto split: if_splits)
  with 1(1,2) show ?case by (auto simp: take_map [symmetric] drop_map [symmetric])
qed

lemma legacy_files_fold:
  assumes "scan_so_far j r db0 fl dl w" "pk_ok f_id (files db0)" "\<forall>c\<in>set cs. distinct (map fst c)"
  shows "scan_so_far j r db0 (fl @ concat cs) dl (foldl (\<lambda>w c. persist_files j r c w) w cs)"
  using assms(1,3)
proof (induction cs arbitrary: fl w)
  case (Cons c cs)
  from Cons.IH [OF scan_files_batch [OF Cons.prems(1) assms(2)]] Cons.prems(2) show ?case by simp
qed simp

lemma legacy_directories_fold:
  assumes "scan_so_far j r db0 fl dl w"
  shows "scan_so_far j r db0 fl (dl @ concat cs) (foldl (\<lambda>w c. persist_entry_batch (j_id j) ''directory'' c w) w cs)"
  using assms
proof (induction cs arbitrary: dl w)
  case (Cons c cs)
  from Cons.IH [OF scan_directories_batch [OF Cons.prems]] show ?case by simp
qed simp

lemma persist_legacy_holds:
  assumes "persist_legacy_cache e h n j (fs, ds, int (length fs), sum_list (map snd fs)) db = Inr (db', samples)" "0 < n"
    and ok: "pk_ok f_id (files db)" "pk_ok n_id (entries db)"
    "\<forall>f\<in>set (files_of (j_id j) db). f_startup_analysis_revision f \<le> sa_revision (j_analysis j)" "distinct (map fst fs)"
  shows "cache_holds j fs ds db db'"
proof -
  let ?r = "sa_revision (j_analysis j) + 1"
  let ?db0 = "delete_entries_by_job (j_id j) (set_job (j_id j) (start_legacy_revision ?r) db)"
  define w1 where "w1 = foldl (\<lambda>w c. persist_files j ?r c w) ?db0 (batches_of n fs)"
  define w2 where "w2 = foldl (\<lambda>w c. persist_entry_batch (j_id j) ''directory'' c w) w1 (batches_of n ds)"
  have f0: "files ?db0 = files db" by (simp add: delete_entries_by_job_def set_job_def)
  have "scan_so_far j ?r ?db0 fs [] w1"
    using legacy_files_fold [OF scan_so_far_start [OF deleted_entries_scanned [OF ok(2)]], of j "start_legacy_revision ?r" "batches_of n fs" ?r]
      f0 ok(1) batches_of_distinct [OF ok(4)] concat_batches_of [OF assms(2), of fs] by (simp add: w1_def)
  from legacy_directories_fold [OF this, of "batches_of n ds"] have w2: "scan_so_far j ?r ?db0 fs ds w2"
    by (simp add: w2_def concat_batches_of [OF assms(2)])
  have "db' = finished_cache j fs w2"
    using assms(1) by (auto simp: persist_legacy_cache_def finished_cache_def w1_def w2_def Let_def split: if_splits)
  with finish_cache_holds [OF _ w2 ok, of "\<lambda>k. sa_entries (j_analysis k)"] show ?thesis by (auto simp: start_legacy_revision_def)
qed

section \<open>When a cache is current\<close>

definition file_matches :: "source_host \<Rightarrow> string \<Rightarrow> string \<times> int \<Rightarrow> bool" where
  "file_matches h source x \<longleftrightarrow> sh_file_size h (source_path_for_relative_path h source (fst x)) = Some (snd x)"

definition directory_matches :: "source_host \<Rightarrow> string \<Rightarrow> string \<times> int \<Rightarrow> bool" where
  "directory_matches h source x \<longleftrightarrow>
     sh_is_dir h (source_directory source (fst x)) \<and> sh_dir_mtime h (source_directory source (fst x)) = Some (snd x)"

lemma check_source_files:
  "fold_checked (check_source_file h source) xs acc =
    (if \<forall>x\<in>set xs. file_matches h source x then Some (fst acc + int (length xs), snd acc + sum_list (map snd xs)) else None)"
  by (induction xs arbitrary: acc) (auto simp: check_source_file_def file_matches_def split: option.splits)

lemma check_source_directories:
  "fold_checked (check_source_directory h source) xs saw =
    (if \<forall>x\<in>set xs. directory_matches h source x then Some (saw \<or> [] \<in> fst ` set xs) else None)"
  by (induction xs arbitrary: saw) (auto simp: check_source_directory_def directory_matches_def Let_def split: option.splits)

definition file_value :: "export_file \<Rightarrow> string \<times> int" where
  "file_value f = (f_relative_path f, or_zero (f_size_bytes f))"

lemma check_file_rows:
  "fold_checked (check_file_row h source r) fs acc =
    (if \<forall>f\<in>set fs. f_startup_analysis_revision f = r \<and> file_matches h source (file_value f)
     then Some (fst acc + int (length fs), snd acc + sum_list (map (\<lambda>f. or_zero (f_size_bytes f)) fs)) else None)"
  by (induction fs arbitrary: acc)
    (auto simp: check_file_row_def check_source_file_def file_matches_def file_value_def split: option.splits if_splits)

lemma check_directory_rows:
  "fold_checked (check_directory_row h source) ns saw =
     fold_checked (check_source_directory h source) (map (\<lambda>n. (n_relative_path n, or_zero (n_mtime_ns n))) ns) saw"
  by (induction ns arbitrary: saw) (auto simp: check_directory_row_def split: option.splits)

text \<open>What the check of the persisted cache decides, without pages and cursors.\<close>

definition cache_describes_source :: "source_host \<Rightarrow> export_job \<Rightarrow> db \<Rightarrow> bool" where
  "cache_describes_source h j db \<longleftrightarrow>
     (let sa = j_analysis j; source = j_source_path j; fs = files_of (j_id j) db; ds = entry_values ''directory'' (j_id j) (entries db)
      in 0 < or_zero (sa_file_count sa) \<and> 0 \<le> or_zero (sa_total_bytes sa) \<and> 0 < sa_revision sa \<and>
         (\<forall>f\<in>set fs. f_startup_analysis_revision f = sa_revision sa \<and> file_matches h source (file_value f)) \<and>
         or_zero (sa_file_count sa) = int (length fs) \<and>
         or_zero (sa_total_bytes sa) = sum_list (map (\<lambda>f. or_zero (f_size_bytes f)) fs) \<and>
         (\<forall>x\<in>set ds. directory_matches h source x) \<and>
         (sh_is_dir h source \<longrightarrow> [] \<in> fst ` set ds))"

lemma sum_list_sort_key: "sum_list (map g (sort_key k xs)) = (sum_list (map g xs) :: int)"
  by (metis mset_map mset_sort sum_mset_sum_list)

lemma cached_analysis_iff:
  assumes "0 < n" "pk_ok f_id (files db)" "pk_ok n_id (entries db)"
  shows "cached_analysis_is_current h n j db \<longleftrightarrow> cache_describes_source h j db"
proof -
  let ?fs = "list_by_job (j_id j) None None 0 db" and ?ns = "list_entries_by_job (j_id j) (Some ''directory'') None 0 db"
  have fs: "?fs = sort_key f_id (files_of (j_id j) db)" by (simp add: list_by_job_def paged_def Let_def)
  have ns: "?ns = sort_key n_id (filter (\<lambda>n. n_job_id n = j_id j \<and> n_entry_type n = ''directory'') (entries db))"
    by (simp add: list_entries_by_job_def paged_def Let_def filter_sort conj_commute)
  have "distinct (map f_id (files_of (j_id j) db))"
    using pk_ok_filter [OF assms(2)] by (simp add: files_of_def pk_ok_def)
  then have p1: "paged_check f_id n f ?fs None acc = fold_checked f ?fs acc" for f :: "int \<times> int \<Rightarrow> _" and acc
    unfolding fs by (intro paged_check_all sort_key_strict assms(1))
  have "distinct (map n_id (filter (\<lambda>n. n_job_id n = j_id j \<and> n_entry_type n = ''directory'') (entries db)))"
    using pk_ok_filter [OF assms(3)] by (simp add: pk_ok_def)
  then have p2: "paged_check n_id n f ?ns None acc = fold_checked f ?ns acc" for f :: "bool \<Rightarrow> _" and acc
    unfolding ns by (intro paged_check_all sort_key_strict assms(1))
  have ds: "set (map (\<lambda>n. (n_relative_path n, or_zero (n_mtime_ns n))) ?ns) = set (entry_values ''directory'' (j_id j) (entries db))"
    by (auto simp: ns entry_values_def)
  have tot: "sum_list (map (\<lambda>f. or_zero (f_size_bytes f)) ?fs) = sum_list (map (\<lambda>f. or_zero (f_size_bytes f)) (files_of (j_id j) db))"
    "length ?fs = length (files_of (j_id j) db)" "set ?fs = set (files_of (j_id j) db)"
    by (simp_all add: fs sum_list_sort_key)
  show ?thesis
    unfolding cached_analysis_is_current_def cache_describes_source_def Let_def p1 p2 check_file_rows check_directory_rows
      check_source_directories ds tot not_le [symmetric]
    by (auto split: if_splits simp del: of_nat_0_less_iff length_greater_0_conv not_le of_nat_le_0_iff)
qed

text \<open>The cheap check is exact: the paged comparison of the persisted analysis with the source, which reads a batch of rows at a time,
  accepts exactly the caches that describe the source, for every positive batch size.\<close>

theorem cache_check_exact:
  assumes "0 < n" "pk_ok f_id (files db)" "pk_ok n_id (entries db)"
  shows "cached_analysis_is_current h n j db \<longleftrightarrow> cache_describes_source h j db"
  using assms by (rule cached_analysis_iff)

section \<open>The preparation of a job\<close>

text \<open>What the host promises: the walk shows every file once, with the size and modification time that asking for the
  path gives, and shows the root of a directory. What the database promises about a job: keys are unique, no row is newer
  than the revision of the job, and a legacy cache names a file once.\<close>

definition faithful_source :: "source_host \<Rightarrow> string \<Rightarrow> bool" where
  "faithful_source h source \<longleftrightarrow>
     (let xs = fst (sh_walk h source)
      in distinct (map fst (tree_files xs)) \<and> (\<forall>x\<in>set (tree_files xs). 0 \<le> snd x \<and> file_matches h source x) \<and>
         (\<forall>rel t. Tree_dir rel (Some t) \<in> set xs \<longrightarrow> directory_matches h source (rel, t)) \<and>
         (sh_is_dir h source \<longrightarrow> (\<exists>t. Tree_dir [] t \<in> set xs)))"

definition analysis_wf :: "int \<Rightarrow> db \<Rightarrow> bool" where
  "analysis_wf i db \<longleftrightarrow> pk_ok f_id (files db) \<and> pk_ok n_id (entries db) \<and>
     (\<forall>j. get_job i db = Some j \<longrightarrow> 0 \<le> sa_revision (j_analysis j) \<and>
        (\<forall>f\<in>set (files_of i db). f_startup_analysis_revision f \<le> sa_revision (j_analysis j)) \<and>
        (\<forall>fs ds n b. load_legacy_cache j = Some (fs, ds, n, b) \<longrightarrow> distinct (map fst fs)))"

lemma scan_tree_readable: "scan_tree n j r xs s = Inr s' \<Longrightarrow> Tree_dir rel t \<in> set xs \<Longrightarrow> t \<noteq> None"
  by (induction xs arbitrary: s) (auto simp: scan_entry_def split: sum.splits option.splits tree_entry.splits)

lemma tree_directories_in: "(rel, v) \<in> set (tree_directories xs) \<longleftrightarrow> (\<exists>t. Tree_dir rel t \<in> set xs \<and> v = or_zero t)"
  by (induction xs rule: tree_directories.induct) auto

lemma cache_holds_describes:
  assumes "cache_holds j fl dl db db'" "get_job (j_id j) db = Some j0" "0 \<le> sa_revision (j_analysis j)" "j_source_path j0 = source"
    "fl \<noteq> []" "distinct (map fst fl)" "\<forall>x\<in>set fl. 0 \<le> snd x \<and> file_matches h source x" "\<forall>x\<in>set dl. directory_matches h source x"
    "sh_is_dir h source \<longrightarrow> [] \<in> fst ` set dl"
  shows "\<exists>j1. get_job (j_id j) db' = Some j1 \<and> cache_describes_source h j1 db' \<and> sa_cache_present (j_analysis j1) \<and>
    or_zero (sa_file_count (j_analysis j1)) = int (length fl) \<and> or_zero (sa_total_bytes (j_analysis j1)) = sum_list (map snd fl) \<and>
    j1\<lparr>j_analysis := j_analysis j0\<rparr> = j0"
proof -
  let ?r = "sa_revision (j_analysis j) + 1"
  obtain fs where sc: "scanned (j_id j) ?r (files db) fl fs" and fs: "files_of (j_id j) db' = current_rows (j_id j) ?r fs"
    using assms(1) by (auto simp: cache_holds_def Let_def)
  define j1 where "j1 = j0\<lparr>j_analysis := (j_analysis j0)\<lparr>sa_revision := ?r, sa_cache_present := True,
      sa_entries := None, sa_file_count := Some (int (length fl)), sa_total_bytes := Some (sum_list (map snd fl))\<rparr>\<rparr>"
  have j1: "get_job (j_id j) db' = Some j1" using assms(1,2) by (simp add: cache_holds_def Let_def j1_def)
  have ds: "entry_values ''directory'' (j_id j) (entries db') = dl" using assms(1) by (simp add: cache_holds_def entries_scanned_def Let_def)
  have id: "j_id j1 = j_id j" using get_job_id [OF j1] by simp
  have rows: "f_startup_analysis_revision f = ?r \<and> file_matches h source (file_value f)" if f: "f \<in> set (current_rows (j_id j) ?r fs)" for f
  proof -
    obtain n where n: "map_of fl (f_relative_path f) = Some n" "f_size_bytes f = Some n"
      using current_rows_value [OF sc f assms(6)] by blast
    from map_of_SomeD [OF n(1)] assms(7) n(2) have "file_matches h source (file_value f)" by (auto simp: file_value_def or_zero_def)
    with f show ?thesis by (simp add: current_rows_def)
  qed
  have "0 \<le> sum_list (map snd fl)" using assms(7) by (intro sum_list_nonneg) auto
  then have "cache_describes_source h j1 db'"
    using rows current_rows_totals [OF sc assms(6)] assms(3,4,5,8,9)
    unfolding cache_describes_source_def Let_def id fs ds by (simp add: j1_def or_zero_def)
  with j1 show ?thesis by (simp add: j1_def or_zero_def)
qed

text \<open>The three ways to a cache. The mark of a stale cache is committed on its own before.\<close>

definition stale_marked :: "env \<Rightarrow> export_job \<Rightarrow> db \<Rightarrow> db" where
  "stale_marked e j db = (if startup_analysis_cached j \<and> e_db_ok e ''analysis_stale'' then set_job (j_id j) mark_stale db else db)"

lemma resolve_cache_cases:
  assumes "resolve_cache e h n j db = (db1, Inr rc)"
  obtains (kept) "db1 = db" "rc_reused rc" "sa_cache_present (j_analysis j)" "cached_analysis_is_current h n j db"
      "rc_file_count rc = or_zero (sa_file_count (j_analysis j))" "rc_total_bytes rc = or_zero (sa_total_bytes (j_analysis j))"
  | (legacy) fs ds samples where "load_legacy_cache j = Some (fs, ds, rc_file_count rc, rc_total_bytes rc)" "rc_reused rc"
      "legacy_cache_is_current h (j_source_path j) (fs, ds, rc_file_count rc, rc_total_bytes rc)"
      "persist_legacy_cache e h n j (fs, ds, rc_file_count rc, rc_total_bytes rc) (stale_marked e j db) = Inr (db1, samples)"
  | (scan) samples where "\<not> rc_reused rc"
      "persist_startup_analysis_cache e h n j (stale_marked e j db) = Inr (db1, rc_file_count rc, rc_total_bytes rc, samples)"
proof (cases "sa_cache_present (j_analysis j) \<and> cached_analysis_is_current h n j db")
  case True
  with assms have "db1 = db \<and> rc_reused rc \<and> rc_file_count rc = or_zero (sa_file_count (j_analysis j)) \<and>
      rc_total_bytes rc = or_zero (sa_total_bytes (j_analysis j))" by (auto simp: resolve_cache_def)
  with True show ?thesis by (intro kept) auto
next
  case False
  note r = assms [unfolded resolve_cache_def Let_def if_not_P [OF False] stale_marked_def [symmetric]]
  have scan': ?thesis if "scan_again e h n j (stale_marked e j db) = (db1, Inr rc)"
    by (rule scan [of "rc_sample_files rc"]) (use that in \<open>auto simp: scan_again_def split: sum.splits\<close>)
  show ?thesis
  proof (cases "load_legacy_cache j")
    case None
    with r have "scan_again e h n j (stale_marked e j db) = (db1, Inr rc)" by simp
    then show ?thesis by (rule scan')
  next
    case (Some cache)
    obtain fs ds c b where cache: "cache = (fs, ds, c, b)" by (cases cache)
    show ?thesis
    proof (cases "legacy_cache_is_current h (j_source_path j) cache")
      case True
      with r Some cache obtain samples where
        "persist_legacy_cache e h n j (fs, ds, c, b) (stale_marked e j db) = Inr (db1, samples) \<and> rc_reused rc \<and>
          c = rc_file_count rc \<and> b = rc_total_bytes rc"
        by (auto split: sum.splits)
      with Some cache True show ?thesis by (intro legacy) auto
    next
      case legacy_stale: False
      with r Some have "scan_again e h n j (stale_marked e j db) = (db1, Inr rc)" by simp
      then show ?thesis by (rule scan')
    qed
  qed
qed

lemma stale_marked_frame:
  assumes "get_job (j_id j) db = Some j"
  shows "files (stale_marked e j db) = files db" "entries (stale_marked e j db) = entries db" "drives (stale_marked e j db) = drives db"
    "assignments (stale_marked e j db) = assignments db" "k \<noteq> j_id j \<Longrightarrow> get_job k (stale_marked e j db) = get_job k db"
    "get_job (j_id j) (stale_marked e j db) = Some j \<or> get_job (j_id j) (stale_marked e j db) = Some (mark_stale j)"
    "files_of k (stale_marked e j db) = files_of k db"
  using assms get_set_job [of mark_stale _ "j_id j" db]
  by (auto simp: stale_marked_def mark_stale_def set_job_def files_of_def)

lemma load_legacy_entries_nonneg:
  "load_legacy_entries vs = Some (fs, ds) \<Longrightarrow> x \<in> set fs \<Longrightarrow> 0 \<le> snd x"
  by (induction vs arbitrary: fs ds rule: load_legacy_entries.induct)
    (auto simp: json_count_def split: jval.splits if_splits option.splits)

lemma load_legacy_cacheD:
  assumes "load_legacy_cache j = Some (fs, ds, n, b)"
  shows "n = int (length fs)" "b = sum_list (map snd fs)" "\<forall>x\<in>set fs. 0 \<le> snd x"
  using assms load_legacy_entries_nonneg
  by (auto simp: load_legacy_cache_def Let_def split: option.splits jval.splits if_splits)

lemma legacy_current_matches:
  assumes "legacy_cache_is_current h source (fs, ds, n, b)"
  shows "\<forall>x\<in>set fs. file_matches h source x" "\<forall>x\<in>set ds. directory_matches h source x" "sh_is_dir h source \<longrightarrow> [] \<in> fst ` set ds"
  using assms by (auto simp: legacy_cache_is_current_def check_source_files check_source_directories split: if_splits)

lemma resolve_cache_holds:
  assumes r: "resolve_cache e h n j db = (db1, Inr rc)" and j: "get_job (j_id j) db = Some j" and wf: "analysis_wf (j_id j) db"
    and src: "faithful_source h (j_source_path j)" and n: "0 < n" and pos: "0 < rc_file_count rc"
  shows "(db1 = db \<and> rc_reused rc) \<or>
    (\<exists>fl dl. cache_holds j fl dl (stale_marked e j db) db1 \<and> distinct (map fst fl) \<and>
      (\<not> rc_reused rc \<longrightarrow> fl = tree_files (fst (sh_walk h (j_source_path j)))))" (is ?A)
    and "\<exists>j1. get_job (j_id j) db1 = Some j1 \<and> cache_describes_source h j1 db1 \<and> sa_cache_present (j_analysis j1) \<and>
      rc_file_count rc = or_zero (sa_file_count (j_analysis j1)) \<and> rc_total_bytes rc = or_zero (sa_total_bytes (j_analysis j1)) \<and>
      j1\<lparr>j_analysis := j_analysis j\<rparr> = j" (is ?B)
proof -
  let ?m = "stale_marked e j db" and ?src = "j_source_path j"
  note m = stale_marked_frame [OF j, where e = e]
  obtain j0 where j0: "get_job (j_id j) ?m = Some j0" "j0\<lparr>j_analysis := j_analysis j\<rparr> = j" "j_source_path j0 = ?src"
    using m(6) by (auto simp: mark_stale_def)
  have ok: "pk_ok f_id (files ?m)" "pk_ok n_id (entries ?m)"
      "\<forall>f\<in>set (files_of (j_id j) ?m). f_startup_analysis_revision f \<le> sa_revision (j_analysis j)" "0 \<le> sa_revision (j_analysis j)"
    using wf j m by (auto simp: analysis_wf_def)
  have restored: "j1\<lparr>j_analysis := j_analysis j\<rparr> = j" if "j1\<lparr>j_analysis := j_analysis j0\<rparr> = j0" for j1
    using arg_cong [OF that, of "\<lambda>k. k\<lparr>j_analysis := j_analysis j\<rparr>"] j0(2) by simp
  consider (kept) "db1 = db" "rc_reused rc" "\<exists>j1. get_job (j_id j) db1 = Some j1 \<and> cache_describes_source h j1 db1 \<and>
      sa_cache_present (j_analysis j1) \<and>
      rc_file_count rc = or_zero (sa_file_count (j_analysis j1)) \<and> rc_total_bytes rc = or_zero (sa_total_bytes (j_analysis j1)) \<and>
      j1\<lparr>j_analysis := j_analysis j\<rparr> = j"
    | (new) fl dl where "cache_holds j fl dl ?m db1" "distinct (map fst fl)" "fl \<noteq> []"
      "\<forall>x\<in>set fl. 0 \<le> snd x \<and> file_matches h ?src x" "\<forall>x\<in>set dl. directory_matches h ?src x"
      "sh_is_dir h ?src \<longrightarrow> [] \<in> fst ` set dl" "rc_file_count rc = int (length fl)" "rc_total_bytes rc = sum_list (map snd fl)"
      "\<not> rc_reused rc \<longrightarrow> fl = tree_files (fst (sh_walk h ?src))"
    using r
  proof (cases rule: resolve_cache_cases)
    case kept
    have "cache_describes_source h j db" using kept(4) cached_analysis_iff [OF n] wf by (simp add: analysis_wf_def)
    with kept j show ?thesis by (intro that(1)) auto
  next
    case (legacy fs ds samples)
    note l = load_legacy_cacheD [OF legacy(1)] legacy_current_matches [OF legacy(3)]
    have d: "distinct (map fst fs)" using wf j legacy(1) by (auto simp: analysis_wf_def)
    show ?thesis
      using persist_legacy_holds [OF legacy(4) [unfolded l(1,2)] n ok(1-3) d] l d pos legacy(2) by (intro that(2) [of fs ds]) auto
  next
    case (scan samples)
    obtain xs stop where w: "sh_walk h ?src = (xs, stop)" by fastforce
    have d: "distinct (map fst (tree_files xs))" using src w by (simp add: faithful_source_def Let_def)
    note h = persist_cache_holds [OF scan(2) w ok(1-3) d]
    obtain s where "scan_tree n j (sa_revision (j_analysis j) + 1) xs (scan_start j ?m) = Inr s"
      using scan(2) w by (auto simp: persist_startup_analysis_cache_def Let_def split: sum.splits)
    note readable = scan_tree_readable [OF this]
    have "\<forall>x\<in>set (tree_directories xs). directory_matches h ?src x"
    proof (clarify, unfold tree_directories_in, clarify)
      fix rel t
      assume t: "Tree_dir rel t \<in> set xs"
      with readable [OF this] obtain t' where "t = Some t'" by blast
      with t src w show "directory_matches h ?src (rel, or_zero t)" by (simp add: faithful_source_def Let_def or_zero_def)
    qed
    moreover have "sh_is_dir h ?src \<longrightarrow> [] \<in> fst ` set (tree_directories xs)"
    proof
      assume "sh_is_dir h ?src"
      then obtain t where "Tree_dir [] t \<in> set xs" using src w by (auto simp: faithful_source_def Let_def)
      then have "([], or_zero t) \<in> set (tree_directories xs)" by (auto simp: tree_directories_in)
      then show "[] \<in> fst ` set (tree_directories xs)" by (rule image_eqI [rotated]) simp
    qed
    ultimately show ?thesis
      using h src w d pos by (intro that(2) [of "tree_files xs" "tree_directories xs"]) (auto simp: faithful_source_def Let_def)
  qed
  then have "?A \<and> ?B"
  proof (cases)
    case (new fl dl)
    from cache_holds_describes [OF new(1) j0(1) ok(4) j0(3) new(3,2) new(4-6)] new(7,8) restored have ?B by auto
    with new(1,2,9) show ?thesis by blast
  qed auto
  then show ?A ?B by auto
qed

text \<open>What the rest of the preparation leaves alone.\<close>

definition keeps_cache :: "export_job \<Rightarrow> export_job \<Rightarrow> bool" where
  "keeps_cache j j' \<longleftrightarrow> j_id j' = j_id j \<and> j_source_path j' = j_source_path j \<and> j_status j' = j_status j \<and>
     j_project_id j' = j_project_id j \<and> sa_revision (j_analysis j') = sa_revision (j_analysis j) \<and>
     sa_file_count (j_analysis j') = sa_file_count (j_analysis j) \<and> sa_total_bytes (j_analysis j') = sa_total_bytes (j_analysis j) \<and>
     sa_cache_present (j_analysis j') = sa_cache_present (j_analysis j)"

definition prep_frame :: "int \<Rightarrow> db \<Rightarrow> db \<Rightarrow> bool" where
  "prep_frame i w w' \<longleftrightarrow> files w' = files w \<and> entries w' = entries w \<and> drives w' = drives w \<and> assignments w' = assignments w \<and>
     (\<forall>k. k \<noteq> i \<longrightarrow> get_job k w' = get_job k w) \<and>
     (\<forall>j. get_job i w = Some j \<longrightarrow> (\<exists>j'. get_job i w' = Some j' \<and> keeps_cache j j'))"

lemma keeps_cache_trans: "keeps_cache a b \<Longrightarrow> keeps_cache b c \<Longrightarrow> keeps_cache a c"
  by (simp add: keeps_cache_def)

lemma prep_frame_refl: "prep_frame i w w"
  by (simp add: prep_frame_def keeps_cache_def)

lemma prep_frame_trans: "prep_frame i a b \<Longrightarrow> prep_frame i b c \<Longrightarrow> prep_frame i a c"
  unfolding prep_frame_def by (metis keeps_cache_trans)

lemma prep_frame_audited: "audited w w' \<Longrightarrow> prep_frame i w w'"
  by (simp add: prep_frame_def audited_frame keeps_cache_def)

lemma prep_frame_set_job:
  assumes "\<And>j. keeps_cache j (g j)"
  shows "prep_frame i w (set_job i g w)"
proof -
  have "j_id (g j) = j_id j" for j using assms by (simp add: keeps_cache_def)
  note g = get_set_job [of g, OF this]
  show ?thesis using assms by (auto simp: prep_frame_def g) (simp_all add: set_job_def)
qed

lemma prep_frame_profile:
  assumes "auto_apply_profile e st j s key w = (w', auto)"
  shows "prep_frame (j_id j) w w'"
proof -
  have "prep_frame (j_id j) w (set_job (j_id j) (\<lambda>j. snd (apply_workload_profile k j)) w)" for k
    by (rule prep_frame_set_job) (simp add: keeps_cache_def apply_workload_profile_def tune_job_def split: option.splits)
  then show ?thesis
    using assms by (auto simp: auto_apply_profile_def prep_frame_refl split: option.splits if_splits
        dest!: audit_add_audited intro: prep_frame_trans [OF _ prep_frame_audited])
qed

definition restart_file :: "int \<Rightarrow> export_file \<Rightarrow> export_file" where
  "restart_file i f = (if f_job_id f = i \<and> f_status f \<noteq> DONE then pending_again f else f)"

lemma reset_non_done_files: "fst (reset_non_done_for_restart i db) = db\<lparr>files := map (restart_file i) (files db)\<rparr>"
  by (simp add: reset_non_done_for_restart_def update_files_def restart_file_def)

definition done_size :: "int \<Rightarrow> db \<Rightarrow> int" where
  "done_size i db = snd (summarize_done_progress i db)"

lemma finish_preparation_cases:
  assumes "finish_preparation e st h bp cfg manual j rc db = (db', Inr r)" "get_job (j_id j) db = Some j1"
  obtains w j2 where "0 < rc_file_count rc" "prep_frame (j_id j) db w" "files db' = map (restart_file (j_id j)) (files db)"
    "entries db' = entries db" "drives db' = drives db" "assignments db' = assignments db"
    "\<And>k. k \<noteq> j_id j \<Longrightarrow> get_job k db' = get_job k db" "keeps_cache j1 j2"
    "get_job (j_id j) db' = Some (set_analysis_ready e (rc_file_count rc) (rc_total_bytes rc) (done_size (j_id j) db') j2)"
    "pr_file_count r = rc_file_count rc" "pr_total_bytes r = rc_total_bytes rc" "pr_reused r = rc_reused rc"
proof -
  obtain bench where pos: "0 < rc_file_count rc" and bench:
      "(if manual then measure_transfer_rates h bp (ac_benchmark_bytes cfg) j (rc_sample_files rc) (rc_total_bytes rc)
        else Inr no_benchmark) = Inr bench"
    using assms(1) by (auto simp: finish_preparation_def Let_def split: sum.splits if_splits)
  define w0 where "w0 = (if manual \<or> \<not> rc_reused rc then set_job (j_id j) (set_benchmark bench) db else db)"
  define w1 where "w1 = fst (reset_non_done_for_restart (j_id j) w0)"
  obtain s key where rec: "workload_recommendation (ac_small_max cfg) (ac_large_min cfg) (j_id j) w1 = (s, key)" by fastforce
  obtain w2 auto where ap: "auto_apply_profile e st j s key w1 = (w2, auto)" by fastforce
  let ?ready = "set_analysis_ready e (rc_file_count rc) (rc_total_bytes rc) (done_size (j_id j) w2)"
  have fin: "audited (set_job (j_id j) ?ready w2) db' \<and> pr_file_count r = rc_file_count rc \<and> pr_total_bytes r = rc_total_bytes rc \<and>
      pr_reused r = rc_reused rc"
    using assms(1) pos unfolding finish_preparation_def Let_def bench sum.case w0_def [symmetric] w1_def [symmetric]
    by (auto simp: rec ap done_size_def [symmetric] best_effort_audited split: if_splits)
  have f0: "prep_frame (j_id j) db w0"
    unfolding w0_def by (auto intro!: prep_frame_refl prep_frame_set_job simp: keeps_cache_def set_benchmark_def)
  have f2: "prep_frame (j_id j) w1 w2" using ap by (rule prep_frame_profile)
  have files: "files w2 = map (restart_file (j_id j)) (files db)"
    using f0 f2 by (simp add: prep_frame_def w1_def reset_non_done_files)
  obtain j2 where j2: "get_job (j_id j) w2 = Some j2" "keeps_cache j1 j2"
  proof -
    obtain j0 where j0: "get_job (j_id j) w0 = Some j0" "keeps_cache j1 j0" using f0 assms(2) by (auto simp: prep_frame_def)
    moreover have "get_job (j_id j) w1 = get_job (j_id j) w0" by (simp add: w1_def reset_non_done_files get_job_def)
    ultimately obtain j2 where "get_job (j_id j) w2 = Some j2" "keeps_cache j0 j2" using f2 by (auto simp: prep_frame_def)
    with j0(2) that show ?thesis by (blast intro: keeps_cache_trans)
  qed
  have g: "get_job k (set_job (j_id j) ?ready w2) = (if k = j_id j then map_option ?ready (get_job k w2) else get_job k w2)" for k
    by (rule get_set_job) (simp add: set_analysis_ready_def)
  note a = audited_frame [OF conjunct1 [OF fin]]
  have "done_size (j_id j) db' = done_size (j_id j) w2"
    by (simp add: done_size_def summarize_done_progress_def list_done_by_job_def files_of_def a set_job_def)
  moreover have "entries (set_job (j_id j) ?ready w2) = entries w2" "drives (set_job (j_id j) ?ready w2) = drives w2"
    "assignments (set_job (j_id j) ?ready w2) = assignments w2" "files (set_job (j_id j) ?ready w2) = files w2"
    by (simp_all add: set_job_def)
  moreover have "get_job k w1 = get_job k w0" "entries w1 = entries w0" "drives w1 = drives w0" "assignments w1 = assignments w0" for k
    by (simp_all add: w1_def reset_non_done_files get_job_def)
  ultimately show ?thesis
    using pos f0 f2 files j2 fin by (intro that [of w0 j2]) (simp_all add: a g prep_frame_def)
qed

lemma prepare_success_cases:
  assumes "prepare_job_startup_analysis e st h bp cfg manual i db = (db', Inr r)"
  obtains j db1 rc where "get_job i db = Some j" "j_id j = i" "resolve_cache e h (ac_batch_size cfg) j db = (db1, Inr rc)"
    "finish_preparation e st h bp cfg manual j rc db1 = (db', Inr r)"
  using assms get_job_id [of i db]
  by (auto simp: prepare_job_startup_analysis_def split: prod.splits sum.splits option.splits)

lemma restart_file_simps [simp]:
  "f_job_id (restart_file i f) = f_job_id f" "f_id (restart_file i f) = f_id f" "file_value (restart_file i f) = file_value f"
  "f_relative_path (restart_file i f) = f_relative_path f" "f_size_bytes (restart_file i f) = f_size_bytes f"
  "f_checksum (restart_file i f) = f_checksum f"
  "f_startup_analysis_revision (restart_file i f) = f_startup_analysis_revision f"
  "f_status (restart_file i f) = DONE \<longleftrightarrow> f_status f = DONE"
  by (simp_all add: restart_file_def pending_again_def file_value_def)

lemma files_of_restarted:
  assumes "files db' = map (restart_file i) (files db)"
  shows "files_of i db' = map (restart_file i) (files_of i db)"
  using assms by (simp add: files_of_def filter_map o_def)

lemma describes_restarted:
  assumes "cache_describes_source h j db" "keeps_cache j j'" "files db' = map (restart_file (j_id j)) (files db)" "entries db' = entries db"
  shows "cache_describes_source h j' db'"
  using assms files_of_restarted [OF assms(3)] by (auto simp: cache_describes_source_def keeps_cache_def Let_def o_def)

definition ready_to_copy :: "export_file \<Rightarrow> bool" where
  "ready_to_copy f \<longleftrightarrow> f_status f = DONE \<or> f_status f = FPENDING \<and> f_retry_attempts f = 0 \<and> f_error_message f = None"

lemma ready_restarted: "f_job_id f = i \<Longrightarrow> ready_to_copy (restart_file i f)"
  by (simp add: ready_to_copy_def restart_file_def pending_again_def)

lemma prepare_success:
  assumes "prepare_job_startup_analysis e st h bp cfg manual i db = (db', Inr r)" "get_job i db = Some j"
    and "analysis_wf i db" "faithful_source h (j_source_path j)" "0 < ac_batch_size cfg"
  obtains db1 j1 j2 and rc :: resolved_cache where "(db1 = db \<and> pr_reused r) \<or>
      (\<exists>fl dl. cache_holds j fl dl (stale_marked e j db) db1 \<and> distinct (map fst fl) \<and>
        (\<not> pr_reused r \<longrightarrow> fl = tree_files (fst (sh_walk h (j_source_path j)))))"
    "get_job i db1 = Some j1" "cache_describes_source h j1 db1" "sa_cache_present (j_analysis j1)"
    "rc_file_count rc = or_zero (sa_file_count (j_analysis j1))" "rc_total_bytes rc = or_zero (sa_total_bytes (j_analysis j1))"
    "j1\<lparr>j_analysis := j_analysis j\<rparr> = j" "0 < rc_file_count rc"
    "files db' = map (restart_file i) (files db1)" "entries db' = entries db1" "keeps_cache j1 j2"
    "get_job i db' = Some (set_analysis_ready e (rc_file_count rc) (rc_total_bytes rc) (done_size i db') j2)"
proof -
  from assms(1) obtain j0 db1 rc where 1: "get_job i db = Some j0" "j_id j0 = i"
    "resolve_cache e h (ac_batch_size cfg) j0 db = (db1, Inr rc)" "finish_preparation e st h bp cfg manual j0 rc db1 = (db', Inr r)"
    by (rule prepare_success_cases)
  with assms(2) have j: "j0 = j" "j_id j = i" by auto
  have pos: "0 < rc_file_count rc"
    using 1(4) by (auto simp: finish_preparation_def Let_def split: sum.splits if_splits)
  have wf: "get_job (j_id j) db = Some j" "analysis_wf (j_id j) db" using assms(2,3) j(2) by simp_all
  note holds = resolve_cache_holds [OF 1(3) [unfolded j(1)] wf assms(4,5) pos]
  from holds(2) obtain j1 where j1: "get_job i db1 = Some j1" "cache_describes_source h j1 db1" "sa_cache_present (j_analysis j1)"
    "rc_file_count rc = or_zero (sa_file_count (j_analysis j1))" "rc_total_bytes rc = or_zero (sa_total_bytes (j_analysis j1))"
    "j1\<lparr>j_analysis := j_analysis j\<rparr> = j" unfolding j(2) by blast
  from finish_preparation_cases [OF 1(4) [unfolded j(1)], unfolded j(2), OF j1(1)] obtain j2 where
    j2: "files db' = map (restart_file i) (files db1)" "entries db' = entries db1" "keeps_cache j1 j2"
    "get_job i db' = Some (set_analysis_ready e (rc_file_count rc) (rc_total_bytes rc) (done_size i db') j2)"
    "pr_reused r = rc_reused rc" by metis
  show ?thesis using that [OF _ j1 pos j2(1-4)] holds(1) unfolding j2(5) by blast
qed

lemma prepared_job:
  assumes "prepare_job_startup_analysis e st h bp cfg manual i db = (db', Inr r)" "get_job i db = Some j"
    and "analysis_wf i db" "faithful_source h (j_source_path j)" "0 < ac_batch_size cfg"
  shows "\<exists>j'. get_job i db' = Some j' \<and> sa_status (j_analysis j') = READY \<and> sa_cache_present (j_analysis j') \<and>
    j_status j' = j_status j \<and> j_source_path j' = j_source_path j \<and> cache_describes_source h j' db' \<and>
    j_file_count j' = int (length (files_of i db')) \<and> 0 < j_file_count j' \<and>
    j_total_bytes j' = sum_list (map (\<lambda>f. or_zero (f_size_bytes f)) (files_of i db')) \<and>
    j_copied_bytes j' = sum_list (map (\<lambda>f. or_zero (f_size_bytes f)) (filter (\<lambda>f. f_status f = DONE) (files_of i db'))) \<and>
    list_all ready_to_copy (files_of i db')"
proof -
  obtain db1 j1 j2 and rc :: resolved_cache where j1: "get_job i db1 = Some j1" "cache_describes_source h j1 db1" "sa_cache_present (j_analysis j1)"
    "rc_file_count rc = or_zero (sa_file_count (j_analysis j1))" "rc_total_bytes rc = or_zero (sa_total_bytes (j_analysis j1))"
    "j1\<lparr>j_analysis := j_analysis j\<rparr> = j" and pos: "0 < rc_file_count rc" and
    j2: "files db' = map (restart_file i) (files db1)" "entries db' = entries db1" "keeps_cache j1 j2"
    "get_job i db' = Some (set_analysis_ready e (rc_file_count rc) (rc_total_bytes rc) (done_size i db') j2)"
    by (rule prepare_success [OF assms]) blast
  have same: "j_status j1 = j_status j" "j_source_path j1 = j_source_path j" "j_id j1 = i"
    using arg_cong [OF j1(6), of j_status] arg_cong [OF j1(6), of j_source_path] get_job_id [OF j1(1)] by simp_all
  let ?j = "set_analysis_ready e (rc_file_count rc) (rc_total_bytes rc) (done_size i db') j2"
  have k: "keeps_cache j1 ?j" using j2(3) by (simp add: keeps_cache_def set_analysis_ready_def)
  have d: "cache_describes_source h ?j db'" using describes_restarted [OF j1(2) k, of db'] j2(1,2) same(3) by simp
  have "list_all ready_to_copy (files_of i db')"
    unfolding files_of_restarted [OF j2(1)] by (simp add: list_all_iff files_of_def ready_restarted)
  moreover have "done_size i db' = sum_list (map (\<lambda>f. or_zero (f_size_bytes f)) (filter (\<lambda>f. f_status f = DONE) (files_of i db')))"
    by (simp add: done_size_def summarize_done_progress_def list_done_by_job_def Let_def or_zero_def)
  moreover have "or_zero (sa_file_count (j_analysis ?j)) = int (length (files_of i db'))"
    "or_zero (sa_total_bytes (j_analysis ?j)) = sum_list (map (\<lambda>f. or_zero (f_size_bytes f)) (files_of i db'))"
    using d get_job_id [OF j2(4)] by (simp_all add: cache_describes_source_def Let_def)
  ultimately show ?thesis
    using j2(4) d k j1(3,4,5) same pos by (intro exI [of _ ?j]) (simp add: keeps_cache_def set_analysis_ready_def)
qed

text \<open>A prepared job describes its source: if the preparation succeeds, then every file row of the job is a file of the
  source with its present size, the counters of the job are the number and the sizes of these rows and of the finished ones,
  every row is finished or waits to be copied, the analysis is ready, and the status of the job is unchanged.\<close>

theorem preparation_describes_source:
  assumes "prepare_job_startup_analysis e st h bp cfg manual i db = (db', Inr r)" "get_job i db = Some j"
    and "analysis_wf i db" "faithful_source h (j_source_path j)" "0 < ac_batch_size cfg"
  shows "\<exists>j'. get_job i db' = Some j' \<and> sa_status (j_analysis j') = READY \<and> sa_cache_present (j_analysis j') \<and>
    j_status j' = j_status j \<and> j_source_path j' = j_source_path j \<and> cache_describes_source h j' db' \<and>
    j_file_count j' = int (length (files_of i db')) \<and> 0 < j_file_count j' \<and>
    j_total_bytes j' = sum_list (map (\<lambda>f. or_zero (f_size_bytes f)) (files_of i db')) \<and>
    j_copied_bytes j' = sum_list (map (\<lambda>f. or_zero (f_size_bytes f)) (filter (\<lambda>f. f_status f = DONE) (files_of i db'))) \<and>
    list_all ready_to_copy (files_of i db')"
  using assms by (rule prepared_job)

lemma cache_holds_keys:
  assumes "cache_holds j fl dl db db'"
  shows "pk_ok f_id (files db')" "pk_ok n_id (entries db')"
  using assms by (auto simp: cache_holds_def Let_def entries_scanned_def)

lemma preparation_keys:
  assumes "prepare_job_startup_analysis e st h bp cfg manual i db = (db', Inr r)" "get_job i db = Some j"
    and "analysis_wf i db" "faithful_source h (j_source_path j)" "0 < ac_batch_size cfg"
  shows "pk_ok f_id (files db')" "pk_ok n_id (entries db')"
proof -
  obtain db1 where db1: "(db1 = db \<and> pr_reused r) \<or>
      (\<exists>fl dl. cache_holds j fl dl (stale_marked e j db) db1 \<and> distinct (map fst fl) \<and>
        (\<not> pr_reused r \<longrightarrow> fl = tree_files (fst (sh_walk h (j_source_path j)))))"
    "files db' = map (restart_file i) (files db1)" "entries db' = entries db1"
    by (rule prepare_success [OF assms]) blast
  have "pk_ok f_id (files db1)" "pk_ok n_id (entries db1)"
    using db1(1) assms(3) by (auto simp: analysis_wf_def dest: cache_holds_keys)
  with db1(2,3) show "pk_ok f_id (files db')" "pk_ok n_id (entries db')" by (simp_all add: pk_ok_def o_def)
qed

text \<open>Preparing again is free: while the source does not change, a second preparation finds the cache current, succeeds with
  the same counts, and changes no file row and no cache entry.\<close>

theorem preparation_repeatable:
  assumes "prepare_job_startup_analysis e st h bp cfg manual i db = (db', Inr r)" "get_job i db = Some j"
    and "analysis_wf i db" "faithful_source h (j_source_path j)" "0 < ac_batch_size cfg" "\<And>x. e_db_ok e2 x"
  shows "\<exists>db2 r2. prepare_job_startup_analysis e2 st h bp cfg False i db' = (db2, Inr r2) \<and> pr_reused r2 \<and>
    pr_file_count r2 = int (length (files_of i db')) \<and>
    pr_total_bytes r2 = sum_list (map (\<lambda>f. or_zero (f_size_bytes f)) (files_of i db')) \<and>
    files db2 = files db' \<and> entries db2 = entries db'"
proof -
  obtain j' where j': "get_job i db' = Some j'" "sa_cache_present (j_analysis j')" "cache_describes_source h j' db'"
    "list_all ready_to_copy (files_of i db')"
    using prepared_job [OF assms(1-5)] by blast
  have id: "j_id j' = i" using j'(1) by (rule get_job_id)
  have cur: "cached_analysis_is_current h (ac_batch_size cfg) j' db'"
    using cached_analysis_iff [OF assms(5) preparation_keys [OF assms(1-5)]] j'(3) by simp
  let ?rc = "\<lparr>rc_file_count = or_zero (sa_file_count (j_analysis j')), rc_total_bytes = or_zero (sa_total_bytes (j_analysis j')),
           rc_sample_files = map (\<lambda>f. source_path_for_relative_path h (j_source_path j') (f_relative_path f))
             (list_by_job i None (Some startup_analysis_sample_limit) 0 db'), rc_reused = True\<rparr>"
  have rc: "resolve_cache e2 h (ac_batch_size cfg) j' db' = (db', Inr ?rc)" using j'(2) cur id by (simp add: resolve_cache_def)
  have pos: "0 < rc_file_count ?rc" using j'(3) by (auto simp: cache_describes_source_def Let_def)
  obtain db2 r2 where fin: "finish_preparation e2 st h bp cfg False j' ?rc db' = (db2, Inr r2)"
  proof -
    have "\<exists>db2 r2. finish_preparation e2 st h bp cfg False j' ?rc db' = (db2, Inr r2)"
      using pos assms(6) by (simp add: finish_preparation_def Let_def split: prod.splits)
    then show ?thesis using that by blast
  qed
  have "files db2 = map (restart_file i) (files db')" "entries db2 = entries db'" "pr_file_count r2 = rc_file_count ?rc"
    "pr_total_bytes r2 = rc_total_bytes ?rc" "pr_reused r2 = rc_reused ?rc"
    using finish_preparation_cases [OF fin, unfolded id, OF j'(1)] by metis+
  moreover have "map (restart_file i) (files db') = files db'"
    using j'(4) by (intro map_idI) (auto simp: list_all_iff files_of_def ready_to_copy_def restart_file_def pending_again_def)
  moreover have "prepare_job_startup_analysis e2 st h bp cfg False i db' = (db2, Inr r2)"
    using j'(1) rc fin by (simp add: prepare_job_startup_analysis_def)
  ultimately show ?thesis using j'(3) id by (auto simp: cache_describes_source_def Let_def)
qed

lemma existing_file_only:
  assumes "f0 \<in> set (files_of i db)" "\<And>g. g \<in> set (files_of i db) \<Longrightarrow> f_relative_path g = f_relative_path f0 \<Longrightarrow> g = f0"
  shows "existing_file i (f_relative_path f0) (files db) = Some f0"
proof (cases "existing_file i (f_relative_path f0) (files db)")
  case None
  with existing_file_NoneD [OF None, of f0] assms(1) show ?thesis by (simp add: files_of_def)
next
  case (Some g)
  from existing_file_SomeD [OF this] assms(2) [of g] Some show ?thesis by (simp add: files_of_def)
qed

lemma current_rows_values:
  assumes "scanned i r fs0 fl fs" "distinct (map fst fl)"
  shows "set (map file_value (current_rows i r fs)) = set fl"
proof -
  have v: "file_value f \<in> set fl" if "f \<in> set (current_rows i r fs)" for f
    using current_rows_value [OF assms(1) that assms(2)] by (auto simp: file_value_def or_zero_def dest: map_of_SomeD)
  moreover have "x \<in> file_value ` set (current_rows i r fs)" if x: "x \<in> set fl" for x
  proof -
    have "fst x \<in> set (map f_relative_path (current_rows i r fs))" using x unfolding current_rows_paths(2) [OF assms(1)] by simp
    then obtain f where f: "f \<in> set (current_rows i r fs)" "f_relative_path f = fst x" by auto
    then have "fst (file_value f) = fst x" by (simp add: file_value_def)
    with v [OF f(1)] x assms(2) have "file_value f = x" by (metis eq_key_imp_eq_value prod.collapse)
    with f(1) show ?thesis by blast
  qed
  ultimately show ?thesis by auto
qed

lemma current_rows_finished:
  assumes "scanned i r (files db) fl fs" "distinct (map fst fl)" "f \<in> set (current_rows i r fs)" "f_status f = DONE"
  shows "\<exists>f0\<in>set (files_of i db). f_id f0 = f_id f \<and> f_relative_path f0 = f_relative_path f \<and> f_status f0 = DONE \<and>
      f_checksum f0 = f_checksum f"
proof -
  from current_rows_value [OF assms(1,3,2)] assms(4) obtain n f0
    where f0: "existing_file i (f_relative_path f) (files db) = Some f0" "f = refresh_file r n f0" by (auto split: option.splits)
  from existing_file_SomeD [OF f0(1)] assms(4) f0(2) show ?thesis
    by (intro bexI [of _ f0]) (auto simp: files_of_def split: if_splits)
qed

lemma finished_kept:
  assumes "scanned i r (files db) fl fs" "distinct (map fst fl)" "f0 \<in> set (files_of i db)" "f_status f0 = DONE"
    "f_relative_path f0 \<in> fst ` set fl" "\<And>g. g \<in> set (files_of i db) \<Longrightarrow> f_relative_path g = f_relative_path f0 \<Longrightarrow> g = f0"
  shows "\<exists>f\<in>set (current_rows i r fs). f_id f = f_id f0 \<and> f_status f = DONE \<and> f_checksum f = f_checksum f0"
proof -
  have e: "existing_file i (f_relative_path f0) (files db) = Some f0" using assms(3,6) by (rule existing_file_only)
  have "f_relative_path f0 \<in> f_relative_path ` set (current_rows i r fs)"
    using assms(5) current_rows_paths(2) [OF assms(1)] by simp
  then obtain g where g: "g \<in> set (current_rows i r fs)" "f_relative_path g = f_relative_path f0" by auto
  from current_rows_value [OF assms(1) g(1) assms(2)] e g(2) obtain n where "g = refresh_file r n f0" by auto
  with g(1) assms(4) show ?thesis by (intro bexI [of _ g]) auto
qed

text \<open>C30. A fresh scan is exact: after a preparation that did not reuse a cache the job has exactly one row for each file of
  the source, with its size, and no other row; a row is finished only if it was finished before, with the same checksum;
  a finished file that is still there keeps its row; and the rows of other jobs are untouched.\<close>

theorem fresh_preparation_exact:
  assumes "prepare_job_startup_analysis e st h bp cfg manual i db = (db', Inr r)" "\<not> pr_reused r" "get_job i db = Some j"
    and "analysis_wf i db" "faithful_source h (j_source_path j)" "0 < ac_batch_size cfg"
  defines "found \<equiv> tree_files (fst (sh_walk h (j_source_path j)))"
  shows "distinct (map f_relative_path (files_of i db')) \<and> set (map file_value (files_of i db')) = set found \<and>
    (\<forall>f\<in>set (files_of i db'). f_status f = DONE \<longrightarrow> (\<exists>f0\<in>set (files_of i db). f_id f0 = f_id f \<and>
        f_relative_path f0 = f_relative_path f \<and> f_status f0 = DONE \<and> f_checksum f0 = f_checksum f)) \<and>
    (\<forall>f0\<in>set (files_of i db). f_status f0 = DONE \<and> f_relative_path f0 \<in> fst ` set found \<and>
        (\<forall>g\<in>set (files_of i db). f_relative_path g = f_relative_path f0 \<longrightarrow> g = f0) \<longrightarrow>
        (\<exists>f\<in>set (files_of i db'). f_id f = f_id f0 \<and> f_status f = DONE \<and> f_checksum f = f_checksum f0)) \<and>
    filter (\<lambda>f. f_job_id f \<noteq> i) (files db') = filter (\<lambda>f. f_job_id f \<noteq> i) (files db)"
proof -
  obtain db1 where db1: "(db1 = db \<and> pr_reused r) \<or>
      (\<exists>fl dl. cache_holds j fl dl (stale_marked e j db) db1 \<and> distinct (map fst fl) \<and>
        (\<not> pr_reused r \<longrightarrow> fl = tree_files (fst (sh_walk h (j_source_path j)))))"
    and fin: "files db' = map (restart_file i) (files db1)"
    by (rule prepare_success [OF assms(1,3-6)]) blast
  let ?r = "sa_revision (j_analysis j) + 1"
  have j: "j_id j = i" using assms(3) by (rule get_job_id)
  from db1 assms(2) obtain dl where c: "cache_holds j found dl (stale_marked e j db) db1" and d: "distinct (map fst found)"
    by (auto simp: found_def)
  from c obtain fs where sc: "scanned i ?r (files db) found fs" and fs: "files_of i db1 = current_rows i ?r fs"
    and others: "filter (\<lambda>f. f_job_id f \<noteq> i) (files db1) = filter (\<lambda>f. f_job_id f \<noteq> i) (files db)"
    using stale_marked_frame(1) [of j db e] assms(3) j by (auto simp: cache_holds_def Let_def)
  note rows = files_of_restarted [OF fin, unfolded fs]
  have "distinct (map f_relative_path (files_of i db'))" using current_rows_paths(1) [OF sc] by (simp add: rows o_def)
  moreover have "set (map file_value (files_of i db')) = set found"
    using current_rows_values [OF sc d] by (simp add: rows image_image)
  moreover have "\<exists>f0\<in>set (files_of i db). f_id f0 = f_id f \<and> f_relative_path f0 = f_relative_path f \<and> f_status f0 = DONE \<and>
      f_checksum f0 = f_checksum f" if "f \<in> set (files_of i db')" "f_status f = DONE" for f
    using that current_rows_finished [OF sc d] by (auto simp: rows)
  moreover have "\<exists>f\<in>set (files_of i db'). f_id f = f_id f0 \<and> f_status f = DONE \<and> f_checksum f = f_checksum f0"
    if "f0 \<in> set (files_of i db)" "f_status f0 = DONE" "f_relative_path f0 \<in> fst ` set found"
      "\<forall>g\<in>set (files_of i db). f_relative_path g = f_relative_path f0 \<longrightarrow> g = f0" for f0
    using finished_kept [OF sc d that(1-3)] that(4) by (simp add: rows)
  moreover have "filter (\<lambda>f. f_job_id f \<noteq> i) (files db') = filter (\<lambda>f. f_job_id f \<noteq> i) (files db)"
    unfolding fin filter_map o_def restart_file_simps others [symmetric] by (intro map_idI) (simp add: restart_file_def)
  ultimately show ?thesis by blast
qed

section \<open>What no preparation touches\<close>

definition job_face :: "export_job \<Rightarrow> int \<times> job_status \<times> string \<times> string \<times> string option" where
  "job_face j = (j_id j, j_status j, j_project_id j, j_source_path j, j_target_mount_path j)"

definition prep_safe :: "int \<Rightarrow> db \<Rightarrow> db \<Rightarrow> bool" where
  "prep_safe i db db' \<longleftrightarrow> drives db' = drives db \<and> assignments db' = assignments db \<and> shares db' = shares db \<and> manifests db' = manifests db \<and>
     (\<forall>k. k \<noteq> i \<longrightarrow> get_job k db' = get_job k db) \<and> map_option job_face (get_job i db') = map_option job_face (get_job i db)"

lemma prep_safe_refl [intro]: "prep_safe i db db"
  by (simp add: prep_safe_def)

lemma prep_safe_trans: "prep_safe i a b \<Longrightarrow> prep_safe i b c \<Longrightarrow> prep_safe i a c"
  by (simp add: prep_safe_def)

lemma prep_safe_audited: "audited a b \<Longrightarrow> prep_safe i a b"
  by (simp add: prep_safe_def audited_frame)

lemma prep_safe_set_job:
  assumes "\<And>j. job_face (g j) = job_face j"
  shows "prep_safe i db (set_job i g db)"
proof -
  have "j_id (g j) = j_id j" for j using assms [of j] by (simp add: job_face_def)
  note g = get_set_job [of g, OF this]
  show ?thesis by (auto simp: prep_safe_def g option.map_comp o_def assms) (simp_all add: set_job_def)
qed

lemma prep_safe_tables: "prep_safe i db (db\<lparr>files := x\<rparr>)" "prep_safe i db (db\<lparr>entries := y\<rparr>)"
  by (simp_all add: prep_safe_def get_job_def)

lemma prep_safe_batches:
  "prep_safe i db (persist_files j r b db)" "prep_safe i db (persist_entry_batch k t b db)" "prep_safe i db (drop_old_revisions k r db)"
  "prep_safe i db (delete_entries_by_job k db)" "prep_safe i db (fst (reset_non_done_for_restart k db))"
  unfolding persist_files_def persist_file_batch_def persist_entry_batch_def drop_old_revisions_def delete_entries_by_job_def
    reset_non_done_files by (blast intro: prep_safe_tables prep_safe_trans)+

lemma prep_safe_jobs:
  "prep_safe i db (set_job i (start_revision r) db)" "prep_safe i db (set_job i (start_legacy_revision r) db)"
  "prep_safe i db (set_job i (finish_revision n b) db)" "prep_safe i db (set_job i mark_stale db)"
  "prep_safe i db (set_job i (set_benchmark d) db)" "prep_safe i db (set_job i (set_analysis_ready e n b k) db)"
  "prep_safe i db (set_job i (set_analysis_failed s) db)" "prep_safe i db (set_job i (\<lambda>j. snd (apply_workload_profile key j)) db)"
  by (rule prep_safe_set_job, simp add: job_face_def start_revision_def start_legacy_revision_def finish_revision_def mark_stale_def
      set_benchmark_def set_analysis_ready_def set_analysis_failed_def apply_workload_profile_def tune_job_def split: option.splits)+

lemmas prep_safe_intros = prep_safe_refl prep_safe_batches prep_safe_jobs

lemmas prep_safe_after = prep_safe_batches [THEN [2] prep_safe_trans] prep_safe_jobs [THEN [2] prep_safe_trans]

lemma prep_safe_fold: "(\<And>w b. prep_safe i w (f w b)) \<Longrightarrow> prep_safe i w (foldl f w bs)"
  by (induction bs arbitrary: w) (auto intro: prep_safe_trans)

lemma scan_entry_safe: "scan_entry n j r s x = Inr s' \<Longrightarrow> prep_safe i (sc_session s) (sc_session s')"
  by (auto simp: scan_entry_def Let_def prep_safe_intros split: tree_entry.splits option.splits if_splits)

lemma scan_tree_safe: "scan_tree n j r xs s = Inr s' \<Longrightarrow> prep_safe i (sc_session s) (sc_session s')"
  by (induction xs arbitrary: s) (auto split: sum.splits intro: prep_safe_trans scan_entry_safe)

lemma scan_flush_safe: "prep_safe (j_id j) (sc_session s) (scan_flush j r s)"
  unfolding scan_flush_def Let_def by (auto intro!: prep_safe_after)

lemma persist_cache_safe:
  assumes "persist_startup_analysis_cache e h n j db = Inr (db', x)"
  shows "prep_safe (j_id j) db db'"
proof -
  obtain s xs r where s: "scan_tree n j r xs (scan_start j db) = Inr s" "db' = scan_flush j r s"
    using assms by (auto simp: persist_startup_analysis_cache_def Let_def split: sum.splits option.splits if_splits prod.splits)
  have "prep_safe (j_id j) db (sc_session (scan_start j db))"
    by (auto simp: scan_start_def intro!: prep_safe_after)
  with scan_tree_safe [OF s(1)] scan_flush_safe s(2) show ?thesis by (blast intro: prep_safe_trans)
qed

lemma persist_legacy_safe:
  assumes "persist_legacy_cache e h n j cache db = Inr (db', x)"
  shows "prep_safe (j_id j) db db'"
  using assms unfolding persist_legacy_cache_def Let_def
  by (auto split: if_splits prod.splits intro!: prep_safe_after prep_safe_trans [OF _ prep_safe_fold])

lemma resolve_cache_safe:
  assumes "resolve_cache e h n j db = (db', r)"
  shows "prep_safe (j_id j) db db'"
proof -
  have "prep_safe (j_id j) w w'" if "scan_again e h n j w = (w', r')" for w w' r'
    using that by (auto simp: scan_again_def split: sum.splits dest: persist_cache_safe)
  then show ?thesis
    using assms unfolding resolve_cache_def Let_def
    by (auto split: if_splits option.splits sum.splits intro: prep_safe_trans [OF prep_safe_jobs(4)] dest: persist_legacy_safe)
qed

lemma auto_apply_safe: "auto_apply_profile e st j s key w = (w', auto) \<Longrightarrow> prep_safe (j_id j) w w'"
  by (auto simp: auto_apply_profile_def split: option.splits if_splits dest!: audit_add_audited
      intro: prep_safe_trans [OF prep_safe_jobs(8) prep_safe_audited])

lemma finish_preparation_safe:
  assumes "finish_preparation e st h bp cfg manual j rc db = (db', r)"
  shows "prep_safe (j_id j) db db'"
proof (cases "if manual then measure_transfer_rates h bp (ac_benchmark_bytes cfg) j (rc_sample_files rc) (rc_total_bytes rc)
    else Inr no_benchmark")
  case (Inl err)
  with assms show ?thesis by (auto simp: finish_preparation_def)
next
  case (Inr bench)
  define w1 where "w1 = fst (reset_non_done_for_restart (j_id j)
    (if manual \<or> \<not> rc_reused rc then set_job (j_id j) (set_benchmark bench) db else db))"
  obtain s key where rec: "workload_recommendation (ac_small_max cfg) (ac_large_min cfg) (j_id j) w1 = (s, key)" by fastforce
  obtain w2 auto where ap: "auto_apply_profile e st j s key w1 = (w2, auto)" by fastforce
  have "prep_safe (j_id j) db w1" unfolding w1_def by (auto intro!: prep_safe_after)
  with auto_apply_safe [OF ap] have w2: "prep_safe (j_id j) db w2" by (rule prep_safe_trans [rotated])
  have "db' = db \<or> db' = w2 \<or> (\<exists>n b k. audited (set_job (j_id j) (set_analysis_ready e n b k) w2) db')"
    using assms unfolding finish_preparation_def Let_def Inr sum.case w1_def [symmetric]
    by (auto simp: rec ap split: if_splits intro: best_effort_audited)
  with w2 show ?thesis by (auto intro: prep_safe_trans [OF prep_safe_trans [OF _ prep_safe_jobs(6)] prep_safe_audited])
qed

lemma fail_preparation_safe: "prep_safe i db (fail_preparation e cwd manual i err db)"
proof (cases "get_job i db")
  case (Some j)
  define reason where "reason = sanitize_job_failure_reason cwd err ''Unable to prepare startup analysis'' (Some (j_source_path j)) None"
  have "prep_safe i db (if e_db_ok e ''analysis_failed'' then set_job i (set_analysis_failed reason) db else db)"
    by (auto intro: prep_safe_jobs(7))
  then show ?thesis
    unfolding fail_preparation_def Some option.case Let_def reason_def [symmetric]
    by (auto intro: prep_safe_trans [OF _ prep_safe_audited [OF best_effort_audited]])
qed (simp add: fail_preparation_def prep_safe_refl)

lemma prepare_safe:
  assumes "prepare_job_startup_analysis e st h bp cfg manual i db = (db', r)"
  shows "prep_safe i db db'"
proof (cases "get_job i db")
  case None
  with assms show ?thesis by (auto simp: prepare_job_startup_analysis_def fail_preparation_safe)
next
  case (Some j)
  have id: "j_id j = i" using Some by (rule get_job_id)
  obtain db1 r1 where r1: "resolve_cache e h (ac_batch_size cfg) j db = (db1, r1)" by fastforce
  have s1: "prep_safe i db db1" using resolve_cache_safe [OF r1] id by simp
  show ?thesis
  proof (cases r1)
    case (Inl err)
    with assms Some r1 s1 show ?thesis
      by (auto simp: prepare_job_startup_analysis_def intro: prep_safe_trans fail_preparation_safe)
  next
    case (Inr rc)
    obtain db2 r2 where r2: "finish_preparation e st h bp cfg manual j rc db1 = (db2, r2)" by fastforce
    have "prep_safe i db db2" using s1 finish_preparation_safe [OF r2] id by (auto intro: prep_safe_trans)
    with assms Some r1 Inr r2 show ?thesis
      by (auto simp: prepare_job_startup_analysis_def split: sum.splits intro: prep_safe_trans fail_preparation_safe)
  qed
qed

text \<open>A failing preparation is recorded and harmless: whatever goes wrong, the drives, assignments, shares, manifests and
  other jobs stay as they are and the job keeps its status, project and paths; if the failure can be saved, the analysis
  of the job is marked failed with a bounded reason and without rates of an older benchmark.\<close>

theorem failed_preparation:
  assumes "prepare_job_startup_analysis e st h bp cfg manual i db = (db', Inl err)" "get_job i db = Some j"
    "e_db_ok e ''analysis_failed''"
  shows "prep_safe i db db' \<and>
    (\<exists>j' reason. get_job i db' = Some j' \<and> sa_status (j_analysis j') = SA_FAILED \<and>
      sa_failure_reason (j_analysis j') = Some reason \<and> length reason \<le> 1024 \<and>
      sa_share_read_mbps (j_analysis j') = None \<and> sa_drive_write_mbps (j_analysis j') = None \<and>
      sa_estimated_duration_seconds (j_analysis j') = None)"
proof -
  have safe: "prep_safe i db db'" using assms(1) by (rule prepare_safe)
  obtain db1 where db1: "db' = fail_preparation e (ac_cwd cfg) manual i err db1"
    using assms(1) by (auto simp: prepare_job_startup_analysis_def split: prod.splits sum.splits)
  have "get_job i db1 \<noteq> None"
  proof
    assume "get_job i db1 = None"
    with db1 have "get_job i db' = None" by (simp add: fail_preparation_def)
    with safe assms(2) show False by (simp add: prep_safe_def)
  qed
  then obtain j1 where j1: "get_job i db1 = Some j1" by blast
  define reason where "reason = sanitize_job_failure_reason (ac_cwd cfg) err ''Unable to prepare startup analysis''
    (Some (j_source_path j1)) None"
  have "audited (set_job i (set_analysis_failed reason) db1) db'"
    unfolding db1 fail_preparation_def j1 option.case Let_def reason_def [symmetric]
    by (auto simp: assms(3) intro: best_effort_audited)
  from audited_frame(11) [OF this, of i] have "get_job i db' = Some (set_analysis_failed reason j1)"
    using j1 by (simp add: get_set_job set_analysis_failed_def set_benchmark_def)
  moreover have "length reason \<le> 1024" unfolding reason_def by (rule failure_reason_bounded)
  ultimately show ?thesis using safe by (simp add: set_analysis_failed_def set_benchmark_def no_benchmark_def)
qed

end
