(* ===== verification/Reconcile_Jobs.thy ===== *)
theory Reconcile_Jobs
  imports Startup_Safety
begin

text \<open>
  Reconciliation of jobs after a restart (\<open>app/services/reconciliation_service.py\<close>): no worker survives a
  restart, so every job that looks active is settled, and interrupted start-up analyses are restored from a current cache or
  dropped. All changes are made in one session and committed together; the audit entries follow in a second transaction.
\<close>

section \<open>Batches of audit entries\<close>

record audit_entry =
  ae_action :: string
  ae_project_id :: "string option"
  ae_drive_id :: "int option"
  ae_job_id :: "int option"
  ae_details :: "(string \<times> jval) list"

text \<open>\<open>AuditRepository.add_many\<close> inside the handler that swallows its failure; the user is the system.\<close>

definition audit_add_many :: "env \<Rightarrow> string \<Rightarrow> audit_entry list \<Rightarrow> db \<Rightarrow> db" where
  "audit_add_many e name es db =
     (if es = [] \<or> \<not> e_db_ok e name then db
      else fold (\<lambda>a. audit_add_uncommitted (e\<lparr>e_actor := Some ''system'', e_client_ip := None\<rparr>) (ae_action a) (ae_project_id a) (ae_drive_id a)
             (ae_job_id a) (ae_details a)) es db)"

section \<open>Interrupted jobs\<close>

definition in_progress_statuses :: "job_status list" where
  "in_progress_statuses = [PREPARING, RUNNING, VERIFYING]"

definition in_flight_file :: "export_file \<Rightarrow> bool" where
  "in_flight_file f \<longleftrightarrow> f_status f \<in> {COPYING, RETRYING}"

definition interrupt_job :: "env \<Rightarrow> export_job \<Rightarrow> export_job" where
  "interrupt_job e j =
     j\<lparr>j_status := JFAILED, j_completed_at := Some (e_now e), j_failure_reason := Some ''Job interrupted by service restart before completion''\<rparr>"

definition status_details :: "int \<Rightarrow> string \<Rightarrow> string \<Rightarrow> string \<Rightarrow> (string \<times> jval) list" where
  "status_details i old new reason =
     [(''job_id'', JInt i), (''old_status'', JStr old), (''new_status'', JStr new), (''reason'', JStr reason)]"

definition reconcile_in_progress_job :: "env \<Rightarrow> int \<Rightarrow> db \<Rightarrow> db \<times> (string \<times> jval) list option" where
  "reconcile_in_progress_job e i w =
     (case get_job i w of
        None \<Rightarrow> (w, None)
      | Some j \<Rightarrow>
          (set_job i (interrupt_job e) (fst (update_files i in_flight_file pending_again w)),
           Some (status_details i (job_status_value (j_status j)) ''FAILED'' ''interrupted by restart'')))"

section \<open>Interrupted pauses\<close>

definition target_full_restart_reason :: string where
  "target_full_restart_reason = ''Destination capacity exhausted and no assigned drive can continue this copy''"

text \<open>Whether the files of the job were all handled before the restart, and why the job then failed.\<close>

definition pausing_verdict :: "(string \<Rightarrow> int option) \<Rightarrow> export_job \<Rightarrow> nat \<Rightarrow> db \<Rightarrow> db \<times> bool \<times> string option" where
  "pausing_verdict probe j reset w =
     (let (done, failed, timed_out) = (case bulk_count_done_errors_and_timeouts [j_id j] w (j_id j) of None \<Rightarrow> (0, 0, 0) | Some c \<Rightarrow> c);
          finished = (j_file_count j \<le> int (done + failed + timed_out))
      in if reset = 0 \<and> finished \<and> 0 < failed \<and> timed_out = 0 \<and> should_attempt_continuation (list_incomplete_by_job (j_id j) w)
         then (case select_overflow probe j (reserved_assignments (j_id j) w) 0 0 w of
                 (w', None, _) \<Rightarrow> (w', True, Some target_full_restart_reason)
               | (w', Some _, _) \<Rightarrow> (w', False, None))
         else (w, finished, None))"

definition settle_pausing :: "env \<Rightarrow> bool \<Rightarrow> string option \<Rightarrow> export_job \<Rightarrow> export_job" where
  "settle_pausing e terminal failure j =
     j\<lparr>j_status := (if \<not> terminal then PAUSED else if failure \<noteq> None then JFAILED else COMPLETED),
       j_completed_at := (if terminal then Some (e_now e) else None), j_copy_started_at := None, j_failure_reason := failure\<rparr>"

definition pausing_reason :: "bool \<Rightarrow> string option \<Rightarrow> string" where
  "pausing_reason terminal failure =
     (if \<not> terminal then ''pause_interrupted_by_restart''
      else if failure \<noteq> None then ''terminal_copy_failure_preserved_after_restart''
      else ''terminal_copy_completion_preserved_after_restart'')"

definition reconcile_stale_pausing_job ::
  "env \<Rightarrow> (string \<Rightarrow> int option) \<Rightarrow> int \<Rightarrow> db \<Rightarrow> db \<times> (string \<times> jval) list option" where
  "reconcile_stale_pausing_job e probe i w =
     (case get_job i w of
        None \<Rightarrow> (w, None)
      | Some j \<Rightarrow>
          (let (w1, reset) = update_files i in_flight_file (\<lambda>f. f\<lparr>f_status := FPENDING\<rparr>) w;
               (w2, finished, failure) = pausing_verdict probe j reset w1;
               terminal = (reset = 0 \<and> finished);
               j' = settle_pausing e terminal failure j
           in (set_job i (settle_pausing e terminal failure) w2,
               Some (status_details i ''PAUSING'' (job_status_value (j_status j')) (pausing_reason terminal failure) @
                     [(''reset_in_flight_file_count'', JInt (int reset))]))))"

section \<open>Interrupted analyses\<close>

definition restore_analysis :: "env \<Rightarrow> int \<Rightarrow> export_job \<Rightarrow> export_job" where
  "restore_analysis e done_bytes j =
     j\<lparr>j_file_count := or_zero (sa_file_count (j_analysis j)), j_total_bytes := or_zero (sa_total_bytes (j_analysis j)),
       j_copied_bytes := done_bytes,
       j_analysis := (j_analysis j)\<lparr>sa_status := READY,
         sa_last_analyzed_at := (case sa_last_analyzed_at (j_analysis j) of None \<Rightarrow> Some (e_now e) | Some t \<Rightarrow> Some t),
         sa_failure_reason := None\<rparr>\<rparr>"

definition analysis_details :: "bool \<Rightarrow> export_job \<Rightarrow> (string \<times> jval) list" where
  "analysis_details restored j =
     [(''job_id'', JInt (j_id j)), (''project_id'', JStr (j_project_id j)), (''old_status'', JStr ''ANALYZING''),
      (''new_status'', JStr (if restored then ''READY'' else ''NOT_ANALYZED'')),
      (''reason'', JStr (if restored then ''valid_cache_restored_after_restart'' else ''analysis_interrupted_by_restart'')),
      (''cache_restored'', JBool restored), (''cached_file_count'', JInt (or_zero (sa_file_count (j_analysis j)))),
      (''cached_total_bytes'', JInt (or_zero (sa_total_bytes (j_analysis j))))]"

definition done_bytes_of :: "int \<Rightarrow> db \<Rightarrow> int" where
  "done_bytes_of i w = sum_list (map (\<lambda>f. or_zero (f_size_bytes f)) (filter (\<lambda>f. f_status f = DONE) (files_of i w)))"

definition reconcile_stale_startup_analysis ::
  "env \<Rightarrow> source_host \<Rightarrow> nat \<Rightarrow> int \<Rightarrow> db \<Rightarrow> db \<times> (string \<times> jval) list option" where
  "reconcile_stale_startup_analysis e h batch_size i w =
     (case get_job i w of
        None \<Rightarrow> (w, None)
      | Some j \<Rightarrow>
          if sa_status (j_analysis j) \<noteq> ANALYZING then (w, None)
          else if sa_cache_present (j_analysis j) \<and> cached_analysis_is_current h batch_size j w
          then (set_job i (restore_analysis e (done_bytes_of i w)) w,
                Some (analysis_details True (restore_analysis e (done_bytes_of i w) j)))
          else (set_job i clear_analysis_cache (delete_entries_by_job i w), Some (analysis_details False (clear_analysis_cache j))))"

section \<open>The pass\<close>

fun each_job :: "(int \<Rightarrow> db \<Rightarrow> db \<times> (string \<times> jval) list option) \<Rightarrow> int list \<Rightarrow> db \<Rightarrow> db \<times> (int \<times> (string \<times> jval) list) list" where
  "each_job f [] w = (w, [])"
| "each_job f (i # is) w =
     (case f i w of
        (w1, r) \<Rightarrow> (case each_job f is w1 of
          (w2, rs) \<Rightarrow> (w2, (case r of None \<Rightarrow> rs | Some d \<Rightarrow> (i, d) # rs))))"

definition job_ids_where :: "(export_job \<Rightarrow> bool) \<Rightarrow> db \<Rightarrow> int list" where
  "job_ids_where P db = map j_id (filter P (jobs db))"

definition reconcile_entry :: "string \<Rightarrow> int \<times> (string \<times> jval) list \<Rightarrow> audit_entry" where
  "reconcile_entry action x =
     \<lparr>ae_action = action, ae_project_id = None, ae_drive_id = None, ae_job_id = Some (fst x), ae_details = snd x\<rparr>"

record jobs_summary =
  js_checked :: nat
  js_corrected :: nat
  js_analysis_checked :: nat
  js_analysis_corrected :: nat

definition reconcile_jobs ::
  "env \<Rightarrow> source_host \<Rightarrow> nat \<Rightarrow> (string \<Rightarrow> int option) \<Rightarrow> db \<Rightarrow> db \<times> job_effect list \<times> (string + jobs_summary)" where
  "reconcile_jobs e h batch_size probe db =
     (let in_progress = job_ids_where (\<lambda>j. j_status j \<in> set in_progress_statuses) db;
          pausing = job_ids_where (\<lambda>j. j_status j = PAUSING) db;
          analyzing = job_ids_where (\<lambda>j. sa_status (j_analysis j) = ANALYZING) db;
          (w1, a1) = each_job (reconcile_in_progress_job e) in_progress db;
          (w2, a2) = each_job (reconcile_stale_pausing_job e probe) pausing w1;
          (w3, a3) = each_job (reconcile_stale_startup_analysis e h batch_size) analyzing w2;
          corrected = length a1 + length a2 + length a3
      in if 0 < corrected \<and> \<not> e_db_ok e ''reconcile_jobs'' then (db, [], Inl ''commit failed'')
         else (audit_add_many e ''JOB_RECONCILED'' (map (reconcile_entry ''JOB_RECONCILED'') (a1 @ a2) @
                 map (reconcile_entry ''JOB_STARTUP_ANALYSIS_RECONCILED'') a3) w3,
               map (\<lambda>(i, _). Job_callback i ''JOB_RECONCILED'') (a1 @ a2),
               Inr \<lparr>js_checked = length in_progress + length pausing + length analyzing, js_corrected = corrected,
                    js_analysis_checked = length analyzing, js_analysis_corrected = length a3\<rparr>))"

section \<open>What a step may change\<close>

text \<open>A step for one job leaves the other jobs, shares, assignments and manifests alone; files change only in the job, keep their
  identity, and finished files are untouched; drives keep everything but their free space.\<close>

definition file_settled :: "export_file \<Rightarrow> export_file \<Rightarrow> bool" where
  "file_settled f f' \<longleftrightarrow> f' = f \<or> in_flight_file f \<and> (f' = f\<lparr>f_status := FPENDING\<rparr> \<or> f' = pending_again f)"

definition drives_probed :: "db \<Rightarrow> db \<Rightarrow> bool" where
  "drives_probed w w' \<longleftrightarrow> map (\<lambda>d. d\<lparr>d_available_bytes := None\<rparr>) (drives w') = map (\<lambda>d. d\<lparr>d_available_bytes := None\<rparr>) (drives w)"

definition job_settle_frame :: "int set \<Rightarrow> db \<Rightarrow> db \<Rightarrow> bool" where
  "job_settle_frame I w w' \<longleftrightarrow> map j_id (jobs w') = map j_id (jobs w) \<and> (\<forall>k. k \<notin> I \<longrightarrow> get_job k w' = get_job k w) \<and>
     list_all2 (\<lambda>f f'. file_settled f f' \<and> (f_job_id f \<notin> I \<longrightarrow> f' = f)) (files w) (files w') \<and>
     drives_probed w w' \<and> shares w' = shares w \<and> assignments w' = assignments w \<and> manifests w' = manifests w \<and>
     (\<forall>n\<in>set (entries w). n_job_id n \<notin> I \<longrightarrow> n \<in> set (entries w')) \<and> set (entries w') \<subseteq> set (entries w)"

lemma file_settled_trans: "file_settled a b \<Longrightarrow> file_settled b c \<Longrightarrow> file_settled a c"
  by (auto simp: file_settled_def in_flight_def pending_again_def)

lemma job_settle_refl [simp]: "job_settle_frame I w w"
  by (simp add: job_settle_frame_def drives_probed_def list_all2_refl file_settled_def)

lemma job_settle_trans:
  assumes "job_settle_frame I a b" "job_settle_frame I b c"
  shows "job_settle_frame I a c"
proof -
  let ?P = "\<lambda>f f'. file_settled f f' \<and> (f_job_id f \<notin> I \<longrightarrow> f' = f)"
  have "list_all2 ?P (files a) (files b)" "list_all2 ?P (files b) (files c)" using assms by (simp_all add: job_settle_frame_def)
  then have "list_all2 ?P (files a) (files c)"
    by (rule list_all2_trans [rotated]) (auto intro: file_settled_trans)
  with assms show ?thesis unfolding job_settle_frame_def drives_probed_def by (auto; blast)
qed

lemma job_settle_mono: "job_settle_frame I a b \<Longrightarrow> I \<subseteq> J \<Longrightarrow> job_settle_frame J a b"
  unfolding job_settle_frame_def by (auto elim!: list_all2_mono)

lemma settle_nobody: "job_settle_frame {} w w' \<Longrightarrow> files w' = files w"
proof -
  assume "job_settle_frame {} w w'"
  then have "list_all2 (\<lambda>f f'. f' = f) (files w) (files w')" unfolding job_settle_frame_def by (auto elim: list_all2_mono)
  then show ?thesis by (simp add: list_all2_conv_all_nth list_eq_iff_nth_eq)
qed

lemma settle_set_job:
  assumes "\<And>j. j_id (f j) = j_id j"
  shows "job_settle_frame {i} w (set_job i f w)"
proof -
  have "map j_id (jobs (set_job i f w)) = map j_id (jobs w)" unfolding set_job_def using assms by (simp add: upd_row_keys)
  then show ?thesis using get_set_job [OF assms]
    by (simp add: job_settle_frame_def drives_probed_def list_all2_refl file_settled_def) (simp add: set_job_def get_drive_def list_all2_refl)
qed

lemma settle_update_files:
  assumes "\<And>f. g f = f\<lparr>f_status := FPENDING\<rparr> \<or> g f = pending_again f"
  shows "job_settle_frame {i} w (fst (update_files i in_flight_file g w))"
proof -
  have "list_all2 (\<lambda>f f'. file_settled f f' \<and> (f_job_id f \<noteq> i \<longrightarrow> f' = f)) xs
      (map (\<lambda>f. if f_job_id f = i \<and> in_flight_file f then g f else f) xs)" for xs
    using assms by (induction xs) (auto simp: file_settled_def)
  then show ?thesis by (simp add: update_files_def job_settle_frame_def drives_probed_def get_job_def get_drive_def)
qed

lemma settle_delete_entries: "job_settle_frame {i} w (delete_entries_by_job i w)"
  by (auto simp: delete_entries_by_job_def job_settle_frame_def drives_probed_def get_job_def get_drive_def list_all2_refl file_settled_def)

lemma settle_probe: "job_settle_frame I w (set_drive i (\<lambda>d. d\<lparr>d_available_bytes := Some n\<rparr>) w)"
  by (simp add: job_settle_frame_def drives_probed_def set_drive_def upd_row_def get_job_def list_all2_refl file_settled_def)

lemma settle_select_overflow: "job_settle_frame I w (fst (select_overflow probe j as seen valid w))"
proof (induction probe j "as" seen valid w rule: select_overflow.induct)
  case (2 probe j a "as" seen valid w)
  show ?case
  proof (cases "get_drive (a_drive_id a) w")
    case None
    with 2(1) show ?thesis by simp
  next
    case (Some d)
    show ?thesis
    proof (cases "overflow_candidate j d")
      case False
      with 2(2) Some show ?thesis by simp
    next
      case True
      show ?thesis
      proof (cases "probe (the (d_mount_path d))")
        case None
        with 2(3) Some True show ?thesis by simp
      next
        case (Some n)
        let ?w = "set_drive (a_drive_id a) (\<lambda>d. d\<lparr>d_available_bytes := Some n\<rparr>) w"
        have "n < engine_remaining_bytes j \<Longrightarrow> job_settle_frame I ?w (fst (select_overflow probe j as (Suc seen) (Suc valid) ?w))"
          using 2(4) [OF \<open>get_drive (a_drive_id a) w = Some d\<close>] True Some by simp
        then have "n < engine_remaining_bytes j \<Longrightarrow> job_settle_frame I w (fst (select_overflow probe j as (Suc seen) (Suc valid) ?w))"
          by (rule job_settle_trans [OF settle_probe])
        then show ?thesis using \<open>get_drive (a_drive_id a) w = Some d\<close> True Some settle_probe by (simp add: Let_def)
      qed
    qed
  qed
qed simp

section \<open>Every pass settles its jobs\<close>

lemma settle_updates [simp]:
  "j_id (interrupt_job e j) = j_id j" "j_id (settle_pausing e b f j) = j_id j" "j_id (restore_analysis e n j) = j_id j"
  "j_status (interrupt_job e j) = JFAILED" "j_status (settle_pausing e b f j) \<in> {PAUSED, JFAILED, COMPLETED}"
  "j_status (restore_analysis e n j) = j_status j" "j_analysis (interrupt_job e j) = j_analysis j"
  "j_analysis (settle_pausing e b f j) = j_analysis j" "sa_status (j_analysis (restore_analysis e n j)) = READY"
  "sa_status (j_analysis (clear_analysis_cache j)) = NOT_ANALYZED"
  by (simp_all add: interrupt_job_def settle_pausing_def restore_analysis_def clear_analysis_cache_def cleared_analysis_def)

lemma update_files_cleared:
  assumes "\<And>f. \<not> c (g f)" "\<And>f. f_job_id (g f) = f_job_id f" "x \<in> set (files (fst (update_files i c g w)))" "f_job_id x = i"
  shows "\<not> c x"
proof -
  from assms(3) have "x \<in> (\<lambda>f. if f_job_id f = i \<and> c f then g f else f) ` set (files w)" by (simp add: update_files_def)
  then obtain f where "x = (if f_job_id f = i \<and> c f then g f else f)" by blast
  with assms(1,2,4) show ?thesis by (cases "f_job_id f = i \<and> c f") auto
qed

lemma not_in_flight [simp]: "f_job_id (pending_again f) = f_job_id f" "\<not> in_flight_file (pending_again f)" "\<not> in_flight_file (f\<lparr>f_status := FPENDING\<rparr>)"
  by (simp_all add: in_flight_file_def pending_again_def)

lemma pausing_verdict_frame: "pausing_verdict probe j n w = (w', r) \<Longrightarrow> job_settle_frame I w w'"
  using settle_select_overflow [of I w probe j "reserved_assignments (j_id j) w" 0 0]
  unfolding pausing_verdict_def Let_def by (auto split: prod.splits if_splits option.splits)

lemma in_progress_step:
  assumes "reconcile_in_progress_job e i w = (w', r)"
  shows "job_settle_frame {i} w w'" "\<And>j'. get_job i w' = Some j' \<Longrightarrow> j_status j' = JFAILED"
    "\<And>f. f \<in> set (files w') \<Longrightarrow> f_job_id f = i \<Longrightarrow> get_job i w' \<noteq> None \<Longrightarrow> \<not> in_flight_file f"
    "r \<noteq> None \<longleftrightarrow> get_job i w \<noteq> None"
proof -
  show "r \<noteq> None \<longleftrightarrow> get_job i w \<noteq> None" using assms by (auto simp: reconcile_in_progress_job_def split: option.splits)
  have "job_settle_frame {i} w w' \<and> (\<forall>j'. get_job i w' = Some j' \<longrightarrow> j_status j' = JFAILED) \<and>
      (\<forall>f. f \<in> set (files w') \<longrightarrow> f_job_id f = i \<longrightarrow> get_job i w' \<noteq> None \<longrightarrow> \<not> in_flight_file f)"
  proof (cases "get_job i w")
    case None
    with assms show ?thesis by (simp add: reconcile_in_progress_job_def)
  next
    case (Some j)
    define w1 where "w1 = fst (update_files i in_flight_file pending_again w)"
    have w': "w' = set_job i (interrupt_job e) w1" using assms Some by (simp add: reconcile_in_progress_job_def w1_def)
    have "job_settle_frame {i} w w1" unfolding w1_def by (rule settle_update_files) simp
    then have fr: "job_settle_frame {i} w w'" unfolding w' by (rule job_settle_trans [OF _ settle_set_job]) simp
    have "\<not> in_flight_file f" if "f \<in> set (files w1)" "f_job_id f = i" for f
      using that unfolding w1_def by (rule update_files_cleared [rotated 2]) simp_all
    then have "\<not> in_flight_file f" if "f \<in> set (files w')" "f_job_id f = i" for f using that by (simp add: w' set_job_def)
    moreover have "j_status j' = JFAILED" if "get_job i w' = Some j'" for j'
      using that by (auto simp: w' get_set_job)
    ultimately show ?thesis using fr by blast
  qed
  then show "job_settle_frame {i} w w'" "\<And>j'. get_job i w' = Some j' \<Longrightarrow> j_status j' = JFAILED"
    "\<And>f. f \<in> set (files w') \<Longrightarrow> f_job_id f = i \<Longrightarrow> get_job i w' \<noteq> None \<Longrightarrow> \<not> in_flight_file f" by blast+
qed

lemma pausing_step:
  assumes "reconcile_stale_pausing_job e probe i w = (w', r)"
  shows "job_settle_frame {i} w w'" "\<And>j'. get_job i w' = Some j' \<Longrightarrow> j_status j' \<in> {PAUSED, JFAILED, COMPLETED}"
    "\<And>f. f \<in> set (files w') \<Longrightarrow> f_job_id f = i \<Longrightarrow> get_job i w' \<noteq> None \<Longrightarrow> \<not> in_flight_file f"
    "r \<noteq> None \<longleftrightarrow> get_job i w \<noteq> None"
proof -
  show "r \<noteq> None \<longleftrightarrow> get_job i w \<noteq> None"
    using assms by (auto simp: reconcile_stale_pausing_job_def Let_def split: option.splits prod.splits)
  let ?g = "\<lambda>f. f\<lparr>f_status := FPENDING\<rparr>"
  have "job_settle_frame {i} w w' \<and> (\<forall>j'. get_job i w' = Some j' \<longrightarrow> j_status j' \<in> {PAUSED, JFAILED, COMPLETED}) \<and>
      (\<forall>f. f \<in> set (files w') \<longrightarrow> f_job_id f = i \<longrightarrow> get_job i w' \<noteq> None \<longrightarrow> \<not> in_flight_file f)"
  proof (cases "get_job i w")
    case None
    with assms show ?thesis by (simp add: reconcile_stale_pausing_job_def)
  next
    case (Some j)
    obtain w1 n where u: "update_files i in_flight_file ?g w = (w1, n)" by fastforce
    obtain w2 fin failure where v: "pausing_verdict probe j n w1 = (w2, fin, failure)" by (metis surj_pair)
    have w': "w' = set_job i (settle_pausing e (n = 0 \<and> fin) failure) w2"
      using assms Some u v by (simp add: reconcile_stale_pausing_job_def Let_def)
    have f1: "job_settle_frame {i} w w1" using settle_update_files [of ?g i w] u by simp
    have f2: "job_settle_frame {i} w1 w2" "job_settle_frame {} w1 w2" using pausing_verdict_frame [OF v] by auto
    have "\<not> in_flight_file f" if "f \<in> set (files w1)" "f_job_id f = i" for f
      using that update_files_cleared [of in_flight_file ?g f i w] u by simp
    moreover have "files w2 = files w1" using f2(2) by (intro settle_nobody)
    ultimately have "\<not> in_flight_file f" if "f \<in> set (files w')" "f_job_id f = i" for f using that by (simp add: w' set_job_def)
    moreover have "j_status j' \<in> {PAUSED, JFAILED, COMPLETED}" if "get_job i w' = Some j'" for j'
    proof -
      from that obtain j0 where "j' = settle_pausing e (n = 0 \<and> fin) failure j0" by (auto simp: w' get_set_job)
      then show ?thesis by (simp only: settle_updates)
    qed
    moreover have "job_settle_frame {i} w w'"
      unfolding w' by (rule job_settle_trans [OF job_settle_trans [OF f1 f2(1)] settle_set_job]) simp
    ultimately show ?thesis by blast
  qed
  then show "job_settle_frame {i} w w'" "\<And>j'. get_job i w' = Some j' \<Longrightarrow> j_status j' \<in> {PAUSED, JFAILED, COMPLETED}"
    "\<And>f. f \<in> set (files w') \<Longrightarrow> f_job_id f = i \<Longrightarrow> get_job i w' \<noteq> None \<Longrightarrow> \<not> in_flight_file f" by blast+
qed

lemma analysis_step:
  assumes "reconcile_stale_startup_analysis e h n i w = (w', r)"
  shows "job_settle_frame {i} w w'" "\<And>j'. get_job i w' = Some j' \<Longrightarrow> sa_status (j_analysis j') \<noteq> ANALYZING"
    "\<And>j. get_job i w = Some j \<Longrightarrow> \<exists>j'. get_job i w' = Some j' \<and> j_status j' = j_status j" "files w' = files w"
    "r \<noteq> None \<longleftrightarrow> (\<exists>j. get_job i w = Some j \<and> sa_status (j_analysis j) = ANALYZING)"
proof -
  have d: "get_job k (delete_entries_by_job i w) = get_job k w" for k by (simp add: delete_entries_by_job_def get_job_def)
  have c: "j_id (clear_analysis_cache j) = j_id j" "j_status (clear_analysis_cache j) = j_status j" for j by (simp_all add: clear_analysis_cache_def)
  have f: "job_settle_frame {i} w (set_job i clear_analysis_cache (delete_entries_by_job i w))"
    "job_settle_frame {i} w (set_job i (restore_analysis e m) w)" for m
    using job_settle_trans [OF settle_delete_entries settle_set_job] settle_set_job c by simp_all
  show "job_settle_frame {i} w w'" using assms f by (auto simp: reconcile_stale_startup_analysis_def split: option.splits if_splits)
  show "sa_status (j_analysis j') \<noteq> ANALYZING" if "get_job i w' = Some j'" for j'
    using assms that by (auto simp: reconcile_stale_startup_analysis_def get_set_job c d split: option.splits if_splits)
  show "\<exists>j'. get_job i w' = Some j' \<and> j_status j' = j_status j" if "get_job i w = Some j" for j
    using assms that by (auto simp: reconcile_stale_startup_analysis_def get_set_job c d split: option.splits if_splits)
  show "files w' = files w"
    using assms by (auto simp: reconcile_stale_startup_analysis_def set_job_def delete_entries_by_job_def split: option.splits if_splits)
  show "r \<noteq> None \<longleftrightarrow> (\<exists>j. get_job i w = Some j \<and> sa_status (j_analysis j) = ANALYZING)"
    using assms by (auto simp: reconcile_stale_startup_analysis_def split: option.splits if_splits)
qed

section \<open>The whole pass\<close>

lemma get_job_iff_key: "get_job k w \<noteq> None \<longleftrightarrow> k \<in> j_id ` set (jobs w)"
  unfolding get_job_def by (metis get_row_None)

lemma settle_frame_keys: "job_settle_frame I w w' \<Longrightarrow> get_job k w' \<noteq> None \<longleftrightarrow> get_job k w \<noteq> None"
  unfolding get_job_iff_key job_settle_frame_def by (metis list.set_map)

lemma settle_frame_file:
  assumes "job_settle_frame I w w'" "f' \<in> set (files w')"
  shows "\<exists>f\<in>set (files w). file_settled f f' \<and> (f_job_id f \<notin> I \<longrightarrow> f' = f)"
proof -
  have l: "list_all2 (\<lambda>f f'. file_settled f f' \<and> (f_job_id f \<notin> I \<longrightarrow> f' = f)) (files w) (files w')"
    using assms(1) by (simp add: job_settle_frame_def)
  obtain n where n: "n < length (files w')" "f' = files w' ! n" using assms(2) by (auto simp: in_set_conv_nth)
  with l show ?thesis by (intro bexI [of _ "files w ! n"]) (auto simp: list_all2_conv_all_nth)
qed

lemma file_settled_job: "file_settled f f' \<Longrightarrow> f_job_id f' = f_job_id f \<and> (in_flight_file f' \<longrightarrow> f' = f)"
  by (auto simp: file_settled_def)

text \<open>A property of single jobs that the step for a job establishes and the steps for others keep.\<close>

lemma each_job_frame:
  assumes "\<And>i w w' r. f i w = (w', r) \<Longrightarrow> job_settle_frame {i} w w'" "each_job f is w = (w', rs)"
  shows "job_settle_frame (set is) w w'"
  using assms(2)
proof (induction "is" arbitrary: w w' rs)
  case (Cons i "is")
  obtain w1 r where f: "f i w = (w1, r)" by fastforce
  obtain w2 rs2 where e: "each_job f is w1 = (w2, rs2)" by fastforce
  have "job_settle_frame (set (i # is)) w w1" "job_settle_frame (set (i # is)) w1 w2"
    using assms(1) [OF f] Cons.IH [OF e] by (auto intro: job_settle_mono)
  then show ?case using Cons.prems f e job_settle_trans by auto
qed simp

lemma each_job_establishes:
  assumes frame: "\<And>i w w' r. f i w = (w', r) \<Longrightarrow> job_settle_frame {i} w w'"
    and est: "\<And>i w w' r. f i w = (w', r) \<Longrightarrow> P i w'"
    and keep: "\<And>i k w w' r. f i w = (w', r) \<Longrightarrow> P k w \<Longrightarrow> P k w'"
    and run: "each_job f is w = (w', rs)" "k \<in> set is \<or> P k w"
  shows "P k w'"
  using run
proof (induction "is" arbitrary: w w' rs)
  case (Cons i "is")
  obtain w1 r where f: "f i w = (w1, r)" by fastforce
  obtain w2 rs2 where e: "each_job f is w1 = (w2, rs2)" by fastforce
  have "k \<in> set is \<or> P k w1" using Cons.prems(2) est [OF f] keep [OF f] by auto
  from Cons.IH [OF e this] show ?case using Cons.prems(1) f e by auto
qed simp

text \<open>A job that no longer looks active.\<close>

definition settled_status :: "int \<Rightarrow> db \<Rightarrow> bool" where
  "settled_status k w \<longleftrightarrow> (\<forall>j. get_job k w = Some j \<longrightarrow> j_status j \<notin> {PREPARING, RUNNING, VERIFYING, PAUSING})"

definition settled_files :: "int \<Rightarrow> db \<Rightarrow> bool" where
  "settled_files k w \<longleftrightarrow> get_job k w \<noteq> None \<longrightarrow> (\<forall>f\<in>set (files w). f_job_id f = k \<longrightarrow> \<not> in_flight_file f)"

definition settled_analysis :: "int \<Rightarrow> db \<Rightarrow> bool" where
  "settled_analysis k w \<longleftrightarrow> (\<forall>j. get_job k w = Some j \<longrightarrow> sa_status (j_analysis j) \<noteq> ANALYZING)"

lemma settled_other:
  assumes "job_settle_frame {i} w w'" "k \<noteq> i"
  shows "settled_status k w \<Longrightarrow> settled_status k w'" "settled_analysis k w \<Longrightarrow> settled_analysis k w'"
  using assms by (auto simp: settled_status_def settled_analysis_def job_settle_frame_def)

lemma settled_files_keep:
  assumes "job_settle_frame I w w'" "settled_files k w"
  shows "settled_files k w'"
  unfolding settled_files_def
proof (intro impI ballI)
  fix f' assume f': "get_job k w' \<noteq> None" "f' \<in> set (files w')" "f_job_id f' = k"
  obtain f where f: "f \<in> set (files w)" "file_settled f f'" using settle_frame_file [OF assms(1) f'(2)] by blast
  then show "\<not> in_flight_file f'"
    using f' file_settled_job [OF f(2)] assms(2) settle_frame_keys [OF assms(1), of k] unfolding settled_files_def by auto
qed

lemma each_job_keeps:
  assumes "\<And>i w w' r. f i w = (w', r) \<Longrightarrow> P w \<Longrightarrow> P w'" "each_job f is w = (w', rs)" "P w"
  shows "P w'"
  using assms(2,3)
proof (induction "is" arbitrary: w w' rs)
  case (Cons i "is")
  obtain w1 r where f: "f i w = (w1, r)" by fastforce
  obtain w2 rs2 where e: "each_job f is w1 = (w2, rs2)" by fastforce
  from Cons.IH [OF e assms(1) [OF f Cons.prems(2)]] show ?case using Cons.prems(1) f e by auto
qed simp

lemma in_progress_settles: "reconcile_in_progress_job e i w = (w', r) \<Longrightarrow> settled_status i w'"
  using in_progress_step(2) by (fastforce simp: settled_status_def)

lemma pausing_settles: "reconcile_stale_pausing_job e probe i w = (w', r) \<Longrightarrow> settled_status i w'"
  using pausing_step(2) by (fastforce simp: settled_status_def)

lemma analysis_settles: "reconcile_stale_startup_analysis e h n i w = (w', r) \<Longrightarrow> settled_analysis i w'"
  using analysis_step(2) by (fastforce simp: settled_analysis_def)

lemma in_progress_files: "reconcile_in_progress_job e i w = (w', r) \<Longrightarrow> settled_files i w'"
  using in_progress_step(3) by (fastforce simp: settled_files_def)

lemma pausing_files: "reconcile_stale_pausing_job e probe i w = (w', r) \<Longrightarrow> settled_files i w'"
  using pausing_step(3) by (fastforce simp: settled_files_def)

lemma get_job_update_files [simp]: "get_job k (fst (update_files i c g w)) = get_job k w"
  by (simp add: update_files_def get_job_def)

lemma in_progress_analysis:
  assumes "reconcile_in_progress_job e i w = (w', r)" "get_job i w' = Some j'"
  shows "\<exists>j. get_job i w = Some j \<and> j_analysis j' = j_analysis j"
  using assms by (cases "get_job i w") (auto simp: reconcile_in_progress_job_def get_set_job)

lemma settled_analysis_from:
  assumes "job_settle_frame {i} w w'" "\<And>j'. get_job i w' = Some j' \<Longrightarrow> \<exists>j. get_job i w = Some j \<and> j_analysis j' = j_analysis j"
    "settled_analysis k w"
  shows "settled_analysis k w'"
proof (cases "k = i")
  case True
  show ?thesis unfolding settled_analysis_def
  proof (intro allI impI)
    fix j' assume "get_job k w' = Some j'"
    then obtain j where "get_job i w = Some j" "j_analysis j' = j_analysis j" using assms(2) True by blast
    then show "sa_status (j_analysis j') \<noteq> ANALYZING" using assms(3) True by (simp add: settled_analysis_def)
  qed
next
  case False
  then show ?thesis using settled_other(2) [OF assms(1)] assms(3) by blast
qed

lemma settled_status_by:
  assumes "job_settle_frame {i} w w'" "settled_status i w'" "settled_status k w"
  shows "settled_status k w'"
  using assms settled_other(1) [OF assms(1)] by (cases "k = i") blast+

lemma in_progress_keeps:
  assumes "reconcile_in_progress_job e i w = (w', r)"
  shows "settled_status k w \<Longrightarrow> settled_status k w'" "settled_analysis k w \<Longrightarrow> settled_analysis k w'"
  by (erule settled_status_by [OF in_progress_step(1) [OF assms] in_progress_settles [OF assms]])
    (erule settled_analysis_from [OF in_progress_step(1) [OF assms] in_progress_analysis [OF assms], rotated], assumption)

lemma pausing_analysis:
  assumes "reconcile_stale_pausing_job e probe i w = (w', r)" "get_job i w' = Some j'"
  shows "\<exists>j. get_job i w = Some j \<and> j_analysis j' = j_analysis j"
proof (cases "get_job i w")
  case None
  with assms show ?thesis by (simp add: reconcile_stale_pausing_job_def)
next
  case (Some j)
  obtain w1 n where u: "update_files i in_flight_file (\<lambda>f. f\<lparr>f_status := FPENDING\<rparr>) w = (w1, n)" by fastforce
  obtain w2 fin failure where v: "pausing_verdict probe j n w1 = (w2, fin, failure)" by (metis surj_pair)
  have "get_job i w2 = get_job i w1" using pausing_verdict_frame [OF v, of "{}"] by (simp add: job_settle_frame_def)
  also have "\<dots> = get_job i w" using u by (auto simp: update_files_def get_job_def)
  finally show ?thesis using assms Some u v by (auto simp: reconcile_stale_pausing_job_def Let_def get_set_job)
qed

lemma pausing_keeps:
  assumes "reconcile_stale_pausing_job e probe i w = (w', r)"
  shows "settled_status k w \<Longrightarrow> settled_status k w'" "settled_analysis k w \<Longrightarrow> settled_analysis k w'"
  by (erule settled_status_by [OF pausing_step(1) [OF assms] pausing_settles [OF assms]])
    (erule settled_analysis_from [OF pausing_step(1) [OF assms] pausing_analysis [OF assms], rotated], assumption)

lemma analysis_keeps:
  assumes "reconcile_stale_startup_analysis e h n i w = (w', r)"
  shows "settled_status k w \<Longrightarrow> settled_status k w'" "settled_analysis k w \<Longrightarrow> settled_analysis k w'"
proof -
  assume k: "settled_status k w"
  show "settled_status k w'"
  proof (cases "k = i")
    case True
    show ?thesis unfolding settled_status_def
    proof (intro allI impI)
      fix j' assume j': "get_job k w' = Some j'"
      then obtain j where "get_job i w = Some j" using settle_frame_keys [OF analysis_step(1) [OF assms], of k] True by auto
      moreover from analysis_step(3) [OF assms this] j' True have "j_status j' = j_status j" by simp
      ultimately show "j_status j' \<notin> {PREPARING, RUNNING, VERIFYING, PAUSING}" using k True by (simp add: settled_status_def)
    qed
  next
    case False
    then show ?thesis using settled_other(1) [OF analysis_step(1) [OF assms]] k by blast
  qed
next
  assume "settled_analysis k w"
  then show "settled_analysis k w'"
    using analysis_settles [OF assms] settled_other(2) [OF analysis_step(1) [OF assms]] by (cases "k = i") blast+
qed

lemma audit_writes: "audited v (audit_add_uncommitted e a p d j ds v)"
  unfolding audited_def audit_add_uncommitted_def Let_def by (rule exI) (rule refl)

lemma audit_fold_audited:
  "audited w v \<Longrightarrow> audited w (fold (\<lambda>a. audit_add_uncommitted e (ae_action a) (ae_project_id a) (ae_drive_id a) (ae_job_id a) (ae_details a)) es v)"
proof (induction es arbitrary: v)
  case (Cons a es)
  show ?case unfolding fold_simps by (rule Cons.IH [OF audited_trans [OF Cons.prems audit_writes]])
qed simp

lemma audit_add_many_audited: "audited w (audit_add_many e name es w)"
  unfolding audit_add_many_def by (simp add: audit_fold_audited)

lemma settle_audited:
  assumes "job_settle_frame I w v" "audited v v'"
  shows "job_settle_frame I w v'"
  using assms(1) audited_frame [OF assms(2)] by (simp add: job_settle_frame_def drives_probed_def)

lemma settled_audited:
  assumes "audited v v'"
  shows "settled_status k v' = settled_status k v" "settled_files k v' = settled_files k v" "settled_analysis k v' = settled_analysis k v"
  using audited_frame [OF assms] by (simp_all add: settled_status_def settled_files_def settled_analysis_def)

lemma in_job_ids: "get_job k db = Some j \<Longrightarrow> P j \<Longrightarrow> k \<in> set (job_ids_where P db)"
  unfolding job_ids_where_def get_job_def by (auto dest!: get_row_Some)

lemma job_ids_in: "pk_ok j_id (jobs db) \<Longrightarrow> k \<in> set (job_ids_where P db) \<Longrightarrow> \<exists>j. get_job k db = Some j \<and> P j"
  unfolding job_ids_where_def get_job_def by (auto dest: get_row_in)

lemma reconcile_jobs_passes:
  assumes "reconcile_jobs e h n probe db = (db', calls, Inr s)"
  obtains w1 w2 w3 a1 a2 a3 where
    "each_job (reconcile_in_progress_job e) (job_ids_where (\<lambda>j. j_status j \<in> set in_progress_statuses) db) db = (w1, a1)"
    "each_job (reconcile_stale_pausing_job e probe) (job_ids_where (\<lambda>j. j_status j = PAUSING) db) w1 = (w2, a2)"
    "each_job (reconcile_stale_startup_analysis e h n) (job_ids_where (\<lambda>j. sa_status (j_analysis j) = ANALYZING) db) w2 = (w3, a3)"
    "audited w3 db'" "calls = map (\<lambda>(i, _). Job_callback i ''JOB_RECONCILED'') (a1 @ a2)"
  using assms audit_add_many_audited unfolding reconcile_jobs_def Let_def by (auto split: prod.splits if_splits)

lemma reconcile_jobs_settled:
  assumes "reconcile_jobs e h n probe db = (db', calls, Inr s)" and pk: "pk_ok j_id (jobs db)"
  shows "settled_status k db'" "settled_analysis k db'" "\<not> settled_status k db \<Longrightarrow> settled_files k db'"
    "job_settle_frame {k. \<not> settled_status k db \<or> \<not> settled_analysis k db} db db'"
proof -
  obtain w1 w2 w3 a1 a2 a3 where p: "each_job (reconcile_in_progress_job e) (job_ids_where (\<lambda>j. j_status j \<in> set in_progress_statuses) db) db = (w1, a1)"
    "each_job (reconcile_stale_pausing_job e probe) (job_ids_where (\<lambda>j. j_status j = PAUSING) db) w1 = (w2, a2)"
    "each_job (reconcile_stale_startup_analysis e h n) (job_ids_where (\<lambda>j. sa_status (j_analysis j) = ANALYZING) db) w2 = (w3, a3)"
    and aud: "audited w3 db'" by (rule reconcile_jobs_passes [OF assms(1)])
  let ?I1 = "job_ids_where (\<lambda>j. j_status j \<in> set in_progress_statuses) db" and ?I2 = "job_ids_where (\<lambda>j. j_status j = PAUSING) db"
  and ?I3 = "job_ids_where (\<lambda>j. sa_status (j_analysis j) = ANALYZING) db"
  have f1: "job_settle_frame (set ?I1) db w1" by (rule each_job_frame [OF _ p(1)]) (erule in_progress_step(1))
  have f2: "job_settle_frame (set ?I2) w1 w2" by (rule each_job_frame [OF _ p(2)]) (erule pausing_step(1))
  have f3: "job_settle_frame (set ?I3) w2 w3" by (rule each_job_frame [OF _ p(3)]) (erule analysis_step(1))
  have st1: "settled_status k w1 \<or> k \<in> set ?I2"
  proof (cases "\<exists>j. get_job k db = Some j \<and> j_status j = PAUSING")
    case False
    have "k \<in> set ?I1 \<or> settled_status k db"
      using False in_job_ids [of k db _ "\<lambda>j. j_status j \<in> set in_progress_statuses"] by (auto simp: settled_status_def in_progress_statuses_def)
    then have "settled_status k w1"
      by (rule each_job_establishes [where P = settled_status, OF _ _ _ p(1), rotated 3])
        (erule in_progress_step(1), erule in_progress_settles, erule in_progress_keeps(1), assumption)
    then show ?thesis ..
  qed (auto intro: in_job_ids)
  then have "k \<in> set ?I2 \<or> settled_status k w1" by blast
  then have st2: "settled_status k w2"
    by (rule each_job_establishes [where P = settled_status, OF _ _ _ p(2), rotated 3])
      (erule pausing_step(1), erule pausing_settles, erule pausing_keeps(1), assumption)
  then have "settled_status k w3" by (rule each_job_keeps [OF _ p(3), rotated]) (erule analysis_keeps(1), assumption)
  then show "settled_status k db'" using settled_audited [OF aud] by simp
  have "k \<in> set ?I3 \<or> settled_analysis k w2"
  proof (cases "settled_analysis k db")
    case True
    then have "settled_analysis k w1" by (rule each_job_keeps [OF _ p(1), rotated]) (erule in_progress_keeps(2), assumption)
    then have "settled_analysis k w2" by (rule each_job_keeps [OF _ p(2), rotated]) (erule pausing_keeps(2), assumption)
    then show ?thesis ..
  qed (auto simp: settled_analysis_def intro: in_job_ids)
  then have "settled_analysis k w3"
    by (rule each_job_establishes [where P = settled_analysis, OF _ _ _ p(3), rotated 3])
      (erule analysis_step(1), erule analysis_settles, erule analysis_keeps(2), assumption)
  then show "settled_analysis k db'" using settled_audited [OF aud] by simp
  show "settled_files k db'" if "\<not> settled_status k db"
  proof -
    have "k \<in> set ?I1 \<or> k \<in> set ?I2"
      using that in_job_ids [of k db] by (fastforce simp: settled_status_def in_progress_statuses_def)
    then consider "k \<in> set ?I1 \<or> settled_files k db" | "k \<in> set ?I2" by blast
    then have "k \<in> set ?I2 \<or> settled_files k w1"
    proof cases
      case 1
      then have "settled_files k w1"
        by (rule each_job_establishes [where P = settled_files, OF _ _ _ p(1), rotated 3])
          (erule in_progress_step(1), erule in_progress_files, rule settled_files_keep, erule in_progress_step(1), assumption)
      then show ?thesis ..
    qed simp
    then have "settled_files k w2"
      by (rule each_job_establishes [where P = settled_files, OF _ _ _ p(2), rotated 3])
        (erule pausing_step(1), erule pausing_files, rule settled_files_keep, erule pausing_step(1), assumption)
    then have "settled_files k w3" by (rule settled_files_keep [OF f3])
    then show ?thesis using settled_audited [OF aud] by simp
  qed
  let ?K = "{k. \<not> settled_status k db \<or> \<not> settled_analysis k db}"
  have "set ?I1 \<subseteq> ?K" "set ?I2 \<subseteq> ?K"
    using job_ids_in [OF pk] by (force simp: settled_status_def in_progress_statuses_def)+
  moreover have "set ?I3 \<subseteq> ?K" using job_ids_in [OF pk] by (force simp: settled_analysis_def)
  ultimately have "job_settle_frame ?K db w3"
    by (rule job_settle_trans [OF job_settle_trans [OF job_settle_mono [OF f1] job_settle_mono [OF f2]] job_settle_mono [OF f3]])
  then show "job_settle_frame {k. \<not> settled_status k db \<or> \<not> settled_analysis k db} db db'" by (rule settle_audited [OF _ aud])
qed

text \<open>A job that looks as if a worker were busy with it.\<close>

definition looks_active :: "export_job \<Rightarrow> bool" where
  "looks_active j \<longleftrightarrow> j_status j \<in> {PREPARING, RUNNING, VERIFYING, PAUSING} \<or> sa_status (j_analysis j) = ANALYZING"

lemma reconciled_inactive:
  assumes "reconcile_jobs e h n probe db = (db', calls, Inr s)" "pk_ok j_id (jobs db)"
  shows "\<forall>j\<in>set (jobs db'). \<not> looks_active j"
proof
  fix j assume j: "j \<in> set (jobs db')"
  note r = reconcile_jobs_settled [OF assms]
  have "pk_ok j_id (jobs db')" using r(4) [of] assms(2) by (simp add: job_settle_frame_def pk_ok_def)
  then have "get_job (j_id j) db' = Some j" unfolding get_job_def using j by (rule get_row_in)
  then show "\<not> looks_active j" using r(1,2) [of "j_id j"] by (auto simp: looks_active_def settled_status_def settled_analysis_def)
qed

text \<open>C12. After a restart nothing pretends to run: when the reconciliation of jobs succeeds, no job looks active, jobs that did not look
  active are as they were, the files of the others are no longer in flight, finished files keep their row, no file changes but
  to wait again, and drives, shares and assignments keep everything but the probed free space.\<close>

theorem reconcile_jobs_exact:
  assumes "reconcile_jobs e h n probe db = (db', calls, Inr s)" "pk_ok j_id (jobs db)"
  shows "(\<forall>j\<in>set (jobs db'). \<not> looks_active j) \<and>
    (\<forall>k j. get_job k db = Some j \<and> \<not> looks_active j \<longrightarrow> get_job k db' = Some j) \<and>
    (\<forall>k j f. get_job k db = Some j \<and> j_status j \<in> {PREPARING, RUNNING, VERIFYING, PAUSING} \<and> f \<in> set (files db') \<and> f_job_id f = k \<longrightarrow>
       f_status f \<notin> {COPYING, RETRYING}) \<and>
    list_all2 (\<lambda>f f'. f' = f \<or> f_status f \<in> {COPYING, RETRYING} \<and> (f' = f\<lparr>f_status := FPENDING\<rparr> \<or> f' = pending_again f)) (files db) (files db') \<and>
    drives_probed db db' \<and> shares db' = shares db \<and> assignments db' = assignments db"
proof -
  note r = reconcile_jobs_settled [OF assms]
  have "get_job k db' = Some j" if "get_job k db = Some j" "\<not> looks_active j" for k j
    using r(4) that by (auto simp: job_settle_frame_def looks_active_def settled_status_def settled_analysis_def)
  moreover have "f_status f \<notin> {COPYING, RETRYING}"
    if "get_job k db = Some j" "j_status j \<in> {PREPARING, RUNNING, VERIFYING, PAUSING}" "f \<in> set (files db')" "f_job_id f = k" for k j f
  proof -
    have "settled_files k db'" using that(1,2) r(3) [of k] by (auto simp: settled_status_def)
    moreover have "get_job k db' \<noteq> None" using settle_frame_keys [OF r(4)] that(1) by simp
    ultimately show ?thesis using that(3,4) by (auto simp: settled_files_def in_flight_file_def)
  qed
  moreover have "list_all2 (\<lambda>f f'. f' = f \<or> f_status f \<in> {COPYING, RETRYING} \<and> (f' = f\<lparr>f_status := FPENDING\<rparr> \<or> f' = pending_again f))
      (files db) (files db')"
    using r(4) unfolding job_settle_frame_def file_settled_def in_flight_file_def by (auto elim!: list_all2_mono)
  ultimately show ?thesis using reconciled_inactive [OF assms] r(4) by (simp add: job_settle_frame_def) blast
qed

text \<open>The reconciliation of jobs is idempotent: run again on its own result, whatever the clock, the host and the source are, it
  changes nothing, writes no audit entry, sends no callback and reports nothing to correct.\<close>

theorem reconcile_jobs_idempotent:
  assumes "reconcile_jobs e h n probe db = (db', calls, Inr s)" "pk_ok j_id (jobs db)"
  shows "reconcile_jobs e' h' n' probe' db' = (db', [], Inr \<lparr>js_checked = 0, js_corrected = 0, js_analysis_checked = 0, js_analysis_corrected = 0\<rparr>)"
proof -
  note i = reconciled_inactive [OF assms]
  have "job_ids_where (\<lambda>j. j_status j \<in> set in_progress_statuses) db' = []" "job_ids_where (\<lambda>j. j_status j = PAUSING) db' = []"
    "job_ids_where (\<lambda>j. sa_status (j_analysis j) = ANALYZING) db' = []"
    using i by (auto simp: job_ids_where_def looks_active_def in_progress_statuses_def filter_empty_conv)
  then show ?thesis by (simp add: reconcile_jobs_def audit_add_many_def)
qed

end
