(* ===== verification/Share_Paths.thy ===== *)
theory Share_Paths
  imports Schema
begin

text \<open>
  Remote references and generated mount points of network shares (\<open>app/services/share_service.py\<close>): when two
  shares name the same or overlapping remote directories, and where a new share is mounted.
\<close>

section \<open>Remote references\<close>

definition backslash :: char where
  "backslash = CHR 0x5C"

definition is_sep :: "char \<Rightarrow> bool" where
  "is_sep c \<longleftrightarrow> c = sep"

text \<open>\<open>s.split(c, 1)\<close> of a string that contains the separator, and the last part of \<open>s.rsplit(c, 1)\<close>.\<close>

definition before_first :: "char \<Rightarrow> string \<Rightarrow> string" where
  "before_first c s = takeWhile (\<lambda>x. x \<noteq> c) s"

definition after_first :: "char \<Rightarrow> string \<Rightarrow> string" where
  "after_first c s = drop 1 (dropWhile (\<lambda>x. x \<noteq> c) s)"

definition after_last :: "char \<Rightarrow> string \<Rightarrow> string" where
  "after_last c s = last (split_on c s)"

definition nonempty_parts :: "string \<Rightarrow> string list" where
  "nonempty_parts s = filter (\<lambda>p. p \<noteq> []) (split_on sep s)"

definition normalize_remote_subpath :: "string \<Rightarrow> string" where
  "normalize_remote_subpath p =
     (let raw = py_replace_char backslash sep (py_strip p);
          normalized = normpath (sep # py_lstrip_with is_sep raw)
      in if normalized \<noteq> dot then normalized else [sep])"

definition normalize_remote_reference :: "mount_type \<Rightarrow> string \<Rightarrow> mount_type \<times> string \<times> string" where
  "normalize_remote_reference mount_type remote_path =
     (let raw = py_strip remote_path
      in case mount_type of
           NFS \<Rightarrow>
             (let (host, path) = (if CHR '':'' \<in> set raw then (before_first CHR '':'' raw, after_first CHR '':'' raw) else (raw, [sep]))
              in (NFS, py_lower (py_strip host), normalize_remote_subpath path))
         | SMB \<Rightarrow>
             (case nonempty_parts (py_lstrip_with is_sep (py_replace_char backslash sep raw)) of
                [] \<Rightarrow> (SMB, [], [sep])
              | host # rest \<Rightarrow>
                  (SMB, py_lower (py_strip host),
                   normalize_remote_subpath (if rest \<noteq> [] then sep # join_with [sep] rest else [sep]))))"

definition remote_paths_overlap :: "string \<Rightarrow> string \<Rightarrow> bool" where
  "remote_paths_overlap left right \<longleftrightarrow>
     left = right \<or>
     (let left_prefix = py_rstrip_with is_sep left @ [sep]; right_prefix = py_rstrip_with is_sep right @ [sep]
      in prefix right_prefix left \<or> prefix left_prefix right)"

section \<open>Discovered shares\<close>

definition discovered_share_display_name :: "mount_type \<Rightarrow> string \<Rightarrow> string" where
  "discovered_share_display_name mount_type remote_path =
     (case mount_type of
        NFS \<Rightarrow>
          (let parts = nonempty_parts (if CHR '':'' \<in> set remote_path then after_first CHR '':'' remote_path else remote_path)
           in if parts \<noteq> [] then last parts else [sep])
      | SMB \<Rightarrow>
          (let parts = nonempty_parts (py_lstrip_with is_sep (py_replace_char backslash sep remote_path))
           in if parts \<noteq> [] then last parts else remote_path))"

fun keep_new :: "string list \<Rightarrow> string list \<Rightarrow> string list" where
  "keep_new seen [] = []"
| "keep_new seen (p # ps) =
     (let candidate = py_strip p
      in if candidate = [] \<or> candidate \<in> set seen then keep_new seen ps else candidate # keep_new (candidate # seen) ps)"

definition normalize_discovered_share_paths :: "string list \<Rightarrow> string list" where
  "normalize_discovered_share_paths ps = keep_new [] ps"

section \<open>Generated mount points\<close>

definition extract_remote_leaf :: "mount_type \<Rightarrow> string \<Rightarrow> string" where
  "extract_remote_leaf mount_type remote_path =
     (let path_part =
            (case mount_type of
               NFS \<Rightarrow> if CHR '':'' \<in> set remote_path then after_last CHR '':'' remote_path else remote_path
             | SMB \<Rightarrow>
                 (let smb_parts = nonempty_parts (py_lstrip_with is_sep remote_path)
                  in if 2 \<le> length smb_parts then join_with [sep] (tl smb_parts) else remote_path));
          parts = filter (\<lambda>p. p \<notin> {[], dot, dotdot}) (split_on sep path_part)
      in if parts \<noteq> [] then last parts else ''share'')"

definition slug_char :: "char \<Rightarrow> bool" where
  "slug_char c \<longleftrightarrow>
     (let n = (of_char c :: nat)
      in (48 \<le> n \<and> n \<le> 57) \<or> (65 \<le> n \<and> n \<le> 90) \<or> (97 \<le> n \<and> n \<le> 122) \<or> c \<in> {CHR ''.'', CHR ''_'', CHR ''-''})"

text \<open>Every run of other characters becomes one hyphen.\<close>

fun slug_runs :: "bool \<Rightarrow> string \<Rightarrow> string" where
  "slug_runs in_run [] = []"
| "slug_runs in_run (c # cs) =
     (if slug_char c then c # slug_runs False cs else if in_run then slug_runs True cs else CHR ''-'' # slug_runs True cs)"

definition slug_edge :: "char \<Rightarrow> bool" where
  "slug_edge c \<longleftrightarrow> c \<in> {CHR ''-'', CHR ''.'', CHR ''_''}"

definition slugify_mount_leaf :: "string \<Rightarrow> string" where
  "slugify_mount_leaf name =
     (let slug = py_rstrip_with slug_edge (py_lstrip_with slug_edge (slug_runs False name))
      in if slug \<noteq> [] then slug else ''share'')"

definition mount_candidate :: "string \<Rightarrow> string \<Rightarrow> nat \<Rightarrow> string" where
  "mount_candidate parent leaf k = parent @ [sep] @ leaf @ (if k < 2 then [] else CHR ''-'' # str_int (int k))"

lemma mount_candidate_inj: "1 \<le> k \<Longrightarrow> 1 \<le> l \<Longrightarrow> mount_candidate r leaf k = mount_candidate r leaf l \<Longrightarrow> k = l"
  by (auto simp: mount_candidate_def split: if_splits dest: str_int_inj [rotated 2])

definition candidates_left :: "string \<Rightarrow> string \<Rightarrow> string list \<Rightarrow> nat \<Rightarrow> string set" where
  "candidates_left parent leaf existing k = {c \<in> set existing. \<exists>n \<ge> max 1 k. c = mount_candidate parent leaf n}"

text \<open>The search for a free name; it ends because the taken names are finitely many.\<close>

function first_free_mount_point :: "string \<Rightarrow> string \<Rightarrow> string list \<Rightarrow> nat \<Rightarrow> string" where
  "first_free_mount_point parent leaf existing k =
     (if 1 \<le> k \<and> mount_candidate parent leaf k \<in> set existing then first_free_mount_point parent leaf existing (Suc k)
      else mount_candidate parent leaf k)"
  by pat_completeness auto

termination first_free_mount_point
proof (relation "measure (\<lambda>(parent, leaf, existing, k). card (candidates_left parent leaf existing k))", simp)
  fix parent leaf existing and k :: nat
  assume k: "1 \<le> k \<and> mount_candidate parent leaf k \<in> set existing"
  have "mount_candidate parent leaf k \<notin> candidates_left parent leaf existing (Suc k)"
  proof
    assume "mount_candidate parent leaf k \<in> candidates_left parent leaf existing (Suc k)"
    then obtain n where n: "Suc k \<le> n" "mount_candidate parent leaf k = mount_candidate parent leaf n"
      by (auto simp: candidates_left_def)
    with mount_candidate_inj [of k n] k show False by simp
  qed
  moreover have "mount_candidate parent leaf k \<in> candidates_left parent leaf existing k"
    "candidates_left parent leaf existing (Suc k) \<subseteq> candidates_left parent leaf existing k"
    using k by (force simp: candidates_left_def dest: Suc_leD)+
  ultimately have "candidates_left parent leaf existing (Suc k) \<subset> candidates_left parent leaf existing k" by blast
  moreover have "finite (candidates_left parent leaf existing k)" by (simp add: candidates_left_def)
  ultimately show "((parent, leaf, existing, Suc k), (parent, leaf, existing, k))
      \<in> measure (\<lambda>(parent, leaf, existing, k). card (candidates_left parent leaf existing k))"
    by (simp add: psubset_card_mono)
qed

declare first_free_mount_point.simps [simp del]

definition generate_local_mount_point :: "string \<Rightarrow> mount_type \<Rightarrow> string \<Rightarrow> string list \<Rightarrow> string" where
  "generate_local_mount_point base mount_type remote_path existing =
     first_free_mount_point (managed_network_mount_root base) (slugify_mount_leaf (extract_remote_leaf mount_type remote_path))
       existing 1"

section \<open>Laws\<close>

lemma first_free_fresh: "1 \<le> k \<Longrightarrow> first_free_mount_point parent leaf existing k \<notin> set existing"
  by (induction parent leaf existing k rule: first_free_mount_point.induct) (subst first_free_mount_point.simps, auto)

lemma first_free_candidate: "\<exists>n \<ge> k. first_free_mount_point parent leaf existing k = mount_candidate parent leaf n"
proof (induction parent leaf existing k rule: first_free_mount_point.induct)
  case (1 parent leaf existing k)
  show ?case
  proof (cases "1 \<le> k \<and> mount_candidate parent leaf k \<in> set existing")
    case True
    from 1 [OF this] obtain n where "Suc k \<le> n" "first_free_mount_point parent leaf existing (Suc k) = mount_candidate parent leaf n"
      by blast
    with True show ?thesis by (subst first_free_mount_point.simps) (auto intro!: exI [of _ n])
  next
    case False
    then show ?thesis by (subst first_free_mount_point.simps) auto
  qed
qed

lemma slug_runs_chars: "c \<in> set (slug_runs b s) \<Longrightarrow> slug_char c"
  by (induction b s rule: slug_runs.induct) (auto simp: slug_char_def split: if_splits)

lemma strip_subset: "set (py_rstrip_with P (py_lstrip_with Q s)) \<subseteq> set s"
  by (auto simp: py_rstrip_with_def py_lstrip_with_def dest!: set_dropWhileD)

lemma rstrip_last: "py_rstrip_with P s \<noteq> [] \<Longrightarrow> \<not> P (last (py_rstrip_with P s))"
  using hd_dropWhile [of P "rev s"] by (simp add: py_rstrip_with_def last_rev del: dropWhile_eq_Nil_conv)

lemma slugify_chars: "c \<in> set (slugify_mount_leaf s) \<Longrightarrow> slug_char c"
proof (cases "py_rstrip_with slug_edge (py_lstrip_with slug_edge (slug_runs False s)) = []")
  case False
  assume "c \<in> set (slugify_mount_leaf s)"
  with False have "c \<in> set (py_rstrip_with slug_edge (py_lstrip_with slug_edge (slug_runs False s)))"
    by (simp add: slugify_mount_leaf_def Let_def)
  then show ?thesis using strip_subset slug_runs_chars by blast
qed (auto simp: slugify_mount_leaf_def slug_char_def)

lemma slugify_last: "slugify_mount_leaf s \<noteq> [] \<and> \<not> slug_edge (last (slugify_mount_leaf s))"
  using rstrip_last [of slug_edge "py_lstrip_with slug_edge (slug_runs False s)"]
  by (auto simp: slugify_mount_leaf_def Let_def slug_edge_def)

lemma slug_not_sep: "slug_char c \<Longrightarrow> c \<noteq> sep"
  by (auto simp: slug_char_def Let_def)

lemma digits_not_sep: "sep \<notin> set (str_int (int k))"
  by simp

text \<open>A generated mount point is new and is a direct child of the managed directory, whose name is not a dot name.\<close>

theorem generated_mount_point:
  "generate_local_mount_point base mount_type remote_path existing \<notin> set existing \<and>
   (\<exists>leaf. generate_local_mount_point base mount_type remote_path existing = managed_network_mount_root base @ [sep] @ leaf \<and>
      comp_ok leaf \<and> leaf \<noteq> dotdot)"
proof -
  let ?g = "generate_local_mount_point base mount_type remote_path existing"
  define slug where "slug = slugify_mount_leaf (extract_remote_leaf mount_type remote_path)"
  obtain n where n: "?g = mount_candidate (managed_network_mount_root base) slug n"
    using first_free_candidate unfolding generate_local_mount_point_def slug_def by blast
  define leaf where "leaf = slug @ (if n < 2 then [] else CHR ''-'' # str_int (int n))"
  have "?g = managed_network_mount_root base @ [sep] @ leaf" by (simp add: n mount_candidate_def leaf_def)
  moreover have "sep \<notin> set leaf"
    using slugify_chars slug_not_sep digits_not_sep [of n] by (auto simp: leaf_def slug_def)
  moreover have "leaf \<noteq> [] \<and> leaf \<noteq> dot \<and> leaf \<noteq> dotdot"
    using slugify_last [of "extract_remote_leaf mount_type remote_path"]
    unfolding leaf_def slug_def by (auto simp: slug_edge_def append_eq_Cons_conv split: if_splits)
  moreover have "?g \<notin> set existing" unfolding generate_local_mount_point_def by (rule first_free_fresh) simp
  ultimately show ?thesis by (auto simp: comp_ok_def)
qed

lemma overlap_sym: "remote_paths_overlap a b \<longleftrightarrow> remote_paths_overlap b a"
  by (auto simp: remote_paths_overlap_def Let_def)

end
