(* ===== verification/Share_Service.thy ===== *)
theory Share_Service
  imports Workload_Profiles Share_Paths
begin

text \<open>
  Network shares (\<open>app/services/share_service.py\<close>, \<open>app/services/share_credentials_service.py\<close>): adding,
  changing, removing and validating a share, validation of a candidate, and share discovery. The mount provider and the
  cipher are arguments; an answer of the provider may depend on how many calls of its kind the request made before. The
  lock that serialises the requests is held over the whole request, so a request is one step.
\<close>

section \<open>Requests, provider and effects\<close>

text \<open>A credential field is \<open>None\<close> when the request does not mention it.\<close>

record share_body =
  sb_type :: mount_type
  sb_remote_path :: string
  sb_project_id :: string
  sb_nfs_client_version :: "string option"
  sb_username :: "string option option"
  sb_password :: "string option option"
  sb_credentials_file :: "string option option"

record credentials =
  cr_username :: "string option"
  cr_password :: "string option"
  cr_credentials_file :: "string option"

definition no_credentials :: credentials where
  "no_credentials = \<lparr>cr_username = None, cr_password = None, cr_credentials_file = None\<rparr>"

datatype share_effect =
    Share_mount mount_type string string credentials "string option"
  | Share_unmount string
  | Share_rmdir string

datatype share_error =
    Project_required | Share_not_found | Duplicate_source | Overlapping_source | Mount_point_taken | Share_db_error
  | Unmount_failed | Credentials_unreadable | Restore_failed | Validation_failed string | Validation_advisory string
  | Provider_raised string | Server_required | Discovery_unavailable | Discovery_failed

record share_provider =
  sp_check :: "nat \<Rightarrow> string \<Rightarrow> bool option"
  sp_mount :: "nat \<Rightarrow> mount_type \<Rightarrow> string \<Rightarrow> string \<Rightarrow> credentials \<Rightarrow> string option \<Rightarrow> string + (bool \<times> string option)"
  sp_elapsed :: "nat \<Rightarrow> rat"
  sp_unmount :: "nat \<Rightarrow> string \<Rightarrow> string + (bool \<times> string option)"
  sp_directory_error :: "string \<Rightarrow> string + string option"
  sp_owner_error :: "string \<Rightarrow> string + string option"
  sp_encrypt :: "string \<Rightarrow> string"
  sp_decrypt :: "string \<Rightarrow> string option"

record share_config =
  scf_network_mount_base_path :: string
  scf_nfs_client_version :: "string option"
  scf_cwd :: string

type_synonym 'a share_result = "db \<times> share_effect list \<times> (share_error + 'a)"

definition get_share :: "int \<Rightarrow> db \<Rightarrow> network_share option" where
  "get_share i db = get_row m_id i (shares db)"

definition set_share :: "int \<Rightarrow> (network_share \<Rightarrow> network_share) \<Rightarrow> db \<Rightarrow> db" where
  "set_share i f db = db\<lparr>shares := upd_row m_id i f (shares db)\<rparr>"

section \<open>Client versions and credentials\<close>

definition supported_nfs_client_versions :: "string list" where
  "supported_nfs_client_versions = [''4.2'', ''4.1'', ''4.0'', ''3'']"

definition resolve_nfs_client_version :: "share_config \<Rightarrow> string option \<Rightarrow> string" where
  "resolve_nfs_client_version cfg requested =
     (let candidate = py_strip (if truthy requested then the requested
            else if truthy (scf_nfs_client_version cfg) then the (scf_nfs_client_version cfg) else ''4.1'')
      in if candidate \<notin> set supported_nfs_client_versions then ''4.1'' else candidate)"

definition stored_nfs_client_version :: "share_config \<Rightarrow> mount_type \<Rightarrow> string option \<Rightarrow> string option" where
  "stored_nfs_client_version cfg mount_type requested =
     (if mount_type \<noteq> NFS then None
      else case requested of None \<Rightarrow> None
        | Some v \<Rightarrow> if py_strip v = [] then None else Some (resolve_nfs_client_version cfg (Some v)))"

definition encrypt_mount_secret :: "share_provider \<Rightarrow> string option \<Rightarrow> string option" where
  "encrypt_mount_secret p v = (case v of None \<Rightarrow> None | Some s \<Rightarrow> if s = [] then None else Some (sp_encrypt p s))"

text \<open>The outer option is the failure.\<close>

definition decrypt_mount_secret :: "share_provider \<Rightarrow> string option \<Rightarrow> string option option" where
  "decrypt_mount_secret p v =
     (if \<not> truthy v then Some None else case sp_decrypt p (the v) of None \<Rightarrow> None | Some s \<Rightarrow> Some (Some s))"

definition given :: "string option option \<Rightarrow> string option" where
  "given v = (case v of None \<Rightarrow> None | Some x \<Rightarrow> x)"

definition encrypted_field :: "share_provider \<Rightarrow> bool \<Rightarrow> string option option \<Rightarrow> string option \<Rightarrow> string option" where
  "encrypted_field p preserve_existing v old =
     (if preserve_existing \<and> v = None then old else encrypt_mount_secret p (given v))"

definition apply_encrypted_mount_credentials :: "share_provider \<Rightarrow> bool \<Rightarrow> share_body \<Rightarrow> network_share \<Rightarrow> network_share" where
  "apply_encrypted_mount_credentials p preserve_existing b m =
     m\<lparr>m_encrypted_username := encrypted_field p preserve_existing (sb_username b) (m_encrypted_username m),
       m_encrypted_password := encrypted_field p preserve_existing (sb_password b) (m_encrypted_password m),
       m_encrypted_credentials_file := encrypted_field p preserve_existing (sb_credentials_file b) (m_encrypted_credentials_file m)\<rparr>"

definition stored_credentials_present :: "network_share \<Rightarrow> bool" where
  "stored_credentials_present m \<longleftrightarrow>
     truthy (m_encrypted_username m) \<or> truthy (m_encrypted_password m) \<or> truthy (m_encrypted_credentials_file m)"

definition load_stored_mount_credentials :: "share_provider \<Rightarrow> network_share \<Rightarrow> share_error + credentials" where
  "load_stored_mount_credentials p m =
     (case (decrypt_mount_secret p (m_encrypted_username m), decrypt_mount_secret p (m_encrypted_password m),
            decrypt_mount_secret p (m_encrypted_credentials_file m)) of
        (Some u, Some w, Some f) \<Rightarrow> Inr \<lparr>cr_username = u, cr_password = w, cr_credentials_file = f\<rparr>
      | _ \<Rightarrow> Inl Credentials_unreadable)"

definition stored_or_none :: "share_provider \<Rightarrow> network_share \<Rightarrow> share_error + credentials" where
  "stored_or_none p m = (if stored_credentials_present m then load_stored_mount_credentials p m else Inr no_credentials)"

definition resolve_mount_operation_credentials :: "share_provider \<Rightarrow> network_share \<Rightarrow> share_body \<Rightarrow> share_error + credentials" where
  "resolve_mount_operation_credentials p m b =
     (case stored_or_none p m of
        Inl err \<Rightarrow> Inl err
      | Inr c \<Rightarrow> Inr \<lparr>cr_username = (case sb_username b of None \<Rightarrow> cr_username c | Some v \<Rightarrow> v),
          cr_password = (case sb_password b of None \<Rightarrow> cr_password c | Some v \<Rightarrow> v),
          cr_credentials_file = (case sb_credentials_file b of None \<Rightarrow> cr_credentials_file c | Some v \<Rightarrow> v)\<rparr>)"

section \<open>Conflicts\<close>

definition remote_reference :: "network_share \<Rightarrow> mount_type \<times> string \<times> string" where
  "remote_reference m = normalize_remote_reference (m_type m) (m_remote_path m)"

fun remote_path_conflict ::
  "mount_type \<times> string \<times> string \<Rightarrow> string \<Rightarrow> int option \<Rightarrow> network_share list \<Rightarrow> share_error option" where
  "remote_path_conflict candidate project ignore [] = None"
| "remote_path_conflict candidate project ignore (m # ms) =
     (if ignore = Some (m_id m) then remote_path_conflict candidate project ignore ms
      else case (candidate, remote_reference m) of
        ((t, host, p), (t', host', p')) \<Rightarrow>
          if candidate = remote_reference m then Some Duplicate_source
          else if t \<noteq> t' \<or> host \<noteq> host' then remote_path_conflict candidate project ignore ms
          else if remote_paths_overlap p p' then
            (let existing = normalize_project_id (m_project_id m); existing = (if existing = [] then ''UNASSIGNED'' else existing)
             in if existing \<noteq> project then Some Overlapping_source else remote_path_conflict candidate project ignore ms)
          else remote_path_conflict candidate project ignore ms)"

definition validate_remote_path_conflicts :: "share_body \<Rightarrow> string \<Rightarrow> int option \<Rightarrow> db \<Rightarrow> share_error option" where
  "validate_remote_path_conflicts b project ignore db =
     remote_path_conflict (normalize_remote_reference (sb_type b) (sb_remote_path b)) project ignore (shares db)"

section \<open>Attempts to mount\<close>

datatype attempt = Attempted bool "string option" | Attempt_raised string | Attempt_refused share_error

definition attempt_mount ::
  "share_provider \<Rightarrow> nat \<Rightarrow> mount_type \<Rightarrow> string \<Rightarrow> string \<Rightarrow> (share_error + credentials) \<Rightarrow> string option \<Rightarrow>
   share_effect list \<times> attempt" where
  "attempt_mount p k mount_type remote mount_point creds nfs =
     (case sp_directory_error p mount_point of
        Inl msg \<Rightarrow> ([], Attempt_raised msg)
      | Inr (Some err) \<Rightarrow> ([], Attempted False (Some err))
      | Inr None \<Rightarrow>
          (case sp_owner_error p mount_point of
             Inl msg \<Rightarrow> ([], Attempt_raised msg)
           | Inr (Some err) \<Rightarrow> ([], Attempted False (Some err))
           | Inr None \<Rightarrow>
               (case creds of
                  Inl err \<Rightarrow> ([], Attempt_refused err)
                | Inr c \<Rightarrow>
                    ([Share_mount mount_type remote mount_point c nfs],
                     (case sp_mount p k mount_type remote mount_point c nfs of
                        Inl msg \<Rightarrow> Attempt_raised msg
                      | Inr (ok, err) \<Rightarrow> Attempted ok err)))))"

definition already_unmounted :: "string \<Rightarrow> bool" where
  "already_unmounted err \<longleftrightarrow> py_contains (py_lower err) ''not mounted'' \<or> py_contains (py_lower err) ''no mount point''"

text \<open>An unmount whose failure says that nothing was mounted counts as done.\<close>

definition unmount_error :: "share_provider \<Rightarrow> nat \<Rightarrow> string \<Rightarrow> string option" where
  "unmount_error p k mount_point =
     (case sp_unmount p k mount_point of
        Inr (True, _) \<Rightarrow> None
      | r \<Rightarrow>
          (let err = (case r of Inl msg \<Rightarrow> Some msg | Inr (_, e) \<Rightarrow> e);
               message = (if truthy err then the err else ''umount failed'')
           in if already_unmounted message then None else Some message))"

definition prepare_mount_for_update :: "share_provider \<Rightarrow> network_share \<Rightarrow> share_effect list \<times> (share_error + mount_status)" where
  "prepare_mount_for_update p m =
     (if m_status m \<noteq> MOUNTED \<or> m_local_mount_point m = [] then ([], Inr (m_status m))
      else ([Share_unmount (m_local_mount_point m)],
            (case unmount_error p 0 (m_local_mount_point m) of None \<Rightarrow> Inr UNMOUNTED | Some _ \<Rightarrow> Inl Unmount_failed)))"

definition attempt_status :: "attempt \<Rightarrow> mount_status" where
  "attempt_status a = (case a of Attempted True _ \<Rightarrow> MOUNTED | _ \<Rightarrow> MOUNT_ERROR)"

definition attempt_error :: "attempt \<Rightarrow> string option" where
  "attempt_error a = (case a of Attempted True _ \<Rightarrow> None | Attempted False err \<Rightarrow> err | Attempt_raised msg \<Rightarrow> Some msg | Attempt_refused _ \<Rightarrow> None)"

section \<open>Adding a share\<close>

definition redacted_mount_label :: "string \<Rightarrow> string" where
  "redacted_mount_label mount_point =
     (let label = last (split_on sep (normpath mount_point)) in if label = [] then ''mount'' else label)"

fun mount_status_value :: "mount_status \<Rightarrow> string" where
  "mount_status_value MOUNTED = ''MOUNTED''"
| "mount_status_value UNMOUNTED = ''UNMOUNTED''"
| "mount_status_value MOUNT_ERROR = ''ERROR''"

definition failure_details :: "string option \<Rightarrow> (string \<times> jval) list" where
  "failure_details err =
     (if truthy err then [(''error_code'', JStr ''MOUNT_FAILED''), (''message'', JStr ''Provider mount operation failed''),
        (''details'', JStr (sanitize_error_message ''Mount provider reported failure'' err))]
      else [(''error_code'', JNull), (''message'', JNull), (''details'', JNull)])"

definition audit_mount_added :: "env \<Rightarrow> network_share \<Rightarrow> string option \<Rightarrow> db \<Rightarrow> db" where
  "audit_mount_added e m err =
     best_effort_audit e ''MOUNT_ADDED'' (Some (m_project_id m)) None None
       ([(''mount_id'', JInt (m_id m)), (''project_id'', JStr (m_project_id m)),
         (''mount_label'', JStr (redacted_mount_label (m_local_mount_point m))), (''status'', JStr (mount_status_value (m_status m)))] @
        failure_details err)"

definition new_share :: "share_config \<Rightarrow> share_body \<Rightarrow> string \<Rightarrow> int \<Rightarrow> string \<Rightarrow> network_share" where
  "new_share cfg b project i mount_point =
     \<lparr>m_id = i, m_type = sb_type b, m_remote_path = sb_remote_path b, m_project_id = project,
      m_nfs_client_version = stored_nfs_client_version cfg (sb_type b) (sb_nfs_client_version b), m_local_mount_point = mount_point,
      m_encrypted_username = None, m_encrypted_password = None, m_encrypted_credentials_file = None, m_status = UNMOUNTED,
      m_last_checked_at = None, m_throughput_read_mbps = None\<rparr>"

definition candidate_mount_point :: "share_config \<Rightarrow> share_body \<Rightarrow> db \<Rightarrow> string" where
  "candidate_mount_point cfg b db =
     generate_local_mount_point (scf_network_mount_base_path cfg) (sb_type b) (sb_remote_path b) (map m_local_mount_point (shares db))"

definition conflict_message :: "share_error \<Rightarrow> string" where
  "conflict_message err =
     (if err = Duplicate_source then ''A mount for this remote source is already configured.''
      else ''Remote source paths overlap with another project's configured mount.'')"

text \<open>The new row is flushed, not committed, before the host mounts: until it is saved a failure leaves no row behind. When the
  provider raises and saving the error fails too, the row is lost and still returned.\<close>

definition add_share :: "env \<Rightarrow> share_config \<Rightarrow> share_provider \<Rightarrow> share_body \<Rightarrow> db \<Rightarrow> network_share share_result" where
  "add_share e cfg p b db =
     (let project = normalize_project_id (sb_project_id b)
      in if project = [] then (db, [], Inl Project_required)
         else case validate_remote_path_conflicts b project None db of
           Some err \<Rightarrow>
             (best_effort_audit e ''MOUNT_ADD_REJECTED_CONFLICT'' (Some project) None None
                [(''project_id'', JStr project), (''status'', JStr ''REJECTED''), (''message'', JStr (conflict_message err))] db, [], Inl err)
         | None \<Rightarrow>
             (let mount_point = candidate_mount_point cfg b db;
                  m = apply_encrypted_mount_credentials p False b (new_share cfg b project (next_id m_id (shares db)) mount_point)
              in if mount_point \<in> set (map m_local_mount_point (shares db)) then (db, [], Inl Mount_point_taken)
                 else if \<not> e_db_ok e ''share_add'' then (db, [], Inl Share_db_error)
                 else case attempt_mount p 0 (sb_type b) (sb_remote_path b) mount_point (resolve_mount_operation_credentials p m b)
                             (m_nfs_client_version m) of
                   (calls, Attempt_refused err) \<Rightarrow> (db, calls, Inl err)
                 | (calls, a) \<Rightarrow>
                     (let m' = m\<lparr>m_status := attempt_status a\<rparr>; w = db\<lparr>shares := shares db @ [m']\<rparr>
                      in if e_db_ok e ''share_save'' then (audit_mount_added e m' (attempt_error a) w, calls, Inr m')
                         else case a of
                           Attempt_raised msg \<Rightarrow> (audit_mount_added e m' (attempt_error a) db, calls, Inr m')
                         | _ \<Rightarrow> (db, calls, Inl Share_db_error))))"

section \<open>Changing and removing a share\<close>

definition changed_mount_fields :: "share_config \<Rightarrow> share_body \<Rightarrow> string \<Rightarrow> network_share \<Rightarrow> string list" where
  "changed_mount_fields cfg b project m =
     (if m_type m \<noteq> sb_type b then [''type''] else []) @
     (if m_remote_path m \<noteq> sb_remote_path b then [''remote_path''] else []) @
     (if normalize_project_id (m_project_id m) \<noteq> project then [''project_id''] else []) @
     (if stored_nfs_client_version cfg (sb_type b) (sb_nfs_client_version b) \<noteq>
         stored_nfs_client_version cfg (m_type m) (m_nfs_client_version m) then [''nfs_client_version''] else []) @
     (if sb_username b \<noteq> None \<or> sb_password b \<noteq> None \<or> sb_credentials_file b \<noteq> None then [''credentials''] else [])"

definition audit_mount_updated :: "env \<Rightarrow> network_share \<Rightarrow> string list \<Rightarrow> string option \<Rightarrow> db \<Rightarrow> db" where
  "audit_mount_updated e m changed err =
     best_effort_audit e ''MOUNT_UPDATED'' (Some (m_project_id m)) None None
       ([(''mount_id'', JInt (m_id m)), (''mount_label'', JStr (redacted_mount_label (m_local_mount_point m))),
         (''status'', JStr (mount_status_value (m_status m))), (''changed_fields'', JList (map JStr changed))] @ failure_details err)"

definition updated_share :: "env \<Rightarrow> share_config \<Rightarrow> share_provider \<Rightarrow> share_body \<Rightarrow> string \<Rightarrow> network_share \<Rightarrow> network_share" where
  "updated_share e cfg p b project m =
     apply_encrypted_mount_credentials p True b
       (m\<lparr>m_nfs_client_version := stored_nfs_client_version cfg (sb_type b) (sb_nfs_client_version b), m_type := sb_type b,
          m_remote_path := sb_remote_path b, m_project_id := project, m_last_checked_at := Some (e_now e)\<rparr>)"

definition update_share :: "env \<Rightarrow> share_config \<Rightarrow> share_provider \<Rightarrow> int \<Rightarrow> share_body \<Rightarrow> db \<Rightarrow> network_share share_result" where
  "update_share e cfg p i b db =
     (let project = normalize_project_id (sb_project_id b)
      in if project = [] then (db, [], Inl Project_required)
         else case get_share i db of
           None \<Rightarrow> (db, [], Inl Share_not_found)
         | Some m \<Rightarrow>
             (case validate_remote_path_conflicts b project (Some i) db of
                Some err \<Rightarrow> (db, [], Inl err)
              | None \<Rightarrow>
                  (let m1 = updated_share e cfg p b project m; changed = changed_mount_fields cfg b project m
                   in case prepare_mount_for_update p m1 of
                        (calls, Inl err) \<Rightarrow> (db, calls, Inl err)
                      | (calls, Inr _) \<Rightarrow>
                          (case attempt_mount p 0 (sb_type b) (sb_remote_path b) (m_local_mount_point m1)
                                  (resolve_mount_operation_credentials p m1 b) (m_nfs_client_version m1) of
                             (calls', Attempt_refused err) \<Rightarrow> (db, calls @ calls', Inl err)
                           | (calls', a) \<Rightarrow>
                               (let m2 = m1\<lparr>m_status := attempt_status a\<rparr>; w = set_share i (\<lambda>_. m2) db
                                in if e_db_ok e ''share_save'' then (audit_mount_updated e m2 changed (attempt_error a) w, calls @ calls', Inr m2)
                                   else case a of
                                     Attempt_raised msg \<Rightarrow> (audit_mount_updated e m changed (attempt_error a) db, calls @ calls', Inr m)
                                   | _ \<Rightarrow> (db, calls @ calls', Inl Share_db_error))))))"

definition cleanup_generated_mount_directory :: "share_config \<Rightarrow> string \<Rightarrow> share_effect list" where
  "cleanup_generated_mount_directory cfg mount_point =
     (case cleanup_target_for_generated_network_mount_point (scf_cwd cfg) (scf_network_mount_base_path cfg) mount_point of
        None \<Rightarrow> [] | Some target \<Rightarrow> if target = [] then [] else [Share_rmdir target])"

definition remove_share :: "env \<Rightarrow> share_config \<Rightarrow> share_provider \<Rightarrow> int \<Rightarrow> db \<Rightarrow> unit share_result" where
  "remove_share e cfg p i db =
     (case get_share i db of
        None \<Rightarrow> (db, [], Inl Share_not_found)
      | Some m \<Rightarrow>
          (let mount_point = m_local_mount_point m;
               live = (if mount_point \<noteq> [] then sp_check p 0 mount_point else None);
               should_unmount = (mount_point \<noteq> [] \<and> (m_status m = MOUNTED \<or> live \<noteq> Some False));
               calls = (if should_unmount then [Share_unmount mount_point] else [])
           in if should_unmount \<and> unmount_error p 0 mount_point \<noteq> None then (db, calls, Inl Unmount_failed)
              else let calls = calls @ cleanup_generated_mount_directory cfg mount_point;
                       db1 = best_effort_audit e ''MOUNT_REMOVED'' None None None
                               [(''mount_id'', JInt i), (''mount_label'', JStr (redacted_mount_label mount_point))] db
                   in if e_db_ok e ''share_delete''
                      then (db1\<lparr>shares := filter (\<lambda>m. m_id m \<noteq> i) (shares db1)\<rparr>, calls, Inr ())
                      else (db1, calls, Inl Share_db_error)))"

section \<open>Validating a stored share\<close>

definition audit_mount_validated :: "env \<Rightarrow> network_share \<Rightarrow> mount_status \<Rightarrow> db \<Rightarrow> db" where
  "audit_mount_validated e m status =
     best_effort_audit e ''MOUNT_VALIDATED'' None None None
       [(''mount_id'', JInt (m_id m)), (''mount_label'', JStr (redacted_mount_label (m_local_mount_point m))),
        (''status'', JStr (mount_status_value status))]"

definition validate_share :: "env \<Rightarrow> share_provider \<Rightarrow> int \<Rightarrow> db \<Rightarrow> network_share share_result" where
  "validate_share e p i db =
     (case get_share i db of
        None \<Rightarrow> (db, [], Inl Share_not_found)
      | Some m \<Rightarrow>
          (case (if sp_check p 0 (m_local_mount_point m) = Some True then ([], Attempted True None)
                 else attempt_mount p 0 (m_type m) (m_remote_path m) (m_local_mount_point m) (stored_or_none p m)
                        (m_nfs_client_version m)) of
             (calls, Attempt_refused err) \<Rightarrow> (db, calls, Inl err)
           | (calls, Attempt_raised msg) \<Rightarrow> (db, calls, Inl (Provider_raised msg))
           | (calls, a) \<Rightarrow>
               (let m' = m\<lparr>m_status := attempt_status a, m_last_checked_at := Some (e_now e)\<rparr>
                in if e_db_ok e ''share_save''
                   then (audit_mount_validated e m' (m_status m') (set_share i (\<lambda>_. m') db), calls, Inr m')
                   else (db, calls, Inl Share_db_error))))"

text \<open>The list comprehension stops at the first share whose validation raises.\<close>

fun validate_shares :: "env \<Rightarrow> share_provider \<Rightarrow> int list \<Rightarrow> db \<Rightarrow> network_share list share_result" where
  "validate_shares e p [] db = (db, [], Inr [])"
| "validate_shares e p (i # is) db =
     (case validate_share e p i db of
        (db1, calls, Inl err) \<Rightarrow> (db1, calls, Inl err)
      | (db1, calls, Inr m) \<Rightarrow>
          (case validate_shares e p is db1 of
             (db2, calls', Inl err) \<Rightarrow> (db2, calls @ calls', Inl err)
           | (db2, calls', Inr ms) \<Rightarrow> (db2, calls @ calls', Inr (m # ms))))"

definition validate_all_shares :: "env \<Rightarrow> share_provider \<Rightarrow> db \<Rightarrow> network_share list share_result" where
  "validate_all_shares e p db = validate_shares e p (map m_id (shares db)) db"

section \<open>Validating a change before it is made\<close>

text \<open>\<open>_restore_mount_after_candidate_validation\<close>: the inner option is the reported error. The remount names no client
  version.\<close>

definition restore_mount ::
  "share_provider \<Rightarrow> nat \<Rightarrow> nat \<Rightarrow> network_share \<Rightarrow> mount_type \<Rightarrow> string \<Rightarrow> bool \<Rightarrow> share_effect list \<times> (share_error + string option)" where
  "restore_mount p k n m original_type original_remote original_was_mounted =
     (let mount_point = m_local_mount_point m; live = (sp_check p k mount_point = Some True);
          calls = (if live then [Share_unmount mount_point] else [])
      in case (if live then unmount_error p k mount_point else None) of
           Some err \<Rightarrow> (calls, Inr (Some err))
         | None \<Rightarrow>
             if \<not> original_was_mounted then (calls, Inr None)
             else case stored_or_none p m of
               Inl err \<Rightarrow> (calls, Inl err)
             | Inr c \<Rightarrow>
                 (calls @ [Share_mount original_type original_remote mount_point c None],
                  (case sp_mount p n original_type original_remote mount_point c None of
                     Inl msg \<Rightarrow> Inl (Provider_raised msg)
                   | Inr (True, _) \<Rightarrow> Inr None
                   | Inr (False, err) \<Rightarrow> Inr (Some (if truthy err then the err else ''Failed to restore original mount state'')))))"

text \<open>The attempt with the requested values; the client version is that of the stored share.\<close>

definition try_candidate ::
  "share_provider \<Rightarrow> share_body \<Rightarrow> bool \<Rightarrow> network_share \<Rightarrow> share_effect list \<times> (share_error + mount_status \<times> string option)" where
  "try_candidate p b original_was_mounted m =
     (case (if original_was_mounted then prepare_mount_for_update p m else ([], Inr (m_status m))) of
        (calls, Inl err) \<Rightarrow> (calls, Inl err)
      | (calls, Inr _) \<Rightarrow>
          (case attempt_mount p 0 (sb_type b) (sb_remote_path b) (m_local_mount_point m) (resolve_mount_operation_credentials p m b)
                  (m_nfs_client_version m) of
             (calls', Attempted ok err) \<Rightarrow> (calls @ calls', Inr (if ok then MOUNTED else MOUNT_ERROR, err))
           | (calls', Attempt_raised msg) \<Rightarrow> (calls @ calls', Inl (Provider_raised msg))
           | (calls', Attempt_refused err) \<Rightarrow> (calls @ calls', Inl err)))"

definition validate_share_update ::
  "env \<Rightarrow> share_provider \<Rightarrow> int \<Rightarrow> share_body \<Rightarrow> db \<Rightarrow> network_share share_result" where
  "validate_share_update e p i b db =
     (case get_share i db of
        None \<Rightarrow> (db, [], Inl Share_not_found)
      | Some m \<Rightarrow>
          (let project = normalize_project_id (sb_project_id b)
           in if project = [] then (db, [], Inl Project_required)
              else case validate_remote_path_conflicts b project (Some i) db of
                Some err \<Rightarrow> (db, [], Inl err)
              | None \<Rightarrow>
                  (let original_was_mounted = (sp_check p 0 (m_local_mount_point m) = Some True \<or> m_status m = MOUNTED)
                   in case try_candidate p b original_was_mounted m of
                        (calls, tried) \<Rightarrow>
                          (case restore_mount p 1 1 m (m_type m) (m_remote_path m) original_was_mounted of
                             (calls', Inl err) \<Rightarrow> (db, calls @ calls', Inl err)
                           | (calls', Inr restore_error) \<Rightarrow>
                               (case tried of
                                  Inl err \<Rightarrow> (db, calls @ calls', Inl err)
                                | Inr (status, validation_error) \<Rightarrow>
                                    if truthy restore_error then (db, calls @ calls', Inl Restore_failed)
                                    else if \<not> e_db_ok e ''share_save'' then (db, calls @ calls', Inl Share_db_error)
                                    else let w = set_share i (\<lambda>m. m\<lparr>m_last_checked_at := Some (e_now e)\<rparr>) db;
                                             w = audit_mount_validated e m status w
                                         in if status \<noteq> MOUNTED
                                            then (w, calls @ calls', Inl (Validation_failed (sanitize_error_message ''Mount validation failed'' validation_error)))
                                            else (w, calls @ calls',
                                                  Inr (m\<lparr>m_type := sb_type b, m_remote_path := sb_remote_path b, m_project_id := project,
                                                         m_status := status, m_last_checked_at := Some (e_now e)\<rparr>)))))))"

section \<open>Validating a share before it is added\<close>

text \<open>\<open>f"{x:.1f}"\<close> of a duration.\<close>

definition one_decimal :: "rat \<Rightarrow> string" where
  "one_decimal x = (let n = round_half_even (x * 10) in str_int (n div 10) @ ''.'' @ str_int (n mod 10))"

definition build_nfs_validation_warning :: "string \<Rightarrow> rat \<Rightarrow> rat \<Rightarrow> string" where
  "build_nfs_validation_warning selected elapsed fallback_elapsed =
     ''Selected NFS '' @ selected @ '' validation was slow ('' @ one_decimal elapsed @ ''s). '' @
     ''NFS 3 validated much faster on this server ('' @ one_decimal fallback_elapsed @ ''s).''"

definition build_nfs_timeout_fallback_message :: "string \<Rightarrow> rat \<Rightarrow> string" where
  "build_nfs_timeout_fallback_message selected fallback_elapsed =
     ''NFS '' @ selected @ '' validation timed out or was too slow. '' @
     ''NFS 3 validated much faster on this server ('' @ one_decimal fallback_elapsed @ ''s).''"

definition nfs_validation_slow_seconds :: rat where
  "nfs_validation_slow_seconds = 5"

definition should_probe_nfs_v3_fallback :: "mount_type \<Rightarrow> string option \<Rightarrow> rat \<Rightarrow> string option \<Rightarrow> bool" where
  "should_probe_nfs_v3_fallback mount_type selected elapsed err \<longleftrightarrow>
     mount_type = NFS \<and> selected = Some ''4.1'' \<and>
     (nfs_validation_slow_seconds \<le> elapsed \<or> py_contains (py_lower (py_strip (sanitize_error_message [] err))) ''timed out'')"

text \<open>\<open>_probe_nfs_v3_validation_warning\<close>: checks and unmounts have the numbers 0 and 1, the final clean-up has 2.\<close>

definition probe_nfs_v3 ::
  "share_provider \<Rightarrow> share_body \<Rightarrow> network_share \<Rightarrow> credentials \<Rightarrow> string option \<Rightarrow> bool \<Rightarrow> string option \<Rightarrow>
   share_effect list \<times> (share_error + string option \<times> string option)" where
  "probe_nfs_v3 p b m c selected ok err =
     (if \<not> should_probe_nfs_v3_fallback (sb_type b) selected (sp_elapsed p 0) err then ([], Inr (None, None))
      else case (if ok then restore_mount p 0 9 m (sb_type b) (sb_remote_path b) False else ([], Inr None)) of
        (calls, Inl x) \<Rightarrow> (calls, Inl x)
      | (calls, Inr (Some cleanup)) \<Rightarrow> (calls, Inr (None, Some cleanup))
      | (calls, Inr None) \<Rightarrow>
          (case sp_mount p 1 (sb_type b) (sb_remote_path b) (m_local_mount_point m) c (Some ''3'') of
             Inl msg \<Rightarrow> (calls @ [Share_mount (sb_type b) (sb_remote_path b) (m_local_mount_point m) c (Some ''3'')], Inl (Provider_raised msg))
           | Inr (fallback_ok, _) \<Rightarrow>
               (case restore_mount p 1 9 m (sb_type b) (sb_remote_path b) False of
                  (calls', r) \<Rightarrow>
                    (calls @ [Share_mount (sb_type b) (sb_remote_path b) (m_local_mount_point m) c (Some ''3'')] @ calls',
                     (case r of
                        Inl x \<Rightarrow> Inl x
                      | Inr (Some cleanup) \<Rightarrow> Inr (None, Some cleanup)
                      | Inr None \<Rightarrow>
                          if \<not> fallback_ok then Inr (None, None)
                          else if ok then
                            (if max nfs_validation_slow_seconds (sp_elapsed p 1 * 3) \<le> sp_elapsed p 0
                             then Inr (Some (build_nfs_validation_warning (the selected) (sp_elapsed p 0) (sp_elapsed p 1)), None) else Inr (None, None))
                          else Inr (Some (build_nfs_timeout_fallback_message (the selected) (sp_elapsed p 1)), None))))))"

definition try_new_share ::
  "share_config \<Rightarrow> share_provider \<Rightarrow> share_body \<Rightarrow> network_share \<Rightarrow>
   share_effect list \<times> (share_error + mount_status \<times> string option \<times> string option)" where
  "try_new_share cfg p b m =
     (let selected = (if sb_type b = NFS then Some (resolve_nfs_client_version cfg (sb_nfs_client_version b)) else None);
          creds = resolve_mount_operation_credentials p m b
      in case attempt_mount p 0 (sb_type b) (sb_remote_path b) (m_local_mount_point m) creds selected of
           (calls, Attempt_refused err) \<Rightarrow> (calls, Inl err)
         | (calls, Attempt_raised msg) \<Rightarrow> (calls, Inl (Provider_raised msg))
         | ([], Attempted ok err) \<Rightarrow> ([], Inr (MOUNT_ERROR, err, None))
         | (calls, Attempted ok err) \<Rightarrow>
             (case probe_nfs_v3 p b m (case creds of Inr c \<Rightarrow> c | Inl _ \<Rightarrow> no_credentials) selected ok err of
                (calls', Inl x) \<Rightarrow> (calls @ calls', Inl x)
              | (calls', Inr (warning, cleanup)) \<Rightarrow>
                  (calls @ calls', if truthy cleanup then Inl Restore_failed else Inr (if ok then MOUNTED else MOUNT_ERROR, err, warning))))"

definition validate_share_candidate ::
  "env \<Rightarrow> share_config \<Rightarrow> share_provider \<Rightarrow> share_body \<Rightarrow> db \<Rightarrow> (network_share \<times> string option) share_result" where
  "validate_share_candidate e cfg p b db =
     (let project = normalize_project_id (sb_project_id b)
      in if project = [] then (db, [], Inl Project_required)
         else case validate_remote_path_conflicts b project None db of
           Some err \<Rightarrow> (db, [], Inl err)
         | None \<Rightarrow>
             (let mount_point = candidate_mount_point cfg b db; m = new_share cfg b project 0 mount_point
              in case try_new_share cfg p b m of
                   (calls, tried) \<Rightarrow>
                     (case restore_mount p 2 9 m (sb_type b) (sb_remote_path b) False of
                        (calls', Inl err) \<Rightarrow> (db, calls @ calls', Inl err)
                      | (calls', Inr restore_error) \<Rightarrow>
                          (case tried of
                             Inl err \<Rightarrow> (db, calls @ calls', Inl err)
                           | Inr (status, err, warning) \<Rightarrow>
                               if truthy restore_error then (db, calls @ calls', Inl Restore_failed)
                               else let db1 = best_effort_audit e ''MOUNT_VALIDATE_CANDIDATE'' (Some project) None None
                                          [(''project_id'', JStr project), (''mount_label'', JStr (redacted_mount_label mount_point)),
                                           (''status'', JStr (mount_status_value status)), (''validation_warning'', jstr warning)] db
                                    in if status \<noteq> MOUNTED
                                       then (db1, calls @ calls', Inl (if truthy warning then Validation_advisory (the warning)
                                              else Validation_failed (sanitize_error_message ''Mount validation failed'' err)))
                                       else (db1, calls @ calls', Inr (m\<lparr>m_status := status, m_last_checked_at := Some (e_now e)\<rparr>, warning))))))"

section \<open>Listing and discovery\<close>

definition mount_path_viewer_roles :: "string list" where
  "mount_path_viewer_roles = [''admin'', ''manager'']"

definition redacted_mount_path :: string where
  "redacted_mount_path = ''[REDACTED]''"

definition can_view_mount_paths :: "string list \<Rightarrow> bool" where
  "can_view_mount_paths roles \<longleftrightarrow> list_ex (\<lambda>r. r \<in> set mount_path_viewer_roles) roles"

definition redact_mount_paths :: "network_share \<Rightarrow> network_share" where
  "redact_mount_paths m = m\<lparr>m_remote_path := redacted_mount_path, m_local_mount_point := redacted_mount_path\<rparr>"

text \<open>The job shown with a share: the newest job of its project that is not archived. The custody summaries of the audit
  service are an argument; no answer stands for a failing lookup.\<close>

datatype related_status = Related_status job_status | No_related_job | Related_unavailable

record share_related_job =
  srj_job_id :: "int option"
  srj_status :: related_status
  srj_custody_status :: custody_status

definition no_related_job :: share_related_job where
  "no_related_job = \<lparr>srj_job_id = None, srj_status = No_related_job, srj_custody_status = NO_RELATED_JOB\<rparr>"

definition related_unavailable :: share_related_job where
  "related_unavailable = \<lparr>srj_job_id = None, srj_status = Related_unavailable, srj_custody_status = STATUS_UNAVAILABLE\<rparr>"

definition related_job_rows :: "string list \<Rightarrow> db \<Rightarrow> export_job list" where
  "related_job_rows projects db =
     rev (sort_key (\<lambda>j. (j_created_at j, j_id j)) (filter (\<lambda>j. j_project_id j \<in> set projects \<and> j_status j \<noteq> ARCHIVED) (jobs db)))"

definition related_custody :: "(int list \<Rightarrow> (int \<Rightarrow> bool option) option) \<Rightarrow> export_job list \<Rightarrow> int \<Rightarrow> bool option" where
  "related_custody custody rows =
     (let done = map j_id (filter (\<lambda>j. j_status j \<in> {COMPLETED, ARCHIVED}) rows)
      in if done = [] then (\<lambda>_. None) else case custody done of None \<Rightarrow> (\<lambda>_. None) | Some f \<Rightarrow> f)"

definition related_job_of :: "(int \<Rightarrow> bool option) \<Rightarrow> export_job \<Rightarrow> share_related_job" where
  "related_job_of custody j =
     \<lparr>srj_job_id = Some (j_id j), srj_status = Related_status (j_status j),
      srj_custody_status =
        (if j_status j \<in> {COMPLETED, ARCHIVED}
         then (case custody (j_id j) of Some True \<Rightarrow> HANDOFF_RECORDED | Some False \<Rightarrow> PENDING_HANDOFF | None \<Rightarrow> STATUS_UNAVAILABLE)
         else PENDING_HANDOFF)\<rparr>"

definition attach_related_job_contexts ::
  "env \<Rightarrow> (int list \<Rightarrow> (int \<Rightarrow> bool option) option) \<Rightarrow> db \<Rightarrow> network_share list \<Rightarrow> (network_share \<times> share_related_job) list" where
  "attach_related_job_contexts e custody db ms =
     (let projects = filter (\<lambda>p. p \<noteq> []) (map (\<lambda>m. normalize_project_id (m_project_id m)) ms)
      in if projects = [] then map (\<lambda>m. (m, no_related_job)) ms
         else if \<not> e_db_ok e ''share_related_jobs'' then map (\<lambda>m. (m, related_unavailable)) ms
         else let rows = related_job_rows projects db; by_id = related_custody custody rows
              in map (\<lambda>m. (m, case find (\<lambda>j. normalize_project_id (j_project_id j) \<noteq> [] \<and>
                                      normalize_project_id (j_project_id j) = normalize_project_id (m_project_id m)) rows of
                                None \<Rightarrow> no_related_job | Some j \<Rightarrow> related_job_of by_id j)) ms)"

definition list_shares ::
  "env \<Rightarrow> (int list \<Rightarrow> (int \<Rightarrow> bool option) option) \<Rightarrow> string list \<Rightarrow> db \<Rightarrow> (network_share \<times> share_related_job) list" where
  "list_shares e custody roles db =
     (let ms = attach_related_job_contexts e custody db (shares db)
      in if can_view_mount_paths roles then ms else map (\<lambda>(m, r). (redact_mount_paths m, r)) ms)"

datatype discovery_answer = Tool_missing | Discovery_error | Found "string list"

definition extract_share_discovery_target :: "mount_type \<Rightarrow> string \<Rightarrow> string option" where
  "extract_share_discovery_target mount_type remote =
     (case normalize_remote_reference mount_type remote of (_, host, _) \<Rightarrow> if host \<noteq> [] then Some host else None)"

definition discover_shares ::
  "env \<Rightarrow> (string \<Rightarrow> discovery_answer) \<Rightarrow> mount_type \<Rightarrow> string \<Rightarrow> db \<Rightarrow> (string \<times> string) list share_result" where
  "discover_shares e ask mount_type remote db =
     (case extract_share_discovery_target mount_type remote of
        None \<Rightarrow> (db, [], Inl Server_required)
      | Some host \<Rightarrow>
          (let failed = (\<lambda>reason err. (best_effort_audit e ''MOUNT_SHARE_DISCOVERY_FAILED'' None None None
                  [(''type'', JStr (if mount_type = NFS then ''NFS'' else ''SMB'')), (''reason'', JStr reason)] db, [], Inl err))
           in case ask remote of
                Tool_missing \<Rightarrow> failed ''tool_unavailable'' Discovery_unavailable
              | Discovery_error \<Rightarrow> failed ''discovery_failed'' Discovery_failed
              | Found ps \<Rightarrow>
                  (let found = map (\<lambda>p. (p, discovered_share_display_name mount_type p)) (normalize_discovered_share_paths ps)
                   in (best_effort_audit e ''MOUNT_SHARE_DISCOVERY_ATTEMPTED'' None None None
                         [(''type'', JStr (if mount_type = NFS then ''NFS'' else ''SMB'')), (''share_count'', JInt (int (length found)))] db,
                       [], Inr found))))"

end
