(* ===== verification/Share_Safety.thy ===== *)
theory Share_Safety
  imports Share_Service
begin

text \<open>
  What the share service guarantees: remote directories of different projects never overlap, mount points are distinct, a
  share is removed only after its unmount, validation leaves the configuration alone, and credentials survive storage.
\<close>

section \<open>Conflicts\<close>

definition overlapping :: "mount_type \<times> string \<times> string \<Rightarrow> mount_type \<times> string \<times> string \<Rightarrow> bool" where
  "overlapping a b \<longleftrightarrow> fst a = fst b \<and> fst (snd a) = fst (snd b) \<and> remote_paths_overlap (snd (snd a)) (snd (snd b))"

definition stored_project :: "network_share \<Rightarrow> string" where
  "stored_project m = (let p = normalize_project_id (m_project_id m) in if p = [] then ''UNASSIGNED'' else p)"

lemma overlapping_sym: "overlapping a b \<longleftrightarrow> overlapping b a"
  by (auto simp: overlapping_def overlap_sym)

lemma overlapping_same: "a = b \<Longrightarrow> overlapping a b"
  by (simp add: overlapping_def remote_paths_overlap_def)

text \<open>The conflict check is exact: a share is accepted if and only if no other configured share has the same remote
  directory and every other share with an overlapping remote directory belongs to the same project.\<close>

lemma remote_path_conflict_exact:
  "remote_path_conflict cand project ignore ms = None \<longleftrightarrow>
     (\<forall>m\<in>set ms. ignore \<noteq> Some (m_id m) \<longrightarrow>
        cand \<noteq> remote_reference m \<and> (overlapping cand (remote_reference m) \<longrightarrow> stored_project m = project))"
proof (induction cand project ignore ms rule: remote_path_conflict.induct)
  case (2 cand project ignore m ms)
  obtain t h q where c: "cand = (t, h, q)" by (metis surj_pair)
  obtain t' h' q' where r: "remote_reference m = (t', h', q')" by (metis surj_pair)
  show ?case
    using 2 c r by (auto simp: overlapping_def stored_project_def Let_def split: if_splits)
qed simp

definition separate :: "network_share \<Rightarrow> network_share \<Rightarrow> bool" where
  "separate m m' \<longleftrightarrow> remote_reference m \<noteq> remote_reference m' \<and>
     (overlapping (remote_reference m) (remote_reference m') \<longrightarrow> m_project_id m = m_project_id m')"

definition shares_ok :: "db \<Rightarrow> bool" where
  "shares_ok db \<longleftrightarrow> pk_ok m_id (shares db) \<and> distinct (map m_local_mount_point (shares db)) \<and>
     (\<forall>m\<in>set (shares db). normalize_project_id (m_project_id m) = m_project_id m \<and> m_project_id m \<noteq> []) \<and>
     (\<forall>m\<in>set (shares db). \<forall>m'\<in>set (shares db). m_id m \<noteq> m_id m' \<longrightarrow> separate m m')"

lemma separate_sym: "separate m m' \<longleftrightarrow> separate m' m"
  by (auto simp: separate_def overlapping_sym)

lemma separate_core:
  assumes "m_type m' = m_type m" "m_remote_path m' = m_remote_path m" "m_project_id m' = m_project_id m"
  shows "separate m' k = separate m k"
  using assms by (simp add: separate_def remote_reference_def)

lemma no_conflict_separate:
  assumes "validate_remote_path_conflicts b project ignore db = None" "shares_ok db" "k \<in> set (shares db)" "ignore \<noteq> Some (m_id k)"
    "m_type m = sb_type b" "m_remote_path m = sb_remote_path b" "m_project_id m = project"
  shows "separate m k"
proof -
  have "stored_project k = m_project_id k" using assms(2,3) by (simp add: shares_ok_def stored_project_def)
  with assms show ?thesis
    by (auto simp: validate_remote_path_conflicts_def remote_path_conflict_exact separate_def remote_reference_def)
qed

section \<open>The invariant\<close>

lemma shares_ok_cong: "shares db' = shares db \<Longrightarrow> shares_ok db' = shares_ok db"
  by (simp add: shares_ok_def)

lemma shares_ok_audit [simp]: "shares_ok (best_effort_audit e a p d j ds db) = shares_ok db"
  by (rule shares_ok_cong) (rule audited_frame(4) [OF best_effort_audited])

lemma shares_ok_append:
  assumes "shares_ok db" "m_id m \<notin> m_id ` set (shares db)" "m_local_mount_point m \<notin> m_local_mount_point ` set (shares db)"
    "normalize_project_id (m_project_id m) = m_project_id m" "m_project_id m \<noteq> []" "\<And>k. k \<in> set (shares db) \<Longrightarrow> separate m k"
  shows "shares_ok (db\<lparr>shares := shares db @ [m]\<rparr>)"
proof -
  have "separate a b" if "a \<in> insert m (set (shares db))" "b \<in> insert m (set (shares db))" "m_id a \<noteq> m_id b" for a b
    using that assms(1,6) separate_sym [of m] by (auto simp: shares_ok_def)
  then show ?thesis using assms(1-5) by (simp add: shares_ok_def pk_ok_append_fresh)
qed

lemma shares_ok_filter: "shares_ok db \<Longrightarrow> shares w = filter P (shares db) \<Longrightarrow> shares_ok w"
  by (auto simp: shares_ok_def pk_ok_filter distinct_map_filter)

lemma get_shareD: "get_share i db = Some m \<Longrightarrow> m_id m = i \<and> m \<in> set (shares db)"
  unfolding get_share_def by (auto dest: get_row_Some)

lemma shares_ok_set:
  assumes ok: "shares_ok db" and m: "get_share i db = Some m" and k: "m_id (f m) = i" "m_local_mount_point (f m) = m_local_mount_point m"
    "normalize_project_id (m_project_id (f m)) = m_project_id (f m)" "m_project_id (f m) \<noteq> []"
    "\<And>x. x \<in> set (shares db) \<Longrightarrow> m_id x \<noteq> i \<Longrightarrow> separate (f m) x"
  shows "shares_ok (set_share i f db)"
proof -
  let ?s = "upd_row m_id i f (shares db)"
  have pk: "pk_ok m_id (shares db)" and r: "get_row m_id i (shares db) = Some m" and id: "m_id m = i"
    using ok m get_shareD [OF m] by (auto simp: shares_ok_def get_share_def)
  have set: "set ?s = insert (f m) (set (shares db) - {m})" and keys: "map m_id ?s = map m_id (shares db)"
    using upd_row_same(2,3) [OF pk r, of f] k(1) id by simp_all
  have "m_local_mount_point (if m_id x = i then f x else x) = m_local_mount_point x" if "x \<in> set (shares db)" for x
    using that k(2) pk_ok_same [OF pk that, of m] get_shareD [OF m] id by auto
  then have "map m_local_mount_point ?s = map m_local_mount_point (shares db)" by (simp add: upd_row_def)
  moreover have other: "m_id x \<noteq> i" if "x \<in> set (shares db) - {m}" for x
    using that pk_ok_same [OF pk, of x m] get_shareD [OF m] id by auto
  moreover have "separate a b" if ab: "a \<in> set ?s" "b \<in> set ?s" "m_id a \<noteq> m_id b" for a b
  proof -
    have in_old: "x \<in> set (shares db) - {m}" if "x \<in> set ?s" "x \<noteq> f m" for x using that unfolding set by blast
    show ?thesis
    proof (cases "a = f m")
      case True
      with ab(3) have "b \<noteq> f m" by blast
      with ab(2) have "b \<in> set (shares db) - {m}" by (rule in_old)
      then show ?thesis using True k(5) other by auto
    next
      case False
      note a = in_old [OF ab(1) False]
      show ?thesis
      proof (cases "b = f m")
        case True
        then show ?thesis using a k(5) other separate_sym by auto
      next
        case False
        then show ?thesis using a in_old [OF ab(2) False] ok ab(3) by (auto simp: shares_ok_def)
      qed
    qed
  qed
  ultimately show ?thesis
    using ok k(3,4) keys unfolding shares_ok_def set_share_def by (simp add: pk_ok_def set)
qed

section \<open>Every request keeps the invariant\<close>

lemma applied_credentials_keys [simp]:
  "m_id (apply_encrypted_mount_credentials p k b m) = m_id m" "m_type (apply_encrypted_mount_credentials p k b m) = m_type m"
  "m_remote_path (apply_encrypted_mount_credentials p k b m) = m_remote_path m"
  "m_project_id (apply_encrypted_mount_credentials p k b m) = m_project_id m"
  "m_local_mount_point (apply_encrypted_mount_credentials p k b m) = m_local_mount_point m"
  "m_status (apply_encrypted_mount_credentials p k b m) = m_status m"
  by (simp_all add: apply_encrypted_mount_credentials_def)

text \<open>The two ways in which \<open>add_share\<close> ends with a share.\<close>

lemma add_share_cases:
  assumes "add_share e cfg p b db = (db', calls, r)"
  obtains (unchanged) "shares db' = shares db"
  | (added) m where "r = Inr m" "e_db_ok e ''share_save''" "shares db' = shares db @ [m]" "m_id m = next_id m_id (shares db)"
      "m_type m = sb_type b" "m_remote_path m = sb_remote_path b" "m_project_id m = normalize_project_id (sb_project_id b)"
      "m_project_id m \<noteq> []" "m_local_mount_point m = candidate_mount_point cfg b db"
      "validate_remote_path_conflicts b (m_project_id m) None db = None"
proof -
  define project where "project = normalize_project_id (sb_project_id b)"
  define m where "m = apply_encrypted_mount_credentials p False b
    (new_share cfg b project (next_id m_id (shares db)) (candidate_mount_point cfg b db))"
  note aud = audited_frame(4) [OF best_effort_audited]
  let ?m = "\<lambda>a. m\<lparr>m_status := attempt_status a\<rparr>"
  have "shares db' = shares db \<or> (\<exists>a. r = Inr (?m a) \<and> e_db_ok e ''share_save'' \<and> project \<noteq> [] \<and> shares db' = shares db @ [?m a] \<and>
      validate_remote_path_conflicts b project None db = None)"
  proof (cases "project = [] \<or> validate_remote_path_conflicts b project None db \<noteq> None \<or>
      candidate_mount_point cfg b db \<in> set (map m_local_mount_point (shares db)) \<or> \<not> e_db_ok e ''share_add''")
    case True
    with assms show ?thesis unfolding add_share_def Let_def project_def [symmetric] by (auto simp: aud split: option.splits if_splits)
  next
    case False
    obtain calls' a where at: "attempt_mount p 0 (sb_type b) (sb_remote_path b) (candidate_mount_point cfg b db)
        (resolve_mount_operation_credentials p m b) (m_nfs_client_version m) = (calls', a)" by fastforce
    from assms False at show ?thesis
      unfolding add_share_def Let_def project_def [symmetric] m_def [symmetric] audit_mount_added_def
      by (cases a) (auto simp: aud split: if_splits)
  qed
  then consider "shares db' = shares db"
    | a where "r = Inr (?m a)" "e_db_ok e ''share_save''" "project \<noteq> []" "shares db' = shares db @ [?m a]"
        "validate_remote_path_conflicts b project None db = None" by blast
  then show ?thesis
  proof cases
    case 1
    then show ?thesis by (rule unchanged)
  next
    case (2 a)
    then show ?thesis by (intro added [of "m\<lparr>m_status := attempt_status a\<rparr>"]) (auto simp: m_def new_share_def project_def)
  qed
qed

lemma add_share_ok:
  assumes "add_share e cfg p b db = (db', calls, r)" "shares_ok db"
  shows "shares_ok db'"
  using assms(1)
proof (cases rule: add_share_cases)
  case unchanged
  then show ?thesis using shares_ok_cong assms(2) by blast
next
  case (added m)
  have "m_id m \<notin> m_id ` set (shares db)" using added(4) next_id_greater [of _ "shares db" m_id] by force
  moreover have "m_local_mount_point m \<notin> m_local_mount_point ` set (shares db)"
    using added(9) generated_mount_point [of _ _ _ "map m_local_mount_point (shares db)"] by (simp add: candidate_mount_point_def)
  moreover have "separate m k" if "k \<in> set (shares db)" for k
    using no_conflict_separate [OF added(10) assms(2) that] added(5,6) by simp
  ultimately have "shares_ok (db\<lparr>shares := shares db @ [m]\<rparr>)"
    using assms(2) added(7,8) by (intro shares_ok_append) auto
  then show ?thesis using added(3) shares_ok_cong [of db' "db\<lparr>shares := shares db @ [m]\<rparr>"] by simp
qed

lemma update_share_cases:
  assumes "update_share e cfg p i b db = (db', calls, r)"
  obtains (unchanged) "shares db' = shares db"
  | (updated) m m' where "r = Inr m'" "get_share i db = Some m" "shares db' = shares (set_share i (\<lambda>_. m') db)" "m_id m' = m_id m"
      "m_type m' = sb_type b" "m_remote_path m' = sb_remote_path b" "m_project_id m' = normalize_project_id (sb_project_id b)"
      "m_project_id m' \<noteq> []" "m_local_mount_point m' = m_local_mount_point m"
      "validate_remote_path_conflicts b (m_project_id m') (Some i) db = None"
proof -
  define project where "project = normalize_project_id (sb_project_id b)"
  note aud = audited_frame(4) [OF best_effort_audited]
  let ?m = "\<lambda>m a. (updated_share e cfg p b project m)\<lparr>m_status := attempt_status a\<rparr>"
  have "shares db' = shares db \<or> (\<exists>m a. get_share i db = Some m \<and> r = Inr (?m m a) \<and> project \<noteq> [] \<and>
      shares db' = shares (set_share i (\<lambda>_. ?m m a) db) \<and> validate_remote_path_conflicts b project (Some i) db = None)"
  proof (cases "project = [] \<or> get_share i db = None \<or> validate_remote_path_conflicts b project (Some i) db \<noteq> None")
    case True
    with assms show ?thesis unfolding update_share_def Let_def project_def [symmetric] by (auto split: option.splits if_splits)
  next
    case False
    then obtain m where m: "get_share i db = Some m" by auto
    obtain c1 s1 where pm: "prepare_mount_for_update p (updated_share e cfg p b project m) = (c1, s1)" by fastforce
    obtain c2 a where at: "attempt_mount p 0 (sb_type b) (sb_remote_path b) (m_local_mount_point (updated_share e cfg p b project m))
        (resolve_mount_operation_credentials p (updated_share e cfg p b project m) b)
        (m_nfs_client_version (updated_share e cfg p b project m)) = (c2, a)" by fastforce
    from assms False m pm at show ?thesis
      unfolding update_share_def Let_def project_def [symmetric] audit_mount_updated_def
      by (cases s1; cases a) (auto simp: aud split: if_splits)
  qed
  then consider "shares db' = shares db"
    | m a where "get_share i db = Some m" "r = Inr (?m m a)" "project \<noteq> []" "shares db' = shares (set_share i (\<lambda>_. ?m m a) db)"
        "validate_remote_path_conflicts b project (Some i) db = None" by blast
  then show ?thesis
  proof cases
    case 1
    then show ?thesis by (rule unchanged)
  next
    case (2 m a)
    then show ?thesis by (intro updated [of "(updated_share e cfg p b project m)\<lparr>m_status := attempt_status a\<rparr>" m])
        (auto simp: updated_share_def project_def)
  qed
qed

lemma update_share_ok:
  assumes "update_share e cfg p i b db = (db', calls, r)" "shares_ok db"
  shows "shares_ok db'"
  using assms(1)
proof (cases rule: update_share_cases)
  case unchanged
  then show ?thesis using shares_ok_cong assms(2) by blast
next
  case (updated m m')
  have "separate m' x" if "x \<in> set (shares db)" "m_id x \<noteq> i" for x
    using no_conflict_separate [OF updated(10) assms(2) that(1)] that(2) updated(5,6) by simp
  then have "shares_ok (set_share i (\<lambda>_. m') db)"
    using updated get_shareD [OF updated(2)] by (intro shares_ok_set [OF assms(2) updated(2)]) auto
  then show ?thesis using updated(3) shares_ok_cong by blast
qed

lemma remove_share_ok:
  assumes "remove_share e cfg p i db = (db', calls, r)" "shares_ok db"
  shows "shares_ok db'"
proof -
  have "shares db' = shares db \<or> shares db' = filter (\<lambda>m. m_id m \<noteq> i) (shares db)"
    using assms(1) audited_frame(4) [OF best_effort_audited] unfolding remove_share_def Let_def
    by (auto split: option.splits if_splits)
  then show ?thesis using assms(2) shares_ok_cong shares_ok_filter by blast
qed

text \<open>An update of a share that changes neither its keys nor its reference.\<close>

lemma shares_ok_touch:
  assumes "shares_ok db" "get_share i db = Some m"
    "m_id (f m) = i" "m_local_mount_point (f m) = m_local_mount_point m" "m_type (f m) = m_type m"
    "m_remote_path (f m) = m_remote_path m" "m_project_id (f m) = m_project_id m"
  shows "shares_ok (set_share i f db)"
proof (rule shares_ok_set [where m = m, OF assms(1,2)])
  show "m_id (f m) = i" "m_local_mount_point (f m) = m_local_mount_point m" by (rule assms)+
  show "normalize_project_id (m_project_id (f m)) = m_project_id (f m)" "m_project_id (f m) \<noteq> []"
    using assms(1,7) get_shareD [OF assms(2)] by (auto simp: shares_ok_def)
  show "separate (f m) x" if "x \<in> set (shares db)" "m_id x \<noteq> i" for x
    using assms(1) get_shareD [OF assms(2)] that separate_core [OF assms(5,6,7)] by (auto simp: shares_ok_def)
qed

lemma validate_share_ok:
  assumes "validate_share e p i db = (db', calls, r)" "shares_ok db"
  shows "shares_ok db'"
proof (cases "get_share i db")
  case None
  with assms show ?thesis by (simp add: validate_share_def)
next
  case (Some m)
  have "shares_ok (set_share i (\<lambda>_. m\<lparr>m_status := s, m_last_checked_at := t\<rparr>) db)" for s t
    using get_shareD [OF Some] by (intro shares_ok_touch [OF assms(2) Some]) auto
  with assms Some show ?thesis
    by (auto simp: validate_share_def audit_mount_validated_def Let_def split: prod.splits attempt.splits if_splits)
qed

lemma validate_shares_ok:
  "validate_shares e p is db = (db', calls, r) \<Longrightarrow> shares_ok db \<Longrightarrow> shares_ok db'"
proof (induction e p "is" db arbitrary: db' calls r rule: validate_shares.induct)
  case (2 e p i "is" db)
  obtain db1 c1 r1 where v: "validate_share e p i db = (db1, c1, r1)" by (metis surj_pair)
  have ok: "shares_ok db1" using validate_share_ok [OF v 2(3)] .
  show ?case
  proof (cases r1)
    case (Inl err)
    with 2(2) v ok show ?thesis by simp
  next
    case (Inr m)
    obtain db2 c2 r2 where v2: "validate_shares e p is db1 = (db2, c2, r2)" by (metis surj_pair)
    from 2(1) [OF _ _ _ v2 ok] v Inr have "shares_ok db2" by simp
    with 2(2) v Inr v2 show ?thesis by (cases r2) auto
  qed
qed simp

lemma validate_share_update_shares:
  assumes "validate_share_update e p i b db = (db', calls, r)"
  shows "shares db' = shares db \<or> shares db' = shares (set_share i (\<lambda>m. m\<lparr>m_last_checked_at := Some (e_now e)\<rparr>) db)"
proof (cases "get_share i db")
  case None
  with assms show ?thesis by (simp add: validate_share_update_def)
next
  case (Some m)
  let ?o = "sp_check p 0 (m_local_mount_point m) = Some True \<or> m_status m = MOUNTED"
  obtain c1 t where t: "try_candidate p b ?o m = (c1, t)" by fastforce
  obtain c2 u where u: "restore_mount p 1 1 m (m_type m) (m_remote_path m) ?o = (c2, u)" by fastforce
  show ?thesis
    using assms audited_frame(4) [OF best_effort_audited]
    unfolding validate_share_update_def Some option.case Let_def t u prod.case audit_mount_validated_def
    by (cases t; cases u) (auto split: if_splits option.splits prod.splits)
qed

lemma validate_share_update_ok:
  assumes "validate_share_update e p i b db = (db', calls, r)" "shares_ok db"
  shows "shares_ok db'"
proof (cases "get_share i db")
  case None
  with assms show ?thesis by (simp add: validate_share_update_def)
next
  case (Some m)
  have "shares_ok (set_share i (\<lambda>m. m\<lparr>m_last_checked_at := Some (e_now e)\<rparr>) db)"
    using get_shareD [OF Some] by (intro shares_ok_touch [OF assms(2) Some]) auto
  then show ?thesis using validate_share_update_shares [OF assms(1)] assms(2) shares_ok_cong by metis
qed

section \<open>Histories of share requests\<close>

inductive share_step :: "db \<Rightarrow> share_effect list \<Rightarrow> db \<Rightarrow> bool" where
  "add_share e cfg p b db = (db', calls, r) \<Longrightarrow> share_step db calls db'"
| "update_share e cfg p i b db = (db', calls, r) \<Longrightarrow> share_step db calls db'"
| "remove_share e cfg p i db = (db', calls, r') \<Longrightarrow> share_step db calls db'"
| "validate_share e p i db = (db', calls, r) \<Longrightarrow> share_step db calls db'"
| "validate_shares e p is db = (db', calls, rs) \<Longrightarrow> share_step db calls db'"
| "validate_share_update e p i b db = (db', calls, r) \<Longrightarrow> share_step db calls db'"
| "validate_share_candidate e cfg p b db = (db', calls, rc) \<Longrightarrow> share_step db calls db'"
| "discover_shares e ask t remote db = (db', calls, rd) \<Longrightarrow> share_step db calls db'"

lemma validate_share_candidate_shares:
  assumes "validate_share_candidate e cfg p b db = (db', calls, r)"
  shows "shares db' = shares db"
proof -
  define m where "m = new_share cfg b (normalize_project_id (sb_project_id b)) 0 (candidate_mount_point cfg b db)"
  obtain c1 t where t: "try_new_share cfg p b m = (c1, t)" by fastforce
  obtain c2 u where u: "restore_mount p 2 9 m (sb_type b) (sb_remote_path b) False = (c2, u)" by fastforce
  show ?thesis
    using assms audited_frame(4) [OF best_effort_audited]
    unfolding validate_share_candidate_def Let_def m_def [symmetric] t u prod.case
    by (cases t; cases u) (auto split: if_splits option.splits prod.splits)
qed

lemma discover_shares_shares: "discover_shares e ask t remote db = (db', calls, r) \<Longrightarrow> shares db' = shares db"
  using audited_frame(4) [OF best_effort_audited] unfolding discover_shares_def Let_def
  by (auto split: option.splits discovery_answer.splits)

lemma share_step_ok: "share_step db calls db' \<Longrightarrow> shares_ok db \<Longrightarrow> shares_ok db'"
  by (induction rule: share_step.induct)
    (auto intro: add_share_ok update_share_ok remove_share_ok validate_share_ok validate_shares_ok validate_share_update_ok
      dest!: validate_share_candidate_shares discover_shares_shares shares_ok_cong)

text \<open>Share requests write the table of shares and the audit log only.\<close>

definition shares_only :: "db \<Rightarrow> db \<Rightarrow> bool" where
  "shares_only db db' \<longleftrightarrow> db'\<lparr>shares := shares db, audits := audits db\<rparr> = db"

lemma shares_only_simps [simp]:
  "shares_only db db" "shares_only db (set_share i f db)" "shares_only db (db\<lparr>shares := ms\<rparr>)"
  "shares_only db (best_effort_audit e a p d j ds w) = shares_only db w"
  by (simp_all add: shares_only_def set_share_def best_effort_audit_def audit_add_def audit_add_uncommitted_def Let_def)

lemma shares_only_trans: "shares_only a b \<Longrightarrow> shares_only b c \<Longrightarrow> shares_only a c"
  unfolding shares_only_def by (cases a; cases b; cases c) auto

lemma add_share_only:
  assumes "add_share e cfg p b db = (db', calls, r)"
  shows "shares_only db db'"
proof -
  obtain c1 a where at: "attempt_mount p 0 (sb_type b) (sb_remote_path b) (candidate_mount_point cfg b db)
      (resolve_mount_operation_credentials p (apply_encrypted_mount_credentials p False b (new_share cfg b (normalize_project_id (sb_project_id b))
        (next_id m_id (shares db)) (candidate_mount_point cfg b db))) b)
      (m_nfs_client_version (apply_encrypted_mount_credentials p False b (new_share cfg b (normalize_project_id (sb_project_id b))
        (next_id m_id (shares db)) (candidate_mount_point cfg b db)))) = (c1, a)" by fastforce
  show ?thesis using assms unfolding add_share_def Let_def at prod.case audit_mount_added_def
    by (cases a) (auto split: if_splits option.splits)
qed

lemma update_share_only:
  assumes "update_share e cfg p i b db = (db', calls, r)"
  shows "shares_only db db'"
proof (cases "get_share i db")
  case None
  with assms show ?thesis by (auto simp: update_share_def Let_def split: if_splits)
next
  case (Some m)
  define m1 where "m1 = updated_share e cfg p b (normalize_project_id (sb_project_id b)) m"
  obtain c1 s1 where pm: "prepare_mount_for_update p m1 = (c1, s1)" by fastforce
  obtain c2 a where at: "attempt_mount p 0 (sb_type b) (sb_remote_path b) (m_local_mount_point m1)
      (resolve_mount_operation_credentials p m1 b) (m_nfs_client_version m1) = (c2, a)" by fastforce
  show ?thesis
    using assms unfolding update_share_def Let_def Some option.case m1_def [symmetric] pm at prod.case audit_mount_updated_def
    by (cases s1; cases a) (auto split: if_splits option.splits)
qed

lemma validate_share_only:
  assumes "validate_share e p i db = (db', calls, r)"
  shows "shares_only db db'"
  using assms by (auto simp: validate_share_def audit_mount_validated_def Let_def split: option.splits prod.splits attempt.splits if_splits)

lemma validate_shares_only: "validate_shares e p is db = (db', calls, r) \<Longrightarrow> shares_only db db'"
proof (induction e p "is" db arbitrary: db' calls r rule: validate_shares.induct)
  case (2 e p i "is" db)
  obtain db1 c1 r1 where v: "validate_share e p i db = (db1, c1, r1)" by (metis surj_pair)
  note ok = validate_share_only [OF v]
  show ?case
  proof (cases r1)
    case (Inl err)
    with 2(2) v ok show ?thesis by simp
  next
    case (Inr m)
    obtain db2 c2 r2 where v2: "validate_shares e p is db1 = (db2, c2, r2)" by (metis surj_pair)
    from 2(1) [OF _ _ _ v2] v Inr have "shares_only db1 db2" by simp
    with ok have "shares_only db db2" by (rule shares_only_trans)
    with 2(2) v Inr v2 show ?thesis by (cases r2) auto
  qed
qed simp

lemma validate_share_update_only:
  assumes "validate_share_update e p i b db = (db', calls, r)"
  shows "shares_only db db'"
proof (cases "get_share i db")
  case None
  with assms show ?thesis by (simp add: validate_share_update_def)
next
  case (Some m)
  let ?o = "sp_check p 0 (m_local_mount_point m) = Some True \<or> m_status m = MOUNTED"
  obtain c1 t where t: "try_candidate p b ?o m = (c1, t)" by fastforce
  obtain c2 u where u: "restore_mount p 1 1 m (m_type m) (m_remote_path m) ?o = (c2, u)" by fastforce
  show ?thesis
    using assms unfolding validate_share_update_def Some option.case Let_def t u prod.case audit_mount_validated_def
    by (cases t; cases u) (auto split: if_splits option.splits prod.splits)
qed

lemma validate_share_candidate_only:
  assumes "validate_share_candidate e cfg p b db = (db', calls, r)"
  shows "shares_only db db'"
proof -
  define m where "m = new_share cfg b (normalize_project_id (sb_project_id b)) 0 (candidate_mount_point cfg b db)"
  obtain c1 t where t: "try_new_share cfg p b m = (c1, t)" by fastforce
  obtain c2 u where u: "restore_mount p 2 9 m (sb_type b) (sb_remote_path b) False = (c2, u)" by fastforce
  show ?thesis
    using assms unfolding validate_share_candidate_def Let_def m_def [symmetric] t u prod.case
    by (cases t; cases u) (auto split: if_splits option.splits prod.splits)
qed

lemma share_step_only: "share_step db calls db' \<Longrightarrow> shares_only db db'"
proof (induction rule: share_step.induct)
  case (3 e cfg p i db db' calls r')
  then show ?case unfolding remove_share_def Let_def
    by (auto simp: shares_only_def best_effort_audit_def audit_add_def audit_add_uncommitted_def Let_def split: if_splits option.splits)
next
  case (8 e ask t remote db db' calls rd)
  then show ?case unfolding discover_shares_def Let_def by (auto split: option.splits discovery_answer.splits)
qed (auto dest: add_share_only update_share_only validate_share_only validate_shares_only validate_share_update_only
    validate_share_candidate_only)

text \<open>C11. Remote data of different projects stays apart: along every sequence of share requests, in any order and with any answers of
  the host, two different shares never name the same remote directory, overlapping remote directories always belong to
  one project, and no two shares have the same mount point.\<close>

theorem share_isolation:
  assumes "(\<lambda>a b. \<exists>calls. share_step a calls b)\<^sup>*\<^sup>* db db'" "shares_ok db"
  shows "distinct (map m_local_mount_point (shares db')) \<and>
    (\<forall>m\<in>set (shares db'). \<forall>m'\<in>set (shares db'). m_id m \<noteq> m_id m' \<longrightarrow> remote_reference m \<noteq> remote_reference m' \<and>
       (overlapping (remote_reference m) (remote_reference m') \<longrightarrow> m_project_id m = m_project_id m'))"
proof -
  have "shares_ok db'" using assms by (induction rule: rtranclp_induct) (auto intro: share_step_ok)
  then show ?thesis unfolding shares_ok_def separate_def by blast
qed

section \<open>Adding, removing, validating\<close>

lemma add_share_call:
  assumes "add_share e cfg p b db = (db', calls, Inr m)" "m_status m = MOUNTED"
  shows "\<exists>c err leaf. calls = [Share_mount (sb_type b) (sb_remote_path b) (m_local_mount_point m) c (m_nfs_client_version m)] \<and>
    sp_mount p 0 (sb_type b) (sb_remote_path b) (m_local_mount_point m) c (m_nfs_client_version m) = Inr (True, err) \<and>
    m_local_mount_point m \<notin> m_local_mount_point ` set (shares db) \<and>
    m_local_mount_point m = managed_network_mount_root (scf_network_mount_base_path cfg) @ [sep] @ leaf \<and> comp_ok leaf \<and> leaf \<noteq> dotdot \<and>
    shares db' = shares db @ [m]"
proof -
  define project where "project = normalize_project_id (sb_project_id b)"
  define m0 where "m0 = apply_encrypted_mount_credentials p False b
    (new_share cfg b project (next_id m_id (shares db)) (candidate_mount_point cfg b db))"
  let ?mp = "candidate_mount_point cfg b db"
  have mp: "m_local_mount_point m0 = ?mp" by (simp add: m0_def new_share_def)
  have gate: "project \<noteq> []" "validate_remote_path_conflicts b project None db = None" "?mp \<notin> set (map m_local_mount_point (shares db))"
    "e_db_ok e ''share_add''"
    using assms(1) unfolding add_share_def Let_def project_def [symmetric] by (auto split: if_splits option.splits)
  obtain c1 a where at: "attempt_mount p 0 (sb_type b) (sb_remote_path b) ?mp (resolve_mount_operation_credentials p m0 b)
      (m_nfs_client_version m0) = (c1, a)" by fastforce
  have r: "m = m0\<lparr>m_status := attempt_status a\<rparr>" "calls = c1" "e_db_ok e ''share_save'' \<or> (\<exists>msg. a = Attempt_raised msg)"
    "e_db_ok e ''share_save'' \<Longrightarrow> shares db' = shares db @ [m]"
    using assms(1) gate at audited_frame(4) [OF best_effort_audited]
    unfolding add_share_def Let_def project_def [symmetric] m0_def [symmetric] audit_mount_added_def
    by (cases a; auto split: if_splits)+
  obtain err where a: "a = Attempted True err" using r(1) assms(2) by (auto simp: attempt_status_def split: attempt.splits bool.splits)
  with at obtain c where c: "c1 = [Share_mount (sb_type b) (sb_remote_path b) ?mp c (m_nfs_client_version m0)]"
    "sp_mount p 0 (sb_type b) (sb_remote_path b) ?mp c (m_nfs_client_version m0) = Inr (True, err)"
    unfolding attempt_mount_def by (auto split: option.splits sum.splits)
  obtain leaf where "?mp = managed_network_mount_root (scf_network_mount_base_path cfg) @ [sep] @ leaf" "comp_ok leaf" "leaf \<noteq> dotdot"
    using generated_mount_point unfolding candidate_mount_point_def by blast
  with c r a gate(3) mp show ?thesis by auto
qed

text \<open>A share is reported mounted only if it is: a new share that is returned and saved as mounted was mounted by exactly one call,
  with the requested protocol, remote path and credentials, on a fresh direct child of the managed directory, and the host
  confirmed it.\<close>

theorem add_share_mounted:
  assumes "add_share e cfg p b db = (db', calls, Inr m)" "m_status m = MOUNTED"
  shows "\<exists>c err leaf. calls = [Share_mount (sb_type b) (sb_remote_path b) (m_local_mount_point m) c (m_nfs_client_version m)] \<and>
    sp_mount p 0 (sb_type b) (sb_remote_path b) (m_local_mount_point m) c (m_nfs_client_version m) = Inr (True, err) \<and>
    m_local_mount_point m \<notin> m_local_mount_point ` set (shares db) \<and>
    m_local_mount_point m = managed_network_mount_root (scf_network_mount_base_path cfg) @ [sep] @ leaf \<and> comp_ok leaf \<and> leaf \<noteq> dotdot \<and>
    shares db' = shares db @ [m]"
  using assms by (rule add_share_call)


lemma restore_mount_calls:
  assumes "restore_mount p k n m t remote mounted = (calls, u)" "x \<in> set calls"
  shows "x = Share_unmount (m_local_mount_point m) \<or> mounted \<and> (\<exists>c. x = Share_mount t remote (m_local_mount_point m) c None)"
  using assms unfolding restore_mount_def Let_def by (auto split: if_splits option.splits sum.splits)

lemma the_truthy: "truthy v \<Longrightarrow> the v \<noteq> []"
  by (cases v) auto

lemma unmount_error_text: "unmount_error p k mp = Some msg \<Longrightarrow> msg \<noteq> []"
  by (auto simp: unmount_error_def Let_def dest: the_truthy split: sum.splits prod.splits bool.splits if_splits)

lemma restore_error_text:
  assumes "restore_mount p k n m t remote mounted = (calls, Inr (Some msg))"
  shows "msg \<noteq> []"
  using assms unfolding restore_mount_def Let_def
  by (auto split: if_splits option.splits sum.splits bool.splits dest: the_truthy unmount_error_text)

lemma restore_mount_last:
  assumes "restore_mount p k n m t remote True = (calls, Inr None)"
  shows "\<exists>pre c err. calls = pre @ [Share_mount t remote (m_local_mount_point m) c None] \<and>
    sp_mount p n t remote (m_local_mount_point m) c None = Inr (True, err)"
  using assms unfolding restore_mount_def Let_def by (auto split: if_splits option.splits sum.splits bool.splits)

text \<open>Trying out a change does not make it: validating a change of a share leaves every share as it was apart from the time of
  the check, whatever the outcome; and if the validation succeeds and the share was mounted, the last thing that happened on
  the host was a successful mount of the original remote path.\<close>

theorem validate_share_update_restores:
  assumes "validate_share_update e p i b db = (db', calls, r)" "get_share i db = Some m"
  shows "(shares db' = shares db \<or> shares db' = shares (set_share i (\<lambda>m. m\<lparr>m_last_checked_at := Some (e_now e)\<rparr>) db)) \<and>
    (\<forall>v. r = Inr v \<and> (m_status m = MOUNTED \<or> sp_check p 0 (m_local_mount_point m) = Some True) \<longrightarrow>
       (\<exists>pre c err. calls = pre @ [Share_mount (m_type m) (m_remote_path m) (m_local_mount_point m) c None] \<and>
          sp_mount p 1 (m_type m) (m_remote_path m) (m_local_mount_point m) c None = Inr (True, err)))"
proof -
  let ?o = "sp_check p 0 (m_local_mount_point m) = Some True \<or> m_status m = MOUNTED"
  obtain c1 t where t: "try_candidate p b ?o m = (c1, t)" by fastforce
  obtain c2 u where u: "restore_mount p 1 1 m (m_type m) (m_remote_path m) ?o = (c2, u)" by fastforce
  have "\<exists>pre c err. calls = pre @ [Share_mount (m_type m) (m_remote_path m) (m_local_mount_point m) c None] \<and>
      sp_mount p 1 (m_type m) (m_remote_path m) (m_local_mount_point m) c None = Inr (True, err)"
    if v: "r = Inr v" "?o" for v
  proof -
    from assms v(1) obtain q where q: "u = Inr q" "\<not> truthy q" "calls = c1 @ c2"
      unfolding validate_share_update_def assms(2) option.case Let_def t u prod.case
      by (cases t; cases u) (auto split: if_splits option.splits prod.splits)
    have "q = None"
      using q(1,2) u by (cases q) (auto dest: restore_error_text)
    with q u v(2) restore_mount_last [of p 1 1 m "m_type m" "m_remote_path m" c2]
    obtain pre c err where "c2 = pre @ [Share_mount (m_type m) (m_remote_path m) (m_local_mount_point m) c None]"
      "sp_mount p 1 (m_type m) (m_remote_path m) (m_local_mount_point m) c None = Inr (True, err)" by auto
    with q(3) show ?thesis by (intro exI [of _ "c1 @ pre"]) auto
  qed
  with validate_share_update_shares [OF assms(1)] show ?thesis by blast
qed

section \<open>Credentials\<close>

definition nonblank :: "string option option \<Rightarrow> string option" where
  "nonblank v = (case given v of None \<Rightarrow> None | Some x \<Rightarrow> if x = [] then None else Some x)"

lemma secret_roundtrip:
  assumes "\<And>x. sp_decrypt p (sp_encrypt p x) = Some x" "\<And>x. sp_encrypt p x \<noteq> []"
  shows "decrypt_mount_secret p (encrypt_mount_secret p (given v)) = Some (nonblank v)"
  using assms by (auto simp: decrypt_mount_secret_def encrypt_mount_secret_def nonblank_def split: option.splits)

text \<open>Stored credentials come back unchanged: whatever user name, password and credentials file a share was created with, a later
  validation mounts it with exactly these, given a cipher that decrypts what it encrypted.\<close>

theorem credentials_roundtrip:
  assumes "\<And>x. sp_decrypt p (sp_encrypt p x) = Some x" "\<And>x. sp_encrypt p x \<noteq> []"
  shows "stored_or_none p (apply_encrypted_mount_credentials p False b m) =
    Inr \<lparr>cr_username = nonblank (sb_username b), cr_password = nonblank (sb_password b), cr_credentials_file = nonblank (sb_credentials_file b)\<rparr>"
proof -
  let ?m = "apply_encrypted_mount_credentials p False b m"
  note r = secret_roundtrip [of p, OF assms]
  have load: "load_stored_mount_credentials p ?m =
      Inr \<lparr>cr_username = nonblank (sb_username b), cr_password = nonblank (sb_password b), cr_credentials_file = nonblank (sb_credentials_file b)\<rparr>"
    by (simp add: load_stored_mount_credentials_def apply_encrypted_mount_credentials_def encrypted_field_def r)
  have "nonblank v = None" if "\<not> truthy (encrypt_mount_secret p (given v))" for v
    using that assms(2) by (auto simp: nonblank_def encrypt_mount_secret_def split: option.splits if_splits)
  with load show ?thesis
    by (auto simp: stored_or_none_def stored_credentials_present_def no_credentials_def apply_encrypted_mount_credentials_def encrypted_field_def)
qed

lemma attach_related_shares: "map fst (attach_related_job_contexts e custody db ms) = ms"
  by (simp add: attach_related_job_contexts_def Let_def comp_def)

text \<open>Paths are shown to those who may see them: a listing for a user without the role of an administrator or manager has every share
  and no remote path or mount point of any of them.\<close>

theorem list_shares_redacted:
  "if ''admin'' \<in> set roles \<or> ''manager'' \<in> set roles then map fst (list_shares e custody roles db) = shares db
   else map (\<lambda>x. m_id (fst x)) (list_shares e custody roles db) = map m_id (shares db) \<and>
     (\<forall>x\<in>set (list_shares e custody roles db). m_remote_path (fst x) = redacted_mount_path \<and> m_local_mount_point (fst x) = redacted_mount_path)"
proof -
  let ?ms = "attach_related_job_contexts e custody db (shares db)"
  have "map (\<lambda>x. m_id (fst x)) ?ms = map m_id (shares db)"
    using arg_cong [OF attach_related_shares [of e custody db "shares db"], of "map m_id"] by (simp add: comp_def)
  then show ?thesis
    by (auto simp: list_shares_def Let_def can_view_mount_paths_def mount_path_viewer_roles_def list_ex_iff redact_mount_paths_def
        attach_related_shares comp_def case_prod_beta)
qed

text \<open>The job shown with a share is a job of its project, never an archived one, and no newer job of the project is left out.\<close>

theorem related_job_newest:
  assumes "(m, x) \<in> set (attach_related_job_contexts e custody db ms)" "srj_job_id x = Some i"
    "normalize_project_id (m_project_id m) = m_project_id m" "\<forall>j\<in>set (jobs db). normalize_project_id (j_project_id j) = j_project_id j"
  shows "\<exists>j\<in>set (jobs db). j_id j = i \<and> j_project_id j = m_project_id m \<and> srj_status x = Related_status (j_status j) \<and>
    j_status j \<noteq> ARCHIVED \<and>
    (\<forall>k\<in>set (jobs db). j_project_id k = m_project_id m \<and> j_status k \<noteq> ARCHIVED \<longrightarrow> (j_created_at k, j_id k) \<le> (j_created_at j, j_id j))"
proof -
  define projects where "projects = filter (\<lambda>p. p \<noteq> []) (map (\<lambda>m. normalize_project_id (m_project_id m)) ms)"
  let ?rows = "related_job_rows projects db" and ?P = "\<lambda>j. normalize_project_id (j_project_id j) \<noteq> [] \<and>
    normalize_project_id (j_project_id j) = normalize_project_id (m_project_id m)"
  from assms(1,2) obtain j where j: "find ?P ?rows = Some j" "x = related_job_of (related_custody custody ?rows) j" "m \<in> set ms"
    by (auto simp: attach_related_job_contexts_def Let_def projects_def [symmetric] no_related_job_def related_unavailable_def
        split: if_splits option.splits)
  from j(1) obtain n where n: "n < length ?rows" "?P (?rows ! n)" "j = ?rows ! n" "\<forall>l<n. \<not> ?P (?rows ! l)"
    by (auto simp: find_Some_iff)
  have row: "j \<in> set ?rows" using n by simp
  have sorted: "sorted_wrt (\<lambda>a b. (j_created_at b, j_id b) \<le> (j_created_at a, j_id a)) ?rows"
    using sorted_sort_key [of "\<lambda>j. (j_created_at j, j_id j)" "filter (\<lambda>j. j_project_id j \<in> set projects \<and> j_status j \<noteq> ARCHIVED) (jobs db)"]
    by (simp add: related_job_rows_def sorted_wrt_rev sorted_map)
  have "(j_created_at k, j_id k) \<le> (j_created_at j, j_id j)"
    if k: "k \<in> set (jobs db)" "j_project_id k = m_project_id m" "j_status k \<noteq> ARCHIVED" for k
  proof -
    have "?P k" using k n(2,3) assms(3,4) row by (auto simp: related_job_rows_def)
    moreover have "m_project_id m \<in> (\<lambda>m. normalize_project_id (m_project_id m)) ` set ms"
      using j(3) assms(3) by (metis imageI)
    ultimately have "k \<in> set ?rows" using k assms(3) by (auto simp: related_job_rows_def projects_def)
    then obtain l where l: "l < length ?rows" "?rows ! l = k" by (auto simp: in_set_conv_nth)
    with \<open>?P k\<close> n(4) have "n \<le> l" by (meson not_le)
    then show ?thesis using sorted_wrt_nth_less [OF sorted, of n l] l n(3) by (cases "n = l") auto
  qed
  moreover have "j \<in> set (jobs db)" "j_status j \<noteq> ARCHIVED" using row by (auto simp: related_job_rows_def)
  moreover have "j_project_id j = m_project_id m" using n(2,3) assms(3,4) \<open>j \<in> set (jobs db)\<close> by auto
  ultimately show ?thesis using assms(2) j(2) by (intro bexI [of _ j]) (auto simp: related_job_of_def)
qed

section \<open>Where the code does not do what it means to\<close>

text \<open>The client version of a request is not what its validation tries: the candidate is mounted with the stored version.\<close>

theorem validation_ignores_requested_version:
  assumes "try_candidate p b mounted m = (calls, r)" "Share_mount t remote mp c v \<in> set calls"
  shows "v = m_nfs_client_version m"
  using assms unfolding try_candidate_def prepare_mount_for_update_def attempt_mount_def
  by (auto split: if_splits option.splits sum.splits prod.splits attempt.splits)

text \<open>After a validation the original share is remounted without its configured client version.\<close>

theorem restore_loses_version:
  assumes "restore_mount p k n m t remote mounted = (calls, r)" "Share_mount t' remote' mp c v \<in> set calls"
  shows "v = None"
  using restore_mount_calls [OF assms] by auto

text \<open>A share that the host has mounted but the record has not is not unmounted before the candidate is mounted over it, and is
  then mounted a second time.\<close>

theorem validation_mounts_twice:
  assumes "m_status m \<noteq> MOUNTED" "try_candidate p b True m = (calls, r)"
  shows "Share_unmount mp \<notin> set calls"
  using assms unfolding try_candidate_def prepare_mount_for_update_def attempt_mount_def
  by (auto split: if_splits option.splits sum.splits prod.splits attempt.splits)

text \<open>The removal is audited before the row is deleted: if the deletion fails, the audit says that a share was removed which is still
  configured.\<close>

theorem removal_audited_too_early:
  assumes "remove_share e cfg p i db = (db', calls, Inl Share_db_error)" "get_share i db = Some m" "e_db_ok e ''MOUNT_REMOVED''"
  shows "shares db' = shares db \<and> length (audits db') = Suc (length (audits db))"
  using assms unfolding remove_share_def Let_def
  by (auto simp: best_effort_audit_def audit_add_def audit_add_uncommitted_def Let_def split: if_splits option.splits)

end
