(* ===== verification/Share_Examples.thy ===== *)
theory Share_Examples
  imports Share_Safety
begin

text \<open>Share requests on a concrete installation: the hypotheses of the properties of the share service can be met.\<close>

section \<open>An installation with one mounted share\<close>

definition example_share_provider :: share_provider where
  "example_share_provider =
     \<lparr>sp_check = (\<lambda>_ _. None), sp_mount = (\<lambda>_ _ _ _ _ _. Inr (True, None)), sp_elapsed = (\<lambda>_. 1),
      sp_unmount = (\<lambda>_ _. Inr (True, None)), sp_directory_error = (\<lambda>_. Inr None), sp_owner_error = (\<lambda>_. Inr None),
      sp_encrypt = (\<lambda>s. CHR ''#'' # s), sp_decrypt = (\<lambda>s. case s of [] \<Rightarrow> None | _ # r \<Rightarrow> Some r)\<rparr>"

definition example_share_config :: share_config where
  "example_share_config = \<lparr>scf_network_mount_base_path = ''/'', scf_nfs_client_version = None, scf_cwd = ''/opt''\<rparr>"

definition example_body :: "string \<Rightarrow> string \<Rightarrow> share_body" where
  "example_body remote project =
     \<lparr>sb_type = NFS, sb_remote_path = remote, sb_project_id = project, sb_nfs_client_version = None, sb_username = Some (Some ''u''),
      sb_password = None, sb_credentials_file = None\<rparr>"

definition share_db :: db where
  "share_db = empty_db\<lparr>shares := [example_share]\<rparr>"

definition example_add :: "network_share share_result" where
  "example_add = add_share example_env example_share_config example_share_provider (example_body ''srv:/y/z'' ''p2'') share_db"

lemma share_db_ok: "shares_ok share_db"
  by (simp add: shares_ok_def share_db_def empty_db_def example_share_def pk_ok_def example_names)

lemma example_add_ok: "\<exists>m. snd (snd example_add) = Inr m \<and> m_status m = MOUNTED \<and> m_nfs_client_version m = None"
proof -
  have "case snd (snd example_add) of Inl _ \<Rightarrow> False | Inr m \<Rightarrow> m_status m = MOUNTED \<and> m_nfs_client_version m = None" by code_simp
  then show ?thesis by (auto split: sum.splits)
qed

lemma example_add_shares: "map m_id (shares (fst example_add)) = [1, 2]"
  by code_simp

section \<open>Witnesses\<close>

theorem share_isolation_witness:
  "\<exists>m. map m_id (shares (fst example_add)) = [1, 2] \<and> m \<in> set (shares (fst example_add)) \<and> m_project_id m = ''P1'' \<and>
     (\<forall>m'\<in>set (shares (fst example_add)). m_project_id m' = ''P2'' \<longrightarrow> \<not> overlapping (remote_reference m) (remote_reference m'))"
proof -
  obtain db' calls r where a: "example_add = (db', calls, r)" by (metis surj_pair)
  then have d: "fst example_add = db'" by (metis fst_conv)
  have "share_step share_db calls db'" using a unfolding example_add_def by (rule share_step.intros(1))
  then have "(\<lambda>a b. \<exists>calls. share_step a calls b)\<^sup>*\<^sup>* share_db db'" by (intro r_into_rtranclp) blast
  note iso = share_isolation [OF this share_db_ok]
  obtain m where m: "m \<in> set (shares db')" "m_id m = 1" "m_project_id m = ''P1''"
  proof -
    have "list_ex (\<lambda>m. m_id m = 1 \<and> m_project_id m = ''P1'') (shares (fst example_add))" by code_simp
    then show ?thesis using that unfolding d list_ex_iff by blast
  qed
  have "list_all (\<lambda>m. m_project_id m = ''P2'' \<longrightarrow> m_id m \<noteq> 1) (shares (fst example_add))" by code_simp
  then have two: "m_id m' \<noteq> 1" if "m' \<in> set (shares db')" "m_project_id m' = ''P2''" for m'
    using that unfolding d list_all_iff by blast
  have "\<not> overlapping (remote_reference m) (remote_reference m')" if "m' \<in> set (shares db')" "m_project_id m' = ''P2''" for m'
    using iso m that two [OF that] by fastforce
  then show ?thesis using m example_add_shares unfolding d by (intro exI [of _ m]) simp
qed

theorem add_share_mounted_witness:
  "\<exists>m c. snd (snd example_add) = Inr m \<and>
     fst (snd example_add) = [Share_mount NFS ''srv:/y/z'' (m_local_mount_point m) c None] \<and> m_local_mount_point m \<noteq> ''/nfs/p1''"
proof -
  obtain m where m: "snd (snd example_add) = Inr m" "m_status m = MOUNTED" "m_nfs_client_version m = None"
    using example_add_ok by blast
  obtain db' calls where a: "example_add = (db', calls, Inr m)" using m(1) by (metis prod.collapse)
  then have c: "fst (snd example_add) = calls" by (metis fst_conv snd_conv)
  from add_share_mounted [OF a [unfolded example_add_def] m(2)] m(1,3) show ?thesis
    unfolding c by (auto simp: example_body_def share_db_def example_share_def)
qed


theorem validate_share_update_restores_witness:
  "\<exists>v pre c. snd (snd (validate_share_update example_env example_share_provider 1 (example_body ''srv:/y'' ''p1'') share_db)) = Inr v \<and>
     fst (snd (validate_share_update example_env example_share_provider 1 (example_body ''srv:/y'' ''p1'') share_db)) =
       pre @ [Share_mount NFS ''srv:/x'' ''/nfs/p1'' c None]"
proof -
  let ?x = "validate_share_update example_env example_share_provider 1 (example_body ''srv:/y'' ''p1'') share_db"
  have "\<not> isl (snd (snd ?x))" by code_simp
  then obtain v where v: "snd (snd ?x) = Inr v" by (cases "snd (snd ?x)") auto
  have g: "get_share 1 share_db = Some example_share" by (simp add: get_share_def share_db_def empty_db_def example_share_def row_simps)
  have x: "?x = (fst ?x, fst (snd ?x), snd (snd ?x))" by simp
  show ?thesis using validate_share_update_restores [OF x g] v by (auto simp: example_share_def)
qed

theorem credentials_roundtrip_witness:
  "stored_or_none example_share_provider (apply_encrypted_mount_credentials example_share_provider False (example_body ''srv:/y'' ''p1'') example_share) =
     Inr \<lparr>cr_username = Some ''u'', cr_password = None, cr_credentials_file = None\<rparr>"
proof -
  have "sp_decrypt example_share_provider (sp_encrypt example_share_provider x) = Some x" "sp_encrypt example_share_provider x \<noteq> []" for x
    by (simp_all add: example_share_provider_def)
  from credentials_roundtrip [OF this] show ?thesis by (simp add: nonblank_def given_def example_body_def)
qed

theorem list_shares_redacted_witness:
  "\<forall>x\<in>set (list_shares example_env (\<lambda>_. None) [''processor''] share_db). m_remote_path (fst x) = ''[REDACTED]''"
  using list_shares_redacted [of "[''processor'']" example_env "\<lambda>_. None" share_db] by (auto simp: redacted_mount_path_def)

definition related_share_db :: db where
  "related_share_db = share_db\<lparr>jobs := [example_job 1 RUNNING, (example_job 2 PAUSED)\<lparr>j_created_at := 70\<rparr>]\<rparr>"

theorem related_job_newest_witness:
  "\<exists>j\<in>set (jobs related_share_db). j_id j = 2 \<and> j_project_id j = ''P1'' \<and>
     (\<forall>k\<in>set (jobs related_share_db). j_project_id k = ''P1'' \<and> j_status k \<noteq> ARCHIVED \<longrightarrow> (j_created_at k, j_id k) \<le> (j_created_at j, j_id j))"
proof -
  let ?l = "attach_related_job_contexts example_env (\<lambda>_. None) related_share_db [example_share]"
  have "map (\<lambda>x. srj_job_id (snd x)) ?l = [Some 2] \<and> map fst ?l = [example_share]" by code_simp
  then obtain x where x: "?l = [(example_share, x)]" "srj_job_id x = Some 2" by auto
  have "\<forall>j\<in>set (jobs related_share_db). normalize_project_id (j_project_id j) = j_project_id j" by code_simp
  moreover have "normalize_project_id (m_project_id example_share) = m_project_id example_share" by code_simp
  ultimately show ?thesis
    using related_job_newest [of example_share x example_env "\<lambda>_. None" related_share_db "[example_share]" 2] x
    by (auto simp: example_share_def)
qed

end
