(* ===== verification/Share_Provider.thy ===== *)
theory Share_Provider
  imports Share_Examples
begin

text \<open>
  The Linux provider of network mounts (\<open>LinuxShareProvider\<close> and the directory helpers of
  \<open>app/services/share_service.py\<close>): the commands it runs, the temporary file with the SMB credentials, the
  preparation of the mount directory, and the parsing of the discovery tools. The host is an argument: the answer to a
  command may depend on the commands run before it.
\<close>

section \<open>The host\<close>

type_synonym command = "string list"

datatype cmd_answer = Exited int string string | Timed_out string | Not_started bool string

text \<open>The flag of a command that did not start tells whether its file is missing.\<close>

datatype host_effect = Run command | Temp_write string string | Temp_remove string

datatype directory_answer = Dir_ok | Dir_denied string | Dir_failed string

record host =
  ho_use_sudo :: bool
  ho_root :: bool
  ho_uid :: int
  ho_owner_spec :: string
  ho_base_path :: string
  ho_default_nfs_version :: "string option"
  ho_mount_binary :: string
  ho_umount_binary :: string
  ho_mountpoint_binary :: string
  ho_mount_nfs :: "string option"
  ho_showmount :: "string option"
  ho_smbclient :: "string option"
  ho_run :: "command list \<Rightarrow> command \<Rightarrow> cmd_answer"
  ho_mkstemp :: "string + string"
  ho_temp_error :: "string option"
  ho_makedirs :: "string \<Rightarrow> directory_answer"
  ho_isdir :: "string \<Rightarrow> bool"
  ho_ismount :: "string \<Rightarrow> bool"
  ho_stat_uid :: "nat \<Rightarrow> string \<Rightarrow> string + int"

definition quote :: char where
  "quote = CHR 0x27"

definition with_sudo :: "host \<Rightarrow> command \<Rightarrow> command" where
  "with_sudo h cmd = (if ho_use_sudo h \<and> \<not> ho_root h then [''sudo'', ''-n''] @ cmd else cmd)"

fun commands_of :: "host_effect list \<Rightarrow> command list" where
  "commands_of [] = []"
| "commands_of (Run c # es) = c # commands_of es"
| "commands_of (_ # es) = commands_of es"

text \<open>The answer to a command after the given effects.\<close>

definition ask :: "host \<Rightarrow> host_effect list \<Rightarrow> command \<Rightarrow> cmd_answer" where
  "ask h es cmd = ho_run h (commands_of es) cmd"

text \<open>\<open>(result.stderr or result.stdout or "").strip() or fallback\<close>\<close>

definition command_error :: "string \<Rightarrow> string \<Rightarrow> string \<Rightarrow> string" where
  "command_error fallback out err =
     (let t = py_strip (if err \<noteq> [] then err else out) in if t \<noteq> [] then t else fallback)"

section \<open>Temporary credentials\<close>

definition cleanup_temporary_smb_credentials_file :: "host \<Rightarrow> string \<Rightarrow> host_effect list" where
  "cleanup_temporary_smb_credentials_file h f =
     (if ho_use_sudo h \<and> \<not> ho_root h then [Run (with_sudo h [''rm'', ''-f'', f])] else [Temp_remove f])"

definition smb_credentials_content :: "string option \<Rightarrow> string option \<Rightarrow> string" where
  "smb_credentials_content username password =
     (case username of None \<Rightarrow> [] | Some u \<Rightarrow> ''username='' @ u @ [newline]) @
     (case password of None \<Rightarrow> [] | Some w \<Rightarrow> ''password='' @ w @ [newline])"

text \<open>\<open>ho_temp_error\<close> is an error of the system calls on the new file.\<close>

definition prepare_temporary_smb_credentials_file ::
  "host \<Rightarrow> string option \<Rightarrow> string option \<Rightarrow> host_effect list \<times> (string + string)" where
  "prepare_temporary_smb_credentials_file h username password =
     (case ho_mkstemp h of
        Inl msg \<Rightarrow> ([], Inl msg)
      | Inr f \<Rightarrow>
          (let written = [Temp_write f (smb_credentials_content username password)]; cleanup = cleanup_temporary_smb_credentials_file h f
           in case ho_temp_error h of
                Some msg \<Rightarrow> (written @ cleanup, Inl msg)
              | None \<Rightarrow>
                  if ho_root h \<or> \<not> ho_use_sudo h then (written, Inr f)
                  else let chown = with_sudo h [''chown'', ''root:root'', f]; es = written @ [Run chown]
                       in case ask h written chown of
                            Exited n out err \<Rightarrow> if n = 0 then (es, Inr f) else (es @ cleanup, Inl ''command failed'')
                          | Timed_out msg \<Rightarrow> (es @ cleanup, Inl msg)
                          | Not_started _ msg \<Rightarrow> (es @ cleanup, Inl msg)))"

section \<open>Mounting\<close>

definition check_mounted :: "host \<Rightarrow> host_effect list \<Rightarrow> string \<Rightarrow> host_effect list \<times> bool option" where
  "check_mounted h es mount_point =
     (let cmd = [ho_mountpoint_binary h, ''-q'', mount_point]
      in ([Run cmd], case ask h es cmd of Exited n _ _ \<Rightarrow> Some (n = 0) | _ \<Rightarrow> None))"

definition should_retry_direct_nfs_helper :: "string \<Rightarrow> bool" where
  "should_retry_direct_nfs_helper err \<longleftrightarrow> py_contains (py_lower err) ''failed to apply fstab options''"

definition linux_nfs_version :: "host \<Rightarrow> string option \<Rightarrow> string" where
  "linux_nfs_version h requested =
     resolve_nfs_client_version \<lparr>scf_network_mount_base_path = ho_base_path h, scf_nfs_client_version = ho_default_nfs_version h, scf_cwd = []\<rparr> requested"

text \<open>The command line and the temporary file it needs; preparing that file may fail.\<close>

definition mount_command ::
  "host \<Rightarrow> mount_type \<Rightarrow> string \<Rightarrow> string \<Rightarrow> credentials \<Rightarrow> string option \<Rightarrow> host_effect list \<times> (string + command \<times> string option)" where
  "mount_command h t remote mount_point c nfs =
     (case t of
        NFS \<Rightarrow> ([], Inr (with_sudo h [ho_mount_binary h, ''-t'', ''nfs'', ''-o'', ''vers='' @ linux_nfs_version h nfs, remote, mount_point], None))
      | SMB \<Rightarrow>
          (let base = [ho_mount_binary h, ''-t'', ''cifs'', remote, mount_point]
           in if truthy (cr_credentials_file c)
              then ([], Inr (with_sudo h (base @ [''-o'', ''credentials='' @ the (cr_credentials_file c)]), None))
              else if cr_username c \<noteq> None \<or> cr_password c \<noteq> None then
                (case prepare_temporary_smb_credentials_file h (cr_username c) (cr_password c) of
                   (es, Inl msg) \<Rightarrow> (es, Inl msg)
                 | (es, Inr f) \<Rightarrow> (es, Inr (with_sudo h (base @ [''-o'', ''credentials='' @ f]), Some f)))
              else ([], Inr (with_sudo h (base @ [''-o'', ''guest'']), None))))"

definition nfs_helper_command :: "host \<Rightarrow> string \<Rightarrow> string \<Rightarrow> string \<Rightarrow> string option \<Rightarrow> command" where
  "nfs_helper_command h helper remote mount_point nfs =
     with_sudo h [helper, ''-o'', ''vers='' @ linux_nfs_version h nfs, remote, mount_point]"

text \<open>After the main command failed: the direct helper, whose success is not checked again, and a last look at the mount
  point. The result is an exception or the returned pair.\<close>

definition direct_nfs_retry ::
  "host \<Rightarrow> host_effect list \<Rightarrow> string \<Rightarrow> string \<Rightarrow> string option \<Rightarrow> string \<Rightarrow> host_effect list \<times> (string + bool \<times> string option)" where
  "direct_nfs_retry h es remote mount_point nfs err =
     (let verify = (\<lambda>es' e. case check_mounted h (es @ es') mount_point of
            (cs, m) \<Rightarrow> (es' @ cs, Inr (if m = Some True then (True, None) else (False, Some e))))
      in case ho_mount_nfs h of
           None \<Rightarrow> verify [] err
         | Some helper \<Rightarrow>
             (let cmd = nfs_helper_command h helper remote mount_point nfs
              in case ask h es cmd of
                   Timed_out msg \<Rightarrow> ([Run cmd], Inr (False, Some msg))
                 | Not_started _ msg \<Rightarrow> ([Run cmd], Inl msg)
                 | Exited n out er \<Rightarrow>
                     if n = 0 then ([Run cmd], Inr (True, None)) else verify [Run cmd] (command_error ''mount failed'' out er)))"

definition os_mount ::
  "host \<Rightarrow> mount_type \<Rightarrow> string \<Rightarrow> string \<Rightarrow> credentials \<Rightarrow> string option \<Rightarrow> host_effect list \<times> (string + bool \<times> string option)" where
  "os_mount h t remote mount_point c nfs =
     (case mount_command h t remote mount_point c nfs of
        (es, Inl msg) \<Rightarrow> (es, Inr (False, Some msg))
      | (es, Inr (cmd, temp)) \<Rightarrow>
          (case ask h es cmd of
             Timed_out msg \<Rightarrow> (es @ [Run cmd], Inr (False, Some msg))
           | Not_started _ msg \<Rightarrow> (es @ [Run cmd], Inl msg)
           | Exited n out er \<Rightarrow>
               (let es1 = es @ [Run cmd];
                    cleanup = (case temp of None \<Rightarrow> [] | Some f \<Rightarrow> cleanup_temporary_smb_credentials_file h f)
                in if n = 0 then
                     (case check_mounted h es1 mount_point of
                        (cs, m) \<Rightarrow> (es1 @ cs @ cleanup,
                          Inr (if m = Some True then (True, None)
                               else (False, Some ''mount command reported success but mountpoint is not active''))))
                   else let err = command_error ''mount failed'' out er
                        in if t = NFS \<and> should_retry_direct_nfs_helper err
                           then (case direct_nfs_retry h es1 remote mount_point nfs err of (cs, r) \<Rightarrow> (es1 @ cs @ cleanup, r))
                           else (es1 @ cleanup, Inr (False, Some err)))))"

definition os_unmount :: "host \<Rightarrow> string \<Rightarrow> host_effect list \<times> bool \<times> string option" where
  "os_unmount h mount_point =
     (let cmd = with_sudo h [ho_umount_binary h, mount_point]
      in ([Run cmd],
          (case ask h [] cmd of
             Exited n out er \<Rightarrow> if n \<noteq> 0 then (False, Some (command_error ''umount failed'' out er)) else (True, None)
           | Timed_out msg \<Rightarrow> (False, Some msg)
           | Not_started _ msg \<Rightarrow> (False, Some msg))))"

section \<open>The mount directory\<close>

definition managed_mount_root :: "host \<Rightarrow> string \<Rightarrow> string option" where
  "managed_mount_root h mount_point =
     (if is_within_managed_network_mount_root (ho_base_path h) mount_point then Some (managed_network_mount_root (ho_base_path h)) else None)"

definition run_sudo_cmd :: "host \<Rightarrow> host_effect list \<Rightarrow> command \<Rightarrow> host_effect list \<times> (string + bool \<times> string)" where
  "run_sudo_cmd h es cmd =
     (let full = [''sudo'', ''-n''] @ cmd
      in ([Run full],
          (case ask h es full of
             Exited n out er \<Rightarrow> Inr (if n = 0 then (True, []) else (False, command_error ''sudo command failed'' out er))
           | Timed_out msg \<Rightarrow> Inl msg
           | Not_started _ msg \<Rightarrow> Inl msg)))"

text \<open>The result is an exception, or the reported error. An exception inside the handler of \<open>PermissionError\<close> is not caught by the
  later handler.\<close>

definition ensure_mount_directory :: "host \<Rightarrow> string \<Rightarrow> host_effect list \<times> (string + string option)" where
  "ensure_mount_directory h mount_point =
     (let failed = ''failed to create local mount point directory: ''
      in case ho_makedirs h mount_point of
           Dir_ok \<Rightarrow> ([], Inr None)
         | Dir_failed msg \<Rightarrow> ([], Inr (Some (failed @ msg)))
         | Dir_denied msg \<Rightarrow>
             (case managed_mount_root h mount_point of
                None \<Rightarrow> ([], Inr (Some (failed @ msg)))
              | Some managed \<Rightarrow>
                  if managed = [] then ([], Inr (Some (failed @ msg)))
                  else if ho_use_sudo h \<and> \<not> ho_root h then
                    (case run_sudo_cmd h [] [''mkdir'', ''-p'', managed, mount_point] of
                       (es, Inl x) \<Rightarrow> (es, Inl x)
                     | (es, Inr (False, err)) \<Rightarrow> (es, Inr (Some (failed @ err)))
                     | (es, Inr (True, _)) \<Rightarrow>
                         (case run_sudo_cmd h es [''chown'', ho_owner_spec h, managed, mount_point] of
                            (es', Inl x) \<Rightarrow> (es @ es', Inl x)
                          | (es', Inr (ok, err)) \<Rightarrow>
                              (es @ es', Inr (if ok then None else Some (''failed to set local mount point ownership: '' @ err)))))
                  else ([], Inr (Some (failed @ msg @ ''. '' @
                         (if \<not> ho_isdir h managed
                          then ''Missing managed mount root '' @ [quote] @ managed @ [quote] @ ''. Create it and set ownership to the ECUBE service account.''
                          else ''Ensure '' @ [quote] @ managed @ [quote] @ '' is writable by the ECUBE service account.''))))))"

definition owner_verdict :: "host \<Rightarrow> int \<Rightarrow> string option" where
  "owner_verdict h uid =
     (if uid = 0 then Some ''local mount point directory is owned by root; it must be owned by the ECUBE service account''
      else if uid \<noteq> ho_uid h then Some ''local mount point directory is not owned by the ECUBE service account'' else None)"

definition validate_mount_directory_owner :: "host \<Rightarrow> string \<Rightarrow> host_effect list \<times> (string + string option)" where
  "validate_mount_directory_owner h mount_point =
     (let stat_failed = (\<lambda>msg. Inr (Some (''failed to stat local mount point directory: '' @ msg)))
      in case ho_stat_uid h 0 mount_point of
           Inl msg \<Rightarrow> ([], stat_failed msg)
         | Inr uid \<Rightarrow>
             if ho_ismount h mount_point then ([], Inr None)
             else if ho_root h \<or> uid = ho_uid h then ([], Inr None)
             else case managed_mount_root h mount_point of
               Some managed \<Rightarrow>
                 if managed \<noteq> [] \<and> ho_use_sudo h then
                   (case run_sudo_cmd h [] [''chown'', ho_owner_spec h, managed, mount_point] of
                      (es, Inl x) \<Rightarrow> (es, Inl x)
                    | (es, Inr (False, err)) \<Rightarrow> (es, Inr (Some (''local mount point directory ownership repair failed: '' @ err)))
                    | (es, Inr (True, _)) \<Rightarrow>
                        (case ho_stat_uid h 1 mount_point of
                           Inl msg \<Rightarrow> (es, stat_failed msg)
                         | Inr uid' \<Rightarrow> (es, Inr (owner_verdict h uid'))))
                 else ([], Inr (owner_verdict h uid))
             | None \<Rightarrow> ([], Inr (owner_verdict h uid)))"

section \<open>Discovery of shares\<close>

text \<open>\<open>str.splitlines\<close> and \<open>str.split\<close> without arguments, for ASCII text.\<close>

definition line_break :: "char \<Rightarrow> bool" where
  "line_break c \<longleftrightarrow> (let n = (of_char c :: nat) in (10 \<le> n \<and> n \<le> 13) \<or> (28 \<le> n \<and> n \<le> 30))"

fun split_lines :: "string \<Rightarrow> string \<Rightarrow> string list" where
  "split_lines acc [] = (if acc = [] then [] else [rev acc])"
| "split_lines acc [c] = (if line_break c then [rev acc] else [rev (c # acc)])"
| "split_lines acc (c # d # cs) =
     (if c = CHR 0x0D \<and> d = newline then rev acc # split_lines [] cs
      else if line_break c then rev acc # split_lines [] (d # cs)
      else split_lines (c # acc) (d # cs))"

definition first_word :: "string \<Rightarrow> string" where
  "first_word s = takeWhile (\<lambda>c. \<not> py_isspace c) (py_lstrip_with py_isspace s)"

definition parse_showmount :: "string \<Rightarrow> string \<Rightarrow> string list" where
  "parse_showmount server out =
     concat (map (\<lambda>line.
       (let stripped = py_strip line
        in if stripped = [] \<or> py_startswith (py_lower stripped) ''exports list on'' then []
           else let export = first_word stripped in if py_startswith export [sep] then [server @ '':'' @ export] else []))
       (split_lines [] out))"

definition parse_smbclient :: "string \<Rightarrow> string \<Rightarrow> string list" where
  "parse_smbclient server out =
     concat (map (\<lambda>line.
       (case map py_strip (split_on CHR ''|'' line) of
          kind # share # _ \<Rightarrow>
            if kind \<noteq> ''Disk'' \<or> share = [] \<or> py_upper share \<in> {''IPC$'', ''PRINT$''} then [] else [''//'' @ server @ ''/'' @ share]
        | _ \<Rightarrow> []))
       (split_lines [] out))"

definition smbclient_command :: "string \<Rightarrow> string \<Rightarrow> credentials \<Rightarrow> command" where
  "smbclient_command smbclient server c =
     [smbclient, ''-g'', ''-L'', server] @
     (if truthy (cr_credentials_file c) then [''-A'', the (cr_credentials_file c)]
      else if cr_username c \<noteq> None \<or> cr_password c \<noteq> None
      then [''-U'', (if truthy (cr_username c) then the (cr_username c) else []) @ ''%'' @ (if truthy (cr_password c) then the (cr_password c) else [])]
      else [''-N''])"

definition linux_discover_shares :: "host \<Rightarrow> mount_type \<Rightarrow> credentials \<Rightarrow> string \<Rightarrow> host_effect list \<times> discovery_answer" where
  "linux_discover_shares h t c remote =
     (case extract_share_discovery_target t remote of
        None \<Rightarrow> ([], Discovery_error)
      | Some server \<Rightarrow>
          (case (case t of NFS \<Rightarrow> ho_showmount h | SMB \<Rightarrow> ho_smbclient h) of
             None \<Rightarrow> ([], Tool_missing)
           | Some tool \<Rightarrow>
               (let cmd = (case t of NFS \<Rightarrow> [tool, ''-e'', server] | SMB \<Rightarrow> smbclient_command tool server c)
                in ([Run cmd],
                    (case ask h [] cmd of
                       Exited n out er \<Rightarrow>
                         if n \<noteq> 0 then Discovery_error
                         else Found (case t of NFS \<Rightarrow> parse_showmount server out | SMB \<Rightarrow> parse_smbclient server out)
                     | Timed_out _ \<Rightarrow> Discovery_error
                     | Not_started missing _ \<Rightarrow> if missing then Tool_missing else Discovery_error)))))"

section \<open>What the provider guarantees\<close>

lemma commands_of_append [simp]: "commands_of (a @ b) = commands_of a @ commands_of b"
  by (induction a rule: commands_of.induct) auto

lemma prepare_credentials_cases:
  assumes "prepare_temporary_smb_credentials_file h u w = (es, r)"
  shows "(case r of Inl _ \<Rightarrow> (\<forall>f x. Temp_write f x \<in> set es \<longrightarrow> (\<exists>pre. es = pre @ cleanup_temporary_smb_credentials_file h f))
    | Inr f \<Rightarrow> \<forall>f' x. Temp_write f' x \<in> set es \<longrightarrow> f' = f)"
  using assms unfolding prepare_temporary_smb_credentials_file_def Let_def
  by (auto simp: cleanup_temporary_smb_credentials_file_def split: sum.splits option.splits if_splits cmd_answer.splits)

lemma mount_command_cases:
  assumes "mount_command h t remote mp c nfs = (es, r)"
  shows "(case r of Inl _ \<Rightarrow> (\<forall>f x. Temp_write f x \<in> set es \<longrightarrow> (\<exists>pre. es = pre @ cleanup_temporary_smb_credentials_file h f))
    | Inr (cmd, temp) \<Rightarrow> \<forall>f x. Temp_write f x \<in> set es \<longrightarrow> temp = Some f)"
proof -
  obtain es' r' where p: "prepare_temporary_smb_credentials_file h (cr_username c) (cr_password c) = (es', r')" by fastforce
  show ?thesis using assms prepare_credentials_cases [OF p] p unfolding mount_command_def Let_def
    by (cases r') (auto split: mount_type.splits if_splits)
qed

lemma retry_writes_nothing: "Temp_write f x \<notin> set (fst (direct_nfs_retry h es remote mp nfs err))"
  by (auto simp: direct_nfs_retry_def check_mounted_def Let_def split: option.splits cmd_answer.splits)

lemma os_mount_exited:
  assumes "mount_command h t remote mp c nfs = (es0, Inr (cmd, temp))" "ask h es0 cmd = Exited n out er"
  shows "\<exists>mid. fst (os_mount h t remote mp c nfs) =
      es0 @ Run cmd # mid @ (case temp of None \<Rightarrow> [] | Some f \<Rightarrow> cleanup_temporary_smb_credentials_file h f) \<and> (\<forall>f x. Temp_write f x \<notin> set mid)"
proof -
  let ?err = "command_error ''mount failed'' out er"
  consider "n = 0" | "n \<noteq> 0" "t = NFS \<and> should_retry_direct_nfs_helper ?err" | "n \<noteq> 0" "\<not> (t = NFS \<and> should_retry_direct_nfs_helper ?err)"
    by blast
  then show ?thesis
  proof cases
    case 1
    then show ?thesis using assms by (simp add: os_mount_def check_mounted_def Let_def)
  next
    case 2
    then show ?thesis using assms retry_writes_nothing [of _ _ h "es0 @ [Run cmd]" remote mp nfs ?err]
      by (auto simp: os_mount_def Let_def case_prod_beta intro!: exI [of _ "fst (direct_nfs_retry h (es0 @ [Run cmd]) remote mp nfs ?err)"])
  next
    case 3
    then show ?thesis using assms by (auto simp: os_mount_def Let_def intro!: exI [of _ "[]"])
  qed
qed


definition sent :: "host_effect list \<times> 'a \<Rightarrow> command list \<times> 'a" where
  "sent x = (commands_of (fst x), snd x)"

lemma prepare_sent:
  "sent (prepare_temporary_smb_credentials_file h u w) = sent (prepare_temporary_smb_credentials_file h u' w')"
  by (auto simp: sent_def prepare_temporary_smb_credentials_file_def ask_def Let_def split: sum.splits option.splits cmd_answer.splits)

lemma os_mount_sent:
  assumes "sent (mount_command h t remote mp c nfs) = sent (mount_command h t remote mp c' nfs)"
  shows "sent (os_mount h t remote mp c nfs) = sent (os_mount h t remote mp c' nfs)"
proof -
  obtain es r where m: "mount_command h t remote mp c nfs = (es, r)" by fastforce
  obtain es' where m': "mount_command h t remote mp c' nfs = (es', r)" and cs: "commands_of es = commands_of es'"
    using assms m by (cases "mount_command h t remote mp c' nfs") (auto simp: sent_def)
  have ask: "ask h (es @ a) = ask h (es' @ a)" for a by (simp add: ask_def cs fun_eq_iff)
  have "ask h es = ask h es'" using ask [of "[]"] by simp
  moreover have "check_mounted h (es @ a) = check_mounted h (es' @ a)" for a by (simp add: check_mounted_def ask fun_eq_iff)
  moreover have "direct_nfs_retry h (es @ a) = direct_nfs_retry h (es' @ a)" for a
    by (intro ext) (simp only: direct_nfs_retry_def check_mounted_def append_assoc ask)
  ultimately show ?thesis using cs unfolding os_mount_def m m'
    by (cases r) (auto simp: sent_def Let_def split: cmd_answer.splits prod.splits)
qed


text \<open>A command that exited with zero among the commands of a run.\<close>

definition succeeded :: "host \<Rightarrow> command list \<Rightarrow> command \<Rightarrow> bool" where
  "succeeded h cs cmd \<longleftrightarrow> (\<exists>pre post out er. cs = pre @ cmd # post \<and> ho_run h pre cmd = Exited 0 out er)"

definition mount_confirmed :: "host \<Rightarrow> mount_type \<Rightarrow> string \<Rightarrow> string \<Rightarrow> string option \<Rightarrow> command list \<Rightarrow> bool" where
  "mount_confirmed h t remote mp nfs cs \<longleftrightarrow>
     succeeded h cs [ho_mountpoint_binary h, ''-q'', mp] \<or>
     t = NFS \<and> (\<exists>helper. ho_mount_nfs h = Some helper \<and>
       succeeded h cs (nfs_helper_command h helper remote mp nfs))"

lemma succeededI: "ask h es cmd = Exited 0 out er \<Longrightarrow> succeeded h (commands_of es @ cmd # post) cmd"
  unfolding succeeded_def ask_def by blast

lemma check_mounted_True:
  assumes "check_mounted h es mp = (cs, Some True)"
  shows "succeeded h (commands_of es @ commands_of cs @ post) [ho_mountpoint_binary h, ''-q'', mp]"
  using assms by (auto simp: check_mounted_def Let_def intro: succeededI split: cmd_answer.splits)

lemma retry_confirmed:
  assumes "direct_nfs_retry h es remote mp nfs err = (cs, Inr (True, x))"
  shows "mount_confirmed h NFS remote mp nfs (commands_of es @ commands_of cs @ post) \<and> x = None"
proof (cases "ho_mount_nfs h")
  case None
  obtain ch m where "check_mounted h es mp = (ch, m)" by fastforce
  with assms None check_mounted_True [of h es mp ch post] show ?thesis
    by (auto simp: direct_nfs_retry_def mount_confirmed_def Let_def split: if_splits)
next
  case (Some helper)
  let ?cmd = "nfs_helper_command h helper remote mp nfs"
  obtain ch m where ch: "check_mounted h (es @ [Run ?cmd]) mp = (ch, m)" by fastforce
  show ?thesis
    using assms Some ch check_mounted_True [of h "es @ [Run ?cmd]" mp ch post] succeededI [of h es ?cmd _ _ post]
    unfolding direct_nfs_retry_def Let_def
    by (auto simp: mount_confirmed_def split: if_splits cmd_answer.splits)
qed

text \<open>\<open>os_mount\<close> returns success only if the check of exactly this mount point exited with zero or, for NFS, the direct helper
  did; then it reports no error.\<close>

lemma os_mount_confirmed:
  assumes "os_mount h t remote mp c nfs = (es, Inr (True, x))"
  shows "mount_confirmed h t remote mp nfs (commands_of es) \<and> x = None"
proof -
  obtain es0 r0 where m: "mount_command h t remote mp c nfs = (es0, r0)" by fastforce
  with assms obtain cmd temp n out er where r0: "r0 = Inr (cmd, temp)" and a: "ask h es0 cmd = Exited n out er"
    by (cases r0) (auto simp: os_mount_def split: cmd_answer.splits)
  let ?es1 = "es0 @ [Run cmd]" and ?cl = "case temp of None \<Rightarrow> [] | Some f \<Rightarrow> cleanup_temporary_smb_credentials_file h f"
  let ?err = "command_error ''mount failed'' out er"
  obtain ch k where ch: "check_mounted h ?es1 mp = (ch, k)" by fastforce
  obtain cs r where d: "direct_nfs_retry h ?es1 remote mp nfs ?err = (cs, r)" by fastforce
  show ?thesis
  proof (cases "n = 0")
    case True
    then show ?thesis using assms m r0 a ch check_mounted_True [of h ?es1 mp ch "commands_of ?cl"]
      by (auto simp: os_mount_def mount_confirmed_def Let_def split: if_splits)
  next
    case False
    then have "t = NFS" "r = Inr (True, x)" "es = ?es1 @ cs @ ?cl"
      using assms m r0 a d by (auto simp: os_mount_def Let_def split: if_splits)
    with retry_confirmed [of h ?es1 remote mp nfs ?err cs x "commands_of ?cl"] d show ?thesis by simp
  qed
qed

section \<open>The service on this provider\<close>

text \<open>The provider of the share service whose k-th call of a kind meets the host \<open>h k\<close>.\<close>

definition linux_share_provider :: "(nat \<Rightarrow> host) \<Rightarrow> (nat \<Rightarrow> rat) \<Rightarrow> (string \<Rightarrow> string) \<Rightarrow> (string \<Rightarrow> string option) \<Rightarrow> share_provider" where
  "linux_share_provider h elapsed enc dec =
     \<lparr>sp_check = (\<lambda>k mp. snd (check_mounted (h k) [] mp)), sp_mount = (\<lambda>k t remote mp c nfs. snd (os_mount (h k) t remote mp c nfs)),
      sp_elapsed = elapsed, sp_unmount = (\<lambda>k mp. Inr (snd (os_unmount (h k) mp))),
      sp_directory_error = (\<lambda>mp. snd (ensure_mount_directory (h 0) mp)), sp_owner_error = (\<lambda>mp. snd (validate_mount_directory_owner (h 0) mp)),
      sp_encrypt = enc, sp_decrypt = dec\<rparr>"

text \<open>C34. From the request to the kernel: a share that is added and reported as mounted is mounted according to the host itself, on the
  mount point that was stored.\<close>

theorem added_share_confirmed:
  assumes "add_share e cfg (linux_share_provider h elapsed enc dec) b db = (db', calls, Inr m)" "m_status m = MOUNTED"
  shows "\<exists>c es. os_mount (h 0) (sb_type b) (sb_remote_path b) (m_local_mount_point m) c (m_nfs_client_version m) = (es, Inr (True, None)) \<and>
    mount_confirmed (h 0) (sb_type b) (sb_remote_path b) (m_local_mount_point m) (m_nfs_client_version m) (commands_of es)"
proof -
  from add_share_call [OF assms] obtain c err where
    "snd (os_mount (h 0) (sb_type b) (sb_remote_path b) (m_local_mount_point m) c (m_nfs_client_version m)) = Inr (True, err)"
    by (auto simp: linux_share_provider_def)
  then obtain es where o: "os_mount (h 0) (sb_type b) (sb_remote_path b) (m_local_mount_point m) c (m_nfs_client_version m) = (es, Inr (True, err))"
    by (metis prod.collapse)
  with os_mount_confirmed [OF o] show ?thesis by blast
qed

section \<open>The mount directory\<close>

text \<open>Privileged commands stay in the managed directory: preparing a mount directory runs commands as root only for a directory
  within the managed mount root, and these create or hand over that root and that directory.\<close>

theorem directory_commands_contained:
  assumes "Run cmd \<in> set (fst (ensure_mount_directory h mp)) \<union> set (fst (validate_mount_directory_owner h mp))"
  shows "is_within_managed_network_mount_root (ho_base_path h) mp \<and> ho_use_sudo h \<and> \<not> ho_root h \<and>
    cmd \<in> {[''sudo'', ''-n'', ''mkdir'', ''-p'', managed_network_mount_root (ho_base_path h), mp],
           [''sudo'', ''-n'', ''chown'', ho_owner_spec h, managed_network_mount_root (ho_base_path h), mp]}"
  using assms unfolding ensure_mount_directory_def validate_mount_directory_owner_def Let_def managed_mount_root_def run_sudo_cmd_def
  by (auto split: directory_answer.splits if_splits option.splits sum.splits cmd_answer.splits bool.splits prod.splits)

section \<open>Where the code does not do what it means to\<close>

text \<open>A mount command that times out leaves the file with the password on disk.\<close>

theorem timeout_leaves_password:
  assumes "ho_root h" "ho_mkstemp h = Inr f" "ho_temp_error h = None"
    "ho_run h [] [ho_mount_binary h, ''-t'', ''cifs'', remote, mp, ''-o'', ''credentials='' @ f] = Timed_out msg"
  shows "os_mount h SMB remote mp \<lparr>cr_username = Some u, cr_password = Some w, cr_credentials_file = None\<rparr> nfs =
    ([Temp_write f (''username='' @ u @ [newline] @ ''password='' @ w @ [newline]),
      Run [ho_mount_binary h, ''-t'', ''cifs'', remote, mp, ''-o'', ''credentials='' @ f]], Inr (False, Some msg))"
  using assms by (simp add: os_mount_def mount_command_def prepare_temporary_smb_credentials_file_def with_sudo_def ask_def
      smb_credentials_content_def Let_def)

text \<open>A line break in a user name adds lines to the credentials file.\<close>

theorem credentials_line_injection:
  "smb_credentials_content (Some (u @ [newline] @ ''password='' @ w)) None = smb_credentials_content (Some u) (Some w)"
  by (simp add: smb_credentials_content_def)

text \<open>Share discovery passes the password on the command line, which mounting avoids.\<close>

theorem discovery_exposes_password:
  "smbclient_command tool server \<lparr>cr_username = Some (a # u), cr_password = Some (b # w), cr_credentials_file = None\<rparr> =
    [tool, ''-g'', ''-L'', server, ''-U'', (a # u) @ ''%'' @ (b # w)]"
  by (simp add: smbclient_command_def)

section \<open>Witnesses\<close>

text \<open>A host without sudo where every command succeeds.\<close>

definition example_host :: host where
  "example_host =
     \<lparr>ho_use_sudo = True, ho_root = True, ho_uid = 0, ho_owner_spec = ''root:root'', ho_base_path = ''/'', ho_default_nfs_version = None,
      ho_mount_binary = ''/bin/mount'', ho_umount_binary = ''/bin/umount'', ho_mountpoint_binary = ''/bin/mountpoint'', ho_mount_nfs = None,
      ho_showmount = None, ho_smbclient = None, ho_run = (\<lambda>_ _. Exited 0 [] []), ho_mkstemp = Inr ''/tmp/ecube-smb-1.cred'', ho_temp_error = None,
      ho_makedirs = (\<lambda>_. Dir_ok), ho_isdir = (\<lambda>_. True), ho_ismount = (\<lambda>_. False), ho_stat_uid = (\<lambda>_ _. Inr 0)\<rparr>"

definition example_mount :: "string \<Rightarrow> host_effect list \<times> (string + bool \<times> string option)" where
  "example_mount password =
     os_mount example_host SMB ''//srv/x'' ''/nfs/x'' \<lparr>cr_username = Some ''u'', cr_password = Some password, cr_credentials_file = None\<rparr> None"



definition linux_add :: "network_share share_result" where
  "linux_add = add_share example_env example_share_config (linux_share_provider (\<lambda>_. example_host) (\<lambda>_. 1) (\<lambda>s. s) Some) (example_body ''srv:/y/z'' ''p2'') share_db"

theorem added_share_confirmed_witness:
  "\<exists>m cs. snd (snd linux_add) = Inr m \<and> mount_confirmed example_host NFS ''srv:/y/z'' (m_local_mount_point m) (m_nfs_client_version m) cs"
proof -
  have "case snd (snd linux_add) of Inl _ \<Rightarrow> False | Inr m \<Rightarrow> m_status m = MOUNTED" by code_simp
  then obtain m where m: "snd (snd linux_add) = Inr m" "m_status m = MOUNTED" by (auto split: sum.splits)
  then have "linux_add = (fst linux_add, fst (snd linux_add), Inr m)" by (metis prod.collapse)
  from added_share_confirmed [OF this [unfolded linux_add_def] m(2)] m(1) show ?thesis by (auto simp: example_body_def)
qed

end
