(* ===== verification/Mount_Table.thy ===== *)
theory Mount_Table
  imports Paths
begin

text \<open>
  The kernel mount table (\<open>app/infrastructure/mount_info.py\<close>): parsing of its lines, octal escapes, and the
  lookup of the mount point of a device. Text is a list of bytes; the lines of the file are an argument.
\<close>

section \<open>Words and escapes\<close>

definition table_backslash :: char where
  "table_backslash = CHR 0x5C"

definition octal_digit :: "char \<Rightarrow> nat option" where
  "octal_digit c = (let n = (of_char c :: nat) in if 48 \<le> n \<and> n \<le> 55 then Some (n - 48) else None)"

text \<open>The value of \<^verbatim>\<open>\abc\<close> for three octal digits.\<close>

definition octal_escape :: "char \<Rightarrow> char \<Rightarrow> char \<Rightarrow> nat option" where
  "octal_escape a b c =
     (case (octal_digit a, octal_digit b, octal_digit c) of
        (Some x, Some y, Some z) \<Rightarrow> Some (64 * x + 8 * y + z) | _ \<Rightarrow> None)"

fun unescape_bytes :: "string \<Rightarrow> nat list" where
  "unescape_bytes (s # a # b # c # cs) =
     (if s = table_backslash \<and> octal_escape a b c \<noteq> None then the (octal_escape a b c) # unescape_bytes cs
      else of_char s # unescape_bytes (a # b # c # cs))"
| "unescape_bytes (s # cs) = of_char s # unescape_bytes cs"
| "unescape_bytes [] = []"

text \<open>A value above 255 does not fit the byte array; the text is then returned as it is.\<close>

definition unescape_mountpoint :: "string \<Rightarrow> string" where
  "unescape_mountpoint s = (let bs = unescape_bytes s in if list_ex (\<lambda>n. 255 < n) bs then s else map char_of bs)"

text \<open>\<open>str.split()\<close>\<close>

fun words_from :: "string \<Rightarrow> string \<Rightarrow> string list" where
  "words_from acc [] = (if acc = [] then [] else [rev acc])"
| "words_from acc (c # cs) =
     (if py_isspace c then (if acc = [] then words_from [] cs else rev acc # words_from [] cs) else words_from (c # acc) cs)"

definition py_words :: "string \<Rightarrow> string list" where
  "py_words s = words_from [] s"

section \<open>The table\<close>

text \<open>An assignment to a dictionary keeps the place of a key.\<close>

fun dict_set :: "'k \<Rightarrow> 'v \<Rightarrow> ('k \<times> 'v) list \<Rightarrow> ('k \<times> 'v) list" where
  "dict_set k v [] = [(k, v)]"
| "dict_set k v ((k', v') # d) = (if k' = k then (k, v) # d else (k', v') # dict_set k v d)"

definition add_mount_line :: "string \<Rightarrow> (string \<times> string) list \<Rightarrow> (string \<times> string) list" where
  "add_mount_line line table =
     (case py_words line of
        source # mount_point # _ \<Rightarrow> dict_set (unescape_mountpoint mount_point) (unescape_mountpoint source) table
      | _ \<Rightarrow> table)"

definition read_mount_table :: "string list option \<Rightarrow> (string \<times> string) list" where
  "read_mount_table content = (case content of None \<Rightarrow> [] | Some ls \<Rightarrow> fold add_mount_line ls [])"

definition read_mount_points :: "(string \<times> string) list \<Rightarrow> (string \<times> string) list" where
  "read_mount_points table = fold (\<lambda>(mount_point, source) d. dict_set source mount_point d) (filter (\<lambda>(_, source). py_startswith source ''/dev/'') table) []"

definition is_active_mount_point :: "(string \<Rightarrow> string) \<Rightarrow> (string \<times> string) list \<Rightarrow> string \<Rightarrow> bool" where
  "is_active_mount_point realpath table mount_point =
     (let target = normalize_mount_path mount_point
      in list_ex (\<lambda>(m, _). normalize_mount_path m = target \<or> realpath (normalize_mount_path m) = realpath target) table)"

definition find_device_mount_point :: "(string \<Rightarrow> string) \<Rightarrow> (string \<times> string) list \<Rightarrow> string \<Rightarrow> string option" where
  "find_device_mount_point realpath table device =
     (case find (\<lambda>(dev, _). realpath dev = realpath device) (read_mount_points table) of None \<Rightarrow> None | Some (_, m) \<Rightarrow> Some m)"

section \<open>What the kernel writes\<close>

text \<open>The kernel escapes blank, tab, line feed, backslash and the number sign; a line holds source, mount point, type and options.\<close>

definition octal_char :: "nat \<Rightarrow> char" where
  "octal_char n = char_of (48 + n mod 8)"

definition kernel_escape_char :: "char \<Rightarrow> string" where
  "kernel_escape_char c =
     (let n = (of_char c :: nat)
      in if n \<in> {32, 9, 10, 35, 92} then [table_backslash, octal_char (n div 64), octal_char (n div 8), octal_char n] else [c])"

definition kernel_escape :: "string \<Rightarrow> string" where
  "kernel_escape s = concat (map kernel_escape_char s)"

definition kernel_line :: "string \<Rightarrow> string \<times> string \<Rightarrow> string" where
  "kernel_line rest x = kernel_escape (snd x) @ '' '' @ kernel_escape (fst x) @ '' '' @ rest"

text \<open>White space that the kernel leaves alone and \<open>split\<close> does not.\<close>

definition unescaped_space :: "char \<Rightarrow> bool" where
  "unescaped_space c \<longleftrightarrow> py_isspace c \<and> (of_char c :: nat) \<notin> {32, 9, 10}"

lemma octal_char_digit: "octal_digit (octal_char n) = Some (n mod 8)"
proof -
  have "48 + n mod 8 < 256" by (simp add: mod_less_divisor [of 8 n, THEN less_trans])
  then show ?thesis by (simp add: octal_digit_def octal_char_def Let_def)
qed

lemma octal_roundtrip: "n < 256 \<Longrightarrow> octal_escape (octal_char (n div 64)) (octal_char (n div 8)) (octal_char n) = Some n"
proof -
  assume "n < 256"
  then have "n div 64 mod 8 = n div 64" by simp
  moreover have "64 * (n div 64) + 8 * (n div 8 mod 8) + n mod 8 = n"
  proof -
    have "n div 64 = n div 8 div 8" by (simp add: div_mult2_eq [symmetric])
    moreover have "8 * (n div 8 div 8) + n div 8 mod 8 = n div 8" "8 * (n div 8) + n mod 8 = n" by (rule mult_div_mod_eq)+
    ultimately show ?thesis by linarith
  qed
  ultimately show ?thesis by (simp add: octal_escape_def octal_char_digit)
qed

lemma unescape_plain: "c \<noteq> table_backslash \<Longrightarrow> unescape_bytes (c # cs) = of_char c # unescape_bytes cs"
  by (cases "(c # cs)" rule: unescape_bytes.cases) auto

lemma of_char_less: "(of_char c :: nat) < 256"
  using range_nat_of_char by (metis atLeastLessThan_iff rangeI)

lemma unescape_kernel_char: "unescape_bytes (kernel_escape_char c @ cs) = of_char c # unescape_bytes cs"
proof (cases "(of_char c :: nat) \<in> {32, 9, 10, 35, 92}")
  case True
  then show ?thesis using octal_roundtrip [OF of_char_less, of c] by (simp add: kernel_escape_char_def Let_def)
next
  case False
  then have "c \<noteq> table_backslash" by (auto simp: table_backslash_def)
  with False show ?thesis by (simp add: kernel_escape_char_def Let_def unescape_plain)
qed

lemma unescape_kernel: "unescape_mountpoint (kernel_escape s) = s"
proof -
  have "unescape_bytes (kernel_escape s) = (map of_char s :: nat list)"
    by (induction s) (simp_all add: kernel_escape_def unescape_kernel_char)
  moreover have "\<not> list_ex (\<lambda>n. 255 < n) (map of_char s :: nat list)"
    using of_char_less by (auto simp: list_ex_iff not_less less_Suc_eq_le [symmetric])
  ultimately show ?thesis by (simp add: unescape_mountpoint_def comp_def)
qed

lemma words_word: "\<forall>c\<in>set w. \<not> py_isspace c \<Longrightarrow> acc \<noteq> [] \<or> w \<noteq> [] \<Longrightarrow> py_isspace c \<Longrightarrow>
    words_from acc (w @ c # rest) = (rev acc @ w) # words_from [] rest"
  by (induction w arbitrary: acc) auto

lemma octal_not_space: "\<not> py_isspace (octal_char n)"
proof -
  have "48 + n mod 8 < 256" by (simp add: mod_less_divisor [of 8 n, THEN less_trans])
  then show ?thesis by (simp add: py_isspace_def octal_char_def Let_def)
qed

lemma kernel_escape_no_space:
  assumes "\<forall>c\<in>set s. \<not> unescaped_space c"
  shows "\<forall>c\<in>set (kernel_escape s). \<not> py_isspace c"
proof -
  have bs: "\<not> py_isspace table_backslash" by (simp add: py_isspace_def table_backslash_def)
  have "\<not> py_isspace x" if "c \<in> set s" "x \<in> set (kernel_escape_char c)" for c x
    using that assms bs octal_not_space by (auto simp: kernel_escape_char_def unescaped_space_def Let_def split: if_splits)
  then show ?thesis by (auto simp: kernel_escape_def)
qed

lemma kernel_escape_nonempty: "s \<noteq> [] \<Longrightarrow> kernel_escape s \<noteq> []"
  by (cases s) (auto simp: kernel_escape_def kernel_escape_char_def Let_def)

lemma dict_set_new: "k \<notin> fst ` set d \<Longrightarrow> dict_set k v d = d @ [(k, v)]"
  by (induction d) auto

lemma add_kernel_line:
  assumes "fst x \<noteq> []" "snd x \<noteq> []" "\<forall>c\<in>set (fst x) \<union> set (snd x). \<not> unescaped_space c"
  shows "add_mount_line (kernel_line rest x) table = dict_set (fst x) (snd x) table"
proof -
  have sp: "py_isspace CHR '' ''" by (simp add: py_isspace_def)
  have "py_words (kernel_line rest x) = kernel_escape (snd x) # kernel_escape (fst x) # words_from [] rest"
    using words_word [of "kernel_escape (snd x)" "[]" "CHR '' ''"] words_word [of "kernel_escape (fst x)" "[]" "CHR '' ''" rest]
      kernel_escape_no_space [of "fst x"] kernel_escape_no_space [of "snd x"] kernel_escape_nonempty assms sp
    by (simp add: py_words_def kernel_line_def)
  then show ?thesis by (simp add: add_mount_line_def unescape_kernel)
qed



text \<open>A form feed in the name of a mount point, which the kernel writes as it is, cuts the name.\<close>

theorem mount_table_cuts_names:
  "read_mount_table (Some [kernel_line ''ext4 rw 0 0'' (''/mnt/a'' @ [CHR 0x0C] @ ''b'', ''/dev/sdb1'')]) = [(''/mnt/a'', ''/dev/sdb1'')]"
  by code_simp

section \<open>Lookup of a device\<close>

lemma dict_set_values: "(k', v') \<in> set (dict_set k v d) \<Longrightarrow> (k', v') = (k, v) \<or> (k', v') \<in> set d"
  by (induction d) (auto split: if_splits)

lemma mount_points_in_table: "(dev, m) \<in> set (read_mount_points table) \<Longrightarrow> (m, dev) \<in> set table \<and> py_startswith dev ''/dev/''"
proof -
  have "(dev, m) \<in> set (fold (\<lambda>(m, s) d. dict_set s m d) t d) \<Longrightarrow> (m, dev) \<in> set t \<or> (dev, m) \<in> set d" for t d
    by (induction t arbitrary: d) (fastforce dest: dict_set_values)+
  then show "(dev, m) \<in> set (read_mount_points table) \<Longrightarrow> (m, dev) \<in> set table \<and> py_startswith dev ''/dev/''"
    unfolding read_mount_points_def by fastforce
qed

lemma find_device_sound:
  assumes "find_device_mount_point realpath table device = Some m"
  shows "\<exists>dev. (m, dev) \<in> set table \<and> realpath dev = realpath device \<and> py_startswith dev ''/dev/''"
proof -
  obtain dev where "find (\<lambda>(dev, _). realpath dev = realpath device) (read_mount_points table) = Some (dev, m)"
    using assms by (auto simp: find_device_mount_point_def split: option.splits)
  then have "(dev, m) \<in> set (read_mount_points table)" "realpath dev = realpath device"
    by (auto simp: find_Some_iff dest: nth_mem [of _ "read_mount_points table"] simp del: nth_mem)
  then show ?thesis using mount_points_in_table by blast
qed

end
