(* ===== verification/Reconcile_Mounts.thy ===== *)
theory Reconcile_Mounts
  imports Reconcile_Jobs Share_Provider Mount_Table
begin

text \<open>
  Reconciliation of mounts (\<open>app/services/reconciliation_service.py\<close>): network shares are brought back to what is
  configured, USB drives to their managed mount slots, and mounts under the managed directories that nobody owns are removed.
  Validating a share commits the session, so the network pass carries the committed state and the session. The providers are
  arguments and may answer differently at every position of a loop.
\<close>

section \<open>Managed directories\<close>

datatype reconcile_effect = Share_call share_effect | Usb_mount string string | Usb_unmount string | Remove_dir string

text \<open>\<open>os.path.dirname\<close>\<close>

definition path_dirname :: "string \<Rightarrow> string" where
  "path_dirname p =
     (let head = rev (dropWhile (\<lambda>c. c \<noteq> sep) (rev p))
      in if list_all (\<lambda>c. c = sep) head then head else py_rstrip_with (\<lambda>c. c = sep) head)"

definition is_direct_child_of :: "(string \<Rightarrow> string) \<Rightarrow> string \<Rightarrow> string \<Rightarrow> bool" where
  "is_direct_child_of realpath path managed_root \<longleftrightarrow> path_dirname (realpath path) = realpath managed_root"

definition cleanup_managed_mount_directory :: "(string \<Rightarrow> string) \<Rightarrow> string \<Rightarrow> string \<Rightarrow> reconcile_effect list" where
  "cleanup_managed_mount_directory realpath path managed_root =
     (if path_dirname (realpath path) \<noteq> realpath managed_root then [] else [Remove_dir (realpath path)])"

section \<open>The owner of a drive\<close>

definition normalized_usb_mount_candidates :: "string option list \<Rightarrow> string list" where
  "normalized_usb_mount_candidates paths =
     concat (map (\<lambda>p. case p of None \<Rightarrow> [] | Some s \<Rightarrow> if py_strip s = [] then [] else [normpath (py_strip s)]) paths)"

definition missing_project_binding :: "string option \<Rightarrow> bool" where
  "missing_project_binding p \<longleftrightarrow> (case p of None \<Rightarrow> True | Some s \<Rightarrow> normalize_project_id s = [])"

datatype owner_resolution = Owner string | No_relevant_owner | Ambiguous_owner

definition drive_rows :: "int \<Rightarrow> db \<Rightarrow> drive_assignment list" where
  "drive_rows drive_id w = filter (\<lambda>a. a_drive_id a = drive_id \<and> get_job (a_job_id a) w \<noteq> None) (assignments w)"

text \<open>\<open>str(job_target)\<close> of a missing target is the text \<^verbatim>\<open>None\<close>.\<close>

definition target_text :: "export_job \<Rightarrow> string" where
  "target_text j = (case j_target_mount_path j of None \<Rightarrow> ''None'' | Some p \<Rightarrow> p)"

definition assigned_candidates :: "int \<Rightarrow> string list \<Rightarrow> db \<Rightarrow> export_job list" where
  "assigned_candidates drive_id candidates w =
     filter (\<lambda>j. candidates = [] \<or> normpath (target_text j) \<in> set candidates)
       (map (\<lambda>a. the (get_job (a_job_id a) w)) (filter (\<lambda>a. a_released_at a = None) (drive_rows drive_id w)))"

definition path_candidates :: "int \<Rightarrow> string list \<Rightarrow> db \<Rightarrow> export_job list" where
  "path_candidates drive_id candidates w =
     (let active = map a_job_id (filter (\<lambda>a. a_released_at a = None) (drive_rows drive_id w));
          released = map a_job_id (filter (\<lambda>a. a_released_at a \<noteq> None) (drive_rows drive_id w))
      in filter (\<lambda>j. \<not> (j_id j \<in> set released \<and> j_id j \<notin> set active))
           (filter (\<lambda>j. case j_target_mount_path j of None \<Rightarrow> False | Some p \<Rightarrow> p \<in> set candidates) (jobs w)))"

definition resolve_usb_drive_owner :: "int \<Rightarrow> string list \<Rightarrow> db \<Rightarrow> owner_resolution" where
  "resolve_usb_drive_owner drive_id candidates w =
     (let js = assigned_candidates drive_id candidates w @ path_candidates drive_id candidates w;
          projects = remdups (filter (\<lambda>p. p \<noteq> []) (map (\<lambda>j. normalize_project_id (j_project_id j)) js))
      in case projects of [] \<Rightarrow> No_relevant_owner | [p] \<Rightarrow> Owner p | _ \<Rightarrow> Ambiguous_owner)"

section \<open>USB drives\<close>

record usb_mount_host =
  uh_realpath :: "string \<Rightarrow> string"
  uh_table :: "nat \<Rightarrow> (string \<times> string) list"
  uh_mount :: "nat \<Rightarrow> string \<Rightarrow> string \<Rightarrow> bool"
  uh_unmount :: "nat \<Rightarrow> string \<Rightarrow> bool"
  uh_base_path :: string
  uh_operation_id :: "string option"

record usb_outcome =
  uo_drive :: usb_drive
  uo_calls :: "reconcile_effect list"
  uo_audits :: "audit_entry list"
  uo_corrected :: nat
  uo_failed :: nat

definition details_with_operation_id :: "string option \<Rightarrow> (string \<times> jval) list \<Rightarrow> (string \<times> jval) list" where
  "details_with_operation_id op ds = (if truthy op then ds @ [(''operation_id'', JStr (the op))] else ds)"

definition drive_entry :: "usb_mount_host \<Rightarrow> usb_drive \<Rightarrow> string option \<Rightarrow> string \<Rightarrow> string \<Rightarrow> audit_entry" where
  "drive_entry h d project status reason =
     \<lparr>ae_action = ''DRIVE_MOUNT_RECONCILED'', ae_project_id = project, ae_drive_id = Some (d_id d), ae_job_id = None,
      ae_details = details_with_operation_id (uh_operation_id h)
        ([(''drive_id'', JInt (d_id d))] @ (case project of None \<Rightarrow> [] | Some p \<Rightarrow> [(''project_id'', JStr p)]) @
         [(''status'', JStr status), (''reason'', JStr reason)])\<rparr>"

definition expected_target :: "usb_mount_host \<Rightarrow> usb_drive \<Rightarrow> string" where
  "expected_target h d = normpath (usb_mount_point (uh_base_path h) (d_id d))"

definition owner_reason :: "owner_resolution \<Rightarrow> string" where
  "owner_reason r = (case r of Owner _ \<Rightarrow> ''binding_restored'' | No_relevant_owner \<Rightarrow> ''no_relevant_owner'' | Ambiguous_owner \<Rightarrow> ''ambiguous_owner'')"

definition release_without_owner :: "usb_mount_host \<Rightarrow> nat \<Rightarrow> string option \<Rightarrow> usb_drive \<Rightarrow> reconcile_effect list \<times> usb_drive option" where
  "release_without_owner h k actual d =
     (let released = d\<lparr>d_current_state := AVAILABLE, d_current_project_id := None, d_mount_path := None\<rparr>
      in if truthy actual then
           (if \<not> uh_unmount h k (the actual) then ([Usb_unmount (the actual)], None)
            else ([Usb_unmount (the actual)] @
                  (if is_direct_child_of (uh_realpath h) (the actual) (uh_base_path h)
                   then cleanup_managed_mount_directory (uh_realpath h) (the actual) (uh_base_path h) else []),
                  Some released))
         else ([], Some released))"

text \<open>The rest of the loop body, for a drive whose binding is settled: the mount itself.\<close>

definition settle_usb_mount :: "usb_mount_host \<Rightarrow> nat \<Rightarrow> string option \<Rightarrow> bool \<Rightarrow> usb_drive \<Rightarrow> usb_outcome" where
  "settle_usb_mount h k actual already d =
     (let expected = expected_target h d; count = (\<lambda>done. if already \<or> done then 0 else 1)
      in if actual = Some expected then
           (if d_mount_path d \<noteq> Some expected
            then \<lparr>uo_drive = d\<lparr>d_mount_path := Some expected\<rparr>, uo_calls = [], uo_audits = [drive_entry h d None ''MOUNTED'' ''startup_reconciled''],
                  uo_corrected = count False, uo_failed = 0\<rparr>
            else \<lparr>uo_drive = d, uo_calls = [], uo_audits = [], uo_corrected = 0, uo_failed = 0\<rparr>)
         else if truthy actual \<and> \<not> uh_unmount h k (the actual) then
           \<lparr>uo_drive = d, uo_calls = [Usb_unmount (the actual)], uo_audits = [drive_entry h d None ''ERROR'' ''cleanup_failed''],
            uo_corrected = 0, uo_failed = 1\<rparr>
         else
           (let moved = truthy actual;
                calls = (if \<not> moved then []
                         else [Usb_unmount (the actual)] @
                              (if is_direct_child_of (uh_realpath h) (the actual) (uh_base_path h)
                               then cleanup_managed_mount_directory (uh_realpath h) (the actual) (uh_base_path h) else []));
                corrected = (if moved then 1 else 0)
            in if \<not> truthy (d_filesystem_path d) then
                 \<lparr>uo_drive = d, uo_calls = calls, uo_audits = [drive_entry h d None ''SKIPPED'' ''missing_filesystem_path''],
                  uo_corrected = corrected, uo_failed = 0\<rparr>
               else let calls = calls @ [Usb_mount (the (d_filesystem_path d)) expected]
                    in if uh_mount h k (the (d_filesystem_path d)) expected
                       then \<lparr>uo_drive = d\<lparr>d_mount_path := Some expected\<rparr>, uo_calls = calls,
                             uo_audits = [drive_entry h d None ''MOUNTED'' ''startup_remount''],
                             uo_corrected = corrected + count moved, uo_failed = 0\<rparr>
                       else \<lparr>uo_drive = d, uo_calls = calls, uo_audits = [drive_entry h d None ''ERROR'' ''remount_failed''],
                             uo_corrected = corrected, uo_failed = 1\<rparr>))"

definition reconcile_usb_drive :: "usb_mount_host \<Rightarrow> nat \<Rightarrow> db \<Rightarrow> usb_drive \<Rightarrow> usb_outcome" where
  "reconcile_usb_drive h k w d =
     (let actual = (if truthy (d_filesystem_path d)
                    then find_device_mount_point (uh_realpath h) (uh_table h k) (the (d_filesystem_path d)) else None)
      in if d_current_state d = IN_USE \<and> missing_project_binding (d_current_project_id d) then
           (let owner = resolve_usb_drive_owner (d_id d) (normalized_usb_mount_candidates [actual, Some (expected_target h d), d_mount_path d]) w
            in case owner of
                 Owner p \<Rightarrow>
                   (let o1 = settle_usb_mount h k actual True (d\<lparr>d_current_project_id := drive_project_validator (Some p), d_current_state := IN_USE\<rparr>)
                    in o1\<lparr>uo_audits := drive_entry h d (Some p) ''IN_USE'' (owner_reason owner) # uo_audits o1, uo_corrected := Suc (uo_corrected o1)\<rparr>)
               | _ \<Rightarrow>
                   (case release_without_owner h k actual d of
                      (calls, None) \<Rightarrow>
                        \<lparr>uo_drive = d, uo_calls = calls, uo_audits = [drive_entry h d None ''ERROR'' ''owner_release_failed''], uo_corrected = 0, uo_failed = 1\<rparr>
                    | (calls, Some d') \<Rightarrow>
                        \<lparr>uo_drive = d', uo_calls = calls, uo_audits = [drive_entry h d None ''AVAILABLE'' (owner_reason owner)], uo_corrected = 1, uo_failed = 0\<rparr>))
         else settle_usb_mount h k actual False d)"

fun reconcile_usb_drives ::
  "usb_mount_host \<Rightarrow> nat \<Rightarrow> int list \<Rightarrow> db \<Rightarrow> db \<times> reconcile_effect list \<times> audit_entry list \<times> nat \<times> nat" where
  "reconcile_usb_drives h k [] w = (w, [], [], 0, 0)"
| "reconcile_usb_drives h k (i # is) w =
     (case get_drive i w of
        None \<Rightarrow> reconcile_usb_drives h (Suc k) is w
      | Some d \<Rightarrow>
          (let r = reconcile_usb_drive h k w d
           in case reconcile_usb_drives h (Suc k) is (set_drive i (\<lambda>_. uo_drive r) w) of
                (w', calls, as1, c, f) \<Rightarrow> (w', uo_calls r @ calls, uo_audits r @ as1, uo_corrected r + c, uo_failed r + f)))"

text \<open>Mounts directly under the managed directory that belong to no drive.\<close>

fun remove_orphan_usb_mounts ::
  "usb_mount_host \<Rightarrow> nat \<Rightarrow> string list \<Rightarrow> string list \<Rightarrow> reconcile_effect list \<times> audit_entry list \<times> nat \<times> nat \<times> nat" where
  "remove_orphan_usb_mounts h k expected [] = ([], [], 0, 0, 0)"
| "remove_orphan_usb_mounts h k expected (target # ts) =
     (let t = normpath target; rest = remove_orphan_usb_mounts h (Suc k) expected ts
      in if \<not> is_direct_child_of (uh_realpath h) t (uh_base_path h) \<or> t \<in> set expected then rest
         else case rest of
           (calls, as1, n, c, f) \<Rightarrow>
             if \<not> uh_unmount h k t then (Usb_unmount t # calls, as1, Suc n, c, Suc f)
             else (Usb_unmount t # cleanup_managed_mount_directory (uh_realpath h) t (uh_base_path h) @ calls,
                   \<lparr>ae_action = ''DRIVE_MOUNT_RECONCILED'', ae_project_id = None, ae_drive_id = None, ae_job_id = None,
                    ae_details = details_with_operation_id (uh_operation_id h)
                      [(''status'', JStr ''UNMOUNTED''), (''reason'', JStr ''orphan_managed_mount_removed'')]\<rparr> # as1,
                   Suc n, Suc c, f))"

record mount_counts =
  mc_checked :: nat
  mc_corrected :: nat
  mc_failures :: nat

definition managed_usb_drives :: "db \<Rightarrow> usb_drive list" where
  "managed_usb_drives db = filter (\<lambda>d. d_filesystem_path d \<noteq> None \<and> d_current_state d \<in> {AVAILABLE, IN_USE}) (drives db)"

definition reconcile_usb_mounts ::
  "env \<Rightarrow> usb_mount_host \<Rightarrow> db \<Rightarrow> db \<times> reconcile_effect list \<times> (string + mount_counts)" where
  "reconcile_usb_mounts e h db =
     (let ds = managed_usb_drives db; n = length ds; expected = map (expected_target h) ds;
          (w, calls, as1, c, f) = reconcile_usb_drives h 0 (map d_id ds) db;
          (calls', as2, n', c', f') = remove_orphan_usb_mounts h (Suc n) expected (map fst (uh_table h n))
      in if 0 < n + n' \<and> \<not> e_db_ok e ''reconcile_usb_mounts'' then (db, calls @ calls', Inl ''commit failed'')
         else (audit_add_many e ''DRIVE_MOUNT_RECONCILED'' (as1 @ as2) w, calls @ calls',
               Inr \<lparr>mc_checked = n + n', mc_corrected = c + c', mc_failures = f + f'\<rparr>))"

section \<open>Network shares\<close>

record share_pass =
  sw_committed :: db
  sw_session :: db
  sw_calls :: "reconcile_effect list"
  sw_audits :: "audit_entry list"
  sw_corrected :: nat
  sw_failures :: nat

definition share_entry :: "string option \<Rightarrow> int \<Rightarrow> mount_status \<Rightarrow> mount_status \<Rightarrow> string \<Rightarrow> audit_entry" where
  "share_entry op i old new reason =
     \<lparr>ae_action = ''MOUNT_RECONCILED'', ae_project_id = None, ae_drive_id = None, ae_job_id = None,
      ae_details = details_with_operation_id op
        [(''mount_id'', JInt i), (''old_status'', JStr (mount_status_value old)), (''new_status'', JStr (mount_status_value new)),
         (''reason'', JStr reason)]\<rparr>"

definition set_status :: "int \<Rightarrow> mount_status \<Rightarrow> db \<Rightarrow> db" where
  "set_status i st = set_share i (\<lambda>m. m\<lparr>m_status := st\<rparr>)"

text \<open>A share that the host has mounted from the configured source.\<close>

definition share_is_mounted :: "string option \<Rightarrow> network_share \<Rightarrow> share_pass \<Rightarrow> share_pass" where
  "share_is_mounted op m s =
     (if m_status m \<noteq> MOUNTED
      then s\<lparr>sw_session := set_status (m_id m) MOUNTED (sw_session s), sw_corrected := Suc (sw_corrected s),
             sw_audits := sw_audits s @ [share_entry op (m_id m) (m_status m) MOUNTED ''startup reconciliation'']\<rparr>
      else s)"

text \<open>The remount by \<open>validate_share\<close>, after which the session is committed or, when the commit failed, rolled back.\<close>

definition remount_share :: "env \<Rightarrow> share_provider \<Rightarrow> string option \<Rightarrow> network_share \<Rightarrow> share_pass \<Rightarrow> share_pass" where
  "remount_share e p op m s =
     (case validate_share (e\<lparr>e_actor := Some ''system''\<rparr>) p (m_id m) (sw_session s) of
        (w, calls, Inr m') \<Rightarrow>
          s\<lparr>sw_committed := w, sw_session := w, sw_calls := sw_calls s @ map Share_call calls, sw_corrected := Suc (sw_corrected s),
            sw_audits := sw_audits s @ [share_entry op (m_id m) (m_status m) (m_status m') ''startup reconciliation'']\<rparr>
      | (w, calls, Inl err) \<Rightarrow>
          s\<lparr>sw_session := set_status (m_id m) MOUNT_ERROR (if err = Share_db_error then sw_committed s else sw_session s),
            sw_calls := sw_calls s @ map Share_call calls, sw_corrected := Suc (sw_corrected s), sw_failures := Suc (sw_failures s),
            sw_audits := sw_audits s @ [share_entry op (m_id m) (m_status m) MOUNT_ERROR ''startup reconciliation'']\<rparr>)"

record share_pass_config =
  sc_table :: "(string \<times> string) list"
  sc_base_path :: string
  sc_cwd :: string
  sc_realpath :: "string \<Rightarrow> string"
  sc_operation_id :: "string option"

definition generated_directory_cleanup :: "share_pass_config \<Rightarrow> string \<Rightarrow> reconcile_effect list" where
  "generated_directory_cleanup cfg path =
     (case cleanup_target_for_generated_network_mount_point (sc_cwd cfg) (sc_base_path cfg) path of
        None \<Rightarrow> [] | Some t \<Rightarrow> cleanup_managed_mount_directory (sc_realpath cfg) t (managed_network_mount_root (sc_base_path cfg)))"

text \<open>The first check of the mount has number 1, those inside \<open>validate_share\<close> number 0. A raising unmount ends the pass.\<close>

definition reconcile_share :: "env \<Rightarrow> share_provider \<Rightarrow> share_pass_config \<Rightarrow> network_share \<Rightarrow> share_pass \<Rightarrow> string + share_pass" where
  "reconcile_share e p cfg m s0 =
     (let s = s0\<lparr>sw_session := set_share (m_id m) (\<lambda>m. m\<lparr>m_last_checked_at := Some (e_now e)\<rparr>) (sw_session s0)\<rparr>;
          live = map_of (sc_table cfg) (normpath (m_local_mount_point m))
      in case live of
           None \<Rightarrow>
             if sp_check p 1 (m_local_mount_point m) = Some True then Inr (share_is_mounted (sc_operation_id cfg) m s)
             else Inr (remount_share e p (sc_operation_id cfg) m s)
         | Some source \<Rightarrow>
             if source = m_remote_path m then Inr (share_is_mounted (sc_operation_id cfg) m s)
             else let called = s\<lparr>sw_calls := sw_calls s @ [Share_call (Share_unmount (m_local_mount_point m))]\<rparr>
                  in case sp_unmount p 0 (m_local_mount_point m) of
                       Inl msg \<Rightarrow> Inl msg
                     | Inr (False, _) \<Rightarrow>
                         Inr (called\<lparr>sw_session := set_status (m_id m) MOUNT_ERROR (sw_session s), sw_corrected := Suc (sw_corrected s),
                                sw_failures := Suc (sw_failures s),
                                sw_audits := sw_audits s @ [share_entry (sc_operation_id cfg) (m_id m) (m_status m) MOUNT_ERROR ''startup cleanup failed'']\<rparr>)
                     | Inr (True, _) \<Rightarrow>
                         Inr (remount_share e p (sc_operation_id cfg) m
                                (called\<lparr>sw_calls := sw_calls called @ generated_directory_cleanup cfg (m_local_mount_point m)\<rparr>)))"

fun reconcile_shares :: "env \<Rightarrow> (nat \<Rightarrow> share_provider) \<Rightarrow> share_pass_config \<Rightarrow> nat \<Rightarrow> int list \<Rightarrow> share_pass \<Rightarrow> share_pass \<times> string option" where
  "reconcile_shares e p cfg k [] s = (s, None)"
| "reconcile_shares e p cfg k (i # is) s =
     (case get_share i (sw_session s) of
        None \<Rightarrow> reconcile_shares e p cfg (Suc k) is s
      | Some m \<Rightarrow>
          (case reconcile_share e (p k) cfg m s of
             Inl msg \<Rightarrow> (s\<lparr>sw_calls := sw_calls s @ [Share_call (Share_unmount (m_local_mount_point m))]\<rparr>, Some msg)
           | Inr s' \<Rightarrow> reconcile_shares e p cfg (Suc k) is s'))"

fun remove_orphan_shares ::
  "(nat \<Rightarrow> share_provider) \<Rightarrow> share_pass_config \<Rightarrow> nat \<Rightarrow> string list \<Rightarrow> (string \<times> string) list \<Rightarrow>
   (reconcile_effect list \<times> audit_entry list \<times> nat \<times> nat \<times> nat) \<times> string option" where
  "remove_orphan_shares p cfg k persisted [] = (([], [], 0, 0, 0), None)"
| "remove_orphan_shares p cfg k persisted ((target, source) # ts) =
     (let t = normpath target; rest = remove_orphan_shares p cfg (Suc k) persisted ts;
          managed = cleanup_target_for_generated_network_mount_point (sc_cwd cfg) (sc_base_path cfg) t
      in if t \<in> set persisted \<or> \<not> truthy managed then rest
         else case sp_unmount (p k) 0 t of
           Inl msg \<Rightarrow> (([Share_call (Share_unmount t)], [], 1, 0, 0), Some msg)
         | Inr (ok, _) \<Rightarrow>
             (case rest of
                ((calls, as1, n, c, f), err) \<Rightarrow>
                  if \<not> ok then ((Share_call (Share_unmount t) # calls, as1, Suc n, c, Suc f), err)
                  else ((Share_call (Share_unmount t) #
                           cleanup_managed_mount_directory (sc_realpath cfg) t (managed_network_mount_root (sc_base_path cfg)) @ calls,
                         \<lparr>ae_action = ''MOUNT_RECONCILED'', ae_project_id = None, ae_drive_id = None, ae_job_id = None,
                          ae_details = details_with_operation_id (sc_operation_id cfg)
                            [(''old_status'', JStr ''MOUNTED''), (''new_status'', JStr ''UNMOUNTED''),
                             (''reason'', JStr ''orphan_managed_mount_removed''),
                             (''managed_area'', JStr (after_last sep (managed_network_mount_root (sc_base_path cfg))))]\<rparr> # as1,
                         Suc n, Suc c, f), err)))"

definition reconcile_network_mounts ::
  "env \<Rightarrow> (nat \<Rightarrow> share_provider) \<Rightarrow> share_pass_config \<Rightarrow> db \<Rightarrow> db \<times> reconcile_effect list \<times> (string + mount_counts)" where
  "reconcile_network_mounts e p cfg db =
     (let ms = shares db; n = length ms; persisted = map (\<lambda>m. normpath (m_local_mount_point m)) ms;
          (s, err) = reconcile_shares e p cfg 0 (map m_id ms)
            \<lparr>sw_committed = db, sw_session = db, sw_calls = [], sw_audits = [], sw_corrected = 0, sw_failures = 0\<rparr>
      in case err of
           Some msg \<Rightarrow> (sw_committed s, sw_calls s, Inl msg)
         | None \<Rightarrow>
             (case remove_orphan_shares p cfg n persisted (sc_table cfg) of
                ((calls, as1, n', c, f), err) \<Rightarrow>
                  (case err of
                     Some msg \<Rightarrow> (sw_committed s, sw_calls s @ calls, Inl msg)
                   | None \<Rightarrow>
                       if 0 < n + n' \<and> \<not> e_db_ok e ''reconcile_mounts'' then (sw_committed s, sw_calls s @ calls, Inl ''commit failed'')
                       else (audit_add_many e ''MOUNT_RECONCILED'' (sw_audits s @ as1) (sw_session s), sw_calls s @ calls,
                             Inr \<lparr>mc_checked = n + n', mc_corrected = sw_corrected s + c, mc_failures = sw_failures s + f\<rparr>))))"

definition reconcile_mounts ::
  "env \<Rightarrow> (nat \<Rightarrow> share_provider) \<Rightarrow> share_pass_config \<Rightarrow> usb_mount_host option \<Rightarrow> db \<Rightarrow>
   db \<times> reconcile_effect list \<times> (string + mount_counts \<times> mount_counts option)" where
  "reconcile_mounts e p cfg usb db =
     (case reconcile_network_mounts e p cfg db of
        (db1, calls, Inl msg) \<Rightarrow> (db1, calls, Inl msg)
      | (db1, calls, Inr c) \<Rightarrow>
          (case usb of
             None \<Rightarrow> (db1, calls, Inr (c, None))
           | Some h \<Rightarrow>
               (case reconcile_usb_mounts e h db1 of
                  (db2, calls', Inl msg) \<Rightarrow> (db2, calls @ calls', Inl msg)
                | (db2, calls', Inr c') \<Rightarrow> (db2, calls @ calls', Inr (c, Some c')))))"

end
