(* ===== verification/Reconcile_Safety.thy ===== *)
theory Reconcile_Safety
  imports Reconcile_Mounts
begin

text \<open>
  What the reconciliation of mounts guarantees: the owner of a drive is restored only when it is unique, bound drives keep
  their project, every mount goes to the managed slot of its drive, and only stray mounts are removed.
\<close>

section \<open>The owner of a drive\<close>

text \<open>The jobs that speak for a drive: those with an open assignment to it whose target is one of the mount points in question, and
  those whose target is such a mount point unless all their assignments to the drive were released.\<close>

definition speaks_for :: "int \<Rightarrow> string list \<Rightarrow> db \<Rightarrow> export_job \<Rightarrow> bool" where
  "speaks_for drive_id candidates w j \<longleftrightarrow>
     (\<exists>a\<in>set (assignments w). a_drive_id a = drive_id \<and> a_released_at a = None \<and> get_job (a_job_id a) w = Some j \<and>
        (candidates = [] \<or> normpath (target_text j) \<in> set candidates)) \<or>
     (j \<in> set (jobs w) \<and> (\<exists>p\<in>set candidates. j_target_mount_path j = Some p) \<and>
      ((\<exists>a\<in>set (assignments w). a_drive_id a = drive_id \<and> a_job_id a = j_id j \<and> a_released_at a \<noteq> None) \<longrightarrow>
       (\<exists>a\<in>set (assignments w). a_drive_id a = drive_id \<and> a_job_id a = j_id j \<and> a_released_at a = None)))"

lemma candidates_speak:
  assumes "pk_ok j_id (jobs w)"
  shows "set (assigned_candidates i cs w) \<union> set (path_candidates i cs w) = {j. speaks_for i cs w j}"
proof -
  have a: "j \<in> set (assigned_candidates i cs w) \<longleftrightarrow>
      (\<exists>a\<in>set (assignments w). a_drive_id a = i \<and> a_released_at a = None \<and> get_job (a_job_id a) w = Some j \<and>
        (cs = [] \<or> normpath (target_text j) \<in> set cs))" for j
    by (force simp: assigned_candidates_def drive_rows_def)
  have k: "get_job (j_id j) w \<noteq> None" if "j \<in> set (jobs w)" for j
    using get_row_in [OF assms that] by (simp add: get_job_def)
  let ?R = "\<lambda>P j. j_id j \<in> set (map a_job_id (filter (\<lambda>a. P (a_released_at a)) (drive_rows i w)))"
  have r: "?R P j \<longleftrightarrow> (\<exists>a\<in>set (assignments w). a_drive_id a = i \<and> a_job_id a = j_id j \<and> P (a_released_at a))" if "j \<in> set (jobs w)" for P j
    using k [OF that] unfolding drive_rows_def set_map set_filter image_iff Bex_def mem_Collect_eq by metis
  have p: "j \<in> set (path_candidates i cs w) \<longleftrightarrow> j \<in> set (jobs w) \<and> (\<exists>p\<in>set cs. j_target_mount_path j = Some p) \<and>
      \<not> (?R (\<lambda>t. t \<noteq> None) j \<and> \<not> ?R (\<lambda>t. t = None) j)" for j
    unfolding path_candidates_def Let_def by (cases "j_target_mount_path j") simp_all
  have b: "j \<in> set (path_candidates i cs w) \<longleftrightarrow> j \<in> set (jobs w) \<and> (\<exists>p\<in>set cs. j_target_mount_path j = Some p) \<and>
      ((\<exists>a\<in>set (assignments w). a_drive_id a = i \<and> a_job_id a = j_id j \<and> a_released_at a \<noteq> None) \<longrightarrow>
       (\<exists>a\<in>set (assignments w). a_drive_id a = i \<and> a_job_id a = j_id j \<and> a_released_at a = None))" for j
    using p [of j] r [of j "\<lambda>t. t \<noteq> None"] r [of j "\<lambda>t. t = None"] by argo
  show ?thesis unfolding set_eq_iff Un_iff a b mem_Collect_eq speaks_for_def by (rule allI) (rule refl)
qed

lemma owner_cases:
  fixes N :: "'a \<Rightarrow> string"
  defines "R \<equiv> \<lambda>js. case remdups (filter (\<lambda>p. p \<noteq> []) (map N js)) of [] \<Rightarrow> No_relevant_owner | [p] \<Rightarrow> Owner p | _ \<Rightarrow> Ambiguous_owner"
  shows "R js = Owner p \<Longrightarrow> p \<noteq> [] \<and> (\<exists>j\<in>set js. N j = p) \<and> (\<forall>j\<in>set js. N j \<in> {[], p})"
    and "R js = No_relevant_owner \<Longrightarrow> \<forall>j\<in>set js. N j = []"
    and "R js = Ambiguous_owner \<Longrightarrow> \<exists>j\<in>set js. \<exists>j'\<in>set js. N j \<noteq> [] \<and> N j' \<noteq> [] \<and> N j \<noteq> N j'"
proof -
  define ps where "ps = remdups (filter (\<lambda>p. p \<noteq> []) (map N js))"
  have R: "R js = (case ps of [] \<Rightarrow> No_relevant_owner | [p] \<Rightarrow> Owner p | _ \<Rightarrow> Ambiguous_owner)" by (simp add: R_def ps_def)
  have mem: "N j = [] \<or> N j \<in> set ps" if "j \<in> set js" for j using that by (auto simp: ps_def)
  have from_ps: "\<exists>j\<in>set js. N j = a \<and> a \<noteq> []" if "a \<in> set ps" for a using that by (auto simp: ps_def)
  show "p \<noteq> [] \<and> (\<exists>j\<in>set js. N j = p) \<and> (\<forall>j\<in>set js. N j \<in> {[], p})" if "R js = Owner p"
  proof -
    have "ps = [p]" using that unfolding R by (cases ps; cases "tl ps") simp_all
    then show ?thesis using mem from_ps [of p] by auto
  qed
  show "\<forall>j\<in>set js. N j = []" if "R js = No_relevant_owner"
  proof -
    have "ps = []" using that unfolding R by (cases ps; cases "tl ps") simp_all
    then show ?thesis using mem by auto
  qed
  show "\<exists>j\<in>set js. \<exists>j'\<in>set js. N j \<noteq> [] \<and> N j' \<noteq> [] \<and> N j \<noteq> N j'" if amb: "R js = Ambiguous_owner"
  proof -
    obtain a b l where l: "ps = a # b # l" using amb unfolding R by (cases ps; cases "tl ps") simp_all
    moreover have "distinct ps" by (simp add: ps_def)
    ultimately have "a \<noteq> b" by simp
    with from_ps [of a] from_ps [of b] l show ?thesis by fastforce
  qed
qed

text \<open>C36. An owner is restored only when it is the only one: the project that reconciliation finds for a drive without binding is not empty,
  some job that speaks for the drive has it, and no job that speaks for the drive has another; if none is found, there is no such
  job or two of them disagree.\<close>

theorem owner_resolution_exact:
  assumes "pk_ok j_id (jobs w)"
  shows "case resolve_usb_drive_owner i cs w of
      Owner p \<Rightarrow> p \<noteq> [] \<and> (\<exists>j. speaks_for i cs w j \<and> normalize_project_id (j_project_id j) = p) \<and>
        (\<forall>j. speaks_for i cs w j \<longrightarrow> normalize_project_id (j_project_id j) \<in> {[], p})
    | No_relevant_owner \<Rightarrow> \<forall>j. speaks_for i cs w j \<longrightarrow> normalize_project_id (j_project_id j) = []
    | Ambiguous_owner \<Rightarrow> \<exists>j j'. speaks_for i cs w j \<and> speaks_for i cs w j' \<and> normalize_project_id (j_project_id j) \<noteq> [] \<and>
        normalize_project_id (j_project_id j') \<noteq> [] \<and> normalize_project_id (j_project_id j) \<noteq> normalize_project_id (j_project_id j')"
proof -
  let ?js = "assigned_candidates i cs w @ path_candidates i cs w" and ?N = "\<lambda>j. normalize_project_id (j_project_id j)"
  have js: "j \<in> set ?js \<longleftrightarrow> speaks_for i cs w j" for j using candidates_speak [OF assms, of i cs] unfolding set_append by blast
  let ?R = "case remdups (filter (\<lambda>p. p \<noteq> []) (map ?N ?js)) of [] \<Rightarrow> No_relevant_owner | [p] \<Rightarrow> Owner p | _ \<Rightarrow> Ambiguous_owner"
  have R: "resolve_usb_drive_owner i cs w = ?R" by (simp only: resolve_usb_drive_owner_def Let_def)
  note o = owner_cases [of ?N ?js, unfolded Bex_def Ball_def js]
  show ?thesis
  proof (cases "resolve_usb_drive_owner i cs w")
    case (Owner p)
    from o(1) [OF R [symmetric, THEN trans, OF Owner]] show ?thesis by (simp only: Owner owner_resolution.case) blast
  next
    case No_relevant_owner
    from o(2) [OF R [symmetric, THEN trans, OF No_relevant_owner]] show ?thesis by (simp only: No_relevant_owner owner_resolution.case)
  next
    case Ambiguous_owner
    from o(3) [OF R [symmetric, THEN trans, OF Ambiguous_owner]] show ?thesis by (simp only: Ambiguous_owner owner_resolution.case) blast
  qed
qed

section \<open>USB drives\<close>

lemma settle_usb_drive:
  "uo_drive (settle_usb_mount h k actual already d) = d \<or> uo_drive (settle_usb_mount h k actual already d) = d\<lparr>d_mount_path := Some (expected_target h d)\<rparr>"
  by (auto simp: settle_usb_mount_def Let_def)

text \<open>What may happen to the row of a drive.\<close>

definition usb_change :: "usb_mount_host \<Rightarrow> db \<Rightarrow> usb_drive \<Rightarrow> usb_drive \<Rightarrow> bool" where
  "usb_change h w d d' \<longleftrightarrow>
     d' = d \<or> d' = d\<lparr>d_mount_path := Some (expected_target h d)\<rparr> \<or>
     d_current_state d = IN_USE \<and> missing_project_binding (d_current_project_id d) \<and>
       (d' = d\<lparr>d_current_state := AVAILABLE, d_current_project_id := None, d_mount_path := None\<rparr> \<or>
        (\<exists>cs p. resolve_usb_drive_owner (d_id d) cs w = Owner p \<and>
          (d' = d\<lparr>d_current_project_id := drive_project_validator (Some p)\<rparr> \<or>
           d' = d\<lparr>d_current_project_id := drive_project_validator (Some p), d_mount_path := Some (expected_target h d)\<rparr>)))"

lemma release_drive: "release_without_owner h k actual d = (calls, Some d') \<Longrightarrow>
    d' = d\<lparr>d_current_state := AVAILABLE, d_current_project_id := None, d_mount_path := None\<rparr>"
  by (auto simp: release_without_owner_def Let_def split: if_splits)

lemma reconcile_usb_change: "usb_change h w d (uo_drive (reconcile_usb_drive h k w d))"
proof -
  define actual where "actual = (if truthy (d_filesystem_path d)
    then find_device_mount_point (uh_realpath h) (uh_table h k) (the (d_filesystem_path d)) else None)"
  define cs where "cs = normalized_usb_mount_candidates [actual, Some (expected_target h d), d_mount_path d]"
  show ?thesis
  proof (cases "d_current_state d = IN_USE \<and> missing_project_binding (d_current_project_id d)")
    case False
    then have "reconcile_usb_drive h k w d = settle_usb_mount h k actual False d"
      unfolding reconcile_usb_drive_def actual_def Let_def by (simp only: if_False)
    then show ?thesis using settle_usb_drive [of h k actual False d] by (auto simp: usb_change_def)
  next
    case True
    have released: ?thesis if o: "resolve_usb_drive_owner (d_id d) cs w = r" "\<And>p. r \<noteq> Owner p" for r
    proof -
      obtain calls x where c: "release_without_owner h k actual d = (calls, x)" by fastforce
      have "uo_drive (reconcile_usb_drive h k w d) = (case x of None \<Rightarrow> d | Some d' \<Rightarrow> d')"
        unfolding reconcile_usb_drive_def actual_def [symmetric] Let_def cs_def [symmetric] if_P [OF True] o(1) c
        using o(2) by (cases r; cases x) auto
      then show ?thesis using True release_drive [of h k actual d calls] c by (cases x) (auto simp: usb_change_def)
    qed
    show ?thesis
    proof (cases "resolve_usb_drive_owner (d_id d) cs w")
      case (Owner p)
      let ?d = "d\<lparr>d_current_project_id := drive_project_validator (Some p)\<rparr>"
      have d: "d\<lparr>d_current_project_id := drive_project_validator (Some p), d_current_state := IN_USE\<rparr> = ?d" using True by (cases d) simp
      have "reconcile_usb_drive h k w d = (let o1 = settle_usb_mount h k actual True (d\<lparr>d_current_project_id := drive_project_validator (Some p),
          d_current_state := IN_USE\<rparr>) in o1\<lparr>uo_audits := drive_entry h d (Some p) ''IN_USE'' (owner_reason (Owner p)) # uo_audits o1, uo_corrected := Suc (uo_corrected o1)\<rparr>)"
        unfolding reconcile_usb_drive_def actual_def [symmetric] Let_def cs_def [symmetric] if_P [OF True] Owner owner_resolution.case by (rule refl)
      then have "uo_drive (reconcile_usb_drive h k w d) = uo_drive (settle_usb_mount h k actual True ?d)" unfolding d by (simp add: Let_def)
      moreover have "expected_target h ?d = expected_target h d" by (simp add: expected_target_def)
      ultimately have "uo_drive (reconcile_usb_drive h k w d) = ?d \<or> uo_drive (reconcile_usb_drive h k w d) = ?d\<lparr>d_mount_path := Some (expected_target h d)\<rparr>"
        using settle_usb_drive [of h k actual True ?d] by (simp only:)
      then show ?thesis using True Owner unfolding usb_change_def by blast
    next
      case No_relevant_owner
      then show ?thesis by (rule released) simp
    next
      case Ambiguous_owner
      then show ?thesis by (rule released) simp
    qed
  qed
qed

end
