(* ===== verification/Discovery.thy ===== *)
theory Discovery
  imports Drive_Safety
begin

text \<open>
  \<open>app/services/discovery_service.py\<close> with the hub and port repositories
  (\<open>app/repositories/hardware_repository.py\<close>): the synchronisation of the stored topology with
  the USB hardware. The hardware snapshot, the file-system detector (which answers \<open>None\<close> when it
  raises), the host's symbolic links and the effect of a concurrent insert of the same hub or port are
  parameters, collected in the record \<open>disc_cfg\<close>.
\<close>

section \<open>Discovered hardware\<close>

record discovered_hub =
  dh_system_identifier :: string
  dh_name :: string
  dh_location_hint :: "string option"
  dh_vendor_id :: "string option"
  dh_product_id :: "string option"

record discovered_port =
  dp_hub_system_identifier :: string
  dp_port_number :: int
  dp_system_path :: string
  dp_vendor_id :: "string option"
  dp_product_id :: "string option"
  dp_speed :: "string option"

record discovered_drive =
  dd_device_identifier :: string
  dd_port_system_path :: "string option"
  dd_filesystem_path :: "string option"
  dd_capacity_bytes :: "int option"
  dd_mount_path :: "string option"
  dd_manufacturer :: "string option"
  dd_product_name :: "string option"
  dd_speed :: "string option"

record discovered_topology =
  t_hubs :: "discovered_hub list"
  t_ports :: "discovered_port list"
  t_drives :: "discovered_drive list"

record disc_cfg =
  cfg_usb_mount_base_path :: string
  cfg_realpath :: "string \<Rightarrow> string"
  cfg_detect :: "string \<Rightarrow> string option"
  cfg_race :: "db \<Rightarrow> db"
  cfg_iso :: "int \<Rightarrow> string"
  cfg_source :: "string option"
  cfg_operation_id :: string

section \<open>The hub and port repositories\<close>

definition get_hub_by_system_identifier :: "string \<Rightarrow> db \<Rightarrow> usb_hub option" where
  "get_hub_by_system_identifier sid db = find (\<lambda>h. h_system_identifier h = sid) (hubs db)"

definition get_port_by_system_path :: "string \<Rightarrow> db \<Rightarrow> usb_port option" where
  "get_port_by_system_path path db = find (\<lambda>p. p_system_path p = path) (ports db)"

text \<open>\<open>if value is not None: column = value\<close>.\<close>

definition override :: "'a option \<Rightarrow> 'a option \<Rightarrow> 'a option" where
  "override new old = (case new of None \<Rightarrow> old | Some v \<Rightarrow> Some v)"

definition hub_refresh ::
  "string \<Rightarrow> string option \<Rightarrow> string option \<Rightarrow> string option \<Rightarrow> usb_hub \<Rightarrow> usb_hub" where
  "hub_refresh name hint vid pid h =
     h\<lparr>h_name := name, h_location_hint := override hint (h_location_hint h),
       h_vendor_id := override vid (h_vendor_id h), h_product_id := override pid (h_product_id h)\<rparr>"

definition hub_update ::
  "env \<Rightarrow> usb_hub \<Rightarrow> (usb_hub \<Rightarrow> usb_hub) \<Rightarrow> db \<Rightarrow> db \<times> int option" where
  "hub_update e h f db =
     (if e_db_ok e ''hub_update'' then (db\<lparr>hubs := upd_row h_id (h_id h) f (hubs db)\<rparr>, Some (h_id h)) else (db, None))"

definition hub_upsert ::
  "env \<Rightarrow> (db \<Rightarrow> db) \<Rightarrow> string \<Rightarrow> string \<Rightarrow> string option \<Rightarrow> string option \<Rightarrow> string option \<Rightarrow> db \<Rightarrow>
   db \<times> int option" where
  "hub_upsert e race sid name hint vid pid db =
     (case get_hub_by_system_identifier sid db of
        Some h \<Rightarrow> hub_update e h (hub_refresh name hint vid pid) db
      | None \<Rightarrow>
          if e_db_ok e (''hub_insert '' @ sid) then
            (let i = next_id h_id (hubs db)
             in (db\<lparr>hubs := hubs db @ [\<lparr>h_id = i, h_name = name, h_system_identifier = sid,
                   h_location_hint = hint, h_vendor_id = vid, h_product_id = pid\<rparr>]\<rparr>, Some i))
          else (let db' = race db
                in case get_hub_by_system_identifier sid db' of
                     None \<Rightarrow> (db', None)
                   | Some h \<Rightarrow> hub_update e h (hub_refresh name hint vid pid) db'))"

definition port_refresh ::
  "int \<Rightarrow> int \<Rightarrow> string option \<Rightarrow> string option \<Rightarrow> string option \<Rightarrow> string option \<Rightarrow> usb_port \<Rightarrow> usb_port" where
  "port_refresh hub_id number label vid pid speed p =
     p\<lparr>p_hub_id := hub_id, p_port_number := number, p_friendly_label := override label (p_friendly_label p),
       p_vendor_id := override vid (p_vendor_id p), p_product_id := override pid (p_product_id p),
       p_speed := override speed (p_speed p)\<rparr>"

definition port_update ::
  "env \<Rightarrow> usb_port \<Rightarrow> (usb_port \<Rightarrow> usb_port) \<Rightarrow> db \<Rightarrow> db \<times> int option" where
  "port_update e p f db =
     (if e_db_ok e ''port_update'' then (db\<lparr>ports := upd_row p_id (p_id p) f (ports db)\<rparr>, Some (p_id p)) else (db, None))"

definition port_upsert ::
  "env \<Rightarrow> (db \<Rightarrow> db) \<Rightarrow> int \<Rightarrow> int \<Rightarrow> string \<Rightarrow> string option \<Rightarrow> string option \<Rightarrow> string option \<Rightarrow>
   string option \<Rightarrow> db \<Rightarrow> db \<times> int option" where
  "port_upsert e race hub_id number path label vid pid speed db =
     (case get_port_by_system_path path db of
        Some p \<Rightarrow> port_update e p (port_refresh hub_id number label vid pid speed) db
      | None \<Rightarrow>
          if e_db_ok e (''port_insert '' @ path) then
            (let i = next_id p_id (ports db)
             in (db\<lparr>ports := ports db @ [\<lparr>p_id = i, p_hub_id = hub_id, p_port_number = number,
                   p_system_path = path, p_friendly_label = label, p_enabled = False, p_vendor_id = vid,
                   p_product_id = pid, p_speed = speed\<rparr>]\<rparr>, Some i))
          else (let db' = race db
                in case get_port_by_system_path path db' of
                     None \<Rightarrow> (db', None)
                   | Some p \<Rightarrow> port_update e p (port_refresh hub_id number label vid pid speed) db'))"

definition set_port_enabled :: "env \<Rightarrow> int \<Rightarrow> bool \<Rightarrow> db \<Rightarrow> db \<times> bool" where
  "set_port_enabled e port_id enabled db =
     (case get_row p_id port_id (ports db) of
        None \<Rightarrow> (db, False)
      | Some p \<Rightarrow> if e_db_ok e ''port_set_enabled''
                  then (db\<lparr>ports := upd_row p_id port_id (\<lambda>p. p\<lparr>p_enabled := enabled\<rparr>) (ports db)\<rparr>, True)
                  else (db, False))"

section \<open>Metadata for logs and audit records\<close>

definition serial_metadata :: "string option \<Rightarrow> (string \<times> jval) list" where
  "serial_metadata serial =
     [(''serial_number_present'', JBool (truthy serial)),
      (''serial_number_masked'', jstr (mask_serial_number serial))]"

definition build_discovered_drive_metadata ::
  "discovered_drive \<Rightarrow> discovered_port option \<Rightarrow> int option \<Rightarrow> (string \<times> jval) list" where
  "build_discovered_drive_metadata dd dp drive_id =
     (let port_number = map_option dp_port_number dp;
          speed = (if truthy (dd_speed dd) then dd_speed dd
                   else case dp of None \<Rightarrow> None | Some p \<Rightarrow> dp_speed p)
      in [(''drive_id'', jint drive_id),
          (''device_label'', JStr (build_readable_device_label (dd_manufacturer dd) (dd_product_name dd)
             port_number (dd_capacity_bytes dd)
             (if truthy (dd_port_system_path dd) then dd_port_system_path dd else Some ''USB Drive''))),
          (''manufacturer'', jstr (dd_manufacturer dd)), (''product_name'', jstr (dd_product_name dd)),
          (''port_number'', jint port_number), (''speed'', jstr speed)] @
         serial_metadata (extract_usb_serial_number (Some (dd_device_identifier dd)) (dd_port_system_path dd)))"

definition build_persisted_drive_metadata :: "db \<Rightarrow> usb_drive \<Rightarrow> (string \<times> jval) list" where
  "build_persisted_drive_metadata db d =
     [(''drive_id'', JInt (d_id d)), (''device_label'', JStr (display_device_label db d)),
      (''manufacturer'', jstr (d_manufacturer d)), (''product_name'', jstr (d_product_name d)),
      (''port_number'', jint (drive_port_number db d)), (''speed'', jstr (drive_speed db d))] @
     serial_metadata (serial_number db d)"

definition build_drive_discovered_audit_details ::
  "env \<Rightarrow> disc_cfg \<Rightarrow> db \<Rightarrow> usb_drive \<Rightarrow> (string \<times> jval) list" where
  "build_drive_discovered_audit_details e cfg db d =
     (let port = drive_port db d;
          hub = (case port of None \<Rightarrow> None | Some p \<Rightarrow> get_row h_id (p_hub_id p) (hubs db));
          pick = (\<lambda>fp fh. case port of
                    Some p \<Rightarrow> if truthy (fp p) then fp p else (case hub of None \<Rightarrow> None | Some h \<Rightarrow> fh h)
                  | None \<Rightarrow> (case hub of None \<Rightarrow> None | Some h \<Rightarrow> fh h))
      in [(''drive_id'', JInt (d_id d)), (''device_identifier'', JStr (d_device_identifier d)),
          (''device_label'', JStr (display_device_label db d)), (''manufacturer'', jstr (d_manufacturer d)),
          (''product_name'', jstr (d_product_name d)), (''filesystem_path'', jstr (d_filesystem_path d)),
          (''filesystem_type'', jstr (d_filesystem_type d)), (''capacity_bytes'', jint (d_capacity_bytes d)),
          (''port_id'', jint (map_option p_id port)), (''port_number'', jint (map_option p_port_number port)),
          (''port_system_path'', jstr (map_option p_system_path port)), (''hub_id'', jint (map_option h_id hub)),
          (''vendor_id'', jstr (pick p_vendor_id h_vendor_id)),
          (''product_id'', jstr (pick p_product_id h_product_id)), (''speed'', jstr (drive_speed db d)),
          (''serial_number_masked'', jstr (mask_serial_number (serial_number db d))),
          (''discovery_actor'', JStr (if truthy (e_actor e) then the (e_actor e) else ''system'')),
          (''discovered_at'', JStr (cfg_iso cfg (e_now e)))])"

definition with_operation_id :: "disc_cfg \<Rightarrow> (string \<times> jval) list \<Rightarrow> (string \<times> jval) list" where
  "with_operation_id cfg details =
     (if cfg_operation_id cfg \<noteq> [] then details @ [(''operation_id'', JStr (cfg_operation_id cfg))] else details)"

section \<open>State of one synchronisation\<close>

record sync_state =
  s_db :: db
  s_inserted :: "string list"
  s_updated :: "string list"
  s_removed :: "string list"
  s_state_changes :: "jval list"
  s_observed :: "jval list"
  s_removed_meta :: "jval list"

definition state_change :: "(string \<times> jval) list \<Rightarrow> drive_state option \<Rightarrow> drive_state \<Rightarrow> jval" where
  "state_change meta prev cur =
     JObj (meta @ [(''previous_state'', jstr (map_option drive_state_value prev)),
                   (''current_state'', JStr (drive_state_value cur))])"

definition is_slot :: "disc_cfg \<Rightarrow> string option \<Rightarrow> int \<Rightarrow> bool" where
  "is_slot cfg path drive_id \<longleftrightarrow>
     truthy path \<and> is_managed_usb_mount_slot (cfg_realpath cfg) (cfg_usb_mount_base_path cfg) (the path) drive_id"

definition persisted_usb_mount_path ::
  "disc_cfg \<Rightarrow> string option \<Rightarrow> int \<Rightarrow> drive_state \<Rightarrow> string option \<Rightarrow> string option" where
  "persisted_usb_mount_path cfg discovered drive_id st existing =
     (if is_slot cfg discovered drive_id then discovered
      else if st = IN_USE \<and> is_slot cfg existing drive_id then existing
      else None)"

text \<open>The stored drive a discovered one corresponds to: by identifier, else by the serial number or the
  port path under which older releases stored it.\<close>

definition drive_by_identifier :: "string \<Rightarrow> db \<Rightarrow> usb_drive option" where
  "drive_by_identifier i db = find (\<lambda>d. d_device_identifier d = i) (drives db)"

definition legacy_drive :: "string option \<Rightarrow> db \<Rightarrow> usb_drive option" where
  "legacy_drive key db =
     (if \<not> truthy key then None
      else case drive_by_identifier (the key) db of
             None \<Rightarrow> None
           | Some d \<Rightarrow> if is_persistent_device_identifier (Some (d_device_identifier d)) then None else Some d)"

definition existing_drive :: "discovered_drive \<Rightarrow> db \<Rightarrow> usb_drive option" where
  "existing_drive dd db =
     (case drive_by_identifier (dd_device_identifier dd) db of
        Some d \<Rightarrow> Some d
      | None \<Rightarrow>
          (case legacy_drive (extract_usb_serial_number (Some (dd_device_identifier dd)) (dd_port_system_path dd)) db of
             Some d \<Rightarrow> Some d
           | None \<Rightarrow> legacy_drive (dd_port_system_path dd) db))"

section \<open>One discovered drive\<close>

definition detect_or_unknown :: "disc_cfg \<Rightarrow> string \<Rightarrow> string" where
  "detect_or_unknown cfg path = (case cfg_detect cfg path of None \<Rightarrow> ''unknown'' | Some t \<Rightarrow> t)"

definition new_drive :: "disc_cfg \<Rightarrow> discovered_drive \<Rightarrow> int option \<Rightarrow> bool \<Rightarrow> int \<Rightarrow> usb_drive" where
  "new_drive cfg dd port_id port_enabled i =
     \<lparr>d_id = i, d_port_id = port_id, d_device_identifier = dd_device_identifier dd,
      d_manufacturer = dd_manufacturer dd, d_product_name = dd_product_name dd,
      d_filesystem_path = dd_filesystem_path dd, d_capacity_bytes = dd_capacity_bytes dd,
      d_available_bytes = None, d_encryption_status = None,
      d_filesystem_type = (if truthy (dd_filesystem_path dd)
                           then Some (detect_or_unknown cfg (the (dd_filesystem_path dd))) else None),
      d_current_state = (if port_enabled then AVAILABLE else DISABLED),
      d_current_project_id = None, d_mount_path = None, d_throughput_write_mbps = None,
      d_format_status = None, d_format_failure_message = None, d_format_started_at = None,
      d_format_finished_at = None\<rparr>"

text \<open>The fields a refresh copies from the hardware, then the mount path, then the state.\<close>

definition refresh_fields :: "disc_cfg \<Rightarrow> discovered_drive \<Rightarrow> int option \<Rightarrow> usb_drive \<Rightarrow> usb_drive" where
  "refresh_fields cfg dd port_id d =
     d\<lparr>d_device_identifier := dd_device_identifier dd,
       d_port_id := override port_id (d_port_id d),
       d_filesystem_path := dd_filesystem_path dd,
       d_capacity_bytes := override (dd_capacity_bytes dd) (d_capacity_bytes d),
       d_manufacturer := override (dd_manufacturer dd) (d_manufacturer d),
       d_product_name := override (dd_product_name dd) (d_product_name d),
       d_filesystem_type := (if truthy (dd_filesystem_path dd)
                             then Some (detect_or_unknown cfg (the (dd_filesystem_path dd)))
                             else d_filesystem_type d),
       d_mount_path := persisted_usb_mount_path cfg (dd_mount_path dd) (d_id d) (d_current_state d) (d_mount_path d)\<rparr>"

definition has_project_binding :: "usb_drive \<Rightarrow> bool" where
  "has_project_binding d \<longleftrightarrow> truthy (norm_project (d_current_project_id d))"

definition refresh_state :: "bool \<Rightarrow> bool \<Rightarrow> usb_drive \<Rightarrow> usb_drive" where
  "refresh_state port_enabled live_mount d =
     (let mounted = truthy (d_mount_path d) \<or> live_mount;
          st1 = (if port_enabled \<and> mounted \<and> has_project_binding d \<and> d_current_state d \<noteq> IN_USE then IN_USE
                 else if d_current_state d \<in> {DISCONNECTED, DISABLED} \<and> port_enabled
                 then (if mounted \<and> has_project_binding d then IN_USE else AVAILABLE)
                 else d_current_state d);
          st2 = (if st1 = DISCONNECTED \<and> \<not> port_enabled then DISABLED else st1)
      in if st2 = AVAILABLE \<and> \<not> port_enabled
         then d\<lparr>d_current_state := DISABLED, d_mount_path := None\<rparr>
         else d\<lparr>d_current_state := st2\<rparr>)"

definition refresh_drive :: "disc_cfg \<Rightarrow> discovered_drive \<Rightarrow> int option \<Rightarrow> int list \<Rightarrow> usb_drive \<Rightarrow> usb_drive" where
  "refresh_drive cfg dd port_id enabled d =
     (let d1 = refresh_fields cfg dd port_id d;
          pid = (case port_id of None \<Rightarrow> d_port_id d1 | Some p \<Rightarrow> Some p);
          port_enabled = (case pid of None \<Rightarrow> False | Some p \<Rightarrow> p \<in> set enabled)
      in refresh_state port_enabled (truthy (dd_mount_path dd)) d1)"

definition audit_drive_discovered :: "env \<Rightarrow> disc_cfg \<Rightarrow> usb_drive \<Rightarrow> db \<Rightarrow> db" where
  "audit_drive_discovered e cfg d db =
     best_effort_audit e ''DRIVE_DISCOVERED'' None (Some (d_id d)) None
       (with_operation_id cfg (build_drive_discovered_audit_details e cfg db d)) db"

definition insert_discovered ::
  "env \<Rightarrow> disc_cfg \<Rightarrow> int list \<Rightarrow> int option \<Rightarrow> discovered_port option \<Rightarrow> discovered_drive \<Rightarrow> sync_state \<Rightarrow> sync_state" where
  "insert_discovered e cfg enabled port_id dp dd s =
     (let db = s_db s; i = next_id d_id (drives db);
          port_enabled = (case port_id of None \<Rightarrow> False | Some p \<Rightarrow> p \<in> set enabled);
          d = new_drive cfg dd port_id port_enabled i
      in if \<not> e_db_ok e (''drive_insert '' @ dd_device_identifier dd) then s
         else let db1 = db\<lparr>drives := drives db @ [d]\<rparr>;
                  meta = build_discovered_drive_metadata dd dp (Some i)
              in s\<lparr>s_db := audit_drive_discovered e cfg d db1,
                   s_inserted := s_inserted s @ [dd_device_identifier dd],
                   s_observed := s_observed s @ [JObj ((''action'', JStr ''inserted'') # meta)],
                   s_state_changes := s_state_changes s @ [state_change meta None (d_current_state d)]\<rparr>)"

definition update_discovered ::
  "env \<Rightarrow> disc_cfg \<Rightarrow> int list \<Rightarrow> int option \<Rightarrow> discovered_port option \<Rightarrow> discovered_drive \<Rightarrow> usb_drive \<Rightarrow>
   sync_state \<Rightarrow> sync_state" where
  "update_discovered e cfg enabled port_id dp dd existing s =
     (let db = s_db s; new = refresh_drive cfg dd port_id enabled existing
      in if new = existing then
           s\<lparr>s_observed := s_observed s @
               [JObj ((''action'', JStr ''observed'') # build_discovered_drive_metadata dd dp (Some (d_id existing)))]\<rparr>
         else if \<not> e_db_ok e (''drive_update '' @ dd_device_identifier dd) then s
         else let db1 = set_drive (d_id existing) (\<lambda>_. new) db; meta = build_persisted_drive_metadata db1 new
              in s\<lparr>s_db := db1, s_updated := s_updated s @ [dd_device_identifier dd],
                   s_observed := s_observed s @ [JObj ((''action'', JStr ''updated'') # meta)],
                   s_state_changes := s_state_changes s @
                     (if d_current_state existing \<noteq> d_current_state new
                      then [state_change meta (Some (d_current_state existing)) (d_current_state new)] else [])\<rparr>)"

definition sync_drive ::
  "env \<Rightarrow> disc_cfg \<Rightarrow> int list \<Rightarrow> (string \<times> int) list \<Rightarrow> discovered_port list \<Rightarrow> sync_state \<Rightarrow> discovered_drive \<Rightarrow> sync_state" where
  "sync_drive e cfg enabled port_ids dps s dd =
     (let dp = (case dd_port_system_path dd of None \<Rightarrow> None
                | Some p \<Rightarrow> find (\<lambda>x. dp_system_path x = p) (rev dps));
          port_id = (if truthy (dd_port_system_path dd)
                     then map_of (rev port_ids) (the (dd_port_system_path dd)) else None)
      in case existing_drive dd (s_db s) of
           None \<Rightarrow> insert_discovered e cfg enabled port_id dp dd s
         | Some d \<Rightarrow> update_discovered e cfg enabled port_id dp dd d s)"

section \<open>Absent drives and the whole synchronisation\<close>

definition disconnect_drive :: "usb_drive \<Rightarrow> usb_drive" where
  "disconnect_drive d =
     d\<lparr>d_current_state := DISCONNECTED, d_filesystem_path := None, d_mount_path := None, d_port_id := None\<rparr>"

definition audit_drive_removed :: "env \<Rightarrow> disc_cfg \<Rightarrow> usb_drive \<Rightarrow> db \<Rightarrow> db" where
  "audit_drive_removed e cfg d =
     best_effort_audit e ''DRIVE_REMOVED'' None None None
       [(''drive_id'', JInt (d_id d)), (''device_identifier'', JStr (d_device_identifier d)),
        (''operation_id'', JStr (cfg_operation_id cfg))]"

definition sync_absent :: "env \<Rightarrow> disc_cfg \<Rightarrow> string list \<Rightarrow> sync_state \<Rightarrow> usb_drive \<Rightarrow> sync_state" where
  "sync_absent e cfg discovered_ids s d =
     (if d_device_identifier d \<in> set discovered_ids \<or> d_current_state d = IN_USE then s
      else let was_available = (d_current_state d = AVAILABLE)
           in if \<not> (was_available \<or> d_filesystem_path d \<noteq> None \<or> d_mount_path d \<noteq> None \<or> d_port_id d \<noteq> None)
              then s
              else if \<not> e_db_ok e (''drive_disconnect '' @ d_device_identifier d) then s
              else let new = disconnect_drive d;
                       db1 = set_drive (d_id d) (\<lambda>_. new) (s_db s);
                       meta = build_persisted_drive_metadata db1 new;
                       s1 = s\<lparr>s_db := db1,
                              s_state_changes := s_state_changes s @
                                (if d_current_state d \<noteq> DISCONNECTED
                                 then [state_change meta (Some (d_current_state d)) DISCONNECTED] else [])\<rparr>
                   in if was_available
                      then s1\<lparr>s_db := audit_drive_removed e cfg new db1,
                              s_removed := s_removed s @ [d_device_identifier d],
                              s_removed_meta := s_removed_meta s @ [JObj meta]\<rparr>
                      else s1)"

text \<open>The loops over hubs and ports; \<open>None\<close> in place of the identifiers is an exception, which ends
  the synchronisation and leaves the rows committed so far.\<close>

fun sync_hubs :: "env \<Rightarrow> disc_cfg \<Rightarrow> discovered_hub list \<Rightarrow> db \<Rightarrow> (string \<times> int) list \<Rightarrow>
  db \<times> (string \<times> int) list option" where
  "sync_hubs e cfg [] db ids = (db, Some ids)"
| "sync_hubs e cfg (h # hs) db ids =
     (case hub_upsert e (cfg_race cfg) (dh_system_identifier h) (dh_name h) (dh_location_hint h)
             (dh_vendor_id h) (dh_product_id h) db of
        (db', None) \<Rightarrow> (db', None)
      | (db', Some i) \<Rightarrow> sync_hubs e cfg hs db' (ids @ [(dh_system_identifier h, i)]))"

definition port_hub ::
  "env \<Rightarrow> disc_cfg \<Rightarrow> string \<Rightarrow> db \<Rightarrow> (string \<times> int) list \<Rightarrow> db \<times> (int \<times> (string \<times> int) list) option" where
  "port_hub e cfg sid db hub_ids =
     (case map_of (rev hub_ids) sid of
        Some i \<Rightarrow> (db, Some (i, hub_ids))
      | None \<Rightarrow> (case hub_upsert e (cfg_race cfg) sid sid None None None db of
                  (db', None) \<Rightarrow> (db', None)
                | (db', Some i) \<Rightarrow> (db', Some (i, hub_ids @ [(sid, i)]))))"

fun sync_ports :: "env \<Rightarrow> disc_cfg \<Rightarrow> discovered_port list \<Rightarrow> db \<Rightarrow> (string \<times> int) list \<Rightarrow>
  (string \<times> int) list \<Rightarrow> db \<times> (string \<times> int) list option" where
  "sync_ports e cfg [] db hub_ids ids = (db, Some ids)"
| "sync_ports e cfg (p # ps) db hub_ids ids =
     (case port_hub e cfg (dp_hub_system_identifier p) db hub_ids of
        (db1, None) \<Rightarrow> (db1, None)
      | (db1, Some (hub_id, hub_ids1)) \<Rightarrow>
          (case port_upsert e (cfg_race cfg) hub_id (dp_port_number p) (dp_system_path p) None
                  (dp_vendor_id p) (dp_product_id p) (dp_speed p) db1 of
             (db2, None) \<Rightarrow> (db2, None)
           | (db2, Some i) \<Rightarrow> sync_ports e cfg ps db2 hub_ids1 (ids @ [(dp_system_path p, i)])))"

definition sync_drives ::
  "env \<Rightarrow> disc_cfg \<Rightarrow> discovered_topology \<Rightarrow> (string \<times> int) list \<Rightarrow> db \<Rightarrow> sync_state" where
  "sync_drives e cfg topology port_ids db =
     (let enabled = map p_id (filter p_enabled (ports db));
          s0 = \<lparr>s_db = db, s_inserted = [], s_updated = [], s_removed = [], s_state_changes = [],
                s_observed = [], s_removed_meta = []\<rparr>;
          s1 = foldl (sync_drive e cfg enabled port_ids (t_ports topology)) s0 (t_drives topology)
      in foldl (sync_absent e cfg (map dd_device_identifier (t_drives topology))) s1 (drives (s_db s1)))"

definition audit_discovery_sync ::
  "env \<Rightarrow> disc_cfg \<Rightarrow> discovered_topology \<Rightarrow> sync_state \<Rightarrow> db \<Rightarrow> db" where
  "audit_discovery_sync e cfg topology s =
     best_effort_audit e ''USB_DISCOVERY_SYNC'' None None None
       (with_operation_id cfg
         [(''hubs_upserted'', JInt (int (length (t_hubs topology)))),
          (''ports_upserted'', JInt (int (length (t_ports topology)))),
          (''drives_inserted'', JInt (int (length (s_inserted s)))),
          (''drives_updated'', JInt (int (length (s_updated s)))),
          (''drives_removed'', JInt (int (length (s_removed s)))),
          (''drive_state_changes'', JList (s_state_changes s)), (''observed_drives'', JList (s_observed s)),
          (''removed_drives'', JList (s_removed_meta s)),
          (''discovery_source'', JStr (if truthy (cfg_source cfg) then the (cfg_source cfg) else ''system''))])"

text \<open>No summary is returned when a hub or port write raised.\<close>

definition run_discovery_sync ::
  "env \<Rightarrow> disc_cfg \<Rightarrow> discovered_topology \<Rightarrow> db \<Rightarrow> db \<times> sync_state option" where
  "run_discovery_sync e cfg topology db =
     (case sync_hubs e cfg (t_hubs topology) db [] of
        (db1, None) \<Rightarrow> (db1, None)
      | (db1, Some hub_ids) \<Rightarrow>
          (case sync_ports e cfg (t_ports topology) db1 hub_ids [] of
             (db2, None) \<Rightarrow> (db2, None)
           | (db2, Some port_ids) \<Rightarrow>
               (let s = sync_drives e cfg topology port_ids db2
                in (if s_state_changes s \<noteq> [] then audit_discovery_sync e cfg topology s (s_db s) else s_db s,
                    Some s))))"

interpretation audit_drive_discovered: audit_writer "audit_drive_discovered e cfg d" for e cfg d
  by unfold_locales (simp add: audit_drive_discovered_def best_effort.appends)

interpretation audit_drive_removed: audit_writer "audit_drive_removed e cfg d" for e cfg d
  by unfold_locales (simp add: audit_drive_removed_def best_effort.appends)

interpretation audit_discovery_sync: audit_writer "audit_discovery_sync e cfg t s" for e cfg t s
  by unfold_locales (simp add: audit_discovery_sync_def best_effort.appends)

section \<open>Lemmas: what a synchronisation keeps of each drive\<close>

text \<open>Every stored drive stays, keeps its project, and does not leave the in-use state; it enters that
  state only when it carries a project.\<close>

definition drive_kept :: "usb_drive \<Rightarrow> usb_drive \<Rightarrow> bool" where
  "drive_kept d d' \<longleftrightarrow> d_id d' = d_id d \<and> d_current_project_id d' = d_current_project_id d \<and>
     (d_current_state d = IN_USE \<longrightarrow> d_current_state d' = IN_USE) \<and>
     (d_current_state d' = IN_USE \<longrightarrow> d_current_state d = IN_USE \<or> has_project_binding d)"

definition drives_kept :: "db \<Rightarrow> db \<Rightarrow> bool" where
  "drives_kept db db' \<longleftrightarrow> (\<forall>i d. get_drive i db = Some d \<longrightarrow> (\<exists>d'. get_drive i db' = Some d' \<and> drive_kept d d'))"

lemma drive_kept_refl [simp]: "drive_kept d d"
  by (simp add: drive_kept_def)

lemma drive_kept_trans: "drive_kept a b \<Longrightarrow> drive_kept b c \<Longrightarrow> drive_kept a c"
  by (auto simp: drive_kept_def has_project_binding_def)

lemma drives_kept_same: "drives db' = drives db \<Longrightarrow> drives_kept db db'"
  unfolding drives_kept_def by (metis drive_kept_refl get_drive_cong)

lemma drives_kept_trans: "drives_kept a b \<Longrightarrow> drives_kept b c \<Longrightarrow> drives_kept a c"
  unfolding drives_kept_def by (meson drive_kept_trans)

lemma get_set_drive_const:
  assumes "d_id new = i"
  shows "get_drive k (set_drive i (\<lambda>_. new) db) =
    (if k = i then map_option (\<lambda>_. new) (get_drive k db) else get_drive k db)"
proof -
  have "get_row d_id k (upd_row d_id i (\<lambda>_. new) rs) =
      (if k = i then map_option (\<lambda>_. new) (get_row d_id k rs) else get_row d_id k rs)" for rs
    using assms by (induction rs) (auto simp: upd_row_def row_simps)
  then show ?thesis by (simp add: get_drive_def frame_simps)
qed

lemma drives_kept_upd:
  assumes d: "get_drive i db = Some d" and k: "drive_kept d new"
    and s: "drives db' = drives (set_drive i (\<lambda>_. new) db)"
  shows "drives_kept db db'"
proof -
  have "d_id new = i" using k get_drive_id [OF d] by (simp add: drive_kept_def)
  then have "get_drive j db' = (if j = i then map_option (\<lambda>_. new) (get_drive j db) else get_drive j db)" for j
    using get_drive_cong [OF s] by (simp add: get_set_drive_const)
  with d k show ?thesis by (auto simp: drives_kept_def)
qed

lemma refresh_state_kept:
  "drive_kept d (refresh_state en live d)"
  by (cases "d_current_state d") (auto simp: refresh_state_def drive_kept_def Let_def)

lemma refresh_fields_kept: "drive_kept d (refresh_fields cfg dd pid d)"
  by (simp add: refresh_fields_def drive_kept_def)

lemma refresh_drive_kept: "drive_kept d (refresh_drive cfg dd pid en d)"
  unfolding refresh_drive_def Let_def by (rule drive_kept_trans [OF refresh_fields_kept refresh_state_kept])

lemma existing_drive_in: "existing_drive dd db = Some d \<Longrightarrow> d \<in> set (drives db)"
  by (auto simp: existing_drive_def legacy_drive_def drive_by_identifier_def find_Some_iff
      split: option.splits if_splits)

lemma pk_get_drive: "pk_ok d_id (drives db) \<Longrightarrow> d \<in> set (drives db) \<Longrightarrow> get_drive (d_id d) db = Some d"
  by (simp add: get_drive_def drive_rows.get_member)

lemma pk_set_drive_const:
  assumes "d_id new = i"
  shows "pk_ok d_id (drives (set_drive i (\<lambda>_. new) db)) = pk_ok d_id (drives db)"
proof -
  have "map d_id (drives (set_drive i (\<lambda>_. new) db)) = map d_id (drives db)"
    using assms by (simp add: frame_simps upd_row_def)
  then show ?thesis by (simp add: pk_ok_def)
qed

lemma insert_discovered_ok:
  assumes "pk_ok d_id (drives (s_db s))"
  shows "drives_kept (s_db s) (s_db (insert_discovered e cfg en pid dp dd s)) \<and>
    pk_ok d_id (drives (s_db (insert_discovered e cfg en pid dp dd s)))"
proof (cases "e_db_ok e (''drive_insert '' @ dd_device_identifier dd)")
  case False
  with assms show ?thesis by (simp add: insert_discovered_def Let_def drives_kept_same)
next
  case True
  let ?db = "s_db s" and ?s' = "insert_discovered e cfg en pid dp dd s"
  obtain d where d: "drives (s_db ?s') = drives ?db @ [d]" "d_id d = next_id d_id (drives ?db)"
    using True by (simp add: insert_discovered_def Let_def new_drive_def)
  then have "get_drive i (s_db ?s') = (case get_drive i ?db of None \<Rightarrow> get_row d_id i [d] | Some x \<Rightarrow> Some x)" for i
    by (simp add: get_drive_def row_simps)
  then have "drives_kept ?db (s_db ?s')" by (auto simp: drives_kept_def)
  moreover have "pk_ok d_id (drives (s_db ?s'))"
    unfolding d(1) using assms d(2) next_id_greater [of _ "drives ?db" d_id]
    by (intro pk_ok_append_fresh) (metis imageE order_less_irrefl)+
  ultimately show ?thesis by blast
qed

lemma update_discovered_ok:
  assumes "pk_ok d_id (drives (s_db s))" and "d \<in> set (drives (s_db s))"
  shows "drives_kept (s_db s) (s_db (update_discovered e cfg en pid dp dd d s)) \<and>
    pk_ok d_id (drives (s_db (update_discovered e cfg en pid dp dd d s)))"
proof -
  let ?new = "refresh_drive cfg dd pid en d" and ?s' = "update_discovered e cfg en pid dp dd d s"
  have k: "drive_kept d ?new" by (rule refresh_drive_kept)
  then have id: "d_id ?new = d_id d" by (simp add: drive_kept_def)
  have "s_db ?s' = s_db s \<or> s_db ?s' = set_drive (d_id d) (\<lambda>_. ?new) (s_db s)"
    by (auto simp: update_discovered_def Let_def)
  then show ?thesis
    using drives_kept_upd [OF pk_get_drive [OF assms] k] pk_set_drive_const [OF id] assms(1)
    by (metis drives_kept_same)
qed

lemma sync_drive_ok:
  assumes "pk_ok d_id (drives (s_db s))"
  shows "drives_kept (s_db s) (s_db (sync_drive e cfg en pids dps s dd)) \<and>
    pk_ok d_id (drives (s_db (sync_drive e cfg en pids dps s dd)))"
  using insert_discovered_ok [OF assms] update_discovered_ok [OF assms existing_drive_in]
  by (auto simp: sync_drive_def Let_def split: option.split)

lemma foldl_sync_drive_ok:
  "pk_ok d_id (drives (s_db s)) \<Longrightarrow>
     drives_kept (s_db s) (s_db (foldl (sync_drive e cfg en pids dps) s dds)) \<and>
     pk_ok d_id (drives (s_db (foldl (sync_drive e cfg en pids dps) s dds)))"
proof (induction dds arbitrary: s)
  case Nil
  then show ?case by (simp add: drives_kept_same)
next
  case (Cons dd dds)
  from sync_drive_ok [OF Cons.prems] Cons.IH show ?case by (fastforce intro: drives_kept_trans)
qed

lemma disconnect_kept: "d_current_state d \<noteq> IN_USE \<Longrightarrow> drive_kept d (disconnect_drive d)"
  by (simp add: drive_kept_def disconnect_drive_def)

lemma sync_absent_cases:
  "drives (s_db (sync_absent e cfg ids s d)) = drives (s_db s) \<or>
   (d_current_state d \<noteq> IN_USE \<and> d_device_identifier d \<notin> set ids \<and>
    drives (s_db (sync_absent e cfg ids s d)) = drives (set_drive (d_id d) (\<lambda>_. disconnect_drive d) (s_db s)))"
  by (auto simp: sync_absent_def Let_def)

lemma foldl_sync_absent_ok:
  "distinct (map d_id ds) \<Longrightarrow> (\<And>d. d \<in> set ds \<Longrightarrow> get_drive (d_id d) (s_db s) = Some d) \<Longrightarrow>
     drives_kept (s_db s) (s_db (foldl (sync_absent e cfg ids) s ds))"
proof (induction ds arbitrary: s)
  case Nil
  then show ?case by (simp add: drives_kept_same)
next
  case (Cons d ds)
  let ?s1 = "sync_absent e cfg ids s d"
  have g: "get_drive (d_id d) (s_db s) = Some d" using Cons.prems by simp
  have k1: "drives_kept (s_db s) (s_db ?s1)"
    using sync_absent_cases [of e cfg ids s d]
  proof (elim disjE conjE)
    assume "drives (s_db ?s1) = drives (s_db s)"
    then show ?thesis by (rule drives_kept_same)
  next
    assume "d_current_state d \<noteq> IN_USE"
      and "drives (s_db ?s1) = drives (set_drive (d_id d) (\<lambda>_. disconnect_drive d) (s_db s))"
    then show ?thesis by (intro drives_kept_upd [OF g disconnect_kept])
  qed
  have "get_drive (d_id x) (s_db ?s1) = Some x" if "x \<in> set ds" for x
  proof -
    have "d_id d \<notin> d_id ` set ds" using Cons.prems(1) by simp
    then have "d_id x \<noteq> d_id d" using that by (metis imageI)
    then have "get_drive (d_id x) (set_drive (d_id d) (\<lambda>_. disconnect_drive d) (s_db s)) = Some x"
      using Cons.prems(2) [of x] that get_set_drive_const [of "disconnect_drive d" "d_id d"]
      by (simp add: disconnect_drive_def)
    moreover have "get_drive (d_id x) (s_db s) = Some x" using Cons.prems(2) [of x] that by simp
    moreover have "get_drive (d_id x) (s_db ?s1) = get_drive (d_id x) (s_db s) \<or>
        get_drive (d_id x) (s_db ?s1) = get_drive (d_id x) (set_drive (d_id d) (\<lambda>_. disconnect_drive d) (s_db s))"
      using sync_absent_cases [of e cfg ids s d] get_drive_cong [of "s_db ?s1" "s_db s"]
        get_drive_cong [of "s_db ?s1" "set_drive (d_id d) (\<lambda>_. disconnect_drive d) (s_db s)"] by fast
    ultimately show ?thesis by argo
  qed
  then have "drives_kept (s_db ?s1) (s_db (foldl (sync_absent e cfg ids) ?s1 ds))"
    using Cons.prems(1) by (intro Cons.IH) simp_all
  from drives_kept_trans [OF k1 this] show ?case by simp
qed

lemma sync_drives_kept:
  assumes "pk_ok d_id (drives db)"
  shows "drives_kept db (s_db (sync_drives e cfg t pids db))"
proof -
  let ?s0 = "\<lparr>s_db = db, s_inserted = [], s_updated = [], s_removed = [], s_state_changes = [],
                s_observed = [], s_removed_meta = []\<rparr>"
  let ?s1 = "foldl (sync_drive e cfg (map p_id (filter p_enabled (ports db))) pids (t_ports t)) ?s0 (t_drives t)"
  have "drives_kept (s_db ?s0) (s_db ?s1) \<and> pk_ok d_id (drives (s_db ?s1))"
    by (rule foldl_sync_drive_ok) (simp add: assms)
  then have 1: "drives_kept db (s_db ?s1)" and pk: "pk_ok d_id (drives (s_db ?s1))" by simp_all
  have "drives_kept (s_db ?s1) (s_db (foldl (sync_absent e cfg (map dd_device_identifier (t_drives t))) ?s1 (drives (s_db ?s1))))"
    using pk by (intro foldl_sync_absent_ok) (auto simp: pk_ok_def intro: pk_get_drive)
  from drives_kept_trans [OF 1 this] show ?thesis by (simp add: sync_drives_def Let_def)
qed

lemma hub_upsert_drives:
  assumes "\<And>db. drives (race db) = drives db"
  shows "drives (fst (hub_upsert e race sid n h v p db)) = drives db"
  using assms by (auto simp: hub_upsert_def hub_update_def Let_def split: option.splits)

lemma port_upsert_drives:
  assumes "\<And>db. drives (race db) = drives db"
  shows "drives (fst (port_upsert e race h n path l v p sp db)) = drives db"
  using assms by (auto simp: port_upsert_def port_update_def Let_def split: option.splits)

lemma sync_hubs_drives:
  assumes "\<And>db. drives (cfg_race cfg db) = drives db"
  shows "drives (fst (sync_hubs e cfg hs db ids)) = drives db"
proof (induction hs arbitrary: db ids)
  case (Cons h hs)
  show ?case
    using Cons hub_upsert_drives [OF assms, of e "dh_system_identifier h" "dh_name h" "dh_location_hint h"
        "dh_vendor_id h" "dh_product_id h" db]
    by (auto split: prod.splits option.splits)
qed simp

lemma sync_ports_drives:
  assumes "\<And>db. drives (cfg_race cfg db) = drives db"
  shows "drives (fst (sync_ports e cfg ps db hids ids)) = drives db"
proof (induction ps arbitrary: db hids ids)
  case (Cons p ps)
  have "drives (fst (port_hub e cfg sid db hids)) = drives db" for sid db hids
    using hub_upsert_drives [OF assms, of e sid sid None None None db]
    by (auto simp: port_hub_def split: option.splits prod.splits)
  moreover have "drives (fst (port_upsert e (cfg_race cfg) h (dp_port_number p) (dp_system_path p) None
      (dp_vendor_id p) (dp_product_id p) (dp_speed p) db)) = drives db" for h db
    by (rule port_upsert_drives [OF assms])
  ultimately show ?case using Cons by (auto split: prod.splits option.splits) (metis fst_conv)+
qed simp

lemma run_discovery_kept:
  assumes race: "\<And>db. drives (cfg_race cfg db) = drives db" and pk: "pk_ok d_id (drives db)"
  shows "drives_kept db (fst (run_discovery_sync e cfg t db))"
proof -
  obtain db1 h where 1: "sync_hubs e cfg (t_hubs t) db [] = (db1, h)" by fastforce
  have d1: "drives db1 = drives db" using sync_hubs_drives [OF race, of e "t_hubs t" db "[]"] 1 by simp
  show ?thesis
  proof (cases h)
    case None
    with 1 d1 show ?thesis by (simp add: run_discovery_sync_def drives_kept_same)
  next
    case (Some hids)
    obtain db2 p where 2: "sync_ports e cfg (t_ports t) db1 hids [] = (db2, p)" by fastforce
    have d2: "drives db2 = drives db" using sync_ports_drives [OF race, of e "t_ports t" db1 hids "[]"] 2 d1 by simp
    then have k: "drives_kept db (s_db (sync_drives e cfg t pids db2))" for pids
      using sync_drives_kept [of db2 e cfg t pids] pk drives_kept_same [OF d2] drives_kept_trans by simp
    have "drives_kept db (audit_discovery_sync e cfg t s (s_db s))" if "drives_kept db (s_db s)" for s
      using that drives_kept_same [of "audit_discovery_sync e cfg t s (s_db s)"] drives_kept_trans by simp
    with 1 Some 2 k d2 show ?thesis
      by (auto simp: run_discovery_sync_def Let_def drives_kept_same split: option.splits)
  qed
qed

lemma override_idem [simp]: "override n (override n x) = override n x"
  by (simp add: override_def split: option.splits)

lemma persisted_idem:
  "persisted_usb_mount_path cfg disc i st' (persisted_usb_mount_path cfg disc i st m) =
     (if is_slot cfg disc i then disc
      else if st' = IN_USE \<and> st = IN_USE \<and> is_slot cfg m i then m else None)"
  by (auto simp: persisted_usb_mount_path_def is_slot_def)

lemma refresh_state_on:
  "refresh_state True live d =
     d\<lparr>d_current_state := (if d_current_state d = IN_USE \<or>
        ((truthy (d_mount_path d) \<or> live) \<and> has_project_binding d) then IN_USE else AVAILABLE)\<rparr>"
  by (cases "d_current_state d") (simp_all add: refresh_state_def Let_def)

lemma persisted_stable:
  assumes "st = IN_USE \<longrightarrow> st' = IN_USE"
  shows "persisted_usb_mount_path cfg disc i st' (persisted_usb_mount_path cfg disc i st m) =
     persisted_usb_mount_path cfg disc i st m"
  using assms unfolding persisted_idem by (simp add: persisted_usb_mount_path_def)

lemma refresh_fields_stable:
  assumes "d_current_state d = IN_USE \<longrightarrow> st = IN_USE"
  shows "refresh_fields cfg dd pid ((refresh_fields cfg dd pid d)\<lparr>d_current_state := st\<rparr>) =
     (refresh_fields cfg dd pid d)\<lparr>d_current_state := st\<rparr>"
  using persisted_stable [OF assms] by (simp add: refresh_fields_def)

definition next_state :: "bool \<Rightarrow> usb_drive \<Rightarrow> drive_state" where
  "next_state live d = (if d_current_state d = IN_USE \<or>
     ((truthy (d_mount_path d) \<or> live) \<and> has_project_binding d) then IN_USE else AVAILABLE)"

lemma refresh_drive_on:
  assumes "(case pid of None \<Rightarrow> d_port_id d | Some p \<Rightarrow> Some p) = Some q" and "q \<in> set en"
  shows "refresh_drive cfg dd pid en d =
    (refresh_fields cfg dd pid d)\<lparr>d_current_state :=
       next_state (truthy (dd_mount_path dd)) (refresh_fields cfg dd pid d)\<rparr>"
proof -
  have "(case pid of None \<Rightarrow> d_port_id (refresh_fields cfg dd pid d) | Some p \<Rightarrow> Some p) = Some q"
    using assms(1) by (cases pid) (simp_all add: override_def refresh_fields_def)
  with assms(2) show ?thesis by (simp add: refresh_drive_def Let_def refresh_state_on next_state_def)
qed

section \<open>Properties\<close>

text \<open>C20. Synchronising with the hardware respects project ownership: every stored drive survives with its
  project binding, a drive in use stays in use even when it is unplugged or its port is disabled, and no
  drive enters the in-use state unless it carries a project. The hypotheses say that primary keys are
  unique and that a concurrent insert of the same hub or port does not touch drives.\<close>

theorem discovery_preserves_ownership:
  assumes "\<And>db. drives (cfg_race cfg db) = drives db" and "pk_ok d_id (drives db)"
    and "run_discovery_sync e cfg t db = (db', s)" and "get_drive i db = Some d"
  shows "\<exists>d'. get_drive i db' = Some d' \<and> d_current_project_id d' = d_current_project_id d \<and>
     (d_current_state d = IN_USE \<longrightarrow> d_current_state d' = IN_USE) \<and>
     (d_current_state d' = IN_USE \<longrightarrow> d_current_state d = IN_USE \<or> has_project_binding d)"
  using run_discovery_kept [OF assms(1,2), of e t] assms(3,4)
  by (auto simp: drives_kept_def drive_kept_def)

text \<open>Refreshing a present drive is idempotent when its port is enabled: a second refresh with the same
  hardware changes nothing.\<close>

theorem refresh_idempotent_enabled:
  assumes "(case pid of None \<Rightarrow> d_port_id d | Some p \<Rightarrow> Some p) = Some q" and "q \<in> set en"
  shows "refresh_drive cfg dd pid en (refresh_drive cfg dd pid en d) = refresh_drive cfg dd pid en d"
proof -
  let ?f = "refresh_fields cfg dd pid d" and ?live = "truthy (dd_mount_path dd)"
  let ?st = "next_state ?live ?f"
  let ?r = "?f\<lparr>d_current_state := ?st\<rparr>"
  have once: "refresh_drive cfg dd pid en d = ?r" by (rule refresh_drive_on [OF assms])
  have "(case pid of None \<Rightarrow> d_port_id ?r | Some p \<Rightarrow> Some p) = Some q"
    using assms(1) by (cases pid) (simp_all add: override_def refresh_fields_def)
  then have "refresh_drive cfg dd pid en ?r =
      (refresh_fields cfg dd pid ?r)\<lparr>d_current_state := next_state ?live (refresh_fields cfg dd pid ?r)\<rparr>"
    by (rule refresh_drive_on) (rule assms(2))
  moreover have "refresh_fields cfg dd pid ?r = ?r"
    by (rule refresh_fields_stable) (simp add: next_state_def refresh_fields_def)
  moreover have "next_state ?live ?r = ?st" by (simp add: next_state_def has_project_binding_def)
  ultimately show ?thesis unfolding once by simp
qed

text \<open>On a disabled port the refresh is not idempotent: a mounted available drive is first disabled with
  its mount path cleared, and the next refresh of the same hardware writes the mount path back.\<close>

theorem refresh_not_idempotent_disabled:
  "let cfg = \<lparr>cfg_usb_mount_base_path = ''/mnt'', cfg_realpath = (\<lambda>p. p), cfg_detect = (\<lambda>_. Some ''ext4''),
              cfg_race = (\<lambda>db. db), cfg_iso = (\<lambda>_. ''now''), cfg_source = None, cfg_operation_id = ''op''\<rparr>;
       dd = \<lparr>dd_device_identifier = ''usb|serial=A'', dd_port_system_path = None,
             dd_filesystem_path = Some ''/dev/sdb1'', dd_capacity_bytes = None, dd_mount_path = Some ''/mnt/7'',
             dd_manufacturer = None, dd_product_name = None, dd_speed = None\<rparr>;
       once = refresh_drive cfg dd None [] (example_drive 7 AVAILABLE None (Some ''/mnt/7''));
       twice = refresh_drive cfg dd None [] once
   in d_current_state once = DISABLED \<and> d_mount_path once = None \<and>
      d_current_state twice = DISABLED \<and> d_mount_path twice = Some ''/mnt/7''"
  by code_simp

definition example_cfg :: disc_cfg where
  "example_cfg = \<lparr>cfg_usb_mount_base_path = ''/mnt'', cfg_realpath = (\<lambda>p. p), cfg_detect = (\<lambda>_. Some ''ext4''),
     cfg_race = (\<lambda>db. db), cfg_iso = (\<lambda>_. ''now''), cfg_source = None, cfg_operation_id = ''op''\<rparr>"

definition no_hardware :: discovered_topology where
  "no_hardware = \<lparr>t_hubs = [], t_ports = [], t_drives = []\<rparr>"

theorem discovery_preserves_ownership_witness:
  "\<exists>db' s d'. run_discovery_sync example_env example_cfg no_hardware
       (example_db (example_drive 7 IN_USE (Some ''P1'') (Some ''/mnt/7''))) = (db', s) \<and>
     get_drive 7 db' = Some d' \<and> d_current_state d' = IN_USE \<and> d_current_project_id d' = Some ''P1''"
proof -
  let ?d = "example_drive 7 IN_USE (Some ''P1'') (Some ''/mnt/7'')"
  obtain db' s where r: "run_discovery_sync example_env example_cfg no_hardware (example_db ?d) = (db', s)"
    by fastforce
  have "\<And>db. drives (cfg_race example_cfg db) = drives db" "pk_ok d_id (drives (example_db ?d))"
    "get_drive 7 (example_db ?d) = Some ?d"
    by (simp_all add: example_cfg_def pk_ok_def example_defs)
  from discovery_preserves_ownership [OF this(1,2) r this(3)] r show ?thesis
    by (auto simp: example_drive_def)
qed

theorem refresh_idempotent_enabled_witness:
  "let dd = \<lparr>dd_device_identifier = ''usb|serial=A'', dd_port_system_path = Some ''1-1'',
             dd_filesystem_path = Some ''/dev/sdb1'', dd_capacity_bytes = None, dd_mount_path = Some ''/mnt/7'',
             dd_manufacturer = None, dd_product_name = None, dd_speed = None\<rparr>;
       once = refresh_drive example_cfg dd (Some 4) [4] (example_drive 7 DISCONNECTED None None)
   in refresh_drive example_cfg dd (Some 4) [4] once = once"
  unfolding Let_def by (rule refresh_idempotent_enabled [of _ _ 4]) simp_all

end
