(* ===== verification/Reconcile_Usb.thy ===== *)
theory Reconcile_Usb
  imports Reconcile_Safety Discovery
begin

text \<open>
  What the USB pass of the reconciliation guarantees: bound drives keep their project, every mount goes to the managed slot of its
  drive, and only stray mounts, mounts without an owner and orphans are removed.
\<close>

section \<open>Calls for one drive\<close>

text \<open>The mount point at which the table of the host lists the device of a drive.\<close>

definition actual_mount :: "usb_mount_host \<Rightarrow> nat \<Rightarrow> usb_drive \<Rightarrow> string option" where
  "actual_mount h k d = (if truthy (d_filesystem_path d)
     then find_device_mount_point (uh_realpath h) (uh_table h k) (the (d_filesystem_path d)) else None)"

text \<open>The calls that the pass may make for a drive: mounting its device at its managed slot, and unmounting the device from another
  place, or from anywhere if the drive has no owner.\<close>

definition usb_call_ok :: "usb_mount_host \<Rightarrow> usb_drive \<Rightarrow> reconcile_effect \<Rightarrow> bool" where
  "usb_call_ok h d x \<longleftrightarrow> (case x of
     Usb_mount device target \<Rightarrow> d_filesystem_path d = Some device \<and> target = expected_target h d
   | Usb_unmount target \<Rightarrow> (\<exists>k. actual_mount h k d = Some target) \<and>
       (target \<noteq> expected_target h d \<or> d_current_state d = IN_USE \<and> missing_project_binding (d_current_project_id d))
   | Remove_dir path \<Rightarrow> path_dirname path = uh_realpath h (uh_base_path h)
   | Share_call _ \<Rightarrow> False)"

lemma truthy_the: "truthy v \<Longrightarrow> v = Some (the v)"
  by (cases v) simp_all

lemma cleanup_call_ok: "x \<in> set (cleanup_managed_mount_directory (uh_realpath h) path (uh_base_path h)) \<Longrightarrow> usb_call_ok h d x"
  by (auto simp: cleanup_managed_mount_directory_def usb_call_ok_def split: if_splits)

lemma settle_usb_calls:
  assumes "x \<in> set (uo_calls (settle_usb_mount h k (actual_mount h k' d) already d))"
  shows "usb_call_ok h d x"
proof -
  let ?a = "actual_mount h k' d"
  from assms have "truthy ?a \<and> ?a \<noteq> Some (expected_target h d) \<and> (x = Usb_unmount (the ?a) \<or>
      x \<in> set (cleanup_managed_mount_directory (uh_realpath h) (the ?a) (uh_base_path h))) \<or>
      truthy (d_filesystem_path d) \<and> x = Usb_mount (the (d_filesystem_path d)) (expected_target h d)"
    unfolding settle_usb_mount_def Let_def by (simp split: if_splits) blast+
  then show ?thesis
  proof (elim disjE conjE)
    assume a: "truthy ?a" "?a \<noteq> Some (expected_target h d)" "x = Usb_unmount (the ?a)"
    then show ?thesis using truthy_the [OF a(1)] by (auto simp: usb_call_ok_def)
  qed (auto simp: usb_call_ok_def dest: truthy_the cleanup_call_ok)
qed

lemma release_calls:
  assumes "release_without_owner h k (actual_mount h k' d) d = (calls, r)" "x \<in> set calls"
    "d_current_state d = IN_USE" "missing_project_binding (d_current_project_id d)"
  shows "usb_call_ok h d x"
proof -
  let ?a = "actual_mount h k' d"
  from assms have "truthy ?a \<and> (x = Usb_unmount (the ?a) \<or> x \<in> set (cleanup_managed_mount_directory (uh_realpath h) (the ?a) (uh_base_path h)))"
    unfolding release_without_owner_def Let_def by (auto split: if_splits)
  then show ?thesis using assms(3,4) truthy_the [of ?a] by (auto simp: usb_call_ok_def dest: cleanup_call_ok)
qed

lemma unbound_place [simp]:
  "expected_target h (d\<lparr>d_current_project_id := p\<rparr>) = expected_target h d" "actual_mount h k (d\<lparr>d_current_project_id := p\<rparr>) = actual_mount h k d"
  by (simp_all add: expected_target_def actual_mount_def)

lemma usb_call_ok_project: "usb_call_ok h (d\<lparr>d_current_project_id := p\<rparr>) x \<Longrightarrow>
    d_current_state d = IN_USE \<Longrightarrow> missing_project_binding (d_current_project_id d) \<Longrightarrow> usb_call_ok h d x"
  by (cases x) (auto simp: usb_call_ok_def)

lemma reconcile_usb_calls:
  assumes "x \<in> set (uo_calls (reconcile_usb_drive h k w d))"
  shows "usb_call_ok h d x"
proof (cases "d_current_state d = IN_USE \<and> missing_project_binding (d_current_project_id d)")
  case False
  then have "reconcile_usb_drive h k w d = settle_usb_mount h k (actual_mount h k d) False d"
    unfolding reconcile_usb_drive_def actual_mount_def Let_def by (simp only: if_False)
  then show ?thesis using assms settle_usb_calls by simp
next
  case True
  let ?cs = "normalized_usb_mount_candidates [actual_mount h k d, Some (expected_target h d), d_mount_path d]"
  obtain calls r where c: "release_without_owner h k (actual_mount h k d) d = (calls, r)" by fastforce
  note body = assms [unfolded reconcile_usb_drive_def actual_mount_def [symmetric] Let_def if_P [OF True] c]
  show ?thesis
  proof (cases "resolve_usb_drive_owner (d_id d) ?cs w")
    case (Owner p)
    let ?d = "d\<lparr>d_current_project_id := drive_project_validator (Some p)\<rparr>"
    have d: "d\<lparr>d_current_project_id := drive_project_validator (Some p), d_current_state := IN_USE\<rparr> = ?d" using True by (cases d) simp
    have "x \<in> set (uo_calls (settle_usb_mount h k (actual_mount h k ?d) True ?d))" using body unfolding Owner by (simp add: d)
    then have "usb_call_ok h ?d x" by (rule settle_usb_calls)
    then show ?thesis using True by (blast intro: usb_call_ok_project)
  next
    case No_relevant_owner
    then have "x \<in> set calls" using body by (auto split: option.splits)
    then show ?thesis using True by (blast intro: release_calls [OF c])
  next
    case Ambiguous_owner
    then have "x \<in> set calls" using body by (auto split: option.splits)
    then show ?thesis using True by (blast intro: release_calls [OF c])
  qed
qed

section \<open>The pass\<close>

lemma reconcile_usb_cong:
  assumes "jobs w' = jobs w" "assignments w' = assignments w"
  shows "reconcile_usb_drive h k w' d = reconcile_usb_drive h k w d"
proof -
  have r: "resolve_usb_drive_owner i cs w' = resolve_usb_drive_owner i cs w" for i cs
    using assms by (simp add: resolve_usb_drive_owner_def assigned_candidates_def path_candidates_def drive_rows_def get_job_def)
  show ?thesis unfolding reconcile_usb_drive_def r by (rule refl)
qed

lemma usb_change_refl: "usb_change h w d d"
  by (simp add: usb_change_def)

lemma usb_change_id: "usb_change h w d d' \<Longrightarrow> d_id d' = d_id d"
  by (auto simp: usb_change_def)

lemma reconcile_usb_fold:
  assumes "reconcile_usb_drives h k is w = (w', calls, as1, c, f)" "distinct is"
  shows "w' = w\<lparr>drives := drives w'\<rparr> \<and> (\<forall>i. i \<notin> set is \<longrightarrow> get_drive i w' = get_drive i w) \<and>
    (\<forall>i d. i \<in> set is \<and> get_drive i w = Some d \<longrightarrow> (\<exists>k. get_drive i w' = Some (uo_drive (reconcile_usb_drive h k w d)))) \<and>
    (\<forall>x\<in>set calls. \<exists>i d k. i \<in> set is \<and> get_drive i w = Some d \<and> x \<in> set (uo_calls (reconcile_usb_drive h k w d)))"
  using assms
proof (induction h k "is" w arbitrary: w' calls as1 c f rule: reconcile_usb_drives.induct)
  case (2 h k i "is" w)
  show ?case
  proof (cases "get_drive i w")
    case None
    have "reconcile_usb_drives h (Suc k) is w = (w', calls, as1, c, f)" "distinct is" using 2(3,4) None by simp_all
    note IH = 2(1) [OF None this]
    show ?thesis
    proof (intro conjI allI impI ballI)
      show "w' = w\<lparr>drives := drives w'\<rparr>" using IH by blast
      show "get_drive u w' = get_drive u w" if "u \<notin> set (i # is)" for u using IH that by simp
      show "\<exists>k. get_drive u w' = Some (uo_drive (reconcile_usb_drive h k w d))" if "u \<in> set (i # is) \<and> get_drive u w = Some d" for u d
        using IH None that by auto
      show "\<exists>u d k. u \<in> set (i # is) \<and> get_drive u w = Some d \<and> x \<in> set (uo_calls (reconcile_usb_drive h k w d))" if "x \<in> set calls" for x
        using IH that unfolding list.set insert_iff by blast
    qed
  next
    case (Some d)
    let ?r = "reconcile_usb_drive h k w d"
    let ?w = "set_drive i (\<lambda>_. uo_drive ?r) w"
    obtain w2 calls2 as2 c2 f2 where r: "reconcile_usb_drives h (Suc k) is ?w = (w2, calls2, as2, c2, f2)" by (metis prod_cases5)
    have e: "w' = w2" "calls = uo_calls ?r @ calls2" using 2(3) Some r by (simp_all add: Let_def)
    have id: "d_id (uo_drive ?r) = i" using usb_change_id [OF reconcile_usb_change] get_drive_id [OF Some] by simp
    note g = get_set_drive_const [OF id]
    have cg: "reconcile_usb_drive h k' ?w d' = reconcile_usb_drive h k' w d'" for k' d'
      by (rule reconcile_usb_cong) (simp_all add: set_drive_def)
    note IH = 2(2) [OF Some refl r, unfolded g cg]
    have w: "?w\<lparr>drives := ds\<rparr> = w\<lparr>drives := ds\<rparr>" for ds by (simp add: set_drive_def)
    have ni: "i \<notin> set is" "distinct is" using 2(4) by simp_all
    note IH' = IH [OF ni(2), unfolded w]
    show ?thesis unfolding e
    proof (intro conjI allI impI ballI)
      show "w2 = w\<lparr>drives := drives w2\<rparr>" using IH' by blast
      fix u assume "u \<notin> set (i # is)"
      then show "get_drive u w2 = get_drive u w" using IH' by simp
    next
      fix u d' assume u: "u \<in> set (i # is) \<and> get_drive u w = Some d'"
      show "\<exists>k. get_drive u w2 = Some (uo_drive (reconcile_usb_drive h k w d'))"
      proof (cases "u = i")
        case True
        then have "get_drive u w2 = Some (uo_drive ?r)" using IH' ni(1) Some by simp
        moreover have "d' = d" using u True Some by simp
        ultimately show ?thesis by blast
      next
        case False
        then show ?thesis using IH' u by simp
      qed
    next
      fix x assume "x \<in> set (uo_calls ?r @ calls2)"
      then show "\<exists>u d k. u \<in> set (i # is) \<and> get_drive u w = Some d \<and> x \<in> set (uo_calls (reconcile_usb_drive h k w d))"
      proof (unfold set_append Un_iff, elim disjE)
        assume "x \<in> set (uo_calls ?r)"
        with Some show ?thesis by force
      next
        assume "x \<in> set calls2"
        then obtain u d' k' where u: "u \<in> set is" "(if u = i then map_option (\<lambda>_. uo_drive ?r) (get_drive u w) else get_drive u w) = Some d'"
          "x \<in> set (uo_calls (reconcile_usb_drive h k' w d'))" using IH' by blast
        then have "get_drive u w = Some d'" using ni(1) by (auto split: if_splits)
        with u show ?thesis by force
      qed
    qed
  qed
qed simp

text \<open>The calls for mounts that belong to no drive: they are directly under the managed directory and no slot of a present drive.\<close>

definition orphan_call_ok :: "usb_mount_host \<Rightarrow> string list \<Rightarrow> reconcile_effect \<Rightarrow> bool" where
  "orphan_call_ok h slots x \<longleftrightarrow> (case x of
     Usb_unmount target \<Rightarrow> is_direct_child_of (uh_realpath h) target (uh_base_path h) \<and> target \<notin> set slots
   | Remove_dir path \<Rightarrow> path_dirname path = uh_realpath h (uh_base_path h)
   | _ \<Rightarrow> False)"

lemma orphan_usb_calls:
  "remove_orphan_usb_mounts h k slots ts = (calls, as1, n, c, f) \<Longrightarrow> x \<in> set calls \<Longrightarrow> orphan_call_ok h slots x"
proof (induction h k slots ts arbitrary: calls as1 n c f rule: remove_orphan_usb_mounts.induct)
  case (2 h k slots target ts)
  obtain calls' as' n' c' f' where r: "remove_orphan_usb_mounts h (Suc k) slots ts = (calls', as', n', c', f')" by (metis prod_cases5)
  have IH: "x \<in> set calls' \<Longrightarrow> orphan_call_ok h slots x" using 2(1) [OF refl] r by blast
  show ?case
  proof (cases "\<not> is_direct_child_of (uh_realpath h) (normpath target) (uh_base_path h) \<or> normpath target \<in> set slots")
    case True
    with 2(2,3) r show ?thesis by (intro IH) (simp add: Let_def)
  next
    case False
    have "x \<in> set calls' \<or> x = Usb_unmount (normpath target) \<or>
        x \<in> set (cleanup_managed_mount_directory (uh_realpath h) (normpath target) (uh_base_path h))"
      using 2(2,3) r False by (auto simp: Let_def split: if_splits)
    then show ?thesis using IH False
      by (auto simp: orphan_call_ok_def cleanup_managed_mount_directory_def split: if_splits)
  qed
qed simp

lemma managed_ids:
  assumes "pk_ok d_id (drives db)"
  shows "distinct (map d_id (managed_usb_drives db))" "i \<in> set (map d_id (managed_usb_drives db)) \<Longrightarrow> get_drive i db = Some d \<Longrightarrow> d \<in> set (managed_usb_drives db)"
proof -
  have "distinct (map d_id (filter P (drives db)))" for P using assms by (simp add: pk_ok_def distinct_map_filter)
  then show "distinct (map d_id (managed_usb_drives db))" by (simp add: managed_usb_drives_def)
  assume "i \<in> set (map d_id (managed_usb_drives db))" "get_drive i db = Some d"
  then obtain d' where d': "d' \<in> set (managed_usb_drives db)" "d_id d' = i" by auto
  then have "get_drive i db = Some d'" using get_row_in [OF assms, of d'] by (auto simp: managed_usb_drives_def get_drive_def)
  with \<open>get_drive i db = Some d\<close> d' show "d \<in> set (managed_usb_drives db)" by simp
qed

lemma usb_pass:
  assumes "reconcile_usb_mounts e h db = (db', calls, r)" "pk_ok d_id (drives db)"
  shows "db' = db\<lparr>drives := drives db', audits := audits db'\<rparr>"
    "get_drive i db = Some d \<Longrightarrow> \<exists>d'. get_drive i db' = Some d' \<and> usb_change h db d d'"
    "x \<in> set calls \<Longrightarrow> (\<exists>d\<in>set (managed_usb_drives db). usb_call_ok h d x) \<or> orphan_call_ok h (map (expected_target h) (managed_usb_drives db)) x"
proof -
  let ?ds = "managed_usb_drives db"
  obtain w calls1 as1 c1 f1 where p1: "reconcile_usb_drives h 0 (map d_id ?ds) db = (w, calls1, as1, c1, f1)" by (metis prod_cases5)
  obtain calls2 as2 n2 c2 f2 where p2: "remove_orphan_usb_mounts h (Suc (length ?ds)) (map (expected_target h) ?ds) (map fst (uh_table h (length ?ds))) = (calls2, as2, n2, c2, f2)"
    by (metis prod_cases5)
  note f = reconcile_usb_fold [OF p1 managed_ids(1) [OF assms(2)]]
  have db': "db' = db \<or> audited w db'" and calls: "calls = calls1 @ calls2"
    using assms(1) audit_add_many_audited unfolding reconcile_usb_mounts_def Let_def p1 p2 by (auto split: if_splits)
  have w: "\<exists>ds. w = db\<lparr>drives := ds\<rparr>" using f by blast
  from db' show "db' = db\<lparr>drives := drives db', audits := audits db'\<rparr>"
  proof
    assume "audited w db'"
    with w obtain ds ls where "db' = db\<lparr>drives := ds\<rparr>\<lparr>audits := ls\<rparr>" unfolding audited_def by blast
    then show ?thesis by simp
  qed simp
  show "\<exists>d'. get_drive i db' = Some d' \<and> usb_change h db d d'" if d: "get_drive i db = Some d"
  proof -
    have "get_drive i w = Some d \<or> (\<exists>k. get_drive i w = Some (uo_drive (reconcile_usb_drive h k db d)))" using f d by (cases "i \<in> set (map d_id ?ds)") auto
    then have "\<exists>d'. get_drive i w = Some d' \<and> usb_change h db d d'" using reconcile_usb_change usb_change_refl by blast
    with db' d show ?thesis using audited_frame(10) [of w db' i] usb_change_refl by metis
  qed
  assume "x \<in> set calls"
  then consider "x \<in> set calls1" | "x \<in> set calls2" using calls by auto
  then show "(\<exists>d\<in>set ?ds. usb_call_ok h d x) \<or> orphan_call_ok h (map (expected_target h) ?ds) x"
  proof cases
    case 1
    then obtain i d k where "i \<in> set (map d_id ?ds)" "get_drive i db = Some d" "x \<in> set (uo_calls (reconcile_usb_drive h k db d))"
      using f by blast
    then show ?thesis using managed_ids(2) [OF assms(2)] reconcile_usb_calls by blast
  next
    case 2
    then show ?thesis using orphan_usb_calls [OF p2] by blast
  qed
qed

lemma usb_change_bound: "usb_change h w d d' \<Longrightarrow> \<not> missing_project_binding (d_current_project_id d) \<Longrightarrow>
    d' = d \<or> d' = d\<lparr>d_mount_path := Some (expected_target h d)\<rparr>"
  by (auto simp: usb_change_def)


text \<open>Stored projects are normalised, so a binding that is not empty is a binding.\<close>

definition projects_normal :: "db \<Rightarrow> bool" where
  "projects_normal db \<longleftrightarrow> (\<forall>d\<in>set (drives db). \<forall>q. d_current_project_id d = Some q \<and> q \<noteq> [] \<longrightarrow> normalize_project_id q \<noteq> [])"

lemma usb_pass_binding:
  assumes "reconcile_usb_mounts e h db = (db', calls, r)" "pk_ok d_id (drives db)" "projects_normal db"
  shows "keeps_binding i db cs db'"
  unfolding keeps_binding_def
proof (intro allI impI)
  fix d q assume d: "get_drive i db = Some d \<and> d_current_project_id d = Some q \<and> q \<noteq> []"
  then have "d \<in> set (drives db)" by (auto simp: get_drive_def dest: get_row_Some)
  then have "\<not> missing_project_binding (d_current_project_id d)" using assms(3) d by (auto simp: projects_normal_def missing_project_binding_def)
  then show "\<exists>d'. get_drive i db' = Some d' \<and> (d_current_project_id d' = Some q \<or> (\<exists>t. OS_format (the (d_filesystem_path d)) t \<in> set cs))"
    using usb_pass(2) [OF assms(1,2), of i d] d usb_change_bound by fastforce
qed

end
