(* ===== verification/Reconcile_Net.thy ===== *)
theory Reconcile_Net
  imports Reconcile_Usb
begin

text \<open>
  What the network pass of the reconciliation guarantees: the configuration of the shares stays as it is, a share that is mounted
  from its configured source is left alone, and only wrong or orphaned managed mounts are removed.
\<close>

section \<open>The configuration of shares\<close>

text \<open>A share without its status and the time of the last check.\<close>

definition share_core :: "network_share \<Rightarrow> network_share" where
  "share_core m = m\<lparr>m_status := UNMOUNTED, m_last_checked_at := None\<rparr>"

definition shares_checked :: "db \<Rightarrow> db \<Rightarrow> bool" where
  "shares_checked w w' \<longleftrightarrow> shares_only w w' \<and> map share_core (shares w') = map share_core (shares w)"

lemma shares_checked_refl [simp]: "shares_checked w w"
  by (simp add: shares_checked_def)

lemma shares_checked_trans: "shares_checked a b \<Longrightarrow> shares_checked b c \<Longrightarrow> shares_checked a c"
  unfolding shares_checked_def using shares_only_trans by (metis (no_types))

lemma share_core_fields:
  assumes "share_core m' = share_core m"
  shows "m_id m' = m_id m" "m_remote_path m' = m_remote_path m" "m_local_mount_point m' = m_local_mount_point m"
    "m_type m' = m_type m" "m_project_id m' = m_project_id m"
  using assms by (cases m; cases m'; simp add: share_core_def)+

lemma checked_map:
  assumes "shares_checked w w'" "\<And>m m'. share_core m' = share_core m \<Longrightarrow> g m' = g m"
  shows "map g (shares w') = map g (shares w)"
proof -
  have g: "map g xs = map g ys" if "map share_core xs = map share_core ys" for xs ys
    using that
  proof (induction xs arbitrary: ys)
    case (Cons x xs)
    then obtain y zs where "ys = y # zs" "share_core x = share_core y" "map share_core xs = map share_core zs" by (cases ys) simp_all
    with Cons.IH [of zs] assms(2) [of x y] show ?case by simp
  qed simp
  have "map share_core (shares w') = map share_core (shares w)" using assms(1) unfolding shares_checked_def by (rule conjunct2)
  then show ?thesis by (rule g)
qed

lemma checked_in:
  assumes "shares_checked w w'" "m' \<in> set (shares w')"
  shows "\<exists>m\<in>set (shares w). share_core m' = share_core m"
proof -
  have "share_core m' \<in> set (map share_core (shares w'))" using assms(2) by simp
  also have "\<dots> = set (map share_core (shares w))" using assms(1) by (simp only: shares_checked_def)
  finally show ?thesis by auto
qed

lemma checked_pk: "shares_checked w w' \<Longrightarrow> pk_ok m_id (shares w') = pk_ok m_id (shares w)"
  by (drule checked_map [of w w' m_id, OF _ share_core_fields(1)]) (simp_all add: pk_ok_def)

lemma checked_ok:
  assumes "shares_checked w w'" "shares_ok w"
  shows "shares_ok w'"
proof -
  have c: "\<exists>m\<in>set (shares w). share_core m' = share_core m" if "m' \<in> set (shares w')" for m' using assms(1) that by (rule checked_in)
  have sep: "separate a' b' = separate a b" if "share_core a' = share_core a" "share_core b' = share_core b" for a a' b b'
    using separate_core [of a' a] separate_core [of b' b] share_core_fields [OF that(1)] share_core_fields [OF that(2)] separate_sym by metis
  have "map m_local_mount_point (shares w') = map m_local_mount_point (shares w)" using assms(1) share_core_fields(3) by (rule checked_map)
  moreover have "\<forall>m\<in>set (shares w'). normalize_project_id (m_project_id m) = m_project_id m \<and> m_project_id m \<noteq> []"
    using assms(2) c share_core_fields(5) unfolding shares_ok_def by metis
  moreover have "separate a' b'" if ab: "a' \<in> set (shares w')" "b' \<in> set (shares w')" "m_id a' \<noteq> m_id b'" for a' b'
  proof -
    obtain a b where "a \<in> set (shares w)" "b \<in> set (shares w)" "share_core a' = share_core a" "share_core b' = share_core b"
      using c [OF ab(1)] c [OF ab(2)] by blast
    with ab(3) assms(2) sep share_core_fields(1) show ?thesis unfolding shares_ok_def by metis
  qed
  ultimately show ?thesis using assms(2) checked_pk [OF assms(1)] unfolding shares_ok_def by metis
qed

lemma checked_set:
  assumes "\<And>m. m \<in> set (shares w) \<Longrightarrow> m_id m = i \<Longrightarrow> share_core (f m) = share_core m"
  shows "shares_checked w (set_share i f w)"
  using assms by (simp add: shares_checked_def) (simp add: set_share_def upd_row_def)

lemma checked_audited: "shares_checked w v \<Longrightarrow> audited v v' \<Longrightarrow> shares_checked w v'"
  by (auto simp: shares_checked_def shares_only_def audited_def)

lemma checked_status: "shares_checked w v \<Longrightarrow> shares_checked w (set_status i st v)"
  by (erule shares_checked_trans) (simp add: set_status_def checked_set share_core_def)

lemma validate_share_checked:
  assumes "validate_share e p i w = (w', calls, r)" "pk_ok m_id (shares w)"
  shows "shares_checked w w'"
proof (cases "get_share i w")
  case None
  with assms show ?thesis by (simp add: validate_share_def)
next
  case (Some m)
  have u: "m' = m" if "m' \<in> set (shares w)" "m_id m' = i" for m' using get_row_in [OF assms(2) that(1)] that(2) Some by (simp add: get_share_def)
  have "shares_checked w (set_share i (\<lambda>_. m\<lparr>m_status := s, m_last_checked_at := t\<rparr>) w)" for s t
    by (rule checked_set) (auto dest: u simp: share_core_def)
  then have "shares_checked w (audit_mount_validated e m' st (set_share i (\<lambda>_. m\<lparr>m_status := s, m_last_checked_at := t\<rparr>) w))" for m' st s t
    unfolding audit_mount_validated_def by (rule checked_audited) (rule best_effort_audited)
  with assms(1) Some show ?thesis
    by (auto simp: validate_share_def Let_def split: prod.splits attempt.splits if_splits)
qed

lemma validate_share_calls:
  assumes "validate_share e p i w = (w', calls, r)" "x \<in> set calls"
  shows "\<exists>m c nfs. get_share i w = Some m \<and> x = Share_mount (m_type m) (m_remote_path m) (m_local_mount_point m) c nfs"
proof (cases "get_share i w")
  case None
  with assms show ?thesis by (simp add: validate_share_def)
next
  case (Some m)
  obtain c1 a where at: "attempt_mount p 0 (m_type m) (m_remote_path m) (m_local_mount_point m) (stored_or_none p m) (m_nfs_client_version m) = (c1, a)"
    by fastforce
  have "calls = [] \<or> calls = c1"
    using assms(1) Some at unfolding validate_share_def by (cases a) (auto simp: Let_def split: if_splits)
  moreover have "\<exists>c. y = Share_mount (m_type m) (m_remote_path m) (m_local_mount_point m) c (m_nfs_client_version m)" if "y \<in> set c1" for y
    using at that by (auto simp: attempt_mount_def split: sum.splits option.splits)
  ultimately show ?thesis using assms(2) Some by fastforce
qed

section \<open>The pass\<close>

text \<open>The calls that the pass may make: a configured share is mounted, at its mount point and from its source, only when the table does not
  show it mounted from there; a mount is removed only when it has the wrong source, or belongs to no share and is directly under the
  managed directory.\<close>

definition share_call_ok :: "share_pass_config \<Rightarrow> db \<Rightarrow> reconcile_effect \<Rightarrow> bool" where
  "share_call_ok cfg db x \<longleftrightarrow> (case x of
     Share_call y \<Rightarrow> (case y of
       Share_mount t remote mp c nfs \<Rightarrow>
         \<exists>m\<in>set (shares db). m_type m = t \<and> m_remote_path m = remote \<and> m_local_mount_point m = mp \<and> map_of (sc_table cfg) (normpath mp) \<noteq> Some remote
     | Share_unmount mp \<Rightarrow>
         (\<exists>m\<in>set (shares db). m_local_mount_point m = mp \<and> (\<exists>source. map_of (sc_table cfg) (normpath mp) = Some source \<and> source \<noteq> m_remote_path m)) \<or>
         (\<forall>m\<in>set (shares db). normpath (m_local_mount_point m) \<noteq> mp) \<and> mp \<in> normpath ` fst ` set (sc_table cfg) \<and>
           is_generated_network_mount_point (sc_cwd cfg) (sc_base_path cfg) mp
     | Share_rmdir _ \<Rightarrow> False)
   | Remove_dir path \<Rightarrow> path_dirname path = sc_realpath cfg (managed_network_mount_root (sc_base_path cfg))
   | _ \<Rightarrow> False)"

definition share_pass_ok :: "share_pass_config \<Rightarrow> db \<Rightarrow> share_pass \<Rightarrow> bool" where
  "share_pass_ok cfg db s \<longleftrightarrow> shares_checked db (sw_committed s) \<and> shares_checked db (sw_session s) \<and> (\<forall>x\<in>set (sw_calls s). share_call_ok cfg db x)"

lemma remount_ok:
  assumes "share_pass_ok cfg db s" "pk_ok m_id (shares db)" "get_share (m_id m) (sw_session s) = Some m'" "share_core m' = share_core m"
    "m \<in> set (shares (sw_session s0))" "shares_checked db (sw_session s0)" "map_of (sc_table cfg) (normpath (m_local_mount_point m)) \<noteq> Some (m_remote_path m)"
  shows "share_pass_ok cfg db (remount_share e p op m s)"
proof -
  obtain w calls r where v: "validate_share (e\<lparr>e_actor := Some ''system''\<rparr>) p (m_id m) (sw_session s) = (w, calls, r)" by (metis prod_cases3)
  have s: "shares_checked db (sw_session s)" "shares_checked db (sw_committed s)" using assms(1) by (simp_all add: share_pass_ok_def)
  have "shares_checked (sw_session s) w" by (rule validate_share_checked [OF v]) (simp add: checked_pk [OF s(1)] assms(2))
  with s(1) have w: "shares_checked db w" by (rule shares_checked_trans)
  obtain m0 where m0: "m0 \<in> set (shares db)" "share_core m = share_core m0" using checked_in [OF assms(6,5)] by blast
  have c: "share_call_ok cfg db (Share_call x)" if x: "x \<in> set calls" for x
  proof -
    obtain c nfs where "x = Share_mount (m_type m') (m_remote_path m') (m_local_mount_point m') c nfs"
      using validate_share_calls [OF v x] assms(3) by auto
    then have "x = Share_mount (m_type m0) (m_remote_path m0) (m_local_mount_point m0) c nfs"
      using share_core_fields [OF assms(4)] share_core_fields [OF m0(2)] by simp
    moreover have "map_of (sc_table cfg) (normpath (m_local_mount_point m0)) \<noteq> Some (m_remote_path m0)"
      using assms(7) share_core_fields [OF m0(2)] by simp
    ultimately show ?thesis using m0(1) by (auto simp: share_call_ok_def)
  qed
  show ?thesis using assms(1) w c s checked_status unfolding remount_share_def v prod.case share_pass_ok_def
    by (cases r) (auto split: if_splits)
qed

lemma generated_cleanup_ok: "x \<in> set (generated_directory_cleanup cfg path) \<Longrightarrow> share_call_ok cfg db x"
  by (auto simp: generated_directory_cleanup_def cleanup_managed_mount_directory_def share_call_ok_def split: option.splits if_splits)

lemma get_touched:
  assumes "get_share (m_id m) w = Some m" "\<And>m. m_id (f m) = m_id m"
  shows "get_share (m_id m) (set_share (m_id m) f w) = Some (f m)"
  using assms get_upd_row [of m_id f "m_id m" "m_id m" "shares w"] by (simp add: get_share_def set_share_def)

lemma reconcile_share_ok:
  assumes "share_pass_ok cfg db s" "pk_ok m_id (shares db)" "get_share i (sw_session s) = Some m"
  shows "case reconcile_share e p cfg m s of
      Inl _ \<Rightarrow> share_call_ok cfg db (Share_call (Share_unmount (m_local_mount_point m)))
    | Inr s' \<Rightarrow> share_pass_ok cfg db s'"
proof -
  let ?f = "\<lambda>m. m\<lparr>m_last_checked_at := Some (e_now e)\<rparr>"
  define s1 where "s1 = s\<lparr>sw_session := set_share (m_id m) ?f (sw_session s)\<rparr>"
  let ?live = "map_of (sc_table cfg) (normpath (m_local_mount_point m))"
  have i: "m_id m = i" "m \<in> set (shares (sw_session s))" using get_shareD [OF assms(3)] by simp_all
  have sc: "shares_checked db (sw_session s)" using assms(1) by (simp add: share_pass_ok_def)
  have "shares_checked (sw_session s) (sw_session s1)" unfolding s1_def by (simp add: checked_set share_core_def)
  then have ok1: "share_pass_ok cfg db s1" using assms(1) shares_checked_trans [OF sc] by (simp add: share_pass_ok_def s1_def)
  have g1: "get_share (m_id m) (sw_session s1) = Some (?f m)" unfolding s1_def using assms(3) i get_touched [of m "sw_session s" ?f] by simp
  have core: "share_core (?f m) = share_core m" by (simp add: share_core_def)
  note rm = remount_ok [OF _ assms(2) _ core i(2) sc]
  have mounted: "share_pass_ok cfg db (share_is_mounted op m s1)" for op
    using ok1 checked_status by (auto simp: share_is_mounted_def share_pass_ok_def)
  show ?thesis
  proof (cases ?live)
    case None
    then have "share_pass_ok cfg db (remount_share e p op m s1)" for op by (intro rm ok1 g1) simp
    with mounted show ?thesis unfolding reconcile_share_def Let_def s1_def [symmetric] None option.case by simp
  next
    case (Some source)
    show ?thesis
    proof (cases "source = m_remote_path m")
      case True
      then show ?thesis unfolding reconcile_share_def Let_def s1_def [symmetric] Some option.case using mounted by simp
    next
      case False
      obtain m0 where m0: "m0 \<in> set (shares db)" "share_core m = share_core m0" using checked_in [OF sc i(2)] by blast
      then have un: "share_call_ok cfg db (Share_call (Share_unmount (m_local_mount_point m)))"
        using Some False share_core_fields [OF m0(2)] by (auto simp: share_call_ok_def)
      let ?called = "s1\<lparr>sw_calls := sw_calls s1 @ [Share_call (Share_unmount (m_local_mount_point m))]\<rparr>"
      have c1: "share_pass_ok cfg db ?called" using ok1 un by (simp add: share_pass_ok_def)
      then have c2: "share_pass_ok cfg db (?called\<lparr>sw_calls := sw_calls ?called @ generated_directory_cleanup cfg (m_local_mount_point m)\<rparr>)"
        using generated_cleanup_ok [of _ cfg "m_local_mount_point m" db] by (auto simp: share_pass_ok_def)
      have r: "share_pass_ok cfg db (remount_share e p op m (?called\<lparr>sw_calls := sw_calls ?called @ generated_directory_cleanup cfg (m_local_mount_point m)\<rparr>))" for op
        by (rule rm [OF c2]) (use g1 Some False in simp_all)
      have failed: "share_pass_ok cfg db (?called\<lparr>sw_session := set_status (m_id m) MOUNT_ERROR (sw_session s1), sw_corrected := n, sw_failures := n', sw_audits := a\<rparr>)" for n n' a
        using c1 checked_status by (simp add: share_pass_ok_def)
      show ?thesis using un r failed unfolding reconcile_share_def Let_def s1_def [symmetric] Some option.case if_not_P [OF False]
        by (cases "sp_unmount p 0 (m_local_mount_point m)") (simp_all split: prod.splits bool.splits)
    qed
  qed
qed

lemma reconcile_shares_ok:
  assumes "share_pass_ok cfg db s" "pk_ok m_id (shares db)" "reconcile_shares e p cfg k is s = (s', err)"
  shows "share_pass_ok cfg db s'"
  using assms
proof (induction e p cfg k "is" s rule: reconcile_shares.induct)
  case (2 e p cfg k i "is" s)
  show ?case
  proof (cases "get_share i (sw_session s)")
    case None
    with 2(1) [OF None 2(3,4)] 2(5) show ?thesis by simp
  next
    case (Some m)
    note ok = reconcile_share_ok [OF 2(3,4) Some, of e "p k"]
    show ?thesis
    proof (cases "reconcile_share e (p k) cfg m s")
      case (Inl msg)
      with 2(3,5) Some ok show ?thesis by (auto simp: share_pass_ok_def)
    next
      case (Inr s2)
      have "reconcile_shares e p cfg (Suc k) is s2 = (s', err)" using 2(5) Some Inr by simp
      moreover have "share_pass_ok cfg db s2" using ok Inr by simp
      ultimately show ?thesis using 2(2) [OF Some Inr _ 2(4)] by blast
    qed
  qed
qed simp

lemma orphan_share_calls:
  assumes "remove_orphan_shares p cfg k persisted ts = ((calls, as1, n, c, f), err)" "x \<in> set calls"
    "set ts \<subseteq> set (sc_table cfg)" "persisted = map (\<lambda>m. normpath (m_local_mount_point m)) (shares db)"
  shows "share_call_ok cfg db x"
  using assms
proof (induction p cfg k persisted ts arbitrary: calls as1 n c f err rule: remove_orphan_shares.induct)
  case (2 p cfg k persisted target source ts)
  let ?t = "normpath target"
  obtain calls' as' n' c' f' err' where r: "remove_orphan_shares p cfg (Suc k) persisted ts = ((calls', as', n', c', f'), err')" by (metis surj_pair)
  have IH: "x \<in> set calls' \<Longrightarrow> share_call_ok cfg db x" using 2(1) [OF refl] r 2(4,5) by simp
  let ?managed = "cleanup_target_for_generated_network_mount_point (sc_cwd cfg) (sc_base_path cfg) ?t"
  show ?case
  proof (cases "?t \<in> set persisted \<or> \<not> truthy ?managed")
    case True
    with 2(2,3) r show ?thesis by (intro IH) (simp add: Let_def)
  next
    case False
    have x: "x \<in> set calls' \<or> x = Share_call (Share_unmount ?t) \<or>
        x \<in> set (cleanup_managed_mount_directory (sc_realpath cfg) ?t (managed_network_mount_root (sc_base_path cfg)))"
      using 2(2,3) r False by (auto simp: Let_def split: sum.splits prod.splits if_splits)
    have "is_generated_network_mount_point (sc_cwd cfg) (sc_base_path cfg) ?t"
      using False by (cases ?managed) (simp_all add: is_generated_network_mount_point_def)
    moreover have "?t \<in> normpath ` fst ` set (sc_table cfg)" using 2(4) by force
    moreover have "\<forall>m\<in>set (shares db). normpath (m_local_mount_point m) \<noteq> ?t" using False 2(5) by (metis image_eqI list.set_map)
    ultimately have un: "share_call_ok cfg db (Share_call (Share_unmount ?t))" by (simp add: share_call_ok_def)
    from x show ?thesis
    proof (elim disjE)
      assume "x \<in> set (cleanup_managed_mount_directory (sc_realpath cfg) ?t (managed_network_mount_root (sc_base_path cfg)))"
      then show ?thesis by (auto simp: share_call_ok_def cleanup_managed_mount_directory_def split: if_splits)
    qed (simp_all add: un IH)
  qed
qed simp

lemma network_pass:
  assumes "reconcile_network_mounts e p cfg db = (db', calls, r)" "pk_ok m_id (shares db)"
  shows "shares_checked db db'" "x \<in> set calls \<Longrightarrow> share_call_ok cfg db x"
proof -
  let ?s0 = "\<lparr>sw_committed = db, sw_session = db, sw_calls = [], sw_audits = [], sw_corrected = 0, sw_failures = 0\<rparr>"
  let ?persisted = "map (\<lambda>m. normpath (m_local_mount_point m)) (shares db)"
  obtain s err where p1: "reconcile_shares e p cfg 0 (map m_id (shares db)) ?s0 = (s, err)" by fastforce
  obtain calls2 as2 n2 c2 f2 err2 where p2: "remove_orphan_shares p cfg (length (shares db)) ?persisted (sc_table cfg) = ((calls2, as2, n2, c2, f2), err2)"
    by (metis surj_pair)
  have s: "share_pass_ok cfg db s" by (rule reconcile_shares_ok [OF _ assms(2) p1]) (simp add: share_pass_ok_def)
  have "(db' = sw_committed s \<or> audited (sw_session s) db') \<and> set calls \<subseteq> set (sw_calls s) \<union> set calls2"
    using assms(1) audit_add_many_audited unfolding reconcile_network_mounts_def Let_def p1 p2 by (auto split: option.splits if_splits)
  then show "shares_checked db db'" "x \<in> set calls \<Longrightarrow> share_call_ok cfg db x"
    using s checked_audited orphan_share_calls [OF p2 _ subset_refl refl] unfolding share_pass_ok_def by blast+
qed

text \<open>C35. The network pass keeps the configuration and respects what is right: nothing but the status and the time of the last check of the shares and
  the audit log changes, so remote directories of different projects still do not overlap; a share is mounted only at its own
  mount point, from its own source and when the table does not show it there; and a mount is removed only when it has a wrong source or belongs to no
  share and is directly under the managed directory.\<close>

theorem network_mounts_safe:
  assumes "reconcile_network_mounts e p cfg db = (db', calls, r)" "shares_ok db"
  shows "shares_ok db' \<and> db'\<lparr>shares := shares db, audits := audits db\<rparr> = db \<and>
    map share_core (shares db') = map share_core (shares db) \<and> (\<forall>x\<in>set calls. share_call_ok cfg db x)"
proof -
  have pk: "pk_ok m_id (shares db)" using assms(2) by (simp add: shares_ok_def)
  note n = network_pass [OF assms(1) pk]
  show ?thesis using checked_ok [OF n(1) assms(2)] n unfolding shares_checked_def shares_only_def by blast
qed

section \<open>Both passes\<close>

lemma shares_checked_frame:
  assumes "shares_checked w w'"
  shows "drives w' = drives w" "jobs w' = jobs w" "assignments w' = assignments w" "files w' = files w"
proof -
  have e: "w'\<lparr>shares := shares w, audits := audits w\<rparr> = w" using assms by (simp add: shares_checked_def shares_only_def)
  show "drives w' = drives w" using arg_cong [OF e, of drives] by simp
  show "jobs w' = jobs w" using arg_cong [OF e, of jobs] by simp
  show "assignments w' = assignments w" using arg_cong [OF e, of assignments] by simp
  show "files w' = files w" using arg_cong [OF e, of files] by simp
qed

lemma reconcile_mounts_binding:
  assumes "reconcile_mounts e p cfg usb db = (db', calls, r)" "pk_ok m_id (shares db)" "pk_ok d_id (drives db)" "projects_normal db"
  shows "keeps_binding i db cs db'"
proof -
  obtain db1 calls1 r1 where n: "reconcile_network_mounts e p cfg db = (db1, calls1, r1)" by (metis prod_cases3)
  have d1: "drives db1 = drives db" by (rule shares_checked_frame(1) [OF network_pass(1) [OF n assms(2)]])
  then have k1: "keeps_binding i db cs db1" by (simp add: keeps_binding_def get_drive_def)
  consider "db' = db1" | h c2 r2 where "reconcile_usb_mounts e h db1 = (db', c2, r2)"
    using assms(1) n unfolding reconcile_mounts_def by (cases r1; cases usb) (auto split: prod.splits sum.splits)
  then show ?thesis
  proof cases
    case 2
    have "keeps_binding i db1 cs db'"
      using usb_pass_binding [OF 2] assms(3,4) d1 by (simp add: projects_normal_def)
    then show ?thesis using d1 by (simp add: keeps_binding_def get_drive_def)
  qed (simp add: k1)
qed

end
