(* ===== verification/Reconcile_Lock.thy ===== *)
theory Reconcile_Lock
  imports Prelude
begin

text \<open>
  The lock of the reconciliation (\<open>app/services/reconciliation_service.py\<close>, table \<open>reconciliation_lock\<close> of
  \<open>app/models/system.py\<close>): a single row that a session inserts to take the lock and deletes to give it back. Sessions of several
  processes interleave between two statements, so taking the lock is a small-step function with one step per transaction and the
  sessions form a step relation. A process may die at any time and leaves its row behind; process numbers are not used again.
\<close>

section \<open>The holder of a lock\<close>

record lock_row =
  rl_locked_by :: string
  rl_locked_at :: "int option"

definition stale_lock_seconds :: int where
  "stale_lock_seconds = 300"

text \<open>\<open>int(text)\<close>: white space around, a sign, decimal digits with single underscores between them, at most 4300 digits.\<close>

definition int_space :: "char \<Rightarrow> bool" where
  "int_space c \<longleftrightarrow> (let n = (of_char c :: nat) in 9 \<le> n \<and> n \<le> 13 \<or> n = 32)"

definition is_digit :: "char \<Rightarrow> bool" where
  "is_digit c \<longleftrightarrow> 48 \<le> (of_char c :: nat) \<and> of_char c \<le> (57::nat)"

fun underscored :: "string \<Rightarrow> bool" where
  "underscored [] \<longleftrightarrow> False"
| "underscored [c] \<longleftrightarrow> is_digit c"
| "underscored (c # d # s) \<longleftrightarrow> is_digit c \<and> (if d = CHR ''_'' then underscored s else underscored (d # s))"

definition py_int :: "string \<Rightarrow> int option" where
  "py_int s =
     (let t = py_rstrip_with int_space (py_lstrip_with int_space s);
          (negative, u) = (case t of [] \<Rightarrow> (False, []) | c # r \<Rightarrow> if c = CHR ''-'' then (True, r) else if c = CHR ''+'' then (False, r) else (False, t));
          ds = filter is_digit u
      in if underscored u \<and> length ds \<le> 4300 then Some (if negative then - int (undigits ds) else int (undigits ds)) else None)"

datatype kill_result = Signalled | No_such_process | Kill_error

text \<open>Whether the process that took the lock still runs; \<^const>\<open>None\<close> is the error of a number that no process can have, which
  the function does not catch.\<close>

definition is_holder_alive :: "(int \<Rightarrow> kill_result) \<Rightarrow> string \<Rightarrow> bool option" where
  "is_holder_alive kill locked_by =
     (if \<not> py_startswith locked_by ''pid-'' then Some True
      else case py_int (drop 4 locked_by) of
             None \<Rightarrow> Some True
           | Some pid \<Rightarrow> if pid < - (2 ^ 31) \<or> 2 ^ 31 \<le> pid then None else Some (kill pid \<noteq> No_such_process))"

definition worker_id :: "int \<Rightarrow> string" where
  "worker_id pid = ''pid-'' @ str_int pid"

section \<open>Taking the lock\<close>

datatype lock_pc =
  Lock_start | Lock_insert int | Lock_check int | Lock_retry int | Lock_reclaim int lock_row | Lock_reinsert int
| Lock_held | Lock_denied | Lock_raised | Lock_released

definition is_stale :: "int \<Rightarrow> lock_row \<Rightarrow> bool" where
  "is_stale now r \<longleftrightarrow> (case rl_locked_at r of None \<Rightarrow> False | Some t \<Rightarrow> t < now - stale_lock_seconds)"

text \<open>One transaction of \<open>_acquire_reconciliation_lock\<close>: what the table holds and where the session is. An insert that meets a row
  conflicts with the primary key. Every other failure of an insert or of the query escapes; a failure to delete the row denies the lock.\<close>

definition insert_lock :: "string \<Rightarrow> int \<Rightarrow> lock_pc \<Rightarrow> lock_row option \<Rightarrow> lock_row option \<times> lock_pc" where
  "insert_lock worker now conflict row =
     (case row of None \<Rightarrow> (Some \<lparr>rl_locked_by = worker, rl_locked_at = Some now\<rparr>, Lock_held) | Some r \<Rightarrow> (Some r, conflict))"

fun acquire_step :: "(int \<Rightarrow> kill_result) \<Rightarrow> bool \<Rightarrow> string \<Rightarrow> int \<Rightarrow> lock_row option \<times> lock_pc \<Rightarrow> lock_row option \<times> lock_pc" where
  "acquire_step kill ok worker clock (row, Lock_start) = (row, Lock_insert clock)"
| "acquire_step kill ok worker clock (row, Lock_insert now) =
     (if ok then insert_lock worker now (Lock_check now) row else (row, Lock_raised))"
| "acquire_step kill ok worker clock (row, Lock_check now) =
     (if \<not> ok then (row, Lock_raised)
      else case row of
             None \<Rightarrow> (row, Lock_retry now)
           | Some r \<Rightarrow>
               if \<not> is_stale now r then (row, Lock_denied)
               else case is_holder_alive kill (rl_locked_by r) of
                      None \<Rightarrow> (row, Lock_raised)
                    | Some alive \<Rightarrow> (row, if alive then Lock_denied else Lock_reclaim now r))"
| "acquire_step kill ok worker clock (row, Lock_retry now) =
     (if ok then insert_lock worker now Lock_denied row else (row, Lock_raised))"
| "acquire_step kill ok worker clock (row, Lock_reclaim now existing) =
     (if ok then (None, Lock_reinsert now) else (row, Lock_denied))"
| "acquire_step kill ok worker clock (row, Lock_reinsert now) =
     (if ok then insert_lock worker now Lock_denied row else (row, Lock_raised))"
| "acquire_step kill ok worker clock (row, pc) = (row, pc)"

definition refresh_reconciliation_lock :: "bool \<Rightarrow> int \<Rightarrow> lock_row option \<Rightarrow> lock_row option" where
  "refresh_reconciliation_lock ok clock row =
     (case row of Some r \<Rightarrow> if ok then Some (r\<lparr>rl_locked_at := Some clock\<rparr>) else row | None \<Rightarrow> None)"

definition release_reconciliation_lock :: "bool \<Rightarrow> lock_row option \<Rightarrow> lock_row option" where
  "release_reconciliation_lock ok row = (if ok then None else row)"

text \<open>The whole function, when no other session comes between its transactions; five transactions are the longest way through it.\<close>

definition acquire_reconciliation_lock ::
  "(int \<Rightarrow> kill_result) \<Rightarrow> bool \<Rightarrow> string \<Rightarrow> int \<Rightarrow> lock_row option \<Rightarrow> lock_row option \<times> lock_pc" where
  "acquire_reconciliation_lock kill ok worker now row = (acquire_step kill ok worker now ^^ 5) (row, Lock_start)"

lemma acquire_five: "acquire_reconciliation_lock kill ok worker now row =
    (let f = acquire_step kill ok worker now in f (f (f (f (row, Lock_insert now)))))"
  by (simp add: acquire_reconciliation_lock_def eval_nat_numeral Let_def)

definition lock_decided :: "lock_pc \<Rightarrow> bool" where
  "lock_decided pc \<longleftrightarrow> pc \<in> {Lock_held, Lock_denied, Lock_raised, Lock_released}"

text \<open>A session that is alone takes the lock exactly when it is free, or stale and left behind by a process that is gone; then
  the row names the session and its time. In every other case the row stays as it is. The function always decides.\<close>

theorem acquire_alone_exact:
  "acquire_reconciliation_lock kill True worker now row =
     (let mine = Some \<lparr>rl_locked_by = worker, rl_locked_at = Some now\<rparr>
      in case row of
           None \<Rightarrow> (mine, Lock_held)
         | Some r \<Rightarrow>
             if \<not> is_stale now r then (Some r, Lock_denied)
             else if is_holder_alive kill (rl_locked_by r) = None then (Some r, Lock_raised)
             else if is_holder_alive kill (rl_locked_by r) = Some False then (mine, Lock_held)
             else (Some r, Lock_denied)) \<and>
   lock_decided (snd (acquire_reconciliation_lock kill ok worker now row))"
  by (auto simp: acquire_five insert_lock_def lock_decided_def Let_def split: option.splits)

section \<open>The number of the holder\<close>

lemma underscored_digits: "s \<noteq> [] \<Longrightarrow> list_all is_digit s \<Longrightarrow> underscored s"
proof (induction s rule: underscored.induct)
  case (3 c d s)
  then have "d \<noteq> CHR ''_''" by (auto simp: is_digit_def)
  with 3 show ?case by simp
qed auto

lemma digits_are_digits: "list_all is_digit (digits_of_nat n)"
  using digits_of_nat_chars by (auto simp: list_all_iff is_digit_def)

lemma digit_not_space: "is_digit c \<Longrightarrow> \<not> int_space c"
  by (auto simp: is_digit_def int_space_def Let_def)

lemma strip_digits:
  assumes "list_all is_digit s"
  shows "py_rstrip_with int_space (py_lstrip_with int_space s) = s"
proof -
  have n: "\<not> int_space c" if "c \<in> set s" for c using assms that digit_not_space by (auto simp: list_all_iff)
  then have "dropWhile int_space s = s" by (cases s) auto
  moreover have "dropWhile int_space (rev s) = rev s" using n [of "last s"] by (cases "s = []") (simp_all add: dropWhile_eq_self_iff hd_rev)
  ultimately show ?thesis by (simp add: py_rstrip_with_def py_lstrip_with_def)
qed

lemma digits_length: "n < 10 ^ k \<Longrightarrow> 0 < k \<Longrightarrow> length (digits_of_nat n) \<le> k"
proof (induction n arbitrary: k rule: digits_of_nat.induct)
  case (1 n)
  show ?case
  proof (cases "n < 10")
    case True
    with 1 show ?thesis by (subst digits_of_nat.simps) simp
  next
    case False
    then obtain m where k: "k = Suc m" "0 < m" using 1 by (cases k; cases "k - 1") auto
    then have "n div 10 < 10 ^ m" using "1.prems" by simp
    from "1.IH" [OF False this k(2)] False k show ?thesis by (subst digits_of_nat.simps) simp
  qed
qed

lemma py_int_digits:
  assumes "n < 2 ^ 31"
  shows "py_int (digits_of_nat n) = Some (int n)"
proof -
  let ?s = "digits_of_nat n"
  note d = digits_are_digits [of n]
  have sign: "(case ?s of [] \<Rightarrow> (False, []) | c # r \<Rightarrow> if c = CHR ''-'' then (True, r) else if c = CHR ''+'' then (False, r) else (False, ?s)) = (False, ?s)"
    using d by (cases ?s) (auto simp: is_digit_def)
  have "n < 10 ^ 10" using assms by simp
  then have "length ?s \<le> 10" by (rule digits_length) simp
  then have "length ?s \<le> 4300" by simp
  moreover have "filter is_digit ?s = ?s" using d by (simp add: list_all_iff filter_id_conv)
  moreover have "underscored ?s" by (rule underscored_digits [OF _ d]) simp
  ultimately show ?thesis unfolding py_int_def strip_digits [OF d] Let_def sign by simp
qed

text \<open>The lock of a running process counts as alive, that of a process that is gone as dead.\<close>

lemma holder_alive_own:
  assumes "0 \<le> pid" "pid < 2 ^ 31"
  shows "is_holder_alive kill (worker_id pid) = Some (kill pid \<noteq> No_such_process)"
proof -
  have "nat pid < 2 ^ 31" using assms by simp
  from py_int_digits [OF this] assms show ?thesis
    by (simp add: is_holder_alive_def worker_id_def str_int_def py_startswith_def)
qed

section \<open>Sessions of several processes\<close>

record lock_system =
  ls_row :: "lock_row option"
  ls_pc :: "nat \<Rightarrow> lock_pc"
  ls_dead :: "int \<Rightarrow> bool"

definition kill_among :: "(int \<Rightarrow> bool) \<Rightarrow> int \<Rightarrow> kill_result" where
  "kill_among dead pid = (if dead pid then No_such_process else Signalled)"

text \<open>Session \<open>s\<close> belongs to process \<open>pid s\<close>.\<close>

inductive lock_step :: "(nat \<Rightarrow> int) \<Rightarrow> lock_system \<Rightarrow> lock_system \<Rightarrow> bool" for pid :: "nat \<Rightarrow> int" where
  lock_acquire: "\<not> ls_dead st (pid s) \<Longrightarrow> \<not> lock_decided (ls_pc st s) \<Longrightarrow>
    acquire_step (kill_among (ls_dead st)) ok (worker_id (pid s)) clock (ls_row st, ls_pc st s) = (row, pc) \<Longrightarrow>
    lock_step pid st (st\<lparr>ls_row := row, ls_pc := (ls_pc st)(s := pc)\<rparr>)"
| lock_refresh: "\<not> ls_dead st (pid s) \<Longrightarrow> ls_pc st s = Lock_held \<Longrightarrow>
    lock_step pid st (st\<lparr>ls_row := refresh_reconciliation_lock ok clock (ls_row st)\<rparr>)"
| lock_release: "\<not> ls_dead st (pid s) \<Longrightarrow> ls_pc st s = Lock_held \<Longrightarrow>
    lock_step pid st (st\<lparr>ls_row := release_reconciliation_lock ok (ls_row st), ls_pc := (ls_pc st)(s := Lock_released)\<rparr>)"
| lock_crash: "lock_step pid st (st\<lparr>ls_dead := (ls_dead st)(p := True)\<rparr>)"

definition lock_holder :: "(nat \<Rightarrow> int) \<Rightarrow> lock_system \<Rightarrow> nat \<Rightarrow> bool" where
  "lock_holder pid st s \<longleftrightarrow> \<not> ls_dead st (pid s) \<and> ls_pc st s = Lock_held"

definition lock_reclaimer :: "(nat \<Rightarrow> int) \<Rightarrow> lock_system \<Rightarrow> nat \<Rightarrow> bool" where
  "lock_reclaimer pid st s \<longleftrightarrow> \<not> ls_dead st (pid s) \<and> (\<exists>now r. ls_pc st s = Lock_reclaim now r)"

definition one_reclaimer :: "(nat \<Rightarrow> int) \<Rightarrow> lock_system \<Rightarrow> bool" where
  "one_reclaimer pid st \<longleftrightarrow> (\<forall>s t. lock_reclaimer pid st s \<and> lock_reclaimer pid st t \<longrightarrow> s = t)"

text \<open>Runs in which no two sessions are about to delete the same stale row.\<close>

inductive lock_run :: "(nat \<Rightarrow> int) \<Rightarrow> lock_system \<Rightarrow> lock_system \<Rightarrow> bool" for pid :: "nat \<Rightarrow> int" where
  lock_run_refl: "lock_run pid st st"
| lock_run_step: "lock_run pid st st' \<Longrightarrow> lock_step pid st' st'' \<Longrightarrow> one_reclaimer pid st'' \<Longrightarrow> lock_run pid st st''"

definition row_dead :: "(int \<Rightarrow> bool) \<Rightarrow> lock_row \<Rightarrow> bool" where
  "row_dead dead r \<longleftrightarrow> is_holder_alive (kill_among dead) (rl_locked_by r) = Some False"

definition lock_inv :: "(nat \<Rightarrow> int) \<Rightarrow> lock_system \<Rightarrow> bool" where
  "lock_inv pid st \<longleftrightarrow> one_reclaimer pid st \<and>
     (\<forall>s. lock_holder pid st s \<longrightarrow> (\<exists>r. ls_row st = Some r \<and> rl_locked_by r = worker_id (pid s))) \<and>
     (\<forall>s t. lock_holder pid st s \<and> lock_holder pid st t \<longrightarrow> s = t) \<and>
     (\<forall>s. lock_reclaimer pid st s \<longrightarrow> (\<exists>r. ls_row st = Some r \<and> row_dead (ls_dead st) r))"

lemma acquire_step_cases:
  assumes "acquire_step kill ok worker clock (row, pc) = (row', pc')"
  obtains (stays) "row' = row" "pc' \<noteq> Lock_held \<or> pc = Lock_held" "\<And>now r. pc' = Lock_reclaim now r \<Longrightarrow> row = Some r \<and> is_holder_alive kill (rl_locked_by r) = Some False"
  | (takes) "row = None" "\<exists>now. row' = Some \<lparr>rl_locked_by = worker, rl_locked_at = Some now\<rparr>" "pc' = Lock_held"
  | (deletes) now r where "pc = Lock_reclaim now r" "row' = None" "pc' = Lock_reinsert now"
  using assms by (cases pc) (auto simp: insert_lock_def split: if_splits option.splits bool.splits)

definition valid_pids :: "(nat \<Rightarrow> int) \<Rightarrow> bool" where
  "valid_pids pid \<longleftrightarrow> (\<forall>s. 0 \<le> pid s \<and> pid s < 2 ^ 31)"

lemma holder_row_alive:
  assumes "valid_pids pid" "\<not> dead (pid s)" "rl_locked_by r = worker_id (pid s)"
  shows "\<not> row_dead dead r"
  using assms by (simp add: row_dead_def valid_pids_def holder_alive_own kill_among_def)

lemma reclaim_excludes_holder:
  assumes "valid_pids pid" "lock_inv pid st" "lock_reclaimer pid st t"
  shows "\<not> lock_holder pid st s"
  using assms holder_row_alive [OF assms(1), of "ls_dead st" s] unfolding lock_inv_def lock_holder_def by (metis option.inject)

lemma row_dead_mono: "row_dead dead r \<Longrightarrow> row_dead (dead(p := True)) r"
  by (auto simp: row_dead_def is_holder_alive_def kill_among_def split: if_splits option.splits)

lemma lock_inv_step:
  assumes "lock_step pid st st'" "lock_inv pid st" "valid_pids pid" "one_reclaimer pid st'"
  shows "lock_inv pid st'"
  using assms(1)
proof cases
  case (lock_acquire s ok clock row pc)
  have upd: "lock_holder pid st' t \<longleftrightarrow> (if t = s then pc = Lock_held else lock_holder pid st t)"
    "lock_reclaimer pid st' t \<longleftrightarrow> (if t = s then (\<exists>now r. pc = Lock_reclaim now r) else lock_reclaimer pid st t)" for t
    using lock_acquire(1,2) by (simp_all add: lock_holder_def lock_reclaimer_def)
  have dead: "ls_dead st' = ls_dead st" "ls_row st' = row" using lock_acquire(1) by simp_all
  have nh: "\<not> lock_holder pid st s" using lock_acquire(3) by (simp add: lock_holder_def lock_decided_def)
  from lock_acquire(4) show ?thesis
  proof (cases rule: acquire_step_cases)
    case stays
    then have "pc \<noteq> Lock_held" using lock_acquire(3) by (auto simp: lock_decided_def)
    with stays show ?thesis using assms(2,4) unfolding lock_inv_def upd dead by (auto simp: row_dead_def)
  next
    case takes
    then have "\<not> lock_holder pid st t" "\<not> lock_reclaimer pid st t" for t using assms(2) by (auto simp: lock_inv_def)
    with takes show ?thesis using assms(4) unfolding lock_inv_def upd dead by auto
  next
    case (deletes now r)
    then have r: "lock_reclaimer pid st s" using lock_acquire(2) by (simp add: lock_reclaimer_def)
    have "\<not> lock_holder pid st t" for t by (rule reclaim_excludes_holder [OF assms(3,2) r])
    moreover have "\<not> lock_reclaimer pid st t" if "t \<noteq> s" for t using assms(2) r that by (auto simp: lock_inv_def one_reclaimer_def)
    ultimately show ?thesis using deletes assms(4) unfolding lock_inv_def upd dead by auto
  qed
next
  case (lock_refresh s ok clock)
  have h: "lock_holder pid st s" using lock_refresh by (simp add: lock_holder_def)
  then have nr: "\<not> lock_reclaimer pid st t" for t using reclaim_excludes_holder [OF assms(3,2)] by blast
  have upd: "lock_holder pid st' t = lock_holder pid st t" "lock_reclaimer pid st' t = lock_reclaimer pid st t" for t
    using lock_refresh by (simp_all add: lock_holder_def lock_reclaimer_def)
  obtain r where "ls_row st = Some r" "rl_locked_by r = worker_id (pid s)" using assms(2) h by (auto simp: lock_inv_def)
  then have "\<exists>r'. ls_row st' = Some r' \<and> rl_locked_by r' = worker_id (pid s)"
    using lock_refresh by (auto simp: refresh_reconciliation_lock_def)
  with nr h show ?thesis using assms(2,4) unfolding lock_inv_def upd by metis
next
  case (lock_release s ok)
  have h: "lock_holder pid st s" using lock_release by (simp add: lock_holder_def)
  then have "\<not> lock_reclaimer pid st t" for t using reclaim_excludes_holder [OF assms(3,2)] by blast
  moreover have "\<not> lock_holder pid st' t" for t using assms(2) h lock_release by (auto simp: lock_inv_def lock_holder_def)
  moreover have "lock_reclaimer pid st' t \<Longrightarrow> lock_reclaimer pid st t" for t using lock_release by (auto simp: lock_reclaimer_def split: if_splits)
  ultimately show ?thesis using assms(4) by (auto simp: lock_inv_def)
next
  case (lock_crash p)
  have "lock_holder pid st' t \<Longrightarrow> lock_holder pid st t" "lock_reclaimer pid st' t \<Longrightarrow> lock_reclaimer pid st t" for t
    using lock_crash by (auto simp: lock_holder_def lock_reclaimer_def split: if_splits)
  then show ?thesis using assms(2,4) lock_crash row_dead_mono unfolding lock_inv_def by fastforce
qed

definition lock_init :: "lock_row option \<Rightarrow> (int \<Rightarrow> bool) \<Rightarrow> lock_system" where
  "lock_init row dead = \<lparr>ls_row = row, ls_pc = (\<lambda>_. Lock_start), ls_dead = dead\<rparr>"

lemma lock_run_inv:
  assumes "lock_run pid st0 st" "st0 = lock_init row dead" "valid_pids pid"
  shows "lock_inv pid st"
  using assms
proof (induction rule: lock_run.induct)
  case (lock_run_refl st)
  then show ?case by (simp add: lock_inv_def lock_init_def lock_holder_def lock_reclaimer_def one_reclaimer_def)
next
  case (lock_run_step st st' st'')
  then show ?case using lock_inv_step by blast
qed

text \<open>C16. Reconciliation is exclusive: whatever row an earlier run left behind, with any number of processes whose sessions interleave
  between transactions, fail to commit and die at any point, no two live sessions hold the lock at once, as long as no two of them are about
  to delete the same stale row; and the row then names the process of the holder.\<close>

theorem lock_exclusive:
  assumes "lock_run pid (lock_init row dead) st" "valid_pids pid" "lock_holder pid st s"
  shows "(\<forall>t. lock_holder pid st t \<longrightarrow> t = s) \<and> (\<exists>r. ls_row st = Some r \<and> rl_locked_by r = worker_id (pid s))"
  using lock_run_inv [OF assms(1) refl assms(2)] assms(3) unfolding lock_inv_def by blast

text \<open>Without that condition the lock is not exclusive: two sessions that both saw the stale row delete one after the other, and
  the second deletes the row that the first has just inserted.\<close>

definition session_turn :: "(nat \<Rightarrow> int) \<Rightarrow> nat \<Rightarrow> lock_system \<Rightarrow> lock_system" where
  "session_turn pid s st =
     (case acquire_step (kill_among (ls_dead st)) True (worker_id (pid s)) 1000 (ls_row st, ls_pc st s) of
        (row, pc) \<Rightarrow> st\<lparr>ls_row := row, ls_pc := (ls_pc st)(s := pc)\<rparr>)"

lemma session_turn_step: "\<not> ls_dead st (pid s) \<Longrightarrow> \<not> lock_decided (ls_pc st s) \<Longrightarrow> lock_step pid st (session_turn pid s st)"
  unfolding session_turn_def by (auto intro: lock_acquire split: prod.splits)

fun session_turns :: "(nat \<Rightarrow> int) \<Rightarrow> nat list \<Rightarrow> lock_system \<Rightarrow> lock_system option" where
  "session_turns pid [] st = Some st"
| "session_turns pid (s # ss) st =
     (if ls_dead st (pid s) \<or> lock_decided (ls_pc st s) then None else session_turns pid ss (session_turn pid s st))"

lemma session_turns_steps: "session_turns pid ss st = Some st' \<Longrightarrow> (lock_step pid)\<^sup>*\<^sup>* st st'"
proof (induction ss arbitrary: st)
  case (Cons s ss)
  then have "lock_step pid st (session_turn pid s st)" "(lock_step pid)\<^sup>*\<^sup>* (session_turn pid s st) st'"
    by (auto split: if_splits intro: session_turn_step)
  then show ?case by (rule converse_rtranclp_into_rtranclp)
qed simp

definition example_pid :: "nat \<Rightarrow> int" where
  "example_pid s = (if s = 0 then 100 else if s = 1 then 200 else 300)"

definition stale_system :: lock_system where
  "stale_system = lock_init (Some \<lparr>rl_locked_by = ''pid-77'', rl_locked_at = Some 0\<rparr>) (\<lambda>p. p = 77)"

lemma some_holds: "(case x of None \<Rightarrow> False | Some a \<Rightarrow> P a) \<Longrightarrow> \<exists>a. x = Some a \<and> P a"
  by (cases x) simp_all

theorem stale_reclaim_race:
  "\<exists>st. (lock_step example_pid)\<^sup>*\<^sup>* stale_system st \<and> lock_holder example_pid st 0 \<and> lock_holder example_pid st 1"
proof -
  have "case session_turns example_pid [0, 0, 0, 1, 1, 1, 0, 0, 1, 1] stale_system of
      None \<Rightarrow> False | Some st \<Rightarrow> lock_holder example_pid st 0 \<and> lock_holder example_pid st 1"
    by code_simp
  then obtain st where "session_turns example_pid [0, 0, 0, 1, 1, 1, 0, 0, 1, 1] stale_system = Some st"
    "lock_holder example_pid st 0" "lock_holder example_pid st 1" by (blast dest: some_holds)
  then show ?thesis using session_turns_steps by blast
qed

lemma solo_run:
  assumes "session_turns pid ss st = Some st'" "set ss \<subseteq> {s}" "\<And>t. t \<noteq> s \<Longrightarrow> ls_pc st t = Lock_start" "lock_run pid st0 st"
  shows "lock_run pid st0 st'"
  using assms
proof (induction ss arbitrary: st)
  case (Cons u ss)
  then have u: "u = s" "\<not> ls_dead st (pid s)" "\<not> lock_decided (ls_pc st s)" by (auto split: if_splits)
  have others: "ls_pc (session_turn pid s st) t = Lock_start" if "t \<noteq> s" for t
    using Cons.prems(3) that by (simp add: session_turn_def split: prod.splits)
  then have "one_reclaimer pid (session_turn pid s st)"
    unfolding one_reclaimer_def lock_reclaimer_def by (metis lock_pc.distinct(7))
  then have "lock_run pid st0 (session_turn pid s st)"
    by (rule lock_run_step [OF Cons.prems(4)  session_turn_step [of st pid s, OF u(2,3)]])
  then show ?case using Cons.prems(1,2) u others by (intro Cons.IH) auto
qed simp

theorem lock_exclusive_witness:
  "\<exists>st. lock_run example_pid stale_system st \<and> lock_holder example_pid st 1 \<and> (\<forall>t. lock_holder example_pid st t \<longrightarrow> t = 1) \<and>
     (\<exists>r. ls_row st = Some r \<and> rl_locked_by r = ''pid-200'')"
proof -
  have "case session_turns example_pid [1, 1, 1, 1, 1] stale_system of None \<Rightarrow> False | Some st \<Rightarrow> lock_holder example_pid st 1"
    by code_simp
  then obtain st where st: "session_turns example_pid [1, 1, 1, 1, 1] stale_system = Some st" and h: "lock_holder example_pid st 1" by (blast dest: some_holds)
  have run: "lock_run example_pid stale_system st"
    by (rule solo_run [OF st, of 1]) (simp_all add: stale_system_def lock_init_def lock_run_refl)
  have p: "valid_pids example_pid" by (simp add: valid_pids_def example_pid_def)
  have "worker_id (example_pid 1) = ''pid-200''" by code_simp
  with lock_exclusive [OF run [unfolded stale_system_def] p h] run h show ?thesis by metis
qed

end
