(* ===== verification/Os_Users.thy ===== *)
theory Os_Users
  imports Paths "HOL-Library.List_Lexorder" "HOL-Library.Char_ord"
begin

text \<open>
  Accounts of the operating system (\<open>app/services/os_user_service.py\<close>, constants of \<open>app/constants.py\<close>). The account
  databases of the host are the state; every privileged command is recorded with its arguments and its input, and its effect on the databases and its
  exit are an argument of the model. An operation is a state-passing function that records its commands and may end in an error.
\<close>

section \<open>Names\<close>

definition ecube_group_role_map :: "(string \<times> string) list" where
  "ecube_group_role_map =
     [(''ecube-admins'', ''admin''), (''ecube-managers'', ''manager''), (''ecube-processors'', ''processor''), (''ecube-auditors'', ''auditor'')]"

definition ecube_groups :: "string list" where
  "ecube_groups = map fst ecube_group_role_map"

definition ecube_group_prefix :: string where
  "ecube_group_prefix = ''ecube-''"

definition reserved_usernames :: "string list" where
  "reserved_usernames = [''root'', ''ecube'', ''nobody'', ''daemon'', ''bin'', ''sys'', ''www-data'']"

definition lower_letter :: "char \<Rightarrow> bool" where
  "lower_letter c \<longleftrightarrow> (let n = (of_char c :: nat) in 97 \<le> n \<and> n \<le> 122)"

definition name_char :: "char \<Rightarrow> bool" where
  "name_char c \<longleftrightarrow> lower_letter c \<or> c = CHR ''_'' \<or> c = CHR ''-'' \<or> (let n = (of_char c :: nat) in 48 \<le> n \<and> n \<le> 57)"

definition name_body :: "string \<Rightarrow> bool" where
  "name_body s \<longleftrightarrow> (case s of [] \<Rightarrow> False | c # r \<Rightarrow> (lower_letter c \<or> c = CHR ''_'') \<and> list_all name_char r \<and> length r \<le> 31)"

text \<open>The anchor at the end of the pattern also matches before a newline that ends the text.\<close>

definition username_re :: "string \<Rightarrow> bool" where
  "username_re s \<longleftrightarrow> name_body s \<or> (s \<noteq> [] \<and> last s = newline \<and> name_body (butlast s))"

section \<open>Accounts and commands\<close>

record passwd_entry =
  pw_name :: string
  pw_uid :: int
  pw_gid :: int
  pw_dir :: string
  pw_shell :: string

record group_entry =
  gr_name :: string
  gr_gid :: int
  gr_mem :: "string list"

record os_accounts =
  os_passwd :: "passwd_entry list"
  os_groups :: "group_entry list"

datatype exec_result = Exec_exited int string | Exec_timed_out | Exec_raised string

record os_host =
  oh_exec :: "os_accounts \<Rightarrow> string list \<Rightarrow> string option \<Rightarrow> os_accounts \<times> exec_result"
  oh_use_sudo :: bool
  oh_useradd :: string
  oh_usermod :: string
  oh_userdel :: string
  oh_groupadd :: string
  oh_groupdel :: string
  oh_chpasswd :: string
  oh_chage :: string
  oh_shell :: string
  oh_demo_mode :: bool
  oh_demo_disable_password_change :: bool
  oh_demo_accounts :: "string list"

datatype user_error = Value_error string | Authorization_error string | Os_user_error string "int option" | No_such_entry | Other_error string

record os_user =
  ou_username :: string
  ou_uid :: int
  ou_gid :: int
  ou_home :: string
  ou_shell :: string
  ou_groups :: "string list"

type_synonym os_call = "string list \<times> string option"

type_synonym 'a os_action = "os_accounts \<Rightarrow> os_accounts \<times> os_call list \<times> (user_error + 'a)"

definition os_return :: "'a \<Rightarrow> 'a os_action" where
  "os_return x s = (s, [], Inr x)"

definition os_raise :: "user_error \<Rightarrow> 'a os_action" where
  "os_raise e s = (s, [], Inl e)"

definition os_bind :: "'a os_action \<Rightarrow> ('a \<Rightarrow> 'b os_action) \<Rightarrow> 'b os_action" where
  "os_bind m f s =
     (case m s of
        (s1, c1, Inl e) \<Rightarrow> (s1, c1, Inl e)
      | (s1, c1, Inr x) \<Rightarrow> (case f x s1 of (s2, c2, r) \<Rightarrow> (s2, c1 @ c2, r)))"

definition os_then :: "'a os_action \<Rightarrow> 'b os_action \<Rightarrow> 'b os_action" where
  "os_then m m' = os_bind m (\<lambda>_. m')"

definition os_when :: "bool \<Rightarrow> user_error \<Rightarrow> unit os_action" where
  "os_when b e = (if b then os_raise e else os_return ())"

definition os_get :: "(os_accounts \<Rightarrow> 'a) \<Rightarrow> 'a os_action" where
  "os_get g s = (s, [], Inr (g s))"

text \<open>An exception handler for the error of a failed command.\<close>

definition os_catch :: "'a os_action \<Rightarrow> unit os_action \<Rightarrow> 'a os_action" where
  "os_catch m cleanup s =
     (case m s of
        (s1, c1, Inl (Os_user_error msg code)) \<Rightarrow> (case cleanup s1 of (s2, c2, _) \<Rightarrow> (s2, c1 @ c2, Inl (Os_user_error msg code)))
      | r \<Rightarrow> r)"

definition password_policy_error_markers :: "string list" where
  "password_policy_error_markers =
     [''pam:'', ''bad password'', ''password fails'', ''password has been already used'', ''password unchanged'', ''have exhausted maximum number of retries'']"

definition sudo_not_configured :: string where
  "sudo_not_configured = ''Sudo is not configured for non-interactive use by the ecube service account. Install /etc/sudoers.d/ecube-user-mgmt with NOPASSWD rules for useradd/usermod/userdel/groupadd/groupdel/chpasswd.''"

definition run_sudo :: "os_host \<Rightarrow> string list \<Rightarrow> string option \<Rightarrow> unit os_action" where
  "run_sudo h cmd stdin_data s =
     (let full = (if oh_use_sudo h then [''sudo'', ''-n''] @ cmd else cmd); (s', res) = oh_exec h s full stdin_data
      in (s', [(full, stdin_data)],
          case res of
            Exec_timed_out \<Rightarrow> Inl (Os_user_error (''Command timed out: '' @ join_with '' '' cmd) None)
          | Exec_raised msg \<Rightarrow> Inl (Other_error msg)
          | Exec_exited code err \<Rightarrow>
              (let stderr = py_strip err; low = py_lower stderr
               in if code \<noteq> 0 then
                    (if oh_use_sudo h \<and> (py_contains low ''a terminal is required'' \<or> py_contains low ''a password is required'' \<or> py_contains low ''no tty present'')
                     then Inl (Os_user_error sudo_not_configured (Some code))
                     else Inl (Os_user_error (''Command failed (exit '' @ str_int code @ ''): '' @ stderr) (Some code)))
                  else if cmd \<noteq> [] \<and> hd cmd = oh_chpasswd h \<and> stderr \<noteq> [] \<and> list_ex (py_contains low) password_policy_error_markers
                  then Inl (Os_user_error stderr (Some code))
                  else Inr ())))"

definition find_passwd :: "string \<Rightarrow> os_accounts \<Rightarrow> passwd_entry option" where
  "find_passwd username s = find (\<lambda>p. pw_name p = username) (os_passwd s)"

definition find_group :: "string \<Rightarrow> os_accounts \<Rightarrow> group_entry option" where
  "find_group name s = find (\<lambda>g. gr_name g = name) (os_groups s)"

definition group_by_gid :: "int \<Rightarrow> os_accounts \<Rightarrow> group_entry option" where
  "group_by_gid gid s = find (\<lambda>g. gr_gid g = gid) (os_groups s)"

definition getpwnam :: "string \<Rightarrow> passwd_entry os_action" where
  "getpwnam username s = (s, [], case find_passwd username s of None \<Rightarrow> Inl No_such_entry | Some p \<Rightarrow> Inr p)"

definition apply_password_expiration_policy :: "os_host \<Rightarrow> string \<Rightarrow> unit os_action" where
  "apply_password_expiration_policy h username = run_sudo h [oh_chage h, ''-M'', ''90'', ''-m'', ''1'', ''-W'', ''14'', username] None"

definition ensure_non_interactive_shell :: "os_host \<Rightarrow> string \<Rightarrow> unit os_action" where
  "ensure_non_interactive_shell h username =
     os_bind (getpwnam username) (\<lambda>p. if pw_shell p = oh_shell h then os_return () else run_sudo h [oh_usermod h, ''-s'', oh_shell h, username] None)"

definition invalid_name :: "string \<Rightarrow> string" where
  "invalid_name kind = ''Invalid '' @ kind @ ''. Must start with a lowercase letter or underscore, contain only lowercase letters, digits, hyphens, or underscores, and be 1-32 characters.''"

definition validate_username :: "string \<Rightarrow> unit os_action" where
  "validate_username username = os_when (\<not> username_re username) (Value_error (invalid_name ''username''))"

definition validate_group_name :: "string \<Rightarrow> unit os_action" where
  "validate_group_name name = os_when (\<not> username_re name) (Value_error (invalid_name ''group name''))"

text \<open>The labels of the unsafe characters are sorted; each character counts once.\<close>

definition unsafe_labels :: "string \<Rightarrow> string list" where
  "unsafe_labels password =
     (if CHR 0x0D \<in> set password then [''carriage-return''] else []) @ (if CHR '':'' \<in> set password then [''colon''] else []) @
     (if newline \<in> set password then [''newline''] else [])"

definition validate_password :: "string \<Rightarrow> unit os_action" where
  "validate_password password =
     (if password = [] then os_raise (Value_error ''Password cannot be empty'')
      else os_when (unsafe_labels password \<noteq> [])
        (Value_error (''Password contains unsafe characters: '' @ join_with '', '' (unsafe_labels password) @ ''. Newlines and colons are not permitted.'')))"

definition quoted :: "string \<Rightarrow> string" where
  "quoted s = CHR 0x27 # s @ [CHR 0x27]"

definition is_reserved_username :: "string \<Rightarrow> bool" where
  "is_reserved_username username \<longleftrightarrow> username \<in> set reserved_usernames"

definition is_ecube_managed :: "string \<Rightarrow> os_accounts \<Rightarrow> bool" where
  "is_ecube_managed username s \<longleftrightarrow>
     (case find_passwd username s of
        None \<Rightarrow> False
      | Some p \<Rightarrow>
          (case group_by_gid (pw_gid p) s of None \<Rightarrow> False | Some g \<Rightarrow> py_startswith (gr_name g) ecube_group_prefix) \<or>
          list_ex (\<lambda>g. username \<in> set (gr_mem g) \<and> py_startswith (gr_name g) ecube_group_prefix) (os_groups s))"

definition require_ecube_managed_user :: "string \<Rightarrow> unit os_action" where
  "require_ecube_managed_user username =
     (if is_reserved_username username then os_raise (Authorization_error (''Cannot modify reserved system account: '' @ username))
      else os_bind (os_get (is_ecube_managed username)) (\<lambda>m. os_when (\<not> m) (Authorization_error
        (''User '' @ quoted username @ '' is not in any ecube-* group and cannot be managed through this API. Only ECUBE-managed accounts can be modified or deleted.''))))"

definition user_exists :: "string \<Rightarrow> os_accounts \<Rightarrow> bool" where
  "user_exists username s \<longleftrightarrow> find_passwd username s \<noteq> None"

definition group_exists :: "string \<Rightarrow> os_accounts \<Rightarrow> bool" where
  "group_exists name s \<longleftrightarrow> find_group name s \<noteq> None"

text \<open>The primary group is added last; a missing entry ends the search.\<close>

definition get_user_groups :: "string \<Rightarrow> os_accounts \<Rightarrow> string list" where
  "get_user_groups username s =
     (let gs = map gr_name (filter (\<lambda>g. username \<in> set (gr_mem g)) (os_groups s))
      in sort (case find_passwd username s of
                 None \<Rightarrow> gs
               | Some p \<Rightarrow> (case group_by_gid (pw_gid p) s of
                   None \<Rightarrow> gs
                 | Some g \<Rightarrow> if gr_name g \<in> set gs then gs else gs @ [gr_name g])))"

definition os_user_of :: "string \<Rightarrow> os_user os_action" where
  "os_user_of username =
     os_bind (getpwnam username) (\<lambda>p. os_bind (os_get (get_user_groups username)) (\<lambda>gs.
       os_return \<lparr>ou_username = username, ou_uid = pw_uid p, ou_gid = pw_gid p, ou_home = pw_dir p, ou_shell = pw_shell p, ou_groups = gs\<rparr>))"

section \<open>Operations on users\<close>

definition group_required :: user_error where
  "group_required = Value_error (''At least one group starting with '' @ quoted ecube_group_prefix @
     '' is required so the account remains manageable through the API.'')"

definition missing_user :: "string \<Rightarrow> user_error" where
  "missing_user username = Os_user_error (''User '' @ quoted username @ '' does not exist'') None"

definition missing_group :: "string \<Rightarrow> user_error" where
  "missing_group g = Os_user_error (''Group '' @ quoted g @ '' does not exist'') None"

definition has_ecube_prefix :: "string \<Rightarrow> bool" where
  "has_ecube_prefix g \<longleftrightarrow> py_startswith g ecube_group_prefix"

fun check_groups :: "bool \<Rightarrow> string list \<Rightarrow> unit os_action" where
  "check_groups ecube_only [] = os_return ()"
| "check_groups ecube_only (g # gs) =
     os_then (validate_group_name g)
       (os_then (os_when (ecube_only \<and> \<not> has_ecube_prefix g)
          (Value_error (''Group '' @ quoted g @ '' does not start with '' @ quoted ecube_group_prefix @
             ''. Use the append endpoint (POST) to add non-ECUBE groups.'')))
       (os_bind (os_get (group_exists g)) (\<lambda>ok.
          if \<not> ok then os_raise (missing_group g) else check_groups ecube_only gs)))"

definition remove_account :: "os_host \<Rightarrow> string \<Rightarrow> unit os_action" where
  "remove_account h username = run_sudo h [oh_userdel h, ''-r'', username] None"

definition create_user :: "os_host \<Rightarrow> string \<Rightarrow> string \<Rightarrow> string list \<Rightarrow> os_user os_action" where
  "create_user h username password groups =
     os_then (validate_username username)
     (os_then (os_when (is_reserved_username username) (Authorization_error (''Cannot create reserved username: '' @ username)))
     (os_bind (os_get (user_exists username)) (\<lambda>exists.
      os_then (os_when exists (Os_user_error (''User '' @ quoted username @ '' already exists'') None))
     (os_then (validate_password password)
     (os_then (check_groups False groups)
       (case filter has_ecube_prefix groups of
          [] \<Rightarrow> os_raise group_required
        | primary # _ \<Rightarrow>
            (let supplemental = filter (\<lambda>g. g \<noteq> primary) groups
             in os_then (run_sudo h [oh_useradd h, ''-m'', ''-N'', ''-g'', primary, ''-s'', oh_shell h, username] None)
               (os_then (os_catch (run_sudo h [oh_chpasswd h] (Some (username @ '':'' @ password))) (remove_account h username))
               (os_then (os_catch (apply_password_expiration_policy h username) (remove_account h username))
               (os_then (if supplemental = [] then os_return ()
                         else os_catch (run_sudo h [oh_usermod h, ''-aG'', join_with '','' supplemental, username] None) (remove_account h username))
                  (os_user_of username)))))))))))"

definition delete_user :: "os_host \<Rightarrow> bool \<Rightarrow> string \<Rightarrow> unit os_action" where
  "delete_user h skip_managed_check username =
     os_then (validate_username username)
     (os_bind (os_get (user_exists username)) (\<lambda>exists.
      os_then (os_when (\<not> exists) (missing_user username))
     (os_then (if skip_managed_check then os_return () else require_ecube_managed_user username)
       (run_sudo h [oh_userdel h, ''-r'', username] None))))"

definition is_demo_account_password_locked :: "os_host \<Rightarrow> string \<Rightarrow> bool" where
  "is_demo_account_password_locked h username \<longleftrightarrow>
     oh_demo_mode h \<and> oh_demo_disable_password_change h \<and> username \<in> set (filter (\<lambda>u. u \<noteq> []) (map py_strip (oh_demo_accounts h)))"

definition reset_password :: "os_host \<Rightarrow> bool \<Rightarrow> string \<Rightarrow> string \<Rightarrow> unit os_action" where
  "reset_password h skip_managed_check username password =
     os_then (validate_username username)
     (os_then (validate_password password)
     (os_bind (os_get (user_exists username)) (\<lambda>exists.
      os_then (os_when (\<not> exists) (missing_user username))
     (os_then (os_when (is_demo_account_password_locked h username \<and> \<not> skip_managed_check)
        (Authorization_error ''Password changes are disabled for demo accounts in demo mode.''))
     (os_then (if skip_managed_check then os_return () else require_ecube_managed_user username)
       (run_sudo h [oh_chpasswd h] (Some (username @ '':'' @ password))))))))"

definition set_user_groups :: "os_host \<Rightarrow> string \<Rightarrow> string list \<Rightarrow> os_user os_action" where
  "set_user_groups h username groups =
     os_then (validate_username username)
     (os_then (os_when (groups = []) group_required)
     (os_bind (os_get (user_exists username)) (\<lambda>exists.
      os_then (os_when (\<not> exists) (missing_user username))
     (os_then (require_ecube_managed_user username)
     (os_then (check_groups True groups)
     (os_bind (os_get (get_user_groups username)) (\<lambda>current.
      os_then (run_sudo h [oh_usermod h, ''-G'', join_with '','' (sort (remdups (groups @ filter (\<lambda>g. \<not> has_ecube_prefix g) current))), username] None)
     (os_then (ensure_non_interactive_shell h username)
       (os_user_of username)))))))))"

definition add_user_to_groups :: "os_host \<Rightarrow> bool \<Rightarrow> string \<Rightarrow> string list \<Rightarrow> os_user os_action" where
  "add_user_to_groups h skip_managed_check username groups =
     os_then (validate_username username)
     (os_bind (os_get (user_exists username)) (\<lambda>exists.
      os_then (os_when (\<not> exists) (missing_user username))
     (os_then (if skip_managed_check then os_return () else require_ecube_managed_user username)
     (os_then (check_groups False groups)
     (os_bind (os_get (get_user_groups username)) (\<lambda>current.
      let missing = filter (\<lambda>g. g \<notin> set current) groups
      in os_then (if missing = [] then os_return () else run_sudo h [oh_usermod h, ''-aG'', join_with '','' missing, username] None)
        (os_then (ensure_non_interactive_shell h username)
          (os_user_of username))))))))"

text \<open>The listing collects the groups of every member in one pass.\<close>

definition member_groups :: "string \<Rightarrow> os_accounts \<Rightarrow> string list" where
  "member_groups username s = concat (map (\<lambda>g. map (\<lambda>_. gr_name g) (filter (\<lambda>m. m = username) (gr_mem g))) (os_groups s))"

definition list_users :: "bool \<Rightarrow> os_accounts \<Rightarrow> os_user list" where
  "list_users ecube_only s =
     sort_key ou_username (concat (map (\<lambda>p.
       if is_reserved_username (pw_name p) then []
       else let gs = member_groups (pw_name p) s;
                groups = sort (case group_by_gid (pw_gid p) s of None \<Rightarrow> gs | Some g \<Rightarrow> if gr_name g \<in> set gs then gs else gs @ [gr_name g])
            in if ecube_only \<and> \<not> list_ex has_ecube_prefix groups then []
               else [\<lparr>ou_username = pw_name p, ou_uid = pw_uid p, ou_gid = pw_gid p, ou_home = pw_dir p, ou_shell = pw_shell p, ou_groups = groups\<rparr>])
       (os_passwd s)))"

section \<open>Operations on groups\<close>

definition prefix_required :: "string \<Rightarrow> user_error" where
  "prefix_required verb = Value_error (''Group name must start with '' @ quoted ecube_group_prefix @
     ''. Only ECUBE-managed groups can be '' @ verb @ '' through the API.'')"

definition create_group :: "os_host \<Rightarrow> string \<Rightarrow> group_entry os_action" where
  "create_group h name =
     os_then (validate_group_name name)
     (os_then (os_when (\<not> has_ecube_prefix name) (prefix_required ''created''))
     (os_bind (os_get (group_exists name)) (\<lambda>exists.
      os_then (os_when exists (Os_user_error (''Group '' @ quoted name @ '' already exists'') None))
     (os_then (run_sudo h [oh_groupadd h, name] None)
     (os_bind (os_get (find_group name)) (\<lambda>g. case g of None \<Rightarrow> os_raise No_such_entry | Some g \<Rightarrow> os_return g))))))"

definition list_groups :: "bool \<Rightarrow> os_accounts \<Rightarrow> group_entry list" where
  "list_groups ecube_only s = sort_key gr_name (filter (\<lambda>g. \<not> ecube_only \<or> has_ecube_prefix (gr_name g)) (os_groups s))"

definition delete_group :: "os_host \<Rightarrow> string \<Rightarrow> unit os_action" where
  "delete_group h name =
     os_then (validate_group_name name)
     (os_then (os_when (\<not> has_ecube_prefix name) (prefix_required ''deleted''))
     (os_bind (os_get (group_exists name)) (\<lambda>exists.
      os_then (os_when (\<not> exists) (missing_group name))
       (run_sudo h [oh_groupdel h, name] None))))"

fun ensure_groups :: "os_host \<Rightarrow> string list \<Rightarrow> string list os_action" where
  "ensure_groups h [] = os_return []"
| "ensure_groups h (g # gs) =
     os_bind (os_get (group_exists g)) (\<lambda>exists.
       if exists then ensure_groups h gs
       else os_then (run_sudo h [oh_groupadd h, g] None) (os_bind (ensure_groups h gs) (\<lambda>created. os_return (g # created))))"

definition ensure_ecube_groups :: "os_host \<Rightarrow> string list os_action" where
  "ensure_ecube_groups h = ensure_groups h (sort ecube_groups)"

end
