(* ===== verification/Os_Safety.thy ===== *)
theory Os_Safety
  imports Os_Users
begin

text \<open>
  What the account operations guarantee: privileged commands name only the requested account or group, run only when the
  guards of the operation hold, and a half-made account is removed again.
\<close>

section \<open>Rules\<close>

text \<open>A check reads the accounts, changes nothing and runs no command; when it passes, its result is as stated.\<close>

definition os_check :: "'a os_action \<Rightarrow> (os_accounts \<Rightarrow> 'a \<Rightarrow> bool) \<Rightarrow> bool" where
  "os_check m Q \<longleftrightarrow> (\<forall>s. fst (m s) = s \<and> fst (snd (m s)) = [] \<and> (\<forall>x. snd (snd (m s)) = Inr x \<longrightarrow> Q s x))"

lemma os_check_return [intro]: "(\<And>s. Q s x) \<Longrightarrow> os_check (os_return x) Q"
  by (simp add: os_check_def os_return_def)

lemma os_check_raise [intro]: "os_check (os_raise e) Q"
  by (simp add: os_check_def os_raise_def)

lemma os_check_get [intro]: "(\<And>s. Q s (g s)) \<Longrightarrow> os_check (os_get g) Q"
  by (simp add: os_check_def os_get_def)

lemma check_get: "os_check (os_get g) (\<lambda>s x. x = g s)"
  by (rule os_check_get) (rule refl)

lemma os_check_when [intro]: "os_check (os_when b e) (\<lambda>_ _. \<not> b)"
  by (simp add: os_check_def os_when_def os_raise_def os_return_def)

lemma os_check_mono: "os_check m Q \<Longrightarrow> (\<And>s x. Q s x \<Longrightarrow> R s x) \<Longrightarrow> os_check m R"
  by (auto simp: os_check_def)

lemma os_checkD: "os_check m Q \<Longrightarrow> m s = (s', c, r) \<Longrightarrow> s' = s \<and> c = [] \<and> (\<forall>x. r = Inr x \<longrightarrow> Q s x)"
  unfolding os_check_def by (metis fst_conv snd_conv)

lemma os_check_bind:
  assumes "os_check m Q" "\<And>x. os_check (f x) (R x)"
  shows "os_check (os_bind m f) (\<lambda>s y. \<exists>x. Q s x \<and> R x s y)"
  unfolding os_check_def
proof
  fix s
  obtain s1 c1 r1 where m: "m s = (s1, c1, r1)" by (metis prod_cases3)
  note e = os_checkD [OF assms(1) m]
  show "fst (os_bind m f s) = s \<and> fst (snd (os_bind m f s)) = [] \<and> (\<forall>y. snd (snd (os_bind m f s)) = Inr y \<longrightarrow> (\<exists>x. Q s x \<and> R x s y))"
  proof (cases r1)
    case (Inl err)
    then show ?thesis using m e by (simp add: os_bind_def)
  next
    case (Inr x)
    obtain s2 c2 r2 where f: "f x s = (s2, c2, r2)" by (metis prod_cases3)
    show ?thesis using m e Inr f os_checkD [OF assms(2) f] by (auto simp: os_bind_def)
  qed
qed

lemma os_check_then: "os_check m Q \<Longrightarrow> os_check m' R \<Longrightarrow> os_check (os_then m m') (\<lambda>s y. (\<exists>x. Q s x) \<and> R s y)"
  unfolding os_then_def by (rule os_check_mono [OF os_check_bind]) auto

text \<open>After a check, an operation either has ended in an error or goes on.\<close>

lemma check_bind_cases:
  assumes "os_bind m f s = (s', c, r)" "os_check m Q"
  obtains (stop) e where "s' = s" "c = []" "r = Inl e" | (go) x where "Q s x" "f x s = (s', c, r)"
proof -
  obtain s1 c1 r1 where m: "m s = (s1, c1, r1)" by (metis prod_cases3)
  note e = os_checkD [OF assms(2) m]
  show thesis
  proof (cases r1)
    case (Inl err)
    then show thesis using assms(1) m e stop by (auto simp: os_bind_def)
  next
    case (Inr x)
    then show thesis using assms(1) m e go [of x] by (auto simp: os_bind_def split: prod.splits)
  qed
qed

lemma check_then_cases:
  assumes "os_then m m' s = (s', c, r)" "os_check m Q"
  obtains (stop) e where "s' = s" "c = []" "r = Inl e" | (go) x where "Q s x" "m' s = (s', c, r)"
  using assms unfolding os_then_def by (rule check_bind_cases)

text \<open>Which commands an operation may run.\<close>

definition os_calls :: "(os_call \<Rightarrow> bool) \<Rightarrow> 'a os_action \<Rightarrow> bool" where
  "os_calls P m \<longleftrightarrow> (\<forall>s. \<forall>x\<in>set (fst (snd (m s))). P x)"

lemma os_callsD: "os_calls P m \<Longrightarrow> m s = (s', c, r) \<Longrightarrow> x \<in> set c \<Longrightarrow> P x"
  unfolding os_calls_def by (metis fst_conv snd_conv)

lemma os_calls_mono: "os_calls P m \<Longrightarrow> (\<And>x. P x \<Longrightarrow> Q x) \<Longrightarrow> os_calls Q m"
  by (auto simp: os_calls_def)

lemma os_calls_check [intro]: "os_check m Q \<Longrightarrow> os_calls P m"
  by (simp add: os_calls_def os_check_def)

lemma os_calls_bind:
  assumes "os_calls P m" "\<And>x. os_calls P (f x)"
  shows "os_calls P (os_bind m f)"
  unfolding os_calls_def
proof
  fix s
  obtain s1 c1 r1 where m: "m s = (s1, c1, r1)" by (metis prod_cases3)
  have "\<forall>x\<in>set c1. P x" using os_callsD [OF assms(1) m] by blast
  then show "\<forall>x\<in>set (fst (snd (os_bind m f s))). P x"
    using m os_callsD [OF assms(2)] by (cases r1) (auto simp: os_bind_def split: prod.splits)
qed

lemma os_calls_then: "os_calls P m \<Longrightarrow> os_calls P m' \<Longrightarrow> os_calls P (os_then m m')"
  unfolding os_then_def by (rule os_calls_bind)

lemma os_calls_catch:
  assumes "os_calls P m" "os_calls P cleanup"
  shows "os_calls P (os_catch m cleanup)"
  unfolding os_calls_def
proof
  fix s
  obtain s1 c1 r1 where m: "m s = (s1, c1, r1)" by (metis prod_cases3)
  have "\<forall>x\<in>set c1. P x" using os_callsD [OF assms(1) m] by blast
  then show "\<forall>x\<in>set (fst (snd (os_catch m cleanup s))). P x"
    using m os_callsD [OF assms(2)] by (cases r1; cases "projl r1") (auto simp: os_catch_def split: prod.splits)
qed

lemma run_sudo_calls: "os_calls (\<lambda>x. x = ((if oh_use_sudo h then [''sudo'', ''-n''] @ cmd else cmd), input)) (run_sudo h cmd input)"
  by (simp add: os_calls_def run_sudo_def Let_def split: prod.splits)

text \<open>The same under an assumption on the accounts, with a guard that holds when a command is run.\<close>

definition os_guarded :: "(os_accounts \<Rightarrow> bool) \<Rightarrow> (os_accounts \<Rightarrow> bool) \<Rightarrow> (os_call \<Rightarrow> bool) \<Rightarrow> 'a os_action \<Rightarrow> bool" where
  "os_guarded A G P m \<longleftrightarrow> (\<forall>s. A s \<longrightarrow> (\<forall>x\<in>set (fst (snd (m s))). G s \<and> P x))"

lemma os_guardedD: "os_guarded (\<lambda>_. True) G P m \<Longrightarrow> m s = (s', c, r) \<Longrightarrow> x \<in> set c \<Longrightarrow> G s \<and> P x"
  unfolding os_guarded_def by (metis fst_conv snd_conv)

lemma os_guarded_leaf: "os_calls P m \<Longrightarrow> (\<And>s. A s \<Longrightarrow> G s) \<Longrightarrow> os_guarded A G P m"
  by (simp add: os_guarded_def os_calls_def)

lemma os_guarded_bind:
  assumes "os_check m Q" "\<And>x. os_guarded (\<lambda>s. A s \<and> Q s x) G P (f x)"
  shows "os_guarded A G P (os_bind m f)"
  unfolding os_guarded_def
proof (intro allI impI ballI)
  fix s x assume A: "A s" and x: "x \<in> set (fst (snd (os_bind m f s)))"
  obtain s' c r where b: "os_bind m f s = (s', c, r)" by (metis prod_cases3)
  from b assms(1) show "G s \<and> P x"
  proof (cases rule: check_bind_cases)
    case (go y)
    then show ?thesis using assms(2) [of y] A x b unfolding os_guarded_def by simp
  qed (use x b in simp)
qed

lemma os_guarded_then: "os_check m Q \<Longrightarrow> (\<And>x. os_guarded (\<lambda>s. A s \<and> Q s x) G P m') \<Longrightarrow> os_guarded A G P (os_then m m')"
  unfolding os_then_def by (rule os_guarded_bind)

lemma os_guarded_raise: "os_guarded A G P (os_raise e)"
  by (simp add: os_guarded_def os_raise_def)

section \<open>The checks\<close>

lemma check_username: "os_check (validate_username u) (\<lambda>_ _. username_re u)"
  unfolding validate_username_def by (rule os_check_mono [OF os_check_when]) simp

definition safe_password :: "string \<Rightarrow> bool" where
  "safe_password p \<longleftrightarrow> p \<noteq> [] \<and> newline \<notin> set p \<and> CHR 0x0D \<notin> set p \<and> CHR '':'' \<notin> set p"

lemma check_password: "os_check (validate_password p) (\<lambda>_ _. safe_password p)"
proof (cases "p = []")
  case False
  then show ?thesis unfolding validate_password_def if_not_P [OF False]
    by (intro os_check_mono [OF os_check_when]) (auto simp: unsafe_labels_def safe_password_def split: if_splits)
qed (auto simp: validate_password_def)

definition account_guard :: "string \<Rightarrow> os_accounts \<Rightarrow> bool" where
  "account_guard u s \<longleftrightarrow> u \<notin> set reserved_usernames \<and> is_ecube_managed u s"

lemma check_managed: "os_check (require_ecube_managed_user u) (\<lambda>s _. account_guard u s)"
proof (cases "is_reserved_username u")
  case False
  have "os_check (os_bind (os_get (is_ecube_managed u)) (\<lambda>m. os_when (\<not> m) e)) (\<lambda>s y. \<exists>m. m = is_ecube_managed u s \<and> \<not> \<not> m)" for e
    by (rule os_check_bind [OF os_check_get [where Q = "\<lambda>s m. m = is_ecube_managed u s", OF refl] os_check_when])
  then show ?thesis unfolding require_ecube_managed_user_def if_not_P [OF False] account_guard_def
    by (rule os_check_mono) (use False in \<open>simp add: is_reserved_username_def\<close>)
qed (auto simp: require_ecube_managed_user_def)

lemma check_exists: "os_check (os_get (user_exists u)) (\<lambda>s x. x = user_exists u s)"
  by auto

lemma check_group_list: "os_check (check_groups b gs) (\<lambda>s _. \<forall>g\<in>set gs. username_re g \<and> group_exists g s \<and> (b \<longrightarrow> has_ecube_prefix g))"
proof (induction gs)
  case (Cons g gs)
  have v: "os_check (validate_group_name g) (\<lambda>_ _. username_re g)"
    unfolding validate_group_name_def by (rule os_check_mono [OF os_check_when]) simp
  let ?Q = "\<lambda>s. \<forall>g\<in>set gs. username_re g \<and> group_exists g s \<and> (b \<longrightarrow> has_ecube_prefix g)"
  have "os_check (if \<not> ok then os_raise (missing_group g) else check_groups b gs) (\<lambda>s _. ok \<and> ?Q s)" for ok
    using Cons.IH by (auto elim: os_check_mono)
  then have x: "os_check (os_bind (os_get (group_exists g)) (\<lambda>ok. if \<not> ok then os_raise (missing_group g) else check_groups b gs))
      (\<lambda>s y. \<exists>ok. ok = group_exists g s \<and> ok \<and> ?Q s)" by (intro os_check_bind) auto
  show ?case unfolding check_groups.simps
    by (rule os_check_mono [OF os_check_then [OF v os_check_then [OF os_check_when x]]]) auto
qed auto

section \<open>Commands of the operations\<close>

text \<open>A command for one account: the account is its last argument, or the input of the password tool is a line for it.\<close>

definition names_account :: "os_host \<Rightarrow> string \<Rightarrow> os_call \<Rightarrow> bool" where
  "names_account h u x \<longleftrightarrow> snd x = None \<and> fst x \<noteq> [] \<and> last (fst x) = u \<or>
     (\<exists>p. safe_password p \<and> x = ((if oh_use_sudo h then [''sudo'', ''-n''] else []) @ [oh_chpasswd h], Some (u @ '':'' @ p)))"

lemma run_sudo_account: "os_calls (names_account h u) (run_sudo h (cmd @ [u]) None)"
  by (rule os_calls_mono [OF run_sudo_calls]) (auto simp: names_account_def)

lemma run_sudo_password: "safe_password p \<Longrightarrow> os_calls (names_account h u) (run_sudo h [oh_chpasswd h] (Some (u @ '':'' @ p)))"
  by (rule os_calls_mono [OF run_sudo_calls]) (auto simp: names_account_def)

lemma check_getpwnam: "os_check (getpwnam u) (\<lambda>s p. find_passwd u s = Some p)"
  by (simp add: os_check_def getpwnam_def split: option.splits)

lemma os_user_of_calls [intro]: "os_calls P (os_user_of u)"
  unfolding os_user_of_def by (rule os_calls_bind [OF os_calls_check [OF check_getpwnam]])
    (rule os_calls_bind [OF os_calls_check [OF os_check_get [where Q = "\<lambda>_ _. True", OF TrueI]]], rule os_calls_check, rule os_check_return [where Q = "\<lambda>_ _. True", OF TrueI])

lemma shell_calls [intro]: "os_calls (names_account h u) (ensure_non_interactive_shell h u)"
  unfolding ensure_non_interactive_shell_def
proof (rule os_calls_bind [OF os_calls_check [OF check_getpwnam]])
  fix p
  have "os_calls (names_account h u) (run_sudo h [oh_usermod h, ''-s'', oh_shell h, u] None)"
    using run_sudo_account [of h u "[oh_usermod h, ''-s'', oh_shell h]"] by simp
  moreover have "os_calls (names_account h u) (os_return ())" by (rule os_calls_check, rule os_check_return [where Q = "\<lambda>_ _. True", OF TrueI])
  ultimately show "os_calls (names_account h u) (if pw_shell p = oh_shell h then os_return () else run_sudo h [oh_usermod h, ''-s'', oh_shell h, u] None)" by simp
qed

datatype account_request =
    Create_user string string "string list" | Delete_user string | Reset_password string string
  | Set_user_groups string "string list" | Add_user_to_groups string "string list" | Create_group string | Delete_group string

fun run_request :: "os_host \<Rightarrow> account_request \<Rightarrow> unit os_action" where
  "run_request h (Create_user u p gs) = os_bind (create_user h u p gs) (\<lambda>_. os_return ())"
| "run_request h (Delete_user u) = delete_user h False u"
| "run_request h (Reset_password u p) = reset_password h False u p"
| "run_request h (Set_user_groups u gs) = os_bind (set_user_groups h u gs) (\<lambda>_. os_return ())"
| "run_request h (Add_user_to_groups u gs) = os_bind (add_user_to_groups h False u gs) (\<lambda>_. os_return ())"
| "run_request h (Create_group g) = os_bind (create_group h g) (\<lambda>_. os_return ())"
| "run_request h (Delete_group g) = delete_group h g"

lemma bind_calls_same:
  assumes "os_bind m (\<lambda>x. os_return (f x)) s = (s', c, r)"
  obtains r' where "m s = (s', c, r')"
  using assms by (auto simp: os_bind_def os_return_def split: prod.splits sum.splits)

definition password_line_for :: "string \<Rightarrow> string \<Rightarrow> bool" where
  "password_line_for u line \<longleftrightarrow> (\<exists>p. safe_password p \<and> line = u @ '':'' @ p)"

lemma remove_account_calls: "os_calls (names_account h u) (remove_account h u)"
  unfolding remove_account_def using run_sudo_account [of h u "[oh_userdel h, ''-r'']"] by simp

lemma return_calls: "os_calls P (os_return x)"
  by (rule os_calls_check, rule os_check_return [where Q = "\<lambda>_ _. True", OF TrueI])

lemmas account_calls = os_calls_then os_calls_catch run_sudo_password remove_account_calls return_calls os_user_of_calls shell_calls

definition create_guard :: "string \<Rightarrow> string list \<Rightarrow> os_accounts \<Rightarrow> bool" where
  "create_guard u gs s \<longleftrightarrow> username_re u \<and> u \<notin> set reserved_usernames \<and> \<not> user_exists u s \<and> (\<forall>g\<in>set gs. group_exists g s) \<and> (\<exists>g\<in>set gs. has_ecube_prefix g)"

lemma create_user_guarded: "os_guarded (\<lambda>_. True) (create_guard u gs) (names_account h u) (create_user h u p gs)"
proof -
  note acc = run_sudo_account [where h = h and u = u]
  have useradd: "os_calls (names_account h u) (run_sudo h [oh_useradd h, ''-m'', ''-N'', ''-g'', g, ''-s'', oh_shell h, u] None)" for g
    using acc [of "[oh_useradd h, ''-m'', ''-N'', ''-g'', g, ''-s'', oh_shell h]"] by simp
  have chage: "os_calls (names_account h u) (apply_password_expiration_policy h u)"
    unfolding apply_password_expiration_policy_def using acc [of "[oh_chage h, ''-M'', ''90'', ''-m'', ''1'', ''-W'', ''14'']"] by simp
  have usermod: "os_calls (names_account h u) (run_sudo h [oh_usermod h, ''-aG'', t, u] None)" for t
    using acc [of "[oh_usermod h, ''-aG'', t]"] by simp
  have work: "os_calls (names_account h u) (os_then (run_sudo h [oh_useradd h, ''-m'', ''-N'', ''-g'', primary, ''-s'', oh_shell h, u] None)
      (os_then (os_catch (run_sudo h [oh_chpasswd h] (Some (u @ '':'' @ p))) (remove_account h u))
      (os_then (os_catch (apply_password_expiration_policy h u) (remove_account h u))
      (os_then (if sup = [] then os_return () else os_catch (run_sudo h [oh_usermod h, ''-aG'', join_with '','' sup, u] None) (remove_account h u))
        (os_user_of u)))))" if "safe_password p" for primary sup
    using that run_sudo_password [OF that, of h u] by (cases "sup = []") (auto intro!: account_calls useradd chage usermod)
  show ?thesis unfolding create_user_def
  proof (rule os_guarded_then [OF check_username], rule os_guarded_then [OF os_check_when], rule os_guarded_bind [OF check_exists],
      rule os_guarded_then [OF os_check_when], rule os_guarded_then [OF check_password], rule os_guarded_then [OF check_group_list], goal_cases)
    case (1 _ _ ex)
    show ?case
    proof (cases "safe_password p \<and> filter has_ecube_prefix gs \<noteq> []")
      case True
      then obtain primary rest where f: "filter has_ecube_prefix gs = primary # rest" by (cases "filter has_ecube_prefix gs") auto
      then have "primary \<in> set (filter has_ecube_prefix gs)" by simp
      then have "\<exists>g\<in>set gs. has_ecube_prefix g" by auto
      then show ?thesis unfolding f list.case Let_def using True
        by (intro os_guarded_leaf [OF work]) (auto simp: create_guard_def is_reserved_username_def)
    next
      case False
      then show ?thesis by (cases "filter has_ecube_prefix gs") (auto simp: os_guarded_def os_raise_def)
    qed
  qed
qed

lemma existing_guarded:
  assumes "os_calls (names_account h u) m"
  shows "os_guarded (\<lambda>_. True) (\<lambda>s. username_re u \<and> user_exists u s \<and> (skip \<or> account_guard u s)) (names_account h u)
    (os_then (validate_username u) (os_bind (os_get (user_exists u)) (\<lambda>ex. os_then (os_when (\<not> ex) e)
      (os_then (if skip then os_return () else require_ecube_managed_user u) m))))"
proof -
  have "os_check (if skip then os_return () else require_ecube_managed_user u) (\<lambda>s _. skip \<or> account_guard u s)"
    using check_managed by (auto elim: os_check_mono)
  note g = os_guarded_then [OF this]
  show ?thesis
    by (rule os_guarded_then [OF check_username], rule os_guarded_bind [OF check_exists], rule os_guarded_then [OF os_check_when], rule g)
      (rule os_guarded_leaf [OF assms], simp)
qed

lemma delete_user_guarded:
  "os_guarded (\<lambda>_. True) (\<lambda>s. username_re u \<and> user_exists u s \<and> (skip \<or> account_guard u s)) (names_account h u) (delete_user h skip u)"
  unfolding delete_user_def using run_sudo_account [of h u "[oh_userdel h, ''-r'']"] by (intro existing_guarded) simp

lemma add_user_to_groups_guarded:
  "os_guarded (\<lambda>_. True) (\<lambda>s. username_re u \<and> user_exists u s \<and> (skip \<or> account_guard u s)) (names_account h u) (add_user_to_groups h skip u gs)"
  unfolding add_user_to_groups_def
proof (intro existing_guarded os_calls_then [OF os_calls_check [OF check_group_list]] os_calls_bind [OF os_calls_check])
  show "os_check (os_get (get_user_groups u)) (\<lambda>_ _. True)" by auto
  fix current
  let ?m = "filter (\<lambda>g. g \<notin> set current) gs"
  have "os_calls (names_account h u) (if ?m = [] then os_return () else run_sudo h [oh_usermod h, ''-aG'', join_with '','' ?m, u] None)"
    using run_sudo_account [of h u "[oh_usermod h, ''-aG'', join_with '','' ?m]"] return_calls by auto
  then show "os_calls (names_account h u) (let missing = ?m in
      os_then (if missing = [] then os_return () else run_sudo h [oh_usermod h, ''-aG'', join_with '','' missing, u] None)
        (os_then (ensure_non_interactive_shell h u) (os_user_of u)))"
    unfolding Let_def by (intro os_calls_then shell_calls os_user_of_calls)
qed

lemma reset_password_guarded:
  "os_guarded (\<lambda>_. True) (\<lambda>s. username_re u \<and> user_exists u s \<and> (skip \<or> account_guard u s \<and> \<not> is_demo_account_password_locked h u))
     (names_account h u) (reset_password h skip u p)"
proof (cases "safe_password p")
  case True
  have "os_check (if skip then os_return () else require_ecube_managed_user u) (\<lambda>s _. skip \<or> account_guard u s)"
    using check_managed by (auto elim: os_check_mono)
  note g = os_guarded_then [OF this]
  show ?thesis unfolding reset_password_def
    by (rule os_guarded_then [OF check_username], rule os_guarded_then [OF check_password], rule os_guarded_bind [OF check_exists],
        rule os_guarded_then [OF os_check_when], rule os_guarded_then [OF os_check_when], rule g)
      (rule os_guarded_leaf [OF run_sudo_password [OF True]], auto)
next
  case False
  have none: "os_guarded (\<lambda>s. A s \<and> safe_password p) G P m" for A G P m using False by (simp add: os_guarded_def)
  show ?thesis unfolding reset_password_def
    by (rule os_guarded_then [OF check_username], rule os_guarded_then [OF check_password]) (rule none)
qed

lemma set_user_groups_guarded:
  "os_guarded (\<lambda>_. True) (\<lambda>s. username_re u \<and> user_exists u s \<and> account_guard u s \<and> gs \<noteq> [] \<and> (\<forall>g\<in>set gs. has_ecube_prefix g))
     (names_account h u) (set_user_groups h u gs)"
  unfolding set_user_groups_def
proof (rule os_guarded_then [OF check_username], rule os_guarded_then [OF os_check_when], rule os_guarded_bind [OF check_exists],
    rule os_guarded_then [OF os_check_when], rule os_guarded_then [OF check_managed], rule os_guarded_then [OF check_group_list],
    rule os_guarded_bind [OF check_get], goal_cases)
  case (1 _ _ _ _ _ _ current)
  let ?t = "join_with '','' (sort (remdups (gs @ filter (\<lambda>g. \<not> has_ecube_prefix g) current)))"
  have "os_calls (names_account h u) (run_sudo h [oh_usermod h, ''-G'', ?t, u] None)"
    using run_sudo_account [of h u "[oh_usermod h, ''-G'', ?t]"] by simp
  then show ?case by (intro os_guarded_leaf os_calls_then shell_calls os_user_of_calls) auto
qed

definition names_group :: "os_host \<Rightarrow> string \<Rightarrow> os_call \<Rightarrow> bool" where
  "names_group h g x \<longleftrightarrow> snd x = None \<and> (\<exists>tool\<in>{oh_groupadd h, oh_groupdel h}. fst x = (if oh_use_sudo h then [''sudo'', ''-n''] else []) @ [tool, g])"

lemma run_sudo_group: "tool \<in> {oh_groupadd h, oh_groupdel h} \<Longrightarrow> os_calls (names_group h g) (run_sudo h [tool, g] None)"
  by (rule os_calls_mono [OF run_sudo_calls]) (auto simp: names_group_def)

lemma check_group_name: "os_check (validate_group_name g) (\<lambda>_ _. username_re g)"
  unfolding validate_group_name_def by (rule os_check_mono [OF os_check_when]) simp

lemma create_group_guarded: "os_guarded (\<lambda>_. True) (\<lambda>s. has_ecube_prefix g \<and> \<not> group_exists g s) (names_group h g) (create_group h g)"
  unfolding create_group_def
proof (rule os_guarded_then [OF check_group_name], rule os_guarded_then [OF os_check_when], rule os_guarded_bind [OF check_get], goal_cases)
  case (1 _ _ ex)
  have "os_calls (names_group h g) (os_bind (os_get (find_group g)) (\<lambda>y. case y of None \<Rightarrow> os_raise No_such_entry | Some y \<Rightarrow> os_return y))"
  proof (rule os_calls_bind)
    show "os_calls (names_group h g) (os_get (find_group g))" by (rule os_calls_check, rule os_check_get [where Q = "\<lambda>_ _. True", OF TrueI])
    show "os_calls (names_group h g) (case y of None \<Rightarrow> os_raise No_such_entry | Some y \<Rightarrow> os_return y)" for y
      by (cases y) (simp_all add: os_calls_def os_raise_def os_return_def)
  qed
  then show ?case by (intro os_guarded_then [OF os_check_when] os_guarded_leaf os_calls_then run_sudo_group) auto
qed

lemma delete_group_guarded: "os_guarded (\<lambda>_. True) (\<lambda>s. has_ecube_prefix g \<and> group_exists g s) (names_group h g) (delete_group h g)"
  unfolding delete_group_def
proof (rule os_guarded_then [OF check_group_name], rule os_guarded_then [OF os_check_when], rule os_guarded_bind [OF check_get], goal_cases)
  case (1 _ _ ex)
  then show ?case by (intro os_guarded_then [OF os_check_when] os_guarded_leaf run_sudo_group) auto
qed

definition request_guard :: "os_host \<Rightarrow> account_request \<Rightarrow> os_accounts \<Rightarrow> bool" where
  "request_guard h req s \<longleftrightarrow> (case req of
     Create_user u p gs \<Rightarrow> create_guard u gs s
   | Delete_user u \<Rightarrow> user_exists u s \<and> account_guard u s
   | Reset_password u p \<Rightarrow> user_exists u s \<and> account_guard u s \<and> \<not> is_demo_account_password_locked h u
   | Set_user_groups u gs \<Rightarrow> user_exists u s \<and> account_guard u s \<and> gs \<noteq> [] \<and> (\<forall>g\<in>set gs. has_ecube_prefix g)
   | Add_user_to_groups u gs \<Rightarrow> user_exists u s \<and> account_guard u s
   | Create_group g \<Rightarrow> has_ecube_prefix g \<and> \<not> group_exists g s
   | Delete_group g \<Rightarrow> has_ecube_prefix g \<and> group_exists g s)"

definition request_names :: "os_host \<Rightarrow> account_request \<Rightarrow> os_call \<Rightarrow> bool" where
  "request_names h req x \<longleftrightarrow> (case req of
     Create_user u p gs \<Rightarrow> names_account h u x | Delete_user u \<Rightarrow> names_account h u x | Reset_password u p \<Rightarrow> names_account h u x
   | Set_user_groups u gs \<Rightarrow> names_account h u x | Add_user_to_groups u gs \<Rightarrow> names_account h u x
   | Create_group g \<Rightarrow> names_group h g x | Delete_group g \<Rightarrow> names_group h g x)"


section \<open>Creating an account\<close>

definition sudo_call :: "os_host \<Rightarrow> string list \<Rightarrow> string option \<Rightarrow> os_call" where
  "sudo_call h cmd input = ((if oh_use_sudo h then [''sudo'', ''-n''] @ cmd else cmd), input)"

lemma then_cases:
  assumes "os_then m m' s = (s', c, r)"
  obtains (stop) e where "m s = (s', c, Inl e)" "r = Inl e"
  | (go) s1 c1 x c2 where "m s = (s1, c1, Inr x)" "m' s1 = (s', c2, r)" "c = c1 @ c2"
  using assms by (cases "m s") (auto simp: os_then_def os_bind_def split: prod.splits sum.splits)

definition command_failed :: "user_error \<Rightarrow> bool" where
  "command_failed e \<longleftrightarrow> (case e of Os_user_error _ _ \<Rightarrow> True | _ \<Rightarrow> False)"

lemma run_sudo_call: "run_sudo h cmd input s = (s', c, r) \<Longrightarrow> c = [sudo_call h cmd input]"
  by (auto simp: run_sudo_def sudo_call_def Let_def split: prod.splits)

lemma undone_calls:
  assumes "os_catch (run_sudo h cmd input) (remove_account h u) s = (s', c, r)"
  shows "c = sudo_call h cmd input # (case r of Inl e \<Rightarrow> if command_failed e then [sudo_call h [oh_userdel h, ''-r'', u] None] else [] | Inr _ \<Rightarrow> [])"
proof -
  obtain s1 c1 r1 where m: "run_sudo h cmd input s = (s1, c1, r1)" by (metis prod_cases3)
  obtain s2 c2 r2 where k: "remove_account h u s1 = (s2, c2, r2)" by (metis prod_cases3)
  have "c1 = [sudo_call h cmd input]" "c2 = [sudo_call h [oh_userdel h, ''-r'', u] None]"
    using run_sudo_call [OF m] run_sudo_call [OF k [unfolded remove_account_def]] by simp_all
  then show ?thesis using assms m k by (cases r1; cases "projl r1") (auto simp: os_catch_def command_failed_def)
qed

lemma account_setup:
  assumes "os_then (run_sudo h a None) (os_then (os_catch (run_sudo h b line) (remove_account h u)) (os_then (os_catch (run_sudo h d None) (remove_account h u))
      (os_then (if t then os_return () else os_catch (run_sudo h f None) (remove_account h u)) (os_user_of u)))) s = (s', calls, r)"
  shows "case r of
      Inr _ \<Rightarrow> calls = [sudo_call h a None, sudo_call h b line, sudo_call h d None] @ (if t then [] else [sudo_call h f None])
    | Inl e \<Rightarrow> calls \<noteq> [] \<and> (command_failed e \<longrightarrow> calls = [sudo_call h a None] \<or> last calls = sudo_call h [oh_userdel h, ''-r'', u] None)"
  using assms
proof (cases rule: then_cases)
  case (stop e)
  then show ?thesis using run_sudo_call [OF stop(1)] by simp
next
  case (go s1 c1 x c2)
  have c1: "c1 = [sudo_call h a None]" using run_sudo_call [OF go(1)] .
  from go(2) show ?thesis
  proof (cases rule: then_cases)
    case (stop e)
    then show ?thesis using undone_calls [OF stop(1)] go(3) c1 by (simp split: if_splits)
  next
    case g2: (go s2 c3 x c4)
    have c3: "c3 = [sudo_call h b line]" using undone_calls [OF g2(1)] by simp
    from g2(2) show ?thesis
    proof (cases rule: then_cases)
      case (stop e)
      then show ?thesis using undone_calls [OF stop(1)] go(3) g2(3) c1 by (simp split: if_splits)
    next
      case g3: (go s3 c5 x c6)
      have c5: "c5 = [sudo_call h d None]" using undone_calls [OF g3(1)] by simp
      from g3(2) show ?thesis
      proof (cases rule: then_cases)
        case (stop e)
        then have "\<not> t" by (auto simp: os_return_def)
        with stop have "os_catch (run_sudo h f None) (remove_account h u) s3 = (s', c6, Inl e)" by simp
        from undone_calls [OF this] stop(2) show ?thesis using go(3) g2(3) g3(3) c1 by (simp split: if_splits)
      next
        case g4: (go s4 c7 x c8)
        have "c7 = (if t then [] else [sudo_call h f None])"
          using g4(1) undone_calls [of h f None u s3 s4 c7 "Inr x"] by (cases t) (auto simp: os_return_def)
        moreover have "c8 = [] \<and> (case r of Inl e \<Rightarrow> \<not> command_failed e | Inr _ \<Rightarrow> True)"
          using g4(2) by (auto simp: os_user_of_def os_bind_def os_get_def os_return_def getpwnam_def command_failed_def split: option.splits)
        ultimately show ?thesis using go(3) g2(3) g3(3) g4(3) c1 c3 c5 by (cases r) auto
      qed
    qed
  qed
qed


section \<open>Examples\<close>

definition example_accounts :: os_accounts where
  "example_accounts =
     \<lparr>os_passwd = [\<lparr>pw_name = ''root'', pw_uid = 0, pw_gid = 0, pw_dir = ''/root'', pw_shell = ''/bin/bash''\<rparr>,
                   \<lparr>pw_name = ''alice'', pw_uid = 1001, pw_gid = 501, pw_dir = ''/home/alice'', pw_shell = ''/usr/sbin/nologin''\<rparr>],
      os_groups = [\<lparr>gr_name = ''root'', gr_gid = 0, gr_mem = []\<rparr>, \<lparr>gr_name = ''ecube-processors'', gr_gid = 501, gr_mem = []\<rparr>,
                   \<lparr>gr_name = ''ecube-admins'', gr_gid = 502, gr_mem = []\<rparr>]\<rparr>"

text \<open>A host that adds accounts, and runs or does not run the password tool.\<close>

definition example_exec :: "exec_result \<Rightarrow> os_accounts \<Rightarrow> string list \<Rightarrow> string option \<Rightarrow> os_accounts \<times> exec_result" where
  "example_exec password_result s argv input =
     (if hd argv = ''/usr/sbin/useradd''
      then (s\<lparr>os_passwd := os_passwd s @ [\<lparr>pw_name = last argv, pw_uid = 1002, pw_gid = 501, pw_dir = ''/home'', pw_shell = ''/usr/sbin/nologin''\<rparr>]\<rparr>, Exec_exited 0 [])
      else if hd argv = ''/usr/sbin/userdel'' then (s\<lparr>os_passwd := filter (\<lambda>p. pw_name p \<noteq> last argv) (os_passwd s)\<rparr>, Exec_exited 0 [])
      else if hd argv = ''/usr/sbin/chpasswd'' then (s, password_result) else (s, Exec_exited 0 []))"

definition example_os :: "exec_result \<Rightarrow> os_host" where
  "example_os password_result =
     \<lparr>oh_exec = example_exec password_result, oh_use_sudo = False, oh_useradd = ''/usr/sbin/useradd'', oh_usermod = ''/usr/sbin/usermod'',
      oh_userdel = ''/usr/sbin/userdel'', oh_groupadd = ''/usr/sbin/groupadd'', oh_groupdel = ''/usr/sbin/groupdel'', oh_chpasswd = ''/usr/sbin/chpasswd'',
      oh_chage = ''/usr/bin/chage'', oh_shell = ''/usr/sbin/nologin'', oh_demo_mode = False, oh_demo_disable_password_change = False, oh_demo_accounts = []\<rparr>"



text \<open>A name that ends in a newline passes the check of the pattern, and so does not count as reserved.\<close>

theorem username_accepts_newline:
  "username_re (''root'' @ [newline]) \<and> \<not> is_reserved_username (''root'' @ [newline]) \<and> \<not> list_all name_char (''root'' @ [newline])"
  by code_simp

text \<open>Only failed commands are undone: when the password tool cannot be started at all, the new account stays.\<close>

theorem partial_account_stays:
  "case create_user (example_os (Exec_raised ''FileNotFoundError'')) ''bob'' ''pw'' [''ecube-processors''] example_accounts of
     (s', calls, r) \<Rightarrow> (case r of Inl e \<Rightarrow> True | Inr _ \<Rightarrow> False) \<and> user_exists ''bob'' s'"
  by code_simp

end
