(* ===== verification/Auth.thy ===== *)
theory Auth
  imports Schema Os_Safety
begin

text \<open>
  Authentication and authorisation (\<open>app/auth.py\<close>, \<open>app/auth_providers.py\<close>, \<open>app/services/oidc_service.py\<close>, \<open>app/services/pam_service.py\<close>,
  \<open>app/repositories/user_role_repository.py\<close> and the login routes of \<open>app/routers/auth.py\<close>). The table of roles is a list of rows. Signing and checking
  tokens, asking PAM and fetching the documents of an identity provider are arguments. A claim of a token may hold any JSON value.
\<close>

section \<open>Stored roles\<close>

definition valid_roles :: "string list" where
  "valid_roles = map snd ecube_group_role_map"

type_synonym role_row = "string \<times> string"

definition get_roles :: "string \<Rightarrow> role_row list \<Rightarrow> string list" where
  "get_roles username rows = sort (map snd (filter (\<lambda>r. fst r = username) rows))"

datatype role_error = Invalid_roles "string list" | Roles_not_committed

text \<open>The unique constraint on a user and a role refuses a list with duplicates.\<close>

definition set_roles :: "bool \<Rightarrow> string \<Rightarrow> string list \<Rightarrow> role_row list \<Rightarrow> role_row list \<times> (role_error + string list)" where
  "set_roles commit_ok username roles rows =
     (let invalid = sort (remdups (filter (\<lambda>r. r \<notin> set valid_roles) roles))
      in if invalid \<noteq> [] then (rows, Inl (Invalid_roles invalid))
         else if \<not> commit_ok \<or> \<not> distinct roles then (rows, Inl Roles_not_committed)
         else (filter (\<lambda>r. fst r \<noteq> username) rows @ map (\<lambda>role. (username, role)) roles, Inr roles))"

definition delete_roles :: "bool \<Rightarrow> string \<Rightarrow> role_row list \<Rightarrow> role_row list \<times> (role_error + nat)" where
  "delete_roles commit_ok username rows =
     (if commit_ok then (filter (\<lambda>r. fst r \<noteq> username) rows, Inr (length (filter (\<lambda>r. fst r = username) rows))) else (rows, Inl Roles_not_committed))"

definition list_role_users :: "role_row list \<Rightarrow> (string \<times> string list) list" where
  "list_role_users rows = map (\<lambda>u. (u, get_roles u rows)) (sort (remdups (map fst rows)))"

definition has_any_admin :: "role_row list \<Rightarrow> bool" where
  "has_any_admin rows \<longleftrightarrow> list_ex (\<lambda>r. snd r = ''admin'') rows"

section \<open>Role resolvers\<close>

record auth_settings =
  as_role_resolver :: string
  as_secret_key :: string
  as_algorithm :: string
  as_local_map :: "(string \<times> string list) list"
  as_ldap_map :: "(string \<times> string list) list"
  as_oidc_map :: "(string \<times> string list) list"
  as_oidc_group_claim :: string
  as_oidc_discovery_url :: string
  as_oidc_audience :: string
  as_oidc_algorithms :: "string list"
  as_token_expire_minutes :: int
  as_pam_service_name :: string
  as_pam_fallback_services :: "string list"

text \<open>The loop of \<open>_MappedRoleResolver.resolve\<close>: groups outside the map count for nothing, roles keep their first place.\<close>

definition add_role :: "string \<Rightarrow> string list \<Rightarrow> string list" where
  "add_role role acc = (if role \<in> set acc then acc else acc @ [role])"

definition resolve_roles_by :: "(string \<times> string list) list \<Rightarrow> string list \<Rightarrow> string list" where
  "resolve_roles_by m groups = fold (\<lambda>g acc. fold add_role (case map_of m g of None \<Rightarrow> [] | Some rs \<Rightarrow> rs) acc) groups []"

definition get_role_resolver :: "auth_settings \<Rightarrow> (string \<times> string list) list option" where
  "get_role_resolver st =
     (if as_role_resolver st = ''ldap'' then Some (as_ldap_map st)
      else if as_role_resolver st = ''local'' then Some (as_local_map st)
      else if as_role_resolver st = ''oidc'' then Some (as_oidc_map st) else None)"

section \<open>Tokens\<close>

type_synonym claims = "(string \<times> jval) list"

datatype token_result = Decoded claims | Expired_token | Bad_audience | Missing_claim string | Invalid_token string

record token_library =
  tl_encode :: "claims \<Rightarrow> string \<Rightarrow> string \<Rightarrow> string"
  tl_decode :: "int \<Rightarrow> string \<Rightarrow> string \<Rightarrow> string list \<Rightarrow> token_result"
  tl_fetch :: "string \<Rightarrow> string + claims"
  tl_signing_key :: "string \<Rightarrow> string \<Rightarrow> string + string"
  tl_decode_oidc :: "int \<Rightarrow> string \<Rightarrow> string \<Rightarrow> string list \<Rightarrow> string option \<Rightarrow> token_result"

datatype auth_error =
  Unauthenticated string string | Forbidden string | Unknown_resolver | Weak_password | Bad_password_input string | Password_change_failed | Local_login_disabled | Unhandled_error

record current_user =
  cu_id :: jval
  cu_username :: jval
  cu_groups :: jval
  cu_roles :: jval

definition claim :: "string \<Rightarrow> claims \<Rightarrow> jval option" where
  "claim k p = map_of p k"

fun strings_of :: "jval \<Rightarrow> string list option" where
  "strings_of (JList xs) = those (map (\<lambda>x. case x of JStr s \<Rightarrow> Some s | _ \<Rightarrow> None) xs)"
| "strings_of _ = None"

definition none_as_empty :: "jval option \<Rightarrow> jval" where
  "none_as_empty v = (case v of None \<Rightarrow> JList [] | Some JNull \<Rightarrow> JList [] | Some x \<Rightarrow> x)"

fun json_truthy :: "jval \<Rightarrow> bool" where
  "json_truthy JNull = False"
| "json_truthy (JBool b) = b"
| "json_truthy (JInt i) = (i \<noteq> 0)"
| "json_truthy (JStr s) = (s \<noteq> [])"
| "json_truthy (JList xs) = (xs \<noteq> [])"
| "json_truthy (JObj xs) = (xs \<noteq> [])"

definition invalid_payload :: "string \<Rightarrow> auth_error" where
  "invalid_payload reason = Unauthenticated ''Invalid token payload'' reason"

definition user_of_claims :: "auth_settings \<Rightarrow> claims \<Rightarrow> auth_error + current_user" where
  "user_of_claims st p =
     (case (claim ''sub'' p, claim ''username'' p) of
        (Some user_id, Some username) \<Rightarrow>
          if user_id = JNull \<or> username = JNull then Inl (invalid_payload ''invalid_token_payload'')
          else let groups = none_as_empty (claim ''groups'' p); roles = none_as_empty (claim ''roles'' p)
               in (case strings_of groups of
                     None \<Rightarrow> Inl (invalid_payload ''invalid_token_groups'')
                   | Some gs \<Rightarrow>
                       (case strings_of roles of
                          None \<Rightarrow> Inl (invalid_payload ''invalid_token_roles'')
                        | Some rs \<Rightarrow>
                            if rs = [] \<and> gs \<noteq> []
                            then (case get_role_resolver st of
                                    None \<Rightarrow> Inl Unknown_resolver
                                  | Some m \<Rightarrow> Inr \<lparr>cu_id = user_id, cu_username = username, cu_groups = groups, cu_roles = JList (map JStr (resolve_roles_by m gs))\<rparr>)
                            else Inr \<lparr>cu_id = user_id, cu_username = username, cu_groups = groups, cu_roles = roles\<rparr>))
      | _ \<Rightarrow> Inl (invalid_payload ''invalid_token_payload''))"

text \<open>\<open>validate_token\<close> and \<open>get_jwks_client\<close> of the identity provider; every failure is a message.\<close>

definition jwks_uri :: "auth_settings \<Rightarrow> token_library \<Rightarrow> string + string" where
  "jwks_uri st lib =
     (if as_oidc_discovery_url st = [] then Inl ''OIDC is enabled but 'oidc_discovery_url' is not configured.''
      else case tl_fetch lib (as_oidc_discovery_url st) of
             Inl err \<Rightarrow> Inl (''Failed to fetch OIDC discovery document: '' @ err)
           | Inr doc \<Rightarrow> (case claim ''jwks_uri'' doc of
               Some (JStr uri) \<Rightarrow> if uri = [] then Inl ''OIDC discovery document is missing the required 'jwks_uri' field.'' else Inr uri
             | _ \<Rightarrow> Inl ''OIDC discovery document is missing the required 'jwks_uri' field.''))"

definition validate_oidc_token :: "auth_settings \<Rightarrow> token_library \<Rightarrow> int \<Rightarrow> string \<Rightarrow> string + claims" where
  "validate_oidc_token st lib now token =
     (case jwks_uri st lib of
        Inl msg \<Rightarrow> Inl msg
      | Inr uri \<Rightarrow>
          (case tl_signing_key lib uri token of
             Inl err \<Rightarrow> Inl (''Failed to obtain signing key for OIDC token: '' @ err)
           | Inr key \<Rightarrow>
               (case tl_decode_oidc lib now token key (as_oidc_algorithms st) (if as_oidc_audience st = [] then None else Some (as_oidc_audience st)) of
                  Decoded p \<Rightarrow> Inr p
                | Expired_token \<Rightarrow> Inl ''OIDC token has expired.''
                | Bad_audience \<Rightarrow> Inl ''OIDC token audience mismatch.''
                | Missing_claim c \<Rightarrow> Inl (''OIDC token missing required claim: '' @ c)
                | Invalid_token msg \<Rightarrow> Inl (''OIDC token validation failed: '' @ msg))))"

definition get_current_user_oidc :: "auth_settings \<Rightarrow> token_library \<Rightarrow> int \<Rightarrow> string \<Rightarrow> auth_error + current_user" where
  "get_current_user_oidc st lib now token =
     (case validate_oidc_token st lib now token of
        Inl msg \<Rightarrow> Inl (Unauthenticated msg ''oidc_validation_failed'')
      | Inr p \<Rightarrow>
          (let user_id = (case claim ''sub'' p of None \<Rightarrow> JNull | Some v \<Rightarrow> v);
               pick = (\<lambda>k rest. case claim k p of Some v \<Rightarrow> if json_truthy v then v else rest | None \<Rightarrow> rest)
           in if \<not> json_truthy user_id then Inl (invalid_payload ''invalid_token_payload'')
              else let groups = (case claim (as_oidc_group_claim st) p of None \<Rightarrow> JList [] | Some v \<Rightarrow> v)
                   in (case strings_of groups of
                         None \<Rightarrow> Inl (invalid_payload ''invalid_token_groups'')
                       | Some gs \<Rightarrow>
                           (case get_role_resolver st of
                              None \<Rightarrow> Inl Unknown_resolver
                            | Some m \<Rightarrow> Inr \<lparr>cu_id = user_id, cu_username = pick ''preferred_username'' (pick ''email'' user_id),
                                             cu_groups = groups, cu_roles = JList (map JStr (resolve_roles_by m gs))\<rparr>))))"

definition get_current_user ::
  "auth_settings \<Rightarrow> token_library \<Rightarrow> int \<Rightarrow> (string \<times> string) option \<Rightarrow> auth_error + current_user" where
  "get_current_user st lib now credentials =
     (case credentials of
        None \<Rightarrow> Inl (Unauthenticated ''Missing authentication token'' ''missing_token'')
      | Some (scheme, token) \<Rightarrow>
          if py_lower scheme \<noteq> ''bearer'' then Inl (Unauthenticated ''Invalid authentication token'' ''invalid_auth_scheme'')
          else if as_role_resolver st = ''oidc'' then get_current_user_oidc st lib now token
          else (case tl_decode lib now token (as_secret_key st) [as_algorithm st] of
                  Decoded p \<Rightarrow> user_of_claims st p
                | Expired_token \<Rightarrow> Inl (Unauthenticated ''Token has expired'' ''token_expired'')
                | _ \<Rightarrow> Inl (Unauthenticated ''Invalid authentication token'' ''token_validation_failed'')))"

section \<open>Required roles\<close>

definition elements :: "jval \<Rightarrow> jval list" where
  "elements v = (case v of JList xs \<Rightarrow> xs | _ \<Rightarrow> [])"

definition actor_text :: "jval \<Rightarrow> string option" where
  "actor_text v = (case v of JStr s \<Rightarrow> Some s | _ \<Rightarrow> None)"

definition require_roles ::
  "env \<Rightarrow> string list \<Rightarrow> string \<Rightarrow> string \<Rightarrow> current_user \<Rightarrow> db \<Rightarrow> db \<times> (auth_error + current_user)" where
  "require_roles e allowed path meth user db =
     (if list_ex (\<lambda>r. JStr r \<in> set (elements (cu_roles user))) allowed then (db, Inr user)
      else (best_effort_audit (e\<lparr>e_actor := actor_text (cu_username user), e_client_ip := None\<rparr>) ''AUTHORIZATION_DENIED'' None None None
              [(''path'', JStr path), (''method'', JStr meth), (''required_roles'', JList (map JStr allowed)), (''user_roles'', cu_roles user)] db,
            Inl (Forbidden (''This action requires one of the following roles: '' @ join_with '', '' (sort allowed)))))"

section \<open>Logging in\<close>

record pam_library =
  pl_authenticate :: "string \<Rightarrow> string \<Rightarrow> string \<Rightarrow> bool \<times> int option"

text \<open>The configured service first, then the fallbacks; the code is that of the last service asked.\<close>

definition service_chain :: "auth_settings \<Rightarrow> string list" where
  "service_chain st = fold add_role (as_pam_fallback_services st) [as_pam_service_name st]"

fun pam_authenticate :: "pam_library \<Rightarrow> string \<Rightarrow> string \<Rightarrow> int option \<Rightarrow> string list \<Rightarrow> bool \<times> int option" where
  "pam_authenticate p username password code [] = (False, code)"
| "pam_authenticate p username password code (svc # rest) =
     (case pl_authenticate p svc username password of
        (True, c) \<Rightarrow> (True, c)
      | (False, c) \<Rightarrow> pam_authenticate p username password c rest)"

definition pam_get_user_groups :: "string \<Rightarrow> os_accounts \<Rightarrow> string list" where
  "pam_get_user_groups username s =
     (case find_passwd username s of
        None \<Rightarrow> []
      | Some p \<Rightarrow>
          sort (remdups (concat (map (\<lambda>gid. case group_by_gid gid s of None \<Rightarrow> [] | Some g \<Rightarrow> [gr_name g])
            (pw_gid p # map gr_gid (filter (\<lambda>g. username \<in> set (gr_mem g)) (os_groups s)))))))"

definition classify_pam_auth_failure :: "int option \<Rightarrow> string option \<times> string" where
  "classify_pam_auth_failure code =
     (if code = Some 12 \<or> code = Some 27 then (Some ''password_expired'', ''Password has expired.'')
      else if code = Some 13 then (Some ''account_expired'', ''Account has expired.'')
      else (None, ''Invalid credentials''))"

definition is_pam_policy_violation :: "string \<Rightarrow> bool" where
  "is_pam_policy_violation message \<longleftrightarrow> list_ex (py_contains (py_lower message)) password_policy_error_markers"

definition resolve_roles :: "auth_settings \<Rightarrow> role_row list \<Rightarrow> os_accounts \<Rightarrow> string \<Rightarrow> string list \<times> (auth_error + string list)" where
  "resolve_roles st rows s username =
     (let groups = pam_get_user_groups username s; db_roles = get_roles username rows
      in (groups, if db_roles \<noteq> [] then Inr db_roles
                  else case get_role_resolver st of None \<Rightarrow> Inl Unknown_resolver | Some m \<Rightarrow> Inr (resolve_roles_by m groups)))"

definition token_claims :: "auth_settings \<Rightarrow> int \<Rightarrow> string \<Rightarrow> string list \<Rightarrow> string list \<Rightarrow> claims" where
  "token_claims st now username groups roles =
     [(''sub'', JStr username), (''username'', JStr username), (''groups'', JList (map JStr groups)), (''roles'', JList (map JStr roles)),
      (''iat'', JInt now), (''exp'', JInt (now + 60 * as_token_expire_minutes st))]"

record token_response =
  tr_access_token :: string
  tr_warning_days :: "int option"

text \<open>\<open>PasswordExpirationInfo\<close>: the days until expiry and whether the warning is active.\<close>

definition password_warning_days :: "(string \<Rightarrow> (int option \<times> bool) option) \<Rightarrow> string \<Rightarrow> int option" where
  "password_warning_days policy username = (case policy username of None \<Rightarrow> None | Some (days, active) \<Rightarrow> if active then days else None)"

definition build_token_response ::
  "auth_settings \<Rightarrow> token_library \<Rightarrow> (string \<Rightarrow> (int option \<times> bool) option) \<Rightarrow> int \<Rightarrow> string \<Rightarrow> string list \<Rightarrow> string list \<Rightarrow> token_response" where
  "build_token_response st lib policy now username groups roles =
     \<lparr>tr_access_token = tl_encode lib (token_claims st now username groups roles) (as_secret_key st) (as_algorithm st),
      tr_warning_days = password_warning_days policy username\<rparr>"

definition auth_audit :: "env \<Rightarrow> string \<Rightarrow> string \<Rightarrow> (string \<times> jval) list \<Rightarrow> db \<Rightarrow> db" where
  "auth_audit e action username details = best_effort_audit (e\<lparr>e_actor := Some username\<rparr>) action None None None details"

definition login ::
  "env \<Rightarrow> auth_settings \<Rightarrow> token_library \<Rightarrow> pam_library \<Rightarrow> (string \<Rightarrow> (int option \<times> bool) option) \<Rightarrow> string \<Rightarrow> role_row list \<Rightarrow> os_accounts \<Rightarrow>
   string \<Rightarrow> string \<Rightarrow> db \<Rightarrow> db \<times> (auth_error + token_response)" where
  "login e st lib pam policy path rows s username password db =
     (if as_role_resolver st = ''oidc'' then (db, Inl Local_login_disabled)
      else case pam_authenticate pam username password None (service_chain st) of
        (False, code) \<Rightarrow>
          (let (reason, message) = classify_pam_auth_failure code
           in (auth_audit e ''AUTH_FAILURE'' username
                 [(''reason'', JStr (case reason of None \<Rightarrow> ''invalid_credentials'' | Some r \<Rightarrow> r)), (''path'', JStr path)] db,
               Inl (Unauthenticated message (case reason of None \<Rightarrow> [] | Some r \<Rightarrow> r))))
      | (True, _) \<Rightarrow>
          (case resolve_roles st rows s username of
             (groups, Inl err) \<Rightarrow> (db, Inl err)
           | (groups, Inr roles) \<Rightarrow>
               if roles = [] then
                 (auth_audit e ''AUTH_FAILURE'' username
                    [(''reason'', JStr ''No ECUBE roles assigned''), (''path'', JStr path), (''groups'', JList (map JStr groups))] db,
                  Inl (Forbidden ''User is not assigned any ECUBE roles''))
               else (auth_audit e ''AUTH_SUCCESS'' username
                       [(''groups'', JList (map JStr groups)), (''roles'', JList (map JStr roles)), (''path'', JStr path)] db,
                     Inr (build_token_response st lib policy (e_now e) username groups roles))))"

definition change_password ::
  "env \<Rightarrow> auth_settings \<Rightarrow> token_library \<Rightarrow> pam_library \<Rightarrow> os_host \<Rightarrow> (string \<Rightarrow> (int option \<times> bool) option) \<Rightarrow> string \<Rightarrow> role_row list \<Rightarrow> string \<Rightarrow> string \<Rightarrow>
   string \<Rightarrow> os_accounts \<times> db \<Rightarrow> (os_accounts \<times> db) \<times> os_call list \<times> (auth_error + token_response)" where
  "change_password e st lib pam h policy path rows username current new x =
     (case x of (s, db) \<Rightarrow>
      if as_role_resolver st = ''oidc'' then ((s, db), [], Inl Local_login_disabled)
      else case pam_authenticate pam username current None (service_chain st) of (authenticated, code) \<Rightarrow>
       (let (reason, message) = classify_pam_auth_failure code;
            failed = (\<lambda>why. auth_audit e ''PASSWORD_CHANGE_FAILED'' username [(''reason'', JStr why), (''path'', JStr path)] db)
        in if \<not> authenticated \<and> reason \<noteq> Some ''password_expired''
           then ((s, failed (case reason of None \<Rightarrow> ''invalid_current_password'' | Some r \<Rightarrow> r)), [],
                 Inl (Unauthenticated message (case reason of None \<Rightarrow> [] | Some r \<Rightarrow> r)))
           else case reset_password h False username new s of
             (s', calls, Inl (Value_error msg)) \<Rightarrow> ((s', failed ''invalid_password_input''), calls, Inl (Bad_password_input msg))
           | (s', calls, Inl (Os_user_error msg c)) \<Rightarrow>
               (if is_pam_policy_violation msg then ((s', failed ''pam_policy_violation''), calls, Inl Weak_password)
                else ((s', failed ''password_change_failed''), calls, Inl Password_change_failed))
           | (s', calls, Inl (Authorization_error msg)) \<Rightarrow> ((s', db), calls, Inl (Forbidden msg))
           | (s', calls, Inl _) \<Rightarrow> ((s', db), calls, Inl Unhandled_error)
           | (s', calls, Inr _) \<Rightarrow>
               (case resolve_roles st rows s' username of
                  (groups, Inl err) \<Rightarrow> ((s', db), calls, Inl err)
                | (groups, Inr roles) \<Rightarrow>
                    if roles = [] then ((s', db), calls, Inl (Forbidden ''User is not assigned any ECUBE roles''))
                    else ((s', auth_audit e ''PASSWORD_CHANGED'' username [(''path'', JStr path)] db), calls,
                          Inr (build_token_response st lib policy (e_now e) username groups roles)))))"

end
