(* ===== verification/Auth_Safety.thy ===== *)
theory Auth_Safety
  imports Auth Job_Safety
begin

text \<open>
  What authentication guarantees: access needs a valid token that grants one of the required roles, roles come from the token or
  from mapped groups and from nowhere else, and a token of the login route is read back as the user it was issued for.
\<close>

section \<open>Roles\<close>

lemma add_role_props: "set (add_role r acc) = insert r (set acc)" "distinct acc \<Longrightarrow> distinct (add_role r acc)"
  by (auto simp: add_role_def)

lemma fold_add_role: "set (fold add_role rs acc) = set rs \<union> set acc" "distinct acc \<Longrightarrow> distinct (fold add_role rs acc)"
  by (induction rs arbitrary: acc) (auto simp: add_role_props)

lemma resolve_roles_exact:
  "set (resolve_roles_by m gs) = {r. \<exists>g\<in>set gs. \<exists>rs. map_of m g = Some rs \<and> r \<in> set rs}" "distinct (resolve_roles_by m gs)"
proof -
  let ?f = "\<lambda>g acc. fold add_role (case map_of m g of None \<Rightarrow> [] | Some rs \<Rightarrow> rs) acc"
  have "set (fold ?f gs acc) = set acc \<union> {r. \<exists>g\<in>set gs. \<exists>rs. map_of m g = Some rs \<and> r \<in> set rs}" for acc
    by (induction gs arbitrary: acc) (auto simp: fold_add_role split: option.splits)
  then show "set (resolve_roles_by m gs) = {r. \<exists>g\<in>set gs. \<exists>rs. map_of m g = Some rs \<and> r \<in> set rs}" by (simp add: resolve_roles_by_def)
  have "distinct acc \<Longrightarrow> distinct (fold ?f gs acc)" for acc
    by (induction gs arbitrary: acc) (auto simp: fold_add_role(2))
  then show "distinct (resolve_roles_by m gs)" by (simp add: resolve_roles_by_def)
qed

lemma strings_of_Some: "strings_of v = Some ss \<longleftrightarrow> v = JList (map JStr ss)"
proof (cases v)
  case (JList xs)
  have "those (map (\<lambda>x. case x of JStr s \<Rightarrow> Some s | _ \<Rightarrow> None) xs) = Some ss \<longleftrightarrow> xs = map JStr ss"
  proof (induction xs arbitrary: ss)
    case (Cons x xs)
    show ?case using Cons.IH by (cases x; cases ss) (auto split: option.splits)
  qed auto
  with JList show ?thesis by simp
qed auto

section \<open>Access\<close>

lemma user_of_claims_cases:
  assumes "user_of_claims st p = Inr u"
  obtains gs rs where "cu_groups u = JList (map JStr gs)" "none_as_empty (claim ''groups'' p) = JList (map JStr gs)"
    "none_as_empty (claim ''roles'' p) = JList (map JStr rs)" "cu_id u \<noteq> JNull" "cu_username u \<noteq> JNull"
    "claim ''sub'' p = Some (cu_id u)" "claim ''username'' p = Some (cu_username u)"
    "if rs = [] \<and> gs \<noteq> [] then \<exists>m. get_role_resolver st = Some m \<and> cu_roles u = JList (map JStr (resolve_roles_by m gs)) else cu_roles u = JList (map JStr rs)"
proof -
  obtain user_id username where c: "claim ''sub'' p = Some user_id" "claim ''username'' p = Some username" "user_id \<noteq> JNull" "username \<noteq> JNull"
    using assms unfolding user_of_claims_def by (auto split: option.splits if_splits)
  note b = assms [unfolded user_of_claims_def c option.case prod.case Let_def]
  obtain gs where gs: "strings_of (none_as_empty (claim ''groups'' p)) = Some gs"
    using b c(3,4) by (cases "strings_of (none_as_empty (claim ''groups'' p))") simp_all
  obtain rs where rs: "strings_of (none_as_empty (claim ''roles'' p)) = Some rs"
    using b c(3,4) gs by (cases "strings_of (none_as_empty (claim ''roles'' p))") simp_all
  note v = gs [unfolded strings_of_Some] rs [unfolded strings_of_Some]
  show thesis
  proof (cases "rs = [] \<and> gs \<noteq> []")
    case True
    obtain m where "get_role_resolver st = Some m" using b c(3,4) gs rs True by (cases "get_role_resolver st") simp_all
    with b c gs rs v True show thesis by (intro that [of gs rs]) auto
  next
    case False
    with b c gs rs v show thesis by (intro that [of gs rs]) (auto split: if_splits)
  qed
qed

lemma oidc_user_cases:
  assumes "get_current_user_oidc st lib now token = Inr u"
  obtains p gs m where "validate_oidc_token st lib now token = Inr p" "cu_groups u = JList (map JStr gs)"
    "(case claim (as_oidc_group_claim st) p of None \<Rightarrow> JList [] | Some v \<Rightarrow> v) = JList (map JStr gs)"
    "get_role_resolver st = Some m" "cu_roles u = JList (map JStr (resolve_roles_by m gs))" "json_truthy (cu_id u)" "json_truthy (cu_username u)"
proof -
  obtain p where p: "validate_oidc_token st lib now token = Inr p" using assms by (cases "validate_oidc_token st lib now token") (simp_all add: get_current_user_oidc_def)
  let ?g = "case claim (as_oidc_group_claim st) p of None \<Rightarrow> JList [] | Some v \<Rightarrow> v" and ?i = "case claim ''sub'' p of None \<Rightarrow> JNull | Some v \<Rightarrow> v"
  note b = assms [unfolded get_current_user_oidc_def p sum.case Let_def]
  have i: "json_truthy ?i" using b by (cases "json_truthy ?i") simp_all
  obtain gs where gs: "strings_of ?g = Some gs" using b i by (cases "strings_of ?g") simp_all
  obtain m where m: "get_role_resolver st = Some m" using b i gs by (cases "get_role_resolver st") simp_all
  note u = b [unfolded if_not_P [OF not_not [THEN iffD2, OF i]] gs m option.case, simplified]
  show thesis
    using u i p m gs [unfolded strings_of_Some] by (intro that [of p gs m]) (auto split: option.splits)
qed

text \<open>C39. Authenticated users are well typed: whatever JSON values a token holds, if a user results, the groups and the roles of the user are
  lists of texts, and the identifier and the name are not null.\<close>

theorem current_user_typed:
  assumes "get_current_user st lib now cred = Inr u"
  shows "(\<exists>gs. cu_groups u = JList (map JStr gs)) \<and> (\<exists>rs. cu_roles u = JList (map JStr rs)) \<and> cu_id u \<noteq> JNull \<and> cu_username u \<noteq> JNull"
proof -
  obtain scheme token where c: "cred = Some (scheme, token)" using assms by (cases cred) (auto simp: get_current_user_def)
  have bearer: "py_lower scheme = ''bearer''" using assms unfolding get_current_user_def c by (cases "py_lower scheme = ''bearer''") simp_all
  show ?thesis
  proof (cases "as_role_resolver st = ''oidc''")
    case True
    then have "get_current_user_oidc st lib now token = Inr u" using assms bearer unfolding get_current_user_def c by simp
    then show ?thesis by (rule oidc_user_cases) auto
  next
    case False
    then obtain p where "user_of_claims st p = Inr u"
      using assms bearer unfolding get_current_user_def c by (cases "tl_decode lib now token (as_secret_key st) [as_algorithm st]") simp_all
    then show ?thesis by (rule user_of_claims_cases) (auto split: if_splits)
  qed
qed

text \<open>The dependency of a protected route: the token is checked, then the roles.\<close>

definition authorize ::
  "env \<Rightarrow> auth_settings \<Rightarrow> token_library \<Rightarrow> string list \<Rightarrow> string \<Rightarrow> string \<Rightarrow> (string \<times> string) option \<Rightarrow> db \<Rightarrow> db \<times> (auth_error + current_user)" where
  "authorize e st lib allowed path meth cred db =
     (case get_current_user st lib (e_now e) cred of Inl err \<Rightarrow> (db, Inl err) | Inr u \<Rightarrow> require_roles e allowed path meth u db)"

text \<open>The roles that checked claims grant: those they list, or, when they list none or come from an identity provider, those that the configured
  map gives to their groups.\<close>

definition grants :: "auth_settings \<Rightarrow> claims \<Rightarrow> string \<Rightarrow> bool" where
  "grants st p role \<longleftrightarrow>
     as_role_resolver st \<noteq> ''oidc'' \<and> (\<exists>rs. claim ''roles'' p = Some (JList (map JStr rs)) \<and> role \<in> set rs) \<or>
     (\<exists>gs m g rs. claim (if as_role_resolver st = ''oidc'' then as_oidc_group_claim st else ''groups'') p = Some (JList (map JStr gs)) \<and>
        (as_role_resolver st \<noteq> ''oidc'' \<longrightarrow> none_as_empty (claim ''roles'' p) = JList []) \<and>
        get_role_resolver st = Some m \<and> g \<in> set gs \<and> map_of m g = Some rs \<and> role \<in> set rs)"

definition token_claims_checked :: "auth_settings \<Rightarrow> token_library \<Rightarrow> int \<Rightarrow> string \<Rightarrow> claims \<Rightarrow> bool" where
  "token_claims_checked st lib now token p \<longleftrightarrow>
     (if as_role_resolver st = ''oidc'' then validate_oidc_token st lib now token = Inr p
      else tl_decode lib now token (as_secret_key st) [as_algorithm st] = Decoded p)"

lemma none_as_empty_list: "none_as_empty v = JList (map JStr ss) \<Longrightarrow> ss \<noteq> [] \<Longrightarrow> v = Some (JList (map JStr ss))"
  by (auto simp: none_as_empty_def split: option.splits jval.splits)

lemma granted_roles:
  assumes "get_current_user st lib now (Some (scheme, token)) = Inr u" "JStr role \<in> set (elements (cu_roles u))"
  shows "\<exists>p. token_claims_checked st lib now token p \<and> grants st p role"
proof -
  have bearer: "py_lower scheme = ''bearer''" using assms(1) unfolding get_current_user_def by (cases "py_lower scheme = ''bearer''") simp_all
  show ?thesis
  proof (cases "as_role_resolver st = ''oidc''")
    case True
    then have "get_current_user_oidc st lib now token = Inr u" using assms(1) bearer unfolding get_current_user_def by simp
    then obtain p gs m where p: "validate_oidc_token st lib now token = Inr p" and g: "get_role_resolver st = Some m"
      "(case claim (as_oidc_group_claim st) p of None \<Rightarrow> JList [] | Some v \<Rightarrow> v) = JList (map JStr gs)" "cu_roles u = JList (map JStr (resolve_roles_by m gs))"
      by (rule oidc_user_cases)
    have r: "role \<in> set (resolve_roles_by m gs)" using assms(2) g(3) by (auto simp: elements_def)
    then have "gs \<noteq> []" by (auto simp: resolve_roles_by_def)
    then have "claim (as_oidc_group_claim st) p = Some (JList (map JStr gs))" using g(2) by (cases "claim (as_oidc_group_claim st) p") simp_all
    with r g(1) True have "grants st p role" unfolding grants_def resolve_roles_exact by auto
    with p True show ?thesis by (auto simp: token_claims_checked_def)
  next
    case False
    then obtain p where p: "tl_decode lib now token (as_secret_key st) [as_algorithm st] = Decoded p" "user_of_claims st p = Inr u"
      using assms(1) bearer unfolding get_current_user_def by (cases "tl_decode lib now token (as_secret_key st) [as_algorithm st]") simp_all
    from p(2) obtain gs rs where c: "none_as_empty (claim ''groups'' p) = JList (map JStr gs)" "none_as_empty (claim ''roles'' p) = JList (map JStr rs)"
      "if rs = [] \<and> gs \<noteq> [] then \<exists>m. get_role_resolver st = Some m \<and> cu_roles u = JList (map JStr (resolve_roles_by m gs)) else cu_roles u = JList (map JStr rs)"
      by (rule user_of_claims_cases)
    have "grants st p role"
    proof (cases "rs = [] \<and> gs \<noteq> []")
      case True
      then obtain m where m: "get_role_resolver st = Some m" "cu_roles u = JList (map JStr (resolve_roles_by m gs))" using c(3) by auto
      then have "role \<in> set (resolve_roles_by m gs)" using assms(2) by (auto simp: elements_def)
      then show ?thesis using m(1) False True c(2) none_as_empty_list [OF c(1)] unfolding grants_def resolve_roles_exact by auto
    next
      case no: False
      then have "cu_roles u = JList (map JStr rs)" using c(3) by (simp only: if_False)
      then have "role \<in> set rs" using assms(2) by (auto simp: elements_def)
      moreover from this have "rs \<noteq> []" by auto
      then have "claim ''roles'' p = Some (JList (map JStr rs))" by (rule none_as_empty_list [OF c(2)])
      ultimately show ?thesis using False by (auto simp: grants_def)
    qed
    with p(1) False show ?thesis by (auto simp: token_claims_checked_def)
  qed
qed

text \<open>C15. Access is denied by default: a protected route is entered only with a bearer token whose claims were checked and grant one of the
  roles that the route asks for, and then nothing is written; a user without such a role is refused, and nothing but the audit log
  changes.\<close>

theorem access_needs_role:
  assumes "authorize e st lib allowed path meth cred db = (db', r)"
  shows "(case r of
      Inr u \<Rightarrow> db' = db \<and> (\<exists>scheme token p role. cred = Some (scheme, token) \<and> py_lower scheme = ''bearer'' \<and>
        token_claims_checked st lib (e_now e) token p \<and> role \<in> set allowed \<and> grants st p role)
    | Inl _ \<Rightarrow> audited db db')"
proof (cases r)
  case (Inl err)
  then show ?thesis using assms best_effort_audited
    by (auto simp: authorize_def require_roles_def split: sum.splits if_splits)
next
  case (Inr u)
  then have u: "get_current_user st lib (e_now e) cred = Inr u" and db: "db' = db" and ex: "\<exists>role\<in>set allowed. JStr role \<in> set (elements (cu_roles u))"
    using assms by (auto simp: authorize_def require_roles_def list_ex_iff split: sum.splits if_splits)
  obtain scheme token where c: "cred = Some (scheme, token)" using u by (cases cred) (auto simp: get_current_user_def)
  have "py_lower scheme = ''bearer''" using u unfolding get_current_user_def c by (cases "py_lower scheme = ''bearer''") simp_all
  with ex granted_roles [OF u [unfolded c]] c db Inr show ?thesis by fastforce
qed

section \<open>Stored roles and tokens\<close>

definition roles_ok :: "role_row list \<Rightarrow> bool" where
  "roles_ok rows \<longleftrightarrow> distinct rows \<and> snd ` set rows \<subseteq> set valid_roles"

text \<open>Stored roles are valid and what was stored is read back: replacing the roles of a user either fails and changes nothing or makes exactly the given
  roles those of the user, in order, and leaves all other users alone; in both cases only valid roles are stored, each once.\<close>

theorem set_roles_exact:
  assumes "set_roles ok u roles rows = (rows', r)" "roles_ok rows"
  shows "roles_ok rows' \<and> (case r of
      Inl _ \<Rightarrow> rows' = rows
    | Inr _ \<Rightarrow> get_roles u rows' = sort roles \<and> (\<forall>v. v \<noteq> u \<longrightarrow> get_roles v rows' = get_roles v rows))"
proof (cases "\<exists>x. r = Inl x")
  case True
  then show ?thesis using assms by (auto simp: set_roles_def Let_def split: if_splits)
next
  case False
  then have ok: "sort (remdups (filter (\<lambda>r. r \<notin> set valid_roles) roles)) = []" "distinct roles"
    and rows': "rows' = filter (\<lambda>r. fst r \<noteq> u) rows @ map (\<lambda>role. (u, role)) roles"
    using assms(1) unfolding set_roles_def Let_def by (auto split: if_splits)
  from ok(1) have "set (sort (remdups (filter (\<lambda>r. r \<notin> set valid_roles) roles))) = {}" by simp
  then have "set roles \<subseteq> set valid_roles" by auto
  moreover have "distinct (map (\<lambda>role. (u, role)) roles)" using ok(2) by (simp add: distinct_map inj_on_def)
  ultimately have "roles_ok rows'" using assms(2) unfolding rows' roles_ok_def by auto
  moreover have "filter (\<lambda>r. fst r = u) rows' = map (\<lambda>role. (u, role)) roles" unfolding rows' by (simp add: filter_map comp_def)
  moreover have "filter (\<lambda>r. fst r = v) rows' = filter (\<lambda>r. fst r = v) rows" if "v \<noteq> u" for v
    using that unfolding rows' by (simp add: filter_map comp_def) (metis (mono_tags, lifting) filter_cong)
  ultimately show ?thesis using False by (cases r) (simp_all add: get_roles_def comp_def)
qed

lemma strings_of_list [simp]: "strings_of (JList (map JStr ss)) = Some ss"
  by (simp only: strings_of_Some)

text \<open>C40. A token is read back as the user it was issued for: if the login route returns a token, PAM accepted the password, and a library that decodes the
  issued claims gives a user with the name of the login, at least one role, and exactly the stored roles or else the roles of the groups.\<close>

theorem login_token_roundtrip:
  assumes "login e st lib pam policy path rows s u password db = (db', Inr t)"
    "\<And>groups roles. resolve_roles st rows s u = (groups, Inr roles) \<Longrightarrow>
       tl_decode lib now (tl_encode lib (token_claims st (e_now e) u groups roles) (as_secret_key st) (as_algorithm st)) (as_secret_key st) [as_algorithm st] =
       Decoded (token_claims st (e_now e) u groups roles)"
  shows "fst (pam_authenticate pam u password None (service_chain st)) \<and>
    (\<exists>user roles. get_current_user st lib now (Some (''Bearer'', tr_access_token t)) = Inr user \<and>
       cu_id user = JStr u \<and> cu_username user = JStr u \<and> cu_roles user = JList (map JStr roles) \<and> roles \<noteq> [] \<and>
       (if get_roles u rows \<noteq> [] then roles = get_roles u rows
        else \<exists>m. get_role_resolver st = Some m \<and> roles = resolve_roles_by m (pam_get_user_groups u s)))"
proof -
  have no: "as_role_resolver st \<noteq> ''oidc''" using assms(1) by (auto simp: login_def)
  obtain b code where p: "pam_authenticate pam u password None (service_chain st) = (b, code)" by fastforce
  have b: "b" using assms(1) no p by (cases b) (simp_all add: login_def split: prod.splits)
  let ?groups = "pam_get_user_groups u s"
  obtain rr where rr: "resolve_roles st rows s u = (?groups, rr)" by (simp add: resolve_roles_def Let_def)
  obtain roles where r: "rr = Inr roles" "roles \<noteq> []" and t: "t = build_token_response st lib policy (e_now e) u ?groups roles"
    using assms(1) no p b rr unfolding login_def by (cases rr) (simp_all split: if_splits)
  have src: "if get_roles u rows \<noteq> [] then roles = get_roles u rows else \<exists>m. get_role_resolver st = Some m \<and> roles = resolve_roles_by m ?groups"
    using rr r(1) by (auto simp: resolve_roles_def Let_def split: if_splits option.splits)
  have "py_lower ''Bearer'' = ''bearer''" by code_simp
  then have g: "get_current_user st lib now (Some (''Bearer'', tr_access_token t)) = user_of_claims st (token_claims st (e_now e) u ?groups roles)"
    using no assms(2) [OF rr [unfolded r(1)]] unfolding get_current_user_def t build_token_response_def by simp
  have c: "claim ''sub'' (token_claims st n u gs rs) = Some (JStr u)" "claim ''username'' (token_claims st n u gs rs) = Some (JStr u)"
    "claim ''groups'' (token_claims st n u gs rs) = Some (JList (map JStr gs))" "claim ''roles'' (token_claims st n u gs rs) = Some (JList (map JStr rs))" for n gs rs
    by (simp_all add: claim_def token_claims_def)
  have n: "none_as_empty (Some (JList xs)) = JList xs" for xs by (simp add: none_as_empty_def)
  let ?user = "\<lparr>cu_id = JStr u, cu_username = JStr u, cu_groups = JList (map JStr ?groups), cu_roles = JList (map JStr roles)\<rparr>"
  have "user_of_claims st (token_claims st (e_now e) u ?groups roles) =
      Inr \<lparr>cu_id = JStr u, cu_username = JStr u, cu_groups = JList (map JStr ?groups), cu_roles = JList (map JStr roles)\<rparr>"
    using r(2) unfolding user_of_claims_def c Let_def option.case prod.case n strings_of_list by simp
  then have "get_current_user st lib now (Some (''Bearer'', tr_access_token t)) = Inr ?user" using g by (simp only:)
  moreover have "cu_id ?user = JStr u \<and> cu_username ?user = JStr u \<and> cu_roles ?user = JList (map JStr roles) \<and> roles \<noteq> []" using r(2) by simp
  moreover have "fst (pam_authenticate pam u password None (service_chain st))" using p b by simp
  ultimately show ?thesis using src by blast
qed

section \<open>Examples\<close>

definition example_auth :: auth_settings where
  "example_auth =
     \<lparr>as_role_resolver = ''local'', as_secret_key = ''key'', as_algorithm = ''HS256'', as_local_map = [(''ecube-processors'', [''processor''])],
      as_ldap_map = [], as_oidc_map = [], as_oidc_group_claim = ''groups'', as_oidc_discovery_url = [], as_oidc_audience = [], as_oidc_algorithms = [],
      as_token_expire_minutes = 60, as_pam_service_name = ''ecube'', as_pam_fallback_services = [''login'']\<rparr>"

definition example_tokens :: token_library where
  "example_tokens =
     \<lparr>tl_encode = (\<lambda>_ _ _. ''token''),
      tl_decode = (\<lambda>_ t _ _. if t = ''token'' then Decoded (token_claims example_auth 100 ''alice'' [''ecube-processors''] [''processor'']) else Invalid_token ''bad''),
      tl_fetch = (\<lambda>_. Inl ''offline''), tl_signing_key = (\<lambda>_ _. Inl ''none''), tl_decode_oidc = (\<lambda>_ _ _ _ _. Expired_token)\<rparr>"

definition example_pam :: pam_library where
  "example_pam = \<lparr>pl_authenticate = (\<lambda>svc u p. (svc = ''login'' \<and> p = ''secret'', Some (if p = ''secret'' then 0 else 7)))\<rparr>"

theorem current_user_typed_witness:
  "\<exists>u rs. get_current_user example_auth example_tokens 200 (Some (''Bearer'', ''token'')) = Inr u \<and> cu_roles u = JList (map JStr rs)"
proof -
  have "case get_current_user example_auth example_tokens 200 (Some (''Bearer'', ''token'')) of Inl _ \<Rightarrow> False | Inr _ \<Rightarrow> True" by code_simp
  then obtain u where "get_current_user example_auth example_tokens 200 (Some (''Bearer'', ''token'')) = Inr u" by (auto split: sum.splits)
  with current_user_typed [OF this] show ?thesis by blast
qed

theorem access_needs_role_witness:
  "\<exists>db' u p role. authorize example_env example_auth example_tokens [''admin'', ''processor''] ''/jobs'' ''GET'' (Some (''Bearer'', ''token'')) empty_db = (db', Inr u) \<and>
     token_claims_checked example_auth example_tokens 100 ''token'' p \<and> role \<in> {''admin'', ''processor''} \<and> grants example_auth p role"
proof -
  let ?a = "authorize example_env example_auth example_tokens [''admin'', ''processor''] ''/jobs'' ''GET'' (Some (''Bearer'', ''token'')) empty_db"
  have "case ?a of (_, Inl _) \<Rightarrow> False | (_, Inr _) \<Rightarrow> True" by code_simp
  then obtain db' u where a: "?a = (db', Inr u)" by (auto split: prod.splits sum.splits)
  have n: "e_now example_env = 100" by (simp add: example_env_def)
  from access_needs_role [OF a] a show ?thesis unfolding sum.case n by auto
qed

theorem set_roles_exact_witness:
  "get_roles ''bob'' (fst (set_roles True ''bob'' [''processor'', ''auditor''] [(''alice'', ''admin''), (''bob'', ''manager'')])) = sort [''processor'', ''auditor''] \<and>
     get_roles ''alice'' (fst (set_roles True ''bob'' [''processor'', ''auditor''] [(''alice'', ''admin''), (''bob'', ''manager'')])) =
     get_roles ''alice'' [(''alice'', ''admin''), (''bob'', ''manager'')]"
proof -
  let ?rows = "[(''alice'', ''admin''), (''bob'', ''manager'')]"
  obtain rows' r where s: "set_roles True ''bob'' [''processor'', ''auditor''] ?rows = (rows', r)" by fastforce
  have "snd (set_roles True ''bob'' [''processor'', ''auditor''] ?rows) = Inr [''processor'', ''auditor'']" by code_simp
  then have r: "r = Inr [''processor'', ''auditor'']" using s by simp
  have "roles_ok ?rows" by code_simp
  from set_roles_exact [OF s this] show ?thesis unfolding r sum.case s fst_conv by simp
qed

theorem login_token_roundtrip_witness:
  "\<exists>db' t user. login example_env example_auth example_tokens example_pam (\<lambda>_. None) ''/auth/token'' [] example_accounts ''alice'' ''secret'' empty_db = (db', Inr t) \<and>
     get_current_user example_auth example_tokens 200 (Some (''Bearer'', tr_access_token t)) = Inr user \<and> cu_username user = JStr ''alice''"
proof -
  let ?l = "login example_env example_auth example_tokens example_pam (\<lambda>_. None) ''/auth/token'' [] example_accounts ''alice'' ''secret'' empty_db"
  have "case ?l of (_, Inl _) \<Rightarrow> False | (_, Inr _) \<Rightarrow> True" by code_simp
  then obtain db' t where l: "?l = (db', Inr t)" by (auto split: prod.splits sum.splits)
  have "resolve_roles example_auth [] example_accounts ''alice'' = ([''ecube-processors''], Inr [''processor''])" by code_simp
  then have d: "tl_decode example_tokens 200 (tl_encode example_tokens (token_claims example_auth (e_now example_env) ''alice'' groups roles)
      (as_secret_key example_auth) (as_algorithm example_auth)) (as_secret_key example_auth) [as_algorithm example_auth] =
      Decoded (token_claims example_auth (e_now example_env) ''alice'' groups roles)"
    if "resolve_roles example_auth [] example_accounts ''alice'' = (groups, Inr roles)" for groups roles
    using that by (simp add: example_tokens_def example_env_def)
  from login_token_roundtrip [OF l d] l show ?thesis by blast
qed

text \<open>Changing a password sets it before the roles are looked up: a user without a role gets an error and the audit log does not mention the
  change, although the password was set.\<close>

theorem password_change_unaudited:
  "case change_password example_env (example_auth\<lparr>as_local_map := []\<rparr>) example_tokens example_pam (example_os (Exec_exited 0 [])) (\<lambda>_. None) ''/auth/change-password'' []
      ''alice'' ''secret'' ''better'' (example_accounts, empty_db) of
     ((s, db), calls, r) \<Rightarrow> calls = [([''/usr/sbin/chpasswd''], Some ''alice:better'')] \<and> audits db = [] \<and> (case r of Inl _ \<Rightarrow> True | Inr _ \<Rightarrow> False)"
  by code_simp

end
