(* ===== verification/Reconcile_Run.thy ===== *)
theory Reconcile_Run
  imports Reconcile_Net Reconcile_Lock Auth_Safety
begin

text \<open>
  The reconciliation of accounts and the two entry points of the reconciliation service: the run at start-up and the run on request
  (\<open>app/services/reconciliation_service.py\<close>). A failed pass is rolled back and reported, and the next pass still runs; the lock is
  refreshed between passes and given back at the end.
\<close>

section \<open>Accounts\<close>

text \<open>The operations of \<open>OsUserProvider\<close> that the reconciliation calls, and the Linux implementation.\<close>

record os_provider =
  op_user_exists :: "string \<Rightarrow> os_accounts \<Rightarrow> bool"
  op_add_user_to_groups :: "bool \<Rightarrow> string \<Rightarrow> string list \<Rightarrow> os_user os_action"
  op_reset_password :: "bool \<Rightarrow> string \<Rightarrow> string \<Rightarrow> unit os_action"
  op_ensure_ecube_groups :: "string list os_action"

definition linux_os_user_provider :: "os_host \<Rightarrow> os_provider" where
  "linux_os_user_provider h =
     \<lparr>op_user_exists = user_exists, op_add_user_to_groups = add_user_to_groups h, op_reset_password = reset_password h,
      op_ensure_ecube_groups = ensure_ecube_groups h\<rparr>"

record identity_config =
  ic_demo_mode :: bool
  ic_demo_accounts :: "string list"
  ic_demo_shared_password :: string

record identity_summary =
  is_checked :: nat
  is_with_mapped_roles :: nat
  is_missing :: nat
  is_groups_updated :: nat
  is_passwords_reset :: nat
  is_errors :: "(string \<times> user_error) list"

definition role_to_group :: "string \<Rightarrow> string option" where
  "role_to_group role = map_of (map (\<lambda>(g, r). (r, g)) ecube_group_role_map) role"

definition required_groups :: "string list \<Rightarrow> string list" where
  "required_groups roles = sort (remdups (concat (map (\<lambda>r. case role_to_group r of None \<Rightarrow> [] | Some g \<Rightarrow> [g]) roles)))"

definition resets_demo_password :: "identity_config \<Rightarrow> string \<Rightarrow> bool" where
  "resets_demo_password cfg username \<longleftrightarrow>
     ic_demo_mode cfg \<and> username \<in> set (filter (\<lambda>u. u \<noteq> []) (map py_strip (ic_demo_accounts cfg))) \<and> py_strip (ic_demo_shared_password cfg) \<noteq> []"

definition reconcile_identity_user ::
  "identity_config \<Rightarrow> os_provider \<Rightarrow> string \<times> string list \<Rightarrow> os_accounts \<Rightarrow> identity_summary \<Rightarrow> os_accounts \<times> os_call list \<times> identity_summary" where
  "reconcile_identity_user cfg p row s sm =
     (let (username, roles) = row
      in if username = [] then (s, [], sm)
         else let sm1 = sm\<lparr>is_checked := Suc (is_checked sm)\<rparr>; groups = required_groups roles
              in if groups = [] then (s, [], sm1)
                 else let sm2 = sm1\<lparr>is_with_mapped_roles := Suc (is_with_mapped_roles sm1)\<rparr>
                      in if \<not> op_user_exists p username s then (s, [], sm2\<lparr>is_missing := Suc (is_missing sm2)\<rparr>)
                         else (case op_add_user_to_groups p True username groups s of
                                 (s1, c1, Inl err) \<Rightarrow> (s1, c1, sm2\<lparr>is_errors := is_errors sm2 @ [(username, err)]\<rparr>)
                               | (s1, c1, Inr _) \<Rightarrow>
                                   (let sm3 = sm2\<lparr>is_groups_updated := Suc (is_groups_updated sm2)\<rparr>
                                    in if \<not> resets_demo_password cfg username then (s1, c1, sm3)
                                       else (case op_reset_password p True username (py_strip (ic_demo_shared_password cfg)) s1 of
                                               (s2, c2, Inl err) \<Rightarrow> (s2, c1 @ c2, sm3\<lparr>is_errors := is_errors sm3 @ [(username, err)]\<rparr>)
                                             | (s2, c2, Inr _) \<Rightarrow> (s2, c1 @ c2, sm3\<lparr>is_passwords_reset := Suc (is_passwords_reset sm3)\<rparr>)))))"

fun reconcile_identity_rows ::
  "identity_config \<Rightarrow> os_provider \<Rightarrow> (string \<times> string list) list \<Rightarrow> os_accounts \<Rightarrow> identity_summary \<Rightarrow> os_accounts \<times> os_call list \<times> identity_summary" where
  "reconcile_identity_rows cfg p [] s sm = (s, [], sm)"
| "reconcile_identity_rows cfg p (row # rest) s sm =
     (case reconcile_identity_user cfg p row s sm of
        (s1, c1, sm1) \<Rightarrow> (case reconcile_identity_rows cfg p rest s1 sm1 of (s2, c2, sm2) \<Rightarrow> (s2, c1 @ c2, sm2)))"

definition empty_identity_summary :: identity_summary where
  "empty_identity_summary =
     \<lparr>is_checked = 0, is_with_mapped_roles = 0, is_missing = 0, is_groups_updated = 0, is_passwords_reset = 0, is_errors = []\<rparr>"

definition reconcile_identity_users ::
  "identity_config \<Rightarrow> os_provider \<Rightarrow> role_row list \<Rightarrow> os_accounts \<Rightarrow> os_accounts \<times> os_call list \<times> identity_summary" where
  "reconcile_identity_users cfg p rows s = reconcile_identity_rows cfg p (list_role_users rows) s empty_identity_summary"

definition reconcile_identity_groups :: "os_provider \<Rightarrow> os_accounts \<Rightarrow> os_accounts \<times> os_call list \<times> (user_error + string list)" where
  "reconcile_identity_groups p s = op_ensure_ecube_groups p s"

section \<open>The run at start-up\<close>

record startup_state =
  su_lock :: "lock_row option"
  su_accounts :: os_accounts
  su_roles :: "role_row list"
  su_db :: db

datatype startup_call = Account_call os_call | Mount_call reconcile_effect | Callback_call job_effect

text \<open>What the run is given: the providers, and the seeding of demo data, which is an argument.\<close>

record startup_config =
  sg_kill :: "int \<Rightarrow> kill_result"
  sg_pid :: int
  sg_users :: "os_provider option"
  sg_identity :: identity_config
  sg_seed_demo :: "startup_state \<Rightarrow> startup_state \<times> startup_call list \<times> bool"
  sg_shares :: "nat \<Rightarrow> share_provider"
  sg_share_pass :: share_pass_config
  sg_usb :: "usb_mount_host option"
  sg_source :: source_host
  sg_batch :: nat
  sg_probe :: "string \<Rightarrow> int option"
  sg_disc :: disc_cfg
  sg_topology :: discovered_topology

type_synonym startup_pass = "startup_state \<Rightarrow> startup_state \<times> startup_call list \<times> bool"

definition pass_normalize :: "env \<Rightarrow> startup_pass" where
  "pass_normalize e s =
     (if e_db_ok e ''normalize_drive_states'' then (s\<lparr>su_db := fst (normalize_unreleased_drive_states e (su_db s))\<rparr>, [], True) else (s, [], False))"

definition pass_groups :: "os_provider \<Rightarrow> startup_pass" where
  "pass_groups p s =
     (case reconcile_identity_groups p (su_accounts s) of
        (a, calls, r) \<Rightarrow> (s\<lparr>su_accounts := a\<rparr>, map Account_call calls, case r of Inl _ \<Rightarrow> False | Inr _ \<Rightarrow> True))"

definition pass_users :: "identity_config \<Rightarrow> os_provider \<Rightarrow> startup_pass" where
  "pass_users cfg p s =
     (case reconcile_identity_users cfg p (su_roles s) (su_accounts s) of
        (a, calls, sm) \<Rightarrow> (s\<lparr>su_accounts := a\<rparr>, map Account_call calls, True))"

definition pass_mounts :: "env \<Rightarrow> startup_config \<Rightarrow> startup_pass" where
  "pass_mounts e g s =
     (case reconcile_mounts e (sg_shares g) (sg_share_pass g) (sg_usb g) (su_db s) of
        (db', calls, r) \<Rightarrow> (s\<lparr>su_db := db'\<rparr>, map Mount_call calls, case r of Inl _ \<Rightarrow> False | Inr _ \<Rightarrow> True))"

definition pass_jobs :: "env \<Rightarrow> startup_config \<Rightarrow> startup_pass" where
  "pass_jobs e g s =
     (case reconcile_jobs e (sg_source g) (sg_batch g) (sg_probe g) (su_db s) of
        (db', calls, r) \<Rightarrow> (s\<lparr>su_db := db'\<rparr>, map Callback_call calls, case r of Inl _ \<Rightarrow> False | Inr _ \<Rightarrow> True))"

definition pass_drives :: "env \<Rightarrow> startup_config \<Rightarrow> startup_pass" where
  "pass_drives e g s =
     (case run_discovery_sync (e\<lparr>e_actor := Some ''system''\<rparr>) (sg_disc g) (sg_topology g) (su_db s) of
        (db', r) \<Rightarrow> (s\<lparr>su_db := db'\<rparr>, [], case r of None \<Rightarrow> False | Some _ \<Rightarrow> True))"

definition refresh_lock :: "env \<Rightarrow> startup_state \<Rightarrow> startup_state" where
  "refresh_lock e s = s\<lparr>su_lock := refresh_reconciliation_lock (e_db_ok e ''lock_refresh'') (e_now e) (su_lock s)\<rparr>"

text \<open>The passes in their order, each named as in the summary.\<close>

definition startup_passes :: "env \<Rightarrow> startup_config \<Rightarrow> (string \<times> startup_pass) list" where
  "startup_passes e g =
     (''drive_state_normalization'', pass_normalize e) #
     (case sg_users g of
        None \<Rightarrow> []
      | Some p \<Rightarrow> [(''identity.groups'', pass_groups p)] @ (if ic_demo_mode (sg_identity g) then [(''identity.demo'', sg_seed_demo g)] else []) @
                  [(''identity.users'', pass_users (sg_identity g) p)]) @
     [(''mounts'', pass_mounts e g), (''jobs'', pass_jobs e g), (''drives'', pass_drives e g)]"

fun run_passes :: "env \<Rightarrow> (string \<times> startup_pass) list \<Rightarrow> startup_state \<Rightarrow> startup_state \<times> startup_call list \<times> (string \<times> bool) list" where
  "run_passes e [] s = (s, [], [])"
| "run_passes e ((name, f) # ps) s =
     (case f s of
        (s1, c1, ok) \<Rightarrow> (case run_passes e ps (if ps = [] then s1 else refresh_lock e s1) of (s2, c2, rs) \<Rightarrow> (s2, c1 @ c2, (name, ok) # rs)))"

datatype startup_result = Startup_skipped | Startup_raised | Startup_done "(string \<times> bool) list"

definition run_startup_reconciliation :: "env \<Rightarrow> startup_config \<Rightarrow> startup_state \<Rightarrow> startup_state \<times> startup_call list \<times> startup_result" where
  "run_startup_reconciliation e g s =
     (case acquire_reconciliation_lock (sg_kill g) (e_db_ok e ''lock_acquire'') (worker_id (sg_pid g)) (e_now e) (su_lock s) of
        (lock, Lock_held) \<Rightarrow>
          (case run_passes e (startup_passes e g) (s\<lparr>su_lock := lock\<rparr>) of
             (s1, calls, rs) \<Rightarrow>
               (s1\<lparr>su_lock := release_reconciliation_lock (e_db_ok e ''lock_release'') (su_lock s1)\<rparr>, calls, Startup_done rs))
      | (lock, Lock_raised) \<Rightarrow> (s\<lparr>su_lock := lock\<rparr>, [], Startup_raised)
      | (lock, _) \<Rightarrow> (s\<lparr>su_lock := lock\<rparr>, [], Startup_skipped))"

section \<open>The run on request\<close>

datatype manual_result = Manual_busy | Manual_failed string | Manual_done "(string \<times> jval) list"

definition manual_details :: "string \<Rightarrow> mount_counts \<Rightarrow> mount_counts option \<Rightarrow> (string \<times> jval) list" where
  "manual_details op net usb =
     (let u = (case usb of None \<Rightarrow> \<lparr>mc_checked = 0, mc_corrected = 0, mc_failures = 0\<rparr> | Some c \<Rightarrow> c);
          failures = mc_failures net + mc_failures u
      in [(''status'', JStr (if 0 < failures then ''partial'' else ''ok'')), (''scope'', JStr ''managed_mounts_only''), (''operation_id'', JStr op),
          (''network_mounts_checked'', JInt (int (mc_checked net))), (''network_mounts_corrected'', JInt (int (mc_corrected net))),
          (''usb_mounts_checked'', JInt (int (mc_checked u))), (''usb_mounts_corrected'', JInt (int (mc_corrected u))),
          (''failure_count'', JInt (int failures))])"

definition run_manual_managed_mount_reconciliation ::
  "env \<Rightarrow> startup_config \<Rightarrow> string \<Rightarrow> startup_state \<Rightarrow> startup_state \<times> startup_call list \<times> manual_result" where
  "run_manual_managed_mount_reconciliation e g op s =
     (case acquire_reconciliation_lock (sg_kill g) (e_db_ok e ''lock_acquire'') (worker_id (sg_pid g)) (e_now e) (su_lock s) of
        (lock, Lock_held) \<Rightarrow>
          (case reconcile_mounts e (sg_shares g) (sg_share_pass g) (sg_usb g) (su_db s) of
             (db1, calls, r) \<Rightarrow>
               (let failed = best_effort_audit e ''MANUAL_MOUNT_RECONCILIATION'' None None None
                      [(''status'', JStr ''failed''), (''scope'', JStr ''managed_mounts_only''), (''reason'', JStr ''manual_reconciliation_failed''), (''operation_id'', JStr op)] db1;
                    (db2, result) =
                      (case r of
                         Inl msg \<Rightarrow> (failed, Manual_failed msg)
                       | Inr (net, usb) \<Rightarrow>
                           (case audit_add e ''MANUAL_MOUNT_RECONCILIATION'' None None None (manual_details op net usb) db1 of
                              None \<Rightarrow> (failed, Manual_failed ''audit failed'')
                            | Some db' \<Rightarrow> (db', Manual_done (manual_details op net usb))))
                in (s\<lparr>su_db := db2, su_lock := release_reconciliation_lock (e_db_ok e ''lock_release'') lock\<rparr>, map Mount_call calls, result)))
      | (lock, Lock_raised) \<Rightarrow> (s\<lparr>su_lock := lock\<rparr>, [], Manual_failed ''lock'')
      | (lock, _) \<Rightarrow> (s\<lparr>su_lock := lock\<rparr>, [], Manual_busy))"

end
