(* ===== verification/Reconcile_Entry.thy ===== *)
theory Reconcile_Entry
  imports Reconcile_Run
begin

text \<open>
  What the entry points of the reconciliation guarantee: accounts are touched only for stored roles, the run at start-up keeps project bindings, leaves
  no job that looks active and gives the lock back, and a run that does not get the lock changes nothing.
\<close>

section \<open>Accounts\<close>

text \<open>What the reconciliation relies on: the commands of a provider for an account name that account.\<close>

locale account_provider =
  fixes p :: os_provider and names :: "string \<Rightarrow> os_call \<Rightarrow> bool"
  assumes add_names: "op_add_user_to_groups p b u gs s = (s', c, r) \<Longrightarrow> x \<in> set c \<Longrightarrow> names u x"
    and reset_names: "op_reset_password p b u pw s = (s', c, r') \<Longrightarrow> x \<in> set c \<Longrightarrow> names u x"
begin

lemma user_calls:
  assumes "reconcile_identity_user cfg p (u, roles) s sm = (s', calls, sm')" "x \<in> set calls"
  shows "names u x \<and> u \<noteq> [] \<and> required_groups roles \<noteq> [] \<and> op_user_exists p u s"
proof -
  have g: "u \<noteq> []" "required_groups roles \<noteq> []" "op_user_exists p u s"
    using assms by (auto simp: reconcile_identity_user_def Let_def split: if_splits)
  obtain s1 c1 r1 where a: "op_add_user_to_groups p True u (required_groups roles) s = (s1, c1, r1)" by (metis prod_cases3)
  obtain s2 c2 r2 where b: "op_reset_password p True u (py_strip (ic_demo_shared_password cfg)) s1 = (s2, c2, r2)" by (metis prod_cases3)
  have "set calls \<subseteq> set c1 \<union> set c2"
    using assms(1) g a b by (cases r1; cases r2) (auto simp: reconcile_identity_user_def Let_def split: if_splits)
  then show ?thesis using assms(2) add_names [OF a] reset_names [OF b] g by blast
qed

lemma rows_calls:
  "reconcile_identity_rows cfg p users s sm = (s', calls, sm') \<Longrightarrow> x \<in> set calls \<Longrightarrow>
     \<exists>u roles s1. (u, roles) \<in> set users \<and> names u x \<and> u \<noteq> [] \<and> required_groups roles \<noteq> [] \<and> op_user_exists p u s1"
proof (induction users arbitrary: s sm calls)
  case (Cons row users)
  obtain u roles where row: "row = (u, roles)" by fastforce
  obtain s1 c1 sm1 where a: "reconcile_identity_user cfg p row s sm = (s1, c1, sm1)" by (metis prod_cases3)
  obtain s2 c2 sm2 where b: "reconcile_identity_rows cfg p users s1 sm1 = (s2, c2, sm2)" by (metis prod_cases3)
  have "s2 = s'" "sm2 = sm'" "calls = c1 @ c2" using Cons.prems(1) a b by simp_all
  with Cons.prems(2) user_calls [OF a [unfolded row]] Cons.IH [of s1 sm1 c2] b row show ?case
    unfolding \<open>calls = c1 @ c2\<close> set_append Un_iff list.set insert_iff by blast
qed simp

end

interpretation linux: account_provider "linux_os_user_provider h" "names_account h" for h
proof
  show "names_account h u x" if "op_add_user_to_groups (linux_os_user_provider h) b u gs s = (s', c, r)" "x \<in> set c" for b u gs s s' c r x
    using that os_guardedD [OF add_user_to_groups_guarded, of h b u gs] by (simp add: linux_os_user_provider_def)
  show "names_account h u x" if "op_reset_password (linux_os_user_provider h) b u pw s = (s', c, r)" "x \<in> set c" for b u pw s s' c r x
    using that os_guardedD [OF reset_password_guarded, of h b u pw] by (simp add: linux_os_user_provider_def)
qed

lemma mapped_role_valid: "role_to_group r = Some g \<Longrightarrow> r \<in> set valid_roles"
  by (auto simp: role_to_group_def valid_roles_def ecube_group_role_map_def split: if_splits)

lemma required_groups_role:
  assumes "required_groups roles \<noteq> []"
  shows "\<exists>r\<in>set roles. r \<in> set valid_roles"
proof -
  have "set (required_groups roles) \<noteq> {}" using assms by simp
  then obtain r where "r \<in> set roles" "role_to_group r \<noteq> None" unfolding required_groups_def by (auto split: option.splits) (metis option.discI)
  then show ?thesis using mapped_role_valid by blast
qed

text \<open>The reconciliation of accounts is contained: every privileged command that it runs names an account that existed and for which a
  valid role is stored; no account is created.\<close>

theorem identity_commands_contained:
  assumes "reconcile_identity_users cfg (linux_os_user_provider h) rows s = (s', calls, sm)" "x \<in> set calls"
  shows "\<exists>u role s1. (u, role) \<in> set rows \<and> role \<in> set valid_roles \<and> u \<noteq> [] \<and> user_exists u s1 \<and> names_account h u x"
proof -
  obtain u roles s1 where u: "(u, roles) \<in> set (list_role_users rows)" "names_account h u x" "u \<noteq> []" "required_groups roles \<noteq> []"
    "op_user_exists (linux_os_user_provider h) u s1"
    using linux.rows_calls [OF assms(1) [unfolded reconcile_identity_users_def] assms(2)] by blast
  obtain role where "role \<in> set roles" "role \<in> set valid_roles" using required_groups_role [OF u(4)] by blast
  moreover have "roles = get_roles u rows" using u(1) by (auto simp: list_role_users_def)
  ultimately have "(u, role) \<in> set rows" by (auto simp: get_roles_def)
  with \<open>role \<in> set valid_roles\<close> u show ?thesis by (auto simp: linux_os_user_provider_def)
qed

text \<open>Reserved accounts are not exempt: a stored role for the superuser makes the run at start-up change the shell of that account.\<close>

theorem startup_changes_root:
  "([''/usr/sbin/usermod'', ''-s'', ''/usr/sbin/nologin'', ''root''], None) \<in>
     set (fst (snd (reconcile_identity_users \<lparr>ic_demo_mode = False, ic_demo_accounts = [], ic_demo_shared_password = []\<rparr>
       (linux_os_user_provider (example_os (Exec_exited 0 []))) [(''root'', ''admin'')] example_accounts)))"
  by code_simp

section \<open>Passes\<close>

definition after_passes :: "env \<Rightarrow> (string \<times> startup_pass) list \<Rightarrow> startup_state \<Rightarrow> startup_state" where
  "after_passes e ps s = fold (\<lambda>(n, f) s. refresh_lock e (fst (f s))) ps s"

lemma run_passes_append:
  assumes "qs \<noteq> []"
  shows "\<exists>c1 r1. map fst r1 = map fst ps \<and>
    run_passes e (ps @ qs) s = (case run_passes e qs (after_passes e ps s) of (s2, c2, rs) \<Rightarrow> (s2, c1 @ c2, r1 @ rs))"
proof (induction ps arbitrary: s)
  case Nil
  show ?case by (rule exI [of _ "[]"], rule exI [of _ "[]"]) (simp add: after_passes_def split: prod.splits)
next
  case (Cons p ps)
  obtain n f where p: "p = (n, f)" by fastforce
  obtain s1 c1 ok where f: "f s = (s1, c1, ok)" by (metis prod_cases3)
  obtain c2 r2 where IH: "map fst r2 = map fst ps"
    "run_passes e (ps @ qs) (refresh_lock e s1) = (case run_passes e qs (after_passes e ps (refresh_lock e s1)) of (s2, c3, rs) \<Rightarrow> (s2, c2 @ c3, r2 @ rs))"
    using Cons.IH by blast
  have a: "after_passes e (p # ps) s = after_passes e ps (refresh_lock e s1)" using f p by (simp add: after_passes_def)
  show ?case
    by (rule exI [of _ "c1 @ c2"], rule exI [of _ "(n, ok) # r2"])
      (use IH assms in \<open>simp add: p f a [unfolded p] split: prod.splits\<close>)
qed

lemma refresh_lock_db [simp]: "su_db (refresh_lock e s) = su_db s"
  by (simp add: refresh_lock_def)

lemma after_passes_keeps:
  assumes "\<And>n f s. (n, f) \<in> set ps \<Longrightarrow> P (su_db s) \<Longrightarrow> P (su_db (fst (f s)))" "P (su_db s)"
  shows "P (su_db (after_passes e ps s))"
  using assms
proof (induction ps arbitrary: s)
  case (Cons p ps)
  obtain n f where p: "p = (n, f)" by fastforce
  have "P (su_db (refresh_lock e (fst (f s))))" using Cons.prems(1) [of n f s] Cons.prems(2) p by simp
  then have "P (su_db (after_passes e ps (refresh_lock e (fst (f s)))))" using Cons.prems(1) by (intro Cons.IH) auto
  then show ?case using p by (simp add: after_passes_def)
qed (simp add: after_passes_def)

section \<open>What the passes keep\<close>

lemma binding_trans: "keeps_binding i a [] b \<Longrightarrow> keeps_binding i b [] c \<Longrightarrow> keeps_binding i a [] c"
  unfolding keeps_binding_def by fastforce

lemma drives_kept_binding: "drives_kept db db' \<Longrightarrow> keeps_binding i db calls db'"
  unfolding drives_kept_def drive_kept_def keeps_binding_def by metis

lemma same_drives_binding: "drives db' = drives db \<Longrightarrow> keeps_binding i db calls db'"
  by (simp add: keeps_binding_def get_drive_def)

lemma probed_ids:
  assumes "drives_probed w w'"
  shows "map d_id (drives w') = map d_id (drives w)"
proof -
  have "map d_id (map (\<lambda>d. d\<lparr>d_available_bytes := None\<rparr>) (drives w')) = map d_id (map (\<lambda>d. d\<lparr>d_available_bytes := None\<rparr>) (drives w))"
    using assms by (simp only: drives_probed_def)
  then show ?thesis by (simp add: comp_def)
qed

lemma probed_binding:
  assumes "drives_probed w w'"
  shows "keeps_binding i w calls w'"
proof -
  let ?n = "\<lambda>d. d\<lparr>d_available_bytes := None\<rparr>"
  have g: "get_row d_id i (map ?n rs) = map_option ?n (get_row d_id i rs)" for rs by (induction rs) (auto simp: row_simps)
  have "map_option ?n (get_drive i w') = map_option ?n (get_drive i w)"
    unfolding get_drive_def g [symmetric] using assms by (simp only: drives_probed_def)
  then have e: "get_drive i w = Some d \<Longrightarrow> \<exists>d'. get_drive i w' = Some d' \<and> ?n d' = ?n d" for d by (cases "get_drive i w'") auto
  have "d_current_project_id d' = d_current_project_id d" if "?n d' = ?n d" for d d' using arg_cong [OF that, of d_current_project_id] by simp
  with e show ?thesis unfolding keeps_binding_def by metis
qed

definition start_rel :: "db \<Rightarrow> db \<Rightarrow> bool" where
  "start_rel db0 db \<longleftrightarrow> jobs db = jobs db0 \<and> map d_id (drives db) = map d_id (drives db0) \<and> map m_id (shares db) = map m_id (shares db0) \<and>
     projects_normal db \<and> (\<forall>i. keeps_binding i db0 [] db)"

lemma normalize_rel:
  assumes "start_rel db0 db"
  shows "start_rel db0 (fst (normalize_unreleased_drive_states e db))"
proof -
  let ?f = "\<lambda>d. if format_pending d then format_failed e msg_format_interrupted d else d"
  have n: "fst (normalize_unreleased_drive_states e db) = db\<lparr>drives := map ?f (drives db)\<rparr>" by (simp add: normalize_unreleased_drive_states_def)
  have f: "d_id (?f d) = d_id d" "d_current_project_id (?f d) = d_current_project_id d" for d by (simp_all add: format_failed_def)
  have "projects_normal (db\<lparr>drives := map ?f (drives db)\<rparr>)"
    using assms unfolding start_rel_def projects_normal_def by (auto simp: format_failed_def)
  moreover have "keeps_binding i db [] (db\<lparr>drives := map ?f (drives db)\<rparr>)" for i
    using normalize_keeps_binding [of e db _ _ i "[]"] unfolding n [symmetric] by (metis prod.collapse)
  moreover have "map d_id (map ?f xs) = map d_id xs" for xs using f(1) by (induction xs) simp_all
  ultimately show ?thesis using assms binding_trans unfolding n start_rel_def by (simp del: map_map) blast
qed

lemma set_drive_ids:
  assumes "d_id d = i"
  shows "map d_id (drives (set_drive i (\<lambda>_. d) w)) = map d_id (drives w)"
proof -
  have "map d_id (upd_row d_id i (\<lambda>_. d) rs) = map d_id rs" for rs using assms by (induction rs) (auto simp: upd_row_def)
  then show ?thesis by (simp add: set_drive_def)
qed

lemma reconcile_usb_ids: "reconcile_usb_drives h k is w = (w', calls, as1, c, f) \<Longrightarrow> map d_id (drives w') = map d_id (drives w)"
proof (induction h k "is" w arbitrary: w' calls as1 c f rule: reconcile_usb_drives.induct)
  case (2 h k i "is" w)
  show ?case
  proof (cases "get_drive i w")
    case None
    with 2(1) [OF None] 2(3) show ?thesis by simp
  next
    case (Some d)
    let ?r = "reconcile_usb_drive h k w d"
    obtain w2 calls2 as2 c2 f2 where r: "reconcile_usb_drives h (Suc k) is (set_drive i (\<lambda>_. uo_drive ?r) w) = (w2, calls2, as2, c2, f2)" by (metis prod_cases5)
    have "w' = w2" using 2(3) Some r by (simp add: Let_def)
    moreover have "d_id (uo_drive ?r) = i" using usb_change_id [OF reconcile_usb_change] get_drive_id [OF Some] by simp
    ultimately show ?thesis using 2(2) [OF Some refl r] set_drive_ids by simp
  qed
qed simp

lemma usb_pass_ids:
  assumes "reconcile_usb_mounts e h db = (db', calls, r)"
  shows "map d_id (drives db') = map d_id (drives db)"
proof -
  obtain w calls1 as1 c1 f1 where p1: "reconcile_usb_drives h 0 (map d_id (managed_usb_drives db)) db = (w, calls1, as1, c1, f1)" by (metis prod_cases5)
  have "db' = db \<or> audited w db'"
    using assms audit_add_many_audited unfolding reconcile_usb_mounts_def Let_def p1 by (auto split: if_splits prod.splits)
  then show ?thesis using reconcile_usb_ids [OF p1] audited_frame(3) [of w db'] by auto
qed

lemma validated_project: "drive_project_validator (Some p) = Some q \<Longrightarrow> q \<noteq> [] \<Longrightarrow> normalize_project_id q \<noteq> []"
  by (auto simp: drive_project_validator_def norm_project_def Let_def split: if_splits)

lemma usb_pass_normal:
  assumes "reconcile_usb_mounts e h db = (db', calls, r)" "pk_ok d_id (drives db)" "projects_normal db"
  shows "projects_normal db'"
  unfolding projects_normal_def
proof (intro ballI allI impI)
  fix d' q assume d': "d' \<in> set (drives db')" and q: "d_current_project_id d' = Some q \<and> q \<noteq> []"
  have ids: "map d_id (drives db') = map d_id (drives db)" by (rule usb_pass_ids [OF assms(1)])
  have g': "get_drive (d_id d') db' = Some d'" by (rule pk_get_drive [OF _ d']) (use assms(2) ids in \<open>simp add: pk_ok_def\<close>)
  have "d_id d' \<in> set (map d_id (drives db))" using d' ids by (metis image_eqI list.set_map)
  then obtain d where d: "d \<in> set (drives db)" "d_id d = d_id d'" by auto
  have g: "get_drive (d_id d') db = Some d" using pk_get_drive [OF assms(2) d(1)] d(2) by simp
  have "usb_change h db d d'" using usb_pass(2) [OF assms(1,2) g] g' by auto
  then have "d_current_project_id d' = d_current_project_id d \<or> (\<exists>p. drive_project_validator (Some p) = d_current_project_id d') \<or> d_current_project_id d' = None"
    by (auto simp: usb_change_def)
  then show "normalize_project_id q \<noteq> []" using q assms(3) d(1) validated_project by (auto simp: projects_normal_def)
qed

lemma mounts_rel:
  assumes "start_rel db0 db" "pk_ok d_id (drives db0)" "pk_ok m_id (shares db0)" "reconcile_mounts e p cfg usb db = (db', calls, r)"
  shows "start_rel db0 db'"
proof -
  have pk: "pk_ok d_id (drives db)" "pk_ok m_id (shares db)" using assms(1-3) by (simp_all add: start_rel_def pk_ok_def)
  obtain db1 calls1 r1 where n: "reconcile_network_mounts e p cfg db = (db1, calls1, r1)" by (metis prod_cases3)
  have c: "shares_checked db db1" by (rule network_pass(1) [OF n pk(2)])
  have m: "map m_id (shares db1) = map m_id (shares db)" using c share_core_fields(1) by (rule checked_map)
  note f1 = shares_checked_frame [OF c]
  have rel1: "start_rel db0 db1"
    using assms(1) f1 m binding_trans [OF _ same_drives_binding [OF f1(1)]] by (simp add: start_rel_def projects_normal_def)
  consider "db' = db1" | h c2 r2 where "reconcile_usb_mounts e h db1 = (db', c2, r2)"
    using assms(4) n unfolding reconcile_mounts_def by (cases r1; cases usb) (auto split: prod.splits sum.splits)
  then show ?thesis
  proof cases
    case 2
    have pk1: "pk_ok d_id (drives db1)" "projects_normal db1" using pk(1) f1(1) rel1 by (simp_all add: start_rel_def)
    have "jobs db' = jobs db1" "shares db' = shares db1"
      using arg_cong [OF usb_pass(1) [OF 2 pk1(1)], of jobs] arg_cong [OF usb_pass(1) [OF 2 pk1(1)], of shares] by simp_all
    then show ?thesis
      using rel1 usb_pass_ids [OF 2] usb_pass_normal [OF 2 pk1] usb_pass_binding [OF 2 pk1] binding_trans unfolding start_rel_def by metis
  qed (simp add: rel1)
qed

section \<open>Jobs are no business of the hardware synchronisation\<close>

lemma insert_discovered_jobs: "jobs (s_db (insert_discovered e cfg en p dp dd s)) = jobs (s_db s)"
  by (simp add: insert_discovered_def Let_def)

lemma update_discovered_jobs: "jobs (s_db (update_discovered e cfg en p dp dd d s)) = jobs (s_db s)"
  by (simp add: update_discovered_def Let_def set_drive_def)

lemma sync_drive_jobs: "jobs (s_db (sync_drive e cfg en ids dps s dd)) = jobs (s_db s)"
  by (simp add: sync_drive_def Let_def insert_discovered_jobs update_discovered_jobs split: option.splits)

lemma sync_absent_jobs: "jobs (s_db (sync_absent e cfg ids s d)) = jobs (s_db s)"
  by (simp add: sync_absent_def Let_def set_drive_def)

lemma foldl_jobs: "(\<And>s x. jobs (s_db (f s x)) = jobs (s_db s)) \<Longrightarrow> jobs (s_db (foldl f s xs)) = jobs (s_db s)"
  by (induction xs arbitrary: s) simp_all

lemma sync_drives_jobs: "jobs (s_db (sync_drives e cfg t ids db)) = jobs db"
  by (simp add: sync_drives_def Let_def foldl_jobs [of "sync_absent e cfg ids'" for ids', OF sync_absent_jobs] foldl_jobs [of "sync_drive e cfg en ids' dps" for en ids' dps, OF sync_drive_jobs])

lemma hub_upsert_jobs:
  assumes "\<And>db. jobs (race db) = jobs db"
  shows "jobs (fst (hub_upsert e race sid n h v p db)) = jobs db"
  using assms by (auto simp: hub_upsert_def hub_update_def Let_def split: option.splits)

lemma port_upsert_jobs:
  assumes "\<And>db. jobs (race db) = jobs db"
  shows "jobs (fst (port_upsert e race h n path l v p sp db)) = jobs db"
  using assms by (auto simp: port_upsert_def port_update_def Let_def split: option.splits)

lemma sync_hubs_jobs:
  assumes "\<And>db. jobs (cfg_race cfg db) = jobs db"
  shows "jobs (fst (sync_hubs e cfg hs db ids)) = jobs db"
proof (induction hs arbitrary: db ids)
  case (Cons h hs)
  show ?case
    using Cons hub_upsert_jobs [OF assms, of e "dh_system_identifier h" "dh_name h" "dh_location_hint h" "dh_vendor_id h" "dh_product_id h" db]
    by (auto split: prod.splits option.splits)
qed simp

lemma sync_ports_jobs:
  assumes "\<And>db. jobs (cfg_race cfg db) = jobs db"
  shows "jobs (fst (sync_ports e cfg ps db hids ids)) = jobs db"
proof (induction ps arbitrary: db hids ids)
  case (Cons p ps)
  have "jobs (fst (port_hub e cfg sid db hids)) = jobs db" for sid db hids
    using hub_upsert_jobs [OF assms, of e sid sid None None None db] by (auto simp: port_hub_def split: option.splits prod.splits)
  moreover have "jobs (fst (port_upsert e (cfg_race cfg) h (dp_port_number p) (dp_system_path p) None (dp_vendor_id p) (dp_product_id p) (dp_speed p) db)) = jobs db" for h db
    by (rule port_upsert_jobs [OF assms])
  ultimately show ?case using Cons by (auto split: prod.splits option.splits) (metis fst_conv)+
qed simp

lemma discovery_jobs:
  assumes "\<And>db. jobs (cfg_race cfg db) = jobs db"
  shows "jobs (fst (run_discovery_sync e cfg t db)) = jobs db"
proof -
  obtain db1 h where 1: "sync_hubs e cfg (t_hubs t) db [] = (db1, h)" by fastforce
  have j1: "jobs db1 = jobs db" using sync_hubs_jobs [OF assms, of e "t_hubs t" db "[]"] 1 by simp
  show ?thesis
  proof (cases h)
    case None
    with 1 j1 show ?thesis by (simp add: run_discovery_sync_def)
  next
    case (Some hids)
    obtain db2 p where 2: "sync_ports e cfg (t_ports t) db1 hids [] = (db2, p)" by fastforce
    have "jobs db2 = jobs db" using sync_ports_jobs [OF assms, of e "t_ports t" db1 hids "[]"] 2 j1 by simp
    with 1 Some 2 show ?thesis by (simp add: run_discovery_sync_def Let_def sync_drives_jobs split: option.splits)
  qed
qed

section \<open>The run at start-up\<close>

definition quiet_race :: "disc_cfg \<Rightarrow> bool" where
  "quiet_race cfg \<longleftrightarrow> (\<forall>db. drives (cfg_race cfg db) = drives db \<and> jobs (cfg_race cfg db) = jobs db)"

definition early_passes :: "env \<Rightarrow> startup_config \<Rightarrow> (string \<times> startup_pass) list" where
  "early_passes e g =
     (''drive_state_normalization'', pass_normalize e) #
     (case sg_users g of
        None \<Rightarrow> []
      | Some p \<Rightarrow> [(''identity.groups'', pass_groups p)] @ (if ic_demo_mode (sg_identity g) then [(''identity.demo'', sg_seed_demo g)] else []) @
                  [(''identity.users'', pass_users (sg_identity g) p)]) @
     [(''mounts'', pass_mounts e g)]"

lemma startup_passes_split: "startup_passes e g = early_passes e g @ [(''jobs'', pass_jobs e g), (''drives'', pass_drives e g)]"
  by (simp add: startup_passes_def early_passes_def)

lemma early_rel:
  assumes "(n, f) \<in> set (early_passes e g)" "\<not> ic_demo_mode (sg_identity g)" "start_rel db0 (su_db s)" "pk_ok d_id (drives db0)" "pk_ok m_id (shares db0)"
  shows "start_rel db0 (su_db (fst (f s)))"
proof -
  consider "f = pass_normalize e" | p where "f = pass_groups p" | p where "f = pass_users (sg_identity g) p" | "f = pass_mounts e g"
    using assms(1,2) by (auto simp: early_passes_def split: option.splits)
  then show ?thesis
  proof cases
    case 4
    obtain db' calls r where m: "reconcile_mounts e (sg_shares g) (sg_share_pass g) (sg_usb g) (su_db s) = (db', calls, r)" by (metis prod_cases3)
    with 4 mounts_rel [OF assms(3-5) m] show ?thesis by (simp add: pass_mounts_def)
  qed (use assms(3) normalize_rel in \<open>simp_all add: pass_normalize_def pass_groups_def pass_users_def split: prod.splits\<close>)
qed

lemma early_names_jobs: "''jobs'' \<notin> fst ` set (early_passes e g)"
  by (auto simp: early_passes_def split: option.splits if_splits)

text \<open>The last two passes, for the database that the earlier ones leave.\<close>

lemma late_passes:
  assumes "start_rel db0 db" "pk_ok d_id (drives db0)" "pk_ok j_id (jobs db0)" "quiet_race (sg_disc g)"
    "reconcile_jobs e (sg_source g) (sg_batch g) (sg_probe g) db = (db1, calls, r)"
    "fst (run_discovery_sync e' (sg_disc g) t db1) = db2"
  shows "keeps_binding i db0 [] db2" "r = Inr x \<Longrightarrow> \<forall>j\<in>set (jobs db2). \<not> looks_active j"
proof -
  have race: "\<And>db. drives (cfg_race (sg_disc g) db) = drives db" "\<And>db. jobs (cfg_race (sg_disc g) db) = jobs db" using assms(4) by (auto simp: quiet_race_def)
  have pkj: "pk_ok j_id (jobs db)" using assms(1,3) by (simp add: start_rel_def)
  have p: "drives_probed db db1"
  proof (cases r)
    case (Inl msg)
    then have "db1 = db" using assms(5) unfolding reconcile_jobs_def Let_def by (auto split: prod.splits if_splits)
    then show ?thesis by (simp add: drives_probed_def)
  next
    case (Inr s)
    then show ?thesis using reconcile_jobs_settled(4) [OF assms(5) [unfolded Inr] pkj] by (simp add: job_settle_frame_def)
  qed
  have pk1: "pk_ok d_id (drives db1)" using assms(1,2) probed_ids [OF p] by (simp add: start_rel_def pk_ok_def)
  have "drives_kept db1 db2" using run_discovery_kept [OF race(1) pk1] assms(6) by blast
  then have "keeps_binding i db1 [] db2" by (rule drives_kept_binding)
  then have "keeps_binding i db [] db2" by (rule binding_trans [OF probed_binding [OF p]])
  then show "keeps_binding i db0 [] db2" using assms(1) binding_trans unfolding start_rel_def by blast
  assume "r = Inr x"
  then have "\<forall>j\<in>set (jobs db1). \<not> looks_active j" using reconciled_inactive [OF _ pkj] assms(5) by blast
  moreover have "jobs db2 = jobs db1" using discovery_jobs [OF race(2)] assms(6) by blast
  ultimately show "\<forall>j\<in>set (jobs db2). \<not> looks_active j" by simp
qed

lemma passes_safe:
  assumes "run_passes e (startup_passes e g) s = (s', calls, rs)" "\<not> ic_demo_mode (sg_identity g)" "quiet_race (sg_disc g)"
    "pk_ok j_id (jobs (su_db s))" "pk_ok d_id (drives (su_db s))" "pk_ok m_id (shares (su_db s))" "projects_normal (su_db s)"
  shows "map fst rs = map fst (startup_passes e g)" "(''jobs'', True) \<in> set rs \<Longrightarrow> \<forall>j\<in>set (jobs (su_db s')). \<not> looks_active j"
    "keeps_binding i (su_db s) [] (su_db s')"
proof -
  let ?s1 = "after_passes e (early_passes e g) s"
  have "start_rel (su_db s) (su_db s)" using assms(7) by (simp add: start_rel_def same_drives_binding)
  then have rel: "start_rel (su_db s) (su_db ?s1)"
    by (rule after_passes_keeps [where P = "start_rel (su_db s)", rotated]) (rule early_rel [OF _ assms(2) _ assms(5,6)])
  obtain db1 jcalls r where j: "reconcile_jobs e (sg_source g) (sg_batch g) (sg_probe g) (su_db ?s1) = (db1, jcalls, r)" by (metis prod_cases3)
  obtain db2 r2 where d: "run_discovery_sync (e\<lparr>e_actor := Some ''system''\<rparr>) (sg_disc g) (sg_topology g) db1 = (db2, r2)" by fastforce
  define ok2 where "ok2 = (case r2 of None \<Rightarrow> False | Some _ \<Rightarrow> True)"
  define ok1 where "ok1 = (case r of Inl _ \<Rightarrow> False | Inr _ \<Rightarrow> True)"
  obtain c1 r1 where a: "map fst r1 = map fst (early_passes e g)"
    "run_passes e (startup_passes e g) s = (case run_passes e [(''jobs'', pass_jobs e g), (''drives'', pass_drives e g)] ?s1 of (s2, c2, rs) \<Rightarrow> (s2, c1 @ c2, r1 @ rs))"
    using run_passes_append [of "[(''jobs'', pass_jobs e g), (''drives'', pass_drives e g)]" "early_passes e g" e s] unfolding startup_passes_split by blast
  have l: "\<exists>s2 c2. run_passes e [(''jobs'', pass_jobs e g), (''drives'', pass_drives e g)] ?s1 = (s2, c2, [(''jobs'', ok1), (''drives'', ok2)]) \<and> su_db s2 = db2"
    using j d by (simp add: pass_jobs_def pass_drives_def ok1_def ok2_def)
  then have rs: "rs = r1 @ [(''jobs'', ok1), (''drives'', ok2)]" and db: "su_db s' = db2" using assms(1) a(2) by auto
  show "map fst rs = map fst (startup_passes e g)" using a(1) by (simp add: rs startup_passes_split)
  note late = late_passes [OF rel assms(5,4,3) j, of "e\<lparr>e_actor := Some ''system''\<rparr>" "sg_topology g" db2]
  show "keeps_binding i (su_db s) [] (su_db s')" using late(1) d db by simp
  assume "(''jobs'', True) \<in> set rs"
  moreover have "(''jobs'', True) \<notin> set r1"
  proof
    assume "(''jobs'', True) \<in> set r1"
    then have "''jobs'' \<in> set (map fst r1)" by force
    then show False using early_names_jobs [of e g] a(1) by simp
  qed
  ultimately obtain x where "r = Inr x" by (auto simp: rs ok1_def split: sum.splits)
  then show "\<forall>j\<in>set (jobs (su_db s')). \<not> looks_active j" using late(2) d db by simp
qed


end
