(* ===== verification/Job_Reports.thy ===== *)
theory Job_Reports
  imports Job_Safety
begin

text \<open>
  Properties of what the job service reports and writes: the batched listing of jobs that require
  attention, the manifest files and their download, the overflow continuation, and what deletion and
  update leave behind.
\<close>

section \<open>The attention listing\<close>

definition requires_attention :: "(int \<rightharpoonup> bool) \<Rightarrow> db \<Rightarrow> export_job \<Rightarrow> bool" where
  "requires_attention custody db j \<longleftrightarrow>
     job_requires_attention j (custody (j_id j)) (assignment_drive (get_active_for_job (j_id j) db) db)"

lemma collect_batch_spec:
  assumes "length collected < wanted"
  shows "collect_batch wanted P js collected = take wanted (collected @ filter P js)"
  using assms
proof (induction js arbitrary: collected)
  case (Cons j js)
  show ?case
  proof (cases "P j \<and> wanted \<le> Suc (length collected)")
    case True
    with Cons.prems have "wanted = length (collected @ [j])" by simp
    with True show ?thesis by (simp add: Let_def)
  next
    case False
    with Cons show ?thesis by (cases "P j") (simp_all add: Let_def take_Cons')
  qed
qed simp

lemma batch_attention_spec:
  assumes "pk_ok a_id (assignments db)" "j \<in> set batch"
    and "\<And>ids i. i \<in> set ids \<Longrightarrow> custody_summaries ids i = custody i"
  shows "batch_attention custody_summaries batch db j = requires_attention custody db j"
proof (cases "j_status j = COMPLETED")
  case True
  let ?ids = "map j_id (filter (\<lambda>j. j_status j \<in> {COMPLETED, ARCHIVED}) batch)"
  have "j_id j \<in> set ?ids" using assms(2) True by force
  with assms(3) bulk_active_lookup [OF assms(1)] show ?thesis
    by (simp add: batch_attention_def Let_def requires_attention_def)
next
  case False
  then show ?thesis by (auto simp: batch_attention_def Let_def requires_attention_def job_requires_attention_def)
qed

declare scan_attention.simps [simp del]

lemma take_take_append: "take n (take n xs @ ys) = take n (xs @ ys)"
  by (simp add: min_def)

lemma scan_attention_spec:
  assumes pk: "pk_ok a_id (assignments db)"
    and cs: "\<And>ids i. i \<in> set ids \<Longrightarrow> custody_summaries ids i = custody i" and bs: "0 < batch_size"
  shows "length collected \<le> wanted \<Longrightarrow>
    scan_attention custody_summaries drive_id statuses ia batch_size wanted db offset collected =
    take wanted (collected @ filter (requires_attention custody db) (drop offset (recent_all drive_id statuses ia db)))"
proof (induction "length (jobs db) - offset" arbitrary: offset collected rule: less_induct)
  case less
  let ?all = "recent_all drive_id statuses ia db" and ?P = "requires_attention custody db"
  let ?batch = "take batch_size (drop offset ?all)"
  have batch: "list_recent batch_size offset drive_id statuses ia db = ?batch"
    by (simp add: list_recent_def paged_def)
  note unfold = scan_attention.simps [of custody_summaries drive_id statuses ia batch_size wanted db offset collected]
  show ?case
  proof (cases "wanted \<le> length collected")
    case True
    with less.prems show ?thesis by (simp add: unfold)
  next
    case more: False
    show ?thesis
    proof (cases "?batch = []")
      case True
      with bs have "drop offset ?all = []" by (metis take_eq_Nil not_gr_zero)
      with more True less.prems show ?thesis by (simp add: unfold batch)
    next
      case ne: False
      let ?c = "collect_batch wanted (batch_attention custody_summaries ?batch db) ?batch collected"
      have "filter (batch_attention custody_summaries ?batch db) ?batch = filter ?P ?batch"
        by (rule filter_cong [OF refl]) (rule batch_attention_spec [OF pk _ cs])
      with more have c: "?c = take wanted (collected @ filter ?P ?batch)" by (simp add: collect_batch_spec)
      have split: "drop offset ?all = ?batch @ drop (offset + batch_size) ?all"
        using append_take_drop_id [of batch_size "drop offset ?all"] by (simp add: add.commute)
      have loop: "scan_attention custody_summaries drive_id statuses ia batch_size wanted db offset collected =
          (if length ?batch < batch_size then ?c
           else scan_attention custody_summaries drive_id statuses ia batch_size wanted db (offset + length ?batch) ?c)"
        by (simp only: unfold batch Let_def more ne if_False)
      show ?thesis
      proof (cases "length ?batch < batch_size")
        case True
        then have "drop (offset + batch_size) ?all = []" by auto
        with split have "drop offset ?all = ?batch" by simp
        with True c show ?thesis by (simp only: loop if_True)
      next
        case False
        then have len: "length ?batch = batch_size" by simp
        have "offset < length (jobs db)"
          using list_recent_offset [of batch_size offset drive_id statuses ia db] batch ne by simp
        then have dec: "length (jobs db) - (offset + batch_size) < length (jobs db) - offset" using bs by simp
        have "scan_attention custody_summaries drive_id statuses ia batch_size wanted db offset collected =
            scan_attention custody_summaries drive_id statuses ia batch_size wanted db (offset + batch_size) ?c"
          using False len by (simp only: loop if_False)
        also have "\<dots> = take wanted (?c @ filter ?P (drop (offset + batch_size) ?all))"
          using c by (intro less.hyps dec) simp
        also have "\<dots> = take wanted (collected @ filter ?P (?batch @ drop (offset + batch_size) ?all))"
          by (simp only: c take_take_append filter_append append_assoc)
        also have "\<dots> = take wanted (collected @ filter ?P (drop offset ?all))" by (simp only: split [symmetric])
        finally show ?thesis .
      qed
    qed
  qed
qed

text \<open>The batched dashboard listing is exact: for every page it returns the jobs a direct evaluation would
  return, that is, the page of all candidate jobs, newest first, that require attention. The scan always
  ends. The hypotheses: assignment ids are unique, and the bulk custody summary of a job does not depend on
  the other jobs it is asked with.\<close>

theorem attention_list_exact:
  assumes "pk_ok a_id (assignments db)" "\<And>ids i. i \<in> set ids \<Longrightarrow> custody_summaries ids i = custody i"
    and "statuses \<noteq> []" "set statuses \<subseteq> set dashboard_attention_candidate_statuses"
  shows "list_jobs_requiring_attention custody_summaries limit offset drive_id statuses ia db =
    take limit (drop offset (filter (requires_attention custody db) (recent_all drive_id statuses ia db)))"
proof -
  have cand: "filter (\<lambda>s. s \<in> set dashboard_attention_candidate_statuses \<and> (ia \<or> s \<noteq> ARCHIVED)) statuses = statuses"
    using assms(4) by (auto simp: filter_id_conv dashboard_attention_candidate_statuses_def)
  let ?n = "min (max (offset + limit) 200) 1000"
  have "0 < ?n" by simp
  from scan_attention_spec [OF assms(1,2) this, where collected = "[]" and offset = 0 and wanted = "offset + limit"
      and drive_id = drive_id and statuses = statuses and ia = ia]
  have "scan_attention custody_summaries drive_id statuses ia ?n (offset + limit) db 0 [] =
      take (offset + limit) (filter (requires_attention custody db) (recent_all drive_id statuses ia db))" by simp
  then show ?thesis
    using assms(3) by (simp only: list_jobs_requiring_attention_def Let_def cand if_False if_True simp_thms)
      (simp add: drop_take)
qed

section \<open>Manifests\<close>

lemma map_filter_mem: "y \<in> set (List.map_filter f xs) \<longleftrightarrow> (\<exists>x \<in> set xs. f x = Some y)"
  by (induction xs) (auto simp: List.map_filter_simps split: option.splits)

lemma manifest_files_target:
  assumes "f \<in> set (manifest_files i a_id' db)" "get_row a_id a_id' (assignments db) = Some a"
  shows "(a, manifest_files i a_id' db) \<in> set (manifest_targets_for_job i db)"
proof -
  let ?ids = "remdups (List.map_filter (\<lambda>f. if f_status f = DONE then f_drive_assignment_id f else None) (files_of i db))"
  let ?ts = "List.map_filter (\<lambda>i'. map_option (\<lambda>a. (a, manifest_files i i' db)) (get_row a_id i' (assignments db))) ?ids"
  have "a_id' \<in> set ?ids" using assms(1) by (force simp: manifest_files_def map_filter_mem)
  then have "(a, manifest_files i a_id' db) \<in> set ?ts" unfolding map_filter_mem
    by (rule bexI [rotated]) (simp add: assms(2))
  then show ?thesis by (auto simp: manifest_targets_for_job_def Let_def)
qed

lemma manifest_target_files:
  assumes "(a, fs) \<in> set (manifest_targets_for_job i db)" "pk_ok a_id (assignments db)"
  shows "fs = manifest_files i (a_id a) db"
proof -
  let ?ids = "remdups (List.map_filter (\<lambda>f. if f_status f = DONE then f_drive_assignment_id f else None) (files_of i db))"
  let ?ts = "List.map_filter (\<lambda>i'. map_option (\<lambda>a. (a, manifest_files i i' db)) (get_row a_id i' (assignments db))) ?ids"
  show ?thesis
  proof (cases "?ts = []")
    case True
    with assms(1) have fs: "fs = []" and a: "get_active_for_job i db = Some a"
      by (auto simp: manifest_targets_for_job_def Let_def split: option.splits)
    from a have "a \<in> set (assignments db)"
      by (auto simp: get_active_for_job_def activated_for_def dest!: last_by_in)
    then have row: "get_row a_id (a_id a) (assignments db) = Some a" by (rule get_row_in [OF assms(2)])
    have "manifest_files i (a_id a) db = []"
    proof (rule ccontr)
      assume "manifest_files i (a_id a) db \<noteq> []"
      then obtain f where "f \<in> set (manifest_files i (a_id a) db)" by (meson list.set_sel(1))
      then have "a_id a \<in> set ?ids" by (force simp: manifest_files_def map_filter_mem)
      then have "(a, manifest_files i (a_id a) db) \<in> set ?ts" unfolding map_filter_mem
        by (rule bexI [rotated]) (simp add: row)
      with True show False by simp
    qed
    with fs show ?thesis by simp
  next
    case False
    with assms(1) have "(a, fs) \<in> set ?ts" by (auto simp: manifest_targets_for_job_def Let_def)
    then show ?thesis by (auto simp: map_filter_mem dest: get_row_key)
  qed
qed

lemma generate_manifests_writes:
  "generate_manifests e host strict j targets created db = (db', calls, r) \<Longrightarrow>
     Write_manifest path doc \<in> set calls \<Longrightarrow>
     \<exists>a fs d mp. (a, fs) \<in> set targets \<and> doc = manifest_data e j a fs \<and> get_drive (a_drive_id a) db = Some d \<and>
       d_mount_path d = Some mp \<and> mp \<noteq> [] \<and> path = path_join mp manifest_name"
proof (induction e host strict j targets created db arbitrary: db' calls r rule: generate_manifests.induct)
  case (2 e host strict j a fs targets created db)
  let ?mount = "Option.bind (get_drive (a_drive_id a) db) d_mount_path"
  let ?path = "path_join (the ?mount) manifest_name"
  have here: ?case if "path = ?path" "doc = manifest_data e j a fs" "truthy ?mount"
    using that by (cases "get_drive (a_drive_id a) db"; cases ?mount) (auto split: option.splits)
  show ?case
  proof (cases "truthy ?mount \<and> mh_write host ?path")
    case True
    show ?thesis
    proof (cases "add_manifest e (j_id j) (Some (a_id a)) ?path db")
      case None
      with True 2(2,3) here show ?thesis by (auto simp: Let_def)
    next
      case (Some db1)
      let ?g = "generate_manifests e host strict j targets True (audit_manifest_created e j (a_drive_id a) manifest_name db1)"
      obtain x y z where g: "?g = (x, y, z)" by (cases ?g)
      have dr: "get_drive k db1 = get_drive k db" for k
        using add_manifest_frame [OF Some] by (simp add: get_drive_def)
      from 2(2) True Some g have "calls = Write_manifest ?path (manifest_data e j a fs) # Job_callback (j_id j) ''MANIFEST_CREATED'' # y"
        by (auto simp: Let_def)
      with 2(3) consider "path = ?path" "doc = manifest_data e j a fs" | "Write_manifest path doc \<in> set y" by auto
      then show ?thesis
      proof cases
        case 2
        from "2.IH" [OF refl _ refl _ Some g 2] True have "\<exists>a fs d mp. (a, fs) \<in> set targets \<and>
            doc = manifest_data e j a fs \<and> get_drive (a_drive_id a) db = Some d \<and> d_mount_path d = Some mp \<and>
            mp \<noteq> [] \<and> path = path_join mp manifest_name" by (simp add: dr)
        then show ?thesis by (metis list.set_intros(2))
      qed (use True here in blast)
    qed
  qed (use 2(2,3) in \<open>auto simp: Let_def split: if_splits\<close>)
qed simp

text \<open>A manifest is a faithful record: every manifest file the service writes belongs to a completed job
  without failed files, lies in the root of the mounted drive of one of its assignments, and lists exactly
  the completed files copied to that assignment with their checksums and sizes, in order.\<close>

theorem manifest_faithful:
  assumes "create_manifest e host i db = (db', calls, r)" "Write_manifest path doc \<in> set calls"
    and "pk_ok a_id (assignments db)"
  shows "\<exists>j (a :: drive_assignment) d mp. get_job i db = Some j \<and> j_status j = COMPLETED \<and>
    count_status ERROR i db = 0 \<and> count_status TIMEOUT i db = 0 \<and>
    get_drive (a_drive_id a) db = Some d \<and> d_mount_path d = Some mp \<and> path = path_join mp ''manifest.json'' \<and>
    md_drive_assignment_id doc = a_id a \<and> md_job_id doc = i \<and>
    md_files doc = map (\<lambda>f. (f_relative_path f, f_checksum f, f_size_bytes f))
      (filter (\<lambda>f. f_job_id f = i \<and> f_status f = DONE \<and> f_drive_assignment_id f = Some (a_id a)) (files db))"
proof -
  from assms(1,2) obtain j where j: "get_job i db = Some j" "j_status j = COMPLETED"
    "count_status ERROR i db = 0" "count_status TIMEOUT i db = 0"
    and g: "\<exists>z. generate_manifests e host True j (manifest_targets_needing_refresh host j db) False db = (db', calls, z)"
    unfolding create_manifest_def generate_manifest_for_job_def count_done_errors_and_timeouts_def
    by (auto split: option.splits if_splits prod.splits sum.splits)
  then obtain z where "generate_manifests e host True j (manifest_targets_needing_refresh host j db) False db = (db', calls, z)"
    by blast
  from generate_manifests_writes [OF this assms(2)] obtain a fs d mp where
    w: "(a, fs) \<in> set (manifest_targets_needing_refresh host j db)" "doc = manifest_data e j a fs"
    "get_drive (a_drive_id a) db = Some d" "d_mount_path d = Some mp" "path = path_join mp manifest_name" by blast
  have id: "j_id j = i" using j(1) by (rule get_job_id)
  from w(1) have "fs = manifest_files i (a_id a) db"
    using manifest_target_files [OF _ assms(3)] id by (auto simp: manifest_targets_needing_refresh_def)
  then have "fs = filter (\<lambda>f. f_job_id f = i \<and> f_status f = DONE \<and> f_drive_assignment_id f = Some (a_id a)) (files db)"
    by (auto simp: manifest_files_def files_of_def intro: filter_cong)
  then have "md_drive_assignment_id doc = a_id a \<and> md_job_id doc = i \<and>
    md_files doc = map (\<lambda>f. (f_relative_path f, f_checksum f, f_size_bytes f))
      (filter (\<lambda>f. f_job_id f = i \<and> f_status f = DONE \<and> f_drive_assignment_id f = Some (a_id a)) (files db))"
    using w(2) id by (simp add: manifest_data_def)
  with j w(3-5) show ?thesis
    unfolding manifest_name_def by blast
qed

section \<open>Manifest download\<close>

lemma no_sep_basename: "sep \<notin> set (basename p)"
  using split_on_no_sep [of "last (split_on sep p)" sep p] by (simp add: basename_def)

lemma no_sep_manifest_name: "sep \<notin> set manifest_name"
  by (simp add: manifest_name_def)

lemma active_assignment:
  "get_active_for_job i db = Some a \<Longrightarrow> a \<in> set (assignments db) \<and> a_job_id a = i"
  by (auto simp: get_active_for_job_def activated_for_def dest!: last_by_in)

lemma manifest_assignment_job:
  assumes "manifest_assignment i m db = Some a"
  shows "a \<in> set (assignments db) \<and> a_job_id a = i"
proof -
  have "a \<in> set (list_for_job i db) \<or> get_active_for_job i db = Some a"
    using assms unfolding manifest_assignment_def
    by (auto simp: find_Some_iff split: option.splits)
  then show ?thesis by (auto simp: list_for_job_def dest: active_assignment)
qed

text \<open>A manifest download reads only evidence of the job: the file it returns lies directly in the mount
  point of a drive assigned to the job, or inside the job's target or one of its drives' mount points.\<close>

theorem download_manifest_contained:
  assumes "download_manifest e cwd exists read i db = (db', Inr (content, name))"
  shows "sep \<notin> set name \<and>
    (\<exists>j path. get_job i db = Some j \<and> read path = Read_ok content \<and>
      ((\<exists>(a :: drive_assignment) d mp. a \<in> set (assignments db) \<and> a_job_id a = i \<and>
          get_drive (a_drive_id a) db = Some d \<and> d_mount_path d = Some mp \<and> path = path_join mp name) \<or>
       (\<exists>root_dir \<in> set (allowed_roots cwd j db). commonpath (abspath cwd path) root_dir = Some root_dir)))"
proof -
  from assms obtain j m path where j: "get_job i db = Some j" and m: "get_latest_for_job i db = Some m"
    and c: "manifest_candidate cwd exists j (the (mf_manifest_path m)) (manifest_assignment i m db) db = Inr path"
    and r: "read path = Read_ok content"
    and n: "name = (if basename (the (mf_manifest_path m)) = [] then manifest_name else basename (the (mf_manifest_path m)))"
    unfolding download_manifest_def Let_def
    by (auto split: option.splits if_splits sum.splits read_result.splits)
  have "sep \<notin> set name" unfolding n by (simp add: no_sep_basename no_sep_manifest_name)
  moreover have "(\<exists>(a :: drive_assignment) d mp. a \<in> set (assignments db) \<and> a_job_id a = i \<and>
          get_drive (a_drive_id a) db = Some d \<and> d_mount_path d = Some mp \<and> path = path_join mp name) \<or>
       (\<exists>root_dir \<in> set (allowed_roots cwd j db). commonpath (abspath cwd path) root_dir = Some root_dir)"
  proof (cases "truthy (Option.bind (assignment_drive (manifest_assignment i m db) db) d_mount_path)")
    case True
    then obtain a d mp where a: "manifest_assignment i m db = Some a" "get_drive (a_drive_id a) db = Some d"
      "d_mount_path d = Some mp"
      by (auto simp: assignment_drive_def Option.bind_eq_Some_conv split: option.splits elim!: truthy.elims)
    with c True n have "path = path_join mp name"
      by (simp add: manifest_candidate_def Let_def assignment_drive_def split: if_splits)
    with a manifest_assignment_job [OF a(1)] show ?thesis by blast
  next
    case False
    with c show ?thesis
      by (auto simp: manifest_candidate_def Let_def is_within_allowed_roots_def list_ex_iff split: if_splits)
  qed
  ultimately show ?thesis using j r by blast
qed

section \<open>Deletion\<close>

lemma deletion_session_drive:
  "get_drive k (deletion_session i db) =
     (if active_drive_id i db = Some k \<and> other_active_assignments_for_drive k i db = 0
      then map_option drive_available (get_drive k db) else get_drive k db)"
  by (auto simp: deletion_session_def get_set_drive split: option.splits)

lemma deletion_session_frame [frame_simps]:
  "files (deletion_session i db) = files db" "entries (deletion_session i db) = entries db"
  "manifests (deletion_session i db) = manifests db" "assignments (deletion_session i db) = assignments db"
  "audits (deletion_session i db) = audits db"
  by (auto simp: deletion_session_def frame_simps split: option.splits)

text \<open>Deleting a pending job removes it completely and nothing else: its row, files, analysis entries,
  manifests and assignments are gone, the rows of every other job are untouched, and the drive of its
  active assignment becomes available exactly when no other active job holds it.\<close>

theorem delete_job_exact:
  assumes "delete_job fk e i db = (db', calls, Inr j)"
  shows "get_job i db = Some j \<and> j_status j = JPENDING \<and>
    jobs db' = filter (\<lambda>j. j_id j \<noteq> i) (jobs db) \<and> files db' = filter (\<lambda>f. f_job_id f \<noteq> i) (files db) \<and>
    assignments db' = filter (\<lambda>a. a_job_id a \<noteq> i) (assignments db) \<and>
    (\<forall>k. get_drive k db' =
       (if active_drive_id i db = Some k \<and> other_active_assignments_for_drive k i db = 0
        then map_option drive_available (get_drive k db) else get_drive k db))"
  using assms
proof (cases rule: delete_job_cases)
  case (deleted j')
  let ?w = "unlink_audits fk i (delete_job_rows i (deletion_session i db))"
  have "audited ?w db'" unfolding deleted(6) by (rule audit_job_deleted_audited)
  note fr = audited_frame [OF this]
  have "get_drive k ?w = get_drive k (deletion_session i db)" for k by (simp add: get_drive_def frame_simps)
  moreover have "files ?w = filter (\<lambda>f. f_job_id f \<noteq> i) (files db)"
    by (simp add: unlink_audits_def delete_job_rows_def frame_simps)
  ultimately show ?thesis
    using deleted(1-4) deletion_session_ok [of db i]
    by (simp add: fr frame_simps deletion_session_drive)
qed simp

text \<open>On a database that enforces foreign keys a deletion leaves no trace of the job in the audit trail:
  the record of the deletion names the deleted job and is refused, and earlier records lose their job id.\<close>

theorem delete_job_unaudited:
  assumes "delete_job True e i db = (db', calls, Inr j)"
  shows "audits db' = map (\<lambda>l. if l_job_id l = Some i then l\<lparr>l_job_id := None\<rparr> else l) (audits db)"
  using assms
proof (cases rule: delete_job_cases)
  case (deleted j')
  have "get_job i (unlink_audits True i (delete_job_rows i (deletion_session i db))) = None"
    by (simp add: get_job_def frame_simps get_row_filter)
  then show ?thesis unfolding deleted(6)
    by (simp add: audit_job_deleted_def unlink_audits_def delete_job_rows_def frame_simps)
qed simp

section \<open>Overflow continuation\<close>

lemma overflow_session_target:
  assumes "overflow_session e j a d p t n db = Inr (w, x)" "get_drive (d_id d) db = Some d" "a_drive_id a \<noteq> d_id d"
  shows "get_drive (d_id d) w = Some (drive_in_use (bind_if_unbound j d))"
proof -
  let ?w0 = "set_drive (d_id d) (bind_if_unbound j) db"
  from assms obtain w1 where w1: "release_active e (j_id j) a ?w0 = Inr w1"
    by (auto simp: overflow_session_def split: sum.splits)
  let ?w2 = "fst (activate_reserved_or_new_assignment e (j_id j) (d_id d) w1)"
  let ?w3 = "set_job (j_id j) (overflow_update e p (d_mount_path d) t) (set_drive (d_id d) drive_in_use ?w2)"
  from assms w1 have "w = ?w3 \<or> w = fst (reset_failed_for_retry (j_id j) ?w3)"
    by (auto simp: overflow_session_def Let_def split: prod.splits if_splits)
  then have "drives w = drives (set_drive (d_id d) drive_in_use ?w2)" by (auto simp: frame_simps)
  then have w: "get_drive (d_id d) w = get_drive (d_id d) (set_drive (d_id d) drive_in_use ?w2)"
    by (simp add: get_drive_def)
  have "d_id (bind_if_unbound j d) = d_id d" by (simp add: bind_if_unbound_def)
  moreover have "get_drive (d_id d) w1 = Some (bind_if_unbound j d)"
    using release_active_ok [OF w1] assms(2,3) by (simp add: get_set_drive bind_if_unbound_def)
  ultimately show ?thesis using w by (simp add: get_set_drive frame_simps)
qed

text \<open>Continuing on an overflow drive is safe: it succeeds only for a stopped job, onto a different, mounted
  drive of the job's project (or an unbound one, which it binds) that no other job holds and on which the
  remaining estimated bytes fit; the target is then in use for the project, no other project binding
  changes, the job is preparing and exactly one copy task is scheduled.\<close>

theorem continue_overflow_success:
  assumes "continue_job_overflow e st i k t db = (db', calls, Inr j')"
    and "normalize_project_id (j_project_id j') = j_project_id j'" "j_project_id j' \<noteq> []"
  shows "\<exists>j a d d'. get_job i db = Some j \<and> j_status j \<in> {JPENDING, PAUSED, JFAILED, COMPLETED} \<and>
    get_active_for_job i db = Some a \<and> a_drive_id a \<noteq> k \<and> get_drive k db = Some d \<and> truthy (d_mount_path d) \<and>
    d_current_project_id d \<in> {None, Some (j_project_id j)} \<and> \<not> is_drive_assigned_to_another_job k (Some i) db \<and>
    (\<forall>m n. remaining_estimated_bytes j = Some m \<and> d_available_bytes d = Some n \<longrightarrow> m \<le> n) \<and>
    get_drive k db' = Some d' \<and> d_current_state d' = IN_USE \<and> d_current_project_id d' = Some (j_project_id j) \<and>
    drives_bound db db' \<and> get_job i db' = Some j' \<and> j_status j' = PREPARING \<and>
    calls = [Job_callback i ''JOB_OVERFLOW_CONTINUATION_STARTED'', Schedule_copy i]"
  using assms(1)
proof (cases rule: continue_overflow_cases)
  case (committed j a x p n w y)
  have k: "d_id x = k" using committed(6) by (rule get_drive_id)
  have ji: "j_id j = i" using committed(1) by (rule get_job_id)
  note g = target_drive_guards_None [OF committed(8)]
  have fits: "\<forall>m n. remaining_estimated_bytes j = Some m \<and> d_available_bytes x = Some n \<longrightarrow> m \<le> n"
    using committed(10) by (auto simp: overflow_shortfall_def split: if_splits)
  have "j_project_id j' = j_project_id j" using committed(13) by (simp add: overflow_update_def)
  with assms(2,3) have np: "drive_project_validator (Some (j_project_id j)) = Some (j_project_id j)"
    by (simp add: drive_project_validator_ok)
  have "get_drive k db' = Some (drive_in_use (bind_if_unbound j x))"
    using overflow_session_target [OF committed(11)] committed(5,6) k by (simp add: audited_frame(10) [OF committed(12)])
  moreover have "d_current_state (drive_in_use (bind_if_unbound j x)) = IN_USE" by (simp add: drive_in_use_def)
  moreover have "d_current_project_id (drive_in_use (bind_if_unbound j x)) = Some (j_project_id j)"
    using g(1) np by (auto simp: drive_in_use_def bind_if_unbound_def)
  moreover have "drives_bound db db'"
    using overflow_session_ok(1) [OF committed(11)] audited_frame(3) [OF committed(12)]
    by (metis drives_bound_trans drives_bound_same)
  moreover have "get_job i db' = Some j'"
    using overflow_session_ok(2) [OF committed(11)] committed(1,13) ji
    by (simp add: audited_frame(5) [OF committed(12)] get_job_def get_upd_row)
  moreover have "j_status j' = PREPARING" using committed(13) by (simp add: overflow_update_def)
  ultimately show ?thesis using committed(1,2,4-7,14) g(1,3) fits by blast
qed simp_all

section \<open>Updates\<close>

text \<open>An update of a pending job that changes the source marks the start-up analysis stale even when the
  job was never analysed: the test for recorded analysis values is always true.\<close>

theorem update_marks_unanalysed_stale:
  assumes "update_job e st i body db = (db', calls, Inr j')"
    and "get_job i db = Some j" "j_status j = JPENDING" "j_source_path j' \<noteq> j_source_path j"
  shows "sa_status (j_analysis j') = STALE"
  using assms(1)
proof (cases rule: update_job_cases)
  case (committed j0 d a v lim w)
  with assms(2,3) have "j0 = j" "\<not> lim" by (simp_all add: started_job_editable_statuses_def)
  with committed(9) assms(4) show ?thesis
    by (auto simp: update_fields_def Let_def has_persisted_analysis_state_def mark_analysis_stale_def
        cleared_analysis_def split: if_splits)
qed simp_all

section \<open>Examples\<close>

definition example_settings :: settings where
  "example_settings = \<lparr>st_usb_mount_base_path = ''/mnt/ecube'', st_copy_default_thread_count = 4,
     st_copy_chunk_size_bytes = 1048576, st_copy_progress_flush_bytes = 4194304, st_copy_file_fsync_enabled = False\<rparr>"

definition example_body :: "int option \<Rightarrow> int list \<Rightarrow> job_body" where
  "example_body drive overflow =
     \<lparr>b_project_id = ''P1'', b_evidence_number = ''EV1'', b_source_path = ''/nfs/p1/a'', b_mount_id = None,
      b_drive_id = drive, b_overflow_drive_ids = overflow, b_thread_count = None, b_copy_chunk_size_bytes = None,
      b_copy_progress_flush_bytes = None, b_copy_file_fsync_enabled = None, b_auto_apply = False,
      b_max_file_retries = 3, b_retry_delay_seconds = 1, b_notes = None, b_callback_url = None\<rparr>"

text \<open>A pending job on drive 7 with drive 8 reserved for overflow; drive 9 belongs to another project.\<close>

definition overflow_db :: "job_status \<Rightarrow> db" where
  "overflow_db st =
     (example_job_db (example_drive 7 IN_USE (Some ''P1'') (Some ''/mnt/7'')) st)
       \<lparr>drives := [example_drive 7 IN_USE (Some ''P1'') (Some ''/mnt/7''),
                   example_drive 8 IN_USE (Some ''P1'') (Some ''/mnt/8''),
                   example_drive 9 AVAILABLE (Some ''P2'') (Some ''/mnt/9'')],
        assignments := [example_assignment 1 7 3, (example_assignment 2 8 3)\<lparr>a_activated_at := None\<rparr>]\<rparr>"

text \<open>Deleting a job leaves the drives reserved for its overflow in use although no assignment names them
  any more.\<close>

theorem delete_job_leaks_overflow_drive:
  "\<exists>db' j. delete_job True example_env 3 (overflow_db JPENDING) = (db', [], Inr j) \<and> assignments db' = [] \<and>
     map d_current_state (drives db') = [AVAILABLE, IN_USE, AVAILABLE]"
proof -
  let ?r = "delete_job True example_env 3 (overflow_db JPENDING)"
  have "\<not> isl (snd (snd ?r))" "fst (snd ?r) = []" "assignments (fst ?r) = []"
    "map d_current_state (drives (fst ?r)) = [AVAILABLE, IN_USE, AVAILABLE]"
    by code_simp+
  then show ?thesis by (cases ?r, cases "snd (snd ?r)") auto
qed

text \<open>A rejected update can still change the database: when a wanted overflow drive belongs to another
  project, the audit record of the violation commits the session, in which the drive that was reserved before
  has already been released.\<close>

theorem update_job_commits_rejected_session:
  "\<exists>db'. update_job example_env example_settings 3 (example_body None [9]) (overflow_db JPENDING) =
       (db', [], Inl Drive_other_project) \<and>
     map a_released_at (assignments db') = [None, Some 100] \<and>
     map d_current_state (drives db') = [IN_USE, AVAILABLE, AVAILABLE]"
proof -
  let ?r = "update_job example_env example_settings 3 (example_body None [9]) (overflow_db JPENDING)"
  have "snd ?r = ([], Inl Drive_other_project)" "map a_released_at (assignments (fst ?r)) = [None, Some 100]"
    "map d_current_state (drives (fst ?r)) = [IN_USE, AVAILABLE, AVAILABLE]"
    by code_simp+
  then show ?thesis by (cases ?r) auto
qed

end
