(* ===== verification/Job_Examples.thy ===== *)
theory Job_Examples
  imports Job_Reports
begin

text \<open>
  The properties of the job repositories and the job service at concrete inputs: each theorem below applies
  one of them to a small database on which its hypotheses hold.
\<close>

lemma result_Inr_with: "\<not> isl (snd (snd x)) \<Longrightarrow> P (projr (snd (snd x))) \<Longrightarrow> \<exists>db c y. x = (db, c, Inr y) \<and> P y"
  by (cases x, cases "snd (snd x)") auto

section \<open>Repositories\<close>

definition example_file :: "int \<Rightarrow> file_status \<Rightarrow> string option \<Rightarrow> export_file" where
  "example_file i st err =
     \<lparr>f_id = i, f_job_id = 3, f_drive_assignment_id = Some 1, f_project_id = ''P1'', f_relative_path = ''a.txt'',
      f_size_bytes = Some 5, f_checksum = Some ''c0'', f_status = st, f_error_message = err, f_retry_attempts = 0,
      f_startup_analysis_revision = 0\<rparr>"

definition files_db :: "export_file list \<Rightarrow> job_status \<Rightarrow> db" where
  "files_db fs st = (overflow_db st)\<lparr>files := fs\<rparr>"

theorem bulk_active_matches_single_witness:
  "bulk_get_active_for_jobs [3] (overflow_db RUNNING) 3 = get_active_for_job 3 (overflow_db RUNNING)"
proof -
  have "pk_ok a_id (assignments (overflow_db RUNNING))" by code_simp
  from bulk_active_matches_single [OF this, of "[3]" 3] show ?thesis by simp
qed

theorem target_full_continuation_iff_witness:
  "should_attempt_target_full_continuation 3
     (files_db [example_file 1 ERROR (Some target_full_message), example_file 2 ERROR None] RUNNING)"
proof -
  let ?fs = "[example_file 1 ERROR (Some target_full_message), example_file 2 ERROR None]"
  have "set (files_of 3 (files_db ?fs RUNNING)) = set ?fs"
    by (simp add: files_of_def files_db_def example_file_def)
  then show ?thesis
    unfolding target_full_continuation_iff by (simp add: example_file_def)
qed

theorem batch_keeps_counters_witness:
  "\<exists>db'. apply_copy_progress_batch example_env 3 (- 9) [(1, - 4)] [] (overflow_db RUNNING) = Some db' \<and> counters_ok db'"
proof -
  let ?r = "apply_copy_progress_batch example_env 3 (- 9) [(1, - 4)] [] (overflow_db RUNNING)"
  have "counters_ok (overflow_db RUNNING)" "?r \<noteq> None" by code_simp+
  with batch_keeps_counters show ?thesis by blast
qed

theorem batch_equals_increments_witness:
  "apply_copy_progress_batch example_env 3 7 [(1, 7)] [] (overflow_db RUNNING) =
     Option.bind (increment_copy_progress example_env 3 (Some 1) 3 (overflow_db RUNNING))
       (increment_copy_progress example_env 3 (Some 1) 4)"
proof -
  have "e_db_ok example_env site" for site by (simp add: example_env_def)
  moreover have "\<And>n :: int. n \<in> set [3, 4] \<Longrightarrow> 0 < n" by auto
  ultimately show ?thesis using batch_equals_increments [of example_env "[3, 4]" 3 1 "overflow_db RUNNING"] by simp
qed

section \<open>Creation\<close>

definition create_example_db :: db where
  "create_example_db = (overflow_db COMPLETED)\<lparr>jobs := [], assignments := [],
     drives := [example_drive 7 AVAILABLE (Some ''P1'') (Some ''/mnt/7''),
                example_drive 8 AVAILABLE (Some ''P1'') (Some ''/mnt/8'')]\<rparr>"

lemma create_example:
  "\<exists>db' c j. create_job example_env example_settings [] (example_body (Some 7) [8]) None create_example_db = (db', c, Inr j)"
  by (rule result_Inr) code_simp

lemma create_example_ok:
  "pk_ok d_id (drives create_example_db)"
  "normalize_project_id (b_project_id (example_body d os)) = b_project_id (example_body d os)"
  "b_project_id (example_body d os) \<noteq> []"
proof -
  show "pk_ok d_id (drives create_example_db)" by code_simp
  have "normalize_project_id ''P1'' = ''P1''" by code_simp
  then show "normalize_project_id (b_project_id (example_body d os)) = b_project_id (example_body d os)"
    "b_project_id (example_body d os) \<noteq> []" by (simp_all add: example_body_def)
qed

theorem create_job_success_witness:
  "\<exists>db' c j d. create_job example_env example_settings [] (example_body (Some 7) [8]) None create_example_db =
      (db', c, Inr j) \<and> j_status j = JPENDING \<and> get_drive 8 db' = Some d \<and> d_current_state d = IN_USE"
proof -
  obtain db' c j where r: "create_job example_env example_settings [] (example_body (Some 7) [8]) None
    create_example_db = (db', c, Inr j)" using create_example by blast
  from create_job_success [OF r create_example_ok] obtain news :: "drive_assignment list" where
    news: "j_status j = JPENDING" "tl (map a_drive_id news) = b_overflow_drive_ids (example_body (Some 7) [8])"
    "\<forall>a \<in> set news. \<exists>d. get_drive (a_drive_id a) db' = Some d \<and> d_current_state d = IN_USE" by blast
  then have "tl (map a_drive_id news) = [8]" by (simp add: example_body_def)
  then have "8 \<in> a_drive_id ` set news"
    by (metis list.set_intros(1) list.set_map list.set_sel(2) tl_Nil list.distinct(1))
  then obtain d where "get_drive 8 db' = Some d" "d_current_state d = IN_USE" using news(3) by (metis imageE)
  with news(1) r show ?thesis by blast
qed

theorem create_job_rejected_witness:
  "\<exists>db' err. create_job example_env example_settings [] (example_body (Some 9) []) None (overflow_db RUNNING) =
      (db', [], Inl err) \<and> jobs db' = jobs (overflow_db RUNNING)"
proof -
  let ?r = "create_job example_env example_settings [] (example_body (Some 9) []) None (overflow_db RUNNING)"
  have "isl (snd (snd ?r))" by code_simp
  then obtain db' c err where r: "?r = (db', c, Inl err)" using result_Inl by blast
  from create_job_rejected [OF r] r show ?thesis by auto
qed


section \<open>Life cycle\<close>

lemma start_example:
  "\<exists>db' c j. start_job example_env example_settings 3 None (overflow_db JPENDING) = (db', c, Inr j)"
  by (rule result_Inr) code_simp

theorem start_job_success_witness:
  "\<exists>db' j. start_job example_env example_settings 3 None (overflow_db JPENDING) =
     (db', [Job_callback 3 ''JOB_STARTED'', Schedule_copy 3], Inr j) \<and> get_job 3 db' = Some j"
proof -
  obtain db' c j where r: "start_job example_env example_settings 3 None (overflow_db JPENDING) = (db', c, Inr j)"
    using start_example by blast
  from start_job_success [OF r] r show ?thesis by blast
qed

theorem start_job_exclusive_witness:
  "\<exists>db' c j err. start_job example_env example_settings 3 None (overflow_db JPENDING) = (db', c, Inr j) \<and>
     start_job example_env example_settings 3 None db' = (db', [], Inl err)"
proof -
  obtain db' c j where r: "start_job example_env example_settings 3 None (overflow_db JPENDING) = (db', c, Inr j)"
    using start_example by blast
  from start_job_exclusive [OF r] r show ?thesis by blast
qed

theorem job_lifecycle_witness:
  "\<exists>db' c j j'. start_job example_env example_settings 3 None (overflow_db JPENDING) = (db', c, Inr j) \<and>
     get_job 3 db' = Some j' \<and> (j_status j' = JPENDING \<or> job_transition JPENDING (j_status j'))"
proof -
  obtain db' c j where r: "start_job example_env example_settings 3 None (overflow_db JPENDING) = (db', c, Inr j)"
    using start_example by blast
  have g: "get_job 3 (overflow_db JPENDING) = Some (example_job 3 JPENDING)" by code_simp
  obtain j' where "get_job 3 db' = Some j'" using start_job_success [OF r] by blast
  moreover have "j_status (example_job 3 JPENDING) = JPENDING" by (simp add: example_job_def)
  moreover note conjunct1 [OF job_lifecycle [OF js_start [OF r]], rule_format, OF g]
  ultimately show ?thesis using r by (auto split: option.splits)
qed

theorem started_job_permanent_witness:
  "\<exists>db' c r j'. pause_job example_env 3 (overflow_db RUNNING) = (db', c, r) \<and> get_job 3 db' = Some j' \<and>
     j_status j' \<noteq> JPENDING"
proof -
  obtain db' c r where r: "pause_job example_env 3 (overflow_db RUNNING) = (db', c, r)" by (metis surj_pair)
  have "run job_step (overflow_db RUNNING) (c @ []) db'" by (rule run_step) (rule js_pause [OF r], rule run_refl)
  moreover have "get_job 3 (overflow_db RUNNING) = Some (example_job 3 RUNNING)" by code_simp
  moreover have "j_status (example_job 3 RUNNING) \<noteq> JPENDING" by (simp add: example_job_def)
  ultimately have "\<exists>j'. get_job 3 db' = Some j' \<and> j_status j' \<noteq> JPENDING" using started_job_permanent by blast
  with r show ?thesis by blast
qed

definition released_db :: db where
  "released_db = example_job_db (example_drive 7 AVAILABLE (Some ''P1'') None) COMPLETED"

theorem archive_job_custody_witness:
  "\<exists>db' c j. archive_job example_env 3 True released_db = (db', c, Inr j) \<and> length (audits db') = 1"
proof -
  let ?r = "archive_job example_env 3 True released_db"
  have "\<not> isl (snd (snd ?r))" "audits released_db = []" by code_simp+
  then obtain db' c j where r: "?r = (db', c, Inr j)" using result_Inr by blast
  from archive_job_custody [OF r] r \<open>audits released_db = []\<close> show ?thesis by auto
qed

section \<open>Reports\<close>

theorem attention_list_exact_witness:
  "list_jobs_requiring_attention (\<lambda>_ _. Some True) 10 0 None [COMPLETED] False (overflow_db COMPLETED) =
     [example_job 3 COMPLETED]"
proof -
  have "pk_ok a_id (assignments (overflow_db COMPLETED))" by code_simp
  from attention_list_exact [OF this, of "\<lambda>_ _. Some True" "\<lambda>_. Some True" "[COMPLETED]" 10 0 None False]
  have "list_jobs_requiring_attention (\<lambda>_ _. Some True) 10 0 None [COMPLETED] False (overflow_db COMPLETED) =
    take 10 (drop 0 (filter (requires_attention (\<lambda>_. Some True) (overflow_db COMPLETED))
      (recent_all None [COMPLETED] False (overflow_db COMPLETED))))"
    by (simp add: dashboard_attention_candidate_statuses_def)
  moreover have "take 10 (drop 0 (filter (requires_attention (\<lambda>_. Some True) (overflow_db COMPLETED))
      (recent_all None [COMPLETED] False (overflow_db COMPLETED)))) = [example_job 3 COMPLETED]" by code_simp
  ultimately show ?thesis by simp
qed

theorem manifest_faithful_witness:
  "\<exists>db' c r doc. create_manifest example_env \<lparr>mh_exists = \<lambda>_. False, mh_write = \<lambda>_. True\<rparr> 3
      (files_db [example_file 1 DONE None] COMPLETED) = (db', c, r) \<and>
     Write_manifest ''/mnt/7/manifest.json'' doc \<in> set c \<and> md_job_id doc = 3"
proof -
  let ?db = "files_db [example_file 1 DONE None] COMPLETED"
  let ?r = "create_manifest example_env \<lparr>mh_exists = \<lambda>_. False, mh_write = \<lambda>_. True\<rparr> 3 ?db"
  have "list_ex (\<lambda>c. case c of Write_manifest p d \<Rightarrow> p = ''/mnt/7/manifest.json'' | _ \<Rightarrow> False) (fst (snd ?r))"
    "pk_ok a_id (assignments ?db)" by code_simp+
  then obtain x where x: "x \<in> set (fst (snd ?r))"
    "case x of Write_manifest p d \<Rightarrow> p = ''/mnt/7/manifest.json'' | _ \<Rightarrow> False"
    and pk: "pk_ok a_id (assignments ?db)"
    unfolding list_ex_iff by blast
  obtain doc where doc: "Write_manifest ''/mnt/7/manifest.json'' doc \<in> set (fst (snd ?r))"
    using x by (cases x rule: job_effect.exhaust) (simp_all only: job_effect.case)
  obtain db' c r where r: "?r = (db', c, r)" by (metis surj_pair)
  with doc have "Write_manifest ''/mnt/7/manifest.json'' doc \<in> set c" by simp
  with manifest_faithful [OF r this pk] r show ?thesis by blast
qed

definition manifest_db :: db where
  "manifest_db = (overflow_db COMPLETED)\<lparr>manifests :=
     [\<lparr>mf_id = 1, mf_job_id = 3, mf_drive_assignment_id = Some 1, mf_manifest_path = Some ''/mnt/7/manifest.json'',
       mf_format = ''JSON'', mf_created_at = 5\<rparr>]\<rparr>"

theorem download_manifest_contained_witness:
  "\<exists>db' content name. download_manifest example_env ''/'' (\<lambda>_. True) (\<lambda>p. Read_ok p) 3 manifest_db =
     (db', Inr (content, name)) \<and> sep \<notin> set name"
proof -
  let ?r = "download_manifest example_env ''/'' (\<lambda>_. True) (\<lambda>p. Read_ok p) 3 manifest_db"
  have "\<not> isl (snd ?r)" by code_simp
  then obtain db' content name where r: "?r = (db', Inr (content, name))"
    by (cases ?r; cases "snd ?r") auto
  with download_manifest_contained [OF r] show ?thesis by blast
qed

lemma delete_example: "\<exists>db' c j. delete_job True example_env 3 (overflow_db JPENDING) = (db', c, Inr j)"
  by (rule result_Inr) code_simp

theorem delete_job_exact_witness:
  "\<exists>db' c j. delete_job True example_env 3 (overflow_db JPENDING) = (db', c, Inr j) \<and> j_status j = JPENDING"
  using delete_example delete_job_exact by blast

theorem delete_job_unaudited_witness:
  "\<exists>db' c j. delete_job True example_env 3 (overflow_db JPENDING) = (db', c, Inr j) \<and> audits db' = []"
proof -
  obtain db' c j where r: "delete_job True example_env 3 (overflow_db JPENDING) = (db', c, Inr j)"
    using delete_example by blast
  have "audits (overflow_db JPENDING) = []" by code_simp
  with delete_job_unaudited [OF r] r show ?thesis by simp
qed

theorem continue_overflow_success_witness:
  "\<exists>db' c j d. continue_job_overflow example_env example_settings 3 8 None (overflow_db PAUSED) = (db', c, Inr j) \<and>
     get_drive 8 db' = Some d \<and> d_current_state d = IN_USE"
proof -
  let ?r = "continue_job_overflow example_env example_settings 3 8 None (overflow_db PAUSED)"
  have "\<not> isl (snd (snd ?r))" "j_project_id (projr (snd (snd ?r))) = ''P1''" by code_simp+
  from result_Inr_with [where P = "\<lambda>j. j_project_id j = ''P1''", OF this]
  obtain db' c j where r: "?r = (db', c, Inr j)" and p: "j_project_id j = ''P1''" by blast
  have "normalize_project_id ''P1'' = ''P1''" by code_simp
  with continue_overflow_success [OF r] p r show ?thesis by auto
qed

theorem update_marks_unanalysed_stale_witness:
  "\<exists>db' c j. update_job example_env example_settings 3 ((example_body None [])\<lparr>b_source_path := ''/nfs/p1/b''\<rparr>)
      (overflow_db JPENDING) = (db', c, Inr j) \<and> sa_status (j_analysis j) = STALE"
proof -
  let ?r = "update_job example_env example_settings 3 ((example_body None [])\<lparr>b_source_path := ''/nfs/p1/b''\<rparr>)
      (overflow_db JPENDING)"
  have "\<not> isl (snd (snd ?r))" "j_source_path (projr (snd (snd ?r))) = ''/nfs/p1/b''" by code_simp+
  from result_Inr_with [where P = "\<lambda>j. j_source_path j = ''/nfs/p1/b''", OF this]
  obtain db' c j where r: "?r = (db', c, Inr j)" and p: "j_source_path j = ''/nfs/p1/b''" by blast
  have "get_job 3 (overflow_db JPENDING) = Some (example_job 3 JPENDING)" by code_simp
  moreover have "j_source_path j \<noteq> j_source_path (example_job 3 JPENDING)"
    unfolding p by (simp add: example_job_def)
  moreover have "j_status (example_job 3 JPENDING) = JPENDING" by (simp add: example_job_def)
  ultimately show ?thesis using update_marks_unanalysed_stale [OF r] r by blast
qed

end
