(* ===== verification/Copy_Examples.thy ===== *)
theory Copy_Examples
  imports Copy_Safety Job_Examples
begin

text \<open>
  Concrete runs of the copy engine: the theorems about it applied to a job with two reserved drives, and the
  situations in which the code does not do what it means to.
\<close>

section \<open>Attempts\<close>

definition copy_args :: worker_args where
  "copy_args = \<lparr>wa_max_retries = 1, wa_retry_delay = 1, wa_flush_threshold = Some 2, wa_has_target = True,
     wa_use_writer = True, wa_timeout_seconds = 0, wa_now = 0\<rparr>"

definition pending_db :: db where
  "pending_db = files_db [example_file 1 FPENDING None] RUNNING"

lemma pending_claim:
  "\<exists>db1. claim_file example_env (\<lambda>db. db) 1 0 pending_db = (db1, Some (example_file 1 FPENDING None, Some 1))"
proof -
  have "snd (claim_file example_env (\<lambda>db. db) 1 0 pending_db) = Some (example_file 1 FPENDING None, Some 1)" by code_simp
  then show ?thesis by (cases "claim_file example_env (\<lambda>db. db) 1 0 pending_db") simp
qed

theorem process_file_progress_witness:
  "\<exists>q db' ao. process_file example_env chunk_settings copy_args (\<lambda>db. db) (\<lambda>db. db) (\<lambda>f. (Copied ''d'', [2, 1])) 1 0 pending_db =
     (q, db', ao) \<and> delta_sum q = 3"
proof -
  obtain db1 where c: "claim_file example_env (\<lambda>db. db) 1 0 pending_db = (db1, Some (example_file 1 FPENDING None, Some 1))"
    using pending_claim by blast
  obtain q db' ao where r: "process_file example_env chunk_settings copy_args (\<lambda>db. db) (\<lambda>db. db) (\<lambda>f. (Copied ''d'', [2, 1])) 1 0 pending_db =
     (q, db', ao)" by (metis surj_pair)
  have "wa_use_writer copy_args" "e_db_ok example_env ''file_done''" by (simp_all add: copy_args_def example_env_def)
  from process_file_progress [OF r this(1) c] this(2) r show ?thesis by simp
qed


theorem process_file_retry_witness:
  "\<exists>q db' ao d. process_file example_env chunk_settings copy_args (\<lambda>db. db) (\<lambda>db. db) (\<lambda>f. (Copy_failed ''x'', [2])) 1 0 pending_db =
     (q, db', ao) \<and> ao_deferred_retry ao = Some d \<and> dr_attempt d = 1 \<and> dr_eligible_at d = 1"
proof -
  let ?r = "process_file example_env chunk_settings copy_args (\<lambda>db. db) (\<lambda>db. db) (\<lambda>f. (Copy_failed ''x'', [2])) 1 0 pending_db"
  have "ao_deferred_retry (snd (snd ?r)) \<noteq> None" by code_simp
  moreover obtain q db' ao where r: "?r = (q, db', ao)" by (metis surj_pair)
  ultimately obtain d where d: "ao_deferred_retry ao = Some d" by auto
  have "wa_use_writer copy_args" by (simp add: copy_args_def)
  from process_file_retry [OF r this d] r d show ?thesis by (auto simp: copy_args_def)
qed

theorem writer_run_accounts_witness:
  "sum_list (map pp_job (ws_flushed (writer_run 3 [(example_env, Received [(Some 1, 5, 0)]), (example_env, Stop_after [(Some 1, -2, 1)])]
     pending_db))) = 3"
proof -
  let ?ts = "[(example_env, Received [(Some 1, 5, 0)])]"
  have "\<not> ws_error (writer_run 3 (?ts @ [(example_env, Stop_after [(Some 1, -2, 1)])]) pending_db)" by code_simp
  from writer_run_accounts [OF _ refl this] show ?thesis by (simp add: delta_sum_def turn_updates_def)
qed

section \<open>The scheduler\<close>

text \<open>One file, two workers: the file is loaded and submitted; its worker crashes before it claims the file; the
  attempt is collected and the next load finds nothing more.\<close>

abbreviation example_reachable :: "scheduler \<Rightarrow> bool" where
  "example_reachable \<equiv> scheduler_reachable chunk_settings copy_args 3 None pending_db"

definition sched_loaded :: scheduler where
  "sched_loaded = load_pending_buffer 3 (scheduler_start 2 pending_db)"

definition sched_submitted :: scheduler where
  "sched_submitted = submit (1, 0) (sched_loaded\<lparr>sc_buffer := []\<rparr>)"

definition sched_collected :: scheduler where
  "sched_collected = handle_worker_completion 3 None False (collect_future (1, 0) (set_future (1, 0) Crashed sched_submitted))"

definition sched_ended :: scheduler where
  "sched_ended = load_pending_buffer 3 sched_collected"

lemma sched_submitted_reachable: "example_reachable sched_submitted"
proof -
  have "example_reachable (scheduler_start 2 pending_db)" by (rule scheduler_reachable.start)
  moreover have "keep_going (scheduler_start 2 pending_db)" "length (sc_futures (scheduler_start 2 pending_db)) < sc_workers (scheduler_start 2 pending_db)"
    "sc_buffer (scheduler_start 2 pending_db) = []" "\<not> sc_exhausted (scheduler_start 2 pending_db)"
    by (simp_all add: scheduler_start_def keep_going_def)
  then have "scheduler_step chunk_settings copy_args 3 None (scheduler_start 2 pending_db) sched_loaded"
    unfolding sched_loaded_def by (rule scheduler_step.load)
  ultimately have loaded: "example_reachable sched_loaded" by (rule scheduler_reachable.step)
  have "keep_going sched_loaded" "length (sc_futures sched_loaded) < sc_workers sched_loaded" "sc_buffer sched_loaded = [1]"
    by code_simp+
  then have "scheduler_step chunk_settings copy_args 3 None sched_loaded sched_submitted"
    unfolding sched_submitted_def by (rule scheduler_step.submit_pending)
  with loaded show ?thesis by (rule scheduler_reachable.step)
qed

lemma sched_ended_reachable: "example_reachable sched_ended"
proof -
  let ?c = "set_future (1, 0) Crashed sched_submitted"
  have "map_of (sc_futures sched_submitted) (1, 0) = Some Submitted" "\<not> future_finished Submitted"
    by (code_simp, simp add: future_finished_def)
  then have "scheduler_step chunk_settings copy_args 3 None sched_submitted ?c" by (rule scheduler_step.crash)
  with sched_submitted_reachable have crashed: "example_reachable ?c" by (rule scheduler_reachable.step)
  have "keep_going ?c" by code_simp
  moreover have "map_of (sc_futures ?c) (1, 0) = Some Crashed" by code_simp
  moreover then have "\<not> target_full_detected ?c [(1, 0)]" by (simp add: target_full_detected_def)
  ultimately have "scheduler_step chunk_settings copy_args 3 None ?c sched_collected"
    using scheduler_step.collect [of ?c "[(1, 0)]" chunk_settings copy_args 3 None]
    by (simp add: sched_collected_def future_finished_def)
  with crashed have collected: "example_reachable sched_collected" by (rule scheduler_reachable.step)
  have "keep_going sched_collected" "length (sc_futures sched_collected) < sc_workers sched_collected"
    "sc_buffer sched_collected = []" "\<not> sc_exhausted sched_collected" by code_simp+
  then have "scheduler_step chunk_settings copy_args 3 None sched_collected sched_ended"
    unfolding sched_ended_def by (rule scheduler_step.load)
  with collected show ?thesis by (rule scheduler_reachable.step)
qed

lemma example_scheduler_hyps: "wa_use_writer copy_args" "pk_ok f_id (files pending_db)"
  by (simp add: copy_args_def, code_simp)

theorem scheduler_exclusive_witness:
  "distinct (in_flight sched_submitted @ waiting sched_submitted @ sc_buffer sched_submitted) \<and> in_flight sched_submitted = [1]"
proof -
  have "in_flight sched_submitted = [1]" by code_simp
  with scheduler_exclusive [OF sched_submitted_reachable example_scheduler_hyps] show ?thesis by simp
qed

theorem scheduler_bounded_witness: "distinct (sc_log sched_ended) \<and> length (sc_log sched_ended) \<le> 2"
proof -
  have "length (files_of 3 pending_db) * Suc (wa_max_retries copy_args) = 2" by code_simp
  with scheduler_bounded [OF sched_ended_reachable example_scheduler_hyps] show ?thesis by metis
qed

theorem scheduler_complete_witness: "(1, 0) \<in> set (sc_log sched_ended)"
proof -
  have fin: "scheduler_finished sched_ended" by code_simp
  have f: "example_file 1 FPENDING None \<in> set (files_of 3 (sc_db sched_ended))" by code_simp
  have "f_status (example_file 1 FPENDING None) = FPENDING" by (simp add: example_file_def)
  from scheduler_complete [OF sched_ended_reachable example_scheduler_hyps fin f this] show ?thesis
    by (simp add: example_file_def)
qed

section \<open>The job side\<close>

text \<open>The first drive ran full: one file failed for lack of space, one is done.\<close>

definition full_db :: "job_status \<Rightarrow> db" where
  "full_db st = files_db [example_file 1 ERROR (Some target_full_message), example_file 2 DONE None] st"

definition done_db :: "job_status \<Rightarrow> db" where
  "done_db st = files_db [example_file 1 DONE None] st"

definition silent_host :: manifest_host where
  "silent_host = \<lparr>mh_exists = (\<lambda>_. False), mh_write = (\<lambda>_. False)\<rparr>"

theorem continuation_tests_agree_witness:
  "should_attempt_target_full_continuation 3 (full_db RUNNING) \<and>
   should_attempt_continuation (list_incomplete_by_job 3 (full_db RUNNING))"
proof -
  have "\<forall>f \<in> set (files_of 3 (full_db RUNNING)). f_status f = ERROR \<longrightarrow> f_error_message f \<noteq> None" by code_simp
  from continuation_tests_agree [OF this] have "should_attempt_target_full_continuation 3 (full_db RUNNING) =
     should_attempt_continuation (list_incomplete_by_job 3 (full_db RUNNING))" .
  moreover have "should_attempt_continuation (list_incomplete_by_job 3 (full_db RUNNING))" by code_simp
  ultimately show ?thesis by simp
qed

lemma resolve_continued_result:
  assumes "(case x of Inr (Target_continued, _, _) \<Rightarrow> True | _ \<Rightarrow> False)"
  obtains db' w where "x = (Inr (Target_continued, db', w) :: string + (target_full_outcome \<times> db \<times> db))"
  using assms by (auto split: sum.splits prod.splits target_full_outcome.splits)


theorem copy_run_final_status_witness:
  "\<exists>db' calls j'. finalize_copy_run example_env silent_host (\<lambda>_. None) 3 None False (done_db RUNNING) = (db', calls, Inr Run_ended) \<and>
     get_job 3 db' = Some j' \<and> j_status j' = COMPLETED"
proof -
  let ?r = "finalize_copy_run example_env silent_host (\<lambda>_. None) 3 None False (done_db RUNNING)"
  have "case snd (snd ?r) of Inr Run_ended \<Rightarrow> True | _ \<Rightarrow> False" by code_simp
  then obtain db' calls where r: "?r = (db', calls, Inr Run_ended)"
    by (cases ?r; cases "snd (snd ?r)") (auto split: run_end.splits)
  have j: "get_job 3 (done_db RUNNING) = Some (example_job 3 RUNNING)"
    by (simp add: done_db_def files_db_def overflow_db_def example_job_db_def example_job_def get_job_def row_simps)
  have c: "all_files_finished 3 (example_job 3 RUNNING) (done_db RUNNING)"
    "\<not> target_full_failed example_env (\<lambda>_. None) 3 (done_db RUNNING)" by code_simp+
  have "e_db_ok example_env ''job_final_status''" "e_db_ok example_env ''job_paused''" "e_db_ok example_env ''reset_in_flight''"
    by (simp_all add: example_env_def)
  from copy_run_final_status [OF r j this] r c show ?thesis by auto
qed


theorem engine_respects_jobs_witness:
  "\<exists>db' j'. engine_step (done_db PREPARING) [] db' \<and> get_job 3 db' = Some j' \<and> j_project_id j' = ''P1''"
proof -
  obtain db' r where "start_running example_env 3 (done_db PREPARING) = (db', r)" by (metis surj_pair)
  then have s: "engine_step (done_db PREPARING) [] db'" by (rule es_start)
  have "get_job 3 (done_db PREPARING) = Some (example_job 3 PREPARING)"
    by (simp add: done_db_def files_db_def overflow_db_def example_job_db_def example_job_def get_job_def row_simps)
  from engine_respects_jobs [OF s this] s show ?thesis by (auto simp: example_job_def)
qed

section \<open>Where the code does not do what it means to\<close>

text \<open>A pause request is lost when the run ends with a full target and another drive is reserved: the
  continuation puts the job back to running and the run goes on.\<close>

theorem continuation_overrides_pause:
  "\<exists>db' calls. finalize_copy_run example_env silent_host (\<lambda>_. Some 100) 3 None True (full_db PAUSING) = (db', calls, Inr Repeat_run) \<and>
     map j_status (jobs db') = [RUNNING]"
proof -
  let ?r = "finalize_copy_run example_env silent_host (\<lambda>_. Some 100) 3 None True (full_db PAUSING)"
  have "case snd (snd ?r) of Inr Repeat_run \<Rightarrow> True | _ \<Rightarrow> False" "map j_status (jobs (fst ?r)) = [RUNNING]" by code_simp+
  then show ?thesis by (cases ?r; cases "snd (snd ?r)") (auto split: run_end.splits)
qed

text \<open>The drive that ran full becomes available although another running job still writes to it.\<close>

definition shared_db :: db where
  "shared_db = (full_db RUNNING)\<lparr>jobs := [example_job 3 RUNNING, example_job 4 RUNNING],
     assignments := assignments (full_db RUNNING) @ [example_assignment 5 7 4]\<rparr>"

theorem continuation_frees_drive_in_use:
  "\<exists>db' w. resolve_target_full_outcome example_env (\<lambda>_. Some 100) 3 shared_db = Inr (Target_continued, db', w) \<and>
     map_option d_current_state (get_drive 7 db') = Some AVAILABLE \<and> map_option a_drive_id (get_active_for_job 4 db') = Some 7"
proof -
  let ?r = "resolve_target_full_outcome example_env (\<lambda>_. Some 100) 3 shared_db"
  have c: "case ?r of Inr (Target_continued, db', _) \<Rightarrow> map_option d_current_state (get_drive 7 db') = Some AVAILABLE \<and>
      map_option a_drive_id (get_active_for_job 4 db') = Some 7 | _ \<Rightarrow> False" by code_simp
  then obtain db' w where "?r = Inr (Target_continued, db', w)"
    by (auto split: sum.splits prod.splits target_full_outcome.splits)
  with c show ?thesis by auto
qed

text \<open>Verification looks for every file on the last drive of the job: after a continuation on a second drive an
  intact file on the first one counts as failed.\<close>

definition continued_db :: db where
  "continued_db = (done_db VERIFYING)\<lparr>jobs := [(example_job 3 VERIFYING)\<lparr>j_target_mount_path := Some ''/mnt/8''\<rparr>]\<rparr>"

definition first_drive_checksum :: "string \<Rightarrow> copy_result" where
  "first_drive_checksum p = (if p = ''/mnt/7/a.txt'' then Copied ''c0'' else Copy_failed ''No such file'')"

theorem verification_misses_earlier_drive:
  "map (\<lambda>f. (map_option d_mount_path (get_drive 7 continued_db), f_drive_assignment_id f, f_checksum f)) (files continued_db) =
     [(Some (Some ''/mnt/7''), Some 1, Some ''c0'')] \<and>
   first_drive_checksum ''/mnt/7/a.txt'' = Copied ''c0'' \<and>
   map j_status (jobs (fst (run_verify_job example_env silent_host first_drive_checksum (\<lambda>_. True) 3 continued_db))) = [JFAILED]"
  by (intro conjI) code_simp+

end
