(* ===== verification/Startup_Examples.thy ===== *)
theory Startup_Examples
  imports Startup_Safety Copy_Examples
begin

text \<open>
  Concrete start-up analyses: the theorems about them applied to a source with two files, one of which has been copied
  before and has grown since, and the situations in which the code does not do what it means to.
\<close>

definition example_tree :: "tree_entry list" where
  "example_tree = [Tree_dir [] (Some 5), Tree_file ''a.txt'' 10, Tree_file ''b.txt'' 20]"

definition example_host :: source_host where
  "example_host = \<lparr>sh_walk = (\<lambda>_. (example_tree, None)), sh_is_dir = (\<lambda>p. p = ''/nfs/p1/a''),
     sh_file_size = map_of [(''/nfs/p1/a/a.txt'', 10), (''/nfs/p1/a/b.txt'', 20)], sh_dir_mtime = map_of [(''/nfs/p1/a'', 5)]\<rparr>"

definition example_provider :: benchmark_provider where
  "example_provider = \<lparr>bp_read = (\<lambda>_. Inl ''share is gone''), bp_write = (\<lambda>_ _. Inl ''drive is gone'')\<rparr>"

definition example_analysis :: analysis_config where
  "example_analysis = \<lparr>ac_batch_size = 1, ac_small_max = 15, ac_large_min = 100, ac_benchmark_bytes = 8, ac_cwd = ''/''\<rparr>"

text \<open>A row for \<open>a.txt\<close>, finished when the file had seven bytes, and one for a file that is gone.\<close>

definition row_before :: "int \<Rightarrow> string \<Rightarrow> file_status \<Rightarrow> export_file" where
  "row_before i rel st = (example_file i st None)\<lparr>f_relative_path := rel, f_size_bytes := Some 7, f_checksum := Some ''old''\<rparr>"

definition analysis_db :: db where
  "analysis_db = files_db [row_before 1 ''a.txt'' DONE, row_before 2 ''gone.txt'' ERROR] JPENDING"

lemma example_prepared:
  "\<exists>db' r. prepare_job_startup_analysis example_env example_settings example_host example_provider example_analysis False 3 analysis_db =
     (db', Inr r) \<and> \<not> pr_reused r \<and> files db' = [(row_before 1 ''a.txt'' DONE)\<lparr>f_size_bytes := Some 10, f_startup_analysis_revision := 1\<rparr>,
       new_file (example_job 3 JPENDING) 1 3 ''b.txt'' 20]"
proof -
  let ?p = "prepare_job_startup_analysis example_env example_settings example_host example_provider example_analysis False 3 analysis_db"
  have "(case ?p of (db', Inl _) \<Rightarrow> False | (db', Inr r) \<Rightarrow> \<not> pr_reused r \<and>
      files db' = [(row_before 1 ''a.txt'' DONE)\<lparr>f_size_bytes := Some 10, f_startup_analysis_revision := 1\<rparr>,
       new_file (example_job 3 JPENDING) 1 3 ''b.txt'' 20])" by code_simp
  then show ?thesis by (auto split: prod.splits sum.splits)
qed

lemma analysis_job: "get_job 3 analysis_db = Some (example_job 3 JPENDING)"
  by (simp add: analysis_db_def files_db_def overflow_db_def example_job_db_def get_job_def get_row_def example_job_def)

lemma analysis_db_wf: "analysis_wf 3 analysis_db"
proof -
  have "pk_ok f_id (files analysis_db)" "pk_ok n_id (entries analysis_db)" "load_legacy_cache (example_job 3 JPENDING) = None"
    "list_all (\<lambda>f. f_startup_analysis_revision f = 0) (files analysis_db)" "sa_revision (j_analysis (example_job 3 JPENDING)) = 0"
    by code_simp+
  then show ?thesis using analysis_job by (auto simp: analysis_wf_def list_all_iff files_of_def)
qed

lemma example_host_faithful: "faithful_source example_host (j_source_path (example_job 3 JPENDING))"
proof -
  have "distinct (map fst (tree_files example_tree))" by code_simp
  moreover have "list_all (\<lambda>x. 0 \<le> snd x \<and> file_matches example_host ''/nfs/p1/a'' x) (tree_files example_tree)"
    "directory_matches example_host ''/nfs/p1/a'' ([], 5)" by code_simp+
  ultimately show ?thesis
    by (auto simp: faithful_source_def example_host_def example_tree_def example_job_def Let_def list_all_iff)
qed

lemma example_batch: "0 < ac_batch_size example_analysis"
  by (simp add: example_analysis_def)

theorem preparation_describes_source_witness:
  "\<exists>db' r j'. prepare_job_startup_analysis example_env example_settings example_host example_provider example_analysis False 3
     analysis_db = (db', Inr r) \<and> get_job 3 db' = Some j' \<and> sa_status (j_analysis j') = READY \<and> j_file_count j' = 2"
proof -
  obtain db' r where p: "prepare_job_startup_analysis example_env example_settings example_host example_provider example_analysis False 3
      analysis_db = (db', Inr r)"
    and f: "files db' = [(row_before 1 ''a.txt'' DONE)\<lparr>f_size_bytes := Some 10, f_startup_analysis_revision := 1\<rparr>,
       new_file (example_job 3 JPENDING) 1 3 ''b.txt'' 20]" using example_prepared by blast
  have "length (files_of 3 db') = 2" by (simp add: files_of_def f row_before_def example_file_def new_file_def example_job_def)
  with preparation_describes_source [OF p analysis_job analysis_db_wf example_host_faithful example_batch] p show ?thesis by auto
qed

theorem preparation_repeatable_witness:
  "\<exists>db' r db2 r2. prepare_job_startup_analysis example_env example_settings example_host example_provider example_analysis False 3
     analysis_db = (db', Inr r) \<and>
   prepare_job_startup_analysis example_env example_settings example_host example_provider example_analysis False 3 db' = (db2, Inr r2) \<and>
   \<not> pr_reused r \<and> pr_reused r2"
proof -
  obtain db' r where p: "prepare_job_startup_analysis example_env example_settings example_host example_provider example_analysis False 3
      analysis_db = (db', Inr r)" "\<not> pr_reused r" using example_prepared by blast
  have "e_db_ok example_env x" for x by (simp add: example_env_def)
  from preparation_repeatable [OF p(1) analysis_job analysis_db_wf example_host_faithful example_batch this] p show ?thesis by blast
qed

theorem fresh_preparation_exact_witness:
  "\<exists>db' r. prepare_job_startup_analysis example_env example_settings example_host example_provider example_analysis False 3
     analysis_db = (db', Inr r) \<and> set (map file_value (files_of 3 db')) = {(''a.txt'', 10), (''b.txt'', 20)}"
proof -
  obtain db' r where p: "prepare_job_startup_analysis example_env example_settings example_host example_provider example_analysis False 3
      analysis_db = (db', Inr r)" "\<not> pr_reused r" using example_prepared by blast
  from fresh_preparation_exact [OF p analysis_job analysis_db_wf example_host_faithful example_batch] p(1)
  have "set (map file_value (files_of 3 db')) = set (tree_files (fst (sh_walk example_host ''/nfs/p1/a'')))"
    by (auto simp: example_job_def)
  also have "\<dots> = {(''a.txt'', 10), (''b.txt'', 20)}" by (simp add: example_host_def example_tree_def)
  finally show ?thesis using p(1) by blast
qed

theorem failed_preparation_witness:
  "\<exists>db' err j'. prepare_job_startup_analysis example_env example_settings example_host example_provider example_analysis True 3
     analysis_db = (db', Inl err) \<and> get_job 3 db' = Some j' \<and> sa_status (j_analysis j') = SA_FAILED"
proof -
  let ?p = "prepare_job_startup_analysis example_env example_settings example_host example_provider example_analysis True 3 analysis_db"
  have "isl (snd ?p)" by code_simp
  then obtain db' err where p: "?p = (db', Inl err)" by (cases ?p) (auto simp: isl_def)
  have "e_db_ok example_env ''analysis_failed''" by (simp add: example_env_def)
  from failed_preparation [OF p analysis_job this] p show ?thesis by blast
qed

theorem cache_check_exact_witness:
  "cached_analysis_is_current example_host 2 (example_job 3 JPENDING) analysis_db \<longleftrightarrow>
     cache_describes_source example_host (example_job 3 JPENDING) analysis_db"
proof -
  have "(0 :: nat) < 2" "pk_ok f_id (files analysis_db)" "pk_ok n_id (entries analysis_db)"
    using analysis_db_wf by (simp_all add: analysis_wf_def)
  then show ?thesis by (rule cache_check_exact)
qed

section \<open>Workload profiles\<close>

definition profile_entry :: "int \<Rightarrow> int \<Rightarrow> analysis_entry" where
  "profile_entry i n = \<lparr>n_id = i, n_job_id = 3, n_entry_type = ''file'', n_relative_path = ''a.txt'', n_size_bytes = Some n, n_mtime_ns = None\<rparr>"

definition profile_db :: db where
  "profile_db = (files_db [] JPENDING)\<lparr>entries := [profile_entry 1 10, profile_entry 2 11, profile_entry 3 900]\<rparr>"

theorem recommendation_sound_witness:
  "\<exists>key p. recommend_workload_profile (build_size_distribution_summary (summarize_file_size_distribution 3 15 100 profile_db)) = Some key \<and>
     map_of workload_profiles key = Some p"
proof -
  have "0 < total_files (summarize_file_size_distribution 3 15 100 profile_db)" by code_simp
  from recommendation_sound [OF refl this] show ?thesis by blast
qed

theorem apply_profile_effective_witness:
  "\<exists>db' calls j'. apply_recommended_workload_profile example_env example_settings 15 100 3 profile_db = (db', calls, Inr j') \<and>
     get_job 3 db' = Some j'"
proof -
  let ?r = "apply_recommended_workload_profile example_env example_settings 15 100 3 profile_db"
  have "\<not> isl (snd (snd ?r))" by code_simp
  from result_Inr [OF this] obtain db' calls j' where r: "?r = (db', calls, Inr j')" by blast
  from apply_profile_effective [OF r] r show ?thesis by blast
qed

section \<open>Where the code does not do what it means to\<close>

text \<open>A finished file that has grown in the source stays finished: the row gets the new size and keeps the checksum of the
  old content, so the file is not copied again.\<close>

theorem grown_file_stays_done:
  "\<exists>db' r f. prepare_job_startup_analysis example_env example_settings example_host example_provider example_analysis False 3
     analysis_db = (db', Inr r) \<and> f \<in> set (files_of 3 db') \<and> f_relative_path f = ''a.txt'' \<and> f_status f = DONE \<and>
     f_size_bytes f = Some 10 \<and> f_checksum f = Some ''old'' \<and> f_size_bytes (row_before 1 ''a.txt'' DONE) = Some 7"
proof -
  obtain db' r where p: "prepare_job_startup_analysis example_env example_settings example_host example_provider example_analysis False 3
      analysis_db = (db', Inr r)"
    and f: "files db' = [(row_before 1 ''a.txt'' DONE)\<lparr>f_size_bytes := Some 10, f_startup_analysis_revision := 1\<rparr>,
       new_file (example_job 3 JPENDING) 1 3 ''b.txt'' 20]" using example_prepared by blast
  have "(row_before 1 ''a.txt'' DONE)\<lparr>f_size_bytes := Some 10, f_startup_analysis_revision := 1\<rparr> \<in> set (files_of 3 db')"
    by (simp add: files_of_def f row_before_def example_file_def)
  with p show ?thesis by (intro exI conjI) (assumption, auto simp: row_before_def example_file_def)
qed

text \<open>If the audit entry of an automatic profile cannot be written, the rollback takes the profile with it, but the
  profile is still reported as applied.\<close>

theorem lost_profile_reported:
  assumes "\<not> e_db_ok e ''JOB_WORKLOAD_PROFILE_AUTO_APPLIED''" "j_auto_apply_recommended_profile j"
    "\<not> job_has_explicit_copy_tuning_overrides st j" "fst (apply_workload_profile key j)"
  shows "auto_apply_profile e st j s (Some key) db = (db, True)"
  using assms by (simp add: auto_apply_profile_def audit_add_def)

text \<open>The estimated duration counts the overhead of at most sixteen files, however many the source has: the file count
  given to the estimate is that of the sample.\<close>

lemma scanned_sample_bounded:
  "persist_startup_analysis_cache e h n j db = Inr (db', k, b, samples) \<Longrightarrow> length samples \<le> startup_analysis_sample_limit"
proof -
  have entry: "length (sc_sample_files s') \<le> startup_analysis_sample_limit"
    if "scan_entry n j r s x = Inr s'" "length (sc_sample_files s) \<le> startup_analysis_sample_limit" for r s x s'
    using that by (auto simp: scan_entry_def Let_def split: tree_entry.splits option.splits if_splits)
  have tree: "length (sc_sample_files s') \<le> startup_analysis_sample_limit"
    if "scan_tree n j r xs s = Inr s'" "length (sc_sample_files s) \<le> startup_analysis_sample_limit" for r xs s s'
    using that by (induction xs arbitrary: s) (auto split: sum.splits dest: entry)
  assume "persist_startup_analysis_cache e h n j db = Inr (db', k, b, samples)"
  then show ?thesis
    by (auto simp: persist_startup_analysis_cache_def Let_def scan_start_def split: sum.splits option.splits if_splits prod.splits dest!: tree)
qed

end
