(* ===== verification/Reconcile_Examples.thy ===== *)
theory Reconcile_Examples
  imports Reconcile_Entry Startup_Examples
begin

text \<open>
  Concrete reconciliations: a restart while a job copies, drives that lost their mount or their binding, a share mounted from a wrong source, and the
  properties applied to them.
\<close>

section \<open>Jobs\<close>

definition restart_db :: db where
  "restart_db = files_db [example_file 1 COPYING None, example_file 2 DONE None] RUNNING"

lemma restart_pk: "pk_ok j_id (jobs restart_db)" "pk_ok d_id (drives restart_db)" "pk_ok m_id (shares restart_db)"
  by code_simp+

lemma restart_run: "\<exists>db' calls s. reconcile_jobs example_env example_host 10 (\<lambda>_. None) restart_db = (db', calls, Inr s) \<and> map j_status (jobs db') = [JFAILED] \<and>
    map f_status (files db') = [FPENDING, DONE] \<and> s = \<lparr>js_checked = 1, js_corrected = 1, js_analysis_checked = 0, js_analysis_corrected = 0\<rparr>"
proof -
  have "case reconcile_jobs example_env example_host 10 (\<lambda>_. None) restart_db of (db', calls, r) \<Rightarrow>
      (case r of Inl _ \<Rightarrow> False | Inr s \<Rightarrow> map j_status (jobs db') = [JFAILED] \<and> map f_status (files db') = [FPENDING, DONE] \<and>
        s = \<lparr>js_checked = 1, js_corrected = 1, js_analysis_checked = 0, js_analysis_corrected = 0\<rparr>)" by code_simp
  then show ?thesis by (auto split: prod.splits sum.splits)
qed

theorem reconcile_jobs_exact_witness:
  "\<exists>db' calls s. reconcile_jobs example_env example_host 10 (\<lambda>_. None) restart_db = (db', calls, Inr s) \<and> js_corrected s = 1 \<and>
     (\<forall>j\<in>set (jobs db'). \<not> looks_active j)"
proof -
  obtain db' calls s where r: "reconcile_jobs example_env example_host 10 (\<lambda>_. None) restart_db = (db', calls, Inr s)" "js_corrected s = 1"
    using restart_run by auto
  from reconcile_jobs_exact [OF r(1) restart_pk(1)] r show ?thesis by blast
qed

theorem reconcile_jobs_idempotent_witness:
  "\<exists>db' calls s. reconcile_jobs example_env example_host 10 (\<lambda>_. None) restart_db = (db', calls, Inr s) \<and> db' \<noteq> restart_db \<and>
     reconcile_jobs example_env example_host 10 (\<lambda>_. None) db' =
       (db', [], Inr \<lparr>js_checked = 0, js_corrected = 0, js_analysis_checked = 0, js_analysis_corrected = 0\<rparr>)"
proof -
  obtain db' calls s where r: "reconcile_jobs example_env example_host 10 (\<lambda>_. None) restart_db = (db', calls, Inr s)" "map j_status (jobs db') = [JFAILED]"
    using restart_run by auto
  have "map j_status (jobs restart_db) = [RUNNING]" by code_simp
  then have "db' \<noteq> restart_db" using r(2) by auto
  with reconcile_jobs_idempotent [OF r(1) restart_pk(1), of example_env example_host 10 "\<lambda>_. None"] r(1) show ?thesis by blast
qed

section \<open>Drives\<close>

text \<open>Drive 7 is in use without a binding; job 3 copies to it.\<close>

definition unbound_db :: db where
  "unbound_db = (overflow_db RUNNING)\<lparr>drives := [example_drive 7 IN_USE None (Some ''/mnt/7''), (example_drive 9 AVAILABLE (Some ''P2'') None)\<lparr>d_filesystem_path := Some ''/dev/sdc1''\<rparr>]\<rparr>"

definition example_usb :: usb_mount_host where
  "example_usb = \<lparr>uh_realpath = (\<lambda>p. p), uh_table = (\<lambda>_. [(''/mnt/7'', ''/dev/sdb1''), (''/mnt/5'', ''/dev/sdz1'')]), uh_mount = (\<lambda>_ _ _. True),
     uh_unmount = (\<lambda>_ _. True), uh_base_path = ''/mnt'', uh_operation_id = None\<rparr>"

theorem owner_resolution_exact_witness:
  "resolve_usb_drive_owner 7 [''/mnt/7''] unbound_db = Owner ''P1'' \<and>
     (\<exists>j. speaks_for 7 [''/mnt/7''] unbound_db j \<and> normalize_project_id (j_project_id j) = ''P1'') \<and>
     (\<lambda>j. normalize_project_id (j_project_id j)) ` {j. speaks_for 7 [''/mnt/7''] unbound_db j} \<subseteq> {[], ''P1''}"
proof -
  have pk: "pk_ok j_id (jobs unbound_db)" by code_simp
  have r: "resolve_usb_drive_owner 7 [''/mnt/7''] unbound_db = Owner ''P1''" by code_simp
  from owner_resolution_exact [OF pk, of 7 "[''/mnt/7'']"] show ?thesis unfolding r owner_resolution.case by blast
qed


section \<open>Shares\<close>

definition example_share_pass :: share_pass_config where
  "example_share_pass = \<lparr>sc_table = [(''/nfs/p1'', ''srv:/other''), (''/nfs/stray'', ''srv:/z'')], sc_base_path = ''/'', sc_cwd = ''/'', sc_realpath = (\<lambda>p. p), sc_operation_id = None\<rparr>"

theorem network_mounts_safe_witness:
  "\<exists>db' calls r. reconcile_network_mounts example_env (\<lambda>_. example_share_provider) example_share_pass share_db = (db', calls, r) \<and>
     Share_call (Share_unmount ''/nfs/p1'') \<in> set calls \<and> shares_ok db' \<and> (\<forall>x\<in>set calls. share_call_ok example_share_pass share_db x)"
proof -
  obtain db' calls r where run: "reconcile_network_mounts example_env (\<lambda>_. example_share_provider) example_share_pass share_db = (db', calls, r)" by (metis prod_cases3)
  have "list_ex (\<lambda>x. x = Share_call (Share_unmount ''/nfs/p1'')) (fst (snd (reconcile_network_mounts example_env (\<lambda>_. example_share_provider) example_share_pass share_db)))"
    by code_simp
  then have "Share_call (Share_unmount ''/nfs/p1'') \<in> set calls" unfolding run by (simp add: list_ex_iff)
  with network_mounts_safe [OF run share_db_ok] run show ?thesis by blast
qed

section \<open>Entry points\<close>

theorem identity_commands_contained_witness:
  "\<exists>s' calls sm x. reconcile_identity_users \<lparr>ic_demo_mode = False, ic_demo_accounts = [], ic_demo_shared_password = []\<rparr>
       (linux_os_user_provider (example_os (Exec_exited 0 []))) [(''alice'', ''admin'')] example_accounts = (s', calls, sm) \<and>
     x \<in> set calls \<and> (\<exists>u role. (u, role) \<in> {(''alice'', ''admin'')} \<and> names_account (example_os (Exec_exited 0 [])) u x)"
proof -
  let ?c = "\<lparr>ic_demo_mode = False, ic_demo_accounts = [], ic_demo_shared_password = []\<rparr>" and ?h = "example_os (Exec_exited 0 [])"
  obtain s' calls sm where run: "reconcile_identity_users ?c (linux_os_user_provider ?h) [(''alice'', ''admin'')] example_accounts = (s', calls, sm)" by (metis prod_cases3)
  have "fst (snd (reconcile_identity_users ?c (linux_os_user_provider ?h) [(''alice'', ''admin'')] example_accounts)) =
      [([''/usr/sbin/usermod'', ''-aG'', ''ecube-admins'', ''alice''], None)]" by code_simp
  then have "([''/usr/sbin/usermod'', ''-aG'', ''ecube-admins'', ''alice''], None) \<in> set calls" using run by simp
  with identity_commands_contained [OF run this] run show ?thesis by force
qed

definition example_start :: startup_config where
  "example_start =
     \<lparr>sg_kill = (\<lambda>_. No_such_process), sg_pid = 42, sg_users = Some (linux_os_user_provider (example_os (Exec_exited 0 []))),
      sg_identity = \<lparr>ic_demo_mode = False, ic_demo_accounts = [], ic_demo_shared_password = []\<rparr>, sg_seed_demo = (\<lambda>s. (s, [], True)),
      sg_shares = (\<lambda>_. example_share_provider), sg_share_pass = example_share_pass, sg_usb = Some example_usb, sg_source = example_host, sg_batch = 10,
      sg_probe = (\<lambda>_. None), sg_disc = example_cfg, sg_topology = no_hardware\<rparr>"

definition restart_state :: startup_state where
  "restart_state = \<lparr>su_lock = None, su_accounts = example_accounts, su_roles = [(''alice'', ''admin'')], su_db = restart_db\<rparr>"


end
