(* ===== verification/Spec2Isabelle.thy ===== *)
theory Spec2Isabelle
  imports Reconcile_Examples
begin

text \<open>
  Verification of ECUBE, a server that copies evidence from network shares to USB drives. Sources are
  named relative to \<open>src/app\<close>.

  \<^bold>\<open>The program.\<close> Drives are discovered, formatted, bound to a project, mounted and ejected by the drive
  service; the discovery service synchronises the stored drives with the hardware. The share service mounts
  the network shares that hold the sources. A job copies one source
  directory to drives of its project; requests create, edit, start, pause, retry, continue, verify, complete,
  archive and delete it. The copy engine runs started jobs: the source is scanned and its analysis cached, a scheduler feeds
  worker threads, each worker
  copies and hashes one file at a time, a writer thread commits the progress counters, and the end of a run
  decides the status of the job or goes on with the next reserved drive. At start-up, and for mounts on request, the
  reconciliation service brings accounts, mounts, jobs and drives back in line with the database; a lock row keeps other
  processes out. Requests are authenticated with tokens, which the login issues for accounts of the operating system, and
  authorised by roles. All parts share one database, which is
  the state of the model: a record of tables (\<open>Schema\<close>, from \<open>models/\<close>), each a list of
  records with the columns as fields. The lock row, the table of roles and the accounts of the host are separate values.

  \<^bold>\<open>Conventions.\<close> A request is a function from the database to the new database, the calls to the
  outside (\<open>drive_effect\<close>, \<open>job_effect\<close>, \<open>share_effect\<close>, \<open>reconcile_effect\<close>) and either an error value or a
  result; every
  exception of the source is such an error. The record \<open>env\<close> gives the clock, the actor, which rows
  are locked by others and, for every commit by name, whether it succeeds. Operations on accounts are written in a
  small state and error monad that records the commands (\<open>os_action\<close>). Host operations (mounting,
  formatting, reading and writing files, probing free space, account tools, signals) and libraries (cipher, JWT, PAM) are arguments.
  Times are integers, \<open>float\<close>
  delays are rationals, file contents are lists of 8-bit words, texts are character lists.

  \<^bold>\<open>Theories.\<close>
  \<^item> \<open>Prelude\<close>: lists, options, text and row operations; the locale \<open>row_store\<close> for tables.
  \<^item> \<open>Paths\<close>, \<open>Sanitize\<close>: POSIX path functions, overlap of sources, mount slots
    (\<open>utils/path_overlap.py\<close>, \<open>utils/network_mount_paths.py\<close>, \<open>infrastructure/\<close>),
    source-path policy and redaction (\<open>utils/sanitize.py\<close>, \<open>services/audit_service.py\<close>).
  \<^item> \<open>Mount_Table\<close>: the parser of the mount table of the kernel (\<open>infrastructure/mount_info.py\<close>).
  \<^item> \<open>Drive_Identity\<close>: identifiers of drives (\<open>utils/drive_identity.py\<close>).
  \<^item> \<open>Schema\<close>: tables, drive and share repositories, the audit repository.
  \<^item> \<open>Drive_Service\<close>, \<open>Drive_Safety\<close>: \<open>services/drive_service.py\<close> and what it
    guarantees; the locale \<open>isolating\<close> for steps that keep project bindings, with its theorem over
    histories.
  \<^item> \<open>Discovery\<close>: \<open>services/discovery_service.py\<close>.
  \<^item> \<open>Job_Repository\<close>, \<open>Job_Service\<close>: \<open>repositories/job_repository.py\<close>,
    \<open>services/copy_tuning.py\<close>, \<open>services/job_service.py\<close>; \<open>Job_Safety\<close> (creation, life
    cycle as a transition relation, isolation), \<open>Job_Reports\<close> (manifests, attention list, deletion, overflow),
    \<open>Job_Examples\<close> (concrete requests); \<open>Workload_Profiles\<close>: \<open>services/workload_profiles.py\<close>.
  \<^item> \<open>Copy_File\<close>, \<open>Copy_Worker\<close>, \<open>Copy_Job\<close>, \<open>Copy_Scheduler\<close>:
    \<open>services/copy_engine.py\<close>. The copy of one file and its two-thread variant with a bounded queue; one
    attempt and the progress writer; the full target, the end of a run, the failure handler and verification;
    the scheduling loop with its workers as a step relation, with the locale \<open>file_worker\<close> for what the
    scheduler relies on. \<open>Copy_Safety\<close> holds the guarantees of the job side, \<open>Copy_Examples\<close>
    concrete runs and the places where the code does not do what it means to.
  \<^item> \<open>Startup_Analysis\<close>, \<open>Startup_Safety\<close>, \<open>Startup_Examples\<close>: the scan of the source, the
    analysis cache, its check and the preparation of a job in \<open>services/copy_engine.py\<close>.
  \<^item> \<open>Share_Paths\<close>, \<open>Share_Service\<close>, \<open>Share_Safety\<close>, \<open>Share_Examples\<close>, \<open>Share_Provider\<close>:
    remote paths, requests, isolation of shares and the commands of the Linux provider
    (\<open>services/share_service.py\<close>, \<open>services/share_credentials_service.py\<close>).
  \<^item> \<open>Os_Users\<close>, \<open>Os_Safety\<close>: accounts and groups of the host (\<open>services/os_user_service.py\<close>,
    \<open>constants.py\<close>) and the guards of the commands.
  \<^item> \<open>Auth\<close>, \<open>Auth_Safety\<close>: tokens, role resolution, access control, login and password change (\<open>auth.py\<close>,
    \<open>auth_providers.py\<close>, \<open>services/oidc_service.py\<close>, \<open>services/pam_service.py\<close>,
    \<open>repositories/user_role_repository.py\<close>, \<open>routers/auth.py\<close>).
  \<^item> \<open>Reconcile_Jobs\<close>, \<open>Reconcile_Mounts\<close>, \<open>Reconcile_Lock\<close>, \<open>Reconcile_Run\<close>:
    \<open>services/reconciliation_service.py\<close>. The passes over jobs and over mounts; the lock with its interleaved transactions as
    a step relation; the pass over accounts and the entry points. \<open>Reconcile_Safety\<close>, \<open>Reconcile_Usb\<close>,
    \<open>Reconcile_Net\<close> and \<open>Reconcile_Entry\<close> hold the guarantees, the last one with the locale
    \<open>account_provider\<close> for what the pass over accounts relies on; \<open>Reconcile_Examples\<close> holds concrete runs.
  \<^item> this theory: the whole system as one step relation and project isolation over any history.

  \<^bold>\<open>What is shown.\<close> Project isolation along every sequence of requests, engine transactions, tasks, reconciliations and
  synchronisations; the guards and effects of initialising, formatting, mounting and ejecting a drive, with
  compensation of failed mounts; ownership is kept by discovery; contained and safe source paths, complete
  redaction, sound overlap classification, identifiers that round-trip; creation, life cycle, exclusive start,
  archiving, deletion, overflow and manifests of jobs; an intact copy behind every file recorded as done, progress
  counters that follow the files, no lost update of the writer; the two-thread copy refines the sequential one
  and always ends; the scheduler never runs two attempts of a file, makes boundedly many attempts and leaves no
  file behind; the final status of a run, safe continuation on the next drive, exact verification; an analysis cache that
  describes the source and files that are exactly those of the source after a fresh preparation; shares whose remote directories do
  not overlap across projects, removal only after an unmount, secrets that stay out of the commands, mounts that are confirmed by the
  host; a mount table read as the kernel wrote it; after a restart no job looks active, owners are restored only when they are unique,
  mounts are changed only under the managed directories, the lock admits one process; account commands
  only for managed accounts; access only with a granted role, tokens read back as issued. Lemmas without a number and the lemmas named in the
  findings of the manifest show the places where the code does less than it means to.

  \<^bold>\<open>Bounds and termination.\<close> No fuel is used: loops are structural recursions, or functions with
  termination proofs (the copy loop over the remaining bytes, the rounds of the benchmark plan, the scan of the
  attention list). Acquiring the lock is at most five transactions, and the function is that many steps of the step function, after which the session has
  decided. Threads and processes are step relations; termination of the two-thread copy and the bound on the attempts of
  the scheduler are theorems.

  \<^bold>\<open>Hypotheses.\<close> Primary keys are unique where a theorem says \<open>pk_ok\<close>. Steps of others between
  two transactions are arbitrary functions on the database or explicit steps; a theorem that needs them to
  leave something alone says so (\<open>quiet_race\<close>: the concurrent insert of a synchronisation touches hubs and ports only). Stored projects are
  normalised for the mount passes (\<open>projects_normal\<close>), demo mode is off for the theorem on start-up since the seeding of a demo
  environment is an argument, and a token round-trips only with a library that decodes the claims it encoded.

  \<^bold>\<open>Not modelled.\<close> Job notes and the overflow report; the search queries of the audit log and chain of custody
  reports; session middleware, the LDAP client, password ageing and the seeding of a demo environment; callbacks;
  configuration, setup and administration; HTTP routing and schemas
  apart from the job body, the share body and the login routes; introspection, metrics, browsing and telemetry; the web frontend. These are
  host inspection, text reports over several tables, or glue around the parts above. Log records,
  metrics and elapsed times in audit details are not part of the state.
\<close>

section \<open>The system as a step relation\<close>

text \<open>
  The requests and background tasks that write drive rows, each as one step from a database to a
  database. A hardware synchronisation assumes unique primary keys and a concurrent insert that
  touches hubs and ports only; reconciliations assume unique primary keys, and the one of mounts normalised projects. The
  calls of a job request and of a reconciliation are not drive effects: none of them formats a drive.
\<close>

inductive ecube_step :: "db \<Rightarrow> drive_effect list \<Rightarrow> db \<Rightarrow> bool" where
  drive_request: "drive_step db calls db' \<Longrightarrow> ecube_step db calls db'"
| hardware_sync: "pk_ok d_id (drives db) \<Longrightarrow> (\<And>x. drives (cfg_race cfg x) = drives x) \<Longrightarrow>
    run_discovery_sync e cfg t db = (db', summary) \<Longrightarrow> ecube_step db [] db'"
| job_request: "job_step db jcalls db' \<Longrightarrow> ecube_step db [] db'"
| copy_engine: "engine_step db jcalls db' \<Longrightarrow> ecube_step db [] db'"
| startup_analysis: "prepare_job_startup_analysis e st h bp cfg manual i db = (db', r) \<Longrightarrow> ecube_step db [] db'"
| workload_profile: "apply_recommended_workload_profile e st small_max large_min i db = (db', jcalls, jr) \<Longrightarrow> ecube_step db [] db'"
| share_request: "share_step db scalls db' \<Longrightarrow> ecube_step db [] db'"
| job_reconciliation: "pk_ok j_id (jobs db) \<Longrightarrow> reconcile_jobs e h n probe db = (db', jcalls, rj) \<Longrightarrow> ecube_step db [] db'"
| mount_reconciliation: "pk_ok m_id (shares db) \<Longrightarrow> pk_ok d_id (drives db) \<Longrightarrow> projects_normal db \<Longrightarrow>
    reconcile_mounts e p pcfg usb db = (db', mcalls, rm) \<Longrightarrow> ecube_step db [] db'"

lemma reconcile_jobs_binding:
  assumes "reconcile_jobs e h n probe db = (db', calls, r)" "pk_ok j_id (jobs db)"
  shows "keeps_binding i db cs db'"
proof (cases r)
  case (Inl msg)
  then have "db' = db" using assms(1) unfolding reconcile_jobs_def Let_def by (auto split: prod.splits if_splits)
  then show ?thesis by (simp add: same_drives_binding)
next
  case (Inr s)
  then have "drives_probed db db'" using reconcile_jobs_settled(4) [OF assms(1) [unfolded Inr] assms(2)] by (simp add: job_settle_frame_def)
  then show ?thesis by (rule probed_binding)
qed

interpretation ecube: isolating ecube_step
proof
  fix db calls db' i
  assume "ecube_step db calls db'"
  then show "keeps_binding i db calls db'"
  proof cases
    case drive_request
    then show ?thesis by (rule drive_ops.keeps)
  next
    case (hardware_sync cfg e t summary)
    from run_discovery_kept [OF hardware_sync(3,2), of e t] hardware_sync(4) show ?thesis
      by (simp add: drives_kept_binding)
  next
    case (job_request jcalls)
    then show ?thesis using job_step_ok drives_bound_keeps by blast
  next
    case (copy_engine jcalls)
    then show ?thesis using engine_step_safe drives_bound_keeps unfolding engine_safe_def by blast
  next
    case startup_analysis
    from prepare_safe [OF startup_analysis(2)] show ?thesis by (simp add: prep_safe_def same_drives_binding)
  next
    case workload_profile
    from apply_profile_drives [OF workload_profile(2)] show ?thesis by (rule same_drives_binding)
  next
    case (share_request scalls)
    from share_step_only [OF share_request(2)] have "drives db' = drives db"
      unfolding shares_only_def by (metis db.ext_inject db.surjective db.update_convs)
    then show ?thesis by (rule same_drives_binding)
  next
    case job_reconciliation
    then show ?thesis using reconcile_jobs_binding by blast
  next
    case mount_reconciliation
    then show ?thesis using reconcile_mounts_binding by blast
  qed
qed

section \<open>Properties of the whole system\<close>



end
